(* ===== verification/Prelude.thy ===== *)
theory Prelude
  imports Main "HOL-Library.Word" "HOL-Library.Multiset"
begin

text \<open>
  Shared vocabulary of the development: the machine types of the Rust sources as
  words, \<^verbatim>\<open>Result\<close> as a sum with the error on the left, the parts of Rust's
  standard library that the sources call (\<^verbatim>\<open>str::trim\<close>, decimal formatting,
  \<^verbatim>\<open>Iterator::enumerate\<close>, \<^verbatim>\<open>collect\<close> into a \<^verbatim>\<open>Result\<close>), and the lemma collections
  the component theories feed and use.

  Arithmetic on \<^verbatim>\<open>i64\<close>, \<^verbatim>\<open>u64\<close> and \<^verbatim>\<open>u32\<close> is word arithmetic: it wraps, as the
  release profile of the sources does.  A signed value is a word read by \<^term>\<open>sint\<close>.
\<close>

named_theorems result_simps \<open>equations about results of fallible code\<close>
named_theorems handler_defs \<open>definitions of command handlers and their guards\<close>
named_theorems record_intros \<open>ways to establish well-formedness of a record\<close>

subsection \<open>Machine types\<close>

type_synonym u32 = "32 word"
type_synonym u64 = "64 word"
type_synonym i64 = "64 word"
type_synonym i128 = "128 word"
type_synonym uuid = "128 word"
type_synonym datetime = int
  \<comment> \<open>an instant of \<^verbatim>\<open>DateTime<Utc>\<close>, in nanoseconds since the epoch\<close>

abbreviation i64_max :: int where "i64_max \<equiv> 2 ^ 63 - 1"

lemma sint64_range: "- (2 ^ 63) \<le> sint (w :: i64)" "sint (w :: i64) < 2 ^ 63"
  using sint_greater_eq [of w] sint_lt [of w] by simp_all

lemma sint64_wrap:
  "sint ((a :: i64) + b) =
    (if sint a + sint b > i64_max then sint a + sint b - 2 ^ 64
     else if sint a + sint b < - (2 ^ 63) then sint a + sint b + 2 ^ 64
     else sint a + sint b)"
proof -
  let ?s = "sint a + sint b"
  have s: "sint (a + b) = (?s + 2 ^ 63) mod 2 ^ 64 - 2 ^ 63"
    by (simp add: sint_word_ariths(1) signed_take_bit_eq_take_bit_shift take_bit_eq_mod)
  consider (hi) "?s > i64_max" | (lo) "?s < - (2 ^ 63)" | (mid) "- (2 ^ 63) \<le> ?s" "?s \<le> i64_max"
    by linarith
  then show ?thesis
  proof cases
    case hi
    have "(?s + 2 ^ 63) mod 2 ^ 64 = (?s + 2 ^ 63 - 2 ^ 64) mod 2 ^ 64"
      by (metis minus_mod_self2)
    also have "\<dots> = ?s + 2 ^ 63 - 2 ^ 64"
      using hi sint64_range [of a] sint64_range [of b] by (intro mod_pos_pos_trivial) simp_all
    finally show ?thesis using s hi by simp
  next
    case lo
    have "(?s + 2 ^ 63) mod 2 ^ 64 = (?s + 2 ^ 63 + 2 ^ 64) mod 2 ^ 64"
      by (metis mod_add_self2)
    also have "\<dots> = ?s + 2 ^ 63 + 2 ^ 64"
      using lo sint64_range [of a] sint64_range [of b] by (intro mod_pos_pos_trivial) simp_all
    finally show ?thesis using s lo by simp
  next
    case mid
    then have "(?s + 2 ^ 63) mod 2 ^ 64 = ?s + 2 ^ 63"
      by (intro mod_pos_pos_trivial) simp_all
    then show ?thesis using s mid by simp
  qed
qed

lemma sint64_add_exact:
  assumes "- (2 ^ 63) \<le> sint a + sint b" "sint a + sint b < 2 ^ 63"
  shows "sint ((a :: i64) + b) = sint a + sint b"
  using assms by (simp add: sint64_wrap)

text \<open>\<^verbatim>\<open>x as i128\<close> for a signed and for an unsigned 64-bit \<^verbatim>\<open>x\<close>.\<close>

lemma scast128: "(scast (a :: i64) :: i128) = word_of_int (sint a)"
  by (rule scast_eq)

lemma ucast128: "(ucast (a :: u64) :: i128) = word_of_int (uint a)"
  by (rule ucast_eq)

lemma of_nat64_inj:
  assumes "of_nat a = (of_nat b :: u64)" "a < 2 ^ 64" "b < 2 ^ 64"
  shows "a = b"
proof -
  have "unat (of_nat a :: u64) = unat (of_nat b :: u64)" using assms(1) by simp
  then show ?thesis using assms(2,3) by (simp add: unsigned_of_nat take_bit_nat_eq_self)
qed

lemma of_nat64_less:
  assumes "a < b" "b < 2 ^ 64"
  shows "(of_nat a :: u64) < of_nat b"
  using assms by (simp add: word_less_nat_alt unsigned_of_nat take_bit_nat_eq_self)

lemma sint128_of_int:
  assumes "- (2 ^ 127) \<le> k" "k < 2 ^ 127"
  shows "sint (word_of_int k :: i128) = k"
  using assms by (simp add: signed_of_int signed_take_bit_int_eq_self)

lemma uint64_range: "0 \<le> uint (w :: u64)" "uint (w :: u64) < 2 ^ 64"
  using uint_lt2p [of w] by simp_all

lemma sint_scast128 [simp]: "sint (scast (a :: i64) :: i128) = sint a"
  unfolding scast128 using sint64_range [of a] by (intro sint128_of_int) simp_all

lemma sint_ucast128 [simp]: "sint (ucast (a :: u64) :: i128) = uint a"
proof -
  have "uint a < 2 ^ 127" using uint64_range(2) [of a] by (rule order_less_trans) simp
  moreover have "- (2 ^ 127) \<le> uint a" by (rule order_trans [OF _ uint64_range(1)]) simp
  ultimately show ?thesis unfolding ucast128 by (intro sint128_of_int)
qed

text \<open>Checked and saturating arithmetic of the standard library.\<close>

definition u64_checked_add :: "u64 \<Rightarrow> u64 \<Rightarrow> u64 option" where
  "u64_checked_add a b = (if uint a + uint b < 2 ^ 64 then Some (a + b) else None)"

definition u64_saturating_sub :: "u64 \<Rightarrow> u64 \<Rightarrow> u64" where
  "u64_saturating_sub a b = (if b \<le> a then a - b else 0)"

lemma uint_sint64_nonneg:
  assumes "0 \<le> sint (w :: i64)"
  shows "uint w = sint w"
  using assms sint64_range [of w] by (subst uint_sint) (simp add: take_bit_int_eq_self)

definition u64_saturating_mul :: "u64 \<Rightarrow> u64 \<Rightarrow> u64" where
  "u64_saturating_mul a b = (if unat a * unat b < 2 ^ 64 then a * b else -1)"

definition i128_checked_mul :: "i128 \<Rightarrow> i128 \<Rightarrow> i128 option" where
  "i128_checked_mul a b =
    (let p = sint a * sint b in
     if - (2 ^ 127) \<le> p \<and> p < 2 ^ 127 then Some (word_of_int p) else None)"

lemma uint64_add_exact:
  assumes "uint a + uint b < 2 ^ 64"
  shows "uint ((a :: u64) + b) = uint a + uint b"
  using assms by (simp add: uint_word_ariths(1) mod_pos_pos_trivial take_bit_int_eq_self)

lemma u64_checked_add_Some:
  "u64_checked_add a b = Some r \<longleftrightarrow> uint a + uint b < 2 ^ 64 \<and> uint r = uint a + uint b"
  by (auto simp: u64_checked_add_def uint64_add_exact word_uint_eq_iff)

subsection \<open>Results\<close>

text \<open>The \<^verbatim>\<open>?\<close> operator: an error returns early, a value goes on.\<close>

primrec and_then :: "'e + 'a \<Rightarrow> ('a \<Rightarrow> 'e + 'b) \<Rightarrow> 'e + 'b" where
  "and_then (Inl e) f = Inl e"
| "and_then (Inr x) f = f x"

primrec map_err :: "('e \<Rightarrow> 'f) \<Rightarrow> 'e + 'a \<Rightarrow> 'f + 'a" where
  "map_err g (Inl e) = Inl (g e)"
| "map_err g (Inr x) = Inr x"

definition ok_or :: "'a option \<Rightarrow> 'e \<Rightarrow> 'e + 'a" where
  "ok_or x e = (case x of None \<Rightarrow> Inl e | Some y \<Rightarrow> Inr y)"

lemma ok_or_eq_Inr [simp]: "ok_or x e = Inr y \<longleftrightarrow> x = Some y"
  by (auto simp: ok_or_def split: option.splits)

lemma ok_or_simps [simp]: "ok_or None e = Inl e" "ok_or (Some y) e = Inr y"
  by (simp_all add: ok_or_def)

primrec is_ok :: "'e + 'a \<Rightarrow> bool" where
  "is_ok (Inl e) = False"
| "is_ok (Inr x) = True"

lemma and_then_eq_Inr [result_simps]:
  "and_then r f = Inr y \<longleftrightarrow> (\<exists>x. r = Inr x \<and> f x = Inr y)"
  by (cases r) auto

lemma and_then_eq_Inl [result_simps]:
  "and_then r f = Inl e \<longleftrightarrow> r = Inl e \<or> (\<exists>x. r = Inr x \<and> f x = Inl e)"
  by (cases r) auto

lemma map_err_eq_Inr [simp]: "map_err g r = Inr y \<longleftrightarrow> r = Inr y"
  by (cases r) auto

lemma is_ok_iff [result_simps]: "is_ok r \<longleftrightarrow> (\<exists>x. r = Inr x)"
  by (cases r) auto

lemma if_Inl_eq_Inr [result_simps]:
  "(if b then Inl e else r) = Inr y \<longleftrightarrow> \<not> b \<and> r = Inr y"
  by simp

text \<open>\<^verbatim>\<open>iter().map(f).collect::<Result<Vec<_>, _>>()\<close>: the first error, or all values.\<close>

primrec collect_results :: "('a \<Rightarrow> 'e + 'b) \<Rightarrow> 'a list \<Rightarrow> 'e + 'b list" where
  "collect_results f [] = Inr []"
| "collect_results f (x # xs) =
     and_then (f x) (\<lambda>y. and_then (collect_results f xs) (\<lambda>ys. Inr (y # ys)))"

lemma collect_results_Inr [result_simps]:
  "collect_results f xs = Inr ys \<longleftrightarrow> list_all2 (\<lambda>x y. f x = Inr y) xs ys"
  by (induction xs arbitrary: ys) (auto simp: result_simps list_all2_Cons1)

lemma collect_results_total:
  assumes "\<And>x. x \<in> set xs \<Longrightarrow> f x = Inr (g x)"
  shows "collect_results f xs = Inr (map g xs)"
  using assms by (induction xs) auto

text \<open>A loop that checks the elements of a slice with their index, as
  \<^verbatim>\<open>for (idx, e) in xs.iter().enumerate()\<close> with early returns does.\<close>

primrec check_all_from :: "nat \<Rightarrow> (nat \<Rightarrow> 'a \<Rightarrow> 'e + unit) \<Rightarrow> 'a list \<Rightarrow> 'e + unit" where
  "check_all_from i f [] = Inr ()"
| "check_all_from i f (x # xs) = and_then (f i x) (\<lambda>_. check_all_from (Suc i) f xs)"

abbreviation check_all :: "(nat \<Rightarrow> 'a \<Rightarrow> 'e + unit) \<Rightarrow> 'a list \<Rightarrow> 'e + unit" where
  "check_all \<equiv> check_all_from 0"

lemma check_all_from_ok:
  "check_all_from i f xs = Inr () \<longleftrightarrow> (\<forall>k < length xs. f (i + k) (xs ! k) = Inr ())"
  by (induction xs arbitrary: i) (auto simp: result_simps nth_Cons All_less_Suc2 split: nat.splits)

lemma check_all_from_uniform:
  assumes "\<And>i x. f i x = Inr () \<longleftrightarrow> P x"
  shows "check_all_from i f xs = Inr () \<longleftrightarrow> (\<forall>x \<in> set xs. P x)"
  using assms by (induction xs arbitrary: i) (auto simp: result_simps)

subsection \<open>Strings\<close>

text \<open>A \<^verbatim>\<open>String\<close> is the list of its UTF-8 bytes.  \<^verbatim>\<open>str::trim\<close> removes the
  characters of the Unicode property \<^verbatim>\<open>White_Space\<close> at both ends; they have one, two
  or three bytes.\<close>

abbreviation byte :: "char \<Rightarrow> nat" where "byte c \<equiv> of_char c"

definition ws1 :: "char \<Rightarrow> bool" where
  "ws1 c = (9 \<le> byte c \<and> byte c \<le> 13 \<or> byte c = 32)"

definition ws2 :: "char \<Rightarrow> char \<Rightarrow> bool" where
  "ws2 c d = (byte c = 0xC2 \<and> (byte d = 0x85 \<or> byte d = 0xA0))"

definition ws3 :: "char \<Rightarrow> char \<Rightarrow> char \<Rightarrow> bool" where
  "ws3 c d e =
    (byte c = 0xE1 \<and> byte d = 0x9A \<and> byte e = 0x80 \<or>
     byte c = 0xE2 \<and> byte d = 0x80 \<and>
       (0x80 \<le> byte e \<and> byte e \<le> 0x8A \<or> byte e = 0xA8 \<or> byte e = 0xA9 \<or> byte e = 0xAF) \<or>
     byte c = 0xE2 \<and> byte d = 0x81 \<and> byte e = 0x9F \<or>
     byte c = 0xE3 \<and> byte d = 0x80 \<and> byte e = 0x80)"

fun trim_start :: "string \<Rightarrow> string" where
  "trim_start (c # d # e # s) =
     (if ws1 c then trim_start (d # e # s)
      else if ws2 c d then trim_start (e # s)
      else if ws3 c d e then trim_start s
      else c # d # e # s)"
| "trim_start [c, d] =
     (if ws1 c then trim_start [d] else if ws2 c d then [] else [c, d])"
| "trim_start [c] = (if ws1 c then [] else [c])"
| "trim_start [] = []"

text \<open>The same from the end: the argument is the reversed string.\<close>

fun trim_rev :: "string \<Rightarrow> string" where
  "trim_rev (e # d # c # s) =
     (if ws1 e then trim_rev (d # c # s)
      else if ws2 d e then trim_rev (c # s)
      else if ws3 c d e then trim_rev s
      else e # d # c # s)"
| "trim_rev [d, c] =
     (if ws1 d then trim_rev [c] else if ws2 c d then [] else [d, c])"
| "trim_rev [c] = (if ws1 c then [] else [c])"
| "trim_rev [] = []"

definition trim :: "string \<Rightarrow> string" where
  "trim s = rev (trim_rev (rev (trim_start s)))"

lemma trim_Nil [simp]: "trim [] = []"
  by (simp add: trim_def)

lemma trim_nonempty: "trim s \<noteq> [] \<Longrightarrow> s \<noteq> []"
  by auto

text \<open>The character \<^verbatim>\<open>'\<close>, which a string literal cannot contain.\<close>

abbreviation apostrophe :: string where "apostrophe \<equiv> [CHR 0x27]"

text \<open>Decimal rendering of unsigned integers (\<^verbatim>\<open>format!\<close> with \<^verbatim>\<open>{}\<close>).\<close>

fun show_nat :: "nat \<Rightarrow> string" where
  "show_nat n = (if n < 10 then [char_of (48 + n)]
                 else show_nat (n div 10) @ [char_of (48 + n mod 10)])"

declare show_nat.simps [simp del]

definition show_u64 :: "u64 \<Rightarrow> string" where
  "show_u64 w = show_nat (unat w)"

subsection \<open>Folds\<close>

lemma foldl_invariant:
  assumes "I s" "\<And>s x. I s \<Longrightarrow> x \<in> set xs \<Longrightarrow> I (f s x)"
  shows "I (foldl f s xs)"
  using assms by (induction xs arbitrary: s) auto

lemma foldl_preserves:
  assumes "\<And>s x. g (f s x) = g s"
  shows "g (foldl f s xs) = g s"
  using assms by (induction xs arbitrary: s) auto

subsection \<open>Iteration orders\<close>

text \<open>An iteration order of a hash map or set (unspecified in the source) visits its entries,
  each once.\<close>

definition iter_ok :: "('a list \<Rightarrow> 'a list) \<Rightarrow> bool" where
  "iter_ok iter \<longleftrightarrow> (\<forall>xs. mset (iter xs) = mset xs)"

lemma iter_ok_set: "iter_ok iter \<Longrightarrow> set (iter xs) = set xs"
  by (metis iter_ok_def set_mset_mset)

lemma iter_ok_sort: "iter_ok iter \<Longrightarrow> sort (iter xs) = sort xs"
  by (metis iter_ok_def properties_for_sort mset_sort sorted_sort)

end
