(* ===== verification/Core_Domain.thy ===== *)
theory Core_Domain
  imports Prelude
begin

text \<open>
  The crate \<^verbatim>\<open>core\<close>: identifiers (\<^verbatim>\<open>core/src/id.rs\<close>), domain errors
  (\<^verbatim>\<open>core/src/error.rs\<close>) and the optimistic concurrency expectation with the aggregate
  traits (\<^verbatim>\<open>core/src/aggregate.rs\<close>), and the function \<^verbatim>\<open>execute\<close> of
  \<^verbatim>\<open>events/src/handler.rs\<close>.

  The trait \<^verbatim>\<open>Aggregate\<close> with its documented contract is the locale
  \<^verbatim>\<open>aggregate\<close>: every aggregate of the business crates interprets it, and obtains
  the lemmas about replay, command execution and decided histories proved here.
\<close>

subsection \<open>Identifiers\<close>

datatype TenantId = TenantId (tenant_uuid: uuid)
datatype UserId = UserId (user_uuid: uuid)
datatype AggregateId = AggregateId (aggregate_uuid: uuid)

subsection \<open>Errors\<close>

datatype DomainError =
    Validation string
  | InvariantViolation string
  | InvalidId string
  | NotFound
  | Conflict string
  | Unauthorized

type_synonym 'a domain_result = "DomainError + 'a"

subsection \<open>Optimistic concurrency expectation\<close>

datatype ExpectedVersion = Any | Exact u64

primrec expected_matches :: "ExpectedVersion \<Rightarrow> u64 \<Rightarrow> bool" where
  "expected_matches Any actual = True"
| "expected_matches (Exact v) actual = (v = actual)"

primrec show_expected :: "ExpectedVersion \<Rightarrow> string" where
  "show_expected Any = ''Any''"
| "show_expected (Exact v) = ''Exact('' @ show_u64 v @ '')''"

definition expected_check :: "ExpectedVersion \<Rightarrow> u64 \<Rightarrow> unit domain_result" where
  "expected_check self actual =
    (if expected_matches self actual then Inr ()
     else Inl (Conflict (''optimistic concurrency check failed (expected: '' @ show_expected self
            @ '', actual: '' @ show_u64 actual @ '')'')))"

lemma expected_check_ok [simp]:
  "expected_check e a = Inr () \<longleftrightarrow> e = Any \<or> e = Exact a"
  by (cases e) (auto simp: expected_check_def)

subsection \<open>Aggregates: decide with \<^verbatim>\<open>handle\<close>, evolve with \<^verbatim>\<open>apply\<close>\<close>

text \<open>The implementations of the traits \<^verbatim>\<open>Aggregate\<close> and \<^verbatim>\<open>Event\<close> that generic code such
  as the command dispatcher receives through its type parameter.\<close>

record ('s, 'e, 'c) AggregateOps =
  ao_apply :: "'s \<Rightarrow> 'e \<Rightarrow> 's"
  ao_handle :: "'s \<Rightarrow> 'c \<Rightarrow> DomainError + 'e list"
  ao_event_type :: "'e \<Rightarrow> string"
  ao_event_version :: "'e \<Rightarrow> u32"
  ao_occurred_at :: "'e \<Rightarrow> datetime"

text \<open>\<^verbatim>\<open>execute\<close> decides and evolves in place: the aggregate after the call and the
  emitted events, or the error (the aggregate is then not touched).\<close>

definition execute ::
    "('s \<Rightarrow> 'e \<Rightarrow> 's) \<Rightarrow> ('s \<Rightarrow> 'c \<Rightarrow> 'err + 'e list) \<Rightarrow> 's \<Rightarrow> 'c \<Rightarrow> 's \<times> ('err + 'e list)" where
  "execute evolve handle s c =
    (case handle s c of
       Inl err \<Rightarrow> (s, Inl err)
     | Inr events \<Rightarrow> (foldl evolve s events, Inr events))"

text \<open>A history is decided when it is a concatenation of batches each of which
  \<^verbatim>\<open>handle\<close> returned on the state the preceding events replay to.\<close>

inductive decided :: "('s \<Rightarrow> 'e \<Rightarrow> 's) \<Rightarrow> ('s \<Rightarrow> 'c \<Rightarrow> 'err + 'e list) \<Rightarrow> 's \<Rightarrow> 'e list \<Rightarrow> bool"
  for evolve handle init where
  decided_Nil: "decided evolve handle init []"
| decided_step: "\<lbrakk> decided evolve handle init h; handle (foldl evolve init h) c = Inr es \<rbrakk>
    \<Longrightarrow> decided evolve handle init (h @ es)"

locale aggregate =
  fixes evolve :: "'s \<Rightarrow> 'e \<Rightarrow> 's"
    and handle :: "'s \<Rightarrow> 'c \<Rightarrow> 'err + 'e list"
    and version :: "'s \<Rightarrow> u64"
    and invar :: "'s \<Rightarrow> bool"
  assumes version_apply: "version (evolve s e) = version s + 1"
    and handle_invar: "\<lbrakk> invar s; handle s c = Inr es \<rbrakk> \<Longrightarrow> invar (foldl evolve s es)"
begin

lemma version_replay: "version (foldl evolve s es) = version s + of_nat (length es)"
  by (induction es arbitrary: s) (simp_all add: version_apply)

lemma execute_invar:
  assumes "invar s"
  shows "invar (fst (execute evolve handle s c))"
  using assms handle_invar by (auto simp: execute_def split: sum.splits)

lemma decided_invar:
  assumes "decided evolve handle init h" "invar init"
  shows "invar (foldl evolve init h)"
  using assms by induction (auto intro: handle_invar)

lemma decided_version:
  "version (foldl evolve init h) = version init + of_nat (length h)"
  by (rule version_replay)

lemma execute_run_decided:
  assumes "decided evolve handle init h"
  shows "\<exists>h'. decided evolve handle init (h @ h') \<and>
    foldl (\<lambda>s c. fst (execute evolve handle s c)) (foldl evolve init h) cs = foldl evolve init (h @ h')"
  using assms
proof (induction cs arbitrary: h)
  case Nil
  then show ?case by (intro exI [of _ "[]"]) simp
next
  case (Cons c cs)
  let ?s = "foldl evolve init h"
  show ?case
  proof (cases "handle ?s c")
    case (Inl err)
    then show ?thesis using Cons.IH [OF Cons.prems] by (simp add: execute_def)
  next
    case (Inr es)
    then have "decided evolve handle init (h @ es)"
      using Cons.prems by (rule decided_step [rotated])
    from Cons.IH [OF this] obtain h' where
      "decided evolve handle init ((h @ es) @ h')"
      "foldl (\<lambda>s c. fst (execute evolve handle s c)) (foldl evolve init (h @ es)) cs
        = foldl evolve init ((h @ es) @ h')"
      by blast
    then show ?thesis
      using Inr by (intro exI [of _ "es @ h'"]) (simp add: execute_def)
  qed
qed

text \<open>Handlers that decide at most one event per command: every prefix of a decided history
  is decided, and a view that follows each decision follows every history.\<close>

lemma decided_take:
  assumes "decided evolve handle init h" "\<And>s c es. handle s c = Inr es \<Longrightarrow> length es \<le> 1"
  shows "decided evolve handle init (take n h)"
  using assms(1)
proof induction
  case decided_Nil
  then show ?case by (simp add: decided.decided_Nil)
next
  case (decided_step h c es)
  have "take n (h @ es) = take n h \<or> take n (h @ es) = h @ es"
    using assms(2) [OF decided_step.hyps(2)] by (cases "n \<le> length h") auto
  then show ?case
    using decided_step by (auto intro: decided.decided_step)
qed

lemma decided_view:
  assumes "decided evolve handle init h" "invar init"
    "\<And>s c es. invar s \<Longrightarrow> handle s c = Inr es \<Longrightarrow> foldl row (view s) es = view (foldl evolve s es)"
  shows "foldl row (view init) h = view (foldl evolve init h)"
  using assms(1)
proof induction
  case (decided_step h c es)
  then show ?case using assms(3) [OF decided_invar [OF decided_step.hyps(1) assms(2)] decided_step.hyps(2)]
    by simp
qed simp

lemma commands_invar:
  assumes "invar init"
  shows "invar (foldl (\<lambda>s c. fst (execute evolve handle s c)) init cs)"
  using assms by (intro foldl_invariant [where I = invar]) (auto intro: execute_invar)

end

text \<open>Tenant ownership: an aggregate belongs to no tenant before it is created; from then on
  every event it emits carries the tenant of the first.\<close>

locale tenant_aggregate = aggregate evolve handle version invar
  for evolve :: "'s \<Rightarrow> 'e \<Rightarrow> 's"
    and handle :: "'s \<Rightarrow> 'c \<Rightarrow> 'err + 'e list"
    and version :: "'s \<Rightarrow> u64"
    and invar :: "'s \<Rightarrow> bool" +
  fixes owner :: "'s \<Rightarrow> TenantId option"
    and ev_tenant :: "'e \<Rightarrow> TenantId"
  assumes handle_owner: "\<lbrakk> invar s; handle s c = Inr es; e \<in> set es \<rbrakk>
      \<Longrightarrow> owner (foldl evolve s es) = Some (ev_tenant e)"
    and owner_stable: "\<lbrakk> invar s; handle s c = Inr es; owner s = Some t \<rbrakk>
      \<Longrightarrow> owner (foldl evolve s es) = Some t"
begin

lemma decided_owner:
  assumes "decided evolve handle init h" "invar init" "owner init = None"
  shows "\<forall>e \<in> set h. owner (foldl evolve init h) = Some (ev_tenant e)"
  using assms
proof induction
  case (decided_step h c es)
  have inv: "invar (foldl evolve init h)"
    using decided_step.hyps(1) decided_step.prems(1) by (rule decided_invar)
  show ?case
  proof
    fix e assume "e \<in> set (h @ es)"
    then show "owner (foldl evolve init (h @ es)) = Some (ev_tenant e)"
      using handle_owner [OF inv decided_step.hyps(2)] owner_stable [OF inv decided_step.hyps(2)]
        decided_step.IH decided_step.prems by auto
  qed
qed simp

lemma decided_single_tenant:
  assumes "decided evolve handle init h" "invar init" "owner init = None"
    "e \<in> set h" "e' \<in> set h"
  shows "ev_tenant e = ev_tenant e'"
  using decided_owner [OF assms(1-3)] assms(4,5) by (metis option.inject)

end

end
