(* ===== verification/Jobs.thy ===== *)
theory Jobs
  imports Core_Domain "HOL-Library.AList"
begin

text \<open>
  Background jobs: job types, retry policies and status changes
  (\<^verbatim>\<open>infra/src/jobs/types.rs\<close>) and the in-memory job store with its dead-letter queue
  (\<^verbatim>\<open>infra/src/jobs/store.rs\<close>).

  The clock is an argument wherever the code reads it.  A retry delay is computed in floating
  point by \<^verbatim>\<open>RetryPolicy::delay_for_attempt\<close>; it only decides when a failed job is ready again and is
  the argument \<^verbatim>\<open>backoff\<close>, about which nothing is assumed (\<^verbatim>\<open>Retry_Delay\<close> computes it).  Floating point numbers are bit patterns.
  The hash maps are association lists and the order of iteration is an argument.  The locale
  \<^verbatim>\<open>job_store\<close> is what the executor relies on.
\<close>

subsection \<open>Types\<close>

datatype JobId = JobId (job_uuid: uuid)

datatype JobKind =
    AiInference string
  | ProjectionRebuild string
  | SagaStep string string
  | CustomKind string

primrec type_name :: "JobKind \<Rightarrow> string" where
  "type_name (AiInference job_type) = job_type"
| "type_name (ProjectionRebuild projection_name) = projection_name"
| "type_name (SagaStep saga_type step_name) = saga_type"
| "type_name (CustomKind kind) = kind"

datatype JobStatus =
    Pending
  | Running
  | Completed
  | Failed string u32
  | DeadLettered string u32
  | Cancelled

primrec is_terminal :: "JobStatus \<Rightarrow> bool" where
  "is_terminal Pending = False"
| "is_terminal Running = False"
| "is_terminal Completed = True"
| "is_terminal (Failed _ _) = False"
| "is_terminal (DeadLettered _ _) = True"
| "is_terminal Cancelled = True"

primrec is_dead_lettered :: "JobStatus \<Rightarrow> bool" where
  "is_dead_lettered Pending = False"
| "is_dead_lettered Running = False"
| "is_dead_lettered Completed = False"
| "is_dead_lettered (Failed _ _) = False"
| "is_dead_lettered (DeadLettered _ _) = True"
| "is_dead_lettered Cancelled = False"

text \<open>\<^verbatim>\<open>is_retriable\<close>\<close>

primrec is_retriable :: "JobStatus \<Rightarrow> bool" where
  "is_retriable Pending = False"
| "is_retriable Running = False"
| "is_retriable Completed = False"
| "is_retriable (Failed _ _) = True"
| "is_retriable (DeadLettered _ _) = False"
| "is_retriable Cancelled = False"

datatype BackoffStrategy = Fixed | Exponential | Linear

type_synonym duration = nat
  \<comment> \<open>nanoseconds\<close>
type_synonym f64 = "64 word"

record RetryPolicy =
  rt_max_attempts :: u32
  rt_base_delay :: duration
  rt_max_delay :: duration
  rt_strategy :: BackoffStrategy
  rt_jitter :: f64

abbreviation millis :: "nat \<Rightarrow> duration" where "millis n \<equiv> n * 1000000"

text \<open>The double nearest to 0.1, and 0.0.\<close>

definition policy_default :: RetryPolicy where
  "policy_default = \<lparr> rt_max_attempts = 5, rt_base_delay = millis 500, rt_max_delay = millis 60000,
     rt_strategy = Exponential, rt_jitter = 0x3FB999999999999A \<rparr>"

definition no_retry :: RetryPolicy where
  "no_retry = policy_default\<lparr>rt_max_attempts := 0\<rparr>"

definition policy_fixed :: "u32 \<Rightarrow> duration \<Rightarrow> RetryPolicy" where
  "policy_fixed max_attempts delay = \<lparr> rt_max_attempts = max_attempts, rt_base_delay = delay,
     rt_max_delay = delay, rt_strategy = Fixed, rt_jitter = 0 \<rparr>"

definition policy_exponential :: "u32 \<Rightarrow> duration \<Rightarrow> duration \<Rightarrow> RetryPolicy" where
  "policy_exponential max_attempts base_delay max_delay = \<lparr> rt_max_attempts = max_attempts,
     rt_base_delay = base_delay, rt_max_delay = max_delay, rt_strategy = Exponential,
     rt_jitter = 0x3FB999999999999A \<rparr>"

definition should_retry :: "RetryPolicy \<Rightarrow> u32 \<Rightarrow> bool" where
  "should_retry self attempt \<longleftrightarrow> attempt < rt_max_attempts self"

record JobAttemptRecord =
  ja_attempt :: u32
  ja_started_at :: datetime
  ja_finished_at :: datetime
  ja_success :: bool
  ja_error :: "string option"
  ja_duration_ms :: u64

record 'j Job =
  jb_id :: JobId
  jb_tenant_id :: TenantId
  jb_kind :: JobKind
  jb_payload :: 'j
  jb_status :: JobStatus
  jb_retry_policy :: RetryPolicy
  jb_attempt :: u32
  jb_created_at :: datetime
  jb_updated_at :: datetime
  jb_scheduled_at :: "datetime option"
  jb_history :: "JobAttemptRecord list"

definition job_new :: "uuid \<Rightarrow> datetime \<Rightarrow> TenantId \<Rightarrow> JobKind \<Rightarrow> 'j \<Rightarrow> 'j Job" where
  "job_new uuid now tenant_id kind payload = \<lparr> jb_id = JobId uuid, jb_tenant_id = tenant_id,
     jb_kind = kind, jb_payload = payload, jb_status = Pending, jb_retry_policy = policy_default,
     jb_attempt = 0, jb_created_at = now, jb_updated_at = now, jb_scheduled_at = None, jb_history = [] \<rparr>"

definition with_retry_policy :: "'j Job \<Rightarrow> RetryPolicy \<Rightarrow> 'j Job" where
  "with_retry_policy self policy = self\<lparr>jb_retry_policy := policy\<rparr>"

definition scheduled_at :: "'j Job \<Rightarrow> datetime \<Rightarrow> 'j Job" where
  "scheduled_at self at = self\<lparr>jb_scheduled_at := Some at\<rparr>"

text \<open>\<^verbatim>\<open>chrono::Duration::from_std(d).unwrap_or_default()\<close>: zero when out of range.\<close>

definition from_std :: "duration \<Rightarrow> int" where
  "from_std d = (if d \<le> millis (2 ^ 63 - 1) then int d else 0)"

definition delayed :: "datetime \<Rightarrow> 'j Job \<Rightarrow> duration \<Rightarrow> 'j Job" where
  "delayed now self delay = self\<lparr>jb_scheduled_at := Some (now + from_std delay)\<rparr>"

definition is_ready :: "datetime \<Rightarrow> 'j Job \<Rightarrow> bool" where
  "is_ready now self = (case jb_scheduled_at self of Some at \<Rightarrow> at \<le> now | None \<Rightarrow> True)"

definition mark_running :: "datetime \<Rightarrow> 'j Job \<Rightarrow> 'j Job" where
  "mark_running now self =
     self\<lparr>jb_status := Running, jb_attempt := jb_attempt self + 1, jb_updated_at := now\<rparr>"

definition duration_ms :: "datetime \<Rightarrow> datetime \<Rightarrow> u64" where
  "duration_ms now started_at = of_int (max 0 ((now - started_at) div 1000000))"

definition mark_completed :: "datetime \<Rightarrow> 'j Job \<Rightarrow> datetime \<Rightarrow> 'j Job" where
  "mark_completed now self started_at =
     self\<lparr>jb_status := Completed, jb_updated_at := now,
          jb_history := jb_history self @ [\<lparr> ja_attempt = jb_attempt self, ja_started_at = started_at,
            ja_finished_at = now, ja_success = True, ja_error = None,
            ja_duration_ms = duration_ms now started_at \<rparr>]\<rparr>"

definition mark_failed ::
    "(RetryPolicy \<Rightarrow> u32 \<Rightarrow> duration) \<Rightarrow> datetime \<Rightarrow> 'j Job \<Rightarrow> string \<Rightarrow> datetime \<Rightarrow> 'j Job" where
  "mark_failed backoff now self error started_at =
    (let self = self\<lparr>jb_updated_at := now,
           jb_history := jb_history self @ [\<lparr> ja_attempt = jb_attempt self, ja_started_at = started_at,
             ja_finished_at = now, ja_success = False, ja_error = Some error,
             ja_duration_ms = duration_ms now started_at \<rparr>]\<rparr>
     in if should_retry (jb_retry_policy self) (jb_attempt self)
        then (let delay = backoff (jb_retry_policy self) (jb_attempt self) in
          self\<lparr>jb_scheduled_at := Some (now + from_std delay), jb_status := Failed error (jb_attempt self)\<rparr>)
        else self\<lparr>jb_status := DeadLettered error (jb_attempt self)\<rparr>)"

definition mark_cancelled :: "datetime \<Rightarrow> 'j Job \<Rightarrow> 'j Job" where
  "mark_cancelled now self = self\<lparr>jb_status := Cancelled, jb_updated_at := now\<rparr>"

datatype JobResult = Success | Failure string | RetryNow | RetryAfter duration

record 'j DeadLetterEntry =
  dl_job :: "'j Job"
  dl_dead_lettered_at :: datetime
  dl_reason :: string

subsection \<open>The in-memory store\<close>

datatype JobStoreError =
    NotFound JobId
  | TenantIsolation
  | AlreadyExists JobId
  | Storage string

record JobStats =
  jt_pending :: nat
  jt_running :: nat
  jt_completed :: nat
  jt_failed :: nat
  jt_dead_lettered :: nat
  jt_cancelled :: nat

record 'j InMemoryJobStore =
  js_jobs :: "(JobId \<times> 'j Job) list"
  js_dead_letters :: "(JobId \<times> 'j DeadLetterEntry) list"

definition job_store_new :: "'j InMemoryJobStore" where
  "job_store_new = \<lparr> js_jobs = [], js_dead_letters = [] \<rparr>"

definition job_enqueue :: "'j InMemoryJobStore \<Rightarrow> 'j Job \<Rightarrow> 'j InMemoryJobStore \<times> (JobStoreError + JobId)" where
  "job_enqueue self job =
    (case map_of (js_jobs self) (jb_id job) of
       Some _ \<Rightarrow> (self, Inl (AlreadyExists (jb_id job)))
     | None \<Rightarrow> (self\<lparr>js_jobs := AList.update (jb_id job) job (js_jobs self)\<rparr>, Inr (jb_id job)))"

definition job_get :: "'j InMemoryJobStore \<Rightarrow> TenantId \<Rightarrow> JobId \<Rightarrow> JobStoreError + 'j Job option" where
  "job_get self tenant_id job_id =
    (case map_of (js_jobs self) job_id of
       Some job \<Rightarrow> if jb_tenant_id job = tenant_id then Inr (Some job) else Inl TenantIsolation
     | None \<Rightarrow> Inr None)"

definition job_update :: "'j InMemoryJobStore \<Rightarrow> 'j Job \<Rightarrow> 'j InMemoryJobStore \<times> (JobStoreError + unit)" where
  "job_update self job =
    (case map_of (js_jobs self) (jb_id job) of
       None \<Rightarrow> (self, Inl (NotFound (jb_id job)))
     | Some _ \<Rightarrow> (self\<lparr>js_jobs := AList.update (jb_id job) job (js_jobs self)\<rparr>, Inr ()))"

text \<open>The filter reads the clock for each job: \<^verbatim>\<open>clock\<close> gives the reading.\<close>

definition claimable :: "(JobId \<Rightarrow> datetime) \<Rightarrow> TenantId option \<Rightarrow> 'j Job \<Rightarrow> bool" where
  "claimable clock tenant_id j \<longleftrightarrow>
     (case jb_status j of Pending \<Rightarrow> True | Failed _ _ \<Rightarrow> True | _ \<Rightarrow> False) \<and> is_ready (clock (jb_id j)) j \<and>
     (case tenant_id of None \<Rightarrow> True | Some t \<Rightarrow> jb_tenant_id j = t)"

definition claim_next ::
    "((JobId \<times> 'j Job) list \<Rightarrow> (JobId \<times> 'j Job) list) \<Rightarrow> (JobId \<Rightarrow> datetime) \<Rightarrow> datetime \<Rightarrow>
     'j InMemoryJobStore \<Rightarrow> TenantId option \<Rightarrow> 'j InMemoryJobStore \<times> (JobStoreError + 'j Job option)" where
  "claim_next iter clock now self tenant_id =
    (let candidates = sort_key jb_created_at (filter (claimable clock tenant_id) (map snd (iter (js_jobs self)))) in
     case candidates of
       [] \<Rightarrow> (self, Inr None)
     | job # _ \<Rightarrow>
         (case map_of (js_jobs self) (jb_id job) of
            None \<Rightarrow> (self, Inr None)
          | Some job \<Rightarrow>
              (let job = mark_running now job in
               (self\<lparr>js_jobs := AList.update (jb_id job) job (js_jobs self)\<rparr>, Inr (Some job)))))"

primrec status_discriminant :: "JobStatus \<Rightarrow> nat" where
  "status_discriminant Pending = 0"
| "status_discriminant Running = 1"
| "status_discriminant Completed = 2"
| "status_discriminant (Failed _ _) = 3"
| "status_discriminant (DeadLettered _ _) = 4"
| "status_discriminant Cancelled = 5"

definition list_by_status ::
    "((JobId \<times> 'j Job) list \<Rightarrow> (JobId \<times> 'j Job) list) \<Rightarrow> 'j InMemoryJobStore \<Rightarrow> TenantId \<Rightarrow>
     JobStatus option \<Rightarrow> nat \<Rightarrow> 'j Job list" where
  "list_by_status iter self tenant_id status limit =
     take limit (sort_key jb_created_at (filter (\<lambda>j. jb_tenant_id j = tenant_id \<and>
       (case status of None \<Rightarrow> True
        | Some s \<Rightarrow> status_discriminant (jb_status j) = status_discriminant s))
       (map snd (iter (js_jobs self)))))"

definition list_by_kind ::
    "((JobId \<times> 'j Job) list \<Rightarrow> (JobId \<times> 'j Job) list) \<Rightarrow> 'j InMemoryJobStore \<Rightarrow> TenantId \<Rightarrow>
     JobKind \<Rightarrow> nat \<Rightarrow> 'j Job list" where
  "list_by_kind iter self tenant_id kind limit =
     take limit (sort_key jb_created_at (filter (\<lambda>j. jb_tenant_id j = tenant_id \<and> jb_kind j = kind)
       (map snd (iter (js_jobs self)))))"

definition dead_letter ::
    "datetime \<Rightarrow> datetime \<Rightarrow> 'j InMemoryJobStore \<Rightarrow> 'j Job \<Rightarrow> string \<Rightarrow>
     'j InMemoryJobStore \<times> (JobStoreError + unit)" where
  "dead_letter now now' self job reason =
    (let job = job\<lparr>jb_status := DeadLettered reason (jb_attempt job), jb_updated_at := now\<rparr> in
     (self\<lparr>js_jobs := AList.delete (jb_id job) (js_jobs self),
           js_dead_letters := AList.update (jb_id job)
             \<lparr> dl_job = job, dl_dead_lettered_at = now', dl_reason = reason \<rparr> (js_dead_letters self)\<rparr>,
      Inr ()))"

definition list_dead_letters ::
    "((JobId \<times> 'j DeadLetterEntry) list \<Rightarrow> (JobId \<times> 'j DeadLetterEntry) list) \<Rightarrow> 'j InMemoryJobStore \<Rightarrow>
     TenantId \<Rightarrow> nat \<Rightarrow> 'j DeadLetterEntry list" where
  "list_dead_letters iter self tenant_id limit =
     take limit (sort_key dl_dead_lettered_at (filter (\<lambda>e. jb_tenant_id (dl_job e) = tenant_id)
       (map snd (iter (js_dead_letters self)))))"

text \<open>The entry is removed first and put back when it belongs to another tenant.\<close>

definition retry_dead_letter ::
    "datetime \<Rightarrow> 'j InMemoryJobStore \<Rightarrow> TenantId \<Rightarrow> JobId \<Rightarrow> 'j InMemoryJobStore \<times> (JobStoreError + 'j Job)" where
  "retry_dead_letter now self tenant_id job_id =
    (case map_of (js_dead_letters self) job_id of
       None \<Rightarrow> (self, Inl (NotFound job_id))
     | Some entry \<Rightarrow>
         (let removed = self\<lparr>js_dead_letters := AList.delete job_id (js_dead_letters self)\<rparr> in
          if jb_tenant_id (dl_job entry) \<noteq> tenant_id
          then (removed\<lparr>js_dead_letters := AList.update job_id entry (js_dead_letters removed)\<rparr>, Inl TenantIsolation)
          else
            (let job = (dl_job entry)\<lparr>jb_status := Pending, jb_attempt := 0, jb_scheduled_at := None,
                   jb_updated_at := now, jb_history := []\<rparr>
             in (removed\<lparr>js_jobs := AList.update (jb_id job) job (js_jobs removed)\<rparr>, Inr job))))"

definition delete_dead_letter ::
    "'j InMemoryJobStore \<Rightarrow> TenantId \<Rightarrow> JobId \<Rightarrow> 'j InMemoryJobStore \<times> (JobStoreError + unit)" where
  "delete_dead_letter self tenant_id job_id =
    (case map_of (js_dead_letters self) job_id of
       None \<Rightarrow> (self, Inl (NotFound job_id))
     | Some entry \<Rightarrow>
         if jb_tenant_id (dl_job entry) \<noteq> tenant_id then (self, Inl TenantIsolation)
         else (self\<lparr>js_dead_letters := AList.delete job_id (js_dead_letters self)\<rparr>, Inr ()))"

definition count_status :: "JobStats \<Rightarrow> JobStatus \<Rightarrow> JobStats" where
  "count_status stats s =
    (case s of
       Pending \<Rightarrow> stats\<lparr>jt_pending := Suc (jt_pending stats)\<rparr>
     | Running \<Rightarrow> stats\<lparr>jt_running := Suc (jt_running stats)\<rparr>
     | Completed \<Rightarrow> stats\<lparr>jt_completed := Suc (jt_completed stats)\<rparr>
     | Failed _ _ \<Rightarrow> stats\<lparr>jt_failed := Suc (jt_failed stats)\<rparr>
     | DeadLettered _ _ \<Rightarrow> stats\<lparr>jt_dead_lettered := Suc (jt_dead_lettered stats)\<rparr>
     | Cancelled \<Rightarrow> stats\<lparr>jt_cancelled := Suc (jt_cancelled stats)\<rparr>)"

definition job_stats ::
    "((JobId \<times> 'j Job) list \<Rightarrow> (JobId \<times> 'j Job) list) \<Rightarrow>
     ((JobId \<times> 'j DeadLetterEntry) list \<Rightarrow> (JobId \<times> 'j DeadLetterEntry) list) \<Rightarrow>
     'j InMemoryJobStore \<Rightarrow> TenantId \<Rightarrow> JobStats" where
  "job_stats iter iter' self tenant_id =
    (let stats = foldl (\<lambda>stats job. if jb_tenant_id job \<noteq> tenant_id then stats
             else count_status stats (jb_status job))
           \<lparr> jt_pending = 0, jt_running = 0, jt_completed = 0, jt_failed = 0, jt_dead_lettered = 0, jt_cancelled = 0 \<rparr>
           (map snd (iter (js_jobs self)))
     in foldl (\<lambda>stats entry. if jb_tenant_id (dl_job entry) = tenant_id
             then stats\<lparr>jt_dead_lettered := Suc (jt_dead_lettered stats)\<rparr> else stats)
          stats (map snd (iter' (js_dead_letters self))))"

subsection \<open>The contract of \<^verbatim>\<open>JobStore\<close>\<close>

text \<open>Both maps key a job by its id; a claimed job was waiting and is marked as running.\<close>

definition waiting :: "'j Job \<Rightarrow> bool" where
  "waiting j \<longleftrightarrow> jb_status j = Pending \<or> is_retriable (jb_status j)"

locale job_store =
  fixes jobs :: "'s \<Rightarrow> JobId \<rightharpoonup> 'j Job"
    and dead :: "'s \<Rightarrow> JobId \<rightharpoonup> 'j DeadLetterEntry"
    and update :: "'s \<Rightarrow> 'j Job \<Rightarrow> 's \<times> (JobStoreError + unit)"
    and claim :: "datetime \<Rightarrow> 's \<Rightarrow> TenantId option \<Rightarrow> 's \<times> (JobStoreError + 'j Job option)"
    and bury :: "datetime \<Rightarrow> datetime \<Rightarrow> 's \<Rightarrow> 'j Job \<Rightarrow> string \<Rightarrow> 's \<times> (JobStoreError + unit)"
    and ok :: "'s \<Rightarrow> bool"
  assumes jobs_id: "\<lbrakk> ok s; jobs s i = Some j \<rbrakk> \<Longrightarrow> jb_id j = i"
    and dead_id: "\<lbrakk> ok s; dead s i = Some e \<rbrakk> \<Longrightarrow> jb_id (dl_job e) = i"
    and update_present: "\<lbrakk> ok s; jobs s (jb_id j) \<noteq> None \<rbrakk> \<Longrightarrow>
      \<exists>s'. update s j = (s', Inr ()) \<and> ok s' \<and> jobs s' = (jobs s)(jb_id j \<mapsto> j) \<and> dead s' = dead s"
    and update_absent: "\<lbrakk> ok s; jobs s (jb_id j) = None \<rbrakk> \<Longrightarrow> update s j = (s, Inl (NotFound (jb_id j)))"
    and claim_some: "\<lbrakk> ok s; claim now s t = (s', Inr (Some j')) \<rbrakk> \<Longrightarrow>
      \<exists>j. jobs s (jb_id j) = Some j \<and> waiting j \<and> j' = mark_running now j \<and> ok s' \<and>
        jobs s' = (jobs s)(jb_id j \<mapsto> j') \<and> dead s' = dead s"
    and claim_none: "\<lbrakk> ok s; claim now s t = (s', Inr None) \<rbrakk> \<Longrightarrow> s' = s"
    and claim_total: "ok s \<Longrightarrow> \<exists>s' r. claim now s t = (s', Inr r)"
    and bury_law: "ok s \<Longrightarrow> \<exists>s'. bury now now' s j reason = (s', Inr ()) \<and> ok s' \<and>
      jobs s' = (jobs s)(jb_id j := None) \<and>
      dead s' = (dead s)(jb_id j \<mapsto> \<lparr> dl_job = j\<lparr>jb_status := DeadLettered reason (jb_attempt j), jb_updated_at := now\<rparr>,
        dl_dead_lettered_at = now', dl_reason = reason \<rparr>)"

definition job_store_ok :: "'j InMemoryJobStore \<Rightarrow> bool" where
  "job_store_ok s \<longleftrightarrow> distinct (map fst (js_jobs s)) \<and> distinct (map fst (js_dead_letters s)) \<and>
     (\<forall>i j. map_of (js_jobs s) i = Some j \<longrightarrow> jb_id j = i) \<and>
     (\<forall>i e. map_of (js_dead_letters s) i = Some e \<longrightarrow> jb_id (dl_job e) = i)"

abbreviation jobs_of :: "'j InMemoryJobStore \<Rightarrow> JobId \<rightharpoonup> 'j Job" where
  "jobs_of s \<equiv> map_of (js_jobs s)"

abbreviation dead_of :: "'j InMemoryJobStore \<Rightarrow> JobId \<rightharpoonup> 'j DeadLetterEntry" where
  "dead_of s \<equiv> map_of (js_dead_letters s)"

lemma job_store_new_ok [simp]:
  "job_store_ok job_store_new" "jobs_of job_store_new = Map.empty" "dead_of job_store_new = Map.empty"
  by (simp_all add: job_store_ok_def job_store_new_def)

lemma alist_simps [simp]:
  "map_of (AList.update k v xs) = (map_of xs)(k \<mapsto> v)"
  "map_of (AList.delete k xs) = (map_of xs)(k := None)"
  by (simp_all add: update_conv' delete_conv')

lemma job_marks_id [simp]:
  "jb_id (mark_running now j) = jb_id j" "jb_id (mark_completed now j st) = jb_id j"
  "jb_id (mark_failed b now j e st) = jb_id j"
  by (simp_all add: mark_running_def mark_completed_def mark_failed_def Let_def)

lemma job_store_ok_jobs:
  assumes "job_store_ok s" "jb_id j = i"
  shows "job_store_ok (s\<lparr>js_jobs := AList.update i j (js_jobs s)\<rparr>)"
  using assms by (auto simp: job_store_ok_def distinct_update)

lemma job_store_ok_dead:
  assumes "job_store_ok s"
  shows "job_store_ok (s\<lparr>js_dead_letters := AList.delete i (js_dead_letters s)\<rparr>)"
    "jb_id (dl_job e) = i \<Longrightarrow> job_store_ok (s\<lparr>js_dead_letters := AList.update i e (js_dead_letters s)\<rparr>)"
  using assms by (auto simp: job_store_ok_def distinct_update distinct_delete simp del: map_of_eq_Some_iff)

lemma claimable_waiting: "claimable clock t j \<Longrightarrow> waiting j"
  by (auto simp: claimable_def waiting_def split: JobStatus.splits)

lemma candidates_set:
  assumes "iter_ok iter" "job_store_ok s"
  shows "set (sort_key jb_created_at (filter (claimable clock t) (map snd (iter (js_jobs s))))) =
    {j. jobs_of s (jb_id j) = Some j \<and> claimable clock t j}"
proof -
  have "j \<in> set (map snd (js_jobs s)) \<longleftrightarrow> jobs_of s (jb_id j) = Some j" for j
  proof
    assume "j \<in> set (map snd (js_jobs s))"
    then obtain i where "(i, j) \<in> set (js_jobs s)" by auto
    then have "jobs_of s i = Some j" using assms(2) by (simp add: job_store_ok_def)
    then show "jobs_of s (jb_id j) = Some j" using assms(2) by (auto simp: job_store_ok_def)
  qed (force dest: map_of_SomeD)
  then show ?thesis using iter_ok_set [OF assms(1), of "js_jobs s"] by auto
qed

text \<open>What \<^verbatim>\<open>claim_next\<close> returns: an oldest job among those that wait, are due and belong to the
  tenant asked for, now running; nothing exactly when there is none.\<close>

lemma claim_next_cases:
  assumes "iter_ok iter" "job_store_ok s"
  obtains (none) "claim_next iter clock now s t = (s, Inr None)"
      "\<forall>j. jobs_of s (jb_id j) = Some j \<longrightarrow> \<not> claimable clock t j"
  | (some) j where "jobs_of s (jb_id j) = Some j" "claimable clock t j"
      "\<forall>j'. jobs_of s (jb_id j') = Some j' \<and> claimable clock t j' \<longrightarrow> jb_created_at j \<le> jb_created_at j'"
      "claim_next iter clock now s t =
        (s\<lparr>js_jobs := AList.update (jb_id j) (mark_running now j) (js_jobs s)\<rparr>, Inr (Some (mark_running now j)))"
proof -
  let ?cs = "sort_key jb_created_at (filter (claimable clock t) (map snd (iter (js_jobs s))))"
  note cs = candidates_set [OF assms, of clock t]
  show ?thesis
  proof (cases ?cs)
    case Nil
    show ?thesis
    proof (rule none)
      show "claim_next iter clock now s t = (s, Inr None)" by (simp add: claim_next_def Nil)
      show "\<forall>j. jobs_of s (jb_id j) = Some j \<longrightarrow> \<not> claimable clock t j"
        using cs unfolding Nil by auto
    qed
  next
    case (Cons j js)
    have "j \<in> set ?cs" unfolding Cons by simp
    then have j: "jobs_of s (jb_id j) = Some j" "claimable clock t j" unfolding cs by auto
    have "sorted (map jb_created_at ?cs)" by (rule sorted_sort_key)
    then have min: "jb_created_at j \<le> jb_created_at j'" if "j' \<in> set ?cs" for j'
      using that unfolding Cons by auto
    show ?thesis
    proof (rule some [OF j])
      show "\<forall>j'. jobs_of s (jb_id j') = Some j' \<and> claimable clock t j' \<longrightarrow> jb_created_at j \<le> jb_created_at j'"
        using min unfolding cs by blast
      show "claim_next iter clock now s t =
        (s\<lparr>js_jobs := AList.update (jb_id j) (mark_running now j) (js_jobs s)\<rparr>, Inr (Some (mark_running now j)))"
        by (simp add: claim_next_def Cons j(1) Let_def)
    qed
  qed
qed

text \<open>Iteration in the stored order and a clock that is read once; other orders and readings are
  covered by \<^verbatim>\<open>claim_next_cases\<close>.\<close>

interpretation in_memory_jobs: job_store jobs_of dead_of job_update
    "\<lambda>now. claim_next id (\<lambda>_. now) now" dead_letter job_store_ok
proof
  fix s :: "'j InMemoryJobStore" and now t
  assume ok: "job_store_ok s"
  have it: "iter_ok id" by (simp add: iter_ok_def)
  note cc = claim_next_cases [OF it ok, of "\<lambda>_. now" now t]
  show "\<exists>s' r. claim_next id (\<lambda>_. now) now s t = (s', Inr r)" by (rule cc) auto
  show "s' = s" if "claim_next id (\<lambda>_. now) now s t = (s', Inr None)" for s'
    using that by (cases rule: cc) simp_all
  show "\<exists>j. jobs_of s (jb_id j) = Some j \<and> waiting j \<and> j' = mark_running now j \<and> job_store_ok s' \<and>
        jobs_of s' = (jobs_of s)(jb_id j \<mapsto> j') \<and> dead_of s' = dead_of s"
    if c: "claim_next id (\<lambda>_. now) now s t = (s', Inr (Some j'))" for s' j'
  proof (cases rule: cc)
    case 1
    then show ?thesis using c by simp
  next
    case (2 j)
    then have "j' = mark_running now j" "s' = s\<lparr>js_jobs := AList.update (jb_id j) j' (js_jobs s)\<rparr>"
      using c by simp_all
    then show ?thesis
      using 2(1,2) job_store_ok_jobs [OF ok, of j' "jb_id j"]
      by (intro exI [of _ j]) (simp add: claimable_waiting)
  qed
next
  fix s :: "'j InMemoryJobStore" and j
  assume ok: "job_store_ok s"
  show "job_update s j = (s, Inl (NotFound (jb_id j)))" if "jobs_of s (jb_id j) = None"
    using that by (simp add: job_update_def)
  show "\<exists>s'. job_update s j = (s', Inr ()) \<and> job_store_ok s' \<and> jobs_of s' = (jobs_of s)(jb_id j \<mapsto> j) \<and> dead_of s' = dead_of s"
    if "jobs_of s (jb_id j) \<noteq> None"
    using that job_store_ok_jobs [OF ok] by (auto simp: job_update_def)
next
  fix s :: "'j InMemoryJobStore" and now now' j reason
  assume "job_store_ok s"
  then show "\<exists>s'. dead_letter now now' s j reason = (s', Inr ()) \<and> job_store_ok s' \<and>
      jobs_of s' = (jobs_of s)(jb_id j := None) \<and>
      dead_of s' = (dead_of s)(jb_id j \<mapsto> \<lparr> dl_job = j\<lparr>jb_status := DeadLettered reason (jb_attempt j), jb_updated_at := now\<rparr>,
        dl_dead_lettered_at = now', dl_reason = reason \<rparr>)"
    by (auto simp: dead_letter_def Let_def job_store_ok_def distinct_update distinct_delete)
qed (auto simp: job_store_ok_def)

end
