(* ===== verification/Job_Executor.thy ===== *)
theory Job_Executor
  imports Jobs
begin

text \<open>
  The job executor (\<^verbatim>\<open>infra/src/jobs/executor.rs\<close>): handler lookup, the execution of a claimed job,
  and one turn of the executor loop with its statistics; then any number of executors over one
  in-memory store, as a step relation.

  The executor is generic over the store: it holds the two store operations it calls.  A handler
  is a function from the job to a result; in the step relation every execution may use other
  handlers.  \<^verbatim>\<open>clk k\<close> is the \<^verbatim>\<open>k\<close>-th reading of the clock in a call.  The rendering of a store error
  and of a job kind (\<^verbatim>\<open>{:?}\<close>) are functions.
\<close>

subsection \<open>The executor\<close>

type_synonym 'j JobHandler = "'j Job \<Rightarrow> JobResult"

record ('s, 'j) JobExecutor =
  jx_update :: "'s \<Rightarrow> 'j Job \<Rightarrow> 's \<times> (JobStoreError + unit)"
  jx_dead_letter :: "datetime \<Rightarrow> datetime \<Rightarrow> 's \<Rightarrow> 'j Job \<Rightarrow> string \<Rightarrow> 's \<times> (JobStoreError + unit)"
  jx_handlers :: "(string \<times> 'j JobHandler) list"
  jx_iter :: "(string \<times> 'j JobHandler) list \<Rightarrow> (string \<times> 'j JobHandler) list"
  jx_backoff :: "RetryPolicy \<Rightarrow> u32 \<Rightarrow> duration"
  jx_show_error :: "JobStoreError \<Rightarrow> string"
  jx_debug_kind :: "JobKind \<Rightarrow> string"

definition register_handler ::
    "('s, 'j) JobExecutor \<Rightarrow> string \<Rightarrow> 'j JobHandler \<Rightarrow> ('s, 'j) JobExecutor" where
  "register_handler self kind_pattern handler =
     self\<lparr>jx_handlers := AList.update kind_pattern handler (jx_handlers self)\<rparr>"

definition starts_with :: "string \<Rightarrow> string \<Rightarrow> bool" where
  "starts_with s p \<longleftrightarrow> take (length p) s = p"

definition ends_with :: "string \<Rightarrow> string \<Rightarrow> bool" where
  "ends_with s p \<longleftrightarrow> starts_with (rev s) (rev p)"

definition category_match :: "string \<Rightarrow> string \<Rightarrow> bool" where
  "category_match type_nm pattern \<longleftrightarrow>
     ends_with pattern ''.*'' \<and> starts_with type_nm (take (length pattern - 2) pattern)"

definition get_handler :: "('s, 'j) JobExecutor \<Rightarrow> JobKind \<Rightarrow> 'j JobHandler option" where
  "get_handler self kind =
    (case map_of (jx_handlers self) (type_name kind) of
       Some h \<Rightarrow> Some h
     | None \<Rightarrow>
         (case find (\<lambda>(pattern, _). category_match (type_name kind) pattern)
             (jx_iter self (jx_handlers self)) of
            Some (_, handler) \<Rightarrow> Some handler
          | None \<Rightarrow> map_of (jx_handlers self) ''*''))"

text \<open>\<^verbatim>\<open>store.update(job).map_err(..)?\<close> followed by the rest of the function.\<close>

definition update_then ::
    "('s, 'j) JobExecutor \<Rightarrow> 's \<Rightarrow> 'j Job \<Rightarrow> ('s \<Rightarrow> 's \<times> 'j Job \<times> (string + unit)) \<Rightarrow>
     's \<times> 'j Job \<times> (string + unit)" where
  "update_then self store job k =
    (case jx_update self store job of
       (store, Inl e) \<Rightarrow> (store, job, Inl (jx_show_error self e))
     | (store, Inr _) \<Rightarrow> k store)"

definition execute_job ::
    "('s, 'j) JobExecutor \<Rightarrow> (nat \<Rightarrow> datetime) \<Rightarrow> 's \<Rightarrow> 'j Job \<Rightarrow> 's \<times> 'j Job \<times> (string + unit)" where
  "execute_job self clk store job =
    (case get_handler self (jb_kind job) of
       None \<Rightarrow>
         (let error = ''no handler for job kind: '' @ jx_debug_kind self (jb_kind job);
              job = mark_failed (jx_backoff self) (clk 1) job error (clk 0)
          in (fst (jx_update self store job), job, Inl error))
     | Some handler \<Rightarrow>
         (case handler job of
            Success \<Rightarrow>
              (let job = mark_completed (clk 1) job (clk 0) in
               update_then self store job (\<lambda>store. (store, job, Inr ())))
          | Failure error \<Rightarrow>
              (let job = mark_failed (jx_backoff self) (clk 1) job error (clk 0) in
               update_then self store job (\<lambda>store.
                 (if is_dead_lettered (jb_status job)
                  then fst (jx_dead_letter self (clk 2) (clk 3) store job error) else store,
                  job, Inl error)))
          | RetryNow \<Rightarrow>
              (let job = (mark_failed (jx_backoff self) (clk 1) job ''retry requested'' (clk 0))
                     \<lparr>jb_scheduled_at := None\<rparr> in
               update_then self store job (\<lambda>store. (store, job, Inl ''retry requested'')))
          | RetryAfter delay \<Rightarrow>
              (let job = (mark_failed (jx_backoff self) (clk 1) job ''retry after delay'' (clk 0))
                     \<lparr>jb_scheduled_at := Some (clk 2 + from_std delay)\<rparr> in
               update_then self store job (\<lambda>store. (store, job, Inl ''retry after delay'')))))"

text \<open>\<^verbatim>\<open>execute_one\<close> marks the job as running itself, and propagates a dead-letter error.\<close>

definition execute_one ::
    "('s, 'j) JobExecutor \<Rightarrow> (nat \<Rightarrow> datetime) \<Rightarrow> 's \<Rightarrow> 'j Job \<Rightarrow> 's \<times> 'j Job \<times> (string + unit)" where
  "execute_one self clk store job =
    (case get_handler self (jb_kind job) of
       None \<Rightarrow> (store, job, Inl (''no handler for job kind: '' @ jx_debug_kind self (jb_kind job)))
     | Some handler \<Rightarrow>
         (let job = mark_running (clk 1) job in
          case handler job of
            Success \<Rightarrow>
              (let job = mark_completed (clk 2) job (clk 0) in
               update_then self store job (\<lambda>store. (store, job, Inr ())))
          | Failure error \<Rightarrow>
              (let job = mark_failed (jx_backoff self) (clk 2) job error (clk 0) in
               update_then self store job (\<lambda>store.
                 if is_dead_lettered (jb_status job)
                 then (case jx_dead_letter self (clk 3) (clk 4) store job error of
                         (store, Inl e) \<Rightarrow> (store, job, Inl (jx_show_error self e))
                       | (store, Inr _) \<Rightarrow> (store, job, Inl error))
                 else (store, job, Inl error)))
          | RetryNow \<Rightarrow>
              (let job = (mark_failed (jx_backoff self) (clk 2) job ''retry requested'' (clk 0))
                     \<lparr>jb_scheduled_at := None\<rparr> in
               update_then self store job (\<lambda>store. (store, job, Inl ''retry requested'')))
          | RetryAfter delay \<Rightarrow>
              (let job = (mark_failed (jx_backoff self) (clk 2) job ''retry after delay'' (clk 0))
                     \<lparr>jb_scheduled_at := Some (clk 3 + from_std delay)\<rparr> in
               update_then self store job (\<lambda>store. (store, job, Inl ''retry after delay'')))))"

record ExecutorStats =
  xs_jobs_processed :: u64
  xs_jobs_succeeded :: u64
  xs_jobs_failed :: u64
  xs_jobs_dead_lettered :: u64
  xs_current_running :: nat
  xs_uptime_secs :: u64

definition count_result :: "ExecutorStats \<Rightarrow> JobStatus \<Rightarrow> string + unit \<Rightarrow> ExecutorStats" where
  "count_result s status result =
    (let s = s\<lparr>xs_current_running := xs_current_running s - 1,
               xs_jobs_processed := xs_jobs_processed s + 1\<rparr>
     in case result of
          Inr _ \<Rightarrow> s\<lparr>xs_jobs_succeeded := xs_jobs_succeeded s + 1\<rparr>
        | Inl _ \<Rightarrow>
            if is_terminal status
            then (let s = s\<lparr>xs_jobs_failed := xs_jobs_failed s + 1\<rparr> in
                  if is_dead_lettered status
                  then s\<lparr>xs_jobs_dead_lettered := xs_jobs_dead_lettered s + 1\<rparr> else s)
            else s\<lparr>xs_jobs_failed := xs_jobs_failed s + 1\<rparr>)"

text \<open>One turn of \<^verbatim>\<open>executor_loop\<close> past the shutdown check; the flag says whether it claimed a job
  (otherwise it sleeps).\<close>

definition executor_turn ::
    "('s \<Rightarrow> TenantId option \<Rightarrow> 's \<times> (JobStoreError + 'j Job option)) \<Rightarrow> ('s, 'j) JobExecutor \<Rightarrow>
     (nat \<Rightarrow> datetime) \<Rightarrow> u64 \<Rightarrow> TenantId option \<Rightarrow> 's \<times> ExecutorStats \<Rightarrow> ('s \<times> ExecutorStats) \<times> bool" where
  "executor_turn claim self clk uptime tenant_id st =
    (case st of (store, s) \<Rightarrow>
      (let s = s\<lparr>xs_uptime_secs := uptime\<rparr> in
       case claim store tenant_id of
         (store, Inr (Some job)) \<Rightarrow>
           (let s = s\<lparr>xs_current_running := xs_current_running s + 1\<rparr>;
                (store, job, result) = execute_job self clk store job
            in ((store, count_result s (jb_status job) result), True))
       | (store, _) \<Rightarrow> ((store, s), False)))"

subsection \<open>What executing a job does\<close>

lemma mark_failed_fields [simp]:
  "jb_retry_policy (mark_failed b now j e st) = jb_retry_policy j"
  "jb_attempt (mark_failed b now j e st) = jb_attempt j"
  "length (jb_history (mark_failed b now j e st)) = Suc (length (jb_history j))"
  "jb_status (mark_failed b now j e st) = (if jb_attempt j < rt_max_attempts (jb_retry_policy j)
     then Failed e (jb_attempt j) else DeadLettered e (jb_attempt j))"
  by (simp_all add: mark_failed_def Let_def should_retry_def)

lemma mark_completed_fields [simp]:
  "jb_retry_policy (mark_completed now j st) = jb_retry_policy j"
  "jb_attempt (mark_completed now j st) = jb_attempt j"
  "length (jb_history (mark_completed now j st)) = Suc (length (jb_history j))"
  "jb_status (mark_completed now j st) = Completed"
  by (simp_all add: mark_completed_def)

lemma mark_running_fields [simp]:
  "jb_retry_policy (mark_running now j) = jb_retry_policy j"
  "jb_attempt (mark_running now j) = jb_attempt j + 1"
  "jb_history (mark_running now j) = jb_history j"
  "jb_status (mark_running now j) = Running"
  by (simp_all add: mark_running_def)

text \<open>A run is over: one more record in the history, and a status that is completed, failed with
  attempts left, or dead-lettered with none left.\<close>

definition run_over :: "'j Job \<Rightarrow> 'j Job \<Rightarrow> bool" where
  "run_over j j' \<longleftrightarrow> jb_id j' = jb_id j \<and> jb_retry_policy j' = jb_retry_policy j \<and>
     jb_attempt j' = jb_attempt j \<and> length (jb_history j') = Suc (length (jb_history j)) \<and>
     (case jb_status j' of
        Completed \<Rightarrow> True
      | Failed _ n \<Rightarrow> n = jb_attempt j \<and> jb_attempt j < rt_max_attempts (jb_retry_policy j)
      | DeadLettered _ n \<Rightarrow> n = jb_attempt j \<and> rt_max_attempts (jb_retry_policy j) \<le> jb_attempt j
      | _ \<Rightarrow> False)"

lemma run_over_marks:
  "run_over j (mark_completed now j st)" "run_over j (mark_failed b now j e st)"
  "run_over j ((mark_failed b now j e st)\<lparr>jb_scheduled_at := at\<rparr>)"
  by (simp_all add: run_over_def linorder_not_less)

context job_store
begin

text \<open>Executing a stored job replaces it by its next form, or moves that to the dead letters.\<close>

lemma execute_job_effect:
  assumes "ok s" "jobs s (jb_id j) \<noteq> None" "jx_update ex = update" "jx_dead_letter ex = bury"
    "execute_job ex clk s j = (s', j', r)"
  shows "run_over j j' \<and> ok s' \<and>
    (jobs s' = (jobs s)(jb_id j \<mapsto> j') \<and> dead s' = dead s \<or>
     is_dead_lettered (jb_status j') \<and> jobs s' = (jobs s)(jb_id j := None) \<and>
     (\<exists>e. jb_id (dl_job e) = jb_id j \<and> dead s' = (dead s)(jb_id j \<mapsto> e)))"
proof -
  have up: "\<exists>s1. jx_update ex s j1 = (s1, Inr ()) \<and> ok s1 \<and> jobs s1 = (jobs s)(jb_id j \<mapsto> j1) \<and> dead s1 = dead s"
    if "run_over j j1" for j1
    using update_present [OF assms(1), of j1] assms(2,3) that by (simp add: run_over_def)
  have kept: ?thesis if "run_over j j1" "execute_job ex clk s j = (fst (jx_update ex s j1), j1, r1)" for j1 r1
    using that up [OF that(1)] assms(5) by auto
  have then_ok: "update_then ex s j1 k = k (fst (jx_update ex s j1))" if "run_over j j1" for j1 k
    using up [OF that] by (auto simp: update_then_def)
  show ?thesis
  proof (cases "get_handler ex (jb_kind j)")
    case None
    show ?thesis
      by (rule kept [OF run_over_marks(2)], simp only: execute_job_def None option.case Let_def)
  next
    case (Some h)
    show ?thesis
    proof (cases "h j")
      case (Failure error)
      let ?j1 = "mark_failed (jx_backoff ex) (clk 1) j error (clk 0)"
      let ?s1 = "fst (jx_update ex s ?j1)"
      have ro: "run_over j ?j1" by (rule run_over_marks)
      have ex: "execute_job ex clk s j = (if is_dead_lettered (jb_status ?j1)
          then fst (bury (clk 2) (clk 3) ?s1 ?j1 error) else ?s1, ?j1, Inl error)"
        by (simp only: execute_job_def Some Failure option.case JobResult.case Let_def then_ok [OF ro] assms(4))
      show ?thesis
      proof (cases "is_dead_lettered (jb_status ?j1)")
        case False
        then show ?thesis using ex by (intro kept [OF ro]) (simp only: if_False)
      next
        case True
        obtain s1 where s1: "jx_update ex s ?j1 = (s1, Inr ())" "ok s1"
          "jobs s1 = (jobs s)(jb_id j \<mapsto> ?j1)" "dead s1 = dead s" using up [OF ro] by blast
        let ?e = "\<lparr> dl_job = ?j1\<lparr>jb_status := DeadLettered error (jb_attempt ?j1), jb_updated_at := clk 2\<rparr>,
          dl_dead_lettered_at = clk 3, dl_reason = error \<rparr>"
        obtain s2 where s2: "bury (clk 2) (clk 3) s1 ?j1 error = (s2, Inr ())" "ok s2"
          "jobs s2 = (jobs s1)(jb_id ?j1 := None)" "dead s2 = (dead s1)(jb_id ?j1 \<mapsto> ?e)"
          using bury_law [OF s1(2), of "clk 2" "clk 3" ?j1 error] by blast
        have "s' = s2" "j' = ?j1" using ex [unfolded assms(5)] s1(1) s2(1) True by simp_all
        moreover have "\<exists>e. jb_id (dl_job e) = jb_id j \<and> dead s2 = (dead s)(jb_id j \<mapsto> e)"
          using s1(4) s2(4) by (intro exI [of _ ?e]) simp
        moreover have "jobs s2 = (jobs s)(jb_id j := None)" using s1(3) s2(3) by simp
        ultimately show ?thesis using s2(2) ro True by blast
      qed
    next
      case Success
      show ?thesis
        by (rule kept [OF run_over_marks(1)])
          (simp only: execute_job_def Some Success option.case JobResult.case Let_def then_ok [OF run_over_marks(1)])
    next
      case RetryNow
      show ?thesis
        by (rule kept [OF run_over_marks(3)])
          (simp only: execute_job_def Some RetryNow option.case JobResult.case Let_def then_ok [OF run_over_marks(3)])
    next
      case (RetryAfter d)
      show ?thesis
        by (rule kept [OF run_over_marks(3)])
          (simp only: execute_job_def Some RetryAfter option.case JobResult.case Let_def then_ok [OF run_over_marks(3)])
    qed
  qed
qed

end

subsection \<open>Executors over one store\<close>

text \<open>The state is the store and the jobs the executors hold.  A job is enqueued as \<^verbatim>\<open>Job::new\<close> makes
  it, with any policy and schedule and an id that is not in use; each execution may have other
  handlers.\<close>

definition fresh_job :: "'j InMemoryJobStore \<Rightarrow> 'j Job \<Rightarrow> bool" where
  "fresh_job s j \<longleftrightarrow> jb_status j = Pending \<and> jb_attempt j = 0 \<and> jb_history j = [] \<and> dead_of s (jb_id j) = None"

definition memory_executor :: "('j InMemoryJobStore, 'j) JobExecutor \<Rightarrow> bool" where
  "memory_executor ex \<longleftrightarrow> jx_update ex = job_update \<and> jx_dead_letter ex = dead_letter"

inductive job_system :: "'j InMemoryJobStore \<times> 'j Job list \<Rightarrow> bool" where
  js_init: "job_system (job_store_new, [])"
| js_enqueue: "\<lbrakk> job_system (s, held); fresh_job s j \<rbrakk> \<Longrightarrow> job_system (fst (job_enqueue s j), held)"
| js_claim: "\<lbrakk> job_system (s, held); iter_ok iter; claim_next iter clock now s t = (s', Inr (Some j)) \<rbrakk>
    \<Longrightarrow> job_system (s', held @ [j])"
| js_execute: "\<lbrakk> job_system (s, held); j \<in> set held; memory_executor ex; execute_job ex clk s j = (s', j', r) \<rbrakk>
    \<Longrightarrow> job_system (s', remove1 j held)"
| js_retry: "job_system (s, held) \<Longrightarrow> job_system (fst (retry_dead_letter now s t i), held)"
| js_delete: "job_system (s, held) \<Longrightarrow> job_system (fst (delete_dead_letter s t i), held)"

text \<open>How often a job may run, and when its record is consistent: one history entry per finished
  run, and never more runs than allowed.\<close>

definition max_runs :: "'j Job \<Rightarrow> nat" where
  "max_runs j = max 1 (unat (rt_max_attempts (jb_retry_policy j)))"

definition job_wf :: "'j Job \<Rightarrow> bool" where
  "job_wf j \<longleftrightarrow> unat (jb_attempt j) \<le> max_runs j \<and>
     (if jb_status j = Running then unat (jb_attempt j) = Suc (length (jb_history j))
      else unat (jb_attempt j) = length (jb_history j)) \<and>
     (waiting j \<longrightarrow> length (jb_history j) < max_runs j)"

definition system_ok :: "'j InMemoryJobStore \<times> 'j Job list \<Rightarrow> bool" where
  "system_ok st = (case st of (s, held) \<Rightarrow>
     job_store_ok s \<and> (\<forall>i. jobs_of s i = None \<or> dead_of s i = None) \<and> distinct (map jb_id held) \<and>
     (\<forall>j. j \<in> set held \<longleftrightarrow> jobs_of s (jb_id j) = Some j \<and> jb_status j = Running) \<and>
     (\<forall>i j. jobs_of s i = Some j \<longrightarrow> job_wf j))"

lemma run_over_wf:
  assumes "run_over j j'" "job_wf j" "jb_status j = Running"
  shows "job_wf j'" "jb_status j' \<noteq> Running"
proof -
  have "unat (jb_attempt j) < unat (rt_max_attempts (jb_retry_policy j))"
    if "jb_attempt j < rt_max_attempts (jb_retry_policy j)"
    using that by (simp add: word_less_nat_alt)
  then show "job_wf j'" "jb_status j' \<noteq> Running"
    using assms by (auto simp: run_over_def job_wf_def max_runs_def waiting_def split: JobStatus.splits)
qed

lemma waiting_not_running: "waiting j \<Longrightarrow> jb_status j \<noteq> Running"
  by (auto simp: waiting_def)

lemma mark_running_wf:
  assumes "job_wf j" "waiting j"
  shows "job_wf (mark_running now j)"
proof -
  have "length (jb_history j) < max_runs j" "unat (jb_attempt j) = length (jb_history j)"
    using assms waiting_not_running [OF assms(2)] by (simp_all add: job_wf_def)
  moreover have "max_runs j < 2 ^ 32"
    using unsigned_less [of "rt_max_attempts (jb_retry_policy j)", where 'a = nat] by (simp add: max_runs_def)
  ultimately have "unat (jb_attempt j + 1) = Suc (length (jb_history j))"
    by (simp add: unat_word_ariths)
  then show ?thesis
    using \<open>length (jb_history j) < max_runs j\<close> by (simp add: job_wf_def max_runs_def waiting_def)
qed

lemma fresh_job_wf: "fresh_job s j \<Longrightarrow> job_wf j"
  by (simp add: fresh_job_def job_wf_def max_runs_def less_max_iff_disj)

lemma system_ok_disjoint: "\<lbrakk> system_ok (s, held); jobs_of s i = Some j \<rbrakk> \<Longrightarrow> dead_of s i = None"
  unfolding system_ok_def prod.case by (elim conjE allE [of _ i]) auto

text \<open>The invariant of the system.\<close>

lemma system_ok_init: "system_ok (job_store_new, [])"
  by (simp add: system_ok_def)

lemma system_ok_enqueue:
  assumes "system_ok (s, held)" "fresh_job s j"
  shows "system_ok (fst (job_enqueue s j), held)"
proof (cases "jobs_of s (jb_id j)")
  case None
  have "job_store_ok (s\<lparr>js_jobs := AList.update (jb_id j) j (js_jobs s)\<rparr>)"
    using assms(1) by (intro job_store_ok_jobs) (simp_all add: system_ok_def)
  moreover have "jb_status j \<noteq> Running" using assms(2) by (simp add: fresh_job_def)
  ultimately show ?thesis
    using assms None fresh_job_wf [OF assms(2)]
    by (auto simp: system_ok_def job_enqueue_def fresh_job_def)
qed (use assms in \<open>simp add: job_enqueue_def\<close>)

lemma system_ok_claim:
  assumes "system_ok (s, held)" "iter_ok iter" "claim_next iter clock now s t = (s', Inr (Some j'))"
  shows "system_ok (s', held @ [j'])"
proof -
  have ok: "job_store_ok s" using assms(1) by (simp add: system_ok_def)
  from claim_next_cases [OF assms(2) ok, of clock now t] assms(3)
  obtain j where j: "jobs_of s (jb_id j) = Some j" "claimable clock t j" "j' = mark_running now j"
    "s' = s\<lparr>js_jobs := AList.update (jb_id j) j' (js_jobs s)\<rparr>" by (metis Pair_inject sum.inject(2) option.inject option.distinct(1))
  have w: "waiting j" by (rule claimable_waiting [OF j(2)])
  have ids: "jb_id j \<notin> set (map jb_id held)"
    using assms(1) j(1) waiting_not_running [OF w] by (auto simp: system_ok_def)
  show ?thesis
    using assms(1) j ids mark_running_wf [OF _ w, of now] job_store_ok_jobs [OF ok, of j' "jb_id j"]
      system_ok_disjoint [OF assms(1) j(1)]
    by (auto simp: system_ok_def)
qed

lemma system_ok_execute:
  assumes "system_ok (s, held)" "j \<in> set held" "memory_executor ex" "execute_job ex clk s j = (s', j', r)"
  shows "system_ok (s', remove1 j held)"
proof -
  have ok: "job_store_ok s" and j: "jobs_of s (jb_id j) = Some j" "jb_status j = Running" "job_wf j"
    and dist: "distinct (map jb_id held)"
    using assms(1,2) by (auto simp: system_ok_def)
  have "jobs_of s (jb_id j) \<noteq> None" using j(1) by simp
  from in_memory_jobs.execute_job_effect [OF ok this _ _ assms(4)] assms(3)
  have ro: "run_over j j'" and ok': "job_store_ok s'" and
    eff: "jobs_of s' = (jobs_of s)(jb_id j \<mapsto> j') \<and> dead_of s' = dead_of s \<or>
      jobs_of s' = (jobs_of s)(jb_id j := None) \<and> (\<exists>e. dead_of s' = (dead_of s)(jb_id j \<mapsto> e))"
    by (auto simp: memory_executor_def)
  note wf = run_over_wf [OF ro j(3,2)]
  have id: "jb_id j' = jb_id j" using ro by (simp add: run_over_def)
  have "distinct held" using dist by (simp add: distinct_map)
  moreover have "k = j" if "k \<in> set held" "jb_id k = jb_id j" for k
    using that assms(1) j(1) by (auto simp: system_ok_def)
  ultimately have rest: "k \<in> set (remove1 j held) \<longleftrightarrow> k \<in> set held \<and> jb_id k \<noteq> jb_id j" for k by auto
  have dist': "distinct (map jb_id (remove1 j held))"
    using dist by (metis distinct_map distinct_remove1 inj_on_subset set_remove1_subset)
  have "dead_of s (jb_id j) = None" by (rule system_ok_disjoint [OF assms(1) j(1)])
  then have disj: "jobs_of s' i = None \<or> dead_of s' i = None" for i
    using eff system_ok_disjoint [OF assms(1), of i] by (cases "jobs_of s i") (auto split: if_splits)
  have held': "k \<in> set (remove1 j held) \<longleftrightarrow> jobs_of s' (jb_id k) = Some k \<and> jb_status k = Running" for k
    unfolding rest using eff assms(1) wf(2) id by (auto simp: system_ok_def split: if_splits)
  have "job_wf k" if "jobs_of s' i = Some k" for i k
    using that eff assms(1) wf(1) by (auto simp: system_ok_def split: if_splits)
  then show ?thesis using ok' dist' disj held' by (simp add: system_ok_def)
qed

lemma system_ok_retry:
  assumes "system_ok (s, held)"
  shows "system_ok (fst (retry_dead_letter now s t i), held)"
proof (cases "dead_of s i")
  case (Some e)
  have ok: "job_store_ok s" using assms by (simp add: system_ok_def)
  have id: "jb_id (dl_job e) = i" using ok Some by (auto simp: job_store_ok_def)
  let ?j = "(dl_job e)\<lparr>jb_status := Pending, jb_attempt := 0, jb_scheduled_at := None,
    jb_updated_at := now, jb_history := []\<rparr>"
  let ?r = "s\<lparr>js_dead_letters := AList.delete i (js_dead_letters s)\<rparr>"
  have absent: "jobs_of s i = None" using assms Some by (auto simp: system_ok_def)
  have "job_wf ?j" by (simp add: job_wf_def max_runs_def less_max_iff_disj)
  moreover have "job_store_ok (?r\<lparr>js_jobs := AList.update i ?j (js_jobs ?r)\<rparr>)"
    using id by (intro job_store_ok_jobs job_store_ok_dead(1) ok) simp
  moreover have "job_store_ok (?r\<lparr>js_dead_letters := AList.update i e (js_dead_letters ?r)\<rparr>)"
    using id by (intro job_store_ok_dead ok)
  ultimately show ?thesis
    using assms Some id absent by (auto simp: system_ok_def retry_dead_letter_def Let_def)
qed (use assms in \<open>simp add: retry_dead_letter_def\<close>)

lemma system_ok_delete:
  assumes "system_ok (s, held)"
  shows "system_ok (fst (delete_dead_letter s t i), held)"
proof -
  have "job_store_ok s" using assms by (simp add: system_ok_def)
  from job_store_ok_dead(1) [OF this, of i] show ?thesis
    using assms by (auto simp: system_ok_def delete_dead_letter_def split: option.splits)
qed

lemma job_system_ok: "job_system st \<Longrightarrow> system_ok st"
  by (induction rule: job_system.induct)
    (auto intro: system_ok_init system_ok_enqueue system_ok_claim system_ok_execute system_ok_retry system_ok_delete)

subsection \<open>Turns of the loop\<close>

text \<open>The runs the jobs in the store have left.\<close>

definition runs_left :: "'j Job option \<Rightarrow> nat" where
  "runs_left x = (case x of None \<Rightarrow> 0 | Some j \<Rightarrow> if waiting j then max_runs j - length (jb_history j) else 0)"

definition budget :: "'j InMemoryJobStore \<Rightarrow> nat" where
  "budget s = (\<Sum>i \<in> dom (jobs_of s). runs_left (jobs_of s i))"

lemma sum_runs_left_upd:
  fixes m :: "JobId \<rightharpoonup> 'j Job"
  assumes "finite (dom m)" "i \<in> dom m"
  shows "(\<Sum>k \<in> dom (m(i := x)). runs_left ((m(i := x)) k)) + runs_left (m i)
    = (\<Sum>k \<in> dom m. runs_left (m k)) + runs_left x"
proof -
  let ?D = "dom m - {i}"
  have "(\<Sum>k \<in> dom m. runs_left (m k)) = runs_left (m i) + (\<Sum>k \<in> ?D. runs_left (m k))"
    by (rule sum.remove [OF assms])
  moreover have "(\<Sum>k \<in> dom (m(i := x)). runs_left ((m(i := x)) k)) = runs_left x + (\<Sum>k \<in> ?D. runs_left (m k))"
  proof (cases x)
    case None
    then show ?thesis by (simp add: runs_left_def)
  next
    case (Some y)
    then have "dom (m(i := x)) = insert i ?D" by auto
    moreover have "(\<Sum>k \<in> insert i ?D. runs_left ((m(i := x)) k))
        = runs_left ((m(i := x)) i) + (\<Sum>k \<in> ?D. runs_left ((m(i := x)) k))"
      using assms(1) by (intro sum.insert) auto
    moreover have "(\<Sum>k \<in> ?D. runs_left ((m(i := x)) k)) = (\<Sum>k \<in> ?D. runs_left (m k))"
      by (rule sum.cong) auto
    ultimately show ?thesis by (simp only: fun_upd_same)
  qed
  ultimately show ?thesis by simp
qed

record 'j Turn =
  tn_iter :: "(JobId \<times> 'j Job) list \<Rightarrow> (JobId \<times> 'j Job) list"
  tn_clock :: "JobId \<Rightarrow> datetime"
  tn_now :: datetime
  tn_executor :: "('j InMemoryJobStore, 'j) JobExecutor"
  tn_clk :: "nat \<Rightarrow> datetime"
  tn_uptime :: u64
  tn_tenant :: "TenantId option"

definition turn_ok :: "'j Turn \<Rightarrow> bool" where
  "turn_ok tn \<longleftrightarrow> iter_ok (tn_iter tn) \<and> memory_executor (tn_executor tn)"

definition take_turn ::
    "'j InMemoryJobStore \<times> ExecutorStats \<Rightarrow> 'j Turn \<Rightarrow> ('j InMemoryJobStore \<times> ExecutorStats) \<times> bool" where
  "take_turn st tn = executor_turn (claim_next (tn_iter tn) (tn_clock tn) (tn_now tn)) (tn_executor tn)
     (tn_clk tn) (tn_uptime tn) (tn_tenant tn) st"

text \<open>A run of the loop with the number of turns that claimed a job.\<close>

primrec executor_run ::
    "'j InMemoryJobStore \<times> ExecutorStats \<Rightarrow> 'j Turn list \<Rightarrow> ('j InMemoryJobStore \<times> ExecutorStats) \<times> nat" where
  "executor_run st [] = (st, 0)"
| "executor_run st (tn # tns) =
    (let (st', claimed) = take_turn st tn; (st'', n) = executor_run st' tns
     in (st'', if claimed then Suc n else n))"

lemma take_turn_budget:
  assumes "system_ok (s, [])" "turn_ok tn" "take_turn (s, xs) tn = ((s', xs'), claimed)"
  shows "system_ok (s', []) \<and> budget s' + (if claimed then 1 else 0) \<le> budget s"
proof -
  have ok: "job_store_ok s" and it: "iter_ok (tn_iter tn)" and me: "memory_executor (tn_executor tn)"
    using assms(1,2) by (auto simp: system_ok_def turn_ok_def)
  show ?thesis
  proof (cases rule: claim_next_cases [OF it ok, of "tn_clock tn" "tn_now tn" "tn_tenant tn"])
    case 1
    then show ?thesis using assms(1,3) by (auto simp: take_turn_def executor_turn_def)
  next
    case (2 j)
    let ?j1 = "mark_running (tn_now tn) j"
    let ?s1 = "s\<lparr>js_jobs := AList.update (jb_id j) ?j1 (js_jobs s)\<rparr>"
    obtain j' r where ex: "execute_job (tn_executor tn) (tn_clk tn) ?s1 ?j1 = (s', j', r)" "claimed"
      using assms(3) 2(4) by (auto simp: take_turn_def executor_turn_def split: prod.splits)
    have sys1: "system_ok (?s1, [?j1])"
      using system_ok_claim [OF assms(1) it 2(4)] by simp
    have sys: "system_ok (s', [])"
      using system_ok_execute [OF sys1 _ me ex(1)] by simp
    have ok1: "job_store_ok ?s1" using sys1 by (simp add: system_ok_def)
    have "jobs_of ?s1 (jb_id ?j1) \<noteq> None" by simp
    from in_memory_jobs.execute_job_effect [OF ok1 this _ _ ex(1)] me
    have ro: "run_over ?j1 j'" and "jobs_of s' = (jobs_of ?s1)(jb_id j \<mapsto> j') \<or> jobs_of s' = (jobs_of ?s1)(jb_id j := None)"
      by (auto simp: memory_executor_def)
    then obtain x where x: "jobs_of s' = (jobs_of s)(jb_id j := x)" "x = Some j' \<or> x = None" by auto
    have w: "waiting j" by (rule claimable_waiting [OF 2(2)])
    have "job_wf j" using assms(1) 2(1) by (auto simp: system_ok_def)
    then have "runs_left x < runs_left (jobs_of s (jb_id j))"
      using x(2) ro w 2(1) by (auto simp: runs_left_def job_wf_def run_over_def max_runs_def)
    moreover have "budget s' + runs_left (jobs_of s (jb_id j)) = budget s + runs_left x"
      unfolding budget_def x(1) using 2(1) by (intro sum_runs_left_upd) (auto simp: finite_dom_map_of)
    ultimately show ?thesis using sys ex(2) by simp
  qed
qed

lemma take_turn_idle:
  assumes "system_ok (s, [])" "turn_ok tn" "take_turn (s, xs) tn = ((s', xs'), False)"
  shows "\<forall>j. jobs_of s (jb_id j) = Some j \<longrightarrow> \<not> claimable (tn_clock tn) (tn_tenant tn) j"
proof -
  have "job_store_ok s" "iter_ok (tn_iter tn)"
    using assms(1,2) by (auto simp: system_ok_def turn_ok_def)
  from claim_next_cases [OF this(2,1), of "tn_clock tn" "tn_now tn" "tn_tenant tn"] show ?thesis
  proof cases
    case (2 j)
    then show ?thesis using assms(3) by (simp add: take_turn_def executor_turn_def split: prod.splits)
  qed
qed

lemma executor_run_drains:
  assumes "system_ok (s, [])" "list_all turn_ok tns"
  shows "snd (executor_run (s, xs) tns) \<le> budget s \<and>
    (budget s < length tns \<longrightarrow> (\<exists>k < length tns. \<forall>j.
       jobs_of (fst (fst (executor_run (s, xs) (take k tns)))) (jb_id j) = Some j \<longrightarrow>
       \<not> claimable (tn_clock (tns ! k)) (tn_tenant (tns ! k)) j))"
  using assms
proof (induction tns arbitrary: s xs)
  case (Cons tn tns)
  obtain s' xs' claimed where t: "take_turn (s, xs) tn = ((s', xs'), claimed)" by (metis prod.exhaust)
  from take_turn_budget [OF Cons.prems(1) _ t] Cons.prems(2)
  have sys: "system_ok (s', [])" and le: "budget s' + (if claimed then 1 else 0) \<le> budget s" by auto
  note IH = Cons.IH [OF sys, of xs']
  have runs: "executor_run (s, xs) (tn # tns') =
      (let (st'', n) = executor_run (s', xs') tns' in (st'', if claimed then Suc n else n))" for tns'
    by (simp add: t)
  show ?case
  proof (cases claimed)
    case True
    have "\<exists>k < length (tn # tns). \<forall>j.
        jobs_of (fst (fst (executor_run (s, xs) (take k (tn # tns))))) (jb_id j) = Some j \<longrightarrow>
        \<not> claimable (tn_clock ((tn # tns) ! k)) (tn_tenant ((tn # tns) ! k)) j"
      if "budget s < length (tn # tns)"
    proof -
      have "budget s' < length tns" using that le True by simp
      then obtain k where k: "k < length tns" "\<forall>j.
          jobs_of (fst (fst (executor_run (s', xs') (take k tns)))) (jb_id j) = Some j \<longrightarrow>
          \<not> claimable (tn_clock (tns ! k)) (tn_tenant (tns ! k)) j"
        using IH Cons.prems(2) by auto
      then show ?thesis
        by (intro exI [of _ "Suc k"]) (simp only: take_Suc_Cons runs, simp add: split_beta Let_def)
    qed
    moreover have "snd (executor_run (s, xs) (tn # tns)) \<le> budget s"
      using IH Cons.prems(2) le True by (simp only: runs) (simp add: split_beta Let_def)
    ultimately show ?thesis by blast
  next
    case False
    then have False_claimed: "claimed = False" by simp
    have "\<forall>j. jobs_of s (jb_id j) = Some j \<longrightarrow> \<not> claimable (tn_clock tn) (tn_tenant tn) j"
      using take_turn_idle [OF Cons.prems(1) _ t [unfolded False_claimed]] Cons.prems(2) by simp
    then have "\<exists>k < length (tn # tns). \<forall>j.
        jobs_of (fst (fst (executor_run (s, xs) (take k (tn # tns))))) (jb_id j) = Some j \<longrightarrow>
        \<not> claimable (tn_clock ((tn # tns) ! k)) (tn_tenant ((tn # tns) ! k)) j"
      by (intro exI [of _ 0]) simp
    moreover have "snd (executor_run (s, xs) (tn # tns)) \<le> budget s"
      using IH Cons.prems(2) le False by (simp only: runs) (simp add: split_beta Let_def)
    ultimately show ?thesis by blast
  qed
qed simp

subsection \<open>Properties\<close>

text \<open>C30: in every reachable state of the job system, however the executors' claims, executions,
  dead-letter retries and deletions interleave, no two executors hold the same job; the held jobs
  are exactly the stored jobs marked as running; no job is both queued and dead-lettered; and every
  stored job is well formed: one history entry per finished run, never more runs than its retry
  policy allows, and at least one run left while it waits.\<close>

theorem jobs_run_exclusively:
  assumes "job_system (s, held)"
  shows "distinct (map jb_id held) \<and>
    (\<forall>j. j \<in> set held \<longleftrightarrow> jobs_of s (jb_id j) = Some j \<and> jb_status j = Running) \<and>
    (\<forall>i. jobs_of s i = None \<or> dead_of s i = None) \<and>
    (\<forall>i j. jobs_of s i = Some j \<longrightarrow> jb_id j = i \<and> job_wf j)"
  using job_system_ok [OF assms] by (auto simp: system_ok_def job_store_ok_def)

definition sample_job :: "string Job" where
  "sample_job = with_retry_policy (job_new 1 10 (TenantId 7) (CustomKind ''test'') ''{}'')
     (policy_default\<lparr>rt_max_attempts := 2\<rparr>)"

definition sample_store :: "string InMemoryJobStore" where
  "sample_store = fst (job_enqueue job_store_new sample_job)"

definition failing_executor :: "(string InMemoryJobStore, string) JobExecutor" where
  "failing_executor = register_handler \<lparr> jx_update = job_update, jx_dead_letter = dead_letter, jx_handlers = [],
     jx_iter = id, jx_backoff = (\<lambda>p _. rt_base_delay p), jx_show_error = (\<lambda>_. ''store error''),
     jx_debug_kind = type_name \<rparr> ''*'' (\<lambda>_. Failure ''boom'')"

definition sample_turn :: "datetime \<Rightarrow> string Turn" where
  "sample_turn t = \<lparr> tn_iter = id, tn_clock = (\<lambda>_. t), tn_now = t, tn_executor = failing_executor,
     tn_clk = (\<lambda>_. t), tn_uptime = 0, tn_tenant = None \<rparr>"

lemmas sample_job_defs = sample_job_def sample_store_def with_retry_policy_def job_new_def policy_default_def
  job_enqueue_def job_store_new_def

lemma sample_system: "job_system (sample_store, [])"
  unfolding sample_store_def
  by (rule js_enqueue [OF js_init]) (simp add: fresh_job_def sample_job_defs)

lemma sample_claimed:
  "job_system (fst (claim_next id (\<lambda>_. 20) 20 sample_store None), [mark_running 20 sample_job])"
proof -
  have "claim_next id (\<lambda>_. 20) 20 sample_store None =
      (fst (claim_next id (\<lambda>_. 20) 20 sample_store None), Inr (Some (mark_running 20 sample_job)))"
    by (simp add: claim_next_def sample_job_defs claimable_def is_ready_def Let_def)
  from js_claim [OF sample_system _ this] show ?thesis by (simp add: iter_ok_def)
qed

theorem jobs_run_exclusively_witness:
  "\<exists>s held. held = [mark_running 20 sample_job] \<and> distinct (map jb_id held) \<and>
    (\<forall>j. j \<in> set held \<longleftrightarrow> jobs_of s (jb_id j) = Some j \<and> jb_status j = Running) \<and>
    (\<forall>i. jobs_of s i = None \<or> dead_of s i = None) \<and>
    (\<forall>i j. jobs_of s i = Some j \<longrightarrow> jb_id j = i \<and> job_wf j)"
  using jobs_run_exclusively [OF sample_claimed] by blast

text \<open>C31: the executor loop gets through its queue.  From a reachable state in which no executor holds
  a job, any sequence of turns, with any clocks, tenants and handlers, runs jobs at most as often as
  their retry policies allow in total; so among more turns than that there is one that finds no job
  due.\<close>

theorem executor_drains_queue:
  assumes "job_system (s, [])" "list_all turn_ok tns"
  shows "snd (executor_run (s, xs) tns) \<le> budget s \<and>
    (budget s < length tns \<longrightarrow> (\<exists>k < length tns. \<forall>j.
       jobs_of (fst (fst (executor_run (s, xs) (take k tns)))) (jb_id j) = Some j \<longrightarrow>
       \<not> claimable (tn_clock (tns ! k)) (tn_tenant (tns ! k)) j))"
  by (rule executor_run_drains [OF job_system_ok [OF assms(1)] assms(2)])

lemma sample_turn_ok: "turn_ok (sample_turn t)"
  by (simp add: turn_ok_def sample_turn_def iter_ok_def memory_executor_def failing_executor_def register_handler_def)

definition stats_default :: ExecutorStats where
  "stats_default = \<lparr> xs_jobs_processed = 0, xs_jobs_succeeded = 0, xs_jobs_failed = 0, xs_jobs_dead_lettered = 0,
     xs_current_running = 0, xs_uptime_secs = 0 \<rparr>"

theorem executor_drains_queue_witness:
  "budget sample_store = 2 \<and>
   snd (executor_run (sample_store, stats_default) (replicate 3 (sample_turn 20))) \<le> 2 \<and>
   (\<exists>k < 3. \<forall>j.
      jobs_of (fst (fst (executor_run (sample_store, stats_default) (replicate k (sample_turn 20))))) (jb_id j) = Some j \<longrightarrow>
      \<not> claimable (\<lambda>_. 20) None j)"
proof -
  have b: "budget sample_store = 2"
    by (simp add: budget_def runs_left_def max_runs_def waiting_def sample_job_defs)
  have t: "tn_clock (sample_turn 20) = (\<lambda>_. 20)" "tn_tenant (sample_turn 20) = None"
    by (simp_all add: sample_turn_def)
  have "list_all turn_ok (replicate 3 (sample_turn 20))" by (simp add: list_all_length sample_turn_ok)
  from executor_drains_queue [OF sample_system this, of stats_default]
  show ?thesis by (auto simp: b t min_def)
qed

text \<open>\<^verbatim>\<open>claim_next\<close> hands out an oldest job among those of the asked tenant that are pending or
  failed and due, marks it as running with one more attempt, and changes no other job; it returns
  nothing only when no such job exists.\<close>

theorem claim_takes_oldest_due:
  assumes "job_system (s, held)" "iter_ok iter" "claim_next iter clock now s t = (s', r)"
  shows "dead_of s' = dead_of s \<and>
    (case r of
       Inl e \<Rightarrow> False
     | Inr None \<Rightarrow> s' = s \<and> (\<forall>i j. jobs_of s i = Some j \<longrightarrow> \<not> claimable clock t j)
     | Inr (Some j') \<Rightarrow> \<exists>j. jobs_of s (jb_id j) = Some j \<and> claimable clock t j \<and> j' = mark_running now j \<and>
         jobs_of s' = (jobs_of s)(jb_id j \<mapsto> j') \<and>
         (\<forall>i k. jobs_of s i = Some k \<and> claimable clock t k \<longrightarrow> jb_created_at j \<le> jb_created_at k))"
proof -
  have ok: "job_store_ok s" using job_system_ok [OF assms(1)] by (simp add: system_ok_def)
  have ids: "jobs_of s (jb_id j) = Some j" if "jobs_of s i = Some j" for i j
    using in_memory_jobs.jobs_id [OF ok that] that by simp
  from claim_next_cases [OF assms(2) ok, of clock now t] show ?thesis
  proof cases
    case 1
    then show ?thesis using assms(3) ids by auto
  next
    case (2 j)
    then have "s' = s\<lparr>js_jobs := AList.update (jb_id j) (mark_running now j) (js_jobs s)\<rparr>"
      "r = Inr (Some (mark_running now j))" using assms(3) by simp_all
    then show ?thesis using 2(1-3) ids by (auto intro!: exI [of _ j])
  qed
qed

theorem claim_takes_oldest_due_witness:
  "snd (claim_next id (\<lambda>_. 20) 20 sample_store (Some (TenantId 8))) = Inr None \<and>
   (\<forall>i j. jobs_of sample_store i = Some j \<longrightarrow> \<not> claimable (\<lambda>_. 20) (Some (TenantId 8)) j)"
proof -
  have "claim_next id (\<lambda>_. 20) 20 sample_store (Some (TenantId 8)) = (sample_store, Inr None)"
    by (simp add: claim_next_def sample_job_defs claimable_def)
  from claim_takes_oldest_due [OF sample_system _ this] this show ?thesis by (simp add: iter_ok_def)
qed

text \<open>Dead-lettering a job and retrying it is a round trip: the job is queued again as it was, but
  pending, with its attempts and history reset and due at once; the dead letters and all other jobs
  are as before.  A retry by another tenant is refused and changes neither map.\<close>

theorem dead_letter_retry_roundtrip:
  assumes "job_system (s, held)" "jobs_of s (jb_id j) = Some j" "dead_letter now now' s j reason = (s1, r1)"
  shows "r1 = Inr () \<and> jobs_of s1 (jb_id j) = None \<and>
    (case retry_dead_letter later s1 t (jb_id j) of (s2, r2) \<Rightarrow>
       if t = jb_tenant_id j
       then (\<exists>j'. r2 = Inr j' \<and> j' = j\<lparr>jb_status := Pending, jb_attempt := 0, jb_scheduled_at := None,
               jb_updated_at := later, jb_history := []\<rparr> \<and>
               jobs_of s2 = (jobs_of s)(jb_id j \<mapsto> j') \<and> dead_of s2 = dead_of s)
       else r2 = Inl TenantIsolation \<and> jobs_of s2 = jobs_of s1 \<and> dead_of s2 = dead_of s1)"
proof -
  have none: "dead_of s (jb_id j) = None" by (rule system_ok_disjoint [OF job_system_ok [OF assms(1)] assms(2)])
  have "(dead_of s)(jb_id j := None) = dead_of s" using none by auto
  then show ?thesis
    using assms(3) by (auto simp: dead_letter_def retry_dead_letter_def Let_def)
qed

theorem dead_letter_retry_roundtrip_witness:
  "\<exists>s1 s2. dead_letter 30 31 sample_store sample_job ''bad'' = (s1, Inr ()) \<and>
     retry_dead_letter 40 s1 (TenantId 7) (JobId 1) = (s2, Inr (sample_job\<lparr>jb_updated_at := 40\<rparr>)) \<and>
     dead_of s2 = dead_of sample_store"
proof -
  let ?s1 = "fst (dead_letter 30 31 sample_store sample_job ''bad'')"
  have d: "dead_letter 30 31 sample_store sample_job ''bad'' = (?s1, Inr ())"
    by (simp add: dead_letter_def Let_def)
  have "jobs_of sample_store (jb_id sample_job) = Some sample_job"
    by (simp add: sample_job_defs)
  moreover have "jb_id sample_job = JobId 1" "jb_tenant_id sample_job = TenantId 7"
    "sample_job\<lparr>jb_status := Pending, jb_attempt := 0, jb_scheduled_at := None, jb_updated_at := 40, jb_history := []\<rparr>
      = sample_job\<lparr>jb_updated_at := 40\<rparr>"
    by (simp_all add: sample_job_defs)
  ultimately show ?thesis
    using dead_letter_retry_roundtrip [OF sample_system _ d, where later = 40 and t = "TenantId 7"] d
    by (auto split: prod.splits)
qed

text \<open>A job that asks for a retry with no attempts left is marked as dead-lettered but stays in the job
  map: it is not in the dead-letter queue, so it can be neither listed nor retried there.\<close>

lemma exhausted_retry_not_in_dead_letters:
  assumes "job_system (s, held)" "j \<in> set held" "memory_executor ex" "execute_job ex clk s j = (s', j', r)"
    "get_handler ex (jb_kind j) = Some h" "h j = RetryNow" "rt_max_attempts (jb_retry_policy j) \<le> jb_attempt j"
  shows "is_dead_lettered (jb_status j') \<and> jobs_of s' (jb_id j) = Some j' \<and> dead_of s' (jb_id j) = None \<and>
    retry_dead_letter now s' t (jb_id j) = (s', Inl (NotFound (jb_id j)))"
proof -
  have sys: "system_ok (s, held)" by (rule job_system_ok [OF assms(1)])
  have j: "jobs_of s (jb_id j) = Some j" using sys assms(2) by (auto simp: system_ok_def)
  have "dead_of s (jb_id j) = None" by (rule system_ok_disjoint [OF sys j])
  moreover have "jx_update ex = job_update" using assms(3) by (simp add: memory_executor_def)
  ultimately show ?thesis
    using assms(4-7) j
    by (auto simp: execute_job_def update_then_def job_update_def Let_def retry_dead_letter_def
        linorder_not_less)
qed

text \<open>\<^verbatim>\<open>claim_next\<close> and \<^verbatim>\<open>execute_one\<close> both mark the job as running, so a job of at most two attempts is
  dead-lettered after its first failure.\<close>

lemma execute_one_after_claim_dead_letters:
  "case claim_next id (\<lambda>_. 20) 20 sample_store (Some (TenantId 7)) of
     (s, Inr (Some claimed)) \<Rightarrow> jb_status (fst (snd (execute_one failing_executor (\<lambda>_. 20) s claimed))) =
        DeadLettered ''boom'' 2
   | _ \<Rightarrow> False"
  by (simp add: claim_next_def sample_job_defs claimable_def is_ready_def Let_def execute_one_def
      failing_executor_def register_handler_def get_handler_def category_match_def ends_with_def
      starts_with_def update_then_def job_update_def dead_letter_def split: option.splits)

end
