(* ===== verification/Job_Thread.thy ===== *)
theory Job_Thread
  imports Job_Executor
begin

text \<open>
  The thread around the job executor (\<^verbatim>\<open>infra/src/jobs/executor.rs\<close>): its configuration, the handle that stops it and
  reads its statistics, and the loop with its shutdown check.  \<^verbatim>\<open>executor_run\<close> interleaves the turns with requests to
  shut down and with whatever other threads do to the store.
\<close>

record JobExecutorConfig =
  jc_poll_interval :: duration
  jc_max_concurrent :: nat
  jc_name :: string
  jc_tenant_id :: "TenantId option"

definition executor_config_default :: JobExecutorConfig where
  "executor_config_default = \<lparr> jc_poll_interval = millis 100, jc_max_concurrent = 4, jc_name = ''job-executor'', jc_tenant_id = None \<rparr>"

definition with_tenant :: "JobExecutorConfig \<Rightarrow> TenantId \<Rightarrow> JobExecutorConfig" where
  "with_tenant self tenant_id = self\<lparr>jc_tenant_id := Some tenant_id\<rparr>"

record 's ExecutorThread =
  xt_store :: 's
  xt_stats :: ExecutorStats
  xt_shutdown :: bool
  xt_running :: bool

definition executor_spawn :: "'s \<Rightarrow> 's ExecutorThread" where
  "executor_spawn store = \<lparr> xt_store = store,
     xt_stats = \<lparr> xs_jobs_processed = 0, xs_jobs_succeeded = 0, xs_jobs_failed = 0, xs_jobs_dead_lettered = 0,
       xs_current_running = 0, xs_uptime_secs = 0 \<rparr>,
     xt_shutdown = False, xt_running = True \<rparr>"

definition executor_shutdown :: "'s ExecutorThread \<Rightarrow> 's ExecutorThread" where
  "executor_shutdown th = (if xt_running th then th\<lparr>xt_shutdown := True\<rparr> else th)"

definition executor_loop ::
    "('s \<Rightarrow> TenantId option \<Rightarrow> 's \<times> (JobStoreError + 'j Job option)) \<Rightarrow> ('s, 'j) JobExecutor \<Rightarrow> JobExecutorConfig \<Rightarrow>
     (nat \<Rightarrow> datetime) \<Rightarrow> u64 \<Rightarrow> 's ExecutorThread \<Rightarrow> 's ExecutorThread" where
  "executor_loop claim self config clk uptime th =
    (if \<not> xt_running th then th
     else if xt_shutdown th then th\<lparr>xt_shutdown := False, xt_running := False\<rparr>
     else case executor_turn claim self clk uptime (jc_tenant_id config) (xt_store th, xt_stats th) of
            ((store, s), _) \<Rightarrow> th\<lparr>xt_store := store, xt_stats := s\<rparr>)"

inductive executor_run :: "('s, 'j) JobExecutor \<Rightarrow> JobExecutorConfig \<Rightarrow> 's ExecutorThread \<Rightarrow> bool" for self config where
  er_spawn: "executor_run self config (executor_spawn store)"
| er_shutdown: "executor_run self config th \<Longrightarrow> executor_run self config (executor_shutdown th)"
| er_others: "executor_run self config th \<Longrightarrow> executor_run self config (th\<lparr>xt_store := store\<rparr>)"
| er_turn: "executor_run self config th \<Longrightarrow> executor_run self config (executor_loop claim self config clk uptime th)"

definition stats_ok :: "ExecutorStats \<Rightarrow> bool" where
  "stats_ok s \<longleftrightarrow> xs_current_running s = 0 \<and> xs_jobs_processed s = xs_jobs_succeeded s + xs_jobs_failed s"

lemma count_result_ok:
  assumes "xs_current_running s = 1" "xs_jobs_processed s = xs_jobs_succeeded s + xs_jobs_failed s"
  shows "stats_ok (count_result s status result)"
  using assms by (cases result) (auto simp: count_result_def stats_ok_def Let_def)

lemma executor_turn_stats:
  assumes "stats_ok s" "executor_turn claim self clk uptime t (store, s) = ((store', s'), b)"
  shows "stats_ok s'"
proof -
  obtain st r where c: "claim store t = (st, r)" by fastforce
  show ?thesis
  proof (cases "\<exists>job. r = Inr (Some job)")
    case True
    then obtain job where "r = Inr (Some job)" by blast
    moreover obtain st2 job2 res where "execute_job self clk st job = (st2, job2, res)" by (cases "execute_job self clk st job") auto
    ultimately show ?thesis
      using assms c by (auto simp: executor_turn_def Let_def stats_ok_def intro!: count_result_ok [unfolded stats_ok_def])
  next
    case False
    then have "s' = s\<lparr>xs_uptime_secs := uptime\<rparr>"
      using assms(2) c by (cases r) (auto simp: executor_turn_def Let_def split: option.splits)
    then show ?thesis using assms(1) by (simp add: stats_ok_def)
  qed
qed

text \<open>Whatever the handlers, the store and the other threads do, between two turns no job counts as running and every
  processed job was counted once, as a success or as a failure; a requested shutdown ends the thread on its next turn
  before it claims anything, and then it stays ended.\<close>

theorem executor_thread_stats:
  assumes "executor_run self config th"
  shows "stats_ok (xt_stats th) \<and>
    (xt_shutdown th \<longrightarrow> executor_loop claim self config clk uptime th = th\<lparr>xt_shutdown := False, xt_running := False\<rparr>) \<and>
    (\<not> xt_running th \<longrightarrow> executor_loop claim self config clk uptime th = th)"
proof -
  have "stats_ok (xt_stats th) \<and> (xt_shutdown th \<longrightarrow> xt_running th)"
    using assms
  proof induction
    case (er_turn th claim clk uptime)
    then show ?case
      by (auto simp: executor_loop_def split: prod.splits dest: executor_turn_stats)
  qed (auto simp: executor_spawn_def executor_shutdown_def stats_ok_def)
  then show ?thesis by (auto simp: executor_loop_def)
qed

end
