(* ===== verification/Event_Store.thy ===== *)
theory Event_Store
  imports Core_Domain
begin

text \<open>
  The event store contract (\<^verbatim>\<open>infra/src/event_store/trait.rs\<close>) and its in-memory
  implementation (\<^verbatim>\<open>infra/src/event_store/in_memory.rs\<close>).  Payloads are values of a type
  variable that stands for \<^verbatim>\<open>serde_json::Value\<close>.

  The locale \<^verbatim>\<open>event_store\<close> states what a client of the trait relies on: an append either
  leaves every stream as it was or extends exactly one stream by consecutively numbered
  events; loading has no effect.  The in-memory store interprets it.
\<close>

subsection \<open>Data\<close>

record 'j UncommittedEvent =
  ue_event_id :: uuid
  ue_tenant_id :: TenantId
  ue_aggregate_id :: AggregateId
  ue_aggregate_type :: string
  ue_event_type :: string
  ue_event_version :: u32
  ue_occurred_at :: datetime
  ue_payload :: 'j

record 'j StoredEvent =
  se_event_id :: uuid
  se_tenant_id :: TenantId
  se_aggregate_id :: AggregateId
  se_aggregate_type :: string
  se_sequence_number :: u64
  se_event_type :: string
  se_event_version :: u32
  se_occurred_at :: datetime
  se_payload :: 'j

definition stream_version_of_event :: "'j StoredEvent \<Rightarrow> u64" where
  "stream_version_of_event self = se_sequence_number self"

record 'j EventEnvelope =
  ee_event_id :: uuid
  ee_tenant_id :: TenantId
  ee_aggregate_id :: AggregateId
  ee_aggregate_type :: string
  ee_sequence_number :: u64
  ee_payload :: 'j

definition envelope_new ::
    "uuid \<Rightarrow> TenantId \<Rightarrow> AggregateId \<Rightarrow> string \<Rightarrow> u64 \<Rightarrow> 'j \<Rightarrow> 'j EventEnvelope" where
  "envelope_new event_id tenant_id aggregate_id aggregate_type sequence_number payload =
     \<lparr> ee_event_id = event_id, ee_tenant_id = tenant_id, ee_aggregate_id = aggregate_id,
       ee_aggregate_type = aggregate_type, ee_sequence_number = sequence_number,
       ee_payload = payload \<rparr>"

definition to_envelope :: "'j StoredEvent \<Rightarrow> 'j EventEnvelope" where
  "to_envelope self = envelope_new (se_event_id self) (se_tenant_id self) (se_aggregate_id self)
     (se_aggregate_type self) (se_sequence_number self) (se_payload self)"

datatype EventStoreError =
    Concurrency string
  | TenantIsolation string
  | AggregateTypeMismatch string
  | InvalidAppend string
  | Publish string

text \<open>\<^verbatim>\<open>UncommittedEvent::from_typed\<close>: serialisation (\<^verbatim>\<open>serde_json::to_value\<close>, with its error
  rendered) and the event's metadata functions are arguments.\<close>

definition from_typed ::
    "('e \<Rightarrow> string + 'j) \<Rightarrow> ('e \<Rightarrow> string) \<Rightarrow> ('e \<Rightarrow> u32) \<Rightarrow> ('e \<Rightarrow> datetime) \<Rightarrow>
     TenantId \<Rightarrow> AggregateId \<Rightarrow> string \<Rightarrow> uuid \<Rightarrow> 'e \<Rightarrow> EventStoreError + 'j UncommittedEvent" where
  "from_typed to_value event_type version occurred_at tenant_id aggregate_id aggregate_type event_id event =
    and_then (map_err (\<lambda>e. InvalidAppend (''payload serialization failed: '' @ e)) (to_value event))
      (\<lambda>payload. Inr \<lparr> ue_event_id = event_id, ue_tenant_id = tenant_id,
         ue_aggregate_id = aggregate_id, ue_aggregate_type = aggregate_type,
         ue_event_type = event_type event, ue_event_version = version event,
         ue_occurred_at = occurred_at event, ue_payload = payload \<rparr>)"

subsection \<open>The in-memory store\<close>

record StreamKey =
  sk_tenant_id :: TenantId
  sk_aggregate_id :: AggregateId

text \<open>The lock can be poisoned by a panic of another holder; every operation then fails.\<close>

record 'j InMemoryEventStore =
  st_streams :: "StreamKey \<Rightarrow> 'j StoredEvent list option"
  st_poisoned :: bool

definition store_new :: "'j InMemoryEventStore" where
  "store_new = \<lparr> st_streams = (\<lambda>_. None), st_poisoned = False \<rparr>"

definition current_version :: "'j StoredEvent list \<Rightarrow> u64" where
  "current_version stream = (if stream = [] then 0 else se_sequence_number (last stream))"

definition or_default :: "'a list option \<Rightarrow> 'a list" where
  "or_default x = (case x of None \<Rightarrow> [] | Some xs \<Rightarrow> xs)"

definition check_batch_event ::
    "TenantId \<Rightarrow> AggregateId \<Rightarrow> string \<Rightarrow> nat \<Rightarrow> 'j UncommittedEvent \<Rightarrow> EventStoreError + unit" where
  "check_batch_event tenant_id aggregate_id aggregate_type idx e =
    (if ue_tenant_id e \<noteq> tenant_id
       then Inl (TenantIsolation (''batch contains multiple tenant_ids (index '' @ show_nat idx @ '')''))
     else if ue_aggregate_id e \<noteq> aggregate_id
       then Inl (InvalidAppend (''batch contains multiple aggregate_ids (index '' @ show_nat idx @ '')''))
     else if ue_aggregate_type e \<noteq> aggregate_type
       then Inl (AggregateTypeMismatch
              (''batch contains multiple aggregate_types (index '' @ show_nat idx @ '')''))
     else Inr ())"

text \<open>The stored form of an event, and the loop that numbers a batch from \<^verbatim>\<open>next\<close>.\<close>

definition store_event :: "u64 \<Rightarrow> 'j UncommittedEvent \<Rightarrow> 'j StoredEvent" where
  "store_event seq e = \<lparr> se_event_id = ue_event_id e, se_tenant_id = ue_tenant_id e,
     se_aggregate_id = ue_aggregate_id e, se_aggregate_type = ue_aggregate_type e,
     se_sequence_number = seq, se_event_type = ue_event_type e,
     se_event_version = ue_event_version e, se_occurred_at = ue_occurred_at e,
     se_payload = ue_payload e \<rparr>"

primrec assign_sequence :: "u64 \<Rightarrow> 'j UncommittedEvent list \<Rightarrow> 'j StoredEvent list" where
  "assign_sequence seq [] = []"
| "assign_sequence seq (e # es) = store_event seq e # assign_sequence (seq + 1) es"

definition append_locked ::
    "'j InMemoryEventStore \<Rightarrow> StreamKey \<Rightarrow> string \<Rightarrow> 'j UncommittedEvent list \<Rightarrow> ExpectedVersion \<Rightarrow>
     'j InMemoryEventStore \<times> (EventStoreError + 'j StoredEvent list)" where
  "append_locked self key aggregate_type events expected_version =
    (let stream = or_default (st_streams self key);
         self' = self\<lparr>st_streams := (st_streams self)(key \<mapsto> stream)\<rparr>;
         current = current_version stream
     in
      if \<not> expected_matches expected_version current
        then (self', Inl (Concurrency
               (''expected '' @ show_expected expected_version @ '', found '' @ show_u64 current)))
      else if stream \<noteq> [] \<and> se_aggregate_type (hd stream) \<noteq> aggregate_type
        then (self', Inl (AggregateTypeMismatch
               (''stream aggregate_type is '' @ apostrophe @ se_aggregate_type (hd stream) @ apostrophe
                @ '', attempted append with '' @ apostrophe @ aggregate_type @ apostrophe)))
      else (let committed = assign_sequence (current + 1) events in
        (self\<lparr>st_streams := (st_streams self)(key \<mapsto> stream @ committed)\<rparr>, Inr committed)))"

definition append_events ::
    "'j InMemoryEventStore \<Rightarrow> 'j UncommittedEvent list \<Rightarrow> ExpectedVersion \<Rightarrow>
     'j InMemoryEventStore \<times> (EventStoreError + 'j StoredEvent list)" where
  "append_events self events expected_version =
    (case events of
       [] \<Rightarrow> (self, Inr [])
     | e0 # _ \<Rightarrow>
        (let tenant_id = ue_tenant_id e0; aggregate_id = ue_aggregate_id e0;
             aggregate_type = ue_aggregate_type e0
         in case check_all (check_batch_event tenant_id aggregate_id aggregate_type) events of
              Inl err \<Rightarrow> (self, Inl err)
            | Inr _ \<Rightarrow>
                if st_poisoned self then (self, Inl (InvalidAppend ''lock poisoned''))
                else append_locked self
                  \<lparr> sk_tenant_id = tenant_id, sk_aggregate_id = aggregate_id \<rparr>
                  aggregate_type events expected_version))"

definition load_stream ::
    "'j InMemoryEventStore \<Rightarrow> TenantId \<Rightarrow> AggregateId \<Rightarrow> EventStoreError + 'j StoredEvent list" where
  "load_stream self tenant_id aggregate_id =
    (if st_poisoned self then Inl (InvalidAppend ''lock poisoned'')
     else Inr (or_default (st_streams self
       \<lparr> sk_tenant_id = tenant_id, sk_aggregate_id = aggregate_id \<rparr>)))"

subsection \<open>Well-formed streams\<close>

text \<open>A stream holds the events of one tenant and aggregate, of one aggregate type, numbered
  consecutively from 1.\<close>

definition stream_ok :: "TenantId \<Rightarrow> AggregateId \<Rightarrow> 'j StoredEvent list \<Rightarrow> bool" where
  "stream_ok t a es \<longleftrightarrow>
     (\<forall>e \<in> set es. se_tenant_id e = t \<and> se_aggregate_id e = a) \<and>
     (\<forall>e \<in> set es. se_aggregate_type e = se_aggregate_type (hd es)) \<and>
     map se_sequence_number es = map of_nat [1..<Suc (length es)]"

lemma stream_ok_Nil [simp]: "stream_ok t a []"
  by (simp add: stream_ok_def)

lemma map_assign_sequence [simp]:
  "map se_sequence_number (assign_sequence n us) = map (\<lambda>k. n + of_nat k) [0..<length us]"
proof (induction us arbitrary: n)
  case (Cons u us)
  have "map (\<lambda>k. n + of_nat k) [0..<length (u # us)]
    = n # map (\<lambda>k. n + 1 + of_nat k) [0..<length us]"
    by (simp del: upt_Suc add: upt_conv_Cons map_Suc_upt [symmetric] o_def add.assoc)
  then show ?case by (simp add: Cons.IH store_event_def)
qed simp

lemma length_assign_sequence [simp]: "length (assign_sequence n us) = length us"
  by (induction us arbitrary: n) simp_all

lemma assign_sequence_map:
  assumes "\<And>n u. f (store_event n u) = g u"
  shows "map f (assign_sequence n us) = map g us"
  using assms by (induction us arbitrary: n) simp_all

lemmas assign_sequence_fields [simp] =
  assign_sequence_map [where f = se_tenant_id and g = ue_tenant_id]
  assign_sequence_map [where f = se_aggregate_id and g = ue_aggregate_id]
  assign_sequence_map [where f = se_aggregate_type and g = ue_aggregate_type]
  assign_sequence_map [where f = se_payload and g = ue_payload]
  assign_sequence_map [where f = se_event_id and g = ue_event_id]

lemma current_version_stream_ok:
  assumes "stream_ok t a es"
  shows "current_version es = of_nat (length es)"
proof (cases es rule: rev_cases)
  case (snoc xs x)
  then have "map se_sequence_number (xs @ [x]) = map of_nat [1..<Suc (length xs)] @ [of_nat (Suc (length xs))]"
    using assms by (simp add: stream_ok_def)
  then have "se_sequence_number x = of_nat (Suc (length xs))" by simp
  then show ?thesis using snoc by (simp add: current_version_def)
qed (simp add: current_version_def)

text \<open>A batch is homogeneous when all its events name the same stream and type.\<close>

definition batch_ok :: "'j UncommittedEvent list \<Rightarrow> bool" where
  "batch_ok us \<longleftrightarrow>
     (\<forall>u \<in> set us. ue_tenant_id u = ue_tenant_id (hd us) \<and>
        ue_aggregate_id u = ue_aggregate_id (hd us) \<and> ue_aggregate_type u = ue_aggregate_type (hd us))"

lemma check_batch_ok:
  "check_all (check_batch_event t a ty) us = Inr () \<longleftrightarrow>
     (\<forall>u \<in> set us. ue_tenant_id u = t \<and> ue_aggregate_id u = a \<and> ue_aggregate_type u = ty)"
  by (rule check_all_from_uniform) (simp add: check_batch_event_def)

lemma set_assign_sequence:
  assumes "e \<in> set (assign_sequence n us)"
  obtains u k where "u \<in> set us" "e = store_event k u"
  using assms by (induction us arbitrary: n) auto

lemma stream_ok_append:
  assumes "stream_ok t a es" "\<forall>u \<in> set us. ue_tenant_id u = t \<and> ue_aggregate_id u = a \<and> ue_aggregate_type u = ty"
    "es \<noteq> [] \<Longrightarrow> se_aggregate_type (hd es) = ty"
  shows "stream_ok t a (es @ assign_sequence (current_version es + 1) us)"
proof -
  let ?c = "assign_sequence (current_version es + 1) us"
  have c: "se_tenant_id e = t \<and> se_aggregate_id e = a \<and> se_aggregate_type e = ty" if "e \<in> set ?c" for e
    using that assms(2) by (auto elim!: set_assign_sequence simp: store_event_def)
  have ty: "se_aggregate_type e = ty" if "e \<in> set es" for e
    using assms(1,3) that by (cases es) (auto simp: stream_ok_def)
  have h: "se_aggregate_type (hd (es @ ?c)) = ty" if "es @ ?c \<noteq> []"
    using that ty c by (metis Un_iff hd_in_set set_append)
  have "map (of_nat :: nat \<Rightarrow> u64) [1..<Suc (length (es @ ?c))] =
      map of_nat [1..<Suc (length es)] @ map (\<lambda>k. of_nat (length es) + 1 + of_nat k) [0..<length us]"
    by (rule nth_equalityI) (auto simp: nth_append simp del: upt_Suc)
  then have "map se_sequence_number (es @ ?c) = map of_nat [1..<Suc (length (es @ ?c))]"
    using assms(1) by (simp add: current_version_stream_ok [OF assms(1)] stream_ok_def del: upt_Suc)
  moreover have "\<forall>e \<in> set (es @ ?c). se_tenant_id e = t \<and> se_aggregate_id e = a"
    using assms(1) c by (auto simp: stream_ok_def)
  moreover have "\<forall>e \<in> set (es @ ?c). se_aggregate_type e = se_aggregate_type (hd (es @ ?c))"
    using c ty h by (metis Un_iff empty_iff empty_set set_append)
  ultimately show ?thesis unfolding stream_ok_def by blast
qed

subsection \<open>The contract of the trait\<close>

locale event_store =
  fixes append_ev :: "'s \<Rightarrow> 'j UncommittedEvent list \<Rightarrow> ExpectedVersion \<Rightarrow>
      's \<times> (EventStoreError + 'j StoredEvent list)"
    and load :: "'s \<Rightarrow> TenantId \<Rightarrow> AggregateId \<Rightarrow> EventStoreError + 'j StoredEvent list"
    and stream :: "'s \<Rightarrow> TenantId \<Rightarrow> AggregateId \<Rightarrow> 'j StoredEvent list"
    and invar :: "'s \<Rightarrow> bool"
  assumes load_stream_abs: "load s t a = Inr es \<Longrightarrow> es = stream s t a"
    and stream_wf: "invar s \<Longrightarrow> stream_ok t a (stream s t a)"
    and append_invar: "invar s \<Longrightarrow> invar (fst (append_ev s us ev))"
    and append_Nil: "append_ev s [] ev = (s, Inr [])"
    and append_error: "append_ev s us ev = (s', Inl err) \<Longrightarrow> stream s' t a = stream s t a"
    and append_batch: "append_ev s us ev = (s', Inr es) \<Longrightarrow> batch_ok us"
    and append_expected: "\<lbrakk> append_ev s us ev = (s', Inr es); us \<noteq> [] \<rbrakk> \<Longrightarrow>
      expected_matches ev (current_version (stream s (ue_tenant_id (hd us)) (ue_aggregate_id (hd us))))"
    and append_committed: "\<lbrakk> append_ev s us ev = (s', Inr es); us \<noteq> [] \<rbrakk> \<Longrightarrow>
      es = assign_sequence
        (current_version (stream s (ue_tenant_id (hd us)) (ue_aggregate_id (hd us))) + 1) us"
    and append_stream: "\<lbrakk> append_ev s us ev = (s', Inr es); us \<noteq> [] \<rbrakk> \<Longrightarrow>
      stream s' t a = (if t = ue_tenant_id (hd us) \<and> a = ue_aggregate_id (hd us)
        then stream s t a @ es else stream s t a)"
begin

text \<open>Streams only grow.\<close>

lemma append_prefix:
  "\<exists>es. stream (fst (append_ev s us ev)) t a = stream s t a @ es"
proof (cases "append_ev s us ev")
  case (Pair s' r)
  then show ?thesis
    by (cases r; cases "us = []") (auto simp: append_Nil append_error append_stream)
qed

text \<open>An append under an exact expectation that succeeds found the stream at that length.\<close>

lemma append_exact_length:
  assumes "append_ev s us (Exact (current_version es)) = (s', Inr cs)" "us \<noteq> []" "invar s"
    "ue_tenant_id (hd us) = t" "ue_aggregate_id (hd us) = a"
    "stream_ok t a es" "length es < 2 ^ 64" "length (stream s t a) < 2 ^ 64"
  shows "length (stream s t a) = length es"
proof (rule of_nat64_inj)
  show "of_nat (length (stream s t a)) = (of_nat (length es) :: u64)"
    using append_expected [OF assms(1,2)] assms(4,5)
    by (simp add: current_version_stream_ok [OF stream_wf [OF assms(3)]]
        current_version_stream_ok [OF assms(6)])
qed (use assms in simp_all)

end

subsection \<open>The in-memory store satisfies it\<close>

definition stream_of :: "'j InMemoryEventStore \<Rightarrow> TenantId \<Rightarrow> AggregateId \<Rightarrow> 'j StoredEvent list" where
  "stream_of s t a = or_default (st_streams s \<lparr> sk_tenant_id = t, sk_aggregate_id = a \<rparr>)"

definition store_invar :: "'j InMemoryEventStore \<Rightarrow> bool" where
  "store_invar s \<longleftrightarrow> (\<forall>t a. stream_ok t a (stream_of s t a))"

lemma store_new_invar [simp]: "store_invar store_new"
  by (simp add: store_invar_def stream_of_def store_new_def or_default_def)

lemma stream_of_new [simp]: "stream_of store_new t a = []"
  by (simp add: stream_of_def store_new_def or_default_def)

lemma or_default_upd [simp]: "or_default (Some xs) = xs"
  by (simp add: or_default_def)

lemma append_locked_error:
  assumes "append_locked s key ty us ev = (s', Inl err)"
  shows "stream_of s' t a = stream_of s t a"
  using assms by (auto simp: append_locked_def stream_of_def Let_def split: if_splits)

lemma append_locked_ok:
  assumes "append_locked s \<lparr> sk_tenant_id = t, sk_aggregate_id = a \<rparr> ty us ev = (s', Inr es)"
  shows "expected_matches ev (current_version (stream_of s t a))"
    "stream_of s t a \<noteq> [] \<Longrightarrow> se_aggregate_type (hd (stream_of s t a)) = ty"
    "es = assign_sequence (current_version (stream_of s t a) + 1) us"
    "stream_of s' t' a' = (if t' = t \<and> a' = a then stream_of s t a @ es else stream_of s t' a')"
  using assms by (auto simp: append_locked_def stream_of_def Let_def split: if_splits)

lemma append_events_Inl:
  assumes "append_events s us ev = (s', Inl err)"
  shows "stream_of s' t a = stream_of s t a"
  using assms append_locked_error
  by (cases us) (fastforce simp: append_events_def Let_def split: sum.splits if_splits)+

lemma append_events_Inr:
  assumes "append_events s us ev = (s', Inr es)" "us \<noteq> []"
  shows "\<forall>u \<in> set us. ue_tenant_id u = ue_tenant_id (hd us) \<and>
      ue_aggregate_id u = ue_aggregate_id (hd us) \<and> ue_aggregate_type u = ue_aggregate_type (hd us)"
    "append_locked s \<lparr> sk_tenant_id = ue_tenant_id (hd us), sk_aggregate_id = ue_aggregate_id (hd us) \<rparr>
      (ue_aggregate_type (hd us)) us ev = (s', Inr es)"
proof -
  obtain u us' where us: "us = u # us'" using assms(2) by (cases us) auto
  from assms(1) have chk: "check_all (check_batch_event (ue_tenant_id u) (ue_aggregate_id u)
      (ue_aggregate_type u)) us = Inr ()"
    and loc: "append_locked s \<lparr> sk_tenant_id = ue_tenant_id u, sk_aggregate_id = ue_aggregate_id u \<rparr>
      (ue_aggregate_type u) us ev = (s', Inr es)"
    by (auto simp: append_events_def us Let_def simp del: check_all_from.simps
        split: sum.splits if_splits)
  from chk show "\<forall>u \<in> set us. ue_tenant_id u = ue_tenant_id (hd us) \<and>
      ue_aggregate_id u = ue_aggregate_id (hd us) \<and> ue_aggregate_type u = ue_aggregate_type (hd us)"
    unfolding check_batch_ok by (simp add: us)
  from loc show "append_locked s \<lparr> sk_tenant_id = ue_tenant_id (hd us),
      sk_aggregate_id = ue_aggregate_id (hd us) \<rparr> (ue_aggregate_type (hd us)) us ev = (s', Inr es)"
    by (simp add: us)
qed

lemma append_events_invar:
  assumes "store_invar s"
  shows "store_invar (fst (append_events s us ev))"
proof (cases "append_events s us ev")
  case (Pair s' r)
  show ?thesis
  proof (cases r)
    case (Inl err)
    have "stream_of s' t a = stream_of s t a" for t a
      by (rule append_events_Inl [OF Pair [unfolded Inl]])
    then show ?thesis using assms by (simp add: Pair store_invar_def)
  next
    case (Inr es)
    show ?thesis
    proof (cases "us = []")
      case True
      then show ?thesis using assms by (simp add: append_events_def)
    next
      case False
      note b = append_events_Inr [OF Pair [unfolded Inr] False]
      note l = append_locked_ok [OF b(2)]
      have ok: "stream_ok t a (stream_of s t a)" for t a
        using assms by (simp add: store_invar_def)
      have new: "stream_ok (ue_tenant_id (hd us)) (ue_aggregate_id (hd us))
          (stream_of s (ue_tenant_id (hd us)) (ue_aggregate_id (hd us)) @ es)"
        unfolding l(3) by (rule stream_ok_append [OF ok b(1) l(2)])
      have "stream_ok t a (stream_of s' t a)" for t a
        using ok [of t a] new
        by (cases "t = ue_tenant_id (hd us) \<and> a = ue_aggregate_id (hd us)")
          (simp_all add: l(4))
      then show ?thesis by (simp add: Pair store_invar_def)
    qed
  qed
qed

interpretation in_memory_store: event_store append_events load_stream stream_of store_invar
proof
  fix s :: "'j InMemoryEventStore" and t a es
  show "load_stream s t a = Inr es \<Longrightarrow> es = stream_of s t a"
    by (simp add: load_stream_def stream_of_def split: if_splits)
next
  fix s :: "'j InMemoryEventStore" and us ev s' es t a
  assume *: "append_events s us ev = (s', Inr es)"
  show "batch_ok us"
  proof (cases "us = []")
    case False
    show ?thesis unfolding batch_ok_def by (rule append_events_Inr(1) [OF * False])
  qed (simp add: batch_ok_def)
  assume **: "us \<noteq> []"
  note l = append_locked_ok [OF append_events_Inr(2) [OF * **]]
  from l(1) show "expected_matches ev
      (current_version (stream_of s (ue_tenant_id (hd us)) (ue_aggregate_id (hd us))))" .
  from l(3) show "es = assign_sequence
      (current_version (stream_of s (ue_tenant_id (hd us)) (ue_aggregate_id (hd us))) + 1) us" .
  from l(4) show "stream_of s' t a =
      (if t = ue_tenant_id (hd us) \<and> a = ue_aggregate_id (hd us)
       then stream_of s t a @ es else stream_of s t a)" by auto
next
  fix s :: "'j InMemoryEventStore" and t a
  show "store_invar s \<Longrightarrow> stream_ok t a (stream_of s t a)" by (simp add: store_invar_def)
next
  fix s :: "'j InMemoryEventStore" and ev
  show "append_events s [] ev = (s, Inr [])" by (simp add: append_events_def)
qed (fact append_events_invar, fact append_events_Inl)

subsection \<open>Properties\<close>

text \<open>Any sequence of appends, by any caller, with any expectation.\<close>

definition store_run ::
    "'j InMemoryEventStore \<Rightarrow> ('j UncommittedEvent list \<times> ExpectedVersion) list \<Rightarrow> 'j InMemoryEventStore" where
  "store_run s ops = foldl (\<lambda>s (us, ev). fst (append_events s us ev)) s ops"

lemma store_run_invar: "store_invar s \<Longrightarrow> store_invar (store_run s ops)"
  unfolding store_run_def
  by (rule foldl_invariant [where I = store_invar]) (auto intro: append_events_invar split: prod.splits)

lemma store_run_grows: "\<exists>es. stream_of (store_run s ops) t a = stream_of s t a @ es"
proof (induction ops arbitrary: s)
  case (Cons x ops)
  obtain us ev where x: "x = (us, ev)" by fastforce
  obtain es1 where "stream_of (fst (append_events s us ev)) t a = stream_of s t a @ es1"
    using in_memory_store.append_prefix by blast
  then show ?case
    using Cons.IH [of "fst (append_events s us ev)"] by (auto simp: store_run_def x)
qed (simp add: store_run_def)

text \<open>C17: after any sequence of appends to a new store, every stream holds only events of its
  own tenant and aggregate, of a single aggregate type, numbered 1, 2, 3, ... without gap or
  duplicate; and the store is append-only: whatever appends follow, the stream that was there
  stays as a prefix.\<close>

theorem streams_contiguous_and_append_only:
  "stream_ok t a (stream_of (store_run store_new ops) t a) \<and>
   (\<exists>es. stream_of (store_run store_new (ops @ ops')) t a =
      stream_of (store_run store_new ops) t a @ es)"
proof -
  have "store_invar (store_run store_new ops)" by (rule store_run_invar) simp
  moreover have "store_run store_new (ops @ ops') = store_run (store_run store_new ops) ops'"
    by (simp add: store_run_def)
  ultimately show ?thesis using store_run_grows by (metis store_invar_def)
qed

text \<open>An append that fails (mixed tenants, aggregates or types in the batch, stale version,
  type of the stream, poisoned lock) changes no stream.\<close>

theorem failed_append_changes_nothing:
  assumes "append_events s us ev = (s', Inl err)"
  shows "load_stream s' t a = load_stream s t a"
proof -
  have "st_poisoned s' = st_poisoned s"
    using assms by (cases us)
      (auto simp: append_events_def append_locked_def Let_def split: sum.splits if_splits)
  then show ?thesis
    using append_events_Inl [OF assms, of t a] by (simp add: load_stream_def stream_of_def)
qed

definition ex_uncommitted :: "TenantId \<Rightarrow> nat UncommittedEvent" where
  "ex_uncommitted t = \<lparr> ue_event_id = 9, ue_tenant_id = t, ue_aggregate_id = AggregateId 7,
     ue_aggregate_type = ''x'', ue_event_type = ''x.y'', ue_event_version = 1, ue_occurred_at = 5,
     ue_payload = 0 \<rparr>"

theorem failed_append_changes_nothing_witness:
  "load_stream (fst (append_events store_new [ex_uncommitted (TenantId 1)] (Exact 3)))
     (TenantId 1) (AggregateId 7) = load_stream store_new (TenantId 1) (AggregateId 7)"
proof (rule failed_append_changes_nothing)
  show "append_events store_new [ex_uncommitted (TenantId 1)] (Exact 3) =
    (fst (append_events store_new [ex_uncommitted (TenantId 1)] (Exact 3)),
     Inl (EventStoreError.Concurrency ''expected Exact(3), found 0''))"
    by (rule prod_eqI) (simp, code_simp)
qed

text \<open>Tenant isolation on writes: an append, successful or not, changes at most the one
  stream its first event names; a batch that mixes tenants is refused.\<close>

theorem append_tenant_isolation:
  assumes "append_events s us ev = (s', r)" "us \<noteq> []"
  shows "((t, a) \<noteq> (ue_tenant_id (hd us), ue_aggregate_id (hd us)) \<longrightarrow> stream_of s' t a = stream_of s t a) \<and>
    ((\<exists>u \<in> set us. ue_tenant_id u \<noteq> ue_tenant_id (hd us)) \<longrightarrow> \<not> is_ok r)"
proof (cases r)
  case (Inl err)
  then show ?thesis using append_events_Inl [of s us ev s' err] assms(1) by simp
next
  case (Inr es)
  then have ap: "append_events s us ev = (s', Inr es)" using assms(1) by simp
  show ?thesis
    using append_locked_ok(4) [OF append_events_Inr(2) [OF ap assms(2)], of t a]
      append_events_Inr(1) [OF ap assms(2)] by auto
qed

theorem append_tenant_isolation_witness:
  "\<not> is_ok (snd (append_events store_new [ex_uncommitted (TenantId 1), ex_uncommitted (TenantId 2)] Any))"
proof -
  let ?us = "[ex_uncommitted (TenantId 1), ex_uncommitted (TenantId 2)]"
  have "append_events store_new ?us Any = (fst (append_events store_new ?us Any),
      snd (append_events store_new ?us Any))" "?us \<noteq> []" by simp_all
  from append_tenant_isolation [OF this] show ?thesis by (simp add: ex_uncommitted_def)
qed

text \<open>A successful append under an exact expectation found the stream at that version and
  extends it by the given events in order, numbered from the next version on.\<close>

theorem append_exact_spec:
  assumes "append_events s us (Exact v) = (s', Inr committed)" "us \<noteq> []"
  shows "let t = ue_tenant_id (hd us); a = ue_aggregate_id (hd us) in
    current_version (stream_of s t a) = v \<and>
    stream_of s' t a = stream_of s t a @ committed \<and>
    map se_payload committed = map ue_payload us \<and>
    map se_sequence_number committed = map (\<lambda>k. v + 1 + of_nat k) [0..<length us]"
proof -
  let ?t = "ue_tenant_id (hd us)" and ?a = "ue_aggregate_id (hd us)"
  note l = append_locked_ok [OF append_events_Inr(2) [OF assms]]
  have "v = current_version (stream_of s ?t ?a)" using l(1) by simp
  moreover have "map se_payload committed = map ue_payload us"
    unfolding l(3) by (rule assign_sequence_map) (simp add: store_event_def)
  ultimately show ?thesis using l(3) l(4) [of ?t ?a] by (simp add: Let_def)
qed

theorem append_exact_spec_witness:
  "map se_sequence_number [store_event 1 (ex_uncommitted (TenantId 1))] = [1]"
proof -
  let ?us = "[ex_uncommitted (TenantId 1)]"
  let ?s' = "fst (append_events store_new ?us (Exact 0))"
  have ap: "append_events store_new ?us (Exact 0)
      = (?s', Inr [store_event 1 (ex_uncommitted (TenantId 1))])"
    by (rule prod_eqI) (simp, code_simp)
  have "?us \<noteq> []" by simp
  from append_exact_spec [OF ap this] show ?thesis by (simp add: Let_def)
qed

end
