(* ===== verification/Read_Model.thy ===== *)
theory Read_Model
  imports Core_Domain "HOL-Library.AList"
begin

text \<open>
  Tenant-isolated read model stores (\<^verbatim>\<open>infra/src/read_model/tenant_store.rs\<close>).

  The trait \<^verbatim>\<open>TenantStore\<close> is the locale \<^verbatim>\<open>tenant_store\<close>; the in-memory implementation,
  a hash map behind an \<^verbatim>\<open>RwLock\<close>, interprets it as long as its lock is not poisoned.  The
  hash map is an association list; the order in which the source iterates over it is an
  argument.
\<close>

subsection \<open>The in-memory store\<close>

record ('k, 'v) InMemoryTenantStore =
  its_inner :: "((TenantId \<times> 'k) \<times> 'v) list"
  its_poisoned :: bool

definition ts_new :: "('k, 'v) InMemoryTenantStore" where
  "ts_new = \<lparr> its_inner = [], its_poisoned = False \<rparr>"

definition ts_get :: "('k, 'v) InMemoryTenantStore \<Rightarrow> TenantId \<Rightarrow> 'k \<Rightarrow> 'v option" where
  "ts_get self tenant_id key =
    (if its_poisoned self then None else map_of (its_inner self) (tenant_id, key))"

definition ts_upsert ::
    "('k, 'v) InMemoryTenantStore \<Rightarrow> TenantId \<Rightarrow> 'k \<Rightarrow> 'v \<Rightarrow> ('k, 'v) InMemoryTenantStore" where
  "ts_upsert self tenant_id key val =
    (if its_poisoned self then self
     else self\<lparr>its_inner := AList.update (tenant_id, key) val (its_inner self)\<rparr>)"

definition ts_list ::
    "(((TenantId \<times> 'k) \<times> 'v) list \<Rightarrow> ((TenantId \<times> 'k) \<times> 'v) list) \<Rightarrow>
     ('k, 'v) InMemoryTenantStore \<Rightarrow> TenantId \<Rightarrow> 'v list" where
  "ts_list iter self tenant_id =
    (if its_poisoned self then []
     else List.map_filter (\<lambda>((t, _), v). if t = tenant_id then Some v else None)
            (iter (its_inner self)))"

definition ts_clear_tenant ::
    "('k, 'v) InMemoryTenantStore \<Rightarrow> TenantId \<Rightarrow> ('k, 'v) InMemoryTenantStore" where
  "ts_clear_tenant self tenant_id =
    (if its_poisoned self then self
     else self\<lparr>its_inner := filter (\<lambda>((t, _), _). t \<noteq> tenant_id) (its_inner self)\<rparr>)"

subsection \<open>The contract of \<^verbatim>\<open>TenantStore\<close>\<close>

locale tenant_store =
  fixes get :: "'s \<Rightarrow> TenantId \<Rightarrow> 'k \<Rightarrow> 'v option"
    and upsert :: "'s \<Rightarrow> TenantId \<Rightarrow> 'k \<Rightarrow> 'v \<Rightarrow> 's"
    and list :: "'s \<Rightarrow> TenantId \<Rightarrow> 'v list"
    and clear_tenant :: "'s \<Rightarrow> TenantId \<Rightarrow> 's"
    and ok :: "'s \<Rightarrow> bool"
  assumes ok_upsert: "ok s \<Longrightarrow> ok (upsert s t k v)"
    and ok_clear: "ok s \<Longrightarrow> ok (clear_tenant s t)"
    and get_upsert: "ok s \<Longrightarrow>
      get (upsert s t k v) t' k' = (if t' = t \<and> k' = k then Some v else get s t' k')"
    and get_clear: "ok s \<Longrightarrow> get (clear_tenant s t) t' k = (if t' = t then None else get s t' k)"
    and set_list: "ok s \<Longrightarrow> set (list s t) = {v. \<exists>k. get s t k = Some v}"
begin

lemmas store_simps = ok_upsert ok_clear get_upsert get_clear

lemma ok_clear_all: "ok s \<Longrightarrow> ok (foldl clear_tenant s ts)"
  by (induction ts arbitrary: s) (simp_all add: store_simps)

lemma get_clear_all:
  "ok s \<Longrightarrow> get (foldl clear_tenant s ts) t k = (if t \<in> set ts then None else get s t k)"
  by (induction ts arbitrary: s) (simp_all add: store_simps)

end

definition ts_ok :: "('k, 'v) InMemoryTenantStore \<Rightarrow> bool" where
  "ts_ok s \<longleftrightarrow> \<not> its_poisoned s \<and> distinct (map fst (its_inner s))"

lemma ts_new_ok [simp]: "ts_ok ts_new"
  by (simp add: ts_ok_def ts_new_def)

lemma ts_get_new [simp]: "ts_get ts_new t k = None"
  by (simp add: ts_get_def ts_new_def)

lemma map_of_filter_tenant:
  "map_of (filter (\<lambda>((t, _), _). t \<noteq> t0) xs) (t', k) = (if t' = t0 then None else map_of xs (t', k))"
  by (induction xs) auto

lemma ts_list_set:
  assumes "iter_ok iter" "ts_ok s"
  shows "set (ts_list iter s t) = {v. \<exists>k. ts_get s t k = Some v}"
  using assms(2)
  by (auto simp: ts_list_def ts_ok_def ts_get_def map_filter_def iter_ok_set [OF assms(1)]
      map_of_eq_Some_iff image_iff split: prod.splits) force+

interpretation in_memory_tenant_store:
  tenant_store ts_get ts_upsert "ts_list id" ts_clear_tenant ts_ok
proof
  fix s :: "('a, 'b) InMemoryTenantStore" and t t' k k' v
  assume ok: "ts_ok s"
  show "ts_ok (ts_upsert s t k v)"
    using ok by (simp add: ts_ok_def ts_upsert_def distinct_update)
  show "ts_ok (ts_clear_tenant s t)"
    using ok by (auto simp: ts_ok_def ts_clear_tenant_def intro!: distinct_map_filter)
  show "ts_get (ts_upsert s t k v) t' k' = (if t' = t \<and> k' = k then Some v else ts_get s t' k')"
    using ok by (simp add: ts_ok_def ts_get_def ts_upsert_def update_conv')
  show "ts_get (ts_clear_tenant s t) t' k = (if t' = t then None else ts_get s t' k)"
    using ok by (simp add: ts_ok_def ts_get_def ts_clear_tenant_def map_of_filter_tenant)
  show "set (ts_list id s t) = {v. \<exists>k. ts_get s t k = Some v}"
    by (rule ts_list_set) (simp_all add: iter_ok_def ok)
qed

end
