(* ===== verification/Projections.thy ===== *)
theory Projections
  imports Event_Store Read_Model "HOL-Library.Product_Lexorder"
begin

text \<open>
  What the read model builders of \<^verbatim>\<open>infra/src/projections/\<close> share.  Ten of the files there
  repeat the same code around their own event handling: cursors per tenant and aggregate, kept in memory
  and optionally in a persistent cursor store, the duplicate and gap checks of
  \<^verbatim>\<open>apply_envelope\<close>, and \<^verbatim>\<open>rebuild_from_scratch\<close>.  It is modelled once, with what differs
  (aggregate type, tenant and id checks, the update of the store) as a record of functions;
  \<^verbatim>\<open>inventory_stock.rs\<close> is the file the line references name.  A persistent cursor store
  (Postgres) is an argument.

  The lemmas show what at-least-once delivery makes of a read model: duplicates change
  nothing, and the rows are a fold over each stream's delivered prefix (locale
  \<^verbatim>\<open>row_projection\<close>).
\<close>

subsection \<open>Data\<close>

record CursorKey =
  ck_tenant_id :: TenantId
  ck_aggregate_id :: AggregateId

datatype ApplyError =
    Deserialize string
  | TenantIsolation string
  | NonMonotonicSequence u64 u64

text \<open>The trait \<^verbatim>\<open>ProjectionCursorStore\<close>, over an implementation's state.\<close>

record 'c ProjectionCursorStore =
  cs_get_cursor :: "'c \<Rightarrow> TenantId \<Rightarrow> AggregateId \<Rightarrow> string \<Rightarrow> u64 option"
  cs_update_cursor :: "'c \<Rightarrow> TenantId \<Rightarrow> AggregateId \<Rightarrow> string \<Rightarrow> u64 \<Rightarrow> 'c"
  cs_clear_cursors :: "'c \<Rightarrow> TenantId \<Rightarrow> string \<Rightarrow> 'c"

definition InMemoryCursorStore :: "unit ProjectionCursorStore" where
  "InMemoryCursorStore = \<lparr> cs_get_cursor = (\<lambda>_ _ _ _. None), cs_update_cursor = (\<lambda>c _ _ _ _. c),
     cs_clear_cursors = (\<lambda>c _ _. c) \<rparr>"

record ('st, 'c) Projection =
  pj_store :: 'st
  pj_cursors :: "CursorKey \<rightharpoonup> u64"
  pj_cursors_poisoned :: bool
  pj_cursor_store :: "'c option"
  pj_projection_name :: string

definition projection_new :: "'st \<Rightarrow> string \<Rightarrow> ('st, 'c) Projection" where
  "projection_new store name = \<lparr> pj_store = store, pj_cursors = Map.empty,
     pj_cursors_poisoned = False, pj_cursor_store = None, pj_projection_name = name \<rparr>"

definition with_persistent_cursors ::
    "('st, 'c0) Projection \<Rightarrow> 'c \<Rightarrow> string \<Rightarrow> ('st, 'c) Projection" where
  "with_persistent_cursors self cursor_store name = \<lparr> pj_store = pj_store self,
     pj_cursors = Map.empty, pj_cursors_poisoned = False, pj_cursor_store = Some cursor_store,
     pj_projection_name = name \<rparr>"

text \<open>What is particular to one projection.\<close>

record ('st, 'e) ProjectionLogic =
  pl_aggregate_type :: string
  pl_check :: "TenantId \<Rightarrow> AggregateId \<Rightarrow> 'e \<Rightarrow> ApplyError + unit"
  pl_update :: "'st \<Rightarrow> TenantId \<Rightarrow> AggregateId \<Rightarrow> 'e \<Rightarrow> 'st"

subsection \<open>Cursors\<close>

definition get_cursor ::
    "'c ProjectionCursorStore \<Rightarrow> ('st, 'c) Projection \<Rightarrow> TenantId \<Rightarrow> AggregateId \<Rightarrow> u64" where
  "get_cursor ops self tenant_id aggregate_id =
    (case pj_cursor_store self of
       Some cursor_store \<Rightarrow>
         (case cs_get_cursor ops cursor_store tenant_id aggregate_id (pj_projection_name self) of
            Some n \<Rightarrow> n | None \<Rightarrow> 0)
     | None \<Rightarrow>
         if pj_cursors_poisoned self then 0
         else (case pj_cursors self \<lparr> ck_tenant_id = tenant_id, ck_aggregate_id = aggregate_id \<rparr> of
            Some n \<Rightarrow> n | None \<Rightarrow> 0))"

definition update_cursor ::
    "'c ProjectionCursorStore \<Rightarrow> ('st, 'c) Projection \<Rightarrow> TenantId \<Rightarrow> AggregateId \<Rightarrow> u64 \<Rightarrow>
     ('st, 'c) Projection" where
  "update_cursor ops self tenant_id aggregate_id sequence_number =
    (let self' = (if pj_cursors_poisoned self then self
           else self\<lparr>pj_cursors := (pj_cursors self)
             (\<lparr> ck_tenant_id = tenant_id, ck_aggregate_id = aggregate_id \<rparr> \<mapsto> sequence_number)\<rparr>)
     in self'\<lparr>pj_cursor_store := map_option (\<lambda>c. cs_update_cursor ops c tenant_id aggregate_id
          (pj_projection_name self) sequence_number) (pj_cursor_store self')\<rparr>)"

definition clear_cursors ::
    "'c ProjectionCursorStore \<Rightarrow> ('st, 'c) Projection \<Rightarrow> TenantId \<Rightarrow> ('st, 'c) Projection" where
  "clear_cursors ops self tenant_id =
    (let self' = (if pj_cursors_poisoned self then self
           else self\<lparr>pj_cursors := (\<lambda>k. if ck_tenant_id k \<noteq> tenant_id then pj_cursors self k else None)\<rparr>)
     in self'\<lparr>pj_cursor_store := map_option (\<lambda>c. cs_clear_cursors ops c tenant_id
          (pj_projection_name self)) (pj_cursor_store self')\<rparr>)"

subsection \<open>Applying envelopes\<close>

definition apply_envelope ::
    "'c ProjectionCursorStore \<Rightarrow> ('j \<Rightarrow> string + 'e) \<Rightarrow> ('st, 'e) ProjectionLogic \<Rightarrow>
     ('st, 'c) Projection \<Rightarrow> 'j EventEnvelope \<Rightarrow> ('st, 'c) Projection \<times> (ApplyError + unit)" where
  "apply_envelope ops from_value pl self envelope =
    (if ee_aggregate_type envelope \<noteq> pl_aggregate_type pl then (self, Inr ())
     else
       (let tenant_id = ee_tenant_id envelope; aggregate_id = ee_aggregate_id envelope;
            seq = ee_sequence_number envelope;
            last = get_cursor ops self tenant_id aggregate_id
        in
        if seq = 0 then (self, Inl (NonMonotonicSequence last seq))
        else if seq \<le> last then (self, Inr ())
        else if seq \<noteq> last + 1 \<and> last \<noteq> 0 then (self, Inl (NonMonotonicSequence last seq))
        else (case and_then (map_err Deserialize (from_value (ee_payload envelope)))
                     (\<lambda>ev. and_then (pl_check pl tenant_id aggregate_id ev) (\<lambda>_. Inr ev)) of
            Inl err \<Rightarrow> (self, Inl err)
          | Inr ev \<Rightarrow>
              (update_cursor ops
                 (self\<lparr>pj_store := pl_update pl (pj_store self) tenant_id aggregate_id ev\<rparr>)
                 tenant_id aggregate_id seq, Inr ()))))"

text \<open>The loop over envelopes stops at the first error (\<^verbatim>\<open>?\<close> in the source).\<close>

primrec apply_envelopes ::
    "('p \<Rightarrow> 'j EventEnvelope \<Rightarrow> 'p \<times> (ApplyError + unit)) \<Rightarrow> 'p \<Rightarrow> 'j EventEnvelope list \<Rightarrow>
     'p \<times> (ApplyError + unit)" where
  "apply_envelopes step self [] = (self, Inr ())"
| "apply_envelopes step self (env # envs) =
     (case step self env of
        (self', Inl err) \<Rightarrow> (self', Inl err)
      | (self', Inr _) \<Rightarrow> apply_envelopes step self' envs)"

lemma apply_envelopes_foldl:
  "apply_envelopes step p envs = (p', Inr ()) \<Longrightarrow> foldl (\<lambda>p env. fst (step p env)) p envs = p'"
  by (induction envs arbitrary: p) (auto split: prod.splits sum.splits)

definition replay_key :: "'j EventEnvelope \<Rightarrow> uuid \<times> uuid \<times> u64" where
  "replay_key e = (tenant_uuid (ee_tenant_id e), aggregate_uuid (ee_aggregate_id e), ee_sequence_number e)"

text \<open>\<^verbatim>\<open>rebuild_from_scratch\<close>: \<^verbatim>\<open>clear\<close> is the store's \<^verbatim>\<open>clear_tenant\<close>, \<^verbatim>\<open>reset\<close> what a
  projection clears once per rebuild (the identity in most files).  The bytes of a uuid compare
  like the number they encode in big-endian order.\<close>

definition clear_tenants ::
    "'c ProjectionCursorStore \<Rightarrow> ('st \<Rightarrow> TenantId \<Rightarrow> 'st) \<Rightarrow> ('st, 'c) Projection \<Rightarrow> TenantId list \<Rightarrow>
     ('st, 'c) Projection" where
  "clear_tenants ops clear = foldl (\<lambda>p t. clear_cursors ops (p\<lparr>pj_store := clear (pj_store p) t\<rparr>) t)"

definition rebuild_projection ::
    "'c ProjectionCursorStore \<Rightarrow> ('st \<Rightarrow> TenantId \<Rightarrow> 'st) \<Rightarrow> ('st \<Rightarrow> 'st) \<Rightarrow>
     (('st, 'c) Projection \<Rightarrow> 'j EventEnvelope \<Rightarrow> ('st, 'c) Projection \<times> (ApplyError + unit)) \<Rightarrow>
     ('st, 'c) Projection \<Rightarrow> 'j EventEnvelope list \<Rightarrow> ('st, 'c) Projection \<times> (ApplyError + unit)" where
  "rebuild_projection ops clear reset step self envelopes =
    (let tenants = remdups_adj (sort_key tenant_uuid (map ee_tenant_id envelopes));
         cleared = clear_tenants ops clear self tenants;
         cleared = cleared\<lparr>pj_store := reset (pj_store cleared)\<rparr>
     in apply_envelopes step cleared (sort_key replay_key envelopes))"

subsection \<open>In-memory cursors\<close>

definition in_memory_cursors :: "('st, 'c) Projection \<Rightarrow> bool" where
  "in_memory_cursors p \<longleftrightarrow> pj_cursor_store p = None \<and> \<not> pj_cursors_poisoned p"

lemma projection_new_simps [simp]:
  "in_memory_cursors (projection_new st n)"
  "pj_store (projection_new st n) = st"
  "get_cursor ops (projection_new st n) t a = 0"
  by (simp_all add: in_memory_cursors_def projection_new_def get_cursor_def)

lemma cursor_simps [simp]:
  assumes "in_memory_cursors p"
  shows "in_memory_cursors (update_cursor ops p t a n)"
    "in_memory_cursors (clear_cursors ops p t)"
    "pj_store (update_cursor ops p t a n) = pj_store p"
    "pj_store (clear_cursors ops p t) = pj_store p"
    "get_cursor ops (update_cursor ops p t a n) t' a' =
       (if t' = t \<and> a' = a then n else get_cursor ops p t' a')"
    "get_cursor ops (clear_cursors ops p t) t' a' =
       (if t' = t then 0 else get_cursor ops p t' a')"
  using assms by (simp_all add: in_memory_cursors_def update_cursor_def clear_cursors_def get_cursor_def)

lemma store_update_simps [simp]:
  "in_memory_cursors (p\<lparr>pj_store := st\<rparr>) = in_memory_cursors p"
  "get_cursor ops (p\<lparr>pj_store := st\<rparr>) t a = get_cursor ops p t a"
  by (simp_all add: in_memory_cursors_def get_cursor_def cong: option.case_cong)

text \<open>Whatever the cursors say, one call changes the store by at most one update.\<close>

lemma apply_envelope_store:
  "pj_store (fst (apply_envelope ops from_value pl self env)) = pj_store self \<or>
   (\<exists>t a e. pl_check pl t a e = Inr () \<and>
      pj_store (fst (apply_envelope ops from_value pl self env)) = pl_update pl (pj_store self) t a e)"
proof -
  have [simp]: "pj_store (update_cursor ops p t a n) = pj_store p" for p :: "('a, 'b) Projection" and t a n
    by (simp add: update_cursor_def Let_def)
  show ?thesis
    by (auto simp: apply_envelope_def Let_def result_simps split: sum.splits)
qed

text \<open>The code computes \<^verbatim>\<open>last + 1\<close> only when \<^verbatim>\<open>last < seq\<close>: it cannot wrap.\<close>

lemma next_number_exact:
  fixes last seq :: u64
  assumes "last < seq"
  shows "unat (last + 1) = Suc (unat last)"
proof -
  have "unat last < unat seq" using assms by (simp add: word_less_nat_alt)
  moreover have "unat seq < 2 ^ 64" using unsigned_less [of seq, where 'a = nat] by simp
  ultimately show ?thesis by (simp add: unat_word_ariths)
qed

subsection \<open>At-least-once delivery\<close>

text \<open>\<^verbatim>\<open>hist t a\<close> is the history of typed events of an aggregate.  An envelope is genuine when it
  belongs to another aggregate type or carries the event of that history its number names.\<close>

definition genuine ::
    "('j \<Rightarrow> string + 'e) \<Rightarrow> ('st, 'e) ProjectionLogic \<Rightarrow> (TenantId \<Rightarrow> AggregateId \<Rightarrow> 'e list) \<Rightarrow>
     'j EventEnvelope \<Rightarrow> bool" where
  "genuine from_value pl hist env \<longleftrightarrow>
    ee_aggregate_type env \<noteq> pl_aggregate_type pl \<or>
    (let h = hist (ee_tenant_id env) (ee_aggregate_id env); n = unat (ee_sequence_number env) in
     0 < n \<and> n \<le> length h \<and> from_value (ee_payload env) = Inr (h ! (n - 1)) \<and>
     pl_check pl (ee_tenant_id env) (ee_aggregate_id env) (h ! (n - 1)) = Inr ())"

text \<open>How many events of each stream have been delivered; redelivery is harmless, a gap is not
  allowed.\<close>

type_synonym progress = "TenantId \<Rightarrow> AggregateId \<Rightarrow> nat"

definition advance :: "string \<Rightarrow> progress \<Rightarrow> 'j EventEnvelope \<Rightarrow> progress" where
  "advance ty p env = (if ee_aggregate_type env \<noteq> ty then p
     else p(ee_tenant_id env := (p (ee_tenant_id env))(ee_aggregate_id env :=
            max (p (ee_tenant_id env) (ee_aggregate_id env)) (unat (ee_sequence_number env)))))"

primrec no_gaps :: "string \<Rightarrow> progress \<Rightarrow> 'j EventEnvelope list \<Rightarrow> bool" where
  "no_gaps ty p [] = True"
| "no_gaps ty p (env # envs) =
    ((ee_aggregate_type env = ty \<longrightarrow>
        unat (ee_sequence_number env) \<le> Suc (p (ee_tenant_id env) (ee_aggregate_id env))) \<and>
     no_gaps ty (advance ty p env) envs)"

text \<open>The events the projection takes in, in the order in which it does.\<close>

primrec taken :: "string \<Rightarrow> (TenantId \<Rightarrow> AggregateId \<Rightarrow> 'e list) \<Rightarrow> progress \<Rightarrow> 'j EventEnvelope list \<Rightarrow>
    (TenantId \<times> AggregateId \<times> 'e) list" where
  "taken ty hist p [] = []"
| "taken ty hist p (env # envs) =
    (let t = ee_tenant_id env; a = ee_aggregate_id env in
     (if ee_aggregate_type env = ty \<and> unat (ee_sequence_number env) = Suc (p t a)
      then [(t, a, hist t a ! p t a)] else [])
     @ taken ty hist (advance ty p env) envs)"

definition update_store :: "('st, 'e) ProjectionLogic \<Rightarrow> 'st \<Rightarrow> TenantId \<times> AggregateId \<times> 'e \<Rightarrow> 'st" where
  "update_store pl st x = (case x of (t, a, e) \<Rightarrow> pl_update pl st t a e)"

definition at_progress ::
    "'c ProjectionCursorStore \<Rightarrow> ('st, 'c) Projection \<Rightarrow> progress \<Rightarrow> bool" where
  "at_progress ops self p \<longleftrightarrow> in_memory_cursors self \<and>
     (\<forall>t a. unat (get_cursor ops self t a) = p t a)"

lemma apply_genuine:
  assumes "at_progress ops self p" "genuine from_value pl hist env"
    "no_gaps (pl_aggregate_type pl) p [env]"
  shows "\<exists>self'. apply_envelope ops from_value pl self env = (self', Inr ()) \<and>
    at_progress ops self' (advance (pl_aggregate_type pl) p env) \<and>
    pj_store self' = foldl (update_store pl) (pj_store self) (taken (pl_aggregate_type pl) hist p [env])"
proof (cases "ee_aggregate_type env = pl_aggregate_type pl")
  case False
  then show ?thesis using assms(1) by (simp add: apply_envelope_def advance_def)
next
  case True
  let ?t = "ee_tenant_id env" and ?a = "ee_aggregate_id env" and ?seq = "ee_sequence_number env"
  let ?last = "get_cursor ops self ?t ?a"
  have mem: "in_memory_cursors self" and cur: "\<And>t a. unat (get_cursor ops self t a) = p t a"
    using assms(1) by (simp_all add: at_progress_def)
  have ev: "0 < unat ?seq" "from_value (ee_payload env) = Inr (hist ?t ?a ! (unat ?seq - 1))"
    "pl_check pl ?t ?a (hist ?t ?a ! (unat ?seq - 1)) = Inr ()"
    using assms(2) True by (simp_all add: genuine_def Let_def)
  have le: "unat ?seq \<le> Suc (p ?t ?a)" using assms(3) True by simp
  show ?thesis
  proof (cases "?seq \<le> ?last")
    case seen: True
    then have n: "unat ?seq \<le> p ?t ?a" using cur [of ?t ?a] by (simp add: word_le_nat_alt)
    then have "advance (pl_aggregate_type pl) p env = p"
      using True by (simp add: advance_def max_absorb1)
    then show ?thesis
      using True seen n ev(1) assms(1) by (auto simp: apply_envelope_def Let_def)
  next
    case False
    then have lt: "?last < ?seq" by simp
    have "unat ?last < unat ?seq" using lt by (simp add: word_less_nat_alt)
    then have n: "unat ?seq = Suc (p ?t ?a)" using le cur [of ?t ?a] by simp
    then have "unat ?seq = unat (?last + 1)" using next_number_exact [OF lt] cur by simp
    then have "?seq = ?last + 1" by (rule unsigned_word_eqI)
    moreover have "?seq \<noteq> 0" using ev(1) by auto
    ultimately show ?thesis
      using True False n ev mem cur
      by (auto simp: apply_envelope_def Let_def at_progress_def advance_def update_store_def)
  qed
qed

lemma taken_Cons: "taken ty hist p (env # envs) = taken ty hist p [env] @ taken ty hist (advance ty p env) envs"
  by (simp add: Let_def)

lemma apply_genuine_run:
  assumes "at_progress ops self p" "\<forall>env \<in> set envs. genuine from_value pl hist env"
    "no_gaps (pl_aggregate_type pl) p envs"
  shows "\<exists>self'. apply_envelopes (apply_envelope ops from_value pl) self envs = (self', Inr ()) \<and>
    at_progress ops self' (foldl (advance (pl_aggregate_type pl)) p envs) \<and>
    pj_store self' = foldl (update_store pl) (pj_store self) (taken (pl_aggregate_type pl) hist p envs)"
  using assms
proof (induction envs arbitrary: self p)
  case Nil
  then show ?case by simp
next
  case (Cons env envs)
  let ?ty = "pl_aggregate_type pl"
  obtain self1 where 1: "apply_envelope ops from_value pl self env = (self1, Inr ())"
    "at_progress ops self1 (advance ?ty p env)"
    "pj_store self1 = foldl (update_store pl) (pj_store self) (taken ?ty hist p [env])"
    using apply_genuine [OF Cons.prems(1), of from_value pl hist env] Cons.prems(2,3) by auto
  obtain self2 where 2: "apply_envelopes (apply_envelope ops from_value pl) self1 envs = (self2, Inr ())"
    "at_progress ops self2 (foldl (advance ?ty) (advance ?ty p env) envs)"
    "pj_store self2 = foldl (update_store pl) (pj_store self1) (taken ?ty hist (advance ?ty p env) envs)"
    using Cons.IH [OF 1(2)] Cons.prems(2,3) by auto
  then show ?case
    using 1 by (subst taken_Cons) (simp del: taken.simps)
qed

text \<open>Progress as the greatest number seen.\<close>

definition numbers :: "string \<Rightarrow> 'j EventEnvelope list \<Rightarrow> TenantId \<Rightarrow> AggregateId \<Rightarrow> nat set" where
  "numbers ty envs t a = (\<lambda>env. unat (ee_sequence_number env)) `
     set (filter (\<lambda>env. ee_aggregate_type env = ty \<and> ee_tenant_id env = t \<and> ee_aggregate_id env = a) envs)"

lemma numbers_Cons:
  "numbers ty (env # envs) t a =
    (if ee_aggregate_type env = ty \<and> ee_tenant_id env = t \<and> ee_aggregate_id env = a
     then insert (unat (ee_sequence_number env)) (numbers ty envs t a) else numbers ty envs t a)"
  by (simp add: numbers_def)

lemma finite_numbers [simp]: "finite (numbers ty envs t a)"
  by (simp add: numbers_def)

lemma advance_Max:
  "foldl (advance ty) p envs t a = Max (insert (p t a) (numbers ty envs t a))"
proof (induction envs arbitrary: p)
  case Nil
  then show ?case by (simp add: numbers_def)
next
  case (Cons env envs)
  have *: "Max (insert (max m n) N) = Max (insert m (insert n N))" if "finite N" for m n :: nat and N
    using that by (cases "N = {}") (simp_all add: max.assoc)
  show ?case unfolding foldl_Cons Cons.IH by (auto simp: numbers_Cons advance_def *)
qed

lemma advance_mono: "p t a \<le> foldl (advance ty) p envs t a"
  by (simp add: advance_Max)

lemma no_gaps_splits:
  assumes "\<And>xs env ys. envs = xs @ env # ys \<Longrightarrow> ee_aggregate_type env = ty \<Longrightarrow>
    unat (ee_sequence_number env) \<le> Suc (foldl (advance ty) p xs (ee_tenant_id env) (ee_aggregate_id env))"
  shows "no_gaps ty p envs"
  using assms
proof (induction envs arbitrary: p)
  case (Cons env envs)
  have "no_gaps ty (advance ty p env) envs"
  proof (rule Cons.IH)
    fix xs e ys assume "envs = xs @ e # ys" "ee_aggregate_type e = ty"
    then show "unat (ee_sequence_number e) \<le>
        Suc (foldl (advance ty) (advance ty p env) xs (ee_tenant_id e) (ee_aggregate_id e))"
      using Cons.prems [of "env # xs" e ys] by simp
  qed
  then show ?case using Cons.prems [of "[]" env envs] by simp
qed simp

lemma replay_key_earlier:
  assumes "ee_tenant_id e' = ee_tenant_id e" "ee_aggregate_id e' = ee_aggregate_id e"
    "unat (ee_sequence_number e') < unat (ee_sequence_number e)"
  shows "replay_key e' < replay_key e"
  using assms by (simp add: replay_key_def word_less_nat_alt)

lemma sorted_earlier_in_prefix:
  assumes "sorted (map f (xs @ e # ys))" "f e' < f e" "e' \<in> set (xs @ e # ys)"
  shows "e' \<in> set xs"
  using assms by (auto simp: sorted_append)

lemma no_gaps_sorted:
  assumes "sorted (map replay_key envs)"
    and down: "\<And>t a n. Suc n \<in> numbers ty envs t a \<Longrightarrow> 0 < n \<Longrightarrow> n \<in> numbers ty envs t a"
  shows "no_gaps ty p envs"
proof (rule no_gaps_splits)
  fix xs env ys
  assume split: "envs = xs @ env # ys" and ty: "ee_aggregate_type env = ty"
  let ?t = "ee_tenant_id env" and ?a = "ee_aggregate_id env" and ?n = "unat (ee_sequence_number env) - 1"
  show "unat (ee_sequence_number env) \<le> Suc (foldl (advance ty) p xs ?t ?a)"
  proof (cases "unat (ee_sequence_number env) \<le> 1")
    case False
    have "Suc ?n \<in> numbers ty envs ?t ?a"
      using False split ty by (auto simp: numbers_def)
    then have "?n \<in> numbers ty envs ?t ?a" using down False by simp
    then obtain e' where e': "e' \<in> set envs" "ee_aggregate_type e' = ty" "ee_tenant_id e' = ?t"
      "ee_aggregate_id e' = ?a" "unat (ee_sequence_number e') = ?n"
      by (auto simp: numbers_def)
    have "e' \<in> set xs"
      using assms(1) e' False split
      by (intro sorted_earlier_in_prefix [of replay_key xs env ys]) (auto intro: replay_key_earlier)
    then have "?n \<in> numbers ty xs ?t ?a" using e' by (auto simp: numbers_def intro!: image_eqI [of _ _ e'])
    then have "?n \<le> foldl (advance ty) p xs ?t ?a" by (simp add: advance_Max)
    then show ?thesis by simp
  qed simp
qed

lemma numbers_set_cong: "set xs = set ys \<Longrightarrow> numbers ty xs = numbers ty ys"
  by (intro ext) (auto simp: numbers_def)

text \<open>What a projection takes in of one stream is the part of its history between the two
  progresses.\<close>

lemma taken_stream:
  assumes "\<forall>env \<in> set envs. genuine from_value pl hist env" "no_gaps (pl_aggregate_type pl) p envs"
  shows "map (snd \<circ> snd) (filter (\<lambda>x. fst x = t \<and> fst (snd x) = a) (taken (pl_aggregate_type pl) hist p envs))
    = drop (p t a) (take (foldl (advance (pl_aggregate_type pl)) p envs t a) (hist t a))"
  using assms
proof (induction envs arbitrary: p)
  case Nil
  then show ?case by simp
next
  case (Cons env envs)
  let ?ty = "pl_aggregate_type pl" and ?p' = "advance (pl_aggregate_type pl) p env"
  let ?new = "ee_aggregate_type env = ?ty \<and> ee_tenant_id env = t \<and> ee_aggregate_id env = a \<and>
    unat (ee_sequence_number env) = Suc (p t a)"
  note IH = Cons.IH [of ?p'] and mono = advance_mono [of ?p' t a ?ty envs]
  show ?case
  proof (cases ?new)
    case True
    then have "?p' t a = Suc (p t a)" by (simp add: advance_def)
    moreover have "p t a < length (hist t a)"
      using True Cons.prems(1) by (auto simp: genuine_def Let_def)
    ultimately show ?thesis
      using IH Cons.prems True mono by (auto simp: Let_def Cons_nth_drop_Suc [symmetric])
  next
    case False
    have "?p' t a = p t a"
      using False Cons.prems(2) by (auto simp: advance_def max_def)
    then show ?thesis using IH Cons.prems False by (auto simp: Let_def)
  qed
qed

lemma taken_checked:
  assumes "\<forall>env \<in> set envs. genuine from_value pl hist env"
  shows "\<forall>(t, a, e) \<in> set (taken (pl_aggregate_type pl) hist p envs). pl_check pl t a e = Inr () \<and> e \<in> set (hist t a)"
  using assms
proof (induction envs arbitrary: p)
  case (Cons env envs)
  have "genuine from_value pl hist env" using Cons.prems by simp
  then show ?case
    using Cons.IH [of "advance (pl_aggregate_type pl) p env"] Cons.prems
    by (auto simp: Let_def genuine_def)
qed simp

subsection \<open>Clearing before a rebuild\<close>

lemma clear_all_simps:
  assumes "in_memory_cursors self"
  shows "in_memory_cursors (clear_tenants ops clear self ts) \<and>
    pj_store (clear_tenants ops clear self ts) = foldl clear (pj_store self) ts \<and>
    get_cursor ops (clear_tenants ops clear self ts) t a =
      (if t \<in> set ts then 0 else get_cursor ops self t a)"
  unfolding clear_tenants_def
proof (induction ts rule: rev_induct)
  case (snoc x ts)
  then show ?case by auto
qed (simp add: assms(1))

lemma tenants_to_clear [simp]:
  "set (remdups_adj (sort_key tenant_uuid (map ee_tenant_id envs))) = ee_tenant_id ` set envs"
  by simp

subsection \<open>Projections whose rows are folds over a stream\<close>

text \<open>Each row is keyed by one aggregate and depends only on the previous row and the event.\<close>

locale row_projection = tenant_store get upsert list clear_tenant ok
  for get :: "'s \<Rightarrow> TenantId \<Rightarrow> 'k \<Rightarrow> 'v option"
    and upsert :: "'s \<Rightarrow> TenantId \<Rightarrow> 'k \<Rightarrow> 'v \<Rightarrow> 's"
    and list :: "'s \<Rightarrow> TenantId \<Rightarrow> 'v list"
    and clear_tenant :: "'s \<Rightarrow> TenantId \<Rightarrow> 's"
    and ok :: "'s \<Rightarrow> bool" +
  fixes pl :: "('s, 'e) ProjectionLogic"
    and key :: "'e \<Rightarrow> 'k"
    and row :: "'v option \<Rightarrow> 'e \<Rightarrow> 'v option"
    and id_of :: "'k \<Rightarrow> AggregateId"
  assumes ok_update: "ok s \<Longrightarrow> ok (pl_update pl s t a e)"
    and get_update: "ok s \<Longrightarrow> get (pl_update pl s t a e) t' k =
      (if t' = t \<and> k = key e then row (get s t k) e else get s t' k)"
    and check_id: "pl_check pl t a e = Inr () \<Longrightarrow> id_of (key e) = a"
    and id_of_inj: "id_of k = id_of k' \<Longrightarrow> k = k'"
begin

lemma ok_updates: "ok s \<Longrightarrow> ok (foldl (update_store pl) s xs)"
  by (induction xs arbitrary: s) (auto simp: update_store_def ok_update split: prod.splits)

lemma get_updates:
  assumes "ok s" "\<forall>(t, a, e) \<in> set xs. pl_check pl t a e = Inr ()"
  shows "get (foldl (update_store pl) s xs) t k =
    foldl row (get s t k) (map (snd \<circ> snd) (filter (\<lambda>x. fst x = t \<and> fst (snd x) = id_of k) xs))"
  using assms
proof (induction xs arbitrary: s)
  case (Cons x xs)
  obtain t' a' e where x: "x = (t', a', e)" by (cases x) auto
  have id: "id_of (key e) = a'" using Cons.prems(2) x check_id by auto
  have "ok (update_store pl s x)" using Cons.prems(1) x by (simp add: update_store_def ok_update)
  then show ?case
    using Cons.IH [of "update_store pl s x"] Cons.prems x id id_of_inj
    by (auto simp: update_store_def get_update)
qed simp

text \<open>At-least-once delivery without gaps: all calls succeed, and each row is the fold over the
  delivered part of its stream.\<close>

lemma deliver_rows:
  assumes "at_progress ops self p" "ok (pj_store self)"
    "\<forall>env \<in> set envs. genuine from_value pl hist env" "no_gaps (pl_aggregate_type pl) p envs"
  shows "\<exists>self'. apply_envelopes (apply_envelope ops from_value pl) self envs = (self', Inr ()) \<and>
    at_progress ops self' (foldl (advance (pl_aggregate_type pl)) p envs) \<and> ok (pj_store self') \<and>
    (\<forall>t k. get (pj_store self') t k = foldl row (get (pj_store self) t k)
      (drop (p t (id_of k)) (take (foldl (advance (pl_aggregate_type pl)) p envs t (id_of k)) (hist t (id_of k)))))"
proof -
  let ?ty = "pl_aggregate_type pl"
  obtain self' where self':
    "apply_envelopes (apply_envelope ops from_value pl) self envs = (self', Inr ())"
    "at_progress ops self' (foldl (advance ?ty) p envs)"
    "pj_store self' = foldl (update_store pl) (pj_store self) (taken ?ty hist p envs)"
    using apply_genuine_run [OF assms(1,3,4)] by blast
  have "\<forall>(t, a, e) \<in> set (taken ?ty hist p envs). pl_check pl t a e = Inr ()"
    using taken_checked [OF assms(3), of p] by auto
  then show ?thesis
    using self' assms(2) by (auto simp: get_updates ok_updates taken_stream [OF assms(3,4)])
qed

lemma first_delivery_rows:
  assumes "in_memory_cursors self" "ok (pj_store self)"
    "\<And>t a. get_cursor ops self t a = 0" "\<And>t k. get (pj_store self) t k = None"
    "\<forall>env \<in> set envs. genuine from_value pl hist env"
    "no_gaps (pl_aggregate_type pl) (\<lambda>_ _. 0) envs"
  shows "\<exists>self'. apply_envelopes (apply_envelope ops from_value pl) self envs = (self', Inr ()) \<and>
    (\<forall>t k. get (pj_store self') t k = foldl row None
      (take (foldl (advance (pl_aggregate_type pl)) (\<lambda>_ _. 0) envs t (id_of k)) (hist t (id_of k))))"
proof -
  have "at_progress ops self (\<lambda>_ _. 0)" using assms(1,3) by (simp add: at_progress_def)
  from deliver_rows [OF this assms(2,5,6)] show ?thesis by (auto simp: assms(4))
qed

text \<open>After clearing some tenants, all their events in order give each row of these tenants as the
  fold over its whole stream, and leave the other tenants alone.\<close>

lemma cleared_rows:
  assumes "in_memory_cursors self" "ok (pj_store self)"
    "\<forall>env \<in> set envs. genuine from_value pl hist env" "sorted (map replay_key envs)"
    "ee_tenant_id ` set envs \<subseteq> set ts"
    "\<And>t a. t \<in> set ts \<Longrightarrow> numbers (pl_aggregate_type pl) envs t a = {1..length (hist t a)}"
  shows "\<exists>self'. apply_envelopes (apply_envelope ops from_value pl) (clear_tenants ops clear_tenant self ts) envs
      = (self', Inr ()) \<and>
    (\<forall>t k. get (pj_store self') t k = (if t \<in> set ts
      then foldl row None (hist t (id_of k)) else get (pj_store self) t k))"
proof -
  let ?ty = "pl_aggregate_type pl" and ?c = "clear_tenants ops clear_tenant self ts"
  let ?p = "\<lambda>t a. if t \<in> set ts then 0 else unat (get_cursor ops self t a)"
  note cl = clear_all_simps [OF assms(1), of ops clear_tenant ts]
  have prog: "at_progress ops ?c ?p" using cl by (simp add: at_progress_def)
  have nums: "numbers ?ty envs t a = (if t \<in> set ts then {1..length (hist t a)} else {})" for t a
    using assms(5,6) by (auto simp: numbers_def)
  have gaps: "no_gaps ?ty ?p envs"
    by (rule no_gaps_sorted [OF assms(4)]) (auto simp: nums split: if_splits)
  have final: "foldl (advance ?ty) ?p envs t a
      = (if t \<in> set ts then length (hist t a) else unat (get_cursor ops self t a))" for t a
    by (auto simp: advance_Max nums Suc_le_eq intro!: Max_eqI)
  have ok: "ok (pj_store ?c)" using cl assms(2) by (simp add: ok_clear_all)
  from deliver_rows [OF prog ok assms(3) gaps] obtain self' where self':
    "apply_envelopes (apply_envelope ops from_value pl) ?c envs = (self', Inr ())"
    "\<And>t k. get (pj_store self') t k = foldl row (get (pj_store ?c) t k)
      (drop (?p t (id_of k)) (take (foldl (advance ?ty) ?p envs t (id_of k)) (hist t (id_of k))))"
    by blast
  moreover have "pj_store ?c = foldl clear_tenant (pj_store self) ts" using cl by simp
  ultimately show ?thesis using assms(2) by (simp add: get_clear_all final)
qed

text \<open>A rebuild from all events of the tenants it touches, in any order and with any
  repetitions, gives each row of these tenants as the fold over its whole stream, and leaves the
  other tenants alone.\<close>

lemma rebuild_rows:
  assumes "in_memory_cursors self" "ok (pj_store self)"
    "\<forall>env \<in> set envs. genuine from_value pl hist env"
    "\<And>t a. t \<in> ee_tenant_id ` set envs \<Longrightarrow>
       numbers (pl_aggregate_type pl) envs t a = {1..length (hist t a)}"
  shows "\<exists>self'. rebuild_projection ops clear_tenant id (apply_envelope ops from_value pl) self envs
      = (self', Inr ()) \<and>
    (\<forall>t k. get (pj_store self') t k = (if t \<in> ee_tenant_id ` set envs
      then foldl row None (hist t (id_of k)) else get (pj_store self) t k))"
proof -
  let ?ts = "remdups_adj (sort_key tenant_uuid (map ee_tenant_id envs))"
  let ?envs = "sort_key replay_key envs"
  have "numbers (pl_aggregate_type pl) ?envs t a = {1..length (hist t a)}" if "t \<in> set ?ts" for t a
    using that assms(4) [of t a] numbers_set_cong [of ?envs envs] by simp
  then show ?thesis
    using cleared_rows [OF assms(1,2), of ?envs from_value hist ?ts ops] assms(3)
    by (simp add: rebuild_projection_def)
qed

end

subsection \<open>Projections that show the state of an aggregate\<close>

text \<open>A row projection over the events of an aggregate, with what the rows are observed for and
  the view of the aggregate's state it stands for: when the view follows every decision, the rows
  show the states the delivered parts of the streams replay to.\<close>

locale state_view =
  row_projection get upsert list clear_tenant ok pl key row id_of +
  aggregate evolve handle version invar
  for get :: "'s \<Rightarrow> TenantId \<Rightarrow> 'k \<Rightarrow> 'v option"
    and upsert :: "'s \<Rightarrow> TenantId \<Rightarrow> 'k \<Rightarrow> 'v \<Rightarrow> 's"
    and list :: "'s \<Rightarrow> TenantId \<Rightarrow> 'v list"
    and clear_tenant :: "'s \<Rightarrow> TenantId \<Rightarrow> 's"
    and ok :: "'s \<Rightarrow> bool"
    and pl :: "('s, 'e) ProjectionLogic"
    and key :: "'e \<Rightarrow> 'k"
    and row :: "'v option \<Rightarrow> 'e \<Rightarrow> 'v option"
    and id_of :: "'k \<Rightarrow> AggregateId"
    and evolve :: "'a \<Rightarrow> 'e \<Rightarrow> 'a"
    and handle :: "'a \<Rightarrow> 'cmd \<Rightarrow> 'err + 'e list"
    and version :: "'a \<Rightarrow> u64"
    and invar :: "'a \<Rightarrow> bool" +
  fixes mk :: "AggregateId \<Rightarrow> 'k"
    and init :: "AggregateId \<Rightarrow> 'a"
    and obs :: "'v \<Rightarrow> 'w"
    and view :: "'a \<Rightarrow> 'w option"
  assumes id_mk: "id_of (mk a) = a"
    and init_invar: "invar (init a)"
    and view_init: "view (init a) = None"
    and single: "handle s c = Inr es \<Longrightarrow> length es \<le> 1"
    and view_step: "\<lbrakk> invar s; handle s c = Inr es; map_option obs r = view s \<rbrakk>
      \<Longrightarrow> map_option obs (foldl row r es) = view (foldl evolve s es)"
begin

lemma row_view:
  assumes "decided evolve handle (init a) h"
  shows "map_option obs (foldl row None h) = view (foldl evolve (init a) h)"
  using assms
proof induction
  case (decided_step h c es)
  then show ?case
    using view_step [OF decided_invar [OF decided_step.hyps(1) init_invar] decided_step.hyps(2) decided_step.IH]
    by simp
qed (simp add: view_init)

lemma deliver_view:
  assumes "\<forall>t a. decided evolve handle (init a) (hist t a)"
    "in_memory_cursors self" "ok (pj_store self)"
    "\<And>t a. get_cursor ops self t a = 0" "\<And>t k. get (pj_store self) t k = None"
    "\<forall>env \<in> set envs. genuine from_value pl hist env"
    "no_gaps (pl_aggregate_type pl) (\<lambda>_ _. 0) envs"
  shows "\<exists>self'. apply_envelopes (apply_envelope ops from_value pl) self envs = (self', Inr ()) \<and>
    (\<forall>t a. map_option obs (get (pj_store self') t (mk a)) = view (foldl evolve (init a)
      (take (foldl (advance (pl_aggregate_type pl)) (\<lambda>_ _. 0) envs t a) (hist t a))))"
proof -
  have "decided evolve handle (init a) (take n (hist t a))" for t a n
    by (rule decided_take) (use assms(1) single in auto)
  then show ?thesis
    using first_delivery_rows [OF assms(2-7)] by (auto simp: id_mk row_view)
qed

lemma rebuild_view:
  assumes "\<forall>t a. decided evolve handle (init a) (hist t a)"
    "in_memory_cursors self" "ok (pj_store self)"
    "\<forall>env \<in> set envs. genuine from_value pl hist env"
    "\<And>t a. t \<in> ee_tenant_id ` set envs \<Longrightarrow>
       numbers (pl_aggregate_type pl) envs t a = {1..length (hist t a)}"
  shows "\<exists>self'. rebuild_projection ops clear_tenant id (apply_envelope ops from_value pl) self envs
      = (self', Inr ()) \<and>
    (\<forall>t a. map_option obs (get (pj_store self') t (mk a)) = (if t \<in> ee_tenant_id ` set envs
      then view (foldl evolve (init a) (hist t a)) else map_option obs (get (pj_store self) t (mk a))))"
  using rebuild_rows [OF assms(2-5), of ops] assms(1) by (auto simp: id_mk row_view)

end

text \<open>The statement of delivery for one projection over the in-memory store, with the decoded
  histories and the delivered envelopes as arguments.\<close>

definition shows_state ::
    "'c ProjectionCursorStore \<Rightarrow> ('j \<Rightarrow> string + 'e) \<Rightarrow> (TenantId \<Rightarrow> AggregateId \<Rightarrow> 'e list) \<Rightarrow>
     'j EventEnvelope list \<Rightarrow> (('k, 'v) InMemoryTenantStore, 'e) ProjectionLogic \<Rightarrow> (AggregateId \<Rightarrow> 'k) \<Rightarrow>
     (AggregateId \<Rightarrow> 'a) \<Rightarrow> ('a \<Rightarrow> 'e \<Rightarrow> 'a) \<Rightarrow> ('a \<Rightarrow> 'cmd \<Rightarrow> 'err + 'e list) \<Rightarrow> ('v \<Rightarrow> 'w) \<Rightarrow>
     ('a \<Rightarrow> 'w option) \<Rightarrow> bool" where
  "shows_state ops from_value hist envs pl mk init evolve handle obs view \<longleftrightarrow>
    ((\<forall>t a. decided evolve handle (init a) (hist t a)) \<and>
     (\<forall>env \<in> set envs. genuine from_value pl hist env) \<and>
     no_gaps (pl_aggregate_type pl) (\<lambda>_ _. 0) envs
     \<longrightarrow> (\<exists>p. apply_envelopes (apply_envelope ops from_value pl) (projection_new ts_new []) envs = (p, Inr ()) \<and>
       (\<forall>t a. map_option obs (ts_get (pj_store p) t (mk a)) = view (foldl evolve (init a)
         (take (foldl (advance (pl_aggregate_type pl)) (\<lambda>_ _. 0) envs t a) (hist t a))))))"

end
