(* ===== verification/Inventory.thy ===== *)
theory Inventory
  imports Core_Domain
begin

text \<open>
  The inventory item aggregate (\<^verbatim>\<open>inventory/src/item.rs\<close>): its commands and events, the
  handlers \<^verbatim>\<open>handle_create\<close> and \<^verbatim>\<open>handle_adjust\<close>, the evolution \<^verbatim>\<open>apply\<close>, and the
  invariant that stock is never negative.  The addition in \<^verbatim>\<open>handle_adjust\<close> is 64-bit
  and may wrap; the lemmas show that a wrapped sum is always rejected.
\<close>

subsection \<open>Data\<close>

datatype InventoryItemId = InventoryItemId (item_aggregate: AggregateId)

record InventoryItem =
  ii_id :: InventoryItemId
  ii_tenant_id :: "TenantId option"
  ii_name :: string
  ii_stock :: i64
  ii_version :: u64
  ii_created :: bool

definition item_empty :: "InventoryItemId \<Rightarrow> InventoryItem" where
  "item_empty item_id = \<lparr> ii_id = item_id, ii_tenant_id = None, ii_name = [], ii_stock = 0,
     ii_version = 0, ii_created = False \<rparr>"

record CreateItem =
  ci_tenant_id :: TenantId
  ci_item_id :: InventoryItemId
  ci_name :: string
  ci_occurred_at :: datetime

record AdjustStock =
  as_tenant_id :: TenantId
  as_item_id :: InventoryItemId
  as_delta :: i64
  as_occurred_at :: datetime

datatype InventoryCommand = CreateItem CreateItem | AdjustStock AdjustStock

record ItemCreated =
  ic_tenant_id :: TenantId
  ic_item_id :: InventoryItemId
  ic_name :: string
  ic_occurred_at :: datetime

record StockAdjusted =
  sa_tenant_id :: TenantId
  sa_item_id :: InventoryItemId
  sa_delta :: i64
  sa_occurred_at :: datetime

datatype InventoryEvent = ItemCreated ItemCreated | StockAdjusted StockAdjusted

primrec inventory_event_type :: "InventoryEvent \<Rightarrow> string" where
  "inventory_event_type (ItemCreated _) = ''inventory.item.created''"
| "inventory_event_type (StockAdjusted _) = ''inventory.item.stock_adjusted''"

definition inventory_event_version :: "InventoryEvent \<Rightarrow> u32" where
  "inventory_event_version _ = 1"

primrec inventory_event_occurred_at :: "InventoryEvent \<Rightarrow> datetime" where
  "inventory_event_occurred_at (ItemCreated e) = ic_occurred_at e"
| "inventory_event_occurred_at (StockAdjusted e) = sa_occurred_at e"

subsection \<open>Operations\<close>

definition item_apply :: "InventoryItem \<Rightarrow> InventoryEvent \<Rightarrow> InventoryItem" where
  "item_apply self event =
    (let self' = (case event of
         ItemCreated e \<Rightarrow>
           self\<lparr>ii_id := ic_item_id e, ii_tenant_id := Some (ic_tenant_id e), ii_name := ic_name e,
                ii_stock := 0, ii_created := True\<rparr>
       | StockAdjusted e \<Rightarrow> self\<lparr>ii_stock := ii_stock self + sa_delta e\<rparr>)
     in self'\<lparr>ii_version := ii_version self' + 1\<rparr>)"

definition item_ensure_tenant :: "InventoryItem \<Rightarrow> TenantId \<Rightarrow> unit domain_result" where
  "item_ensure_tenant self tenant_id =
    (if \<not> ii_created self then Inr ()
     else if ii_tenant_id self \<noteq> Some tenant_id then Inl (InvariantViolation ''tenant mismatch'')
     else Inr ())"

definition item_ensure_item_id :: "InventoryItem \<Rightarrow> InventoryItemId \<Rightarrow> unit domain_result" where
  "item_ensure_item_id self item_id =
    (if ii_id self \<noteq> item_id then Inl (InvariantViolation ''item_id mismatch'') else Inr ())"

definition item_handle_create :: "InventoryItem \<Rightarrow> CreateItem \<Rightarrow> InventoryEvent list domain_result" where
  "item_handle_create self cmd =
    (if ii_created self then Inl (Conflict ''item already exists'')
     else if trim (ci_name cmd) = [] then Inl (Validation ''name cannot be empty'')
     else Inr [ItemCreated \<lparr> ic_tenant_id = ci_tenant_id cmd, ic_item_id = ci_item_id cmd,
                 ic_name = ci_name cmd, ic_occurred_at = ci_occurred_at cmd \<rparr>])"

definition item_handle_adjust :: "InventoryItem \<Rightarrow> AdjustStock \<Rightarrow> InventoryEvent list domain_result" where
  "item_handle_adjust self cmd =
    (if \<not> ii_created self then Inl NotFound
     else and_then (item_ensure_tenant self (as_tenant_id cmd)) (\<lambda>_.
       and_then (item_ensure_item_id self (as_item_id cmd)) (\<lambda>_.
         if as_delta cmd = 0 then Inl (Validation ''delta cannot be zero'')
         else (let new_stock = ii_stock self + as_delta cmd in
           if sint new_stock < 0 then Inl (InvariantViolation ''stock cannot go negative'')
           else Inr [StockAdjusted \<lparr> sa_tenant_id = as_tenant_id cmd, sa_item_id = as_item_id cmd,
                       sa_delta = as_delta cmd, sa_occurred_at = as_occurred_at cmd \<rparr>]))))"

primrec item_handle :: "InventoryItem \<Rightarrow> InventoryCommand \<Rightarrow> InventoryEvent list domain_result" where
  "item_handle self (CreateItem cmd) = item_handle_create self cmd"
| "item_handle self (AdjustStock cmd) = item_handle_adjust self cmd"

definition inventory_ops :: "(InventoryItem, InventoryEvent, InventoryCommand) AggregateOps" where
  "inventory_ops = \<lparr> ao_apply = item_apply, ao_handle = item_handle, ao_event_type = inventory_event_type,
     ao_event_version = inventory_event_version, ao_occurred_at = inventory_event_occurred_at \<rparr>"

lemmas item_defs [handler_defs] =
  item_ensure_tenant_def item_ensure_item_id_def item_handle_create_def item_handle_adjust_def

subsection \<open>Invariant\<close>

definition item_invar :: "InventoryItem \<Rightarrow> bool" where
  "item_invar s \<longleftrightarrow>
     0 \<le> sint (ii_stock s) \<and>
     (ii_created s \<longrightarrow> trim (ii_name s) \<noteq> [] \<and> ii_tenant_id s \<noteq> None) \<and>
     (\<not> ii_created s \<longrightarrow> ii_stock s = 0 \<and> ii_tenant_id s = None)"

lemma item_empty_invar [simp]: "item_invar (item_empty i)"
  by (simp add: item_invar_def item_empty_def)

lemma item_handle_adjust_ok:
  "item_handle_adjust s c = Inr es \<longleftrightarrow>
     ii_created s \<and> ii_tenant_id s = Some (as_tenant_id c) \<and> ii_id s = as_item_id c \<and>
     as_delta c \<noteq> 0 \<and> 0 \<le> sint (ii_stock s + as_delta c) \<and>
     es = [StockAdjusted \<lparr> sa_tenant_id = as_tenant_id c, sa_item_id = as_item_id c,
             sa_delta = as_delta c, sa_occurred_at = as_occurred_at c \<rparr>]"
  by (auto simp: item_defs result_simps Let_def not_less)

lemma item_handle_create_ok:
  "item_handle_create s c = Inr es \<longleftrightarrow>
     \<not> ii_created s \<and> trim (ci_name c) \<noteq> [] \<and>
     es = [ItemCreated \<lparr> ic_tenant_id = ci_tenant_id c, ic_item_id = ci_item_id c,
             ic_name = ci_name c, ic_occurred_at = ci_occurred_at c \<rparr>]"
  by (auto simp: item_defs)

lemma item_handle_invar:
  assumes "item_invar s" "item_handle s c = Inr es"
  shows "item_invar (foldl item_apply s es)"
  using assms
  by (cases c) (auto simp: item_handle_create_ok item_handle_adjust_ok item_apply_def item_invar_def)

definition item_owner :: "InventoryItem \<Rightarrow> TenantId option" where
  "item_owner s = (if ii_created s then ii_tenant_id s else None)"

primrec inventory_event_tenant :: "InventoryEvent \<Rightarrow> TenantId" where
  "inventory_event_tenant (ItemCreated e) = ic_tenant_id e"
| "inventory_event_tenant (StockAdjusted e) = sa_tenant_id e"

interpretation inventory_item:
  tenant_aggregate item_apply item_handle ii_version item_invar item_owner inventory_event_tenant
proof
  fix s e
  show "ii_version (item_apply s e) = ii_version s + 1"
    by (cases e) (simp_all add: item_apply_def)
next
  fix s c es e
  assume "item_handle s c = Inr es" "e \<in> set es"
  then show "item_owner (foldl item_apply s es) = Some (inventory_event_tenant e)"
    by (cases c)
      (auto simp: item_handle_create_ok item_handle_adjust_ok item_apply_def item_owner_def)
next
  fix s c es t
  assume "item_handle s c = Inr es" "item_owner s = Some t"
  then show "item_owner (foldl item_apply s es) = Some t"
    by (cases c)
      (auto simp: item_handle_create_ok item_handle_adjust_ok item_apply_def item_owner_def
        split: if_splits)
qed (rule item_handle_invar)

text \<open>A sum that leaves the range of \<^verbatim>\<open>i64\<close> wraps to a negative value, because the stock
  itself is not negative: the guard on the wrapped sum is the guard on the true sum.\<close>

lemma stock_guard_exact:
  assumes "0 \<le> sint (st :: i64)"
  shows "0 \<le> sint (st + d) \<longleftrightarrow> 0 \<le> sint st + sint d \<and> sint st + sint d < 2 ^ 63"
    and "0 \<le> sint (st + d) \<Longrightarrow> sint (st + d) = sint st + sint d"
  using assms sint64_range [of st] sint64_range [of d]
  by (simp_all add: sint64_wrap split: if_splits)

text \<open>The mathematical stock movement of an event.\<close>

primrec event_delta :: "InventoryEvent \<Rightarrow> int" where
  "event_delta (ItemCreated e) = 0"
| "event_delta (StockAdjusted e) = sint (sa_delta e)"

lemma item_step_sum:
  assumes "item_invar s" "item_handle s c = Inr es"
  shows "sint (ii_stock (foldl item_apply s es)) = sint (ii_stock s) + sum_list (map event_delta es)"
  using assms
  by (cases c)
    (auto simp: item_handle_create_ok item_handle_adjust_ok item_apply_def item_invar_def
       dest: stock_guard_exact(2))

lemma decided_stock_sum:
  assumes "decided item_apply item_handle (item_empty i) h"
  shows "sint (ii_stock (foldl item_apply (item_empty i) h)) = sum_list (map event_delta h)"
  using assms
proof induction
  case decided_Nil
  then show ?case by (simp add: item_empty_def)
next
  case (decided_step h c es)
  have "item_invar (foldl item_apply (item_empty i) h)"
    using decided_step.hyps(1) by (rule inventory_item.decided_invar) simp
  then show ?case
    using item_step_sum [OF _ decided_step.hyps(2)] decided_step.IH by simp
qed

subsection \<open>Properties\<close>

text \<open>An adjustment of a valid item is accepted exactly when the item exists, tenant and
  item match, the delta is not zero and the true sum of stock and delta lies between 0 and the
  largest \<^verbatim>\<open>i64\<close>; a sum that would overflow is refused although the code adds with wrap-around.\<close>

theorem adjust_accepted_iff:
  assumes "item_invar s"
  shows "item_handle s (AdjustStock c) = Inr es \<longleftrightarrow>
     ii_created s \<and> ii_tenant_id s = Some (as_tenant_id c) \<and> ii_id s = as_item_id c \<and>
     as_delta c \<noteq> 0 \<and> 0 \<le> sint (ii_stock s) + sint (as_delta c) \<and>
     sint (ii_stock s) + sint (as_delta c) < 2 ^ 63 \<and>
     es = [StockAdjusted \<lparr> sa_tenant_id = as_tenant_id c, sa_item_id = as_item_id c,
             sa_delta = as_delta c, sa_occurred_at = as_occurred_at c \<rparr>]"
proof -
  have "0 \<le> sint (ii_stock s)" using assms by (simp add: item_invar_def)
  then show ?thesis by (auto simp: item_handle_adjust_ok stock_guard_exact(1))
qed

theorem adjust_accepted_iff_witness:
  "item_handle \<lparr> ii_id = InventoryItemId (AggregateId 7), ii_tenant_id = Some (TenantId 1),
       ii_name = ''bolt'', ii_stock = 0x7FFFFFFFFFFFFFFF, ii_version = 2, ii_created = True \<rparr>
     (AdjustStock \<lparr> as_tenant_id = TenantId 1, as_item_id = InventoryItemId (AggregateId 7),
        as_delta = 1, as_occurred_at = 5 \<rparr>) \<noteq> Inr [StockAdjusted \<lparr> sa_tenant_id = TenantId 1,
          sa_item_id = InventoryItemId (AggregateId 7), sa_delta = 1, sa_occurred_at = 5 \<rparr>]"
proof -
  have "item_invar \<lparr> ii_id = InventoryItemId (AggregateId 7), ii_tenant_id = Some (TenantId 1),
       ii_name = ''bolt'', ii_stock = 0x7FFFFFFFFFFFFFFF, ii_version = 2, ii_created = True \<rparr>"
    by code_simp
  from adjust_accepted_iff [OF this] show ?thesis by simp
qed

text \<open>For every history the item decided, starting from the empty aggregate, the replayed
  stock is the mathematical sum of the deltas of its adjustments and is never negative: no
  accepted sequence of commands wraps the 64-bit counter or drives the stock below zero.\<close>

theorem stock_is_sum_of_deltas:
  assumes "decided item_apply item_handle (item_empty i) h"
  shows "sint (ii_stock (foldl item_apply (item_empty i) h)) = sum_list (map event_delta h) \<and>
    0 \<le> sum_list (map event_delta h)"
proof -
  have "item_invar (foldl item_apply (item_empty i) h)"
    using assms by (rule inventory_item.decided_invar) simp
  then show ?thesis using decided_stock_sum [OF assms] by (simp add: item_invar_def)
qed

theorem stock_is_sum_of_deltas_witness:
  "sint (ii_stock (foldl item_apply (item_empty (InventoryItemId (AggregateId 7)))
     [ItemCreated \<lparr> ic_tenant_id = TenantId 1, ic_item_id = InventoryItemId (AggregateId 7),
        ic_name = ''bolt'', ic_occurred_at = 5 \<rparr>])) = 0"
proof -
  let ?i = "InventoryItemId (AggregateId 7)"
  have "decided item_apply item_handle (item_empty ?i) ([] @ [ItemCreated \<lparr> ic_tenant_id = TenantId 1,
      ic_item_id = ?i, ic_name = ''bolt'', ic_occurred_at = 5 \<rparr>])"
    by (rule decided_step [OF decided_Nil, where c = "CreateItem \<lparr> ci_tenant_id = TenantId 1,
      ci_item_id = ?i, ci_name = ''bolt'', ci_occurred_at = 5 \<rparr>"]) code_simp
  from stock_is_sum_of_deltas [OF this] show ?thesis by simp
qed

end
