(* ===== verification/Stock_Projections.thy ===== *)
theory Stock_Projections
  imports Projections Inventory
begin

text \<open>
  The inventory read models: \<^verbatim>\<open>infra/src/projections/inventory_stock.rs\<close> (quantity per item)
  and \<^verbatim>\<open>inventory_valuation.rs\<close> (quantity and value per item, and the summary per tenant).
  Both rows are folds over an item's stream; the stock row shows the aggregate's state.
\<close>

subsection \<open>Stock\<close>

record InventoryReadModel =
  irm_item_id :: InventoryItemId
  irm_name :: string
  irm_quantity :: i64

type_synonym stock_store = "(InventoryItemId, InventoryReadModel) InMemoryTenantStore"

primrec inventory_event_item :: "InventoryEvent \<Rightarrow> InventoryItemId" where
  "inventory_event_item (ItemCreated e) = ic_item_id e"
| "inventory_event_item (StockAdjusted e) = sa_item_id e"

definition inventory_check :: "TenantId \<Rightarrow> AggregateId \<Rightarrow> InventoryEvent \<Rightarrow> ApplyError + unit" where
  "inventory_check tenant_id aggregate_id ev =
    (if inventory_event_tenant ev \<noteq> tenant_id
       then Inl (TenantIsolation ''event tenant_id does not match envelope tenant_id'')
     else if item_aggregate (inventory_event_item ev) \<noteq> aggregate_id
       then Inl (TenantIsolation ''event item_id does not match envelope aggregate_id'')
     else Inr ())"

definition inventory_stock_update ::
    "stock_store \<Rightarrow> TenantId \<Rightarrow> AggregateId \<Rightarrow> InventoryEvent \<Rightarrow> stock_store" where
  "inventory_stock_update store tenant_id _ ev =
    (case ev of
       ItemCreated e \<Rightarrow> ts_upsert store tenant_id (ic_item_id e)
         \<lparr> irm_item_id = ic_item_id e, irm_name = ic_name e, irm_quantity = 0 \<rparr>
     | StockAdjusted e \<Rightarrow>
         (let rm = (case ts_get store tenant_id (sa_item_id e) of Some rm \<Rightarrow> rm
                | None \<Rightarrow> \<lparr> irm_item_id = sa_item_id e, irm_name = [], irm_quantity = 0 \<rparr>);
              rm = rm\<lparr>irm_quantity := irm_quantity rm + sa_delta e\<rparr>
          in ts_upsert store tenant_id (sa_item_id e) rm))"

definition inventory_stock :: "(stock_store, InventoryEvent) ProjectionLogic" where
  "inventory_stock = \<lparr> pl_aggregate_type = ''inventory.item'', pl_check = inventory_check,
     pl_update = inventory_stock_update \<rparr>"

text \<open>The row as a fold.\<close>

definition stock_row :: "InventoryReadModel option \<Rightarrow> InventoryEvent \<Rightarrow> InventoryReadModel option" where
  "stock_row r ev =
    (case ev of
       ItemCreated e \<Rightarrow> Some \<lparr> irm_item_id = ic_item_id e, irm_name = ic_name e, irm_quantity = 0 \<rparr>
     | StockAdjusted e \<Rightarrow> (case r of
           None \<Rightarrow> Some \<lparr> irm_item_id = sa_item_id e, irm_name = [], irm_quantity = sa_delta e \<rparr>
         | Some rm \<Rightarrow> Some (rm\<lparr>irm_quantity := irm_quantity rm + sa_delta e\<rparr>)))"

lemma inventory_check_ok [simp]:
  "inventory_check t a e = Inr () \<longleftrightarrow> inventory_event_tenant e = t \<and> item_aggregate (inventory_event_item e) = a"
  by (auto simp: inventory_check_def)

interpretation stock_rows: row_projection ts_get ts_upsert "ts_list id" ts_clear_tenant ts_ok
    inventory_stock inventory_event_item stock_row item_aggregate
proof
  fix s :: stock_store and t a e t' k
  assume ok: "ts_ok s"
  show "ts_ok (pl_update inventory_stock s t a e)"
    using ok by (cases e) (simp_all add: inventory_stock_def inventory_stock_update_def Let_def
      in_memory_tenant_store.store_simps)
  show "ts_get (pl_update inventory_stock s t a e) t' k =
      (if t' = t \<and> k = inventory_event_item e then stock_row (ts_get s t k) e else ts_get s t' k)"
    using ok by (cases e) (auto simp: inventory_stock_def inventory_stock_update_def stock_row_def Let_def
      in_memory_tenant_store.store_simps split: option.splits)
qed (simp_all add: inventory_stock_def InventoryItemId.expand)

text \<open>The row shows the aggregate.\<close>

definition item_view :: "InventoryItem \<Rightarrow> InventoryReadModel option" where
  "item_view s = (if ii_created s
     then Some \<lparr> irm_item_id = ii_id s, irm_name = ii_name s, irm_quantity = ii_stock s \<rparr> else None)"

lemma item_view_empty [simp]: "item_view (item_empty i) = None"
  by (simp add: item_view_def item_empty_def)

lemma item_handle_single: "item_handle s c = Inr es \<Longrightarrow> length es \<le> Suc 0"
  by (cases c) (auto simp: item_handle_create_ok item_handle_adjust_ok)

interpretation stock_view: state_view ts_get ts_upsert "ts_list id" ts_clear_tenant ts_ok
    inventory_stock inventory_event_item stock_row item_aggregate
    item_apply item_handle ii_version item_invar
    InventoryItemId "\<lambda>a. item_empty (InventoryItemId a)" id item_view
proof
  fix s c es r assume "item_invar s" "item_handle s c = Inr es" "map_option id r = item_view s"
  then show "map_option id (foldl stock_row r es) = item_view (foldl item_apply s es)"
    by (cases c) (auto simp: item_handle_create_ok item_handle_adjust_ok item_apply_def
      item_view_def stock_row_def)
qed (simp_all add: item_handle_single)

subsection \<open>Valuation\<close>

record InventoryValuation =
  val_item_id :: InventoryItemId
  val_name :: string
  val_quantity :: i64
  val_unit_cost :: "u64 option"
  val_total_value :: "u64 option"

record InventoryValuationSummary =
  vs_total_items :: nat
  vs_valued_items :: nat
  vs_unvalued_items :: nat
  vs_total_value :: u64
  vs_total_quantity :: i64

type_synonym valuation_store = "(InventoryItemId, InventoryValuation) InMemoryTenantStore"

definition valuation_new :: "InventoryItemId \<Rightarrow> string \<Rightarrow> InventoryValuation" where
  "valuation_new item_id name = \<lparr> val_item_id = item_id, val_name = name, val_quantity = 0,
     val_unit_cost = None, val_total_value = None \<rparr>"

definition recalculate_value :: "InventoryValuation \<Rightarrow> InventoryValuation" where
  "recalculate_value self = self\<lparr>val_total_value := map_option (\<lambda>cost.
     if 0 < sint (val_quantity self) then u64_saturating_mul (val_quantity self) cost else 0)
     (val_unit_cost self)\<rparr>"

definition inventory_valuation_update ::
    "valuation_store \<Rightarrow> TenantId \<Rightarrow> AggregateId \<Rightarrow> InventoryEvent \<Rightarrow> valuation_store" where
  "inventory_valuation_update store tenant_id _ ev =
    (case ev of
       ItemCreated e \<Rightarrow> ts_upsert store tenant_id (ic_item_id e) (valuation_new (ic_item_id e) (ic_name e))
     | StockAdjusted e \<Rightarrow>
         (let v = (case ts_get store tenant_id (sa_item_id e) of Some v \<Rightarrow> v
                | None \<Rightarrow> valuation_new (sa_item_id e) []);
              v = recalculate_value (v\<lparr>val_quantity := val_quantity v + sa_delta e\<rparr>)
          in ts_upsert store tenant_id (sa_item_id e) v))"

definition inventory_valuation :: "(valuation_store, InventoryEvent) ProjectionLogic" where
  "inventory_valuation = \<lparr> pl_aggregate_type = ''inventory.item'', pl_check = inventory_check,
     pl_update = inventory_valuation_update \<rparr>"

definition set_unit_cost ::
    "(valuation_store, 'c) Projection \<Rightarrow> TenantId \<Rightarrow> InventoryItemId \<Rightarrow> u64 \<Rightarrow> (valuation_store, 'c) Projection" where
  "set_unit_cost self tenant_id item_id unit_cost =
    (case ts_get (pj_store self) tenant_id item_id of
       None \<Rightarrow> self
     | Some v \<Rightarrow> self\<lparr>pj_store := ts_upsert (pj_store self) tenant_id item_id
         (recalculate_value (v\<lparr>val_unit_cost := Some unit_cost\<rparr>))\<rparr>)"

text \<open>The sums wrap as the release build does.\<close>

definition valuation_summary :: "InventoryValuation list \<Rightarrow> InventoryValuationSummary" where
  "valuation_summary items =
    (let total_items = length items; valued_items = length (filter (\<lambda>v. val_unit_cost v \<noteq> None) items) in
     \<lparr> vs_total_items = total_items, vs_valued_items = valued_items,
       vs_unvalued_items = total_items - valued_items,
       vs_total_value = sum_list (List.map_filter val_total_value items),
       vs_total_quantity = sum_list (map val_quantity items) \<rparr>)"

definition list_unvalued :: "InventoryValuation list \<Rightarrow> InventoryValuation list" where
  "list_unvalued items = filter (\<lambda>v. val_unit_cost v = None) items"

definition list_valued :: "InventoryValuation list \<Rightarrow> InventoryValuation list" where
  "list_valued items = filter (\<lambda>v. 0 < (case val_total_value v of Some x \<Rightarrow> x | None \<Rightarrow> 0)) items"

definition valuation_row :: "InventoryValuation option \<Rightarrow> InventoryEvent \<Rightarrow> InventoryValuation option" where
  "valuation_row r ev =
    (case ev of
       ItemCreated e \<Rightarrow> Some (valuation_new (ic_item_id e) (ic_name e))
     | StockAdjusted e \<Rightarrow>
         (let v = (case r of Some v \<Rightarrow> v | None \<Rightarrow> valuation_new (sa_item_id e) [])
          in Some (recalculate_value (v\<lparr>val_quantity := val_quantity v + sa_delta e\<rparr>))))"

interpretation valuation_rows: row_projection ts_get ts_upsert "ts_list id" ts_clear_tenant ts_ok
    inventory_valuation inventory_event_item valuation_row item_aggregate
proof
  fix s :: valuation_store and t a e t' k
  assume ok: "ts_ok s"
  show "ts_ok (pl_update inventory_valuation s t a e)"
    using ok by (cases e) (simp_all add: inventory_valuation_def inventory_valuation_update_def Let_def
      in_memory_tenant_store.store_simps)
  show "ts_get (pl_update inventory_valuation s t a e) t' k =
      (if t' = t \<and> k = inventory_event_item e then valuation_row (ts_get s t k) e else ts_get s t' k)"
    using ok by (cases e) (auto simp: inventory_valuation_def inventory_valuation_update_def
      valuation_row_def Let_def in_memory_tenant_store.store_simps split: option.splits)
qed (simp_all add: inventory_valuation_def InventoryItemId.expand)

text \<open>The recorded value is the exact product, saturated at the largest \<^verbatim>\<open>u64\<close>.\<close>

definition value_exact :: "InventoryValuation \<Rightarrow> bool" where
  "value_exact v \<longleftrightarrow> map_option unat (val_total_value v) =
     map_option (\<lambda>c. min (2 ^ 64 - 1) (nat (sint (val_quantity v)) * unat c)) (val_unit_cost v)"

lemma u64_saturating_mul_exact: "unat (u64_saturating_mul a b) = min (2 ^ 64 - 1) (unat a * unat b)"
proof (cases "unat a * unat b < 2 ^ 64")
  case True
  then have "unat (a * b) = unat a * unat b" by (simp add: unat_word_ariths)
  then show ?thesis using True by (simp add: u64_saturating_mul_def)
next
  case False
  then have "u64_saturating_mul a b = -1" by (simp add: u64_saturating_mul_def)
  then show ?thesis using False by (simp add: unsigned_minus_1_eq_mask mask_eq_exp_minus_1)
qed

lemma recalculate_value_exact: "value_exact (recalculate_value v)"
proof (cases "0 < sint (val_quantity v)")
  case True
  then have "uint (val_quantity v) = sint (val_quantity v)" by (simp add: uint_sint64_nonneg)
  then have "nat (sint (val_quantity v)) = unat (val_quantity v)" by (metis nat_uint_eq)
  then show ?thesis
    using True by (simp add: value_exact_def recalculate_value_def option.map_comp o_def u64_saturating_mul_exact
      cong: option.map_cong)
next
  case False
  then show ?thesis by (cases "val_unit_cost v") (simp_all add: value_exact_def recalculate_value_def)
qed

datatype 'j ValuationCall =
    ApplyEnvelope "'j EventEnvelope"
  | SetUnitCost TenantId InventoryItemId u64

primrec valuation_call ::
    "'c ProjectionCursorStore \<Rightarrow> ('j \<Rightarrow> string + InventoryEvent) \<Rightarrow> (valuation_store, 'c) Projection \<Rightarrow>
     'j ValuationCall \<Rightarrow> (valuation_store, 'c) Projection" where
  "valuation_call ops from_value self (ApplyEnvelope env) =
     fst (apply_envelope ops from_value inventory_valuation self env)"
| "valuation_call ops from_value self (SetUnitCost t k c) = set_unit_cost self t k c"

definition rows_exact :: "valuation_store \<Rightarrow> bool" where
  "rows_exact s \<longleftrightarrow> ts_ok s \<and> (\<forall>t k. pred_option value_exact (ts_get s t k))"

lemma rows_exact_new: "rows_exact ts_new"
  by (simp add: rows_exact_def)

lemma rows_exact_upsert:
  assumes "rows_exact s" "value_exact v"
  shows "rows_exact (ts_upsert s t k v)"
  using assms by (simp add: rows_exact_def in_memory_tenant_store.store_simps)

lemma rows_exact_call:
  assumes "rows_exact (pj_store p)"
  shows "rows_exact (pj_store (valuation_call ops from_value p c))"
proof (cases c)
  case (ApplyEnvelope env)
  have "value_exact (valuation_new i n)" for i n by (simp add: value_exact_def valuation_new_def)
  then have "rows_exact (pl_update inventory_valuation (pj_store p) t a e)" for t a e
    using assms
    by (cases e) (auto simp: inventory_valuation_def inventory_valuation_update_def Let_def
      intro!: rows_exact_upsert recalculate_value_exact)
  then show ?thesis
    using apply_envelope_store [of ops from_value inventory_valuation p env] assms ApplyEnvelope by auto
next
  case (SetUnitCost t k cost)
  then show ?thesis
    using assms by (auto simp: set_unit_cost_def intro!: rows_exact_upsert recalculate_value_exact
      split: option.splits)
qed

subsection \<open>Properties\<close>

text \<open>Whatever envelopes are applied and unit costs set, in whatever order, every row of the
  valuation read model records the exact product of the stock (0 when negative) and the unit
  cost, saturated at the largest \<^verbatim>\<open>u64\<close>, and no value when no cost is set.\<close>

theorem valuation_always_exact:
  "\<forall>t k. pred_option value_exact (ts_get (pj_store (foldl (valuation_call ops from_value)
     (projection_new ts_new ''inventory.valuation'') calls)) t k)"
proof -
  have "rows_exact (pj_store (foldl (valuation_call ops from_value)
      (projection_new ts_new ''inventory.valuation'') calls))"
    by (rule foldl_invariant [where I = "\<lambda>p. rows_exact (pj_store p)"])
      (simp_all add: rows_exact_new rows_exact_call)
  then show ?thesis by (simp add: rows_exact_def)
qed

text \<open>An item created and stocked, whose second event is delivered twice.\<close>

definition ex_stock_events :: "InventoryEvent list" where
  "ex_stock_events =
     [ItemCreated \<lparr> ic_tenant_id = TenantId 1, ic_item_id = InventoryItemId (AggregateId 7),
        ic_name = ''bolt'', ic_occurred_at = 5 \<rparr>,
      StockAdjusted \<lparr> sa_tenant_id = TenantId 1, sa_item_id = InventoryItemId (AggregateId 7),
        sa_delta = 3, sa_occurred_at = 6 \<rparr>]"

definition ex_stock_hist :: "TenantId \<Rightarrow> AggregateId \<Rightarrow> InventoryEvent list" where
  "ex_stock_hist t a = (if t = TenantId 1 \<and> a = AggregateId 7 then ex_stock_events else [])"

definition ex_stock_env :: "nat \<Rightarrow> InventoryEvent EventEnvelope" where
  "ex_stock_env n = \<lparr> ee_event_id = of_nat n, ee_tenant_id = TenantId 1, ee_aggregate_id = AggregateId 7,
     ee_aggregate_type = ''inventory.item'', ee_sequence_number = of_nat n,
     ee_payload = ex_stock_events ! (n - 1) \<rparr>"

lemma ex_stock_decided:
  "decided item_apply item_handle (item_empty (InventoryItemId a)) (ex_stock_hist t a)"
proof -
  let ?i = "InventoryItemId (AggregateId 7)"
  have "decided item_apply item_handle (item_empty ?i) ([] @ [ex_stock_events ! 0])"
    by (rule decided_step [OF decided_Nil, where c = "CreateItem \<lparr> ci_tenant_id = TenantId 1,
        ci_item_id = ?i, ci_name = ''bolt'', ci_occurred_at = 5 \<rparr>"]) code_simp
  then have "decided item_apply item_handle (item_empty ?i) (([] @ [ex_stock_events ! 0]) @ [ex_stock_events ! 1])"
    by (rule decided_step [where c = "AdjustStock \<lparr> as_tenant_id = TenantId 1,
        as_item_id = ?i, as_delta = 3, as_occurred_at = 6 \<rparr>"]) code_simp
  moreover have "([] @ [ex_stock_events ! 0]) @ [ex_stock_events ! 1] = ex_stock_events"
    by (simp add: ex_stock_events_def)
  ultimately show ?thesis by (auto simp: ex_stock_hist_def intro: decided_Nil)
qed

text \<open>The stock read model shows the aggregates.  When every stream is a decided history of
  its item, and its envelopes are delivered at least once, without gaps, interleaved with other
  streams and with any redeliveries, every call succeeds and each row is the state the delivered
  part of the stream replays to.\<close>

theorem stock_read_model_at_least_once:
  assumes "\<forall>t a. decided item_apply item_handle (item_empty (InventoryItemId a)) (hist t a)"
    "\<forall>env \<in> set envs. genuine from_value inventory_stock hist env"
    "no_gaps ''inventory.item'' (\<lambda>_ _. 0) envs"
  shows "\<exists>p. apply_envelopes (apply_envelope ops from_value inventory_stock)
      (projection_new ts_new ''inventory.stock'') envs = (p, Inr ()) \<and>
    (\<forall>t a. ts_get (pj_store p) t (InventoryItemId a) = item_view (foldl item_apply (item_empty (InventoryItemId a))
      (take (foldl (advance ''inventory.item'') (\<lambda>_ _. 0) envs t a) (hist t a))))"
proof -
  have "pl_aggregate_type inventory_stock = ''inventory.item''" by (simp add: inventory_stock_def)
  then show ?thesis
    using stock_view.deliver_view [OF assms(1), of "projection_new ts_new ''inventory.stock''" ops envs from_value]
      assms(2,3) by (simp add: option.map_id)
qed

theorem stock_read_model_at_least_once_witness:
  "\<exists>p. apply_envelopes (apply_envelope InMemoryCursorStore Inr inventory_stock)
      (projection_new ts_new ''inventory.stock'') [ex_stock_env 1, ex_stock_env 2, ex_stock_env 2] = (p, Inr ()) \<and>
    ts_get (pj_store p) (TenantId 1) (InventoryItemId (AggregateId 7)) =
      Some \<lparr> irm_item_id = InventoryItemId (AggregateId 7), irm_name = ''bolt'', irm_quantity = 3 \<rparr>"
proof -
  let ?envs = "[ex_stock_env 1, ex_stock_env 2, ex_stock_env 2]"
  have "\<forall>env \<in> set ?envs. genuine Inr inventory_stock ex_stock_hist env" by code_simp
  moreover have "no_gaps ''inventory.item'' (\<lambda>_ _. 0) ?envs" by code_simp
  ultimately obtain p where p: "apply_envelopes (apply_envelope InMemoryCursorStore Inr inventory_stock)
      (projection_new ts_new ''inventory.stock'') ?envs = (p, Inr ())"
    "\<And>t a. ts_get (pj_store p) t (InventoryItemId a) = item_view (foldl item_apply (item_empty (InventoryItemId a))
      (take (foldl (advance ''inventory.item'') (\<lambda>_ _. 0) ?envs t a) (ex_stock_hist t a)))"
    using stock_read_model_at_least_once [of ex_stock_hist ?envs Inr InMemoryCursorStore] ex_stock_decided
    by blast
  have "item_view (foldl item_apply (item_empty (InventoryItemId (AggregateId 7)))
      (take (foldl (advance ''inventory.item'') (\<lambda>_ _. 0) ?envs (TenantId 1) (AggregateId 7))
        (ex_stock_hist (TenantId 1) (AggregateId 7)))) =
      Some \<lparr> irm_item_id = InventoryItemId (AggregateId 7), irm_name = ''bolt'', irm_quantity = 3 \<rparr>"
    by code_simp
  then show ?thesis using p by auto
qed

text \<open>Rebuilding is sound.  From whatever state the stock projection is in, a rebuild from all
  events of the tenants it touches, in any order and with any repetitions, succeeds and leaves
  exactly the states the streams of these tenants replay to; rows of other tenants stay.\<close>

theorem stock_rebuild_sound:
  assumes "\<forall>t a. decided item_apply item_handle (item_empty (InventoryItemId a)) (hist t a)"
    "\<forall>env \<in> set envs. genuine from_value inventory_stock hist env"
    "\<forall>t \<in> ee_tenant_id ` set envs. \<forall>a. numbers ''inventory.item'' envs t a = {1..length (hist t a)}"
    "in_memory_cursors p0" "ts_ok (pj_store p0)"
  shows "\<exists>p. rebuild_projection ops ts_clear_tenant id (apply_envelope ops from_value inventory_stock) p0 envs
      = (p, Inr ()) \<and>
    (\<forall>t a. ts_get (pj_store p) t (InventoryItemId a) = (if t \<in> ee_tenant_id ` set envs
       then item_view (foldl item_apply (item_empty (InventoryItemId a)) (hist t a))
       else ts_get (pj_store p0) t (InventoryItemId a)))"
proof -
  have "pl_aggregate_type inventory_stock = ''inventory.item''" by (simp add: inventory_stock_def)
  then show ?thesis
    using stock_view.rebuild_view [OF assms(1,4,5), of envs from_value ops, unfolded option.map_id] assms(2,3)
    by simp
qed

theorem stock_rebuild_sound_witness:
  "\<exists>p. rebuild_projection InMemoryCursorStore ts_clear_tenant id (apply_envelope InMemoryCursorStore Inr inventory_stock)
      (projection_new ts_new ''inventory.stock'') [ex_stock_env 2, ex_stock_env 1] = (p, Inr ()) \<and>
    ts_get (pj_store p) (TenantId 1) (InventoryItemId (AggregateId 7)) =
      Some \<lparr> irm_item_id = InventoryItemId (AggregateId 7), irm_name = ''bolt'', irm_quantity = 3 \<rparr>"
proof -
  let ?envs = "[ex_stock_env 2, ex_stock_env 1]"
  have "\<forall>env \<in> set ?envs. genuine Inr inventory_stock ex_stock_hist env" by code_simp
  moreover have "\<forall>t \<in> ee_tenant_id ` set ?envs. \<forall>a. numbers ''inventory.item'' ?envs t a = {1..length (ex_stock_hist t a)}"
    by (auto simp: numbers_def ex_stock_env_def ex_stock_hist_def ex_stock_events_def)
  ultimately obtain p where p:
    "rebuild_projection InMemoryCursorStore ts_clear_tenant id (apply_envelope InMemoryCursorStore Inr inventory_stock)
      (projection_new ts_new ''inventory.stock'') ?envs = (p, Inr ())"
    "\<And>t a. ts_get (pj_store p) t (InventoryItemId a) = (if t \<in> ee_tenant_id ` set ?envs
       then item_view (foldl item_apply (item_empty (InventoryItemId a)) (ex_stock_hist t a))
       else ts_get (pj_store (projection_new ts_new ''inventory.stock'')) t (InventoryItemId a))"
    using stock_rebuild_sound [of ex_stock_hist ?envs Inr "projection_new ts_new ''inventory.stock''"
        InMemoryCursorStore] ex_stock_decided by auto
  have "item_view (foldl item_apply (item_empty (InventoryItemId (AggregateId 7)))
        (ex_stock_hist (TenantId 1) (AggregateId 7))) =
      Some \<lparr> irm_item_id = InventoryItemId (AggregateId 7), irm_name = ''bolt'', irm_quantity = 3 \<rparr>"
    by code_simp
  then show ?thesis using p by (auto simp: ex_stock_env_def)
qed

end
