(* ===== verification/Postgres_Reads.thy ===== *)
theory Postgres_Reads
  imports Stock_Projections
begin

text \<open>
  Read models and cursors kept in PostgreSQL: \<^verbatim>\<open>infra/src/read_model/postgres.rs\<close> (\<^verbatim>\<open>PostgresInventoryStore\<close>) and
  \<^verbatim>\<open>infra/src/projections/cursor_store.rs\<close> (\<^verbatim>\<open>PostgresCursorStore\<close>).

  The database is an argument: the record \<^verbatim>\<open>ReadDb\<close> of the statements the code sends.  The locale \<^verbatim>\<open>read_database\<close> says
  what the tables of \<^verbatim>\<open>docker/migrations/004_create_read_models.sql\<close> promise, with their keys and checks; \<^verbatim>\<open>read_tables\<close>
  is such a database.  Whether a tokio runtime is current on the calling thread is the argument \<^verbatim>\<open>rt\<close>; without one
  the operations do nothing.  What an operation cannot do it does not report, so the contract of the in-memory
  stores holds only for rows and cursors the checks accept.
\<close>

subsection \<open>Statements\<close>

text \<open>Columns as \<^verbatim>\<open>try_get\<close> reads them.\<close>

record StockRow =
  kr_item_id :: "uuid option"
  kr_name :: "string option"
  kr_quantity :: "i64 option"

record 'd ReadDb =
  rdb_select_stock :: "'d \<Rightarrow> uuid \<Rightarrow> uuid \<Rightarrow> string + StockRow option"
  rdb_list_stock :: "'d \<Rightarrow> uuid \<Rightarrow> string + StockRow list"
  rdb_upsert_stock :: "'d \<Rightarrow> uuid \<Rightarrow> uuid \<Rightarrow> string \<Rightarrow> i64 \<Rightarrow> 'd \<times> (string + unit)"
  rdb_clear_tenant_read_models :: "'d \<Rightarrow> uuid \<Rightarrow> 'd \<times> (string + unit)"
  rdb_select_offset :: "'d \<Rightarrow> uuid \<Rightarrow> uuid \<Rightarrow> string \<Rightarrow> string + i64 option option"
  rdb_upsert_offset :: "'d \<Rightarrow> uuid \<Rightarrow> uuid \<Rightarrow> string \<Rightarrow> i64 \<Rightarrow> 'd \<times> (string + unit)"
  rdb_clear_tenant_offsets :: "'d \<Rightarrow> uuid \<Rightarrow> string \<Rightarrow> 'd \<times> (string + unit)"

subsection \<open>The inventory store\<close>

definition row_to_read_model :: "StockRow \<Rightarrow> InventoryReadModel option" where
  "row_to_read_model row =
    (case (kr_name row, kr_quantity row, kr_item_id row) of
       (Some name, Some quantity, Some item_id) \<Rightarrow>
         Some \<lparr> irm_item_id = InventoryItemId (AggregateId item_id), irm_name = name, irm_quantity = quantity \<rparr>
     | _ \<Rightarrow> None)"

definition pg_inventory_get :: "bool \<Rightarrow> 'd ReadDb \<Rightarrow> 'd \<Rightarrow> TenantId \<Rightarrow> InventoryItemId \<Rightarrow> InventoryReadModel option" where
  "pg_inventory_get rt db d tenant_id key =
    (if \<not> rt then None
     else case rdb_select_stock db d (tenant_uuid tenant_id) (aggregate_uuid (item_aggregate key)) of
            Inr (Some row) \<Rightarrow> row_to_read_model row
          | Inr None \<Rightarrow> None
          | Inl _ \<Rightarrow> None)"

definition pg_inventory_upsert :: "bool \<Rightarrow> 'd ReadDb \<Rightarrow> 'd \<Rightarrow> TenantId \<Rightarrow> InventoryItemId \<Rightarrow> InventoryReadModel \<Rightarrow> 'd" where
  "pg_inventory_upsert rt db d tenant_id key value =
    (if \<not> rt then d
     else fst (rdb_upsert_stock db d (tenant_uuid tenant_id) (aggregate_uuid (item_aggregate key)) (irm_name value) (irm_quantity value)))"

definition pg_inventory_list :: "bool \<Rightarrow> 'd ReadDb \<Rightarrow> 'd \<Rightarrow> TenantId \<Rightarrow> InventoryReadModel list" where
  "pg_inventory_list rt db d tenant_id =
    (if \<not> rt then []
     else case rdb_list_stock db d (tenant_uuid tenant_id) of
            Inr rows \<Rightarrow> List.map_filter row_to_read_model rows
          | Inl _ \<Rightarrow> [])"

definition pg_inventory_clear_tenant :: "bool \<Rightarrow> 'd ReadDb \<Rightarrow> 'd \<Rightarrow> TenantId \<Rightarrow> 'd" where
  "pg_inventory_clear_tenant rt db d tenant_id =
    (if \<not> rt then d else fst (rdb_clear_tenant_read_models db d (tenant_uuid tenant_id)))"

subsection \<open>The cursor store\<close>

definition pg_get_cursor :: "bool \<Rightarrow> 'd ReadDb \<Rightarrow> 'd \<Rightarrow> TenantId \<Rightarrow> AggregateId \<Rightarrow> string \<Rightarrow> u64 option" where
  "pg_get_cursor rt db d tenant_id aggregate_id projection_name =
    (if \<not> rt then None
     else case rdb_select_offset db d (tenant_uuid tenant_id) (aggregate_uuid aggregate_id) projection_name of
            Inr (Some column) \<Rightarrow> column
          | Inr None \<Rightarrow> None
          | Inl _ \<Rightarrow> None)"

definition pg_update_cursor :: "bool \<Rightarrow> 'd ReadDb \<Rightarrow> 'd \<Rightarrow> TenantId \<Rightarrow> AggregateId \<Rightarrow> string \<Rightarrow> u64 \<Rightarrow> 'd" where
  "pg_update_cursor rt db d tenant_id aggregate_id projection_name sequence_number =
    (if \<not> rt then d
     else fst (rdb_upsert_offset db d (tenant_uuid tenant_id) (aggregate_uuid aggregate_id) projection_name sequence_number))"

definition pg_clear_cursors :: "bool \<Rightarrow> 'd ReadDb \<Rightarrow> 'd \<Rightarrow> TenantId \<Rightarrow> string \<Rightarrow> 'd" where
  "pg_clear_cursors rt db d tenant_id projection_name =
    (if \<not> rt then d else fst (rdb_clear_tenant_offsets db d (tenant_uuid tenant_id) projection_name))"

definition PostgresCursorStore :: "bool \<Rightarrow> 'd ReadDb \<Rightarrow> 'd ProjectionCursorStore" where
  "PostgresCursorStore rt db = \<lparr> cs_get_cursor = pg_get_cursor rt db, cs_update_cursor = pg_update_cursor rt db,
     cs_clear_cursors = pg_clear_cursors rt db \<rparr>"

subsection \<open>What the tables promise\<close>

definition stock_row_of :: "uuid \<Rightarrow> string \<times> i64 \<Rightarrow> StockRow" where
  "stock_row_of i r = \<lparr> kr_item_id = Some i, kr_name = Some (fst r), kr_quantity = Some (snd r) \<rparr>"

lemma row_to_read_model_row [simp]:
  "row_to_read_model (stock_row_of i r) =
     Some \<lparr> irm_item_id = InventoryItemId (AggregateId i), irm_name = fst r, irm_quantity = snd r \<rparr>"
  by (simp add: row_to_read_model_def stock_row_of_def)

lemma set_map_filter: "set (List.map_filter f xs) = {y. \<exists>x \<in> set xs. f x = Some y}"
  by (induction xs) (auto simp: map_filter_simps split: option.splits)

text \<open>\<^verbatim>\<open>up d\<close>: the database answers.  Then a statement fails only when a check of the table refuses it.\<close>

locale read_database =
  fixes db :: "'d ReadDb"
    and stock :: "'d \<Rightarrow> uuid \<Rightarrow> uuid \<rightharpoonup> string \<times> i64"
    and offsets :: "'d \<Rightarrow> uuid \<Rightarrow> uuid \<Rightarrow> string \<rightharpoonup> i64"
    and up :: "'d \<Rightarrow> bool"
  assumes select_stock: "up d \<Longrightarrow> rdb_select_stock db d t i = Inr (map_option (stock_row_of i) (stock d t i))"
    and list_stock: "up d \<Longrightarrow> \<exists>rows. rdb_list_stock db d t = Inr rows \<and>
      set rows = {stock_row_of i r | i r. stock d t i = Some r}"
    and upsert_stock: "up d \<Longrightarrow> name \<noteq> [] \<Longrightarrow> up (fst (rdb_upsert_stock db d t i name q)) \<and>
      stock (fst (rdb_upsert_stock db d t i name q)) = (stock d)(t := (stock d t)(i \<mapsto> (name, q))) \<and>
      offsets (fst (rdb_upsert_stock db d t i name q)) = offsets d"
    and upsert_stock_check: "up d \<Longrightarrow> up (fst (rdb_upsert_stock db d t i [] q)) \<and>
      stock (fst (rdb_upsert_stock db d t i [] q)) = stock d \<and> offsets (fst (rdb_upsert_stock db d t i [] q)) = offsets d"
    and clear_stock: "up d \<Longrightarrow> up (fst (rdb_clear_tenant_read_models db d t)) \<and>
      stock (fst (rdb_clear_tenant_read_models db d t)) = (stock d)(t := Map.empty) \<and>
      offsets (fst (rdb_clear_tenant_read_models db d t)) = offsets d"
    and select_offset: "up d \<Longrightarrow> rdb_select_offset db d t a p = Inr (map_option Some (offsets d t a p))"
    and upsert_offset: "up d \<Longrightarrow> up (fst (rdb_upsert_offset db d t a p n)) \<and>
      stock (fst (rdb_upsert_offset db d t a p n)) = stock d \<and>
      offsets (fst (rdb_upsert_offset db d t a p n)) =
        (if p \<noteq> [] \<and> 0 \<le> sint n then (offsets d)(t := (offsets d t)(a := (offsets d t a)(p \<mapsto> n))) else offsets d)"
    and clear_offsets: "up d \<Longrightarrow> up (fst (rdb_clear_tenant_offsets db d t p)) \<and>
      stock (fst (rdb_clear_tenant_offsets db d t p)) = stock d \<and>
      offsets (fst (rdb_clear_tenant_offsets db d t p)) = (offsets d)(t := (\<lambda>a. (offsets d t a)(p := None)))"
begin

lemma pg_get:
  "up d \<Longrightarrow> pg_inventory_get True db d t (InventoryItemId (AggregateId i)) =
     map_option (\<lambda>r. \<lparr> irm_item_id = InventoryItemId (AggregateId i), irm_name = fst r, irm_quantity = snd r \<rparr>) (stock d (tenant_uuid t) i)"
  by (cases "stock d (tenant_uuid t) i")
    (simp_all add: pg_inventory_get_def select_stock row_to_read_model_def stock_row_of_def)

lemma pg_list:
  assumes "up d"
  shows "set (pg_inventory_list True db d t) = {v. \<exists>k. pg_inventory_get True db d t k = Some v}"
proof -
  obtain rows where rows: "rdb_list_stock db d (tenant_uuid t) = Inr rows"
    "set rows = {stock_row_of i r | i r. stock d (tenant_uuid t) i = Some r}" using list_stock [OF assms] by blast
  have "(\<exists>row \<in> set rows. P row) \<longleftrightarrow> (\<exists>i r. stock d (tenant_uuid t) i = Some r \<and> P (stock_row_of i r))" for P
    unfolding rows(2) by blast
  then have "v \<in> set (pg_inventory_list True db d t) \<longleftrightarrow>
      (\<exists>i r. stock d (tenant_uuid t) i = Some r \<and> row_to_read_model (stock_row_of i r) = Some v)" for v
    using rows(1) by (simp add: pg_inventory_list_def set_map_filter)
  moreover have "(\<exists>k. pg_inventory_get True db d t k = Some v) \<longleftrightarrow>
      (\<exists>i. pg_inventory_get True db d t (InventoryItemId (AggregateId i)) = Some v)" for v
    by (metis AggregateId.exhaust InventoryItemId.exhaust)
  ultimately show ?thesis using pg_get [OF assms] by auto
qed

lemma pg_upsert:
  assumes "up d"
  shows "pg_inventory_get True db (pg_inventory_upsert True db d t k v) t' k' =
    (if t' = t \<and> k' = k \<and> irm_name v \<noteq> [] then Some (v\<lparr>irm_item_id := k\<rparr>) else pg_inventory_get True db d t' k')"
    "up (pg_inventory_upsert True db d t k v)"
proof -
  obtain i where k: "k = InventoryItemId (AggregateId i)" by (metis AggregateId.exhaust InventoryItemId.exhaust)
  obtain i' where k': "k' = InventoryItemId (AggregateId i')" by (metis AggregateId.exhaust InventoryItemId.exhaust)
  obtain x x' where t: "t = TenantId x" "t' = TenantId x'" by (metis TenantId.exhaust)
  have e: "(x' = x) = (TenantId x' = TenantId x)" by simp
  show "up (pg_inventory_upsert True db d t k v)"
    using upsert_stock [OF assms] upsert_stock_check [OF assms] by (cases "irm_name v") (simp_all add: pg_inventory_upsert_def)
  show "pg_inventory_get True db (pg_inventory_upsert True db d t k v) t' k' =
      (if t' = t \<and> k' = k \<and> irm_name v \<noteq> [] then Some (v\<lparr>irm_item_id := k\<rparr>) else pg_inventory_get True db d t' k')"
    using upsert_stock [OF assms, of "irm_name v"] upsert_stock_check [OF assms] assms
    by (cases "irm_name v = []") (simp_all add: k k' t pg_get pg_inventory_upsert_def)
qed

lemma pg_clear:
  assumes "up d"
  shows "pg_inventory_get True db (pg_inventory_clear_tenant True db d t) t' k =
    (if t' = t then None else pg_inventory_get True db d t' k)" "up (pg_inventory_clear_tenant True db d t)"
proof -
  obtain i where k: "k = InventoryItemId (AggregateId i)" by (metis AggregateId.exhaust InventoryItemId.exhaust)
  obtain x x' where t: "t = TenantId x" "t' = TenantId x'" by (metis TenantId.exhaust)
  show "up (pg_inventory_clear_tenant True db d t)" using clear_stock [OF assms] by (simp add: pg_inventory_clear_tenant_def)
  show "pg_inventory_get True db (pg_inventory_clear_tenant True db d t) t' k =
      (if t' = t then None else pg_inventory_get True db d t' k)"
    using clear_stock [OF assms, of x] assms by (simp add: k t pg_get pg_inventory_clear_tenant_def)
qed

lemma pg_cursor:
  assumes "up d"
  shows "pg_get_cursor True db (pg_update_cursor True db d t a p n) t' a' p' =
      (if t' = t \<and> a' = a \<and> p' = p \<and> p \<noteq> [] \<and> 0 \<le> sint n then Some n else pg_get_cursor True db d t' a' p')"
    "pg_get_cursor True db (pg_clear_cursors True db d t p) t' a' p' =
      (if t' = t \<and> p' = p then None else pg_get_cursor True db d t' a' p')"
proof -
  have get: "pg_get_cursor True db d t a p = offsets d (tenant_uuid t) (aggregate_uuid a) p" if "up d" for d t a p
    by (cases "offsets d (tenant_uuid t) (aggregate_uuid a) p") (simp_all add: pg_get_cursor_def select_offset [OF that])
  have inj: "(tenant_uuid t' = tenant_uuid t) = (t' = t)" "(aggregate_uuid a' = aggregate_uuid a) = (a' = a)"
    by (auto intro: TenantId.expand AggregateId.expand)
  show "pg_get_cursor True db (pg_update_cursor True db d t a p n) t' a' p' =
      (if t' = t \<and> a' = a \<and> p' = p \<and> p \<noteq> [] \<and> 0 \<le> sint n then Some n else pg_get_cursor True db d t' a' p')"
    using upsert_offset [OF assms, of "tenant_uuid t" "aggregate_uuid a" p n] assms by (auto simp: get pg_update_cursor_def inj)
  show "pg_get_cursor True db (pg_clear_cursors True db d t p) t' a' p' =
      (if t' = t \<and> p' = p then None else pg_get_cursor True db d t' a' p')"
    using clear_offsets [OF assms, of "tenant_uuid t" p] assms by (auto simp: get pg_clear_cursors_def inj)
qed

end

subsection \<open>Tables\<close>

text \<open>Rows newest first.\<close>

record ReadTables =
  tb_stock :: "((uuid \<times> uuid) \<times> string \<times> i64) list"
  tb_offsets :: "((uuid \<times> uuid \<times> string) \<times> i64) list"

definition read_tables :: "ReadTables ReadDb" where
  "read_tables = \<lparr>
     rdb_select_stock = (\<lambda>d t i. Inr (map_option (stock_row_of i) (map_of (tb_stock d) (t, i)))),
     rdb_list_stock = (\<lambda>d t. Inr (map (\<lambda>((_, i), r). stock_row_of i r) (filter (\<lambda>x. fst (fst x) = t) (AList.clearjunk (tb_stock d))))),
     rdb_upsert_stock = (\<lambda>d t i name q. if name = [] then (d, Inl ''inventory_stock_name_not_empty'')
       else (d\<lparr>tb_stock := ((t, i), name, q) # tb_stock d\<rparr>, Inr ())),
     rdb_clear_tenant_read_models = (\<lambda>d t. (d\<lparr>tb_stock := filter (\<lambda>x. fst (fst x) \<noteq> t) (tb_stock d)\<rparr>, Inr ())),
     rdb_select_offset = (\<lambda>d t a p. Inr (map_option Some (map_of (tb_offsets d) (t, a, p)))),
     rdb_upsert_offset = (\<lambda>d t a p n. if p = [] \<or> sint n < 0 then (d, Inl ''projection_offsets_check'')
       else (d\<lparr>tb_offsets := ((t, a, p), n) # tb_offsets d\<rparr>, Inr ())),
     rdb_clear_tenant_offsets = (\<lambda>d t p. (d\<lparr>tb_offsets := filter (\<lambda>x. \<not> (fst (fst x) = t \<and> snd (snd (fst x)) = p)) (tb_offsets d)\<rparr>, Inr ())) \<rparr>"

lemma map_of_filter_key: "map_of (filter (\<lambda>x. P (fst x)) xs) k = (if P k then map_of xs k else None)"
  by (induction xs) auto

lemma clearjunk_rows:
  "(x, r) \<in> set (AList.clearjunk xs) \<longleftrightarrow> map_of xs x = Some r"
  by (metis distinct_clearjunk map_of_clearjunk map_of_eq_Some_iff)

interpretation tables: read_database read_tables "\<lambda>d t i. map_of (tb_stock d) (t, i)"
    "\<lambda>d t a p. map_of (tb_offsets d) (t, a, p)" "\<lambda>_. True"
proof (unfold_locales, goal_cases)
  case (2 d t)
  have "set (map (\<lambda>((_, i), r). stock_row_of i r) (filter (\<lambda>x. fst (fst x) = t) (AList.clearjunk (tb_stock d)))) =
      {stock_row_of i r | i r. map_of (tb_stock d) (t, i) = Some r}"
  proof -
    have "{x \<in> set (AList.clearjunk (tb_stock d)). fst (fst x) = t} = {((t, i), r) | i r. map_of (tb_stock d) (t, i) = Some r}"
      by (auto simp: clearjunk_rows)
    then show ?thesis by (auto simp: image_def)
  qed
  then show ?case by (simp add: read_tables_def)
qed (auto simp: read_tables_def fun_eq_iff map_of_filter_key [of "\<lambda>x. fst x \<noteq> _"]
    map_of_filter_key [of "\<lambda>x. fst x = _ \<longrightarrow> snd (snd x) \<noteq> _"])

subsection \<open>Properties\<close>



text \<open>The cursors: numbers of \<^verbatim>\<open>2^63\<close> and above and unnamed projections are refused without a word.\<close>

theorem postgres_cursor_contract:
  assumes "read_database db stock offsets up" "up d"
  shows "cs_get_cursor (PostgresCursorStore True db) (cs_update_cursor (PostgresCursorStore True db) d t a p n) t' a' p' =
      (if t' = t \<and> a' = a \<and> p' = p \<and> p \<noteq> [] \<and> 0 \<le> sint n then Some n
       else cs_get_cursor (PostgresCursorStore True db) d t' a' p') \<and>
    cs_get_cursor (PostgresCursorStore True db) (cs_clear_cursors (PostgresCursorStore True db) d t p) t' a' p' =
      (if t' = t \<and> p' = p then None else cs_get_cursor (PostgresCursorStore True db) d t' a' p')"
  using read_database.pg_cursor [OF assms] by (simp add: PostgresCursorStore_def)

end
