(* ===== verification/Event_Bus.thy ===== *)
theory Event_Bus
  imports Event_Store
begin

text \<open>
  The event bus contract (\<^verbatim>\<open>events/src/bus.rs\<close>), its in-memory implementation
  (\<^verbatim>\<open>events/src/in_memory_bus.rs\<close>) over \<^verbatim>\<open>std::sync::mpsc\<close> channels, and the projection
  runner (\<^verbatim>\<open>events/src/runner.rs\<close>).

  A channel is a queue with a flag that says whether its receiver still exists; the bus
  holds the senders, the subscriptions the receivers.  The locale \<^verbatim>\<open>event_bus\<close> is what the
  dispatcher relies on.
\<close>

subsection \<open>Channels and the in-memory bus\<close>

record 'm Channel =
  ch_queue :: "'m list"
  ch_receiver_alive :: bool

record 'm InMemoryEventBus =
  bus_channels :: "nat \<Rightarrow> 'm Channel"
  bus_next :: nat
  bus_subscribers :: "nat list"
  bus_poisoned :: bool

datatype InMemoryBusError = Poisoned

definition bus_new :: "'m InMemoryEventBus" where
  "bus_new = \<lparr> bus_channels = (\<lambda>_. \<lparr> ch_queue = [], ch_receiver_alive = False \<rparr>),
     bus_next = 0, bus_subscribers = [], bus_poisoned = False \<rparr>"

text \<open>\<^verbatim>\<open>Sender::send\<close> fails when the receiver was dropped.\<close>

definition channel_send :: "(nat \<Rightarrow> 'm Channel) \<Rightarrow> nat \<Rightarrow> 'm \<Rightarrow> (nat \<Rightarrow> 'm Channel) \<times> bool" where
  "channel_send chans tx m =
    (if ch_receiver_alive (chans tx)
     then (chans(tx := (chans tx)\<lparr>ch_queue := ch_queue (chans tx) @ [m]\<rparr>), True)
     else (chans, False))"

text \<open>\<^verbatim>\<open>subs.retain(|tx| tx.send(message.clone()).is_ok())\<close>\<close>

primrec retain_send :: "(nat \<Rightarrow> 'm Channel) \<Rightarrow> nat list \<Rightarrow> 'm \<Rightarrow> (nat \<Rightarrow> 'm Channel) \<times> nat list" where
  "retain_send chans [] m = (chans, [])"
| "retain_send chans (tx # txs) m =
     (let (chans', sent) = channel_send chans tx m;
          (chans'', kept) = retain_send chans' txs m
      in (chans'', if sent then tx # kept else kept))"

definition bus_publish ::
    "'m InMemoryEventBus \<Rightarrow> 'm \<Rightarrow> 'm InMemoryEventBus \<times> (InMemoryBusError + unit)" where
  "bus_publish self message =
    (if bus_poisoned self then (self, Inl Poisoned)
     else (let (chans, subs) = retain_send (bus_channels self) (bus_subscribers self) message in
       (self\<lparr>bus_channels := chans, bus_subscribers := subs\<rparr>, Inr ())))"

definition bus_subscribe :: "'m InMemoryEventBus \<Rightarrow> 'm InMemoryEventBus \<times> nat" where
  "bus_subscribe self =
    (let rx = bus_next self;
         self' = self\<lparr>bus_channels := (bus_channels self)
                        (rx := \<lparr> ch_queue = [], ch_receiver_alive = True \<rparr>),
                      bus_next := rx + 1\<rparr>
     in ((if bus_poisoned self then self'
          else self'\<lparr>bus_subscribers := bus_subscribers self @ [rx]\<rparr>), rx))"

text \<open>The receiving side: \<^verbatim>\<open>try_recv\<close>, and dropping the subscription.\<close>

datatype TryRecvError = Empty | Disconnected

definition sub_try_recv ::
    "'m InMemoryEventBus \<Rightarrow> nat \<Rightarrow> 'm InMemoryEventBus \<times> (TryRecvError + 'm)" where
  "sub_try_recv self rx =
    (case ch_queue (bus_channels self rx) of
       m # ms \<Rightarrow> (self\<lparr>bus_channels := (bus_channels self)
                          (rx := (bus_channels self rx)\<lparr>ch_queue := ms\<rparr>)\<rparr>, Inr m)
     | [] \<Rightarrow> (self, Inl (if rx \<in> set (bus_subscribers self) then Empty else Disconnected)))"

definition sub_drop :: "'m InMemoryEventBus \<Rightarrow> nat \<Rightarrow> 'm InMemoryEventBus" where
  "sub_drop self rx =
     self\<lparr>bus_channels := (bus_channels self)(rx := \<lparr> ch_queue = [], ch_receiver_alive = False \<rparr>)\<rparr>"

subsection \<open>The contract of the bus\<close>

text \<open>The loop of a publisher over several messages: it stops at the first failure.\<close>

primrec publish_all :: "('b \<Rightarrow> 'm \<Rightarrow> 'b \<times> ('err + unit)) \<Rightarrow> 'b \<Rightarrow> 'm list \<Rightarrow> 'b \<times> ('err + unit)" where
  "publish_all publish b [] = (b, Inr ())"
| "publish_all publish b (m # ms) =
     (case publish b m of
        (b', Inl err) \<Rightarrow> (b', Inl err)
      | (b', Inr _) \<Rightarrow> publish_all publish b' ms)"

locale event_bus =
  fixes publish :: "'b \<Rightarrow> 'm \<Rightarrow> 'b \<times> ('err + unit)"
    and live :: "'b \<Rightarrow> nat set"
    and queued :: "'b \<Rightarrow> nat \<Rightarrow> 'm list"
    and invar :: "'b \<Rightarrow> bool"
  assumes publish_invar: "invar b \<Longrightarrow> invar (fst (publish b m))"
    and publish_live: "invar b \<Longrightarrow> live (fst (publish b m)) = live b"
    and publish_ok: "\<lbrakk> invar b; publish b m = (b', Inr ()) \<rbrakk> \<Longrightarrow>
      queued b' i = queued b i @ (if i \<in> live b then [m] else [])"
    and publish_error: "publish b m = (b', Inl err) \<Longrightarrow> queued b' i = queued b i"
begin

text \<open>What a run of the loop delivered: a prefix of the messages, in order, to every live
  subscriber; all of them exactly when it reports success.\<close>

lemma publish_all_delivers:
  assumes "invar b" "publish_all publish b ms = (b', r)"
  shows "\<exists>k \<le> length ms. (r = Inr () \<longrightarrow> k = length ms) \<and> invar b' \<and> live b' = live b \<and>
    (\<forall>i. queued b' i = queued b i @ (if i \<in> live b then take k ms else []))"
  using assms
proof (induction ms arbitrary: b)
  case (Cons m ms)
  obtain b1 r1 where p: "publish b m = (b1, r1)" by fastforce
  have b1: "invar b1" "live b1 = live b"
    using publish_invar [OF Cons.prems(1), of m] publish_live [OF Cons.prems(1), of m] p by simp_all
  show ?case
  proof (cases r1)
    case (Inl err)
    then show ?thesis
      using Cons.prems(2) p b1 publish_error [of b m b1 err]
      by (intro exI [of _ 0]) auto
  next
    case (Inr u)
    then have q: "queued b1 i = queued b i @ (if i \<in> live b then [m] else [])" for i
      using publish_ok [OF Cons.prems(1)] p by (cases u) simp
    have "publish_all publish b1 ms = (b', r)"
      using Cons.prems(2) p Inr by simp
    from Cons.IH [OF b1(1) this] obtain k where
      "k \<le> length ms" "r = Inr () \<longrightarrow> k = length ms" "invar b'" "live b' = live b1"
      "\<forall>i. queued b' i = queued b1 i @ (if i \<in> live b1 then take k ms else [])" by blast
    then show ?thesis
      using b1 q by (intro exI [of _ "Suc k"]) auto
  qed
qed auto

end

subsection \<open>The in-memory bus satisfies it\<close>

definition bus_live :: "'m InMemoryEventBus \<Rightarrow> nat set" where
  "bus_live b = {i \<in> set (bus_subscribers b). ch_receiver_alive (bus_channels b i)}"

definition bus_queued :: "'m InMemoryEventBus \<Rightarrow> nat \<Rightarrow> 'm list" where
  "bus_queued b i = ch_queue (bus_channels b i)"

definition bus_invar :: "'m InMemoryEventBus \<Rightarrow> bool" where
  "bus_invar b \<longleftrightarrow> distinct (bus_subscribers b) \<and> (\<forall>i \<in> set (bus_subscribers b). i < bus_next b)"

lemma bus_new_invar [simp]: "bus_invar bus_new"
  by (simp add: bus_invar_def bus_new_def)

lemma retain_send_spec:
  assumes "distinct txs" "retain_send chans txs m = (chans', kept)"
  shows "kept = filter (\<lambda>i. ch_receiver_alive (chans i)) txs"
    "ch_receiver_alive (chans' i) = ch_receiver_alive (chans i)"
    "ch_queue (chans' i) = ch_queue (chans i) @
       (if i \<in> set txs \<and> ch_receiver_alive (chans i) then [m] else [])"
proof -
  have "kept = filter (\<lambda>i. ch_receiver_alive (chans i)) txs \<and>
    (\<forall>i. ch_receiver_alive (chans' i) = ch_receiver_alive (chans i) \<and>
       ch_queue (chans' i) = ch_queue (chans i) @
         (if i \<in> set txs \<and> ch_receiver_alive (chans i) then [m] else []))"
    using assms
  proof (induction txs arbitrary: chans kept)
    case (Cons tx txs)
    obtain chans1 sent where s: "channel_send chans tx m = (chans1, sent)" by fastforce
    obtain kept1 where r: "retain_send chans1 txs m = (chans', kept1)"
      and k: "kept = (if sent then tx # kept1 else kept1)"
      using Cons.prems(2) s by (auto split: prod.splits)
    from Cons.IH [OF _ r] Cons.prems(1)
    have ih: "kept1 = filter (\<lambda>i. ch_receiver_alive (chans1 i)) txs"
      "\<forall>i. ch_receiver_alive (chans' i) = ch_receiver_alive (chans1 i)"
      "\<forall>i. ch_queue (chans' i) = ch_queue (chans1 i) @
        (if i \<in> set txs \<and> ch_receiver_alive (chans1 i) then [m] else [])" by auto
    have c: "sent = ch_receiver_alive (chans tx)"
      "\<forall>i. ch_receiver_alive (chans1 i) = ch_receiver_alive (chans i)"
      "\<forall>i. ch_queue (chans1 i) = ch_queue (chans i) @ (if i = tx \<and> sent then [m] else [])"
      using s by (auto simp: channel_send_def split: if_splits)
    show ?case using ih c k Cons.prems(1) by auto
  qed auto
  then show "kept = filter (\<lambda>i. ch_receiver_alive (chans i)) txs"
    "ch_receiver_alive (chans' i) = ch_receiver_alive (chans i)"
    "ch_queue (chans' i) = ch_queue (chans i) @
       (if i \<in> set txs \<and> ch_receiver_alive (chans i) then [m] else [])" by auto
qed

lemma bus_publish_cases:
  assumes "bus_invar b"
  obtains (poisoned) "bus_publish b m = (b, Inl Poisoned)"
  | (sent) b' where "bus_publish b m = (b', Inr ())" "bus_invar b'" "bus_live b' = bus_live b"
      "bus_subscribers b' = filter (\<lambda>i. ch_receiver_alive (bus_channels b i)) (bus_subscribers b)"
      "\<And>i. bus_queued b' i = bus_queued b i @ (if i \<in> bus_live b then [m] else [])"
proof (cases "bus_poisoned b")
  case True
  then show thesis by (intro poisoned) (simp add: bus_publish_def)
next
  case False
  obtain chans subs where r: "retain_send (bus_channels b) (bus_subscribers b) m = (chans, subs)"
    by fastforce
  have d: "distinct (bus_subscribers b)" using assms by (simp add: bus_invar_def)
  note spec = retain_send_spec [OF d r]
  show thesis
  proof (rule sent)
    show "bus_publish b m = (b\<lparr>bus_channels := chans, bus_subscribers := subs\<rparr>, Inr ())"
      using False r by (simp add: bus_publish_def)
  qed (use assms spec in \<open>auto simp: bus_invar_def bus_live_def bus_queued_def\<close>)
qed

interpretation in_memory_bus: event_bus bus_publish bus_live bus_queued bus_invar
proof
  fix b :: "'m InMemoryEventBus" and m
  assume b: "bus_invar b"
  show "bus_invar (fst (bus_publish b m))"
    by (rule bus_publish_cases [OF b, of m]) (simp_all add: b)
  show "bus_live (fst (bus_publish b m)) = bus_live b"
    by (rule bus_publish_cases [OF b, of m]) simp_all
next
  fix b b' :: "'m InMemoryEventBus" and m i
  assume b: "bus_invar b" and p: "bus_publish b m = (b', Inr ())"
  show "bus_queued b' i = bus_queued b i @ (if i \<in> bus_live b then [m] else [])"
    by (rule bus_publish_cases [OF b, of m]) (use p in simp_all)
next
  fix b b' :: "'m InMemoryEventBus" and m err i
  show "bus_publish b m = (b', Inl err) \<Longrightarrow> bus_queued b' i = bus_queued b i"
    by (auto simp: bus_publish_def split: if_splits prod.splits)
qed

subsection \<open>Projection runner\<close>

record ProjectionCursor =
  pcu_tenant_id :: TenantId
  pcu_last_sequence_number :: u64

datatype ProjectionError =
    TenantMismatch TenantId TenantId
  | NonMonotonicSequence u64 u64

record 'p ProjectionRunner =
  rn_projection :: 'p
  rn_cursor :: "ProjectionCursor option"

definition runner_new :: "'p \<Rightarrow> 'p ProjectionRunner" where
  "runner_new projection = \<lparr> rn_projection = projection, rn_cursor = None \<rparr>"

definition runner_new_for_tenant :: "TenantId \<Rightarrow> 'p \<Rightarrow> 'p ProjectionRunner" where
  "runner_new_for_tenant tenant_id projection = \<lparr> rn_projection = projection,
     rn_cursor = Some \<lparr> pcu_tenant_id = tenant_id, pcu_last_sequence_number = 0 \<rparr> \<rparr>"

definition runner_apply ::
    "('p \<Rightarrow> 'j EventEnvelope \<Rightarrow> 'p) \<Rightarrow> 'p ProjectionRunner \<Rightarrow> 'j EventEnvelope \<Rightarrow>
     'p ProjectionRunner \<times> (ProjectionError + unit)" where
  "runner_apply papply self envelope =
    (let found_tenant = ee_tenant_id envelope; found_seq = ee_sequence_number envelope in
     case rn_cursor self of
       None \<Rightarrow>
         (self\<lparr>rn_projection := papply (rn_projection self) envelope,
               rn_cursor := Some \<lparr> pcu_tenant_id = found_tenant,
                                   pcu_last_sequence_number = found_seq \<rparr>\<rparr>, Inr ())
     | Some c \<Rightarrow>
         if pcu_tenant_id c \<noteq> found_tenant
           then (self, Inl (TenantMismatch (pcu_tenant_id c) found_tenant))
         else if found_seq \<le> pcu_last_sequence_number c
           then (self, Inl (NonMonotonicSequence (pcu_last_sequence_number c) found_seq))
         else (self\<lparr>rn_projection := papply (rn_projection self) envelope,
                    rn_cursor := Some (c\<lparr>pcu_last_sequence_number := found_seq\<rparr>)\<rparr>, Inr ()))"

primrec runner_run ::
    "('p \<Rightarrow> 'j EventEnvelope \<Rightarrow> 'p) \<Rightarrow> 'p ProjectionRunner \<Rightarrow> 'j EventEnvelope list \<Rightarrow>
     'p ProjectionRunner \<times> (ProjectionError + unit)" where
  "runner_run papply self [] = (self, Inr ())"
| "runner_run papply self (env # envs) =
     (case runner_apply papply self env of
        (self', Inl err) \<Rightarrow> (self', Inl err)
      | (self', Inr _) \<Rightarrow> runner_run papply self' envs)"

definition rebuild_from_scratch ::
    "('p \<Rightarrow> 'j EventEnvelope \<Rightarrow> 'p) \<Rightarrow> (unit \<Rightarrow> 'p) \<Rightarrow> 'j EventEnvelope list \<Rightarrow>
     ProjectionError + ('p \<times> ProjectionCursor option)" where
  "rebuild_from_scratch papply factory envelopes =
    (case runner_run papply (runner_new (factory ())) envelopes of
       (runner, Inl err) \<Rightarrow> Inl err
     | (runner, Inr _) \<Rightarrow> Inr (rn_projection runner, rn_cursor runner))"

text \<open>The envelopes a runner may accept from a cursor: one tenant, strictly increasing.\<close>

fun accepts :: "ProjectionCursor option \<Rightarrow> 'j EventEnvelope list \<Rightarrow> bool" where
  "accepts c [] = True"
| "accepts None (e # es) =
     accepts (Some \<lparr> pcu_tenant_id = ee_tenant_id e, pcu_last_sequence_number = ee_sequence_number e \<rparr>) es"
| "accepts (Some c) (e # es) =
     (pcu_tenant_id c = ee_tenant_id e \<and> pcu_last_sequence_number c < ee_sequence_number e \<and>
      accepts (Some (c\<lparr>pcu_last_sequence_number := ee_sequence_number e\<rparr>)) es)"

definition last_cursor :: "ProjectionCursor option \<Rightarrow> 'j EventEnvelope list \<Rightarrow> ProjectionCursor option" where
  "last_cursor c es = (if es = [] then c else
     Some \<lparr> pcu_tenant_id = ee_tenant_id (last es), pcu_last_sequence_number = ee_sequence_number (last es) \<rparr>)"

lemma runner_run_prefix:
  assumes "runner_run papply r es = (r', res)"
  shows "\<exists>k \<le> length es. accepts (rn_cursor r) (take k es) \<and>
    rn_projection r' = foldl papply (rn_projection r) (take k es) \<and>
    rn_cursor r' = last_cursor (rn_cursor r) (take k es) \<and>
    (res = Inr () \<longleftrightarrow> k = length es) \<and>
    (k < length es \<longrightarrow> \<not> accepts (rn_cursor r) (take (Suc k) es))"
  using assms
proof (induction es arbitrary: r)
  case Nil
  then show ?case by (auto simp: last_cursor_def)
next
  case (Cons e es)
  obtain r1 res1 where a: "runner_apply papply r e = (r1, res1)" by fastforce
  show ?case
  proof (cases res1)
    case (Inl err)
    have "\<not> accepts (rn_cursor r) [e]" "r1 = r"
      using a Inl by (auto simp: runner_apply_def Let_def split: option.splits if_splits)
    moreover have "r' = r1" "res = Inl err" using Cons.prems a Inl by simp_all
    ultimately show ?thesis by (intro exI [of _ 0]) (simp add: last_cursor_def)
  next
    case (Inr u)
    have p: "rn_projection r1 = papply (rn_projection r) e"
      "rn_cursor r1 = last_cursor (rn_cursor r) [e]"
      "\<And>es. accepts (rn_cursor r) (e # es) \<longleftrightarrow> accepts (rn_cursor r1) es"
      using a Inr by (auto simp: runner_apply_def Let_def last_cursor_def not_le split: option.splits if_splits)
    have "runner_run papply r1 es = (r', res)" using Cons.prems a Inr by simp
    from Cons.IH [OF this] obtain k where k: "k \<le> length es" "accepts (rn_cursor r1) (take k es)"
      "rn_projection r' = foldl papply (rn_projection r1) (take k es)"
      "rn_cursor r' = last_cursor (rn_cursor r1) (take k es)"
      "res = Inr () \<longleftrightarrow> k = length es"
      "k < length es \<longrightarrow> \<not> accepts (rn_cursor r1) (take (Suc k) es)" by blast
    have "last_cursor (last_cursor (rn_cursor r) [e]) xs = last_cursor (rn_cursor r) (e # xs)" for xs
      by (simp add: last_cursor_def)
    then show ?thesis
      using k p by (intro exI [of _ "Suc k"]) simp
  qed
qed

lemma runner_run_ok_iff:
  "(\<exists>r'. runner_run papply r es = (r', Inr ())) \<longleftrightarrow> accepts (rn_cursor r) es"
proof -
  obtain r' res where r: "runner_run papply r es = (r', res)" by fastforce
  obtain k where k: "k \<le> length es" "accepts (rn_cursor r) (take k es)"
    "res = Inr () \<longleftrightarrow> k = length es"
    "k < length es \<longrightarrow> \<not> accepts (rn_cursor r) (take (Suc k) es)"
    using runner_run_prefix [OF r] by blast
  have mono: "accepts c es \<Longrightarrow> accepts c (take n es)" for c n and es :: "'b EventEnvelope list"
    by (induction c es arbitrary: n rule: accepts.induct) (auto simp: take_Cons split: nat.splits)
  show ?thesis
    using k r mono [of "rn_cursor r" es] by (cases "k = length es") auto
qed

subsection \<open>Properties\<close>

text \<open>Publishing a sequence of messages on an in-memory bus whose lock is not poisoned
  succeeds and appends exactly these messages, in order, to the queue of every subscriber whose
  receiver is alive and to no other queue; subscribers whose receiver is gone are removed.\<close>

theorem publish_delivers_in_order:
  assumes "bus_invar b" "\<not> bus_poisoned b"
  shows "\<exists>b'. publish_all bus_publish b ms = (b', Inr ()) \<and>
    (\<forall>i. bus_queued b' i = bus_queued b i @ (if i \<in> bus_live b then ms else [])) \<and>
    (ms \<noteq> [] \<longrightarrow> set (bus_subscribers b') = bus_live b)"
  using assms
proof (induction ms arbitrary: b)
  case (Cons m ms)
  have np: "bus_publish b m \<noteq> (b, Inl Poisoned)"
    using Cons.prems(2) by (auto simp: bus_publish_def split: prod.splits)
  then obtain b1 where b1: "bus_publish b m = (b1, Inr ())" "bus_invar b1" "bus_live b1 = bus_live b"
    "bus_subscribers b1 = filter (\<lambda>i. ch_receiver_alive (bus_channels b i)) (bus_subscribers b)"
    "\<And>i. bus_queued b1 i = bus_queued b i @ (if i \<in> bus_live b then [m] else [])"
    using bus_publish_cases [OF Cons.prems(1), of m] by metis
  have "\<not> bus_poisoned b1"
    using b1(1) Cons.prems(2) by (auto simp: bus_publish_def split: prod.splits)
  from Cons.IH [OF b1(2) this] obtain b' where b': "publish_all bus_publish b1 ms = (b', Inr ())"
    "\<forall>i. bus_queued b' i = bus_queued b1 i @ (if i \<in> bus_live b1 then ms else [])"
    "ms \<noteq> [] \<longrightarrow> set (bus_subscribers b') = bus_live b1" by blast
  have "set (bus_subscribers b1) = bus_live b" using b1(4) by (simp add: bus_live_def)
  then have "set (bus_subscribers b') = bus_live b"
    using b'(1,3) b1(3) by (cases "ms = []") auto
  then show ?case using b' b1 by (intro exI [of _ b']) auto
qed auto

theorem publish_delivers_in_order_witness:
  "\<exists>b'. publish_all bus_publish (fst (bus_subscribe bus_new)) [1 :: nat, 2] = (b', Inr ()) \<and>
    bus_queued b' 0 = [1, 2]"
proof -
  let ?b = "fst (bus_subscribe bus_new) :: nat InMemoryEventBus"
  have "bus_invar ?b" "\<not> bus_poisoned ?b"
    by (simp_all add: bus_invar_def bus_subscribe_def bus_new_def)
  from publish_delivers_in_order [OF this, of "[1, 2]"] show ?thesis
    by (auto simp: bus_queued_def bus_live_def bus_subscribe_def bus_new_def)
qed

text \<open>A projection runner processes exactly the longest prefix of the envelopes that belongs
  to one tenant with strictly increasing sequence numbers above its cursor: the projection is the
  fold of its \<^verbatim>\<open>apply\<close> over that prefix, the cursor names the prefix's last envelope, and the
  run succeeds exactly when the prefix is everything.\<close>

theorem runner_processes_valid_prefix:
  assumes "runner_run papply r es = (r', res)"
  shows "\<exists>k \<le> length es. accepts (rn_cursor r) (take k es) \<and>
    rn_projection r' = foldl papply (rn_projection r) (take k es) \<and>
    rn_cursor r' = last_cursor (rn_cursor r) (take k es) \<and>
    (res = Inr () \<longleftrightarrow> k = length es) \<and>
    (k < length es \<longrightarrow> \<not> accepts (rn_cursor r) (take (Suc k) es))"
  using assms by (rule runner_run_prefix)

definition ex_env :: "u64 \<Rightarrow> nat EventEnvelope" where
  "ex_env n = envelope_new 3 (TenantId 1) (AggregateId 7) ''x'' n 0"

theorem runner_processes_valid_prefix_witness:
  "\<exists>k \<le> length [ex_env 1, ex_env 2, ex_env 2].
     accepts (rn_cursor (runner_new (0 :: nat))) (take k [ex_env 1, ex_env 2, ex_env 2])"
proof -
  obtain r' res where "runner_run (\<lambda>n _. n + 1) (runner_new (0 :: nat)) [ex_env 1, ex_env 2, ex_env 2]
    = (r', res)" by fastforce
  from runner_processes_valid_prefix [OF this] show ?thesis by blast
qed

end
