(* ===== verification/Dispatcher.thy ===== *)
theory Dispatcher
  imports Event_Bus "HOL-Library.Sublist"
begin

text \<open>
  The command dispatcher (\<^verbatim>\<open>infra/src/command_dispatcher.rs\<close>): load the history, check it,
  rehydrate the aggregate, decide, append under the loaded version, publish.  The store, the
  bus, the aggregate and serde are arguments, as the type parameters are in the source.

  \<^verbatim>\<open>dispatch\<close> is split where the source crosses from reading to writing:
  \<^verbatim>\<open>dispatch_prepare\<close> is everything up to the uncommitted batch, \<^verbatim>\<open>dispatch_commit\<close> the
  append and the publication.  Other clients may run between the two.
\<close>

subsection \<open>Errors\<close>

datatype DispatchError =
    Concurrency string
  | TenantIsolation string
  | Validation string
  | InvariantViolation string
  | Unauthorized
  | NotFound
  | Deserialize string
  | Store EventStoreError
  | Publish string

fun dispatch_error_of_store :: "EventStoreError \<Rightarrow> DispatchError" where
  "dispatch_error_of_store (EventStoreError.Concurrency msg) = DispatchError.Concurrency msg"
| "dispatch_error_of_store (EventStoreError.TenantIsolation msg) = DispatchError.TenantIsolation msg"
| "dispatch_error_of_store value = Store value"

fun dispatch_error_of_domain :: "DomainError \<Rightarrow> DispatchError" where
  "dispatch_error_of_domain (DomainError.Validation msg) = DispatchError.Validation msg"
| "dispatch_error_of_domain (DomainError.InvariantViolation msg) = DispatchError.InvariantViolation msg"
| "dispatch_error_of_domain (Conflict msg) = DispatchError.Concurrency msg"
| "dispatch_error_of_domain DomainError.Unauthorized = DispatchError.Unauthorized"
| "dispatch_error_of_domain DomainError.NotFound = DispatchError.NotFound"
| "dispatch_error_of_domain (InvalidId msg) = DispatchError.Validation msg"

subsection \<open>Operations\<close>

text \<open>Serialisation of the events of an aggregate (serde), with errors rendered.\<close>

record ('e, 'j) Serde =
  sd_to_value :: "'e \<Rightarrow> string + 'j"
  sd_from_value :: "'j \<Rightarrow> string + 'e"

text \<open>The documented behaviour of derived serde implementations: what was serialised
  deserialises to the same value.\<close>

definition serde_ok :: "('e, 'j) Serde \<Rightarrow> bool" where
  "serde_ok sd \<longleftrightarrow> (\<forall>e j. sd_to_value sd e = Inr j \<longrightarrow> sd_from_value sd j = Inr e)"

definition stream_version :: "'j StoredEvent list \<Rightarrow> u64" where
  "stream_version stream = (if stream = [] then 0 else se_sequence_number (last stream))"

primrec validate_loop ::
    "TenantId \<Rightarrow> AggregateId \<Rightarrow> nat \<Rightarrow> u64 \<Rightarrow> 'j StoredEvent list \<Rightarrow> DispatchError + unit" where
  "validate_loop tenant_id aggregate_id idx lst [] = Inr ()"
| "validate_loop tenant_id aggregate_id idx lst (e # es) =
    (if se_tenant_id e \<noteq> tenant_id
       then Inl (DispatchError.TenantIsolation
              (''loaded stream contains wrong tenant_id at index '' @ show_nat idx))
     else if se_aggregate_id e \<noteq> aggregate_id
       then Inl (DispatchError.TenantIsolation
              (''loaded stream contains wrong aggregate_id at index '' @ show_nat idx))
     else if se_sequence_number e = 0
       then Inl (Store (InvalidAppend ''stored event has sequence_number=0''))
     else if se_sequence_number e \<le> lst
       then Inl (Store (InvalidAppend (''non-monotonic sequence_number in loaded stream (last=''
              @ show_u64 lst @ '', found='' @ show_u64 (se_sequence_number e) @ '')'')))
     else validate_loop tenant_id aggregate_id (Suc idx) (se_sequence_number e) es)"

definition validate_loaded_stream ::
    "TenantId \<Rightarrow> AggregateId \<Rightarrow> 'j StoredEvent list \<Rightarrow> DispatchError + unit" where
  "validate_loaded_stream tenant_id aggregate_id stream = validate_loop tenant_id aggregate_id 0 0 stream"

primrec apply_sorted ::
    "('s \<Rightarrow> 'e \<Rightarrow> 's) \<Rightarrow> ('j \<Rightarrow> string + 'e) \<Rightarrow> 's \<Rightarrow> 'j StoredEvent list \<Rightarrow> DispatchError + 's" where
  "apply_sorted evolve from_value aggr [] = Inr aggr"
| "apply_sorted evolve from_value aggr (stored # rest) =
     and_then (map_err Deserialize (from_value (se_payload stored))) (\<lambda>ev.
       apply_sorted evolve from_value (evolve aggr ev) rest)"

definition apply_history ::
    "('s \<Rightarrow> 'e \<Rightarrow> 's) \<Rightarrow> ('j \<Rightarrow> string + 'e) \<Rightarrow> 's \<Rightarrow> 'j StoredEvent list \<Rightarrow> DispatchError + 's" where
  "apply_history evolve from_value aggr history =
     apply_sorted evolve from_value aggr (sort_key se_sequence_number history)"

text \<open>Steps 1 to 3 and the construction of the batch.  The k-th event of the batch gets the
  identifier \<^verbatim>\<open>new_id k\<close> (\<^verbatim>\<open>Uuid::now_v7()\<close>).\<close>

definition dispatch_prepare ::
    "('st \<Rightarrow> TenantId \<Rightarrow> AggregateId \<Rightarrow> EventStoreError + 'j StoredEvent list) \<Rightarrow>
     ('s, 'e, 'c) AggregateOps \<Rightarrow> ('e, 'j) Serde \<Rightarrow> (nat \<Rightarrow> uuid) \<Rightarrow> 'st \<Rightarrow>
     TenantId \<Rightarrow> AggregateId \<Rightarrow> string \<Rightarrow> 'c \<Rightarrow> (TenantId \<Rightarrow> AggregateId \<Rightarrow> 's) \<Rightarrow>
     DispatchError + ('j UncommittedEvent list \<times> ExpectedVersion)" where
  "dispatch_prepare load agg sd new_id store tenant_id aggregate_id aggregate_type command make_aggregate =
    and_then (map_err dispatch_error_of_store (load store tenant_id aggregate_id)) (\<lambda>history.
    and_then (validate_loaded_stream tenant_id aggregate_id history) (\<lambda>_.
    and_then (apply_history (ao_apply agg) (sd_from_value sd)
                (make_aggregate tenant_id aggregate_id) history) (\<lambda>aggr.
    and_then (map_err dispatch_error_of_domain (ao_handle agg aggr command)) (\<lambda>decided.
    and_then (map_err dispatch_error_of_store (collect_results
                (\<lambda>(k, ev). from_typed (sd_to_value sd) (ao_event_type agg) (ao_event_version agg)
                   (ao_occurred_at agg) tenant_id aggregate_id aggregate_type (new_id k) ev)
                (enumerate 0 decided))) (\<lambda>uncommitted.
      Inr (uncommitted, Exact (stream_version history)))))))"

text \<open>Steps 4 and 5.  With nothing decided the source returns before the append.\<close>

definition dispatch_commit ::
    "('st \<Rightarrow> 'j UncommittedEvent list \<Rightarrow> ExpectedVersion \<Rightarrow>
        'st \<times> (EventStoreError + 'j StoredEvent list)) \<Rightarrow>
     ('b \<Rightarrow> 'j EventEnvelope \<Rightarrow> 'b \<times> ('berr + unit)) \<Rightarrow> ('berr \<Rightarrow> string) \<Rightarrow>
     'st \<times> 'b \<Rightarrow> 'j UncommittedEvent list \<Rightarrow> ExpectedVersion \<Rightarrow>
     ('st \<times> 'b) \<times> (DispatchError + 'j StoredEvent list)" where
  "dispatch_commit append_ev publish show_err sb uncommitted expected =
    (if uncommitted = [] then (sb, Inr [])
     else (case append_ev (fst sb) uncommitted expected of
         (store', Inl err) \<Rightarrow> ((store', snd sb), Inl (dispatch_error_of_store err))
       | (store', Inr committed) \<Rightarrow>
           (case publish_all publish (snd sb) (map to_envelope committed) of
              (bus', Inl err) \<Rightarrow> ((store', bus'), Inl (DispatchError.Publish (show_err err)))
            | (bus', Inr _) \<Rightarrow> ((store', bus'), Inr committed))))"

definition dispatch ::
    "('st \<Rightarrow> 'j UncommittedEvent list \<Rightarrow> ExpectedVersion \<Rightarrow>
        'st \<times> (EventStoreError + 'j StoredEvent list)) \<Rightarrow>
     ('st \<Rightarrow> TenantId \<Rightarrow> AggregateId \<Rightarrow> EventStoreError + 'j StoredEvent list) \<Rightarrow>
     ('b \<Rightarrow> 'j EventEnvelope \<Rightarrow> 'b \<times> ('berr + unit)) \<Rightarrow> ('berr \<Rightarrow> string) \<Rightarrow>
     ('s, 'e, 'c) AggregateOps \<Rightarrow> ('e, 'j) Serde \<Rightarrow> (nat \<Rightarrow> uuid) \<Rightarrow> 'st \<times> 'b \<Rightarrow>
     TenantId \<Rightarrow> AggregateId \<Rightarrow> string \<Rightarrow> 'c \<Rightarrow> (TenantId \<Rightarrow> AggregateId \<Rightarrow> 's) \<Rightarrow>
     ('st \<times> 'b) \<times> (DispatchError + 'j StoredEvent list)" where
  "dispatch append_ev load publish show_err agg sd new_id sb tenant_id aggregate_id aggregate_type
     command make_aggregate =
    (case dispatch_prepare load agg sd new_id (fst sb) tenant_id aggregate_id aggregate_type command
            make_aggregate of
       Inl err \<Rightarrow> (sb, Inl err)
     | Inr (uncommitted, expected) \<Rightarrow>
         dispatch_commit append_ev publish show_err sb uncommitted expected)"

subsection \<open>Reading a well-formed stream\<close>

lemma stream_version_eq: "stream_version es = current_version es"
  by (simp add: stream_version_def current_version_def)

text \<open>Sequence numbers of a well-formed stream are strictly increasing as long as they fit.\<close>

lemma stream_ok_nth_seq:
  assumes "stream_ok t a es" "i < length es"
  shows "se_sequence_number (es ! i) = of_nat (Suc i)"
proof -
  have "map se_sequence_number es ! i = map of_nat [1..<Suc (length es)] ! i"
    using assms(1) by (simp add: stream_ok_def)
  then show ?thesis using assms(2) by (simp del: upt_Suc)
qed

lemma sort_stream:
  assumes "stream_ok t a es" "length es < 2 ^ 64"
  shows "sort_key se_sequence_number es = es"
proof (rule sort_key_id_if_sorted)
  show "sorted (map se_sequence_number es)"
    unfolding sorted_iff_nth_mono_less
  proof (intro allI impI)
    fix i j assume "i < j" "j < length (map se_sequence_number es)"
    then show "map se_sequence_number es ! i \<le> map se_sequence_number es ! j"
      using assms of_nat64_less [of "Suc i" "Suc j"]
      by (simp add: stream_ok_nth_seq [OF assms(1)] less_imp_le del: of_nat_Suc)
  qed
qed

lemma validate_loop_ok:
  assumes "\<And>i. i < length es \<Longrightarrow> se_tenant_id (es ! i) = t \<and> se_aggregate_id (es ! i) = a \<and>
      se_sequence_number (es ! i) = of_nat (n + Suc i)" "n + length es < 2 ^ 64"
  shows "validate_loop t a k (of_nat n) es = Inr ()"
  using assms
proof (induction es arbitrary: n k)
  case (Cons e es)
  have e: "se_tenant_id e = t" "se_aggregate_id e = a" "se_sequence_number e = of_nat (Suc n)"
    using Cons.prems(1) [of 0] by simp_all
  have nz: "(of_nat (Suc n) :: u64) \<noteq> 0"
    using of_nat64_inj [of "Suc n" 0] Cons.prems(2) by (auto simp del: of_nat_Suc)
  have lt: "(of_nat n :: u64) < of_nat (Suc n)"
    using Cons.prems(2) by (intro of_nat64_less) simp_all
  have "validate_loop t a (Suc k) (of_nat (Suc n)) es = Inr ()"
  proof (rule Cons.IH)
    fix i assume "i < length es"
    then show "se_tenant_id (es ! i) = t \<and> se_aggregate_id (es ! i) = a \<and>
        se_sequence_number (es ! i) = of_nat (Suc n + Suc i)"
      using Cons.prems(1) [of "Suc i"] by simp
  qed (use Cons.prems(2) in simp)
  then show ?case using e nz lt by (simp del: of_nat_Suc)
qed simp

lemma validate_stream:
  assumes "stream_ok t a es" "length es < 2 ^ 64"
  shows "validate_loaded_stream t a es = Inr ()"
proof -
  have "validate_loop t a 0 (of_nat 0) es = Inr ()"
  proof (rule validate_loop_ok)
    fix i assume i: "i < length es"
    then have "es ! i \<in> set es" by simp
    then show "se_tenant_id (es ! i) = t \<and> se_aggregate_id (es ! i) = a \<and>
        se_sequence_number (es ! i) = of_nat (0 + Suc i)"
      using assms(1) stream_ok_nth_seq [OF assms(1) i] by (auto simp: stream_ok_def)
  qed (use assms(2) in simp)
  then show ?thesis by (simp add: validate_loaded_stream_def)
qed

text \<open>The domain events a stream stands for.\<close>

definition decodes :: "('e, 'j) Serde \<Rightarrow> 'j StoredEvent list \<Rightarrow> 'e list \<Rightarrow> bool" where
  "decodes sd es h \<longleftrightarrow> list_all2 (\<lambda>s e. sd_from_value sd (se_payload s) = Inr e) es h"

lemma decodes_Nil [simp]: "decodes sd [] h \<longleftrightarrow> h = []"
  by (simp add: decodes_def)

lemma decodes_Cons:
  "decodes sd (s # es) h \<longleftrightarrow>
     (\<exists>e h'. h = e # h' \<and> sd_from_value sd (se_payload s) = Inr e \<and> decodes sd es h')"
  by (auto simp: decodes_def list_all2_Cons1)

lemma decodes_append:
  assumes "decodes sd es h" "decodes sd es' h'"
  shows "decodes sd (es @ es') (h @ h')"
  using assms unfolding decodes_def by (rule list_all2_appendI)

lemma decodes_unique:
  assumes "decodes sd es h" "decodes sd es h'"
  shows "h = h'"
  using assms unfolding decodes_def
  by (induction es arbitrary: h h') (auto simp: list_all2_Cons1)

lemma apply_sorted_ok:
  "apply_sorted evolve (sd_from_value sd) s es = Inr s' \<longleftrightarrow>
     (\<exists>h. decodes sd es h \<and> s' = foldl evolve s h)"
proof (induction es arbitrary: s)
  case (Cons x es)
  show ?case by (simp add: result_simps decodes_Cons Cons.IH) force
qed auto

lemma apply_history_ok:
  assumes "stream_ok t a es" "length es < 2 ^ 64"
  shows "apply_history evolve (sd_from_value sd) s es = Inr s' \<longleftrightarrow>
     (\<exists>h. decodes sd es h \<and> s' = foldl evolve s h)"
  unfolding apply_history_def sort_stream [OF assms] by (rule apply_sorted_ok)

subsection \<open>What preparation returns\<close>

text \<open>A batch encodes decided events for one stream.\<close>

definition encodes ::
    "('e, 'j) Serde \<Rightarrow> TenantId \<Rightarrow> AggregateId \<Rightarrow> string \<Rightarrow> 'e list \<Rightarrow> 'j UncommittedEvent list \<Rightarrow> bool" where
  "encodes sd t a ty es us \<longleftrightarrow>
     list_all2 (\<lambda>e u. sd_to_value sd e = Inr (ue_payload u) \<and> ue_tenant_id u = t \<and>
       ue_aggregate_id u = a \<and> ue_aggregate_type u = ty) es us"

lemma from_typed_ok:
  "from_typed tv et ver oc t a ty i e = Inr u \<longleftrightarrow>
     (\<exists>j. tv e = Inr j \<and> u = \<lparr> ue_event_id = i, ue_tenant_id = t, ue_aggregate_id = a,
        ue_aggregate_type = ty, ue_event_type = et e, ue_event_version = ver e,
        ue_occurred_at = oc e, ue_payload = j \<rparr>)"
  by (auto simp: from_typed_def result_simps)

lemma enumerate_encodes:
  assumes "list_all2 (\<lambda>x u. (case x of (k, ev) \<Rightarrow>
      from_typed (sd_to_value sd) et ver oc t a ty (new_id k) ev) = Inr u) (enumerate n es) us"
  shows "encodes sd t a ty es us"
  using assms unfolding encodes_def
  by (induction es arbitrary: n us) (auto simp: list_all2_Cons1 from_typed_ok)

lemma dispatch_prepare_ok:
  assumes "dispatch_prepare load agg sd new_id st t a ty cmd mk = Inr (us, ev)"
  obtains history aggr decided_events where
    "load st t a = Inr history" "validate_loaded_stream t a history = Inr ()"
    "apply_history (ao_apply agg) (sd_from_value sd) (mk t a) history = Inr aggr"
    "ao_handle agg aggr cmd = Inr decided_events"
    "encodes sd t a ty decided_events us" "ev = Exact (stream_version history)"
proof -
  from assms obtain history aggr decided_events where
    "load st t a = Inr history" "validate_loaded_stream t a history = Inr ()"
    "apply_history (ao_apply agg) (sd_from_value sd) (mk t a) history = Inr aggr"
    "ao_handle agg aggr cmd = Inr decided_events"
    "list_all2 (\<lambda>x u. (case x of (k, ev) \<Rightarrow>
      from_typed (sd_to_value sd) (ao_event_type agg) (ao_event_version agg)
        (ao_occurred_at agg) t a ty (new_id k) ev) = Inr u) (enumerate 0 decided_events) us"
    "ev = Exact (stream_version history)"
    by (auto simp: dispatch_prepare_def result_simps)
  then show thesis using that enumerate_encodes by blast
qed

lemma encodes_hd:
  assumes "encodes sd t a ty es us" "us \<noteq> []"
  shows "ue_tenant_id (hd us) = t" "ue_aggregate_id (hd us) = a"
  using assms by (auto simp: encodes_def neq_Nil_conv list_all2_Cons2)

text \<open>Committed events decode to what was decided.\<close>

lemma encodes_decodes:
  assumes "encodes sd t a ty es us" "serde_ok sd"
  shows "decodes sd (assign_sequence n us) es"
  using assms unfolding encodes_def decodes_def serde_ok_def
  by (induction es arbitrary: us n) (auto simp: list_all2_Cons1 store_event_def)

subsection \<open>The pipeline over any store and bus\<close>

locale dispatcher =
  es: event_store append_ev load stream sinvar +
  eb: event_bus publish live queued binvar
  for append_ev :: "'st \<Rightarrow> 'j UncommittedEvent list \<Rightarrow> ExpectedVersion \<Rightarrow>
      'st \<times> (EventStoreError + 'j StoredEvent list)"
    and load :: "'st \<Rightarrow> TenantId \<Rightarrow> AggregateId \<Rightarrow> EventStoreError + 'j StoredEvent list"
    and stream :: "'st \<Rightarrow> TenantId \<Rightarrow> AggregateId \<Rightarrow> 'j StoredEvent list"
    and sinvar :: "'st \<Rightarrow> bool"
    and publish :: "'b \<Rightarrow> 'j EventEnvelope \<Rightarrow> 'b \<times> ('berr + unit)"
    and live :: "'b \<Rightarrow> nat set"
    and queued :: "'b \<Rightarrow> nat \<Rightarrow> 'j EventEnvelope list"
    and binvar :: "'b \<Rightarrow> bool"
begin

text \<open>A failed dispatch has no effect unless it is the publication that failed.\<close>

lemma commit_error:
  assumes "dispatch_commit append_ev publish show_err (st, b) us ev = ((st', b'), Inl err)"
  shows "((\<forall>t a. stream st' t a = stream st t a) \<and> b' = b) \<or> (\<exists>msg. err = DispatchError.Publish msg)"
  using assms es.append_error
  by (fastforce simp: dispatch_commit_def split: if_splits prod.splits sum.splits)

lemma dispatch_error:
  assumes "dispatch append_ev load publish show_err agg sd new_id (st, b) t a ty c mk = ((st', b'), Inl err)"
  shows "((\<forall>t a. stream st' t a = stream st t a) \<and> b' = b) \<or> (\<exists>msg. err = DispatchError.Publish msg)"
  using assms commit_error by (auto simp: dispatch_def split: sum.splits prod.splits)

lemma commit_success:
  assumes "dispatch_commit append_ev publish show_err (st, b) us ev = ((st', b'), Inr cs)" "binvar b"
    "us \<noteq> []"
  shows "append_ev st us ev = (st', Inr cs)"
    "queued b' i = queued b i @ (if i \<in> live b then map to_envelope cs else [])"
proof -
  from assms(1,3) have ap: "append_ev st us ev = (st', Inr cs)"
    and pb: "publish_all publish b (map to_envelope cs) = (b', Inr ())"
    by (auto simp: dispatch_commit_def split: prod.splits sum.splits)
  show "append_ev st us ev = (st', Inr cs)" by (rule ap)
  show "queued b' i = queued b i @ (if i \<in> live b then map to_envelope cs else [])"
    using eb.publish_all_delivers [OF assms(2) pb] by auto
qed

lemma dispatch_success:
  assumes "dispatch append_ev load publish show_err agg sd new_id (st, b) t a ty c mk = ((st', b'), Inr cs)"
    "sinvar st" "binvar b" "serde_ok sd" "length (stream st t a) < 2 ^ 64"
  shows "\<exists>h d. decodes sd (stream st t a) h \<and>
      ao_handle agg (foldl (ao_apply agg) (mk t a) h) c = Inr d \<and> decodes sd cs d"
    "stream st' t' a' = stream st t' a' @ (if t' = t \<and> a' = a then cs else [])"
    "queued b' i = queued b i @ (if i \<in> live b then map to_envelope cs else [])"
proof -
  obtain us ev where p: "dispatch_prepare load agg sd new_id st t a ty c mk = Inr (us, ev)"
    and cm: "dispatch_commit append_ev publish show_err (st, b) us ev = ((st', b'), Inr cs)"
    using assms(1) by (auto simp: dispatch_def split: sum.splits prod.splits)
  from p obtain hist aggr d where l: "load st t a = Inr hist"
    and ah: "apply_history (ao_apply agg) (sd_from_value sd) (mk t a) hist = Inr aggr"
    and d: "ao_handle agg aggr c = Inr d" and enc: "encodes sd t a ty d us"
    by (rule dispatch_prepare_ok)
  have hist: "hist = stream st t a" using l by (rule es.load_stream_abs)
  obtain h where h: "decodes sd (stream st t a) h" "aggr = foldl (ao_apply agg) (mk t a) h"
    using iffD1 [OF apply_history_ok [OF es.stream_wf [OF assms(2)] assms(5)] ah [unfolded hist]]
    by blast
  have "decodes sd cs d \<and> stream st' t' a' = stream st t' a' @ (if t' = t \<and> a' = a then cs else []) \<and>
      queued b' i = queued b i @ (if i \<in> live b then map to_envelope cs else [])"
  proof (cases "us = []")
    case True
    then show ?thesis using cm enc by (auto simp: dispatch_commit_def encodes_def)
  next
    case False
    note ap = commit_success(1) [OF cm assms(3) False]
    have "decodes sd cs d"
      unfolding es.append_committed [OF ap False] by (rule encodes_decodes [OF enc assms(4)])
    then show ?thesis
      using es.append_stream [OF ap False, of t' a'] encodes_hd [OF enc False]
        commit_success(2) [OF cm assms(3) False] by auto
  qed
  then show "\<exists>h d. decodes sd (stream st t a) h \<and>
      ao_handle agg (foldl (ao_apply agg) (mk t a) h) c = Inr d \<and> decodes sd cs d"
    "stream st' t' a' = stream st t' a' @ (if t' = t \<and> a' = a then cs else [])"
    "queued b' i = queued b i @ (if i \<in> live b then map to_envelope cs else [])"
    using h d by auto
qed

end

interpretation in_memory_dispatcher:
  dispatcher append_events load_stream stream_of store_invar bus_publish bus_live bus_queued bus_invar
  by unfold_locales

subsection \<open>Progress\<close>

text \<open>Nothing but the domain can refuse a command when no lock is poisoned, the stream is
  this aggregate's and decodes, and the decided events serialise.\<close>

lemma append_events_succeeds:
  assumes "us \<noteq> []" "batch_ok us" "\<not> st_poisoned st"
    "es = stream_of st (ue_tenant_id (hd us)) (ue_aggregate_id (hd us))"
    "es = [] \<or> se_aggregate_type (hd es) = ue_aggregate_type (hd us)"
  shows "\<exists>st'. append_events st us (Exact (current_version es)) =
    (st', Inr (assign_sequence (current_version es + 1) us))"
proof -
  obtain u us' where us: "us = u # us'" using assms(1) by (cases us) auto
  have "check_all (check_batch_event (ue_tenant_id u) (ue_aggregate_id u) (ue_aggregate_type u)) us = Inr ()"
    unfolding check_batch_ok using assms(2) by (simp add: batch_ok_def us)
  then show ?thesis
    using assms(3-5) unfolding us
    by (simp add: append_events_def append_locked_def Let_def stream_of_def del: check_all_from.simps)
qed

lemma collect_from_typed:
  assumes "\<forall>e \<in> set d. \<exists>j. sd_to_value sd e = Inr j"
  shows "\<exists>us. collect_results (\<lambda>(k, ev). from_typed (sd_to_value sd) et ver oc t a ty (new_id k) ev)
    (enumerate n d) = Inr us"
  using assms
proof (induction d arbitrary: n)
  case (Cons e d)
  then obtain j us where "sd_to_value sd e = Inr j"
    "collect_results (\<lambda>(k, ev). from_typed (sd_to_value sd) et ver oc t a ty (new_id k) ev)
      (enumerate (Suc n) d) = Inr us" by fastforce
  then show ?case by (simp add: from_typed_def)
qed simp

lemma bus_publish_all_ok:
  assumes "\<not> bus_poisoned b"
  shows "\<exists>b'. publish_all bus_publish b ms = (b', Inr ())"
  using assms
  by (induction ms arbitrary: b) (auto simp: bus_publish_def split: prod.splits)

lemma encodes_batch_ok:
  assumes "encodes sd t a ty d us"
  shows "batch_ok us" "us \<noteq> [] \<Longrightarrow> ue_aggregate_type (hd us) = ty"
proof -
  have all: "\<forall>u \<in> set us. ue_tenant_id u = t \<and> ue_aggregate_id u = a \<and> ue_aggregate_type u = ty"
    using assms unfolding encodes_def by (induction rule: list_all2_induct) auto
  show "us \<noteq> [] \<Longrightarrow> ue_aggregate_type (hd us) = ty" using all by simp
  show "batch_ok us" using all unfolding batch_ok_def by (metis hd_in_set emptyE set_empty)
qed

lemma dispatch_progress:
  assumes "store_invar st" "\<not> st_poisoned st" "\<not> bus_poisoned b" "length (stream_of st t a) < 2 ^ 64"
    "\<forall>e \<in> set (stream_of st t a). se_aggregate_type e = ty"
    "decodes sd (stream_of st t a) h"
    "ao_handle agg (foldl (ao_apply agg) (mk t a) h) c = Inr d"
    "\<forall>e \<in> set d. \<exists>j. sd_to_value sd e = Inr j"
  shows "\<exists>st' b' cs. dispatch append_events load_stream bus_publish show_err agg sd new_id (st, b)
    t a ty c mk = ((st', b'), Inr cs)"
proof -
  let ?es = "stream_of st t a"
  have ok: "stream_ok t a ?es" using assms(1) by (simp add: store_invar_def)
  have ld: "load_stream st t a = Inr ?es" using assms(2) by (simp add: load_stream_def stream_of_def)
  have ah: "apply_history (ao_apply agg) (sd_from_value sd) (mk t a) ?es
      = Inr (foldl (ao_apply agg) (mk t a) h)"
    by (rule iffD2 [OF apply_history_ok [OF ok assms(4)]]) (use assms(6) in blast)
  obtain us where us: "collect_results (\<lambda>(k, ev). from_typed (sd_to_value sd) (ao_event_type agg)
      (ao_event_version agg) (ao_occurred_at agg) t a ty (new_id k) ev) (enumerate 0 d) = Inr us"
    using collect_from_typed [OF assms(8)] by blast
  have pr: "dispatch_prepare load_stream agg sd new_id st t a ty c mk
      = Inr (us, Exact (current_version ?es))"
    using ld validate_stream [OF ok assms(4)] ah assms(7) us
    by (simp add: dispatch_prepare_def stream_version_eq)
  have enc: "encodes sd t a ty d us"
    using us enumerate_encodes by (auto simp: collect_results_Inr)
  show ?thesis
  proof (cases "us = []")
    case True
    then show ?thesis using pr by (simp add: dispatch_def dispatch_commit_def)
  next
    case False
    have "\<exists>st'. append_events st us (Exact (current_version ?es))
        = (st', Inr (assign_sequence (current_version ?es + 1) us))"
    proof (rule append_events_succeeds [OF False encodes_batch_ok(1) [OF enc] assms(2)])
      show "?es = stream_of st (ue_tenant_id (hd us)) (ue_aggregate_id (hd us))"
        by (simp only: encodes_hd [OF enc False])
      show "?es = [] \<or> se_aggregate_type (hd ?es) = ue_aggregate_type (hd us)"
        using assms(5) encodes_batch_ok(2) [OF enc False] by (cases ?es) simp_all
    qed
    moreover obtain b' where "publish_all bus_publish b
        (map to_envelope (assign_sequence (current_version ?es + 1) us)) = (b', Inr ())"
      using bus_publish_all_ok [OF assms(3)] by blast
    ultimately show ?thesis
      using pr False by (auto simp: dispatch_def dispatch_commit_def)
  qed
qed

end
