(* ===== verification/Users.thy ===== *)
theory Users
  imports Core_Domain
begin

text \<open>
  The user aggregate (\<^verbatim>\<open>auth/src/user.rs\<close>) with the roles of \<^verbatim>\<open>auth/src/roles.rs\<close>:
  creation, role assignment with its escalation check, revocation, suspension and
  activation.  \<^verbatim>\<open>str::to_lowercase\<close>, which \<^verbatim>\<open>handle_create\<close> applies to the e-mail
  address, follows the Unicode case tables; it is the argument \<^verbatim>\<open>to_lowercase\<close> of the handlers.
\<close>

subsection \<open>Data\<close>

datatype Role = Role (role_str: string)

text \<open>The identifier of \<^verbatim>\<open>auth/src/user.rs\<close>, distinct from the one of \<^verbatim>\<open>core/src/id.rs\<close>.\<close>

datatype AuthUserId = AuthUserId (auth_user_uuid: uuid)

definition user_id_of_aggregate :: "AggregateId \<Rightarrow> AuthUserId" where
  "user_id_of_aggregate a = AuthUserId (aggregate_uuid a)"

definition aggregate_id_of_user :: "AuthUserId \<Rightarrow> AggregateId" where
  "aggregate_id_of_user u = AggregateId (auth_user_uuid u)"

datatype UserStatus = Active | Suspended

record User =
  us_id :: AuthUserId
  us_tenant_id :: "TenantId option"
  us_email :: string
  us_display_name :: string
  us_roles :: "Role list"
  us_status :: UserStatus
  us_version :: u64
  us_created :: bool

definition user_empty :: "AuthUserId \<Rightarrow> User" where
  "user_empty user_id = \<lparr> us_id = user_id, us_tenant_id = None, us_email = [], us_display_name = [],
     us_roles = [], us_status = UserStatus.Active, us_version = 0, us_created = False \<rparr>"

definition user_new :: "TenantId \<Rightarrow> AuthUserId \<Rightarrow> User" where
  "user_new tenant_id user_id = (user_empty user_id)\<lparr>us_tenant_id := Some tenant_id\<rparr>"

record CreateUser =
  cu_tenant_id :: TenantId
  cu_user_id :: AuthUserId
  cu_email :: string
  cu_display_name :: string
  cu_initial_roles :: "Role list"
  cu_occurred_at :: datetime

record AssignRole =
  ar_tenant_id :: TenantId
  ar_user_id :: AuthUserId
  ar_role :: Role
  ar_actor_roles :: "Role list"
  ar_occurred_at :: datetime

record RevokeRole =
  rr_tenant_id :: TenantId
  rr_user_id :: AuthUserId
  rr_role :: Role
  rr_occurred_at :: datetime

record SuspendUser =
  su_tenant_id :: TenantId
  su_user_id :: AuthUserId
  su_reason :: string
  su_occurred_at :: datetime

record ActivateUser =
  au_tenant_id :: TenantId
  au_user_id :: AuthUserId
  au_occurred_at :: datetime

datatype UserCommand =
    Create CreateUser
  | AssignRole AssignRole
  | RevokeRole RevokeRole
  | Suspend SuspendUser
  | Activate ActivateUser

record UserCreated =
  ucr_tenant_id :: TenantId
  ucr_user_id :: AuthUserId
  ucr_email :: string
  ucr_display_name :: string
  ucr_initial_roles :: "Role list"
  ucr_occurred_at :: datetime

record RoleAssigned =
  ras_tenant_id :: TenantId
  ras_user_id :: AuthUserId
  ras_role :: Role
  ras_occurred_at :: datetime

record RoleRevoked =
  rrv_tenant_id :: TenantId
  rrv_user_id :: AuthUserId
  rrv_role :: Role
  rrv_occurred_at :: datetime

record UserSuspended =
  usu_tenant_id :: TenantId
  usu_user_id :: AuthUserId
  usu_reason :: string
  usu_occurred_at :: datetime

record UserActivated =
  uac_tenant_id :: TenantId
  uac_user_id :: AuthUserId
  uac_occurred_at :: datetime

datatype UserEvent =
    Created UserCreated
  | RoleAssigned RoleAssigned
  | RoleRevoked RoleRevoked
  | Suspended UserSuspended
  | Activated UserActivated

primrec user_event_type :: "UserEvent \<Rightarrow> string" where
  "user_event_type (Created _) = ''auth.user.created''"
| "user_event_type (RoleAssigned _) = ''auth.user.role_assigned''"
| "user_event_type (RoleRevoked _) = ''auth.user.role_revoked''"
| "user_event_type (UserEvent.Suspended _) = ''auth.user.suspended''"
| "user_event_type (Activated _) = ''auth.user.activated''"

definition user_event_version :: "UserEvent \<Rightarrow> u32" where
  "user_event_version _ = 1"

primrec user_event_occurred_at :: "UserEvent \<Rightarrow> datetime" where
  "user_event_occurred_at (Created e) = ucr_occurred_at e"
| "user_event_occurred_at (RoleAssigned e) = ras_occurred_at e"
| "user_event_occurred_at (RoleRevoked e) = rrv_occurred_at e"
| "user_event_occurred_at (UserEvent.Suspended e) = usu_occurred_at e"
| "user_event_occurred_at (Activated e) = uac_occurred_at e"

subsection \<open>Operations\<close>

definition apply_created :: "User \<Rightarrow> UserCreated \<Rightarrow> User" where
  "apply_created self e = self\<lparr>us_id := ucr_user_id e, us_tenant_id := Some (ucr_tenant_id e),
     us_email := ucr_email e, us_display_name := ucr_display_name e,
     us_roles := ucr_initial_roles e, us_status := UserStatus.Active, us_created := True\<rparr>"

definition apply_role_assigned :: "User \<Rightarrow> RoleAssigned \<Rightarrow> User" where
  "apply_role_assigned self e = self\<lparr>us_roles := us_roles self @ [ras_role e]\<rparr>"

definition apply_role_revoked :: "User \<Rightarrow> RoleRevoked \<Rightarrow> User" where
  "apply_role_revoked self e =
     self\<lparr>us_roles := filter (\<lambda>r. role_str r \<noteq> role_str (rrv_role e)) (us_roles self)\<rparr>"

definition apply_suspended :: "User \<Rightarrow> UserSuspended \<Rightarrow> User" where
  "apply_suspended self e = self\<lparr>us_status := UserStatus.Suspended\<rparr>"

definition apply_activated :: "User \<Rightarrow> UserActivated \<Rightarrow> User" where
  "apply_activated self e = self\<lparr>us_status := UserStatus.Active\<rparr>"

definition user_apply :: "User \<Rightarrow> UserEvent \<Rightarrow> User" where
  "user_apply self event =
    (let self' = (case event of
         Created e \<Rightarrow> apply_created self e
       | RoleAssigned e \<Rightarrow> apply_role_assigned self e
       | RoleRevoked e \<Rightarrow> apply_role_revoked self e
       | UserEvent.Suspended e \<Rightarrow> apply_suspended self e
       | Activated e \<Rightarrow> apply_activated self e)
     in self'\<lparr>us_version := us_version self' + 1\<rparr>)"

definition user_ensure_tenant :: "User \<Rightarrow> TenantId \<Rightarrow> unit domain_result" where
  "user_ensure_tenant self tenant_id =
    (if \<not> us_created self then Inr ()
     else if us_tenant_id self \<noteq> Some tenant_id then Inl (InvariantViolation ''tenant mismatch'')
     else Inr ())"

definition ensure_not_suspended :: "User \<Rightarrow> unit domain_result" where
  "ensure_not_suspended self =
    (if us_status self = UserStatus.Suspended then Inl (InvariantViolation ''user is suspended'')
     else Inr ())"

definition user_handle_create ::
    "(string \<Rightarrow> string) \<Rightarrow> User \<Rightarrow> CreateUser \<Rightarrow> UserEvent list domain_result" where
  "user_handle_create to_lowercase self cmd =
    (if us_created self then Inl (InvariantViolation ''user already exists'')
     else if trim (cu_email cmd) = [] \<or> CHR ''@'' \<notin> set (cu_email cmd)
       then Inl (Validation ''invalid email format'')
     else if trim (cu_display_name cmd) = []
       then Inl (Validation ''display name cannot be empty'')
     else Inr [Created \<lparr> ucr_tenant_id = cu_tenant_id cmd, ucr_user_id = cu_user_id cmd,
                 ucr_email = to_lowercase (trim (cu_email cmd)),
                 ucr_display_name = trim (cu_display_name cmd),
                 ucr_initial_roles = cu_initial_roles cmd,
                 ucr_occurred_at = cu_occurred_at cmd \<rparr>])"

definition handle_assign_role :: "User \<Rightarrow> AssignRole \<Rightarrow> UserEvent list domain_result" where
  "handle_assign_role self cmd =
    (if \<not> us_created self then Inl NotFound
     else and_then (user_ensure_tenant self (ar_tenant_id cmd)) (\<lambda>_.
       and_then (ensure_not_suspended self) (\<lambda>_.
         if list_ex (\<lambda>r. role_str r = role_str (ar_role cmd)) (us_roles self)
           then Inl (InvariantViolation ''role already assigned'')
         else (let
           actor_has_admin = list_ex (\<lambda>r. role_str r = ''admin'') (ar_actor_roles cmd);
           actor_has_role = list_ex (\<lambda>r. role_str r = role_str (ar_role cmd)) (ar_actor_roles cmd)
         in if \<not> actor_has_admin \<and> \<not> actor_has_role then Inl Unauthorized
            else Inr [RoleAssigned \<lparr> ras_tenant_id = ar_tenant_id cmd, ras_user_id = ar_user_id cmd,
                        ras_role = ar_role cmd, ras_occurred_at = ar_occurred_at cmd \<rparr>]))))"

definition handle_revoke_role :: "User \<Rightarrow> RevokeRole \<Rightarrow> UserEvent list domain_result" where
  "handle_revoke_role self cmd =
    (if \<not> us_created self then Inl NotFound
     else and_then (user_ensure_tenant self (rr_tenant_id cmd)) (\<lambda>_.
       if \<not> list_ex (\<lambda>r. role_str r = role_str (rr_role cmd)) (us_roles self)
         then Inl (InvariantViolation ''role not assigned'')
       else Inr [RoleRevoked \<lparr> rrv_tenant_id = rr_tenant_id cmd, rrv_user_id = rr_user_id cmd,
                   rrv_role = rr_role cmd, rrv_occurred_at = rr_occurred_at cmd \<rparr>]))"

definition user_handle_suspend :: "User \<Rightarrow> SuspendUser \<Rightarrow> UserEvent list domain_result" where
  "user_handle_suspend self cmd =
    (if \<not> us_created self then Inl NotFound
     else and_then (user_ensure_tenant self (su_tenant_id cmd)) (\<lambda>_.
       if us_status self = UserStatus.Suspended
         then Inl (InvariantViolation ''user already suspended'')
       else Inr [UserEvent.Suspended \<lparr> usu_tenant_id = su_tenant_id cmd, usu_user_id = su_user_id cmd,
                   usu_reason = su_reason cmd, usu_occurred_at = su_occurred_at cmd \<rparr>]))"

definition user_handle_activate :: "User \<Rightarrow> ActivateUser \<Rightarrow> UserEvent list domain_result" where
  "user_handle_activate self cmd =
    (if \<not> us_created self then Inl NotFound
     else and_then (user_ensure_tenant self (au_tenant_id cmd)) (\<lambda>_.
       if us_status self = UserStatus.Active then Inl (InvariantViolation ''user already active'')
       else Inr [Activated \<lparr> uac_tenant_id = au_tenant_id cmd, uac_user_id = au_user_id cmd,
                   uac_occurred_at = au_occurred_at cmd \<rparr>]))"

primrec user_handle ::
    "(string \<Rightarrow> string) \<Rightarrow> User \<Rightarrow> UserCommand \<Rightarrow> UserEvent list domain_result" where
  "user_handle to_lowercase self (Create cmd) = user_handle_create to_lowercase self cmd"
| "user_handle to_lowercase self (AssignRole cmd) = handle_assign_role self cmd"
| "user_handle to_lowercase self (RevokeRole cmd) = handle_revoke_role self cmd"
| "user_handle to_lowercase self (Suspend cmd) = user_handle_suspend self cmd"
| "user_handle to_lowercase self (Activate cmd) = user_handle_activate self cmd"

definition user_ops :: "(string \<Rightarrow> string) \<Rightarrow> (User, UserEvent, UserCommand) AggregateOps" where
  "user_ops to_lowercase = \<lparr> ao_apply = user_apply, ao_handle = user_handle to_lowercase,
     ao_event_type = user_event_type, ao_event_version = user_event_version,
     ao_occurred_at = user_event_occurred_at \<rparr>"

lemmas user_defs [handler_defs] =
  user_ensure_tenant_def ensure_not_suspended_def user_handle_create_def handle_assign_role_def
  handle_revoke_role_def user_handle_suspend_def user_handle_activate_def

lemmas user_apply_defs =
  user_apply_def apply_created_def apply_role_assigned_def apply_role_revoked_def
  apply_suspended_def apply_activated_def

subsection \<open>Invariant\<close>

definition user_invar :: "User \<Rightarrow> bool" where
  "user_invar s \<longleftrightarrow>
     (us_created s \<longrightarrow> us_tenant_id s \<noteq> None \<and> us_display_name s \<noteq> []) \<and>
     (\<not> us_created s \<longrightarrow> us_roles s = [] \<and> us_status s = UserStatus.Active)"

lemma user_new_invar [simp]: "user_invar (user_new t i)" "user_invar (user_empty i)"
  by (simp_all add: user_invar_def user_new_def user_empty_def)

lemma role_str_eq_iff [simp]: "role_str r = role_str r' \<longleftrightarrow> r = r'"
  by (cases r; cases r') simp

lemma role_str_is: "role_str r = n \<longleftrightarrow> r = Role n"
  by (cases r) simp

lemma user_handle_shape:
  assumes "user_handle lc s c = Inr es"
  shows "(\<exists>cmd e. c = Create cmd \<and> es = [Created e] \<and> \<not> us_created s \<and>
       ucr_display_name e \<noteq> [] \<and> ucr_initial_roles e = cu_initial_roles cmd) \<or>
    (\<exists>cmd e. c = AssignRole cmd \<and> es = [RoleAssigned e] \<and> us_created s \<and>
       us_status s = UserStatus.Active \<and> us_tenant_id s = Some (ras_tenant_id e) \<and>
       ras_role e = ar_role cmd \<and> ar_role cmd \<notin> set (us_roles s) \<and>
       (Role ''admin'' \<in> set (ar_actor_roles cmd) \<or> ar_role cmd \<in> set (ar_actor_roles cmd))) \<or>
    (\<exists>cmd e. c = RevokeRole cmd \<and> es = [RoleRevoked e] \<and> us_created s \<and>
       us_tenant_id s = Some (rrv_tenant_id e) \<and> rrv_role e = rr_role cmd) \<or>
    (\<exists>cmd e. c = Suspend cmd \<and> es = [UserEvent.Suspended e] \<and> us_created s \<and>
       us_status s = UserStatus.Active \<and> us_tenant_id s = Some (usu_tenant_id e)) \<or>
    (\<exists>cmd e. c = Activate cmd \<and> es = [Activated e] \<and> us_created s \<and>
       us_status s = UserStatus.Suspended \<and> us_tenant_id s = Some (uac_tenant_id e))"
proof -
  have admin: "list_ex (\<lambda>r. role_str r = ''admin'') rs \<longleftrightarrow> Role ''admin'' \<in> set rs" for rs
    by (auto simp: list_ex_iff role_str_is)
  show ?thesis
    using assms
    by (cases c; cases "us_status s") (auto simp: user_defs result_simps Let_def admin list_ex_iff)
qed

lemma user_handle_cases:
  assumes "user_handle lc s c = Inr es"
  obtains (create) cmd e where "es = [Created e]" "c = Create cmd" "\<not> us_created s"
      "ucr_display_name e \<noteq> []" "ucr_initial_roles e = cu_initial_roles cmd"
  | (assign) cmd e where "es = [RoleAssigned e]" "c = AssignRole cmd" "us_created s"
      "us_status s = UserStatus.Active" "us_tenant_id s = Some (ras_tenant_id e)"
      "ras_role e = ar_role cmd" "ar_role cmd \<notin> set (us_roles s)"
      "Role ''admin'' \<in> set (ar_actor_roles cmd) \<or> ar_role cmd \<in> set (ar_actor_roles cmd)"
  | (revoke) cmd e where "es = [RoleRevoked e]" "c = RevokeRole cmd" "us_created s"
      "us_tenant_id s = Some (rrv_tenant_id e)" "rrv_role e = rr_role cmd"
  | (suspend) cmd e where "es = [UserEvent.Suspended e]" "c = Suspend cmd" "us_created s"
      "us_status s = UserStatus.Active" "us_tenant_id s = Some (usu_tenant_id e)"
  | (activate) cmd e where "es = [Activated e]" "c = Activate cmd" "us_created s"
      "us_status s = UserStatus.Suspended" "us_tenant_id s = Some (uac_tenant_id e)"
  using user_handle_shape [OF assms] by blast

definition user_owner :: "User \<Rightarrow> TenantId option" where
  "user_owner s = (if us_created s then us_tenant_id s else None)"

primrec user_event_tenant :: "UserEvent \<Rightarrow> TenantId" where
  "user_event_tenant (Created e) = ucr_tenant_id e"
| "user_event_tenant (RoleAssigned e) = ras_tenant_id e"
| "user_event_tenant (RoleRevoked e) = rrv_tenant_id e"
| "user_event_tenant (UserEvent.Suspended e) = usu_tenant_id e"
| "user_event_tenant (Activated e) = uac_tenant_id e"

interpretation user:
  tenant_aggregate user_apply "user_handle to_lowercase" us_version user_invar
    user_owner user_event_tenant for to_lowercase
proof
  fix s e
  show "us_version (user_apply s e) = us_version s + 1"
    by (cases e) (simp_all add: user_apply_defs)
next
  fix s c es
  assume "user_invar s" "user_handle to_lowercase s c = Inr es"
  then show "user_invar (foldl user_apply s es)"
    by (elim user_handle_cases) (auto simp: user_apply_defs user_invar_def)
next
  fix s c es e
  assume "user_handle to_lowercase s c = Inr es" "e \<in> set es"
  then show "user_owner (foldl user_apply s es) = Some (user_event_tenant e)"
    by (elim user_handle_cases) (auto simp: user_apply_defs user_owner_def)
next
  fix s c es t
  assume "user_handle to_lowercase s c = Inr es" "user_owner s = Some t"
  then show "user_owner (foldl user_apply s es) = Some t"
    by (elim user_handle_cases) (auto simp: user_apply_defs user_owner_def)
qed

subsection \<open>Roles\<close>

text \<open>The roles a command may add to a user.\<close>

primrec grantable :: "UserCommand \<Rightarrow> Role set" where
  "grantable (Create cmd) = set (cu_initial_roles cmd)"
| "grantable (AssignRole cmd) =
     (if Role ''admin'' \<in> set (ar_actor_roles cmd) then {ar_role cmd}
      else {ar_role cmd} \<inter> set (ar_actor_roles cmd))"
| "grantable (RevokeRole cmd) = {}"
| "grantable (Suspend cmd) = {}"
| "grantable (Activate cmd) = {}"

lemma execute_roles:
  "set (us_roles (fst (execute user_apply (user_handle lc) s c))) - set (us_roles s) \<subseteq> grantable c"
proof (cases "user_handle lc s c")
  case (Inr es)
  then show ?thesis
    by (rule user_handle_cases) (use Inr in \<open>auto simp: execute_def user_apply_defs\<close>)
qed (simp add: execute_def)

lemma suspended_roles:
  assumes "us_created s" "us_status s = UserStatus.Suspended"
  shows "set (us_roles (fst (execute user_apply (user_handle lc) s c))) \<subseteq> set (us_roles s)"
proof (cases "user_handle lc s c")
  case (Inr es)
  then show ?thesis
    by (rule user_handle_cases) (use Inr assms in \<open>auto simp: execute_def user_apply_defs\<close>)
qed (simp add: execute_def)

subsection \<open>Properties\<close>

text \<open>C39: no privilege escalation through commands on an existing user: whatever commands are
  executed, every role the user ends with was there before or was granted by an assignment
  whose actor held that role or the role \<^verbatim>\<open>admin\<close>.\<close>

theorem no_role_escalation:
  assumes "us_created s" "r \<in> set (us_roles (foldl (\<lambda>s c. fst (execute user_apply (user_handle lc) s c)) s cs))"
  shows "r \<in> set (us_roles s) \<or> (\<exists>cmd. AssignRole cmd \<in> set cs \<and> ar_role cmd = r \<and>
    (Role ''admin'' \<in> set (ar_actor_roles cmd) \<or> r \<in> set (ar_actor_roles cmd)))"
  using assms
proof (induction cs arbitrary: s)
  case (Cons c cs)
  let ?s1 = "fst (execute user_apply (user_handle lc) s c)"
  have cr: "us_created ?s1"
  proof (cases "user_handle lc s c")
    case (Inr es)
    then show ?thesis
      by (rule user_handle_cases) (use Inr Cons.prems(1) in \<open>auto simp: execute_def user_apply_defs\<close>)
  qed (use Cons.prems(1) in \<open>simp add: execute_def\<close>)
  have "r \<in> set (us_roles ?s1) \<Longrightarrow> r \<in> set (us_roles s) \<or> r \<in> grantable c"
    using execute_roles [of lc s c] by auto
  moreover have "r \<in> grantable c \<Longrightarrow> r \<in> set (us_roles ?s1) \<Longrightarrow> r \<notin> set (us_roles s) \<Longrightarrow>
      \<exists>cmd. c = AssignRole cmd \<and> ar_role cmd = r \<and>
        (Role ''admin'' \<in> set (ar_actor_roles cmd) \<or> r \<in> set (ar_actor_roles cmd))"
    using Cons.prems(1) by (cases c) (auto simp: execute_def user_defs split: if_splits)
  ultimately show ?case
    using Cons.IH [OF cr] Cons.prems(2) by fastforce
qed simp

theorem no_role_escalation_witness:
  "let s = (user_new (TenantId 1) (AuthUserId 7))\<lparr>us_created := True\<rparr>;
       cmd = \<lparr> ar_tenant_id = TenantId 1, ar_user_id = AuthUserId 7, ar_role = Role ''clerk'',
               ar_actor_roles = [Role ''admin''], ar_occurred_at = 5 \<rparr>
   in Role ''clerk'' \<in> set (us_roles s) \<or> (\<exists>c. AssignRole c \<in> set [AssignRole cmd] \<and>
     ar_role c = Role ''clerk'' \<and>
     (Role ''admin'' \<in> set (ar_actor_roles c) \<or> Role ''clerk'' \<in> set (ar_actor_roles c)))"
  unfolding Let_def by (rule no_role_escalation [where lc = id]) code_simp+

text \<open>Commands on a suspended user never extend its roles, and a successful revocation
  removes every occurrence of the role.\<close>

theorem suspension_and_revocation:
  assumes "us_created s"
  shows "(us_status s = UserStatus.Suspended \<longrightarrow>
       set (us_roles (fst (execute user_apply (user_handle lc) s c))) \<subseteq> set (us_roles s)) \<and>
    (is_ok (user_handle lc s (RevokeRole cmd)) \<longrightarrow>
       rr_role cmd \<notin> set (us_roles (fst (execute user_apply (user_handle lc) s (RevokeRole cmd)))))"
proof -
  have "rr_role cmd \<notin> set (us_roles (fst (execute user_apply (user_handle lc) s (RevokeRole cmd))))"
    if ok: "is_ok (user_handle lc s (RevokeRole cmd))"
  proof -
    obtain es where es: "user_handle lc s (RevokeRole cmd) = Inr es" using ok by (auto simp: is_ok_iff)
    then show ?thesis
      by (rule user_handle_cases) (use es in \<open>auto simp: execute_def user_apply_defs\<close>)
  qed
  then show ?thesis using suspended_roles [OF assms] by simp
qed

theorem suspension_and_revocation_witness:
  "let s = (user_new (TenantId 1) (AuthUserId 7))\<lparr>us_created := True, us_roles := [Role ''clerk'']\<rparr>;
       cmd = \<lparr> rr_tenant_id = TenantId 1, rr_user_id = AuthUserId 7, rr_role = Role ''clerk'',
               rr_occurred_at = 5 \<rparr>
   in rr_role cmd \<notin> set (us_roles (fst (execute user_apply (user_handle id) s (RevokeRole cmd))))"
proof -
  let ?s = "(user_new (TenantId 1) (AuthUserId 7))\<lparr>us_created := True, us_roles := [Role ''clerk'']\<rparr>"
  let ?cmd = "\<lparr> rr_tenant_id = TenantId 1, rr_user_id = AuthUserId 7, rr_role = Role ''clerk'',
               rr_occurred_at = 5 \<rparr>"
  have "is_ok (user_handle id ?s (RevokeRole ?cmd))" by code_simp
  moreover have "us_created ?s" by simp
  ultimately show ?thesis
    using suspension_and_revocation [of ?s id "RevokeRole ?cmd" ?cmd] unfolding Let_def by blast
qed

end
