(* ===== verification/Authorization.thy ===== *)
theory Authorization
  imports Users "HOL-Library.List_Lexorder" "HOL-Library.Char_ord"
begin

text \<open>
  Authentication and authorization: permissions and principals (\<^verbatim>\<open>auth/src/permissions.rs\<close>,
  \<^verbatim>\<open>auth/src/principal.rs\<close>), the policy check and its explanation
  (\<^verbatim>\<open>auth/src/authorize.rs\<close>), token claims (\<^verbatim>\<open>auth/src/claims.rs\<close>), the default
  role-permission mapping (\<^verbatim>\<open>infra/src/projections/users.rs\<close>), and the API's request
  contexts, middleware and command guard (\<^verbatim>\<open>api/src/context.rs\<close>,
  \<^verbatim>\<open>api/src/middleware.rs\<close>, \<^verbatim>\<open>api/src/authz.rs\<close>).

  A \<^verbatim>\<open>HashSet<String>\<close> is the list of its elements in insertion order; the order in which
  it is iterated is unspecified in Rust and is the argument \<^verbatim>\<open>iter\<close>, a function that
  permutes its argument.  Token decoding, the rendering of identifiers and the \<^verbatim>\<open>Debug\<close>
  rendering of string lists are arguments too.
\<close>

subsection \<open>Data\<close>

datatype Permission = Permission (perm_str: string)

definition is_wildcard :: "Permission \<Rightarrow> bool" where
  "is_wildcard self = (perm_str self = ''*'')"

text \<open>The administration permissions of \<^verbatim>\<open>permissions::admin\<close>.\<close>

definition all_user_permissions :: "Permission list" where
  "all_user_permissions = map Permission [''admin.users.create'', ''admin.users.list'',
     ''admin.users.read'', ''admin.users.assign_role'', ''admin.users.revoke_role'',
     ''admin.users.suspend'', ''admin.users.activate'']"

datatype PrincipalId = PrincipalId uuid

record TenantMembership =
  tm_tenant_id :: TenantId
  tm_roles :: "Role list"
  tm_permissions :: "Permission list"

record Principal =
  pn_principal_id :: PrincipalId
  pn_active_tenant_id :: TenantId
  pn_membership :: TenantMembership

datatype AuthzError = TenantMismatch | Forbidden string

datatype DenialKind = DenialTenantMismatch | MissingPermission

record DenialReason =
  dr_kind :: DenialKind
  dr_message :: string
  dr_suggestions :: "string list"

record PrincipalState =
  ps_principal_id :: PrincipalId
  ps_active_tenant_id :: TenantId
  ps_membership_tenant_id :: TenantId
  ps_roles :: "string list"
  ps_effective_permissions :: "string list"
  ps_has_wildcard :: bool

record AuthorizationExplanation =
  ax_required_permission :: string
  ax_granted :: bool
  ax_reason :: string
  ax_principal :: PrincipalState
  ax_denial_reason :: "DenialReason option"

subsection \<open>The policy check\<close>

definition authorize :: "Principal \<Rightarrow> Permission \<Rightarrow> AuthzError + unit" where
  "authorize prin required =
    (if pn_active_tenant_id prin \<noteq> tm_tenant_id (pn_membership prin)
       then Inl AuthzError.TenantMismatch
     else (let perms = map perm_str (tm_permissions (pn_membership prin)) in
       if ''*'' \<in> set perms \<or> perm_str required \<in> set perms then Inr ()
       else Inl (Forbidden (perm_str required))))"

definition hashset_insert :: "'a list \<Rightarrow> 'a \<Rightarrow> 'a list" where
  "hashset_insert s x = (if x \<in> set s then s else s @ [x])"

text \<open>Inserting, for each role in turn, every permission the mapping grants it.\<close>

definition role_perm_set :: "(string \<Rightarrow> string list) \<Rightarrow> string list \<Rightarrow> string list \<Rightarrow> string list" where
  "role_perm_set role_permissions roles s =
     foldl (\<lambda>s r. foldl hashset_insert s (role_permissions r)) s roles"

definition principal_state :: "Principal \<Rightarrow> string list \<Rightarrow> bool \<Rightarrow> PrincipalState" where
  "principal_state prin effective has_wildcard =
     \<lparr> ps_principal_id = pn_principal_id prin,
       ps_active_tenant_id = pn_active_tenant_id prin,
       ps_membership_tenant_id = tm_tenant_id (pn_membership prin),
       ps_roles = map role_str (tm_roles (pn_membership prin)),
       ps_effective_permissions = effective, ps_has_wildcard = has_wildcard \<rparr>"

definition explain_authorization ::
    "(string list \<Rightarrow> string list) \<Rightarrow> (TenantId \<Rightarrow> string) \<Rightarrow> (string list \<Rightarrow> string) \<Rightarrow>
     Principal \<Rightarrow> Permission \<Rightarrow> (string \<Rightarrow> string list) \<Rightarrow> AuthorizationExplanation" where
  "explain_authorization iter show_tenant debug_list prin required role_permissions =
    (let required_str = perm_str required; m = pn_membership prin in
     if pn_active_tenant_id prin \<noteq> tm_tenant_id m then
       \<lparr> ax_required_permission = required_str, ax_granted = False,
         ax_reason = ''Tenant mismatch: principal is active in tenant ''
           @ show_tenant (pn_active_tenant_id prin) @ '' but membership is for tenant ''
           @ show_tenant (tm_tenant_id m),
         ax_principal = principal_state prin (map perm_str (tm_permissions m))
           (list_ex is_wildcard (tm_permissions m)),
         ax_denial_reason = Some \<lparr> dr_kind = DenialTenantMismatch,
           dr_message = ''Principal is authenticated in a different tenant than their membership'',
           dr_suggestions =
             [''Verify the tenant_id in the JWT token matches the principal'' @ apostrophe
                @ ''s tenant membership'',
              ''Check that the principal has the correct tenant context for this operation''] \<rparr> \<rparr>
     else
       (let effective_perms = foldl hashset_insert
              (role_perm_set role_permissions (map role_str (tm_roles m)) [])
              (map perm_str (tm_permissions m));
            has_wildcard = ''*'' \<in> set effective_perms;
            has_required = required_str \<in> set effective_perms;
            effective_perms_list = sort (iter effective_perms)
        in
         if has_wildcard \<or> has_required then
           \<lparr> ax_required_permission = required_str, ax_granted = True,
             ax_reason = (if has_wildcard
               then ''Principal has wildcard permission '' @ apostrophe @ ''*'' @ apostrophe
                 @ '' (granted by admin role)''
               else ''Principal has explicit permission '' @ apostrophe @ required_str @ apostrophe),
             ax_principal = principal_state prin effective_perms_list has_wildcard,
             ax_denial_reason = None \<rparr>
         else
           (let granting_roles = filter (\<lambda>r. list_ex (\<lambda>p. p = required_str \<or> p = ''*'')
                  (role_permissions r)) (map role_str (tm_roles m));
                suggestions =
                  [''Assign a role that grants the '' @ apostrophe @ required_str @ apostrophe
                     @ '' permission'',
                   ''Grant the '' @ apostrophe @ required_str @ apostrophe
                     @ '' permission directly to the principal'']
            in
             \<lparr> ax_required_permission = required_str, ax_granted = False,
               ax_reason = ''Principal does not have permission '' @ apostrophe @ required_str
                 @ apostrophe @ ''. Current permissions: '' @ debug_list effective_perms_list,
               ax_principal = principal_state prin effective_perms_list False,
               ax_denial_reason = Some \<lparr> dr_kind = MissingPermission,
                 dr_message = ''Missing required permission: '' @ apostrophe @ required_str @ apostrophe,
                 dr_suggestions = (if granting_roles = [] then suggestions
                   else (''One of the following roles already assigned would grant this permission (check role-permission mapping): ''
                     @ debug_list granting_roles) # suggestions) \<rparr> \<rparr>)))"

subsection \<open>Registry of roles and permissions\<close>

record RoleDefinition =
  rd_name :: string
  rd_permissions :: "string list"
  rd_description :: "string option"

record PermissionDefinition =
  pd_name :: string
  pd_description :: "string option"
  pd_category :: "string option"

record RbacRegistry =
  rb_roles :: "string \<rightharpoonup> RoleDefinition"
  rb_permissions :: "string \<rightharpoonup> PermissionDefinition"

text \<open>\<^verbatim>\<open>str::split\<close> on a character and \<^verbatim>\<open>join\<close>.\<close>

fun split_on :: "char \<Rightarrow> string \<Rightarrow> string list" where
  "split_on c [] = [[]]"
| "split_on c (x # xs) =
     (if x = c then [] # split_on c xs
      else (case split_on c xs of p # ps \<Rightarrow> (x # p) # ps | [] \<Rightarrow> [[x]]))"

fun join_with :: "string \<Rightarrow> string list \<Rightarrow> string" where
  "join_with sep [] = []"
| "join_with sep [x] = x"
| "join_with sep (x # y # ys) = x @ sep @ join_with sep (y # ys)"

definition role_description :: "string \<Rightarrow> string option" where
  "role_description role =
    (if role = ''admin'' then Some ''Full system administrator with all permissions''
     else if role = ''manager'' then Some ''Business manager with broad operational permissions''
     else if role = ''accountant'' then Some ''Financial specialist with ledger and invoicing access''
     else if role = ''salesperson'' then Some ''Sales staff with customer and order management''
     else if role = ''warehouse'' then Some ''Warehouse staff with inventory and receiving access''
     else if role = ''user'' then Some ''Basic user with read-only access''
     else None)"

definition permission_description :: "string \<Rightarrow> string option" where
  "permission_description perm =
    (if perm = ''*'' then Some ''Wildcard permission - grants all permissions''
     else (let parts = split_on (CHR ''.'') perm in
       if 2 \<le> length parts then
         (let module = parts ! 0; action = last parts;
              resource = (if 2 < length parts then join_with ''.'' (butlast (tl parts)) else module);
              action_desc = (if action = ''read'' then ''View/list''
                else if action = ''write'' then ''Create/update/delete''
                else if action = ''create'' then ''Create new''
                else if action = ''list'' then ''List all'' else action)
          in Some (action_desc @ '' '' @ resource @ '' resources''))
       else None))"

definition permission_category :: "string \<Rightarrow> string option" where
  "permission_category perm =
    (if perm = ''*'' then Some ''system''
     else (let parts = split_on (CHR ''.'') perm in
       if parts \<noteq> [] then Some (parts ! 0) else None))"

definition known_roles :: "string list" where
  "known_roles = [''admin'', ''manager'', ''accountant'', ''salesperson'', ''warehouse'', ''user'']"

definition add_permission ::
    "(string \<rightharpoonup> PermissionDefinition) \<Rightarrow> string \<Rightarrow> (string \<rightharpoonup> PermissionDefinition)" where
  "add_permission permissions perm =
    (if permissions perm \<noteq> None then permissions
     else permissions(perm \<mapsto> \<lparr> pd_name = perm, pd_description = permission_description perm,
       pd_category = permission_category perm \<rparr>))"

definition from_role_mapping :: "(string \<Rightarrow> string list) \<Rightarrow> RbacRegistry" where
  "from_role_mapping role_permissions =
    (let (roles, permissions) = foldl (\<lambda>(roles, permissions) role_name.
       (let perms = role_permissions role_name in
        (roles(role_name \<mapsto> \<lparr> rd_name = role_name, rd_permissions = perms,
           rd_description = role_description role_name \<rparr>),
         foldl add_permission permissions perms))) (Map.empty, Map.empty) known_roles
     in \<lparr> rb_roles = roles, rb_permissions = permissions \<rparr>)"

subsection \<open>Token claims\<close>

record JwtClaims =
  jc_sub :: PrincipalId
  jc_tenant_id :: TenantId
  jc_roles :: "Role list"
  jc_issued_at :: datetime
  jc_expires_at :: datetime

datatype TokenValidationError =
  MissingToken | InvalidFormat | InvalidToken string | Expired | NotYetValid | InvalidTimeWindow

definition validate_claims :: "JwtClaims \<Rightarrow> datetime \<Rightarrow> TokenValidationError + unit" where
  "validate_claims claims now =
    (if jc_expires_at claims \<le> jc_issued_at claims then Inl InvalidTimeWindow
     else if now < jc_issued_at claims then Inl NotYetValid
     else if jc_expires_at claims \<le> now then Inl Expired
     else Inr ())"

text \<open>\<^verbatim>\<open>Hs256JwtValidator::validate\<close>: \<^verbatim>\<open>decode\<close> is \<^verbatim>\<open>jsonwebtoken::decode\<close> under the
  validator's secret, with expiry checks disabled.\<close>

definition jwt_validate ::
    "(string \<Rightarrow> string + JwtClaims) \<Rightarrow> string \<Rightarrow> datetime \<Rightarrow> TokenValidationError + JwtClaims" where
  "jwt_validate decode token now =
    (if trim token = [] then Inl MissingToken
     else and_then (map_err InvalidToken (decode token)) (\<lambda>claims.
       and_then (validate_claims claims now) (\<lambda>_. Inr claims)))"

subsection \<open>Request contexts, middleware and guard of the API\<close>

record TenantContext =
  tc_tenant_id :: TenantId

record PrincipalContext =
  pctx_principal_id :: PrincipalId
  pctx_roles :: "Role list"

datatype StatusCode =
    OK
  | CREATED
  | ACCEPTED
  | BAD_REQUEST
  | UNAUTHORIZED
  | FORBIDDEN
  | NOT_FOUND
  | CONFLICT
  | UNPROCESSABLE_ENTITY
  | INTERNAL_SERVER_ERROR
  | NOT_IMPLEMENTED
  | BAD_GATEWAY

text \<open>The header value is absent, not valid visible ASCII (\<^verbatim>\<open>to_str\<close> fails), or a string.\<close>

datatype HeaderValue = Opaque | Str string

definition extract_bearer :: "HeaderValue option \<Rightarrow> StatusCode + string" where
  "extract_bearer authorization =
    (case authorization of
       None \<Rightarrow> Inl UNAUTHORIZED
     | Some Opaque \<Rightarrow> Inl UNAUTHORIZED
     | Some (Str header) \<Rightarrow>
         (if take 7 header = ''Bearer '' then
            (let token = trim (drop 7 header) in
             if token = [] then Inl UNAUTHORIZED else Inr token)
          else Inl UNAUTHORIZED))"

text \<open>The contexts the middleware inserts before it runs the rest of the stack.\<close>

definition auth_middleware ::
    "(string \<Rightarrow> datetime \<Rightarrow> TokenValidationError + JwtClaims) \<Rightarrow> datetime \<Rightarrow> HeaderValue option \<Rightarrow>
     StatusCode + (TenantContext \<times> PrincipalContext)" where
  "auth_middleware validate now authorization =
    and_then (extract_bearer authorization) (\<lambda>token.
    and_then (map_err (\<lambda>_. UNAUTHORIZED) (validate token now)) (\<lambda>claims.
      Inr (\<lparr> tc_tenant_id = jc_tenant_id claims \<rparr>,
           \<lparr> pctx_principal_id = jc_sub claims, pctx_roles = jc_roles claims \<rparr>)))"

definition default_role_permissions :: "string \<Rightarrow> string list" where
  "default_role_permissions role =
    (if role = ''admin'' then [''*'']
     else if role = ''manager'' then
       [''inventory.read'', ''inventory.write'', ''products.read'', ''products.write'',
        ''sales.read'', ''sales.write'', ''invoices.read'', ''invoices.write'',
        ''purchases.read'', ''purchases.write'', ''parties.read'', ''parties.write'',
        ''ledger.read'', ''admin.users.list'', ''admin.users.read'']
     else if role = ''accountant'' then
       [''inventory.read'', ''products.read'', ''sales.read'', ''purchases.read'',
        ''parties.read'', ''ledger.read'', ''ledger.write'', ''invoices.read'', ''invoices.write'']
     else if role = ''salesperson'' then
       [''parties.read'', ''parties.write'', ''products.read'', ''sales.read'', ''sales.write'',
        ''invoices.read'']
     else if role = ''warehouse'' then
       [''inventory.read'', ''inventory.write'', ''products.read'', ''purchases.read'',
        ''purchases.write'']
     else if role = ''user'' then [''inventory.read'', ''products.read'']
     else [])"

definition permissions_from_roles ::
    "(string list \<Rightarrow> string list) \<Rightarrow> Role list \<Rightarrow> Permission list" where
  "permissions_from_roles iter roles =
     map Permission (iter (role_perm_set default_role_permissions (map role_str roles) []))"

primrec authorize_each :: "Principal \<Rightarrow> Permission list \<Rightarrow> AuthzError + unit" where
  "authorize_each prin [] = Inr ()"
| "authorize_each prin (perm # perms) =
     and_then (authorize prin perm) (\<lambda>_. authorize_each prin perms)"

definition authorize_command ::
    "(string list \<Rightarrow> string list) \<Rightarrow> TenantContext \<Rightarrow> PrincipalContext \<Rightarrow> Permission list \<Rightarrow>
     AuthzError + unit" where
  "authorize_command iter tenant prin required_permissions =
    (let membership = \<lparr> tm_tenant_id = tc_tenant_id tenant, tm_roles = pctx_roles prin,
           tm_permissions = permissions_from_roles iter (pctx_roles prin) \<rparr>;
         prin' = \<lparr> pn_principal_id = pctx_principal_id prin,
           pn_active_tenant_id = tc_tenant_id tenant, pn_membership = membership \<rparr>
     in authorize_each prin' required_permissions)"

subsection \<open>Lemmas\<close>

lemma set_hashset_insert [simp]: "set (hashset_insert s x) = insert x (set s)"
  by (auto simp: hashset_insert_def)

lemma set_foldl_insert [simp]: "set (foldl hashset_insert s xs) = set s \<union> set xs"
  by (induction xs arbitrary: s) auto

lemma set_role_perm_set [simp]:
  "set (role_perm_set f roles s) = set s \<union> (\<Union>r \<in> set roles. set (f r))"
  unfolding role_perm_set_def by (induction roles arbitrary: s) auto

lemma authorize_ok:
  "authorize p req = Inr () \<longleftrightarrow>
     pn_active_tenant_id p = tm_tenant_id (pn_membership p) \<and>
     (Permission ''*'' \<in> set (tm_permissions (pn_membership p)) \<or>
      req \<in> set (tm_permissions (pn_membership p)))"
proof -
  have "n \<in> perm_str ` set ps \<longleftrightarrow> Permission n \<in> set ps" for n ps
    by (force simp: image_iff intro: Permission.collapse [symmetric])
  then show ?thesis by (simp add: authorize_def Let_def)
qed

lemma authorize_each_ok:
  "authorize_each p perms = Inr () \<longleftrightarrow> (\<forall>perm \<in> set perms. authorize p perm = Inr ())"
  by (induction perms) (auto simp: result_simps)

lemma default_wildcard: "''*'' \<in> set (default_role_permissions r) \<longleftrightarrow> r = ''admin''"
  by (simp add: default_role_permissions_def)

lemma authorize_command_grants:
  assumes "iter_ok iter"
  shows "authorize_command iter tenant prin required = Inr () \<longleftrightarrow>
    (\<forall>p \<in> set required. Role ''admin'' \<in> set (pctx_roles prin) \<or>
       (\<exists>r \<in> set (pctx_roles prin). perm_str p \<in> set (default_role_permissions (role_str r))))"
proof -
  let ?perms = "set (permissions_from_roles iter (pctx_roles prin))"
  have mem: "Permission n \<in> ?perms \<longleftrightarrow>
      (\<exists>r \<in> set (pctx_roles prin). n \<in> set (default_role_permissions (role_str r)))" for n
    by (auto simp: permissions_from_roles_def iter_ok_set [OF assms])
  have "Permission ''*'' \<in> ?perms \<longleftrightarrow> Role ''admin'' \<in> set (pctx_roles prin)"
    unfolding mem default_wildcard by (auto simp: role_str_is)
  moreover have "p \<in> ?perms \<longleftrightarrow>
      (\<exists>r \<in> set (pctx_roles prin). perm_str p \<in> set (default_role_permissions (role_str r)))" for p
    using mem [of "perm_str p"] by simp
  ultimately show ?thesis
    by (auto simp: authorize_command_def Let_def authorize_each_ok authorize_ok)
qed

subsection \<open>Properties\<close>

text \<open>The command guard accepts exactly the principals one of whose roles is \<^verbatim>\<open>admin\<close> or, for
  each required permission, some role of which the default mapping grants it, whatever the
  iteration order of the permission set.\<close>

theorem authorize_command_iff:
  assumes "iter_ok iter"
  shows "authorize_command iter tenant prin required = Inr () \<longleftrightarrow>
    (\<forall>p \<in> set required. Role ''admin'' \<in> set (pctx_roles prin) \<or>
       (\<exists>r \<in> set (pctx_roles prin). perm_str p \<in> set (default_role_permissions (role_str r))))"
  using assms by (rule authorize_command_grants)

theorem authorize_command_iff_witness:
  "authorize_command id \<lparr> tc_tenant_id = TenantId 1 \<rparr>
     \<lparr> pctx_principal_id = PrincipalId 2, pctx_roles = [Role ''user'', Role ''warehouse''] \<rparr>
     [Permission ''inventory.write'', Permission ''products.read''] = Inr ()"
proof -
  have "iter_ok id" by (simp add: iter_ok_def)
  from authorize_command_iff [OF this] show ?thesis by (simp add: default_role_permissions_def)
qed

text \<open>The explanation agrees with the decision: for a principal whose membership lists the
  permissions its roles grant (as the API builds it), the explanation says granted exactly when
  \<^verbatim>\<open>authorize\<close> succeeds, a denial is given exactly when it does not, and the reported effective
  permissions are the sorted ones of roles and membership, whatever the iteration order.\<close>

theorem explanation_agrees_with_authorize:
  assumes "iter_ok iter"
    "\<forall>r \<in> set (tm_roles (pn_membership p)). set (f (role_str r)) \<subseteq> perm_str ` set (tm_permissions (pn_membership p))"
  shows "(ax_granted (explain_authorization iter show_tenant debug_list p req f) \<longleftrightarrow> authorize p req = Inr ()) \<and>
    (ax_denial_reason (explain_authorization iter show_tenant debug_list p req f) = None \<longleftrightarrow>
       authorize p req = Inr ()) \<and>
    explain_authorization iter show_tenant debug_list p req f =
      explain_authorization id show_tenant debug_list p req f"
proof -
  let ?m = "pn_membership p"
  have eff: "set (foldl hashset_insert (role_perm_set f (map role_str (tm_roles ?m)) [])
      (map perm_str (tm_permissions ?m))) = perm_str ` set (tm_permissions ?m)"
    using assms(2) by auto
  have "(ax_granted (explain_authorization iter show_tenant debug_list p req f) \<longleftrightarrow>
        authorize p req = Inr ()) \<and>
      (ax_denial_reason (explain_authorization iter show_tenant debug_list p req f) = None \<longleftrightarrow>
        authorize p req = Inr ())"
    unfolding explain_authorization_def authorize_def Let_def eff by simp
  moreover have "explain_authorization iter show_tenant debug_list p req f =
      explain_authorization id show_tenant debug_list p req f"
    unfolding explain_authorization_def Let_def iter_ok_sort [OF assms(1)] by simp
  ultimately show ?thesis by simp
qed

theorem explanation_agrees_with_authorize_witness:
  "let p = \<lparr> pn_principal_id = PrincipalId 2, pn_active_tenant_id = TenantId 1,
         pn_membership = \<lparr> tm_tenant_id = TenantId 1, tm_roles = [Role ''user''],
           tm_permissions = permissions_from_roles rev [Role ''user''] \<rparr> \<rparr>
   in ax_granted (explain_authorization rev (\<lambda>_. []) concat p (Permission ''ledger.write'')
        default_role_permissions) \<longleftrightarrow> authorize p (Permission ''ledger.write'') = Inr ()"
proof -
  let ?p = "\<lparr> pn_principal_id = PrincipalId 2, pn_active_tenant_id = TenantId 1,
         pn_membership = \<lparr> tm_tenant_id = TenantId 1, tm_roles = [Role ''user''],
           tm_permissions = permissions_from_roles rev [Role ''user''] \<rparr> \<rparr>"
  have "iter_ok rev" by (simp add: iter_ok_def)
  moreover have "\<forall>r \<in> set (tm_roles (pn_membership ?p)).
      set (default_role_permissions (role_str r)) \<subseteq> perm_str ` set (tm_permissions (pn_membership ?p))"
    by code_simp
  ultimately show ?thesis
    unfolding Let_def by (rule explanation_agrees_with_authorize [THEN conjunct1])
qed

text \<open>A request gets a tenant and principal context only from an \<^verbatim>\<open>Authorization: Bearer\<close>
  header whose token decodes to claims that are valid now: the contexts carry exactly the
  claims' tenant, subject and roles, and issue time \<le> now < expiry.\<close>

theorem middleware_contexts_from_valid_claims:
  assumes "auth_middleware (jwt_validate decode) now hdr = Inr (tc, pc)"
  shows "\<exists>v claims. hdr = Some (Str (''Bearer '' @ v)) \<and> trim v \<noteq> [] \<and> decode (trim v) = Inr claims \<and>
    jc_issued_at claims \<le> now \<and> now < jc_expires_at claims \<and>
    tc = \<lparr> tc_tenant_id = jc_tenant_id claims \<rparr> \<and>
    pc = \<lparr> pctx_principal_id = jc_sub claims, pctx_roles = jc_roles claims \<rparr>"
proof -
  obtain token claims where t: "extract_bearer hdr = Inr token"
    and v: "jwt_validate decode token now = Inr claims"
    and c: "tc = \<lparr> tc_tenant_id = jc_tenant_id claims \<rparr>"
      "pc = \<lparr> pctx_principal_id = jc_sub claims, pctx_roles = jc_roles claims \<rparr>"
    using assms by (auto simp: auth_middleware_def result_simps)
  obtain h where h: "hdr = Some (Str h)" "take 7 h = ''Bearer ''" "token = trim (drop 7 h)" "token \<noteq> []"
    using t by (auto simp: extract_bearer_def Let_def split: option.splits HeaderValue.splits if_splits)
  have "decode token = Inr claims" "validate_claims claims now = Inr ()"
    using v by (auto simp: jwt_validate_def result_simps split: if_splits)
  moreover have "h = ''Bearer '' @ drop 7 h" using h(2) by (metis append_take_drop_id)
  ultimately show ?thesis
    using h c by (intro exI [of _ "drop 7 h"] exI [of _ claims])
      (auto simp: validate_claims_def not_le split: if_splits)
qed

theorem middleware_contexts_from_valid_claims_witness:
  "\<exists>v claims. Some (Str ''Bearer abc'') = Some (Str (''Bearer '' @ v)) \<and> trim v \<noteq> [] \<and>
     (\<lambda>_. Inr \<lparr> jc_sub = PrincipalId 2, jc_tenant_id = TenantId 1, jc_roles = [Role ''user''],
        jc_issued_at = 10, jc_expires_at = 20 \<rparr> :: string + JwtClaims) (trim v) = Inr claims \<and>
     jc_issued_at claims \<le> 15 \<and> 15 < jc_expires_at claims \<and>
     \<lparr> tc_tenant_id = TenantId 1 \<rparr> = \<lparr> tc_tenant_id = jc_tenant_id claims \<rparr> \<and>
     \<lparr> pctx_principal_id = PrincipalId 2, pctx_roles = [Role ''user''] \<rparr> =
       \<lparr> pctx_principal_id = jc_sub claims, pctx_roles = jc_roles claims \<rparr>"
  by (rule middleware_contexts_from_valid_claims) code_simp

text \<open>The audit registry is complete and consistent: it knows every role of the default mapping
  with exactly the permissions the mapping grants, and its permissions are exactly those granted
  by some known role.\<close>

theorem rbac_registry_complete:
  "(\<forall>r. rb_roles (from_role_mapping f) r = (if r \<in> set known_roles
      then Some \<lparr> rd_name = r, rd_permissions = f r, rd_description = role_description r \<rparr> else None)) \<and>
   dom (rb_permissions (from_role_mapping f)) = (\<Union>r \<in> set known_roles. set (f r)) \<and>
   {r. default_role_permissions r \<noteq> []} \<subseteq> set known_roles"
proof -
  have dom_add: "dom (foldl add_permission m ps) = dom m \<union> set ps" for m ps
    by (induction ps arbitrary: m) (auto simp: add_permission_def)
  show ?thesis
    by (auto simp: from_role_mapping_def known_roles_def Let_def dom_add default_role_permissions_def)
qed

end
