(* ===== verification/Products.thy ===== *)
theory Products
  imports Core_Domain
begin

text \<open>
  The product aggregate (\<^verbatim>\<open>products/src/product.rs\<close>): the catalogue entry with its
  lifecycle Draft, Active, Archived.  The lemmas characterise every history the
  handlers can produce: a creation, at most one activation, at most one archival.
\<close>

subsection \<open>Data\<close>

datatype ProductId = ProductId (product_aggregate: AggregateId)

datatype ProductStatus = Draft | Active | Archived

record PricingMetadata =
  pm_base_price :: "u64 option"
  pm_currency :: "string option"

definition pricing_default :: PricingMetadata where
  "pricing_default = \<lparr> pm_base_price = None, pm_currency = None \<rparr>"

record Product =
  pr_id :: ProductId
  pr_tenant_id :: "TenantId option"
  pr_sku :: string
  pr_name :: string
  pr_status :: ProductStatus
  pr_pricing :: PricingMetadata
  pr_version :: u64
  pr_created :: bool

definition product_empty :: "ProductId \<Rightarrow> Product" where
  "product_empty product_id = \<lparr> pr_id = product_id, pr_tenant_id = None, pr_sku = [], pr_name = [],
     pr_status = ProductStatus.Draft, pr_pricing = pricing_default, pr_version = 0,
     pr_created = False \<rparr>"

definition can_be_sold :: "Product \<Rightarrow> bool" where
  "can_be_sold self = (pr_status self = ProductStatus.Active)"

record CreateProduct =
  cp_tenant_id :: TenantId
  cp_product_id :: ProductId
  cp_sku :: string
  cp_name :: string
  cp_pricing :: "PricingMetadata option"
  cp_occurred_at :: datetime

record ActivateProduct =
  acp_tenant_id :: TenantId
  acp_product_id :: ProductId
  acp_occurred_at :: datetime

record ArchiveProduct =
  arp_tenant_id :: TenantId
  arp_product_id :: ProductId
  arp_occurred_at :: datetime

datatype ProductCommand =
    CreateProduct CreateProduct
  | ActivateProduct ActivateProduct
  | ArchiveProduct ArchiveProduct

record ProductCreated =
  pc_tenant_id :: TenantId
  pc_product_id :: ProductId
  pc_sku :: string
  pc_name :: string
  pc_pricing :: PricingMetadata
  pc_occurred_at :: datetime

record ProductActivated =
  pac_tenant_id :: TenantId
  pac_product_id :: ProductId
  pac_occurred_at :: datetime

record ProductArchived =
  par_tenant_id :: TenantId
  par_product_id :: ProductId
  par_occurred_at :: datetime

datatype ProductEvent =
    ProductCreated ProductCreated
  | ProductActivated ProductActivated
  | ProductArchived ProductArchived

primrec product_event_type :: "ProductEvent \<Rightarrow> string" where
  "product_event_type (ProductCreated _) = ''products.product.created''"
| "product_event_type (ProductActivated _) = ''products.product.activated''"
| "product_event_type (ProductArchived _) = ''products.product.archived''"

definition product_event_version :: "ProductEvent \<Rightarrow> u32" where
  "product_event_version _ = 1"

primrec product_event_occurred_at :: "ProductEvent \<Rightarrow> datetime" where
  "product_event_occurred_at (ProductCreated e) = pc_occurred_at e"
| "product_event_occurred_at (ProductActivated e) = pac_occurred_at e"
| "product_event_occurred_at (ProductArchived e) = par_occurred_at e"

subsection \<open>Operations\<close>

definition product_apply :: "Product \<Rightarrow> ProductEvent \<Rightarrow> Product" where
  "product_apply self event =
    (let self' = (case event of
         ProductCreated e \<Rightarrow>
           self\<lparr>pr_id := pc_product_id e, pr_tenant_id := Some (pc_tenant_id e),
                pr_sku := pc_sku e, pr_name := pc_name e, pr_status := ProductStatus.Draft,
                pr_pricing := pc_pricing e, pr_created := True\<rparr>
       | ProductActivated _ \<Rightarrow> self\<lparr>pr_status := ProductStatus.Active\<rparr>
       | ProductArchived _ \<Rightarrow> self\<lparr>pr_status := ProductStatus.Archived\<rparr>)
     in self'\<lparr>pr_version := pr_version self' + 1\<rparr>)"

definition product_ensure_tenant :: "Product \<Rightarrow> TenantId \<Rightarrow> unit domain_result" where
  "product_ensure_tenant self tenant_id =
    (if \<not> pr_created self then Inr ()
     else if pr_tenant_id self \<noteq> Some tenant_id then Inl (InvariantViolation ''tenant mismatch'')
     else Inr ())"

definition ensure_product_id :: "Product \<Rightarrow> ProductId \<Rightarrow> unit domain_result" where
  "ensure_product_id self product_id =
    (if pr_id self \<noteq> product_id then Inl (InvariantViolation ''product_id mismatch'') else Inr ())"

definition product_handle_create :: "Product \<Rightarrow> CreateProduct \<Rightarrow> ProductEvent list domain_result" where
  "product_handle_create self cmd =
    (if pr_created self then Inl (Conflict ''product already exists'')
     else if trim (cp_name cmd) = [] then Inl (Validation ''name cannot be empty'')
     else if trim (cp_sku cmd) = [] then Inl (Validation ''SKU cannot be empty'')
     else Inr [ProductCreated \<lparr> pc_tenant_id = cp_tenant_id cmd, pc_product_id = cp_product_id cmd,
                 pc_sku = cp_sku cmd, pc_name = cp_name cmd,
                 pc_pricing = (case cp_pricing cmd of Some p \<Rightarrow> p | None \<Rightarrow> pricing_default),
                 pc_occurred_at = cp_occurred_at cmd \<rparr>])"

definition product_handle_activate ::
    "Product \<Rightarrow> ActivateProduct \<Rightarrow> ProductEvent list domain_result" where
  "product_handle_activate self cmd =
    (if \<not> pr_created self then Inl NotFound
     else and_then (product_ensure_tenant self (acp_tenant_id cmd)) (\<lambda>_.
       and_then (ensure_product_id self (acp_product_id cmd)) (\<lambda>_.
         if pr_status self = ProductStatus.Active then Inl (Conflict ''product is already active'')
         else if pr_status self = ProductStatus.Archived
           then Inl (InvariantViolation ''archived products cannot be activated'')
         else Inr [ProductActivated \<lparr> pac_tenant_id = acp_tenant_id cmd,
                     pac_product_id = acp_product_id cmd, pac_occurred_at = acp_occurred_at cmd \<rparr>])))"

definition product_handle_archive ::
    "Product \<Rightarrow> ArchiveProduct \<Rightarrow> ProductEvent list domain_result" where
  "product_handle_archive self cmd =
    (if \<not> pr_created self then Inl NotFound
     else and_then (product_ensure_tenant self (arp_tenant_id cmd)) (\<lambda>_.
       and_then (ensure_product_id self (arp_product_id cmd)) (\<lambda>_.
         if pr_status self = ProductStatus.Archived
           then Inl (Conflict ''product is already archived'')
         else Inr [ProductArchived \<lparr> par_tenant_id = arp_tenant_id cmd,
                     par_product_id = arp_product_id cmd, par_occurred_at = arp_occurred_at cmd \<rparr>])))"

primrec product_handle :: "Product \<Rightarrow> ProductCommand \<Rightarrow> ProductEvent list domain_result" where
  "product_handle self (CreateProduct cmd) = product_handle_create self cmd"
| "product_handle self (ActivateProduct cmd) = product_handle_activate self cmd"
| "product_handle self (ArchiveProduct cmd) = product_handle_archive self cmd"

definition product_ops :: "(Product, ProductEvent, ProductCommand) AggregateOps" where
  "product_ops = \<lparr> ao_apply = product_apply, ao_handle = product_handle, ao_event_type = product_event_type,
     ao_event_version = product_event_version, ao_occurred_at = product_event_occurred_at \<rparr>"

lemmas product_defs [handler_defs] =
  product_ensure_tenant_def ensure_product_id_def product_handle_create_def
  product_handle_activate_def product_handle_archive_def

subsection \<open>Invariant and lifecycle\<close>

definition product_invar :: "Product \<Rightarrow> bool" where
  "product_invar s \<longleftrightarrow>
     (pr_created s \<longrightarrow> trim (pr_name s) \<noteq> [] \<and> trim (pr_sku s) \<noteq> [] \<and> pr_tenant_id s \<noteq> None) \<and>
     (\<not> pr_created s \<longrightarrow> pr_status s = ProductStatus.Draft \<and> pr_tenant_id s = None)"

lemma product_empty_invar [simp]: "product_invar (product_empty i)"
  by (simp add: product_invar_def product_empty_def)

text \<open>What an accepted command does, by status.\<close>

lemma product_handle_shape:
  assumes "product_handle s c = Inr es"
  shows "(\<exists>e. es = [ProductCreated e] \<and> \<not> pr_created s \<and> trim (pc_name e) \<noteq> [] \<and>
       trim (pc_sku e) \<noteq> []) \<or>
    (\<exists>e. es = [ProductActivated e] \<and> pr_created s \<and> pr_status s = ProductStatus.Draft \<and>
       pr_tenant_id s = Some (pac_tenant_id e) \<and> pr_id s = pac_product_id e) \<or>
    (\<exists>e. es = [ProductArchived e] \<and> pr_created s \<and> pr_status s \<noteq> ProductStatus.Archived \<and>
       pr_tenant_id s = Some (par_tenant_id e) \<and> pr_id s = par_product_id e)"
  using assms
  by (cases c; cases "pr_status s") (auto simp: product_defs result_simps)

lemma product_handle_cases:
  assumes "product_handle s c = Inr es"
  obtains (create) e where "es = [ProductCreated e]" "\<not> pr_created s"
      "trim (pc_name e) \<noteq> []" "trim (pc_sku e) \<noteq> []"
  | (activate) e where "es = [ProductActivated e]" "pr_created s"
      "pr_status s = ProductStatus.Draft"
      "pr_tenant_id s = Some (pac_tenant_id e)" "pr_id s = pac_product_id e"
  | (archive) e where "es = [ProductArchived e]" "pr_created s"
      "pr_status s \<noteq> ProductStatus.Archived"
      "pr_tenant_id s = Some (par_tenant_id e)" "pr_id s = par_product_id e"
  using product_handle_shape [OF assms] by blast

definition product_owner :: "Product \<Rightarrow> TenantId option" where
  "product_owner s = (if pr_created s then pr_tenant_id s else None)"

primrec product_event_tenant :: "ProductEvent \<Rightarrow> TenantId" where
  "product_event_tenant (ProductCreated e) = pc_tenant_id e"
| "product_event_tenant (ProductActivated e) = pac_tenant_id e"
| "product_event_tenant (ProductArchived e) = par_tenant_id e"

interpretation product:
  tenant_aggregate product_apply product_handle pr_version product_invar
    product_owner product_event_tenant
proof
  fix s e
  show "pr_version (product_apply s e) = pr_version s + 1"
    by (cases e) (simp_all add: product_apply_def)
next
  fix s c es
  assume "product_invar s" "product_handle s c = Inr es"
  then show "product_invar (foldl product_apply s es)"
    by (elim product_handle_cases) (auto simp: product_apply_def product_invar_def)
next
  fix s c es e
  assume "product_handle s c = Inr es" "e \<in> set es"
  then show "product_owner (foldl product_apply s es) = Some (product_event_tenant e)"
    by (elim product_handle_cases) (auto simp: product_apply_def product_owner_def)
next
  fix s c es t
  assume "product_handle s c = Inr es" "product_owner s = Some t"
  then show "product_owner (foldl product_apply s es) = Some t"
    by (elim product_handle_cases) (auto simp: product_apply_def product_owner_def)
qed

text \<open>The histories the lifecycle allows, and the status each leaves.\<close>

fun product_history :: "ProductEvent list \<Rightarrow> bool" where
  "product_history [] = True"
| "product_history [ProductCreated _] = True"
| "product_history [ProductCreated _, ProductActivated _] = True"
| "product_history [ProductCreated _, ProductArchived _] = True"
| "product_history [ProductCreated _, ProductActivated _, ProductArchived _] = True"
| "product_history _ = False"

lemma product_history_iff:
  "product_history h \<longleftrightarrow> h = [] \<or> (\<exists>c. h = [ProductCreated c]) \<or>
     (\<exists>c a. h = [ProductCreated c, ProductActivated a]) \<or>
     (\<exists>c r. h = [ProductCreated c, ProductArchived r]) \<or>
     (\<exists>c a r. h = [ProductCreated c, ProductActivated a, ProductArchived r])"
  by (cases h rule: product_history.cases) auto

lemma decided_product_history:
  assumes "decided product_apply product_handle (product_empty i) h"
  shows "product_history h"
  using assms
proof induction
  case (decided_step h c es)
  from decided_step.hyps(2) decided_step.IH show ?case
    unfolding product_history_iff
    by (elim product_handle_cases disjE exE) (auto simp: product_apply_def product_empty_def)
qed simp

subsection \<open>Properties\<close>

text \<open>Every history the product aggregate decides is a creation followed by at most one
  activation and at most one archival, in this order; in particular an archived product is
  never activated again and nothing follows an archival.\<close>

theorem product_lifecycle:
  assumes "decided product_apply product_handle (product_empty i) h"
  shows "product_history h \<and>
    (can_be_sold (foldl product_apply (product_empty i) h) \<longleftrightarrow>
       (\<exists>c a. h = [ProductCreated c, ProductActivated a]))"
  using decided_product_history [OF assms] unfolding product_history_iff
  by (auto simp: can_be_sold_def product_apply_def product_empty_def)

theorem product_lifecycle_witness:
  "product_history [ProductCreated \<lparr> pc_tenant_id = TenantId 1,
      pc_product_id = ProductId (AggregateId 7), pc_sku = ''b-1'', pc_name = ''bolt'',
      pc_pricing = pricing_default, pc_occurred_at = 5 \<rparr>]"
proof -
  let ?i = "ProductId (AggregateId 7)"
  have "decided product_apply product_handle (product_empty ?i) ([] @ [ProductCreated
      \<lparr> pc_tenant_id = TenantId 1, pc_product_id = ?i, pc_sku = ''b-1'', pc_name = ''bolt'',
        pc_pricing = pricing_default, pc_occurred_at = 5 \<rparr>])"
    by (rule decided_step [OF decided_Nil, where c = "CreateProduct \<lparr> cp_tenant_id = TenantId 1,
      cp_product_id = ?i, cp_sku = ''b-1'', cp_name = ''bolt'', cp_pricing = None,
      cp_occurred_at = 5 \<rparr>"]) code_simp
  from product_lifecycle [OF this] show ?thesis by simp
qed

end
