(* ===== verification/Parties.thy ===== *)
theory Parties
  imports Core_Domain
begin

text \<open>
  The party aggregate (\<^verbatim>\<open>parties/src/party.rs\<close>): customers and suppliers, their contact
  data and their suspension.
\<close>

subsection \<open>Data\<close>

datatype PartyId = PartyId (party_aggregate: AggregateId)

datatype PartyKind = Customer | Supplier

datatype PartyStatus = Active | Suspended

record ContactInfo =
  co_email :: "string option"
  co_phone :: "string option"
  co_address :: "string option"

definition contact_default :: ContactInfo where
  "contact_default = \<lparr> co_email = None, co_phone = None, co_address = None \<rparr>"

record Party =
  pa_id :: PartyId
  pa_tenant_id :: "TenantId option"
  pa_kind :: PartyKind
  pa_name :: string
  pa_contact :: ContactInfo
  pa_status :: PartyStatus
  pa_version :: u64
  pa_created :: bool

definition party_empty :: "PartyId \<Rightarrow> Party" where
  "party_empty party_id = \<lparr> pa_id = party_id, pa_tenant_id = None, pa_kind = Customer, pa_name = [],
     pa_contact = contact_default, pa_status = PartyStatus.Active, pa_version = 0,
     pa_created = False \<rparr>"

definition can_transact :: "Party \<Rightarrow> bool" where
  "can_transact self = (pa_status self = PartyStatus.Active)"

record RegisterParty =
  rp_tenant_id :: TenantId
  rp_party_id :: PartyId
  rp_kind :: PartyKind
  rp_name :: string
  rp_contact :: "ContactInfo option"
  rp_occurred_at :: datetime

record UpdateDetails =
  ud_tenant_id :: TenantId
  ud_party_id :: PartyId
  ud_name :: "string option"
  ud_contact :: "ContactInfo option"
  ud_occurred_at :: datetime

record SuspendParty =
  sp_tenant_id :: TenantId
  sp_party_id :: PartyId
  sp_reason :: "string option"
  sp_occurred_at :: datetime

datatype PartyCommand =
    RegisterParty RegisterParty
  | UpdateDetails UpdateDetails
  | SuspendParty SuspendParty

record PartyRegistered =
  prg_tenant_id :: TenantId
  prg_party_id :: PartyId
  prg_kind :: PartyKind
  prg_name :: string
  prg_contact :: ContactInfo
  prg_occurred_at :: datetime

record PartyUpdated =
  pup_tenant_id :: TenantId
  pup_party_id :: PartyId
  pup_name :: string
  pup_contact :: ContactInfo
  pup_occurred_at :: datetime

record PartySuspended =
  psu_tenant_id :: TenantId
  psu_party_id :: PartyId
  psu_reason :: "string option"
  psu_occurred_at :: datetime

datatype PartyEvent =
    PartyRegistered PartyRegistered
  | PartyUpdated PartyUpdated
  | PartySuspended PartySuspended

primrec party_event_type :: "PartyEvent \<Rightarrow> string" where
  "party_event_type (PartyRegistered _) = ''parties.party.registered''"
| "party_event_type (PartyUpdated _) = ''parties.party.updated''"
| "party_event_type (PartySuspended _) = ''parties.party.suspended''"

definition party_event_version :: "PartyEvent \<Rightarrow> u32" where
  "party_event_version _ = 1"

primrec party_event_occurred_at :: "PartyEvent \<Rightarrow> datetime" where
  "party_event_occurred_at (PartyRegistered e) = prg_occurred_at e"
| "party_event_occurred_at (PartyUpdated e) = pup_occurred_at e"
| "party_event_occurred_at (PartySuspended e) = psu_occurred_at e"

subsection \<open>Operations\<close>

definition party_apply :: "Party \<Rightarrow> PartyEvent \<Rightarrow> Party" where
  "party_apply self event =
    (let self' = (case event of
         PartyRegistered e \<Rightarrow>
           self\<lparr>pa_id := prg_party_id e, pa_tenant_id := Some (prg_tenant_id e), pa_kind := prg_kind e,
                pa_name := prg_name e, pa_contact := prg_contact e,
                pa_status := PartyStatus.Active, pa_created := True\<rparr>
       | PartyUpdated e \<Rightarrow> self\<lparr>pa_name := pup_name e, pa_contact := pup_contact e\<rparr>
       | PartySuspended _ \<Rightarrow> self\<lparr>pa_status := PartyStatus.Suspended\<rparr>)
     in self'\<lparr>pa_version := pa_version self' + 1\<rparr>)"

definition party_ensure_tenant :: "Party \<Rightarrow> TenantId \<Rightarrow> unit domain_result" where
  "party_ensure_tenant self tenant_id =
    (if \<not> pa_created self then Inr ()
     else if pa_tenant_id self \<noteq> Some tenant_id then Inl (InvariantViolation ''tenant mismatch'')
     else Inr ())"

definition ensure_party_id :: "Party \<Rightarrow> PartyId \<Rightarrow> unit domain_result" where
  "ensure_party_id self party_id =
    (if pa_id self \<noteq> party_id then Inl (InvariantViolation ''party_id mismatch'') else Inr ())"

definition handle_register :: "Party \<Rightarrow> RegisterParty \<Rightarrow> PartyEvent list domain_result" where
  "handle_register self cmd =
    (if pa_created self then Inl (Conflict ''party already exists'')
     else if trim (rp_name cmd) = [] then Inl (Validation ''name cannot be empty'')
     else (let contact = (case rp_contact cmd of Some c \<Rightarrow> c | None \<Rightarrow> contact_default) in
       Inr [PartyRegistered \<lparr> prg_tenant_id = rp_tenant_id cmd, prg_party_id = rp_party_id cmd,
              prg_kind = rp_kind cmd, prg_name = rp_name cmd, prg_contact = contact,
              prg_occurred_at = rp_occurred_at cmd \<rparr>]))"

definition handle_update :: "Party \<Rightarrow> UpdateDetails \<Rightarrow> PartyEvent list domain_result" where
  "handle_update self cmd =
    (if \<not> pa_created self then Inl NotFound
     else and_then (party_ensure_tenant self (ud_tenant_id cmd)) (\<lambda>_.
       and_then (ensure_party_id self (ud_party_id cmd)) (\<lambda>_.
         let new_name = (case ud_name cmd of Some n \<Rightarrow> n | None \<Rightarrow> pa_name self) in
         if trim new_name = [] then Inl (Validation ''name cannot be empty'')
         else (let new_contact = (case ud_contact cmd of Some c \<Rightarrow> c | None \<Rightarrow> pa_contact self) in
           Inr [PartyUpdated \<lparr> pup_tenant_id = ud_tenant_id cmd, pup_party_id = ud_party_id cmd,
                  pup_name = new_name, pup_contact = new_contact,
                  pup_occurred_at = ud_occurred_at cmd \<rparr>]))))"

definition party_handle_suspend :: "Party \<Rightarrow> SuspendParty \<Rightarrow> PartyEvent list domain_result" where
  "party_handle_suspend self cmd =
    (if \<not> pa_created self then Inl NotFound
     else and_then (party_ensure_tenant self (sp_tenant_id cmd)) (\<lambda>_.
       and_then (ensure_party_id self (sp_party_id cmd)) (\<lambda>_.
         if pa_status self = PartyStatus.Suspended
           then Inl (Conflict ''party is already suspended'')
         else Inr [PartySuspended \<lparr> psu_tenant_id = sp_tenant_id cmd,
                     psu_party_id = sp_party_id cmd, psu_reason = sp_reason cmd,
                     psu_occurred_at = sp_occurred_at cmd \<rparr>])))"

primrec party_handle :: "Party \<Rightarrow> PartyCommand \<Rightarrow> PartyEvent list domain_result" where
  "party_handle self (RegisterParty cmd) = handle_register self cmd"
| "party_handle self (UpdateDetails cmd) = handle_update self cmd"
| "party_handle self (SuspendParty cmd) = party_handle_suspend self cmd"

definition party_ops :: "(Party, PartyEvent, PartyCommand) AggregateOps" where
  "party_ops = \<lparr> ao_apply = party_apply, ao_handle = party_handle, ao_event_type = party_event_type,
     ao_event_version = party_event_version, ao_occurred_at = party_event_occurred_at \<rparr>"

lemmas party_defs [handler_defs] =
  party_ensure_tenant_def ensure_party_id_def handle_register_def handle_update_def
  party_handle_suspend_def

subsection \<open>Invariant\<close>

definition party_invar :: "Party \<Rightarrow> bool" where
  "party_invar s \<longleftrightarrow>
     (pa_created s \<longrightarrow> trim (pa_name s) \<noteq> [] \<and> pa_tenant_id s \<noteq> None) \<and>
     (\<not> pa_created s \<longrightarrow> pa_status s = PartyStatus.Active \<and> pa_tenant_id s = None)"

lemma party_empty_invar [simp]: "party_invar (party_empty i)"
  by (simp add: party_invar_def party_empty_def)

lemma party_handle_shape:
  assumes "party_handle s c = Inr es"
  shows "(\<exists>e. es = [PartyRegistered e] \<and> \<not> pa_created s \<and> trim (prg_name e) \<noteq> []) \<or>
    (\<exists>e. es = [PartyUpdated e] \<and> pa_created s \<and> trim (pup_name e) \<noteq> [] \<and>
       pa_tenant_id s = Some (pup_tenant_id e) \<and> pa_id s = pup_party_id e) \<or>
    (\<exists>e. es = [PartySuspended e] \<and> pa_created s \<and> pa_status s = PartyStatus.Active \<and>
       pa_tenant_id s = Some (psu_tenant_id e) \<and> pa_id s = psu_party_id e)"
  using assms
  by (cases c; cases "pa_status s")
    (auto simp: party_defs result_simps Let_def)

lemma party_handle_cases:
  assumes "party_handle s c = Inr es"
  obtains (register) e where "es = [PartyRegistered e]" "\<not> pa_created s" "trim (prg_name e) \<noteq> []"
  | (update) e where "es = [PartyUpdated e]" "pa_created s" "trim (pup_name e) \<noteq> []"
      "pa_tenant_id s = Some (pup_tenant_id e)" "pa_id s = pup_party_id e"
  | (suspend) e where "es = [PartySuspended e]" "pa_created s" "pa_status s = PartyStatus.Active"
      "pa_tenant_id s = Some (psu_tenant_id e)" "pa_id s = psu_party_id e"
  using party_handle_shape [OF assms] by blast

definition party_owner :: "Party \<Rightarrow> TenantId option" where
  "party_owner s = (if pa_created s then pa_tenant_id s else None)"

primrec party_event_tenant :: "PartyEvent \<Rightarrow> TenantId" where
  "party_event_tenant (PartyRegistered e) = prg_tenant_id e"
| "party_event_tenant (PartyUpdated e) = pup_tenant_id e"
| "party_event_tenant (PartySuspended e) = psu_tenant_id e"

interpretation party:
  tenant_aggregate party_apply party_handle pa_version party_invar party_owner party_event_tenant
proof
  fix s e
  show "pa_version (party_apply s e) = pa_version s + 1"
    by (cases e) (simp_all add: party_apply_def)
next
  fix s c es
  assume "party_invar s" "party_handle s c = Inr es"
  then show "party_invar (foldl party_apply s es)"
    by (elim party_handle_cases) (auto simp: party_apply_def party_invar_def)
next
  fix s c es e
  assume "party_handle s c = Inr es" "e \<in> set es"
  then show "party_owner (foldl party_apply s es) = Some (party_event_tenant e)"
    by (elim party_handle_cases) (auto simp: party_apply_def party_owner_def)
next
  fix s c es t
  assume "party_handle s c = Inr es" "party_owner s = Some t"
  then show "party_owner (foldl party_apply s es) = Some t"
    by (elim party_handle_cases) (auto simp: party_apply_def party_owner_def)
qed

text \<open>A suspended party stays suspended whatever commands follow.\<close>

lemma suspended_step:
  assumes "pa_created s \<and> pa_status s = PartyStatus.Suspended"
  shows "pa_created (fst (execute party_apply party_handle s c)) \<and>
    pa_status (fst (execute party_apply party_handle s c)) = PartyStatus.Suspended"
proof (cases "party_handle s c")
  case (Inr es)
  then show ?thesis
    by (rule party_handle_cases) (use Inr assms in \<open>auto simp: execute_def party_apply_def\<close>)
qed (use assms in \<open>simp add: execute_def\<close>)

subsection \<open>Properties\<close>

text \<open>A suspended party stays suspended, and so cannot transact, whatever sequence of
  commands is executed on it afterwards; a registered party keeps a non-blank name.\<close>

theorem party_suspension_permanent:
  assumes "party_invar s" "pa_created s" "pa_status s = PartyStatus.Suspended"
  shows "\<not> can_transact (foldl (\<lambda>s c. fst (execute party_apply party_handle s c)) s cs) \<and>
    trim (pa_name (foldl (\<lambda>s c. fst (execute party_apply party_handle s c)) s cs)) \<noteq> []"
proof -
  let ?run = "foldl (\<lambda>s c. fst (execute party_apply party_handle s c)) s cs"
  have "pa_created ?run \<and> pa_status ?run = PartyStatus.Suspended"
    using assms(2,3) suspended_step
    by (intro foldl_invariant [where I = "\<lambda>s. pa_created s \<and> pa_status s = PartyStatus.Suspended"]) auto
  moreover have "party_invar ?run"
    using assms(1) by (rule party.commands_invar)
  ultimately show ?thesis by (simp add: can_transact_def party_invar_def)
qed

theorem party_suspension_permanent_witness:
  "\<not> can_transact (foldl (\<lambda>s c. fst (execute party_apply party_handle s c))
     \<lparr> pa_id = PartyId (AggregateId 7), pa_tenant_id = Some (TenantId 1), pa_kind = Supplier,
       pa_name = ''acme'', pa_contact = contact_default, pa_status = PartyStatus.Suspended,
       pa_version = 2, pa_created = True \<rparr>
     [UpdateDetails \<lparr> ud_tenant_id = TenantId 1, ud_party_id = PartyId (AggregateId 7),
        ud_name = Some ''acme ltd'', ud_contact = None, ud_occurred_at = 5 \<rparr>])"
  by (rule party_suspension_permanent [THEN conjunct1]) (code_simp, simp, simp)

end
