(* ===== verification/Directory_Projections.thy ===== *)
theory Directory_Projections
  imports Projections Products Parties
begin

text \<open>
  The product catalogue (\<^verbatim>\<open>infra/src/projections/products.rs\<close>) and the party directory
  (\<^verbatim>\<open>infra/src/projections/parties.rs\<close>): both show the aggregates' states.
\<close>

subsection \<open>Products\<close>

record ProductReadModel =
  prm_product_id :: ProductId
  prm_sku :: string
  prm_name :: string
  prm_status :: ProductStatus
  prm_pricing :: PricingMetadata

type_synonym product_store = "(ProductId, ProductReadModel) InMemoryTenantStore"

primrec product_event_product :: "ProductEvent \<Rightarrow> ProductId" where
  "product_event_product (ProductCreated e) = pc_product_id e"
| "product_event_product (ProductActivated e) = pac_product_id e"
| "product_event_product (ProductArchived e) = par_product_id e"

definition product_check :: "TenantId \<Rightarrow> AggregateId \<Rightarrow> ProductEvent \<Rightarrow> ApplyError + unit" where
  "product_check tenant_id aggregate_id ev =
    (if product_event_tenant ev \<noteq> tenant_id
       then Inl (TenantIsolation ''event tenant_id does not match envelope tenant_id'')
     else if product_aggregate (product_event_product ev) \<noteq> aggregate_id
       then Inl (TenantIsolation ''event product_id does not match envelope aggregate_id'')
     else Inr ())"

definition product_missing :: "ProductId \<Rightarrow> ProductReadModel" where
  "product_missing i = \<lparr> prm_product_id = i, prm_sku = [], prm_name = [],
     prm_status = ProductStatus.Draft, prm_pricing = pricing_default \<rparr>"

definition product_catalog_update ::
    "product_store \<Rightarrow> TenantId \<Rightarrow> AggregateId \<Rightarrow> ProductEvent \<Rightarrow> product_store" where
  "product_catalog_update store tenant_id _ ev =
    (case ev of
       ProductCreated e \<Rightarrow> ts_upsert store tenant_id (pc_product_id e)
         \<lparr> prm_product_id = pc_product_id e, prm_sku = pc_sku e, prm_name = pc_name e,
           prm_status = ProductStatus.Draft, prm_pricing = pc_pricing e \<rparr>
     | ProductActivated e \<Rightarrow>
         (let rm = (case ts_get store tenant_id (pac_product_id e) of
                Some rm \<Rightarrow> rm | None \<Rightarrow> product_missing (pac_product_id e))
          in ts_upsert store tenant_id (pac_product_id e) (rm\<lparr>prm_status := ProductStatus.Active\<rparr>))
     | ProductArchived e \<Rightarrow>
         (let rm = (case ts_get store tenant_id (par_product_id e) of
                Some rm \<Rightarrow> rm | None \<Rightarrow> product_missing (par_product_id e))
          in ts_upsert store tenant_id (par_product_id e) (rm\<lparr>prm_status := ProductStatus.Archived\<rparr>)))"

definition product_catalog :: "(product_store, ProductEvent) ProjectionLogic" where
  "product_catalog = \<lparr> pl_aggregate_type = ''products.product'', pl_check = product_check,
     pl_update = product_catalog_update \<rparr>"

definition product_row :: "ProductReadModel option \<Rightarrow> ProductEvent \<Rightarrow> ProductReadModel option" where
  "product_row r ev =
    (let rm = (case r of Some rm \<Rightarrow> rm | None \<Rightarrow> product_missing (product_event_product ev)) in
     case ev of
       ProductCreated e \<Rightarrow> Some \<lparr> prm_product_id = pc_product_id e, prm_sku = pc_sku e,
         prm_name = pc_name e, prm_status = ProductStatus.Draft, prm_pricing = pc_pricing e \<rparr>
     | ProductActivated e \<Rightarrow> Some (rm\<lparr>prm_status := ProductStatus.Active\<rparr>)
     | ProductArchived e \<Rightarrow> Some (rm\<lparr>prm_status := ProductStatus.Archived\<rparr>))"

definition product_view :: "Product \<Rightarrow> ProductReadModel option" where
  "product_view s = (if pr_created s
     then Some \<lparr> prm_product_id = pr_id s, prm_sku = pr_sku s, prm_name = pr_name s,
       prm_status = pr_status s, prm_pricing = pr_pricing s \<rparr> else None)"

lemma product_view_empty [simp]: "product_view (product_empty i) = None"
  by (simp add: product_view_def product_empty_def)

interpretation product_directory: state_view ts_get ts_upsert "ts_list id" ts_clear_tenant ts_ok
    product_catalog product_event_product product_row product_aggregate
    product_apply product_handle pr_version product_invar
    ProductId "\<lambda>a. product_empty (ProductId a)" id product_view
proof
  fix s :: product_store and t a e t' k
  assume ok: "ts_ok s"
  show "ts_ok (pl_update product_catalog s t a e)"
    using ok by (cases e) (simp_all add: product_catalog_def product_catalog_update_def Let_def
      in_memory_tenant_store.store_simps)
  show "ts_get (pl_update product_catalog s t a e) t' k =
      (if t' = t \<and> k = product_event_product e then product_row (ts_get s t k) e else ts_get s t' k)"
    using ok by (cases e) (auto simp: product_catalog_def product_catalog_update_def product_row_def Let_def
      in_memory_tenant_store.store_simps split: option.splits)
next
  fix s c es assume "product_handle s c = Inr es"
  then show "length es \<le> 1" by (elim product_handle_cases) simp_all
next
  fix s c es r assume "product_invar s" "product_handle s c = Inr es" "map_option id r = product_view s"
  then show "map_option id (foldl product_row r es) = product_view (foldl product_apply s es)"
    by (elim product_handle_cases) (auto simp: product_apply_def product_view_def product_row_def Let_def)
qed (auto simp: product_catalog_def product_check_def ProductId.expand split: if_splits)

lemma product_catalog_shows_state:
  "shows_state ops from_value hist envs product_catalog ProductId
     (\<lambda>a. product_empty (ProductId a)) product_apply product_handle id product_view"
  unfolding shows_state_def
  using product_directory.deliver_view [of hist "projection_new ts_new []" ops envs from_value] by simp

subsection \<open>Parties\<close>

record PartyReadModel =
  pyr_party_id :: PartyId
  pyr_kind :: PartyKind
  pyr_name :: string
  pyr_email :: "string option"
  pyr_phone :: "string option"
  pyr_status :: PartyStatus

type_synonym party_store = "(PartyId, PartyReadModel) InMemoryTenantStore"

primrec party_event_party :: "PartyEvent \<Rightarrow> PartyId" where
  "party_event_party (PartyRegistered e) = prg_party_id e"
| "party_event_party (PartyUpdated e) = pup_party_id e"
| "party_event_party (PartySuspended e) = psu_party_id e"

definition party_check :: "TenantId \<Rightarrow> AggregateId \<Rightarrow> PartyEvent \<Rightarrow> ApplyError + unit" where
  "party_check tenant_id aggregate_id party_event =
    (if party_event_tenant party_event \<noteq> tenant_id
       then Inl (TenantIsolation ''event tenant_id does not match envelope tenant_id'')
     else if party_aggregate (party_event_party party_event) \<noteq> aggregate_id
       then Inl (TenantIsolation ''event party_id does not match envelope aggregate_id'')
     else Inr ())"

definition party_missing :: "PartyId \<Rightarrow> PartyReadModel" where
  "party_missing i = \<lparr> pyr_party_id = i, pyr_kind = Customer, pyr_name = [], pyr_email = None,
     pyr_phone = None, pyr_status = PartyStatus.Active \<rparr>"

definition party_directory_update ::
    "party_store \<Rightarrow> TenantId \<Rightarrow> AggregateId \<Rightarrow> PartyEvent \<Rightarrow> party_store" where
  "party_directory_update store tenant_id _ party_event =
    (case party_event of
       PartyRegistered e \<Rightarrow> ts_upsert store tenant_id (prg_party_id e)
         \<lparr> pyr_party_id = prg_party_id e, pyr_kind = prg_kind e, pyr_name = prg_name e,
           pyr_email = co_email (prg_contact e), pyr_phone = co_phone (prg_contact e),
           pyr_status = PartyStatus.Active \<rparr>
     | PartyUpdated e \<Rightarrow>
         (let rm = (case ts_get store tenant_id (pup_party_id e) of
                Some rm \<Rightarrow> rm | None \<Rightarrow> party_missing (pup_party_id e))
          in ts_upsert store tenant_id (pup_party_id e) (rm\<lparr>pyr_name := pup_name e,
               pyr_email := co_email (pup_contact e), pyr_phone := co_phone (pup_contact e)\<rparr>))
     | PartySuspended e \<Rightarrow>
         (let rm = (case ts_get store tenant_id (psu_party_id e) of
                Some rm \<Rightarrow> rm | None \<Rightarrow> party_missing (psu_party_id e))
          in ts_upsert store tenant_id (psu_party_id e) (rm\<lparr>pyr_status := PartyStatus.Suspended\<rparr>)))"

definition party_directory :: "(party_store, PartyEvent) ProjectionLogic" where
  "party_directory = \<lparr> pl_aggregate_type = ''parties.party'', pl_check = party_check,
     pl_update = party_directory_update \<rparr>"

definition party_row :: "PartyReadModel option \<Rightarrow> PartyEvent \<Rightarrow> PartyReadModel option" where
  "party_row r ev =
    (let rm = (case r of Some rm \<Rightarrow> rm | None \<Rightarrow> party_missing (party_event_party ev)) in
     case ev of
       PartyRegistered e \<Rightarrow> Some \<lparr> pyr_party_id = prg_party_id e, pyr_kind = prg_kind e,
         pyr_name = prg_name e, pyr_email = co_email (prg_contact e),
         pyr_phone = co_phone (prg_contact e), pyr_status = PartyStatus.Active \<rparr>
     | PartyUpdated e \<Rightarrow> Some (rm\<lparr>pyr_name := pup_name e, pyr_email := co_email (pup_contact e),
         pyr_phone := co_phone (pup_contact e)\<rparr>)
     | PartySuspended e \<Rightarrow> Some (rm\<lparr>pyr_status := PartyStatus.Suspended\<rparr>))"

definition party_view :: "Party \<Rightarrow> PartyReadModel option" where
  "party_view s = (if pa_created s
     then Some \<lparr> pyr_party_id = pa_id s, pyr_kind = pa_kind s, pyr_name = pa_name s,
       pyr_email = co_email (pa_contact s), pyr_phone = co_phone (pa_contact s),
       pyr_status = pa_status s \<rparr> else None)"

lemma party_view_empty [simp]: "party_view (party_empty i) = None"
  by (simp add: party_view_def party_empty_def)

interpretation party_view: state_view ts_get ts_upsert "ts_list id" ts_clear_tenant ts_ok
    party_directory party_event_party party_row party_aggregate
    party_apply party_handle pa_version party_invar
    PartyId "\<lambda>a. party_empty (PartyId a)" id party_view
proof
  fix s :: party_store and t a e t' k
  assume ok: "ts_ok s"
  show "ts_ok (pl_update party_directory s t a e)"
    using ok by (cases e) (simp_all add: party_directory_def party_directory_update_def Let_def
      in_memory_tenant_store.store_simps)
  show "ts_get (pl_update party_directory s t a e) t' k =
      (if t' = t \<and> k = party_event_party e then party_row (ts_get s t k) e else ts_get s t' k)"
    using ok by (cases e) (auto simp: party_directory_def party_directory_update_def party_row_def Let_def
      in_memory_tenant_store.store_simps split: option.splits)
next
  fix s c es assume "party_handle s c = Inr es"
  then show "length es \<le> 1" by (elim party_handle_cases) simp_all
next
  fix s c es r assume "party_invar s" "party_handle s c = Inr es" "map_option id r = party_view s"
  then show "map_option id (foldl party_row r es) = party_view (foldl party_apply s es)"
    by (elim party_handle_cases)
      (auto simp: party_apply_def party_view_def party_row_def party_invar_def Let_def)
qed (auto simp: party_directory_def party_check_def PartyId.expand split: if_splits)

lemma party_directory_shows_state:
  "shows_state ops from_value hist envs party_directory PartyId
     (\<lambda>a. party_empty (PartyId a)) party_apply party_handle id party_view"
  unfolding shows_state_def
  using party_view.deliver_view [of hist "projection_new ts_new []" ops envs from_value] by simp

end
