(* ===== verification/Sales.thy ===== *)
theory Sales
  imports Products
begin

text \<open>
  The sales order aggregate (\<^verbatim>\<open>sales/src/order.rs\<close>): lines are added while the order is a
  draft, confirmation freezes them, and only a confirmed order can be invoiced.
\<close>

subsection \<open>Data\<close>

datatype SalesOrderId = SalesOrderId (sales_order_aggregate: AggregateId)

datatype SalesOrderStatus = Draft | Confirmed | Invoiced | Closed

record OrderLine =
  ol_line_no :: u32
  ol_product_id :: ProductId
  ol_quantity :: i64
  ol_unit_price :: u64

record SalesOrder =
  so_id :: SalesOrderId
  so_tenant_id :: "TenantId option"
  so_status :: SalesOrderStatus
  so_lines :: "OrderLine list"
  so_version :: u64
  so_created :: bool

definition sales_order_empty :: "SalesOrderId \<Rightarrow> SalesOrder" where
  "sales_order_empty order_id = \<lparr> so_id = order_id, so_tenant_id = None,
     so_status = SalesOrderStatus.Draft, so_lines = [], so_version = 0, so_created = False \<rparr>"

definition is_modifiable :: "SalesOrder \<Rightarrow> bool" where
  "is_modifiable self = (so_status self = SalesOrderStatus.Draft)"

definition is_invoice_allowed :: "SalesOrder \<Rightarrow> bool" where
  "is_invoice_allowed self = (so_status self = SalesOrderStatus.Confirmed)"

record CreateSalesOrder =
  cso_tenant_id :: TenantId
  cso_order_id :: SalesOrderId
  cso_occurred_at :: datetime

record AddLine =
  al_tenant_id :: TenantId
  al_order_id :: SalesOrderId
  al_product_id :: ProductId
  al_quantity :: i64
  al_unit_price :: u64
  al_occurred_at :: datetime

record ConfirmOrder =
  cfo_tenant_id :: TenantId
  cfo_order_id :: SalesOrderId
  cfo_occurred_at :: datetime

record MarkInvoiced =
  mi_tenant_id :: TenantId
  mi_order_id :: SalesOrderId
  mi_occurred_at :: datetime

datatype SalesOrderCommand =
    CreateSalesOrder CreateSalesOrder
  | AddLine AddLine
  | ConfirmOrder ConfirmOrder
  | MarkInvoiced MarkInvoiced

record SalesOrderCreated =
  soc_tenant_id :: TenantId
  soc_order_id :: SalesOrderId
  soc_occurred_at :: datetime

record LineAdded =
  la_tenant_id :: TenantId
  la_order_id :: SalesOrderId
  la_line_no :: u32
  la_product_id :: ProductId
  la_quantity :: i64
  la_unit_price :: u64
  la_occurred_at :: datetime

record OrderConfirmed =
  oc_tenant_id :: TenantId
  oc_order_id :: SalesOrderId
  oc_occurred_at :: datetime

record OrderInvoiced =
  oi_tenant_id :: TenantId
  oi_order_id :: SalesOrderId
  oi_occurred_at :: datetime

datatype SalesOrderEvent =
    SalesOrderCreated SalesOrderCreated
  | LineAdded LineAdded
  | OrderConfirmed OrderConfirmed
  | OrderInvoiced OrderInvoiced

primrec sales_event_type :: "SalesOrderEvent \<Rightarrow> string" where
  "sales_event_type (SalesOrderCreated _) = ''sales.order.created''"
| "sales_event_type (LineAdded _) = ''sales.order.line_added''"
| "sales_event_type (OrderConfirmed _) = ''sales.order.confirmed''"
| "sales_event_type (OrderInvoiced _) = ''sales.order.invoiced''"

definition sales_event_version :: "SalesOrderEvent \<Rightarrow> u32" where
  "sales_event_version _ = 1"

primrec sales_event_occurred_at :: "SalesOrderEvent \<Rightarrow> datetime" where
  "sales_event_occurred_at (SalesOrderCreated e) = soc_occurred_at e"
| "sales_event_occurred_at (LineAdded e) = la_occurred_at e"
| "sales_event_occurred_at (OrderConfirmed e) = oc_occurred_at e"
| "sales_event_occurred_at (OrderInvoiced e) = oi_occurred_at e"

subsection \<open>Operations\<close>

definition line_of :: "LineAdded \<Rightarrow> OrderLine" where
  "line_of e = \<lparr> ol_line_no = la_line_no e, ol_product_id = la_product_id e,
     ol_quantity = la_quantity e, ol_unit_price = la_unit_price e \<rparr>"

definition sales_apply :: "SalesOrder \<Rightarrow> SalesOrderEvent \<Rightarrow> SalesOrder" where
  "sales_apply self event =
    (let self' = (case event of
         SalesOrderCreated e \<Rightarrow>
           self\<lparr>so_id := soc_order_id e, so_tenant_id := Some (soc_tenant_id e),
                so_status := SalesOrderStatus.Draft, so_lines := [], so_created := True\<rparr>
       | LineAdded e \<Rightarrow> self\<lparr>so_lines := so_lines self @ [line_of e]\<rparr>
       | OrderConfirmed _ \<Rightarrow> self\<lparr>so_status := Confirmed\<rparr>
       | OrderInvoiced _ \<Rightarrow> self\<lparr>so_status := Invoiced\<rparr>)
     in self'\<lparr>so_version := so_version self' + 1\<rparr>)"

definition sales_ensure_tenant :: "SalesOrder \<Rightarrow> TenantId \<Rightarrow> unit domain_result" where
  "sales_ensure_tenant self tenant_id =
    (if \<not> so_created self then Inr ()
     else if so_tenant_id self \<noteq> Some tenant_id then Inl (InvariantViolation ''tenant mismatch'')
     else Inr ())"

definition sales_ensure_order_id :: "SalesOrder \<Rightarrow> SalesOrderId \<Rightarrow> unit domain_result" where
  "sales_ensure_order_id self order_id =
    (if so_id self \<noteq> order_id then Inl (InvariantViolation ''order_id mismatch'') else Inr ())"

definition sales_handle_create ::
    "SalesOrder \<Rightarrow> CreateSalesOrder \<Rightarrow> SalesOrderEvent list domain_result" where
  "sales_handle_create self cmd =
    (if so_created self then Inl (Conflict ''sales order already exists'')
     else Inr [SalesOrderCreated \<lparr> soc_tenant_id = cso_tenant_id cmd,
                 soc_order_id = cso_order_id cmd, soc_occurred_at = cso_occurred_at cmd \<rparr>])"

definition sales_handle_add_line ::
    "SalesOrder \<Rightarrow> AddLine \<Rightarrow> SalesOrderEvent list domain_result" where
  "sales_handle_add_line self cmd =
    (if \<not> so_created self then Inl NotFound
     else and_then (sales_ensure_tenant self (al_tenant_id cmd)) (\<lambda>_.
       and_then (sales_ensure_order_id self (al_order_id cmd)) (\<lambda>_.
         if \<not> is_modifiable self
           then Inl (InvariantViolation ''cannot modify order once it is confirmed or invoiced'')
         else if sint (al_quantity cmd) \<le> 0 then Inl (Validation ''quantity must be positive'')
         else if al_unit_price cmd = 0 then Inl (Validation ''unit_price must be positive'')
         else (let next_line_no = of_nat (length (so_lines self)) + 1 in
           Inr [LineAdded \<lparr> la_tenant_id = al_tenant_id cmd, la_order_id = al_order_id cmd,
                  la_line_no = next_line_no, la_product_id = al_product_id cmd,
                  la_quantity = al_quantity cmd, la_unit_price = al_unit_price cmd,
                  la_occurred_at = al_occurred_at cmd \<rparr>]))))"

definition handle_confirm ::
    "SalesOrder \<Rightarrow> ConfirmOrder \<Rightarrow> SalesOrderEvent list domain_result" where
  "handle_confirm self cmd =
    (if \<not> so_created self then Inl NotFound
     else and_then (sales_ensure_tenant self (cfo_tenant_id cmd)) (\<lambda>_.
       and_then (sales_ensure_order_id self (cfo_order_id cmd)) (\<lambda>_.
         if so_status self \<noteq> SalesOrderStatus.Draft
           then Inl (InvariantViolation ''only draft orders can be confirmed'')
         else if so_lines self = [] then Inl (Validation ''cannot confirm order without lines'')
         else Inr [OrderConfirmed \<lparr> oc_tenant_id = cfo_tenant_id cmd,
                     oc_order_id = cfo_order_id cmd, oc_occurred_at = cfo_occurred_at cmd \<rparr>])))"

definition handle_mark_invoiced ::
    "SalesOrder \<Rightarrow> MarkInvoiced \<Rightarrow> SalesOrderEvent list domain_result" where
  "handle_mark_invoiced self cmd =
    (if \<not> so_created self then Inl NotFound
     else and_then (sales_ensure_tenant self (mi_tenant_id cmd)) (\<lambda>_.
       and_then (sales_ensure_order_id self (mi_order_id cmd)) (\<lambda>_.
         if \<not> is_invoice_allowed self
           then Inl (InvariantViolation ''cannot invoice order that is not confirmed'')
         else Inr [OrderInvoiced \<lparr> oi_tenant_id = mi_tenant_id cmd,
                     oi_order_id = mi_order_id cmd, oi_occurred_at = mi_occurred_at cmd \<rparr>])))"

primrec sales_handle :: "SalesOrder \<Rightarrow> SalesOrderCommand \<Rightarrow> SalesOrderEvent list domain_result" where
  "sales_handle self (CreateSalesOrder cmd) = sales_handle_create self cmd"
| "sales_handle self (AddLine cmd) = sales_handle_add_line self cmd"
| "sales_handle self (ConfirmOrder cmd) = handle_confirm self cmd"
| "sales_handle self (MarkInvoiced cmd) = handle_mark_invoiced self cmd"

definition sales_ops :: "(SalesOrder, SalesOrderEvent, SalesOrderCommand) AggregateOps" where
  "sales_ops = \<lparr> ao_apply = sales_apply, ao_handle = sales_handle, ao_event_type = sales_event_type,
     ao_event_version = sales_event_version, ao_occurred_at = sales_event_occurred_at \<rparr>"

lemmas sales_defs [handler_defs] =
  sales_ensure_tenant_def sales_ensure_order_id_def sales_handle_create_def
  sales_handle_add_line_def handle_confirm_def handle_mark_invoiced_def
  is_modifiable_def is_invoice_allowed_def

subsection \<open>Invariant\<close>

definition order_line_ok :: "OrderLine \<Rightarrow> bool" where
  "order_line_ok l \<longleftrightarrow> 0 < sint (ol_quantity l) \<and> ol_unit_price l \<noteq> 0"

definition numbered :: "OrderLine list \<Rightarrow> bool" where
  "numbered ls \<longleftrightarrow> map ol_line_no ls = map of_nat [1..<Suc (length ls)]"

definition sales_invar :: "SalesOrder \<Rightarrow> bool" where
  "sales_invar s \<longleftrightarrow>
     (\<forall>l \<in> set (so_lines s). order_line_ok l) \<and> numbered (so_lines s) \<and>
     (so_status s \<noteq> SalesOrderStatus.Draft \<longrightarrow> so_lines s \<noteq> []) \<and>
     (so_created s \<longrightarrow> so_tenant_id s \<noteq> None) \<and>
     (\<not> so_created s \<longrightarrow>
        so_status s = SalesOrderStatus.Draft \<and> so_lines s = [] \<and> so_tenant_id s = None)"

lemma sales_empty_invar [simp]: "sales_invar (sales_order_empty i)"
  by (simp add: sales_invar_def sales_order_empty_def numbered_def)

lemma numbered_snoc:
  assumes "numbered ls" "ol_line_no l = of_nat (length ls) + 1"
  shows "numbered (ls @ [l])"
  using assms by (simp add: numbered_def add.commute)

lemma sales_handle_shape:
  assumes "sales_handle s c = Inr es"
  shows "(\<exists>e. es = [SalesOrderCreated e] \<and> \<not> so_created s) \<or>
    (\<exists>e. es = [LineAdded e] \<and> so_created s \<and> so_status s = SalesOrderStatus.Draft \<and>
       order_line_ok (line_of e) \<and> la_line_no e = of_nat (length (so_lines s)) + 1 \<and>
       so_tenant_id s = Some (la_tenant_id e) \<and> so_id s = la_order_id e) \<or>
    (\<exists>e. es = [OrderConfirmed e] \<and> so_created s \<and> so_status s = SalesOrderStatus.Draft \<and>
       so_lines s \<noteq> [] \<and> so_tenant_id s = Some (oc_tenant_id e) \<and> so_id s = oc_order_id e) \<or>
    (\<exists>e. es = [OrderInvoiced e] \<and> so_created s \<and> so_status s = Confirmed \<and>
       so_tenant_id s = Some (oi_tenant_id e) \<and> so_id s = oi_order_id e)"
  using assms
  by (cases c) (auto simp: sales_defs result_simps Let_def order_line_ok_def line_of_def)

lemma sales_handle_cases:
  assumes "sales_handle s c = Inr es"
  obtains (create) e where "es = [SalesOrderCreated e]" "\<not> so_created s"
  | (line) e where "es = [LineAdded e]" "so_created s" "so_status s = SalesOrderStatus.Draft"
      "order_line_ok (line_of e)" "la_line_no e = of_nat (length (so_lines s)) + 1"
      "so_tenant_id s = Some (la_tenant_id e)" "so_id s = la_order_id e"
  | (confirm) e where "es = [OrderConfirmed e]" "so_created s"
      "so_status s = SalesOrderStatus.Draft" "so_lines s \<noteq> []"
      "so_tenant_id s = Some (oc_tenant_id e)" "so_id s = oc_order_id e"
  | (invoice) e where "es = [OrderInvoiced e]" "so_created s" "so_status s = Confirmed"
      "so_tenant_id s = Some (oi_tenant_id e)" "so_id s = oi_order_id e"
  using sales_handle_shape [OF assms] by blast

definition sales_owner :: "SalesOrder \<Rightarrow> TenantId option" where
  "sales_owner s = (if so_created s then so_tenant_id s else None)"

primrec sales_event_tenant :: "SalesOrderEvent \<Rightarrow> TenantId" where
  "sales_event_tenant (SalesOrderCreated e) = soc_tenant_id e"
| "sales_event_tenant (LineAdded e) = la_tenant_id e"
| "sales_event_tenant (OrderConfirmed e) = oc_tenant_id e"
| "sales_event_tenant (OrderInvoiced e) = oi_tenant_id e"

lemma sales_handle_invar:
  assumes "sales_invar s" "sales_handle s c = Inr es"
  shows "sales_invar (foldl sales_apply s es)"
  using assms(2)
proof (cases rule: sales_handle_cases)
  case (line e)
  then show ?thesis
    using assms(1) numbered_snoc [of "so_lines s" "line_of e"]
    by (auto simp: sales_apply_def sales_invar_def line_of_def)
qed (use assms(1) in \<open>auto simp: sales_apply_def sales_invar_def numbered_def\<close>)

interpretation sales_order:
  tenant_aggregate sales_apply sales_handle so_version sales_invar sales_owner sales_event_tenant
proof
  fix s e
  show "so_version (sales_apply s e) = so_version s + 1"
    by (cases e) (simp_all add: sales_apply_def)
next
  fix s c es e
  assume "sales_handle s c = Inr es" "e \<in> set es"
  then show "sales_owner (foldl sales_apply s es) = Some (sales_event_tenant e)"
    by (elim sales_handle_cases) (auto simp: sales_apply_def sales_owner_def)
next
  fix s c es t
  assume "sales_handle s c = Inr es" "sales_owner s = Some t"
  then show "sales_owner (foldl sales_apply s es) = Some t"
    by (elim sales_handle_cases) (auto simp: sales_apply_def sales_owner_def)
qed (rule sales_handle_invar)

subsection \<open>The shape of an order's history\<close>

text \<open>A creation, then line additions, then at most a confirmation and an invoicing.\<close>

definition sales_history :: "SalesOrderEvent list \<Rightarrow> SalesOrder \<Rightarrow> bool" where
  "sales_history h s \<longleftrightarrow>
     (h = [] \<and> \<not> so_created s \<and> so_status s = SalesOrderStatus.Draft) \<or>
     (\<exists>c ls. so_created s \<and> so_lines s = map line_of ls \<and>
        (h = SalesOrderCreated c # map LineAdded ls \<and> so_status s = SalesOrderStatus.Draft \<or>
         ls \<noteq> [] \<and> (\<exists>f. h = SalesOrderCreated c # map LineAdded ls @ [OrderConfirmed f] \<and>
                        so_status s = Confirmed) \<or>
         ls \<noteq> [] \<and> (\<exists>f i. h = SalesOrderCreated c # map LineAdded ls @ [OrderConfirmed f, OrderInvoiced i]
                        \<and> so_status s = Invoiced)))"

lemma sales_history_step:
  assumes "sales_history h s" "sales_handle s c = Inr es"
  shows "sales_history (h @ es) (foldl sales_apply s es)"
  using assms(2)
proof (cases rule: sales_handle_cases)
  case (create e)
  then have "h = []" using assms(1) by (auto simp: sales_history_def)
  then show ?thesis
    using create by (auto simp: sales_history_def sales_apply_def)
next
  case (line e)
  then obtain c0 ls where "h = SalesOrderCreated c0 # map LineAdded ls" "so_lines s = map line_of ls"
    using assms(1) by (auto simp: sales_history_def)
  then show ?thesis
    using line unfolding sales_history_def
    by (intro disjI2 exI [of _ c0] exI [of _ "ls @ [e]"]) (simp add: sales_apply_def)
next
  case (confirm e)
  then obtain c0 ls where "h = SalesOrderCreated c0 # map LineAdded ls" "so_lines s = map line_of ls"
    using assms(1) by (auto simp: sales_history_def)
  then show ?thesis
    using confirm unfolding sales_history_def
    by (intro disjI2 exI [of _ c0] exI [of _ ls]) (simp add: sales_apply_def)
next
  case (invoice e)
  then obtain c0 ls f where "h = SalesOrderCreated c0 # map LineAdded ls @ [OrderConfirmed f]"
    "so_lines s = map line_of ls" "ls \<noteq> []"
    using assms(1) by (auto simp: sales_history_def)
  then show ?thesis
    using invoice unfolding sales_history_def
    by (intro disjI2 exI [of _ c0] exI [of _ ls]) (simp add: sales_apply_def)
qed

lemma decided_sales_history:
  assumes "decided sales_apply sales_handle (sales_order_empty i) h"
  shows "sales_history h (foldl sales_apply (sales_order_empty i) h)"
  using assms
proof induction
  case decided_Nil
  then show ?case by (simp add: sales_history_def sales_order_empty_def)
next
  case (decided_step h c es)
  then show ?case using sales_history_step by fastforce
qed

subsection \<open>Properties\<close>

text \<open>C40: every history a sales order decides is a creation, line additions, at most a
  confirmation (of at least one line) and at most an invoicing; the order's lines are those of
  the line events, so they are frozen from the confirmation on; they are numbered 1, 2, ..., and
  every line has positive quantity and price.\<close>

theorem sales_order_history:
  assumes "decided sales_apply sales_handle (sales_order_empty i) h"
  shows "sales_history h (foldl sales_apply (sales_order_empty i) h) \<and>
    numbered (so_lines (foldl sales_apply (sales_order_empty i) h)) \<and>
    (\<forall>l \<in> set (so_lines (foldl sales_apply (sales_order_empty i) h)). order_line_ok l)"
proof -
  have "sales_invar (foldl sales_apply (sales_order_empty i) h)"
    using assms by (rule sales_order.decided_invar) simp
  then show ?thesis using decided_sales_history [OF assms] by (simp add: sales_invar_def)
qed

theorem sales_order_history_witness:
  "sales_history [SalesOrderCreated \<lparr> soc_tenant_id = TenantId 1,
        soc_order_id = SalesOrderId (AggregateId 7), soc_occurred_at = 5 \<rparr>]
     (foldl sales_apply (sales_order_empty (SalesOrderId (AggregateId 7)))
       [SalesOrderCreated \<lparr> soc_tenant_id = TenantId 1,
          soc_order_id = SalesOrderId (AggregateId 7), soc_occurred_at = 5 \<rparr>])"
proof -
  let ?i = "SalesOrderId (AggregateId 7)"
  have "decided sales_apply sales_handle (sales_order_empty ?i) ([] @ [SalesOrderCreated
      \<lparr> soc_tenant_id = TenantId 1, soc_order_id = ?i, soc_occurred_at = 5 \<rparr>])"
    by (rule decided_step [OF decided_Nil, where c = "CreateSalesOrder \<lparr> cso_tenant_id = TenantId 1,
      cso_order_id = ?i, cso_occurred_at = 5 \<rparr>"]) code_simp
  from sales_order_history [OF this] show ?thesis by simp
qed

end
