(* ===== verification/Purchasing.thy ===== *)
theory Purchasing
  imports Products Parties
begin

text \<open>
  The purchase order aggregate (\<^verbatim>\<open>purchasing/src/order.rs\<close>): lines are added to a draft,
  approval freezes them, and receiving the goods reports exactly the approved lines.
\<close>

subsection \<open>Data\<close>

datatype PurchaseOrderId = PurchaseOrderId (purchase_order_aggregate: AggregateId)

datatype PurchaseOrderStatus = Draft | Approved | Received | Closed

record LineItem =
  li_line_no :: u32
  li_product_id :: ProductId
  li_quantity :: i64

record PurchaseOrder =
  po_id :: PurchaseOrderId
  po_tenant_id :: "TenantId option"
  po_supplier_id :: "PartyId option"
  po_status :: PurchaseOrderStatus
  po_lines :: "LineItem list"
  po_version :: u64
  po_created :: bool

definition purchase_order_empty :: "PurchaseOrderId \<Rightarrow> PurchaseOrder" where
  "purchase_order_empty order_id = \<lparr> po_id = order_id, po_tenant_id = None, po_supplier_id = None,
     po_status = PurchaseOrderStatus.Draft, po_lines = [], po_version = 0, po_created = False \<rparr>"

record CreatePurchaseOrder =
  cpo_tenant_id :: TenantId
  cpo_order_id :: PurchaseOrderId
  cpo_supplier_id :: PartyId
  cpo_occurred_at :: datetime

record Approve =
  ap_tenant_id :: TenantId
  ap_order_id :: PurchaseOrderId
  ap_occurred_at :: datetime

record AddLine =
  pal_tenant_id :: TenantId
  pal_order_id :: PurchaseOrderId
  pal_product_id :: ProductId
  pal_quantity :: i64
  pal_occurred_at :: datetime

record ReceiveGoods =
  rg_tenant_id :: TenantId
  rg_order_id :: PurchaseOrderId
  rg_occurred_at :: datetime

datatype PurchaseOrderCommand =
    CreatePurchaseOrder CreatePurchaseOrder
  | AddLine AddLine
  | Approve Approve
  | ReceiveGoods ReceiveGoods

record PurchaseOrderCreated =
  poc_tenant_id :: TenantId
  poc_order_id :: PurchaseOrderId
  poc_supplier_id :: PartyId
  poc_occurred_at :: datetime

record PurchaseOrderApproved =
  poa_tenant_id :: TenantId
  poa_order_id :: PurchaseOrderId
  poa_occurred_at :: datetime

record PurchaseOrderLineAdded =
  pol_tenant_id :: TenantId
  pol_order_id :: PurchaseOrderId
  pol_line_no :: u32
  pol_product_id :: ProductId
  pol_quantity :: i64
  pol_occurred_at :: datetime

record GoodsReceived =
  gr_tenant_id :: TenantId
  gr_order_id :: PurchaseOrderId
  gr_supplier_id :: PartyId
  gr_lines :: "LineItem list"
  gr_occurred_at :: datetime

datatype PurchaseOrderEvent =
    PurchaseOrderCreated PurchaseOrderCreated
  | PurchaseOrderLineAdded PurchaseOrderLineAdded
  | PurchaseOrderApproved PurchaseOrderApproved
  | GoodsReceived GoodsReceived

primrec purchase_event_type :: "PurchaseOrderEvent \<Rightarrow> string" where
  "purchase_event_type (PurchaseOrderCreated _) = ''purchasing.order.created''"
| "purchase_event_type (PurchaseOrderLineAdded _) = ''purchasing.order.line_added''"
| "purchase_event_type (PurchaseOrderApproved _) = ''purchasing.order.approved''"
| "purchase_event_type (GoodsReceived _) = ''purchasing.order.goods_received''"

definition purchase_event_version :: "PurchaseOrderEvent \<Rightarrow> u32" where
  "purchase_event_version _ = 1"

primrec purchase_event_occurred_at :: "PurchaseOrderEvent \<Rightarrow> datetime" where
  "purchase_event_occurred_at (PurchaseOrderCreated e) = poc_occurred_at e"
| "purchase_event_occurred_at (PurchaseOrderLineAdded e) = pol_occurred_at e"
| "purchase_event_occurred_at (PurchaseOrderApproved e) = poa_occurred_at e"
| "purchase_event_occurred_at (GoodsReceived e) = gr_occurred_at e"

subsection \<open>Operations\<close>

definition item_of :: "PurchaseOrderLineAdded \<Rightarrow> LineItem" where
  "item_of e = \<lparr> li_line_no = pol_line_no e, li_product_id = pol_product_id e,
     li_quantity = pol_quantity e \<rparr>"

definition purchase_apply :: "PurchaseOrder \<Rightarrow> PurchaseOrderEvent \<Rightarrow> PurchaseOrder" where
  "purchase_apply self event =
    (let self' = (case event of
         PurchaseOrderCreated e \<Rightarrow>
           self\<lparr>po_id := poc_order_id e, po_tenant_id := Some (poc_tenant_id e),
                po_supplier_id := Some (poc_supplier_id e),
                po_status := PurchaseOrderStatus.Draft, po_lines := [], po_created := True\<rparr>
       | PurchaseOrderLineAdded e \<Rightarrow> self\<lparr>po_lines := po_lines self @ [item_of e]\<rparr>
       | PurchaseOrderApproved _ \<Rightarrow> self\<lparr>po_status := Approved\<rparr>
       | GoodsReceived e \<Rightarrow> self\<lparr>po_lines := gr_lines e, po_status := Received\<rparr>)
     in self'\<lparr>po_version := po_version self' + 1\<rparr>)"

definition purchase_ensure_tenant :: "PurchaseOrder \<Rightarrow> TenantId \<Rightarrow> unit domain_result" where
  "purchase_ensure_tenant self tenant_id =
    (if \<not> po_created self then Inr ()
     else if po_tenant_id self \<noteq> Some tenant_id then Inl (InvariantViolation ''tenant mismatch'')
     else Inr ())"

definition purchase_ensure_order_id :: "PurchaseOrder \<Rightarrow> PurchaseOrderId \<Rightarrow> unit domain_result" where
  "purchase_ensure_order_id self order_id =
    (if po_id self \<noteq> order_id then Inl (InvariantViolation ''order_id mismatch'') else Inr ())"

definition purchase_handle_create ::
    "PurchaseOrder \<Rightarrow> CreatePurchaseOrder \<Rightarrow> PurchaseOrderEvent list domain_result" where
  "purchase_handle_create self cmd =
    (if po_created self then Inl (Conflict ''purchase order already exists'')
     else Inr [PurchaseOrderCreated \<lparr> poc_tenant_id = cpo_tenant_id cmd,
                 poc_order_id = cpo_order_id cmd, poc_supplier_id = cpo_supplier_id cmd,
                 poc_occurred_at = cpo_occurred_at cmd \<rparr>])"

definition handle_approve ::
    "PurchaseOrder \<Rightarrow> Approve \<Rightarrow> PurchaseOrderEvent list domain_result" where
  "handle_approve self cmd =
    (if \<not> po_created self then Inl NotFound
     else and_then (purchase_ensure_tenant self (ap_tenant_id cmd)) (\<lambda>_.
       and_then (purchase_ensure_order_id self (ap_order_id cmd)) (\<lambda>_.
         if po_status self \<noteq> PurchaseOrderStatus.Draft
           then Inl (InvariantViolation ''only draft purchase orders can be approved'')
         else if po_lines self = []
           then Inl (Validation ''cannot approve purchase order without lines'')
         else Inr [PurchaseOrderApproved \<lparr> poa_tenant_id = ap_tenant_id cmd,
                     poa_order_id = ap_order_id cmd, poa_occurred_at = ap_occurred_at cmd \<rparr>])))"

definition purchase_handle_add_line ::
    "PurchaseOrder \<Rightarrow> AddLine \<Rightarrow> PurchaseOrderEvent list domain_result" where
  "purchase_handle_add_line self cmd =
    (if \<not> po_created self then Inl NotFound
     else and_then (purchase_ensure_tenant self (pal_tenant_id cmd)) (\<lambda>_.
       and_then (purchase_ensure_order_id self (pal_order_id cmd)) (\<lambda>_.
         if po_status self \<noteq> PurchaseOrderStatus.Draft
           then Inl (InvariantViolation ''cannot modify purchase order once approved or received'')
         else if sint (pal_quantity cmd) \<le> 0 then Inl (Validation ''quantity must be positive'')
         else (let next_line_no = of_nat (length (po_lines self)) + 1 in
           Inr [PurchaseOrderLineAdded \<lparr> pol_tenant_id = pal_tenant_id cmd,
                  pol_order_id = pal_order_id cmd, pol_line_no = next_line_no,
                  pol_product_id = pal_product_id cmd, pol_quantity = pal_quantity cmd,
                  pol_occurred_at = pal_occurred_at cmd \<rparr>]))))"

definition handle_receive ::
    "PurchaseOrder \<Rightarrow> ReceiveGoods \<Rightarrow> PurchaseOrderEvent list domain_result" where
  "handle_receive self cmd =
    (if \<not> po_created self then Inl NotFound
     else and_then (purchase_ensure_tenant self (rg_tenant_id cmd)) (\<lambda>_.
       and_then (purchase_ensure_order_id self (rg_order_id cmd)) (\<lambda>_.
         if po_status self \<noteq> Approved
           then Inl (InvariantViolation ''cannot receive goods before purchase order is approved'')
         else (case po_supplier_id self of
             None \<Rightarrow> Inl (InvariantViolation ''supplier must be set'')
           | Some supplier_id \<Rightarrow>
               if po_lines self = []
                 then Inl (Validation ''cannot receive goods for empty purchase order'')
               else Inr [GoodsReceived \<lparr> gr_tenant_id = rg_tenant_id cmd,
                           gr_order_id = rg_order_id cmd, gr_supplier_id = supplier_id,
                           gr_lines = po_lines self, gr_occurred_at = rg_occurred_at cmd \<rparr>]))))"

primrec purchase_handle ::
    "PurchaseOrder \<Rightarrow> PurchaseOrderCommand \<Rightarrow> PurchaseOrderEvent list domain_result" where
  "purchase_handle self (CreatePurchaseOrder cmd) = purchase_handle_create self cmd"
| "purchase_handle self (AddLine cmd) = purchase_handle_add_line self cmd"
| "purchase_handle self (Approve cmd) = handle_approve self cmd"
| "purchase_handle self (ReceiveGoods cmd) = handle_receive self cmd"

definition purchase_ops :: "(PurchaseOrder, PurchaseOrderEvent, PurchaseOrderCommand) AggregateOps" where
  "purchase_ops = \<lparr> ao_apply = purchase_apply, ao_handle = purchase_handle, ao_event_type = purchase_event_type,
     ao_event_version = purchase_event_version, ao_occurred_at = purchase_event_occurred_at \<rparr>"

lemmas purchase_defs [handler_defs] =
  purchase_ensure_tenant_def purchase_ensure_order_id_def purchase_handle_create_def
  handle_approve_def purchase_handle_add_line_def handle_receive_def

subsection \<open>Invariant\<close>

definition purchase_invar :: "PurchaseOrder \<Rightarrow> bool" where
  "purchase_invar s \<longleftrightarrow>
     (\<forall>l \<in> set (po_lines s). 0 < sint (li_quantity l)) \<and>
     map li_line_no (po_lines s) = map of_nat [1..<Suc (length (po_lines s))] \<and>
     (po_status s \<noteq> PurchaseOrderStatus.Draft \<longrightarrow> po_lines s \<noteq> []) \<and>
     (po_created s \<longrightarrow> po_tenant_id s \<noteq> None \<and> po_supplier_id s \<noteq> None) \<and>
     (\<not> po_created s \<longrightarrow>
        po_status s = PurchaseOrderStatus.Draft \<and> po_lines s = [] \<and> po_tenant_id s = None)"

lemma purchase_empty_invar [simp]: "purchase_invar (purchase_order_empty i)"
  by (simp add: purchase_invar_def purchase_order_empty_def)

lemma purchase_handle_shape:
  assumes "purchase_handle s c = Inr es"
  shows "(\<exists>e. es = [PurchaseOrderCreated e] \<and> \<not> po_created s) \<or>
    (\<exists>e. es = [PurchaseOrderLineAdded e] \<and> po_created s \<and> po_status s = PurchaseOrderStatus.Draft \<and>
       0 < sint (pol_quantity e) \<and> pol_line_no e = of_nat (length (po_lines s)) + 1 \<and>
       po_tenant_id s = Some (pol_tenant_id e) \<and> po_id s = pol_order_id e) \<or>
    (\<exists>e. es = [PurchaseOrderApproved e] \<and> po_created s \<and> po_status s = PurchaseOrderStatus.Draft \<and>
       po_lines s \<noteq> [] \<and> po_tenant_id s = Some (poa_tenant_id e) \<and> po_id s = poa_order_id e) \<or>
    (\<exists>e. es = [GoodsReceived e] \<and> po_created s \<and> po_status s = Approved \<and> po_lines s \<noteq> [] \<and>
       gr_lines e = po_lines s \<and> po_supplier_id s = Some (gr_supplier_id e) \<and>
       po_tenant_id s = Some (gr_tenant_id e) \<and> po_id s = gr_order_id e)"
  using assms
  by (cases c) (auto simp: purchase_defs result_simps Let_def split: option.splits)

lemma purchase_handle_cases:
  assumes "purchase_handle s c = Inr es"
  obtains (create) e where "es = [PurchaseOrderCreated e]" "\<not> po_created s"
  | (line) e where "es = [PurchaseOrderLineAdded e]" "po_created s"
      "po_status s = PurchaseOrderStatus.Draft" "0 < sint (pol_quantity e)"
      "pol_line_no e = of_nat (length (po_lines s)) + 1"
      "po_tenant_id s = Some (pol_tenant_id e)" "po_id s = pol_order_id e"
  | (approve) e where "es = [PurchaseOrderApproved e]" "po_created s"
      "po_status s = PurchaseOrderStatus.Draft" "po_lines s \<noteq> []"
      "po_tenant_id s = Some (poa_tenant_id e)" "po_id s = poa_order_id e"
  | (receive) e where "es = [GoodsReceived e]" "po_created s" "po_status s = Approved"
      "po_lines s \<noteq> []" "gr_lines e = po_lines s" "po_supplier_id s = Some (gr_supplier_id e)"
      "po_tenant_id s = Some (gr_tenant_id e)" "po_id s = gr_order_id e"
  using purchase_handle_shape [OF assms] by blast

definition purchase_owner :: "PurchaseOrder \<Rightarrow> TenantId option" where
  "purchase_owner s = (if po_created s then po_tenant_id s else None)"

primrec purchase_event_tenant :: "PurchaseOrderEvent \<Rightarrow> TenantId" where
  "purchase_event_tenant (PurchaseOrderCreated e) = poc_tenant_id e"
| "purchase_event_tenant (PurchaseOrderLineAdded e) = pol_tenant_id e"
| "purchase_event_tenant (PurchaseOrderApproved e) = poa_tenant_id e"
| "purchase_event_tenant (GoodsReceived e) = gr_tenant_id e"

lemma purchase_handle_invar:
  assumes "purchase_invar s" "purchase_handle s c = Inr es"
  shows "purchase_invar (foldl purchase_apply s es)"
  using assms(2)
  by (cases rule: purchase_handle_cases)
    (use assms(1) in \<open>auto simp: purchase_apply_def purchase_invar_def item_of_def add.commute\<close>)

interpretation purchase_order:
  tenant_aggregate purchase_apply purchase_handle po_version purchase_invar
    purchase_owner purchase_event_tenant
proof
  fix s e
  show "po_version (purchase_apply s e) = po_version s + 1"
    by (cases e) (simp_all add: purchase_apply_def)
next
  fix s c es e
  assume "purchase_handle s c = Inr es" "e \<in> set es"
  then show "purchase_owner (foldl purchase_apply s es) = Some (purchase_event_tenant e)"
    by (elim purchase_handle_cases) (auto simp: purchase_apply_def purchase_owner_def)
next
  fix s c es t
  assume "purchase_handle s c = Inr es" "purchase_owner s = Some t"
  then show "purchase_owner (foldl purchase_apply s es) = Some t"
    by (elim purchase_handle_cases) (auto simp: purchase_apply_def purchase_owner_def)
qed (rule purchase_handle_invar)

subsection \<open>The shape of a purchase order's history\<close>

definition purchase_history :: "PurchaseOrderEvent list \<Rightarrow> PurchaseOrder \<Rightarrow> bool" where
  "purchase_history h s \<longleftrightarrow>
     (h = [] \<and> \<not> po_created s \<and> po_status s = PurchaseOrderStatus.Draft) \<or>
     (\<exists>c ls. po_created s \<and> po_lines s = map item_of ls \<and>
        po_supplier_id s = Some (poc_supplier_id c) \<and>
        (h = PurchaseOrderCreated c # map PurchaseOrderLineAdded ls \<and>
           po_status s = PurchaseOrderStatus.Draft \<or>
         ls \<noteq> [] \<and> po_status s = Approved \<and>
           (\<exists>a. h = PurchaseOrderCreated c # map PurchaseOrderLineAdded ls @ [PurchaseOrderApproved a]) \<or>
         ls \<noteq> [] \<and> po_status s = Received \<and>
           (\<exists>a g. h = PurchaseOrderCreated c # map PurchaseOrderLineAdded ls
                       @ [PurchaseOrderApproved a, GoodsReceived g] \<and>
              gr_lines g = map item_of ls \<and> gr_supplier_id g = poc_supplier_id c)))"

lemma purchase_history_step:
  assumes "purchase_history h s" "purchase_handle s c = Inr es"
  shows "purchase_history (h @ es) (foldl purchase_apply s es)"
  using assms(2)
proof (cases rule: purchase_handle_cases)
  case (create e)
  then have "h = []" using assms(1) by (auto simp: purchase_history_def)
  then show ?thesis
    using create by (auto simp: purchase_history_def purchase_apply_def)
next
  case (line e)
  then obtain c0 ls where "h = PurchaseOrderCreated c0 # map PurchaseOrderLineAdded ls"
    "po_lines s = map item_of ls" "po_supplier_id s = Some (poc_supplier_id c0)"
    using assms(1) by (auto simp: purchase_history_def)
  then show ?thesis
    using line unfolding purchase_history_def
    by (intro disjI2 exI [of _ c0] exI [of _ "ls @ [e]"]) (simp add: purchase_apply_def)
next
  case (approve e)
  then obtain c0 ls where "h = PurchaseOrderCreated c0 # map PurchaseOrderLineAdded ls"
    "po_lines s = map item_of ls" "po_supplier_id s = Some (poc_supplier_id c0)"
    using assms(1) by (auto simp: purchase_history_def)
  then show ?thesis
    using approve unfolding purchase_history_def
    by (intro disjI2 exI [of _ c0] exI [of _ ls]) (simp add: purchase_apply_def)
next
  case (receive e)
  then obtain c0 ls a where
    "h = PurchaseOrderCreated c0 # map PurchaseOrderLineAdded ls @ [PurchaseOrderApproved a]"
    "po_lines s = map item_of ls" "po_supplier_id s = Some (poc_supplier_id c0)" "ls \<noteq> []"
    using assms(1) by (auto simp: purchase_history_def)
  then show ?thesis
    using receive unfolding purchase_history_def
    by (intro disjI2 exI [of _ c0] exI [of _ ls]) (simp add: purchase_apply_def)
qed

lemma decided_purchase_history:
  assumes "decided purchase_apply purchase_handle (purchase_order_empty i) h"
  shows "purchase_history h (foldl purchase_apply (purchase_order_empty i) h)"
  using assms
proof induction
  case decided_Nil
  then show ?case by (simp add: purchase_history_def purchase_order_empty_def)
next
  case (decided_step h c es)
  then show ?case using purchase_history_step by fastforce
qed

subsection \<open>Properties\<close>

text \<open>Every history a purchase order decides is a creation, line additions, at most an
  approval (of at least one line) and at most one receipt of goods; the receipt lists exactly the
  ordered lines, in order, and names the supplier the order was created for.\<close>

theorem purchase_order_history:
  assumes "decided purchase_apply purchase_handle (purchase_order_empty i) h"
  shows "purchase_history h (foldl purchase_apply (purchase_order_empty i) h) \<and>
    map li_line_no (po_lines (foldl purchase_apply (purchase_order_empty i) h)) =
      map of_nat [1..<Suc (length (po_lines (foldl purchase_apply (purchase_order_empty i) h)))]"
proof -
  have "purchase_invar (foldl purchase_apply (purchase_order_empty i) h)"
    using assms by (rule purchase_order.decided_invar) simp
  then show ?thesis using decided_purchase_history [OF assms] by (simp add: purchase_invar_def)
qed

theorem purchase_order_history_witness:
  "purchase_history [PurchaseOrderCreated \<lparr> poc_tenant_id = TenantId 1,
        poc_order_id = PurchaseOrderId (AggregateId 7), poc_supplier_id = PartyId (AggregateId 3),
        poc_occurred_at = 5 \<rparr>]
     (foldl purchase_apply (purchase_order_empty (PurchaseOrderId (AggregateId 7)))
       [PurchaseOrderCreated \<lparr> poc_tenant_id = TenantId 1,
          poc_order_id = PurchaseOrderId (AggregateId 7), poc_supplier_id = PartyId (AggregateId 3),
          poc_occurred_at = 5 \<rparr>])"
proof -
  let ?i = "PurchaseOrderId (AggregateId 7)"
  have "decided purchase_apply purchase_handle (purchase_order_empty ?i) ([] @ [PurchaseOrderCreated
      \<lparr> poc_tenant_id = TenantId 1, poc_order_id = ?i, poc_supplier_id = PartyId (AggregateId 3),
        poc_occurred_at = 5 \<rparr>])"
    by (rule decided_step [OF decided_Nil, where c = "CreatePurchaseOrder \<lparr> cpo_tenant_id = TenantId 1,
      cpo_order_id = ?i, cpo_supplier_id = PartyId (AggregateId 3), cpo_occurred_at = 5 \<rparr>"]) code_simp
  from purchase_order_history [OF this] show ?thesis by simp
qed

end
