(* ===== verification/Order_Projections.thy ===== *)
theory Order_Projections
  imports Projections Sales Purchasing
begin

text \<open>
  The read models of sales orders (\<^verbatim>\<open>infra/src/projections/sales_orders.rs\<close>) and purchase orders
  (\<^verbatim>\<open>infra/src/projections/purchasing.rs\<close>): both show the aggregates' states.  The purchase
  projection invents a supplier with \<^verbatim>\<open>AggregateId::new()\<close> when it has no row for an order;
  this fresh identifier is the argument \<^verbatim>\<open>fresh\<close>.
\<close>

subsection \<open>Sales orders\<close>

record SalesOrderLineReadModel =
  slr_line_no :: u32
  slr_product_id :: ProductId
  slr_quantity :: i64
  slr_unit_price :: u64

record SalesOrderReadModel =
  sor_order_id :: SalesOrderId
  sor_status :: SalesOrderStatus
  sor_lines :: "SalesOrderLineReadModel list"

type_synonym sales_store = "(SalesOrderId, SalesOrderReadModel) InMemoryTenantStore"

primrec sales_event_order :: "SalesOrderEvent \<Rightarrow> SalesOrderId" where
  "sales_event_order (SalesOrderCreated e) = soc_order_id e"
| "sales_event_order (LineAdded e) = la_order_id e"
| "sales_event_order (OrderConfirmed e) = oc_order_id e"
| "sales_event_order (OrderInvoiced e) = oi_order_id e"

definition sales_check :: "TenantId \<Rightarrow> AggregateId \<Rightarrow> SalesOrderEvent \<Rightarrow> ApplyError + unit" where
  "sales_check tenant_id aggregate_id ev =
    (if sales_event_tenant ev \<noteq> tenant_id
       then Inl (TenantIsolation ''event tenant_id does not match envelope tenant_id'')
     else if sales_order_aggregate (sales_event_order ev) \<noteq> aggregate_id
       then Inl (TenantIsolation ''event order_id does not match envelope aggregate_id'')
     else Inr ())"

definition sales_missing :: "SalesOrderId \<Rightarrow> SalesOrderReadModel" where
  "sales_missing i = \<lparr> sor_order_id = i, sor_status = SalesOrderStatus.Draft, sor_lines = [] \<rparr>"

definition sales_line_of :: "LineAdded \<Rightarrow> SalesOrderLineReadModel" where
  "sales_line_of e = \<lparr> slr_line_no = la_line_no e, slr_product_id = la_product_id e,
     slr_quantity = la_quantity e, slr_unit_price = la_unit_price e \<rparr>"

definition sales_orders_update ::
    "sales_store \<Rightarrow> TenantId \<Rightarrow> AggregateId \<Rightarrow> SalesOrderEvent \<Rightarrow> sales_store" where
  "sales_orders_update store tenant_id _ ev =
    (case ev of
       SalesOrderCreated e \<Rightarrow> ts_upsert store tenant_id (soc_order_id e)
         \<lparr> sor_order_id = soc_order_id e, sor_status = SalesOrderStatus.Draft, sor_lines = [] \<rparr>
     | LineAdded e \<Rightarrow>
         (let rm = (case ts_get store tenant_id (la_order_id e) of
                Some rm \<Rightarrow> rm | None \<Rightarrow> sales_missing (la_order_id e))
          in ts_upsert store tenant_id (la_order_id e) (rm\<lparr>sor_lines := sor_lines rm @ [sales_line_of e]\<rparr>))
     | OrderConfirmed e \<Rightarrow>
         (let rm = (case ts_get store tenant_id (oc_order_id e) of
                Some rm \<Rightarrow> rm | None \<Rightarrow> sales_missing (oc_order_id e))
          in ts_upsert store tenant_id (oc_order_id e) (rm\<lparr>sor_status := SalesOrderStatus.Confirmed\<rparr>))
     | OrderInvoiced e \<Rightarrow>
         (let rm = (case ts_get store tenant_id (oi_order_id e) of
                Some rm \<Rightarrow> rm | None \<Rightarrow> sales_missing (oi_order_id e))
          in ts_upsert store tenant_id (oi_order_id e) (rm\<lparr>sor_status := SalesOrderStatus.Invoiced\<rparr>)))"

definition sales_orders :: "(sales_store, SalesOrderEvent) ProjectionLogic" where
  "sales_orders = \<lparr> pl_aggregate_type = ''sales.order'', pl_check = sales_check,
     pl_update = sales_orders_update \<rparr>"

definition sales_row :: "SalesOrderReadModel option \<Rightarrow> SalesOrderEvent \<Rightarrow> SalesOrderReadModel option" where
  "sales_row r ev =
    (let rm = (case r of Some rm \<Rightarrow> rm | None \<Rightarrow> sales_missing (sales_event_order ev)) in
     Some (case ev of
       SalesOrderCreated e \<Rightarrow> sales_missing (soc_order_id e)
     | LineAdded e \<Rightarrow> rm\<lparr>sor_lines := sor_lines rm @ [sales_line_of e]\<rparr>
     | OrderConfirmed e \<Rightarrow> rm\<lparr>sor_status := SalesOrderStatus.Confirmed\<rparr>
     | OrderInvoiced e \<Rightarrow> rm\<lparr>sor_status := SalesOrderStatus.Invoiced\<rparr>))"

definition sales_view :: "SalesOrder \<Rightarrow> SalesOrderReadModel option" where
  "sales_view s = (if so_created s
     then Some \<lparr> sor_order_id = so_id s, sor_status = so_status s,
       sor_lines = map (\<lambda>l. \<lparr> slr_line_no = ol_line_no l, slr_product_id = ol_product_id l,
         slr_quantity = ol_quantity l, slr_unit_price = ol_unit_price l \<rparr>) (so_lines s) \<rparr> else None)"

lemma sales_view_empty [simp]: "sales_view (sales_order_empty i) = None"
  by (simp add: sales_view_def sales_order_empty_def)

interpretation sales_view: state_view ts_get ts_upsert "ts_list id" ts_clear_tenant ts_ok
    sales_orders sales_event_order sales_row sales_order_aggregate
    sales_apply sales_handle so_version sales_invar
    SalesOrderId "\<lambda>a. sales_order_empty (SalesOrderId a)" id sales_view
proof
  fix s :: sales_store and t a e t' k
  assume ok: "ts_ok s"
  show "ts_ok (pl_update sales_orders s t a e)"
    using ok by (cases e) (simp_all add: sales_orders_def sales_orders_update_def Let_def
      in_memory_tenant_store.store_simps)
  show "ts_get (pl_update sales_orders s t a e) t' k =
      (if t' = t \<and> k = sales_event_order e then sales_row (ts_get s t k) e else ts_get s t' k)"
    using ok by (cases e) (auto simp: sales_orders_def sales_orders_update_def sales_row_def Let_def
      sales_missing_def in_memory_tenant_store.store_simps split: option.splits)
next
  fix s c es assume "sales_handle s c = Inr es"
  then show "length es \<le> 1" by (elim sales_handle_cases) simp_all
next
  fix s c es r assume "sales_invar s" "sales_handle s c = Inr es" "map_option id r = sales_view s"
  then show "map_option id (foldl sales_row r es) = sales_view (foldl sales_apply s es)"
    by (elim sales_handle_cases)
      (auto simp: sales_apply_def sales_view_def sales_row_def sales_invar_def sales_missing_def
        sales_line_of_def line_of_def Let_def)
qed (auto simp: sales_orders_def sales_check_def SalesOrderId.expand split: if_splits)

lemma sales_orders_show_state:
  "shows_state ops from_value hist envs sales_orders SalesOrderId
     (\<lambda>a. sales_order_empty (SalesOrderId a)) sales_apply sales_handle id sales_view"
  unfolding shows_state_def
  using sales_view.deliver_view [of hist "projection_new ts_new []" ops envs from_value] by simp

subsection \<open>Purchase orders\<close>

record PurchaseOrderReadModel =
  por_order_id :: PurchaseOrderId
  por_supplier_id :: PartyId
  por_status :: PurchaseOrderStatus
  por_lines :: "LineItem list"

type_synonym purchase_store = "(PurchaseOrderId, PurchaseOrderReadModel) InMemoryTenantStore"

primrec purchase_event_order :: "PurchaseOrderEvent \<Rightarrow> PurchaseOrderId" where
  "purchase_event_order (PurchaseOrderCreated e) = poc_order_id e"
| "purchase_event_order (PurchaseOrderLineAdded e) = pol_order_id e"
| "purchase_event_order (PurchaseOrderApproved e) = poa_order_id e"
| "purchase_event_order (GoodsReceived e) = gr_order_id e"

definition purchase_check :: "TenantId \<Rightarrow> AggregateId \<Rightarrow> PurchaseOrderEvent \<Rightarrow> ApplyError + unit" where
  "purchase_check tenant_id aggregate_id ev =
    (if purchase_event_tenant ev \<noteq> tenant_id
       then Inl (TenantIsolation ''event tenant_id does not match envelope tenant_id'')
     else if purchase_order_aggregate (purchase_event_order ev) \<noteq> aggregate_id
       then Inl (TenantIsolation ''event order_id does not match envelope aggregate_id'')
     else Inr ())"

definition purchase_missing :: "PurchaseOrderId \<Rightarrow> PartyId \<Rightarrow> PurchaseOrderReadModel" where
  "purchase_missing i supplier = \<lparr> por_order_id = i, por_supplier_id = supplier,
     por_status = PurchaseOrderStatus.Draft, por_lines = [] \<rparr>"

definition purchase_orders_update ::
    "AggregateId \<Rightarrow> purchase_store \<Rightarrow> TenantId \<Rightarrow> AggregateId \<Rightarrow> PurchaseOrderEvent \<Rightarrow> purchase_store" where
  "purchase_orders_update fresh store tenant_id _ ev =
    (case ev of
       PurchaseOrderCreated e \<Rightarrow> ts_upsert store tenant_id (poc_order_id e)
         \<lparr> por_order_id = poc_order_id e, por_supplier_id = poc_supplier_id e,
           por_status = PurchaseOrderStatus.Draft, por_lines = [] \<rparr>
     | PurchaseOrderLineAdded e \<Rightarrow>
         (let rm = (case ts_get store tenant_id (pol_order_id e) of
                Some rm \<Rightarrow> rm | None \<Rightarrow> purchase_missing (pol_order_id e) (PartyId fresh))
          in ts_upsert store tenant_id (pol_order_id e) (rm\<lparr>por_lines := por_lines rm @
               [\<lparr> li_line_no = pol_line_no e, li_product_id = pol_product_id e,
                  li_quantity = pol_quantity e \<rparr>]\<rparr>))
     | PurchaseOrderApproved e \<Rightarrow>
         (let rm = (case ts_get store tenant_id (poa_order_id e) of
                Some rm \<Rightarrow> rm | None \<Rightarrow> purchase_missing (poa_order_id e) (PartyId fresh))
          in ts_upsert store tenant_id (poa_order_id e) (rm\<lparr>por_status := PurchaseOrderStatus.Approved\<rparr>))
     | GoodsReceived e \<Rightarrow>
         (let rm = (case ts_get store tenant_id (gr_order_id e) of
                Some rm \<Rightarrow> rm | None \<Rightarrow> purchase_missing (gr_order_id e) (gr_supplier_id e))
          in ts_upsert store tenant_id (gr_order_id e)
               (rm\<lparr>por_status := PurchaseOrderStatus.Received, por_lines := gr_lines e\<rparr>)))"

definition purchase_orders :: "AggregateId \<Rightarrow> (purchase_store, PurchaseOrderEvent) ProjectionLogic" where
  "purchase_orders fresh = \<lparr> pl_aggregate_type = ''purchasing.order'', pl_check = purchase_check,
     pl_update = purchase_orders_update fresh \<rparr>"

definition purchase_row ::
    "AggregateId \<Rightarrow> PurchaseOrderReadModel option \<Rightarrow> PurchaseOrderEvent \<Rightarrow> PurchaseOrderReadModel option" where
  "purchase_row fresh r ev =
    (let supplier = (case ev of GoodsReceived e \<Rightarrow> gr_supplier_id e | _ \<Rightarrow> PartyId fresh);
         rm = (case r of Some rm \<Rightarrow> rm | None \<Rightarrow> purchase_missing (purchase_event_order ev) supplier) in
     Some (case ev of
       PurchaseOrderCreated e \<Rightarrow> purchase_missing (poc_order_id e) (poc_supplier_id e)
     | PurchaseOrderLineAdded e \<Rightarrow> rm\<lparr>por_lines := por_lines rm @
         [\<lparr> li_line_no = pol_line_no e, li_product_id = pol_product_id e, li_quantity = pol_quantity e \<rparr>]\<rparr>
     | PurchaseOrderApproved e \<Rightarrow> rm\<lparr>por_status := PurchaseOrderStatus.Approved\<rparr>
     | GoodsReceived e \<Rightarrow> rm\<lparr>por_status := PurchaseOrderStatus.Received, por_lines := gr_lines e\<rparr>))"

definition purchase_view :: "PurchaseOrder \<Rightarrow> PurchaseOrderReadModel option" where
  "purchase_view s = (if po_created s
     then map_option (\<lambda>supplier. \<lparr> por_order_id = po_id s, por_supplier_id = supplier, por_status = po_status s,
       por_lines = po_lines s \<rparr>) (po_supplier_id s) else None)"

lemma purchase_view_empty [simp]: "purchase_view (purchase_order_empty i) = None"
  by (simp add: purchase_view_def purchase_order_empty_def)

interpretation purchase_view: state_view ts_get ts_upsert "ts_list id" ts_clear_tenant ts_ok
    "purchase_orders fresh" purchase_event_order "purchase_row fresh" purchase_order_aggregate
    purchase_apply purchase_handle po_version purchase_invar
    PurchaseOrderId "\<lambda>a. purchase_order_empty (PurchaseOrderId a)" id purchase_view
  for fresh
proof
  fix s :: purchase_store and t a e t' k
  assume ok: "ts_ok s"
  show "ts_ok (pl_update (purchase_orders fresh) s t a e)"
    using ok by (cases e) (simp_all add: purchase_orders_def purchase_orders_update_def Let_def
      in_memory_tenant_store.store_simps)
  show "ts_get (pl_update (purchase_orders fresh) s t a e) t' k =
      (if t' = t \<and> k = purchase_event_order e then purchase_row fresh (ts_get s t k) e else ts_get s t' k)"
    using ok by (cases e) (auto simp: purchase_orders_def purchase_orders_update_def purchase_row_def Let_def
      purchase_missing_def in_memory_tenant_store.store_simps split: option.splits)
next
  fix s c es assume "purchase_handle s c = Inr es"
  then show "length es \<le> 1" by (elim purchase_handle_cases) simp_all
next
  fix s c es r assume "purchase_invar s" "purchase_handle s c = Inr es" "map_option id r = purchase_view s"
  then show "map_option id (foldl (purchase_row fresh) r es) = purchase_view (foldl purchase_apply s es)"
    by (elim purchase_handle_cases)
      (auto simp: purchase_apply_def purchase_view_def purchase_row_def purchase_invar_def
        purchase_missing_def item_of_def Let_def)
qed (auto simp: purchase_orders_def purchase_check_def PurchaseOrderId.expand split: if_splits)

lemma purchase_orders_show_state:
  "shows_state ops from_value hist envs (purchase_orders fresh) PurchaseOrderId
     (\<lambda>a. purchase_order_empty (PurchaseOrderId a)) purchase_apply purchase_handle id purchase_view"
  unfolding shows_state_def
  using purchase_view.deliver_view [of hist "projection_new ts_new []" ops envs from_value fresh] by simp

end
