(* ===== verification/Invoicing.thy ===== *)
theory Invoicing
  imports Sales
begin

text \<open>
  The invoice aggregate (\<^verbatim>\<open>invoicing/src/invoice.rs\<close>): issuing computes the total with
  128-bit products narrowed to 64 bits, payments accumulate up to the total, voiding ends
  the invoice.  The lemmas relate the computed total to the mathematical one, and the
  recorded payments to the amounts of the payment events.
\<close>

subsection \<open>Data\<close>

datatype InvoiceId = InvoiceId (invoice_aggregate: AggregateId)

datatype InvoiceStatus = Open | Paid | Void

record InvoiceLine =
  il_line_no :: u32
  il_sales_order_id :: SalesOrderId
  il_product_id :: ProductId
  il_quantity :: i64
  il_unit_price :: u64

record Invoice =
  iv_id :: InvoiceId
  iv_tenant_id :: "TenantId option"
  iv_status :: InvoiceStatus
  iv_lines :: "InvoiceLine list"
  iv_due_date :: "datetime option"
  iv_total_amount :: u64
  iv_total_paid :: u64
  iv_version :: u64
  iv_created :: bool

definition invoice_empty :: "InvoiceId \<Rightarrow> Invoice" where
  "invoice_empty invoice_id = \<lparr> iv_id = invoice_id, iv_tenant_id = None, iv_status = Open,
     iv_lines = [], iv_due_date = None, iv_total_amount = 0, iv_total_paid = 0, iv_version = 0,
     iv_created = False \<rparr>"

definition outstanding_amount :: "Invoice \<Rightarrow> u64" where
  "outstanding_amount self = u64_saturating_sub (iv_total_amount self) (iv_total_paid self)"

definition can_accept_payment :: "Invoice \<Rightarrow> bool" where
  "can_accept_payment self = (iv_status self \<noteq> Void \<and> outstanding_amount self > 0)"

record IssueInvoice =
  is_tenant_id :: TenantId
  is_invoice_id :: InvoiceId
  is_sales_order_id :: SalesOrderId
  is_lines :: "InvoiceLine list"
  is_due_date :: datetime
  is_occurred_at :: datetime

record RegisterPayment =
  rpm_tenant_id :: TenantId
  rpm_invoice_id :: InvoiceId
  rpm_amount :: u64
  rpm_occurred_at :: datetime

record VoidInvoice =
  vi_tenant_id :: TenantId
  vi_invoice_id :: InvoiceId
  vi_reason :: "string option"
  vi_occurred_at :: datetime

datatype InvoiceCommand =
    IssueInvoice IssueInvoice
  | RegisterPayment RegisterPayment
  | VoidInvoice VoidInvoice

record InvoiceIssued =
  ivi_tenant_id :: TenantId
  ivi_invoice_id :: InvoiceId
  ivi_sales_order_id :: SalesOrderId
  ivi_lines :: "InvoiceLine list"
  ivi_due_date :: datetime
  ivi_total_amount :: u64
  ivi_occurred_at :: datetime

record PaymentRegistered =
  prd_tenant_id :: TenantId
  prd_invoice_id :: InvoiceId
  prd_amount :: u64
  prd_new_total_paid :: u64
  prd_occurred_at :: datetime

record InvoiceVoided =
  ivv_tenant_id :: TenantId
  ivv_invoice_id :: InvoiceId
  ivv_reason :: "string option"
  ivv_occurred_at :: datetime

datatype InvoiceEvent =
    InvoiceIssued InvoiceIssued
  | PaymentRegistered PaymentRegistered
  | InvoiceVoided InvoiceVoided

primrec invoice_event_type :: "InvoiceEvent \<Rightarrow> string" where
  "invoice_event_type (InvoiceIssued _) = ''invoicing.invoice.issued''"
| "invoice_event_type (PaymentRegistered _) = ''invoicing.invoice.payment_registered''"
| "invoice_event_type (InvoiceVoided _) = ''invoicing.invoice.voided''"

definition invoice_event_version :: "InvoiceEvent \<Rightarrow> u32" where
  "invoice_event_version _ = 1"

primrec invoice_event_occurred_at :: "InvoiceEvent \<Rightarrow> datetime" where
  "invoice_event_occurred_at (InvoiceIssued e) = ivi_occurred_at e"
| "invoice_event_occurred_at (PaymentRegistered e) = prd_occurred_at e"
| "invoice_event_occurred_at (InvoiceVoided e) = ivv_occurred_at e"

subsection \<open>Operations\<close>

definition invoice_apply :: "Invoice \<Rightarrow> InvoiceEvent \<Rightarrow> Invoice" where
  "invoice_apply self event =
    (let self' = (case event of
         InvoiceIssued e \<Rightarrow>
           self\<lparr>iv_id := ivi_invoice_id e, iv_tenant_id := Some (ivi_tenant_id e),
                iv_lines := ivi_lines e, iv_due_date := Some (ivi_due_date e),
                iv_total_amount := ivi_total_amount e, iv_total_paid := 0,
                iv_status := Open, iv_created := True\<rparr>
       | PaymentRegistered e \<Rightarrow>
           (let self1 = self\<lparr>iv_total_paid := prd_new_total_paid e\<rparr> in
            if iv_total_amount self1 \<le> iv_total_paid self1 then self1\<lparr>iv_status := Paid\<rparr>
            else self1)
       | InvoiceVoided _ \<Rightarrow> self\<lparr>iv_status := Void\<rparr>)
     in self'\<lparr>iv_version := iv_version self' + 1\<rparr>)"

definition invoice_ensure_tenant :: "Invoice \<Rightarrow> TenantId \<Rightarrow> unit domain_result" where
  "invoice_ensure_tenant self tenant_id =
    (if \<not> iv_created self then Inr ()
     else if iv_tenant_id self \<noteq> Some tenant_id then Inl (InvariantViolation ''tenant mismatch'')
     else Inr ())"

definition ensure_invoice_id :: "Invoice \<Rightarrow> InvoiceId \<Rightarrow> unit domain_result" where
  "ensure_invoice_id self invoice_id =
    (if iv_id self \<noteq> invoice_id then Inl (InvariantViolation ''invoice_id mismatch'') else Inr ())"

text \<open>The loop of \<^verbatim>\<open>handle_issue\<close> over the lines: \<^verbatim>\<open>line_total as u64\<close> truncates.\<close>

primrec issue_total :: "InvoiceLine list \<Rightarrow> u64 \<Rightarrow> u64 domain_result" where
  "issue_total [] tot = Inr tot"
| "issue_total (line # lines) tot =
    (if sint (il_quantity line) \<le> 0
       then Inl (Validation ''invoice line quantity must be positive'')
     else if il_unit_price line = 0
       then Inl (Validation ''invoice line unit_price must be positive'')
     else and_then (ok_or (i128_checked_mul (scast (il_quantity line)) (ucast (il_unit_price line)))
                     (InvariantViolation ''invoice line amount overflow'')) (\<lambda>line_total.
       if sint line_total \<le> 0 then Inl (InvariantViolation ''invoice line total must be positive'')
       else and_then (ok_or (u64_checked_add tot (ucast line_total))
                       (InvariantViolation ''invoice total overflow'')) (\<lambda>tot'.
         issue_total lines tot')))"

definition handle_issue :: "Invoice \<Rightarrow> IssueInvoice \<Rightarrow> InvoiceEvent list domain_result" where
  "handle_issue self cmd =
    (if iv_created self then Inl (Conflict ''invoice already exists'')
     else if is_lines cmd = [] then Inl (Validation ''cannot issue invoice without lines'')
     else and_then (issue_total (is_lines cmd) 0) (\<lambda>total_amount.
       Inr [InvoiceIssued \<lparr> ivi_tenant_id = is_tenant_id cmd, ivi_invoice_id = is_invoice_id cmd,
              ivi_sales_order_id = is_sales_order_id cmd, ivi_lines = is_lines cmd,
              ivi_due_date = is_due_date cmd, ivi_total_amount = total_amount,
              ivi_occurred_at = is_occurred_at cmd \<rparr>]))"

definition handle_register_payment ::
    "Invoice \<Rightarrow> RegisterPayment \<Rightarrow> InvoiceEvent list domain_result" where
  "handle_register_payment self cmd =
    (if \<not> iv_created self then Inl NotFound
     else and_then (invoice_ensure_tenant self (rpm_tenant_id cmd)) (\<lambda>_.
       and_then (ensure_invoice_id self (rpm_invoice_id cmd)) (\<lambda>_.
         if \<not> can_accept_payment self
           then Inl (InvariantViolation ''cannot register payment on void or fully paid invoice'')
         else if rpm_amount cmd = 0 then Inl (Validation ''payment amount must be positive'')
         else and_then (ok_or (u64_checked_add (iv_total_paid self) (rpm_amount cmd))
                         (InvariantViolation ''payment total overflow'')) (\<lambda>new_total_paid.
           if iv_total_amount self < new_total_paid
             then Inl (InvariantViolation ''cannot overpay invoice'')
           else Inr [PaymentRegistered \<lparr> prd_tenant_id = rpm_tenant_id cmd,
                       prd_invoice_id = rpm_invoice_id cmd, prd_amount = rpm_amount cmd,
                       prd_new_total_paid = new_total_paid,
                       prd_occurred_at = rpm_occurred_at cmd \<rparr>]))))"

definition handle_void :: "Invoice \<Rightarrow> VoidInvoice \<Rightarrow> InvoiceEvent list domain_result" where
  "handle_void self cmd =
    (if \<not> iv_created self then Inl NotFound
     else and_then (invoice_ensure_tenant self (vi_tenant_id cmd)) (\<lambda>_.
       and_then (ensure_invoice_id self (vi_invoice_id cmd)) (\<lambda>_.
         if iv_status self = Void then Inl (Conflict ''invoice is already void'')
         else Inr [InvoiceVoided \<lparr> ivv_tenant_id = vi_tenant_id cmd,
                     ivv_invoice_id = vi_invoice_id cmd, ivv_reason = vi_reason cmd,
                     ivv_occurred_at = vi_occurred_at cmd \<rparr>])))"

primrec invoice_handle :: "Invoice \<Rightarrow> InvoiceCommand \<Rightarrow> InvoiceEvent list domain_result" where
  "invoice_handle self (IssueInvoice cmd) = handle_issue self cmd"
| "invoice_handle self (RegisterPayment cmd) = handle_register_payment self cmd"
| "invoice_handle self (VoidInvoice cmd) = handle_void self cmd"

definition invoice_ops :: "(Invoice, InvoiceEvent, InvoiceCommand) AggregateOps" where
  "invoice_ops = \<lparr> ao_apply = invoice_apply, ao_handle = invoice_handle, ao_event_type = invoice_event_type,
     ao_event_version = invoice_event_version, ao_occurred_at = invoice_event_occurred_at \<rparr>"

lemmas invoice_defs [handler_defs] =
  invoice_ensure_tenant_def ensure_invoice_id_def handle_issue_def
  handle_register_payment_def handle_void_def

subsection \<open>The computed total\<close>

text \<open>The amount of a line as an integer, and what the loop adds for it.\<close>

definition line_amount :: "InvoiceLine \<Rightarrow> int" where
  "line_amount l = sint (il_quantity l) * uint (il_unit_price l)"

definition invoice_line_ok :: "InvoiceLine \<Rightarrow> bool" where
  "invoice_line_ok l \<longleftrightarrow> 0 < sint (il_quantity l) \<and> il_unit_price l \<noteq> 0"

lemma line_amount_range:
  assumes "invoice_line_ok l"
  shows "0 < line_amount l" "line_amount l < 2 ^ 127"
proof -
  have q: "0 < sint (il_quantity l)" "sint (il_quantity l) < 2 ^ 63"
    using assms sint64_range by (simp_all add: invoice_line_ok_def)
  have p: "0 < uint (il_unit_price l)" "uint (il_unit_price l) < 2 ^ 64"
    using assms uint64_range [of "il_unit_price l"]
    by (metis invoice_line_ok_def order_le_less uint_0_iff, simp)
  show "0 < line_amount l" using q p by (simp add: line_amount_def)
  have "line_amount l < 2 ^ 63 * 2 ^ 64"
    unfolding line_amount_def using q p by (intro mult_strict_mono) simp_all
  then show "line_amount l < 2 ^ 127" by simp
qed

lemma line_product:
  assumes "invoice_line_ok l"
  shows "i128_checked_mul (scast (il_quantity l)) (ucast (il_unit_price l))
    = Some (word_of_int (line_amount l))"
  using line_amount_range [OF assms]
  by (simp add: i128_checked_mul_def Let_def line_amount_def)

lemma line_product_sint:
  assumes "invoice_line_ok l"
  shows "sint (word_of_int (line_amount l) :: i128) = line_amount l"
  using line_amount_range [OF assms] by (intro sint128_of_int) simp_all

lemma uint_narrow: "uint (ucast (word_of_int k :: i128) :: u64) = k mod 2 ^ 64"
  by (simp add: ucast_eq uint_word_of_int mod_mod_cancel)

lemma issue_total_step:
  assumes "invoice_line_ok l"
  shows "issue_total (l # ls) t = Inr r \<longleftrightarrow>
    uint t + line_amount l mod 2 ^ 64 < 2 ^ 64 \<and>
    issue_total ls (t + word_of_int (line_amount l)) = Inr r"
proof -
  have q: "\<not> sint (il_quantity l) \<le> 0" "il_unit_price l \<noteq> 0"
    using assms by (simp_all add: invoice_line_ok_def)
  have w: "(ucast (word_of_int (line_amount l) :: i128) :: u64) = word_of_int (line_amount l)"
    by (simp add: word_uint_eq_iff uint_narrow uint_word_of_int)
  show ?thesis
    using q line_amount_range(1) [OF assms] uint_narrow [of "line_amount l"]
    by (simp add: line_product [OF assms] line_product_sint [OF assms] u64_checked_add_def w
        uint_word_of_int)
qed

lemma issue_total_ok:
  "issue_total ls t = Inr r \<longleftrightarrow>
     (\<forall>l \<in> set ls. invoice_line_ok l) \<and>
     uint t + (\<Sum>l \<leftarrow> ls. line_amount l mod 2 ^ 64) < 2 ^ 64 \<and>
     uint r = uint t + (\<Sum>l \<leftarrow> ls. line_amount l mod 2 ^ 64)"
proof (induction ls arbitrary: t)
  case Nil
  then show ?case using uint64_range(2) [of t] by (auto simp: word_uint_eq_iff)
next
  case (Cons l ls)
  let ?m = "line_amount l mod 2 ^ 64" and ?S = "\<Sum>l \<leftarrow> ls. line_amount l mod 2 ^ 64"
  show ?case
  proof (cases "invoice_line_ok l")
    case False
    then show ?thesis by (auto simp: invoice_line_ok_def not_less)
  next
    case True
    have S: "0 \<le> ?S" by (rule sum_list_nonneg) auto
    have u: "uint (t + word_of_int (line_amount l)) = uint t + ?m" if "uint t + ?m < 2 ^ 64"
      using that uint64_add_exact [of t "word_of_int (line_amount l)"] by (simp add: uint_word_of_int)
    show ?thesis
      using True S u by (auto simp: issue_total_step Cons.IH simp del: issue_total.simps)
  qed
qed

text \<open>When no line exceeds 64 bits the total is exact.\<close>

lemma issue_total_exact:
  assumes "\<forall>l \<in> set ls. line_amount l < 2 ^ 64"
  shows "issue_total ls 0 = Inr r \<longleftrightarrow>
     (\<forall>l \<in> set ls. invoice_line_ok l) \<and> (\<Sum>l \<leftarrow> ls. line_amount l) < 2 ^ 64 \<and>
     uint r = (\<Sum>l \<leftarrow> ls. line_amount l)"
proof (cases "\<forall>l \<in> set ls. invoice_line_ok l")
  case True
  then have "(\<Sum>l \<leftarrow> ls. line_amount l mod 2 ^ 64) = (\<Sum>l \<leftarrow> ls. line_amount l)"
    using assms line_amount_range(1)
    by (intro arg_cong [where f = sum_list] map_cong mod_pos_pos_trivial) fastforce+
  then show ?thesis using True by (simp add: issue_total_ok)
qed (auto simp: issue_total_ok)

subsection \<open>Invariant\<close>

definition invoice_invar :: "Invoice \<Rightarrow> bool" where
  "invoice_invar s \<longleftrightarrow>
     iv_total_paid s \<le> iv_total_amount s \<and>
     (iv_status s = Paid \<longrightarrow> iv_total_paid s = iv_total_amount s) \<and>
     (iv_status s = Open \<and> 0 < iv_total_paid s \<longrightarrow> iv_total_paid s < iv_total_amount s) \<and>
     (\<forall>l \<in> set (iv_lines s). invoice_line_ok l) \<and>
     (iv_created s \<longrightarrow> iv_tenant_id s \<noteq> None \<and> iv_lines s \<noteq> [] \<and> iv_due_date s \<noteq> None) \<and>
     (\<not> iv_created s \<longrightarrow> iv_status s = Open \<and> iv_total_amount s = 0 \<and> iv_tenant_id s = None)"

lemma invoice_empty_invar [simp]: "invoice_invar (invoice_empty i)"
  by (simp add: invoice_invar_def invoice_empty_def)

lemma outstanding_positive: "0 < outstanding_amount s \<longleftrightarrow> iv_total_paid s < iv_total_amount s"
  by (auto simp: outstanding_amount_def u64_saturating_sub_def word_gt_0 order_less_le)

lemma invoice_handle_shape:
  assumes "invoice_handle s c = Inr es"
  shows "(\<exists>e. es = [InvoiceIssued e] \<and> \<not> iv_created s \<and> ivi_lines e \<noteq> [] \<and>
       issue_total (ivi_lines e) 0 = Inr (ivi_total_amount e)) \<or>
    (\<exists>e. es = [PaymentRegistered e] \<and> iv_created s \<and> iv_status s \<noteq> Void \<and>
       iv_total_paid s < iv_total_amount s \<and> prd_amount e \<noteq> 0 \<and>
       u64_checked_add (iv_total_paid s) (prd_amount e) = Some (prd_new_total_paid e) \<and>
       prd_new_total_paid e \<le> iv_total_amount s \<and>
       iv_tenant_id s = Some (prd_tenant_id e) \<and> iv_id s = prd_invoice_id e) \<or>
    (\<exists>e. es = [InvoiceVoided e] \<and> iv_created s \<and> iv_status s \<noteq> Void \<and>
       iv_tenant_id s = Some (ivv_tenant_id e) \<and> iv_id s = ivv_invoice_id e)"
  using assms
  by (cases c)
    (auto simp: invoice_defs result_simps can_accept_payment_def outstanding_positive not_less)

lemma invoice_handle_cases:
  assumes "invoice_handle s c = Inr es"
  obtains (issue) e where "es = [InvoiceIssued e]" "\<not> iv_created s" "ivi_lines e \<noteq> []"
      "issue_total (ivi_lines e) 0 = Inr (ivi_total_amount e)"
  | (pay) e where "es = [PaymentRegistered e]" "iv_created s" "iv_status s \<noteq> Void"
      "iv_total_paid s < iv_total_amount s" "prd_amount e \<noteq> 0"
      "u64_checked_add (iv_total_paid s) (prd_amount e) = Some (prd_new_total_paid e)"
      "prd_new_total_paid e \<le> iv_total_amount s"
      "iv_tenant_id s = Some (prd_tenant_id e)" "iv_id s = prd_invoice_id e"
  | (void) e where "es = [InvoiceVoided e]" "iv_created s" "iv_status s \<noteq> Void"
      "iv_tenant_id s = Some (ivv_tenant_id e)" "iv_id s = ivv_invoice_id e"
  using invoice_handle_shape [OF assms] by blast

lemma invoice_handle_invar:
  assumes "invoice_invar s" "invoice_handle s c = Inr es"
  shows "invoice_invar (foldl invoice_apply s es)"
  using assms(2)
proof (cases rule: invoice_handle_cases)
  case (pay e)
  then show ?thesis
    using assms(1) by (auto simp: invoice_apply_def invoice_invar_def Let_def not_le)
qed (use assms(1) in
    \<open>auto simp: invoice_apply_def invoice_invar_def issue_total_ok simp del: issue_total.simps\<close>)

definition invoice_owner :: "Invoice \<Rightarrow> TenantId option" where
  "invoice_owner s = (if iv_created s then iv_tenant_id s else None)"

primrec invoice_event_tenant :: "InvoiceEvent \<Rightarrow> TenantId" where
  "invoice_event_tenant (InvoiceIssued e) = ivi_tenant_id e"
| "invoice_event_tenant (PaymentRegistered e) = prd_tenant_id e"
| "invoice_event_tenant (InvoiceVoided e) = ivv_tenant_id e"

interpretation invoice:
  tenant_aggregate invoice_apply invoice_handle iv_version invoice_invar
    invoice_owner invoice_event_tenant
proof
  fix s e
  show "iv_version (invoice_apply s e) = iv_version s + 1"
    by (cases e) (simp_all add: invoice_apply_def Let_def)
next
  fix s c es e
  assume "invoice_handle s c = Inr es" "e \<in> set es"
  then show "invoice_owner (foldl invoice_apply s es) = Some (invoice_event_tenant e)"
    by (elim invoice_handle_cases) (auto simp: invoice_apply_def invoice_owner_def Let_def)
next
  fix s c es t
  assume "invoice_handle s c = Inr es" "invoice_owner s = Some t"
  then show "invoice_owner (foldl invoice_apply s es) = Some t"
    by (elim invoice_handle_cases) (auto simp: invoice_apply_def invoice_owner_def Let_def)
qed (rule invoice_handle_invar)

subsection \<open>Payments\<close>

primrec payment_amount :: "InvoiceEvent \<Rightarrow> int" where
  "payment_amount (InvoiceIssued e) = 0"
| "payment_amount (PaymentRegistered e) = uint (prd_amount e)"
| "payment_amount (InvoiceVoided e) = 0"

lemma invoice_step_paid:
  assumes "invoice_invar s" "invoice_handle s c = Inr es"
  shows "uint (iv_total_paid (foldl invoice_apply s es)) =
    uint (iv_total_paid s) + sum_list (map payment_amount es)"
  using assms(2)
  by (cases rule: invoice_handle_cases)
    (use assms(1) in \<open>auto simp: invoice_apply_def invoice_invar_def u64_checked_add_Some Let_def\<close>)

lemma decided_paid_sum:
  assumes "decided invoice_apply invoice_handle (invoice_empty i) h"
  shows "uint (iv_total_paid (foldl invoice_apply (invoice_empty i) h))
    = sum_list (map payment_amount h)"
  using assms
proof induction
  case decided_Nil
  then show ?case by (simp add: invoice_empty_def)
next
  case (decided_step h c es)
  have "invoice_invar (foldl invoice_apply (invoice_empty i) h)"
    using decided_step.hyps(1) by (rule invoice.decided_invar) simp
  then show ?case
    using invoice_step_paid [OF _ decided_step.hyps(2)] decided_step.IH by simp
qed

lemma void_rejects:
  assumes "iv_created s" "iv_status s = Void"
  shows "\<exists>err. invoice_handle s c = Inl err"
proof (cases "invoice_handle s c")
  case (Inr es)
  then show ?thesis by (rule invoice_handle_cases) (use assms in simp_all)
qed simp

subsection \<open>Properties\<close>

text \<open>C37: in every history an invoice decides, the recorded total paid is the sum of the payment
  amounts, it never exceeds the invoice total, the invoice is marked paid only when the two are
  equal, and an open invoice with payments still has something outstanding.\<close>

theorem invoice_payments_accounted:
  assumes "decided invoice_apply invoice_handle (invoice_empty i) h"
  shows "let s = foldl invoice_apply (invoice_empty i) h in
    uint (iv_total_paid s) = sum_list (map payment_amount h) \<and>
    sum_list (map payment_amount h) \<le> uint (iv_total_amount s) \<and>
    (iv_status s = Paid \<longrightarrow> outstanding_amount s = 0) \<and>
    (iv_status s = Open \<and> 0 < iv_total_paid s \<longrightarrow> 0 < outstanding_amount s)"
proof -
  let ?s = "foldl invoice_apply (invoice_empty i) h"
  have inv: "invoice_invar ?s" using assms by (rule invoice.decided_invar) simp
  have "uint (iv_total_paid ?s) \<le> uint (iv_total_amount ?s)"
    using inv by (simp add: invoice_invar_def word_le_def)
  moreover have "iv_status ?s = Paid \<longrightarrow> outstanding_amount ?s = 0"
    using inv by (simp add: invoice_invar_def outstanding_amount_def u64_saturating_sub_def)
  moreover have "iv_status ?s = Open \<and> 0 < iv_total_paid ?s \<longrightarrow> 0 < outstanding_amount ?s"
    using inv by (simp add: invoice_invar_def outstanding_positive)
  ultimately show ?thesis using decided_paid_sum [OF assms] by (simp add: Let_def)
qed

definition ex_line :: InvoiceLine where
  "ex_line = \<lparr> il_line_no = 1, il_sales_order_id = SalesOrderId (AggregateId 4),
     il_product_id = ProductId (AggregateId 5), il_quantity = 3, il_unit_price = 50 \<rparr>"

definition ex_issue :: "InvoiceLine list \<Rightarrow> IssueInvoice" where
  "ex_issue ls = \<lparr> is_tenant_id = TenantId 1, is_invoice_id = InvoiceId (AggregateId 7),
     is_sales_order_id = SalesOrderId (AggregateId 4), is_lines = ls, is_due_date = 9,
     is_occurred_at = 5 \<rparr>"

definition ex_issued :: "InvoiceLine list \<Rightarrow> u64 \<Rightarrow> InvoiceIssued" where
  "ex_issued ls tot = \<lparr> ivi_tenant_id = TenantId 1, ivi_invoice_id = InvoiceId (AggregateId 7),
     ivi_sales_order_id = SalesOrderId (AggregateId 4), ivi_lines = ls, ivi_due_date = 9,
     ivi_total_amount = tot, ivi_occurred_at = 5 \<rparr>"

theorem invoice_payments_accounted_witness:
  "iv_total_paid (foldl invoice_apply (invoice_empty (InvoiceId (AggregateId 7)))
     [InvoiceIssued (ex_issued [ex_line] 150)]) = 0"
proof -
  have "decided invoice_apply invoice_handle (invoice_empty (InvoiceId (AggregateId 7)))
      ([] @ [InvoiceIssued (ex_issued [ex_line] 150)])"
    by (rule decided_step [OF decided_Nil, where c = "IssueInvoice (ex_issue [ex_line])"]) code_simp
  from invoice_payments_accounted [OF this] show ?thesis by (simp add: Let_def uint_0_iff)
qed

text \<open>Issuing computes the exact total whenever no single line exceeds 64 bits: the command
  is accepted exactly when the invoice is new, has lines, all quantities and prices are positive
  and the true sum fits 64 bits, and the total of the event is that sum.\<close>

theorem issue_total_is_exact:
  assumes "\<forall>l \<in> set (is_lines c). line_amount l < 2 ^ 64"
  shows "(\<exists>e. invoice_handle s (IssueInvoice c) = Inr [InvoiceIssued e] \<and>
       uint (ivi_total_amount e) = v) \<longleftrightarrow>
     \<not> iv_created s \<and> is_lines c \<noteq> [] \<and> (\<forall>l \<in> set (is_lines c). invoice_line_ok l) \<and>
     (\<Sum>l \<leftarrow> is_lines c. line_amount l) = v \<and> v < 2 ^ 64"
proof -
  have "(\<exists>e. invoice_handle s (IssueInvoice c) = Inr [InvoiceIssued e] \<and> uint (ivi_total_amount e) = v)
    \<longleftrightarrow> \<not> iv_created s \<and> is_lines c \<noteq> [] \<and> (\<exists>r. issue_total (is_lines c) 0 = Inr r \<and> uint r = v)"
    by (auto simp: handle_issue_def result_simps)
  also have "(\<exists>r. issue_total (is_lines c) 0 = Inr r \<and> uint r = v) \<longleftrightarrow>
      (\<forall>l \<in> set (is_lines c). invoice_line_ok l) \<and> (\<Sum>l \<leftarrow> is_lines c. line_amount l) = v \<and> v < 2 ^ 64"
  proof (cases "\<forall>l \<in> set (is_lines c). invoice_line_ok l")
    case True
    then have "0 \<le> (\<Sum>l \<leftarrow> is_lines c. line_amount l)"
      using line_amount_range(1) by (intro sum_list_nonneg) fastforce
    then have "\<exists>r :: u64. uint r = v" if "(\<Sum>l \<leftarrow> is_lines c. line_amount l) = v" "v < 2 ^ 64"
      using that by (intro exI [of _ "word_of_int v"]) (simp add: uint_word_of_int)
    then show ?thesis using True by (auto simp: issue_total_exact [OF assms])
  qed (auto simp: issue_total_exact [OF assms])
  finally show ?thesis .
qed

theorem issue_total_is_exact_witness:
  "\<exists>e. invoice_handle (invoice_empty (InvoiceId (AggregateId 7))) (IssueInvoice (ex_issue [ex_line]))
     = Inr [InvoiceIssued e] \<and> uint (ivi_total_amount e) = 150"
proof -
  have "\<forall>l \<in> set (is_lines (ex_issue [ex_line])). line_amount l < 2 ^ 64" by code_simp
  from issue_total_is_exact [OF this] show ?thesis
    by (simp add: ex_issue_def ex_line_def line_amount_def invoice_line_ok_def invoice_empty_def)
qed

text \<open>The cast of the 128-bit line total to 64 bits truncates: a line of quantity 2 at
  price \<^verbatim>\<open>2^63\<close> is issued with a total of 0, and the resulting open invoice accepts no payment.\<close>

theorem issue_total_truncates:
  "let l = ex_line\<lparr>il_quantity := 2, il_unit_price := 0x8000000000000000\<rparr>;
       s = foldl invoice_apply (invoice_empty (InvoiceId (AggregateId 7)))
             [InvoiceIssued (ex_issued [l] 0)]
   in line_amount l = 2 ^ 64 \<and>
      invoice_handle (invoice_empty (InvoiceId (AggregateId 7))) (IssueInvoice (ex_issue [l]))
        = Inr [InvoiceIssued (ex_issued [l] 0)] \<and>
      iv_status s = Open \<and> \<not> can_accept_payment s"
  by code_simp

text \<open>Voiding is final: on a void invoice every command is rejected.\<close>

theorem void_invoice_final:
  assumes "iv_created s" "iv_status s = Void"
  shows "fst (execute invoice_apply invoice_handle s c) = s \<and>
    (\<exists>err. snd (execute invoice_apply invoice_handle s c) = Inl err)"
  using void_rejects [OF assms, of c] by (auto simp: execute_def)

theorem void_invoice_final_witness:
  "fst (execute invoice_apply invoice_handle
     ((invoice_empty (InvoiceId (AggregateId 7)))\<lparr>iv_created := True, iv_status := Void\<rparr>)
     (IssueInvoice (ex_issue [ex_line]))) =
   (invoice_empty (InvoiceId (AggregateId 7)))\<lparr>iv_created := True, iv_status := Void\<rparr>"
  by (rule void_invoice_final [THEN conjunct1]) simp_all

end
