(* ===== verification/Invoice_Projections.thy ===== *)
theory Invoice_Projections
  imports Projections Invoicing Parties
begin

text \<open>
  The read models built from invoice events: invoices with their lines
  (\<^verbatim>\<open>infra/src/projections/invoices.rs\<close>), accounts receivable aging
  (\<^verbatim>\<open>infra/src/projections/invoicing.rs\<close>), open invoices
  (\<^verbatim>\<open>infra/src/projections/open_invoices.rs\<close>) and customer balances
  (\<^verbatim>\<open>infra/src/projections/customer_balances.rs\<close>).  The first three show the aggregates' states.
  The fresh identifier of \<^verbatim>\<open>SalesOrderId::new(AggregateId::new())\<close> and the clock are arguments.
\<close>

primrec invoice_event_invoice :: "InvoiceEvent \<Rightarrow> InvoiceId" where
  "invoice_event_invoice (InvoiceIssued e) = ivi_invoice_id e"
| "invoice_event_invoice (PaymentRegistered e) = prd_invoice_id e"
| "invoice_event_invoice (InvoiceVoided e) = ivv_invoice_id e"

definition invoice_check :: "TenantId \<Rightarrow> AggregateId \<Rightarrow> InvoiceEvent \<Rightarrow> ApplyError + unit" where
  "invoice_check tenant_id aggregate_id ev =
    (if invoice_event_tenant ev \<noteq> tenant_id
       then Inl (TenantIsolation ''event tenant_id does not match envelope tenant_id'')
     else if invoice_aggregate (invoice_event_invoice ev) \<noteq> aggregate_id
       then Inl (TenantIsolation ''event invoice_id does not match envelope aggregate_id'')
     else Inr ())"

lemma invoice_check_ok [simp]:
  "invoice_check t a e = Inr () \<longleftrightarrow>
     invoice_event_tenant e = t \<and> invoice_aggregate (invoice_event_invoice e) = a"
  by (auto simp: invoice_check_def)

lemma invoice_handle_single: "invoice_handle s c = Inr es \<Longrightarrow> length es \<le> Suc 0"
  by (elim invoice_handle_cases) simp_all

subsection \<open>Invoices\<close>

record InvoiceReadModel =
  inr_invoice_id :: InvoiceId
  inr_sales_order_id :: SalesOrderId
  inr_due_date :: "datetime option"
  inr_status :: InvoiceStatus
  inr_total_amount :: u64
  inr_total_paid :: u64
  inr_lines :: "InvoiceLine list"

type_synonym invoice_store = "(InvoiceId, InvoiceReadModel) InMemoryTenantStore"

definition invoice_missing :: "AggregateId \<Rightarrow> InvoiceId \<Rightarrow> InvoiceReadModel" where
  "invoice_missing fresh i = \<lparr> inr_invoice_id = i, inr_sales_order_id = SalesOrderId fresh,
     inr_due_date = None, inr_status = Open, inr_total_amount = 0, inr_total_paid = 0, inr_lines = [] \<rparr>"

definition invoices_update ::
    "AggregateId \<Rightarrow> invoice_store \<Rightarrow> TenantId \<Rightarrow> AggregateId \<Rightarrow> InvoiceEvent \<Rightarrow> invoice_store" where
  "invoices_update fresh store tenant_id _ ev =
    (case ev of
       InvoiceIssued e \<Rightarrow> ts_upsert store tenant_id (ivi_invoice_id e)
         \<lparr> inr_invoice_id = ivi_invoice_id e, inr_sales_order_id = ivi_sales_order_id e,
           inr_due_date = Some (ivi_due_date e), inr_status = Open,
           inr_total_amount = ivi_total_amount e, inr_total_paid = 0, inr_lines = ivi_lines e \<rparr>
     | PaymentRegistered e \<Rightarrow>
         (let rm = (case ts_get store tenant_id (prd_invoice_id e) of
                Some rm \<Rightarrow> rm | None \<Rightarrow> invoice_missing fresh (prd_invoice_id e));
              rm = rm\<lparr>inr_total_paid := prd_new_total_paid e\<rparr>;
              rm = (if inr_total_amount rm \<le> inr_total_paid rm then rm\<lparr>inr_status := Paid\<rparr> else rm)
          in ts_upsert store tenant_id (prd_invoice_id e) rm)
     | InvoiceVoided e \<Rightarrow>
         (let rm = (case ts_get store tenant_id (ivv_invoice_id e) of
                Some rm \<Rightarrow> rm | None \<Rightarrow> invoice_missing fresh (ivv_invoice_id e))
          in ts_upsert store tenant_id (ivv_invoice_id e) (rm\<lparr>inr_status := Void\<rparr>)))"

definition invoices :: "AggregateId \<Rightarrow> (invoice_store, InvoiceEvent) ProjectionLogic" where
  "invoices fresh = \<lparr> pl_aggregate_type = ''invoicing.invoice'', pl_check = invoice_check,
     pl_update = invoices_update fresh \<rparr>"

definition invoice_row ::
    "AggregateId \<Rightarrow> InvoiceReadModel option \<Rightarrow> InvoiceEvent \<Rightarrow> InvoiceReadModel option" where
  "invoice_row fresh r ev =
    (let rm = (case r of Some rm \<Rightarrow> rm | None \<Rightarrow> invoice_missing fresh (invoice_event_invoice ev)) in
     Some (case ev of
       InvoiceIssued e \<Rightarrow>
         \<lparr> inr_invoice_id = ivi_invoice_id e, inr_sales_order_id = ivi_sales_order_id e,
           inr_due_date = Some (ivi_due_date e), inr_status = Open,
           inr_total_amount = ivi_total_amount e, inr_total_paid = 0, inr_lines = ivi_lines e \<rparr>
     | PaymentRegistered e \<Rightarrow> rm\<lparr>inr_total_paid := prd_new_total_paid e,
         inr_status := (if inr_total_amount rm \<le> prd_new_total_paid e then Paid else inr_status rm)\<rparr>
     | InvoiceVoided e \<Rightarrow> rm\<lparr>inr_status := Void\<rparr>))"

text \<open>The aggregate does not keep the sales order, so the row is observed without it.\<close>

definition invoice_fields ::
    "InvoiceReadModel \<Rightarrow> InvoiceId \<times> datetime option \<times> InvoiceStatus \<times> u64 \<times> u64 \<times> InvoiceLine list" where
  "invoice_fields rm = (inr_invoice_id rm, inr_due_date rm, inr_status rm, inr_total_amount rm,
     inr_total_paid rm, inr_lines rm)"

definition invoice_view ::
    "Invoice \<Rightarrow> (InvoiceId \<times> datetime option \<times> InvoiceStatus \<times> u64 \<times> u64 \<times> InvoiceLine list) option" where
  "invoice_view s = (if iv_created s then Some (iv_id s, iv_due_date s, iv_status s, iv_total_amount s,
     iv_total_paid s, iv_lines s) else None)"

lemma invoice_view_empty [simp]: "invoice_view (invoice_empty i) = None"
  by (simp add: invoice_view_def invoice_empty_def)

interpretation invoice_view: state_view ts_get ts_upsert "ts_list id" ts_clear_tenant ts_ok
    "invoices fresh" invoice_event_invoice "invoice_row fresh" invoice_aggregate
    invoice_apply invoice_handle iv_version invoice_invar
    InvoiceId "\<lambda>a. invoice_empty (InvoiceId a)" invoice_fields invoice_view
  for fresh
proof
  fix s :: invoice_store and t a e t' k
  assume ok: "ts_ok s"
  show "ts_ok (pl_update (invoices fresh) s t a e)"
    using ok by (cases e) (simp_all add: invoices_def invoices_update_def Let_def
      in_memory_tenant_store.store_simps)
  show "ts_get (pl_update (invoices fresh) s t a e) t' k =
      (if t' = t \<and> k = invoice_event_invoice e then invoice_row fresh (ts_get s t k) e else ts_get s t' k)"
    using ok by (cases e) (auto simp: invoices_def invoices_update_def invoice_row_def Let_def
      in_memory_tenant_store.store_simps split: option.splits)
next
  fix s c es r
  assume "invoice_invar s" "invoice_handle s c = Inr es" "map_option invoice_fields r = invoice_view s"
  then show "map_option invoice_fields (foldl (invoice_row fresh) r es) = invoice_view (foldl invoice_apply s es)"
    by (elim invoice_handle_cases)
      (auto simp: invoice_apply_def invoice_view_def invoice_row_def invoice_fields_def invoice_invar_def Let_def)
qed (simp_all add: invoices_def InvoiceId.expand invoice_handle_single)

lemma invoices_show_state:
  "shows_state ops from_value hist envs (invoices fresh) InvoiceId
     (\<lambda>a. invoice_empty (InvoiceId a)) invoice_apply invoice_handle invoice_fields invoice_view"
  unfolding shows_state_def
  using invoice_view.deliver_view [of hist "projection_new ts_new []" ops envs from_value fresh] by simp

subsection \<open>Aging\<close>

record InvoiceAgingReadModel =
  iag_invoice_id :: InvoiceId
  iag_total_amount :: u64
  iag_outstanding_amount :: u64
  iag_due_date :: "datetime option"
  iag_status :: InvoiceStatus

type_synonym aging_store = "(InvoiceId, InvoiceAgingReadModel) InMemoryTenantStore"

definition aging_missing :: "InvoiceId \<Rightarrow> InvoiceAgingReadModel" where
  "aging_missing i = \<lparr> iag_invoice_id = i, iag_total_amount = 0, iag_outstanding_amount = 0,
     iag_due_date = None, iag_status = Open \<rparr>"

definition aging_update ::
    "aging_store \<Rightarrow> TenantId \<Rightarrow> AggregateId \<Rightarrow> InvoiceEvent \<Rightarrow> aging_store" where
  "aging_update store tenant_id _ ev =
    (case ev of
       InvoiceIssued e \<Rightarrow> ts_upsert store tenant_id (ivi_invoice_id e)
         \<lparr> iag_invoice_id = ivi_invoice_id e, iag_total_amount = ivi_total_amount e,
           iag_outstanding_amount = ivi_total_amount e, iag_due_date = Some (ivi_due_date e),
           iag_status = Open \<rparr>
     | PaymentRegistered e \<Rightarrow>
         (let rm = (case ts_get store tenant_id (prd_invoice_id e) of
                Some rm \<Rightarrow> rm | None \<Rightarrow> aging_missing (prd_invoice_id e));
              new_outstanding = u64_saturating_sub (iag_outstanding_amount rm)
                (min (prd_amount e) (iag_outstanding_amount rm));
              rm = rm\<lparr>iag_outstanding_amount := new_outstanding\<rparr>;
              rm = (if new_outstanding = 0 then rm\<lparr>iag_status := Paid\<rparr> else rm)
          in ts_upsert store tenant_id (prd_invoice_id e) rm)
     | InvoiceVoided e \<Rightarrow>
         (let rm = (case ts_get store tenant_id (ivv_invoice_id e) of
                Some rm \<Rightarrow> rm | None \<Rightarrow> aging_missing (ivv_invoice_id e))
          in ts_upsert store tenant_id (ivv_invoice_id e) (rm\<lparr>iag_status := Void\<rparr>)))"

definition invoice_aging :: "(aging_store, InvoiceEvent) ProjectionLogic" where
  "invoice_aging = \<lparr> pl_aggregate_type = ''invoicing.invoice'', pl_check = invoice_check,
     pl_update = aging_update \<rparr>"

definition aging_row :: "InvoiceAgingReadModel option \<Rightarrow> InvoiceEvent \<Rightarrow> InvoiceAgingReadModel option" where
  "aging_row r ev =
    (let rm = (case r of Some rm \<Rightarrow> rm | None \<Rightarrow> aging_missing (invoice_event_invoice ev)) in
     Some (case ev of
       InvoiceIssued e \<Rightarrow>
         \<lparr> iag_invoice_id = ivi_invoice_id e, iag_total_amount = ivi_total_amount e,
           iag_outstanding_amount = ivi_total_amount e, iag_due_date = Some (ivi_due_date e),
           iag_status = Open \<rparr>
     | PaymentRegistered e \<Rightarrow>
         (let left = iag_outstanding_amount rm - min (prd_amount e) (iag_outstanding_amount rm)
          in rm\<lparr>iag_outstanding_amount := left, iag_status := (if left = 0 then Paid else iag_status rm)\<rparr>)
     | InvoiceVoided e \<Rightarrow> rm\<lparr>iag_status := Void\<rparr>))"

definition aging_view :: "Invoice \<Rightarrow> InvoiceAgingReadModel option" where
  "aging_view s = (if iv_created s
     then Some \<lparr> iag_invoice_id = iv_id s, iag_total_amount = iv_total_amount s,
       iag_outstanding_amount = iv_total_amount s - iv_total_paid s, iag_due_date = iv_due_date s,
       iag_status = iv_status s \<rparr> else None)"

lemma aging_view_empty [simp]: "aging_view (invoice_empty i) = None"
  by (simp add: aging_view_def invoice_empty_def)

lemma payment_left:
  assumes "u64_checked_add p a = Some n" "n \<le> T"
  shows "T - p - min a (T - p) = T - n" "T \<le> n \<longleftrightarrow> T = n" "T - p = min a (T - p) \<longleftrightarrow> T = n"
proof -
  have n: "n = p + a" using assms(1) by (simp add: u64_checked_add_def split: if_splits)
  have "uint n = uint p + uint a" using assms(1) by (simp add: u64_checked_add_Some)
  then have u: "unat n = unat p + unat a" by (simp add: nat_add_distrib flip: nat_uint_eq)
  then have "p \<le> T" using assms(2) by (simp add: word_le_nat_alt)
  then have "a \<le> T - p" using u assms(2) by (simp add: word_le_nat_alt unat_sub)
  then show left: "T - p - min a (T - p) = T - n" using n by (simp add: min_absorb1)
  show "T \<le> n \<longleftrightarrow> T = n" using assms(2) by auto
  show "T - p = min a (T - p) \<longleftrightarrow> T = n" using left by (metis right_minus_eq)
qed

interpretation aging_view: state_view ts_get ts_upsert "ts_list id" ts_clear_tenant ts_ok
    invoice_aging invoice_event_invoice aging_row invoice_aggregate
    invoice_apply invoice_handle iv_version invoice_invar
    InvoiceId "\<lambda>a. invoice_empty (InvoiceId a)" id aging_view
proof
  fix s :: aging_store and t a e t' k
  assume ok: "ts_ok s"
  show "ts_ok (pl_update invoice_aging s t a e)"
    using ok by (cases e) (simp_all add: invoice_aging_def aging_update_def Let_def
      in_memory_tenant_store.store_simps)
  show "ts_get (pl_update invoice_aging s t a e) t' k =
      (if t' = t \<and> k = invoice_event_invoice e then aging_row (ts_get s t k) e else ts_get s t' k)"
    using ok by (cases e) (auto simp: invoice_aging_def aging_update_def aging_row_def Let_def
      u64_saturating_sub_def in_memory_tenant_store.store_simps split: option.splits)
next
  fix s c es r
  assume inv: "invoice_invar s" and h: "invoice_handle s c = Inr es" and r: "map_option id r = aging_view s"
  show "map_option id (foldl aging_row r es) = aging_view (foldl invoice_apply s es)"
    using h
  proof (cases rule: invoice_handle_cases)
    case (pay e)
    then show ?thesis
      using r by (auto simp: invoice_apply_def aging_view_def aging_row_def Let_def payment_left [OF pay(6,7)])
  qed (use inv r in \<open>auto simp: invoice_apply_def aging_view_def aging_row_def invoice_invar_def\<close>)
qed (simp_all add: invoice_aging_def InvoiceId.expand invoice_handle_single)

lemma invoice_aging_shows_state:
  "shows_state ops from_value hist envs invoice_aging InvoiceId
     (\<lambda>a. invoice_empty (InvoiceId a)) invoice_apply invoice_handle id aging_view"
  unfolding shows_state_def
  using aging_view.deliver_view [of hist "projection_new ts_new []" ops envs from_value] by simp

subsection \<open>Open invoices\<close>

text \<open>\<^verbatim>\<open>Duration::num_days\<close> truncates towards zero; the result is an \<^verbatim>\<open>i64\<close> that the range of
  dates keeps far from overflow.\<close>

definition nanos_per_day :: int where
  "nanos_per_day = 24 * 60 * 60 * 10 ^ 9"

definition num_days :: "int \<Rightarrow> int" where
  "num_days d = sgn d * (\<bar>d\<bar> div nanos_per_day)"

record OpenInvoice =
  oin_invoice_id :: InvoiceId
  oin_sales_order_id :: SalesOrderId
  oin_due_date :: datetime
  oin_total_amount :: u64
  oin_amount_paid :: u64
  oin_outstanding_amount :: u64
  oin_lines :: "InvoiceLine list"
  oin_days_outstanding :: int
  oin_is_overdue :: bool

record OpenInvoicesSummary =
  ois_count :: nat
  ois_total_outstanding :: u64
  ois_overdue_count :: nat
  ois_overdue_amount :: u64

type_synonym open_store = "(InvoiceId, OpenInvoice) InMemoryTenantStore"

definition refresh_calculated_fields :: "OpenInvoice \<Rightarrow> datetime \<Rightarrow> OpenInvoice" where
  "refresh_calculated_fields self now =
    (let days = num_days (now - oin_due_date self) in
     self\<lparr>oin_outstanding_amount := u64_saturating_sub (oin_total_amount self) (oin_amount_paid self),
          oin_days_outstanding := days, oin_is_overdue := 0 < days\<rparr>)"

definition open_invoices_update ::
    "datetime \<Rightarrow> open_store \<Rightarrow> TenantId \<Rightarrow> AggregateId \<Rightarrow> InvoiceEvent \<Rightarrow> open_store" where
  "open_invoices_update now store tenant_id _ ev =
    (case ev of
       InvoiceIssued e \<Rightarrow>
         (let days_outstanding = num_days (now - ivi_due_date e) in
          ts_upsert store tenant_id (ivi_invoice_id e)
           \<lparr> oin_invoice_id = ivi_invoice_id e, oin_sales_order_id = ivi_sales_order_id e,
             oin_due_date = ivi_due_date e, oin_total_amount = ivi_total_amount e, oin_amount_paid = 0,
             oin_outstanding_amount = ivi_total_amount e, oin_lines = ivi_lines e,
             oin_days_outstanding = days_outstanding, oin_is_overdue = 0 < days_outstanding \<rparr>)
     | PaymentRegistered e \<Rightarrow>
         (case ts_get store tenant_id (prd_invoice_id e) of
            None \<Rightarrow> store
          | Some v \<Rightarrow>
              (let v = v\<lparr>oin_amount_paid := prd_new_total_paid e,
                     oin_outstanding_amount := u64_saturating_sub (oin_total_amount v) (prd_new_total_paid e)\<rparr>;
                   v = (if oin_total_amount v \<le> prd_new_total_paid e then v\<lparr>oin_outstanding_amount := 0\<rparr> else v)
               in ts_upsert store tenant_id (prd_invoice_id e) (refresh_calculated_fields v now)))
     | InvoiceVoided e \<Rightarrow>
         (case ts_get store tenant_id (ivv_invoice_id e) of
            None \<Rightarrow> store
          | Some v \<Rightarrow> ts_upsert store tenant_id (ivv_invoice_id e) (v\<lparr>oin_outstanding_amount := 0\<rparr>)))"

definition open_invoices :: "datetime \<Rightarrow> (open_store, InvoiceEvent) ProjectionLogic" where
  "open_invoices now = \<lparr> pl_aggregate_type = ''invoicing.invoice'', pl_check = invoice_check,
     pl_update = open_invoices_update now \<rparr>"

text \<open>The queries, over the rows of a tenant.\<close>

definition list_overdue :: "datetime \<Rightarrow> OpenInvoice list \<Rightarrow> OpenInvoice list" where
  "list_overdue now rows = filter (\<lambda>v. oin_due_date v < now) rows"

definition list_due_within_days :: "datetime \<Rightarrow> int \<Rightarrow> OpenInvoice list \<Rightarrow> OpenInvoice list" where
  "list_due_within_days now days rows =
    (let cutoff = now + days * nanos_per_day
     in filter (\<lambda>v. oin_due_date v \<le> cutoff \<and> now \<le> oin_due_date v) rows)"

definition open_invoices_summary :: "datetime \<Rightarrow> OpenInvoice list \<Rightarrow> OpenInvoicesSummary" where
  "open_invoices_summary now rows =
    (let overdue = filter (\<lambda>v. oin_due_date v < now) rows in
     \<lparr> ois_count = length rows, ois_total_outstanding = sum_list (map oin_outstanding_amount rows),
       ois_overdue_count = length overdue,
       ois_overdue_amount = sum_list (map oin_outstanding_amount overdue) \<rparr>)"

definition open_row :: "datetime \<Rightarrow> OpenInvoice option \<Rightarrow> InvoiceEvent \<Rightarrow> OpenInvoice option" where
  "open_row now r ev =
    (case ev of
       InvoiceIssued e \<Rightarrow>
         (let days_outstanding = num_days (now - ivi_due_date e) in
          Some \<lparr> oin_invoice_id = ivi_invoice_id e, oin_sales_order_id = ivi_sales_order_id e,
             oin_due_date = ivi_due_date e, oin_total_amount = ivi_total_amount e, oin_amount_paid = 0,
             oin_outstanding_amount = ivi_total_amount e, oin_lines = ivi_lines e,
             oin_days_outstanding = days_outstanding, oin_is_overdue = 0 < days_outstanding \<rparr>)
     | PaymentRegistered e \<Rightarrow>
         map_option (\<lambda>v. refresh_calculated_fields (v\<lparr>oin_amount_paid := prd_new_total_paid e\<rparr>) now) r
     | InvoiceVoided e \<Rightarrow> map_option (\<lambda>v. v\<lparr>oin_outstanding_amount := 0\<rparr>) r)"

text \<open>What does not depend on the clock and what the aggregate keeps.\<close>

definition open_fields ::
    "OpenInvoice \<Rightarrow> InvoiceId \<times> datetime option \<times> u64 \<times> u64 \<times> u64 \<times> InvoiceLine list" where
  "open_fields v = (oin_invoice_id v, Some (oin_due_date v), oin_total_amount v, oin_amount_paid v,
     oin_outstanding_amount v, oin_lines v)"

definition open_view ::
    "Invoice \<Rightarrow> (InvoiceId \<times> datetime option \<times> u64 \<times> u64 \<times> u64 \<times> InvoiceLine list) option" where
  "open_view s = (if iv_created s
     then Some (iv_id s, iv_due_date s, iv_total_amount s, iv_total_paid s,
       if iv_status s = Void then 0 else iv_total_amount s - iv_total_paid s, iv_lines s) else None)"

lemma open_view_empty [simp]: "open_view (invoice_empty i) = None"
  by (simp add: open_view_def invoice_empty_def)

interpretation open_view: state_view ts_get ts_upsert "ts_list id" ts_clear_tenant ts_ok
    "open_invoices now" invoice_event_invoice "open_row now" invoice_aggregate
    invoice_apply invoice_handle iv_version invoice_invar
    InvoiceId "\<lambda>a. invoice_empty (InvoiceId a)" open_fields open_view
  for now
proof
  fix s :: open_store and t a e t' k
  assume ok: "ts_ok s"
  show "ts_ok (pl_update (open_invoices now) s t a e)"
    using ok by (cases e) (simp_all add: open_invoices_def open_invoices_update_def Let_def
      in_memory_tenant_store.store_simps split: option.splits)
  show "ts_get (pl_update (open_invoices now) s t a e) t' k =
      (if t' = t \<and> k = invoice_event_invoice e then open_row now (ts_get s t k) e else ts_get s t' k)"
    using ok by (cases e) (auto simp: open_invoices_def open_invoices_update_def open_row_def Let_def
      refresh_calculated_fields_def in_memory_tenant_store.store_simps split: option.splits)
next
  fix s c es r
  assume inv: "invoice_invar s" and h: "invoice_handle s c = Inr es" and r: "map_option open_fields r = open_view s"
  show "map_option open_fields (foldl (open_row now) r es) = open_view (foldl invoice_apply s es)"
    using h by (cases rule: invoice_handle_cases; cases r)
      (use inv r in \<open>auto simp: invoice_apply_def open_view_def open_row_def open_fields_def invoice_invar_def
        refresh_calculated_fields_def u64_saturating_sub_def Let_def\<close>)
qed (simp_all add: open_invoices_def InvoiceId.expand invoice_handle_single)

lemma open_invoices_show_state:
  "shows_state ops from_value hist envs (open_invoices now) InvoiceId
     (\<lambda>a. invoice_empty (InvoiceId a)) invoice_apply invoice_handle open_fields open_view"
  unfolding shows_state_def
  using open_view.deliver_view [of hist "projection_new ts_new []" ops envs from_value now] by simp

end
