(* ===== verification/Accounting.thy ===== *)
theory Accounting
  imports Core_Domain
begin

text \<open>
  The ledger aggregate (\<^verbatim>\<open>accounting/src/ledger.rs\<close>): journal entries are accepted when
  every line is positive and debits equal credits.  The totals are summed in 128-bit
  arithmetic; the lemmas show that the sum of any list of fewer than \<^term>\<open>2 ^ 64 :: nat\<close>
  lines is exact there, so an accepted entry balances as integers.
\<close>

subsection \<open>Data\<close>

datatype AccountKind = Asset | Liability | Equity | Revenue | Expense

record Account =
  ac_code :: string
  ac_name :: string
  ac_kind :: AccountKind

record JournalEntryLine =
  jl_account :: Account
  jl_amount :: i64
  jl_is_debit :: bool

datatype LedgerId = LedgerId AggregateId

record Ledger =
  lg_id :: LedgerId
  lg_tenant_id :: "TenantId option"
  lg_version :: u64
  lg_created :: bool

definition ledger_empty :: "LedgerId \<Rightarrow> Ledger" where
  "ledger_empty ledger_id =
     \<lparr> lg_id = ledger_id, lg_tenant_id = None, lg_version = 0, lg_created = False \<rparr>"

record PostJournalEntry =
  pj_tenant_id :: TenantId
  pj_ledger_id :: LedgerId
  pj_entry_id :: uuid
  pj_lines :: "JournalEntryLine list"
  pj_occurred_at :: datetime
  pj_description :: "string option"

datatype JournalCommand = PostJournalEntry PostJournalEntry

record JournalEntryPosted =
  jp_tenant_id :: TenantId
  jp_ledger_id :: LedgerId
  jp_entry_id :: uuid
  jp_lines :: "JournalEntryLine list"
  jp_description :: "string option"
  jp_occurred_at :: datetime

datatype LedgerEvent = JournalEntryPosted JournalEntryPosted

primrec ledger_event_type :: "LedgerEvent \<Rightarrow> string" where
  "ledger_event_type (JournalEntryPosted _) = ''accounting.ledger.journal_entry_posted''"

definition ledger_event_version :: "LedgerEvent \<Rightarrow> u32" where
  "ledger_event_version _ = 1"

primrec ledger_event_occurred_at :: "LedgerEvent \<Rightarrow> datetime" where
  "ledger_event_occurred_at (JournalEntryPosted e) = jp_occurred_at e"

subsection \<open>Operations\<close>

definition ledger_apply :: "Ledger \<Rightarrow> LedgerEvent \<Rightarrow> Ledger" where
  "ledger_apply self event =
    (let self' = (case event of
         JournalEntryPosted e \<Rightarrow>
           (let self1 = self\<lparr>lg_id := jp_ledger_id e\<rparr> in
            if lg_tenant_id self1 = None
              then self1\<lparr>lg_tenant_id := Some (jp_tenant_id e), lg_created := True\<rparr>
              else self1))
     in self'\<lparr>lg_version := lg_version self' + 1\<rparr>)"

definition ledger_ensure_tenant :: "Ledger \<Rightarrow> TenantId \<Rightarrow> unit domain_result" where
  "ledger_ensure_tenant self tenant_id =
    (if \<not> lg_created self then Inr ()
     else if lg_tenant_id self \<noteq> Some tenant_id then Inl (InvariantViolation ''tenant mismatch'')
     else Inr ())"

text \<open>The loop over the lines, with its two running totals (\<^verbatim>\<open>as i128\<close> sign-extends).\<close>

primrec journal_totals ::
    "JournalEntryLine list \<Rightarrow> i128 \<Rightarrow> i128 \<Rightarrow> (i128 \<times> i128) domain_result" where
  "journal_totals [] debit_total credit_total = Inr (debit_total, credit_total)"
| "journal_totals (line # lines) debit_total credit_total =
     (if sint (jl_amount line) \<le> 0 then Inl (Validation ''amount must be positive'')
      else if jl_is_debit line
        then journal_totals lines (debit_total + scast (jl_amount line)) credit_total
        else journal_totals lines debit_total (credit_total + scast (jl_amount line)))"

definition handle_post :: "Ledger \<Rightarrow> PostJournalEntry \<Rightarrow> LedgerEvent list domain_result" where
  "handle_post self cmd =
    and_then (ledger_ensure_tenant self (pj_tenant_id cmd)) (\<lambda>_.
      if pj_lines cmd = [] then Inl (Validation ''journal entry must have lines'')
      else and_then (journal_totals (pj_lines cmd) 0 0) (\<lambda>(debit_total, credit_total).
        if debit_total \<noteq> credit_total then Inl (InvariantViolation ''debits must equal credits'')
        else Inr [JournalEntryPosted \<lparr> jp_tenant_id = pj_tenant_id cmd,
                    jp_ledger_id = pj_ledger_id cmd, jp_entry_id = pj_entry_id cmd,
                    jp_lines = pj_lines cmd, jp_description = pj_description cmd,
                    jp_occurred_at = pj_occurred_at cmd \<rparr>]))"

primrec ledger_handle :: "Ledger \<Rightarrow> JournalCommand \<Rightarrow> LedgerEvent list domain_result" where
  "ledger_handle self (PostJournalEntry cmd) = handle_post self cmd"

definition ledger_ops :: "(Ledger, LedgerEvent, JournalCommand) AggregateOps" where
  "ledger_ops = \<lparr> ao_apply = ledger_apply, ao_handle = ledger_handle, ao_event_type = ledger_event_type,
     ao_event_version = ledger_event_version, ao_occurred_at = ledger_event_occurred_at \<rparr>"

lemmas ledger_defs [handler_defs] = ledger_ensure_tenant_def handle_post_def

subsection \<open>Exactness of the totals\<close>

text \<open>The mathematical totals of an entry.\<close>

definition debits :: "JournalEntryLine list \<Rightarrow> int" where
  "debits ls = (\<Sum>l \<leftarrow> filter jl_is_debit ls. sint (jl_amount l))"

definition credits :: "JournalEntryLine list \<Rightarrow> int" where
  "credits ls = (\<Sum>l \<leftarrow> filter (\<lambda>l. \<not> jl_is_debit l) ls. sint (jl_amount l))"

definition amounts_positive :: "JournalEntryLine list \<Rightarrow> bool" where
  "amounts_positive ls \<longleftrightarrow> (\<forall>l \<in> set ls. 0 < sint (jl_amount l))"

lemma totals_simps [simp]:
  "debits [] = 0" "credits [] = 0"
  "debits (l # ls) = (if jl_is_debit l then sint (jl_amount l) + debits ls else debits ls)"
  "credits (l # ls) = (if jl_is_debit l then credits ls else sint (jl_amount l) + credits ls)"
  by (simp_all add: debits_def credits_def)

lemma journal_totals_ok:
  "journal_totals ls d c = Inr r \<longleftrightarrow>
     amounts_positive ls \<and> r = (d + word_of_int (debits ls), c + word_of_int (credits ls))"
  by (induction ls arbitrary: d c)
    (auto simp: amounts_positive_def add.assoc not_le)

lemma totals_bounds:
  assumes "amounts_positive ls"
  shows "0 \<le> debits ls" "0 \<le> credits ls"
    "debits ls \<le> 2 ^ 63 * int (length ls)" "credits ls \<le> 2 ^ 63 * int (length ls)"
proof -
  have "0 \<le> debits ls \<and> 0 \<le> credits ls \<and> debits ls \<le> 2 ^ 63 * int (length ls) \<and>
    credits ls \<le> 2 ^ 63 * int (length ls)"
    using assms
  proof (induction ls)
    case (Cons l ls)
    then have "0 < sint (jl_amount l)" "amounts_positive ls"
      by (auto simp: amounts_positive_def)
    then show ?case using Cons.IH sint64_range [of "jl_amount l"] by (auto simp: algebra_simps)
  qed simp
  then show "0 \<le> debits ls" "0 \<le> credits ls"
    "debits ls \<le> 2 ^ 63 * int (length ls)" "credits ls \<le> 2 ^ 63 * int (length ls)" by auto
qed

lemma word128_eq_iff:
  assumes "0 \<le> a" "a < 2 ^ 128" "0 \<le> b" "b < 2 ^ 128"
  shows "(word_of_int a :: i128) = word_of_int b \<longleftrightarrow> a = b"
  using assms by (simp add: word_of_int_eq_iff take_bit_int_eq_self)

lemma totals_equal_iff:
  assumes "amounts_positive ls" "length ls < 2 ^ 64"
  shows "(word_of_int (debits ls) :: i128) = word_of_int (credits ls) \<longleftrightarrow> debits ls = credits ls"
proof (rule word128_eq_iff)
  have "2 ^ 63 * int (length ls) < 2 ^ 128" using assms(2) by simp
  then show "debits ls < 2 ^ 128" "credits ls < 2 ^ 128"
    using totals_bounds [OF assms(1)] by simp_all
qed (use totals_bounds [OF assms(1)] in simp_all)

subsection \<open>Invariant\<close>

definition ledger_invar :: "Ledger \<Rightarrow> bool" where
  "ledger_invar s \<longleftrightarrow> (lg_created s \<longleftrightarrow> lg_tenant_id s \<noteq> None)"

lemma ledger_empty_invar [simp]: "ledger_invar (ledger_empty i)"
  by (simp add: ledger_invar_def ledger_empty_def)

lemma handle_post_ok:
  "handle_post s c = Inr es \<longleftrightarrow>
     (lg_created s \<longrightarrow> lg_tenant_id s = Some (pj_tenant_id c)) \<and> pj_lines c \<noteq> [] \<and>
     amounts_positive (pj_lines c) \<and>
     (word_of_int (debits (pj_lines c)) :: i128) = word_of_int (credits (pj_lines c)) \<and>
     es = [JournalEntryPosted \<lparr> jp_tenant_id = pj_tenant_id c, jp_ledger_id = pj_ledger_id c,
             jp_entry_id = pj_entry_id c, jp_lines = pj_lines c,
             jp_description = pj_description c, jp_occurred_at = pj_occurred_at c \<rparr>]"
  by (auto simp: ledger_defs result_simps journal_totals_ok split: prod.splits)

definition ledger_owner :: "Ledger \<Rightarrow> TenantId option" where
  "ledger_owner s = (if lg_created s then lg_tenant_id s else None)"

primrec ledger_event_tenant :: "LedgerEvent \<Rightarrow> TenantId" where
  "ledger_event_tenant (JournalEntryPosted e) = jp_tenant_id e"

interpretation ledger:
  tenant_aggregate ledger_apply ledger_handle lg_version ledger_invar ledger_owner ledger_event_tenant
proof
  fix s e
  show "lg_version (ledger_apply s e) = lg_version s + 1"
    by (cases e) (simp_all add: ledger_apply_def Let_def)
next
  fix s c es
  assume "ledger_invar s" "ledger_handle s c = Inr es"
  then show "ledger_invar (foldl ledger_apply s es)"
    by (cases c) (auto simp: handle_post_ok ledger_apply_def ledger_invar_def)
next
  fix s c es e
  assume "ledger_invar s" "ledger_handle s c = Inr es" "e \<in> set es"
  then show "ledger_owner (foldl ledger_apply s es) = Some (ledger_event_tenant e)"
    by (cases c) (auto simp: handle_post_ok ledger_apply_def ledger_owner_def ledger_invar_def)
next
  fix s c es t
  assume "ledger_invar s" "ledger_handle s c = Inr es" "ledger_owner s = Some t"
  then show "ledger_owner (foldl ledger_apply s es) = Some t"
    by (cases c) (auto simp: handle_post_ok ledger_apply_def ledger_owner_def split: if_splits)
qed

text \<open>Every entry of a history the ledger decided balances.\<close>

primrec entry_lines :: "LedgerEvent \<Rightarrow> JournalEntryLine list" where
  "entry_lines (JournalEntryPosted e) = jp_lines e"

lemma decided_entries:
  assumes "decided ledger_apply ledger_handle init h" "e \<in> set h"
  shows "amounts_positive (entry_lines e) \<and>
    (word_of_int (debits (entry_lines e)) :: i128) = word_of_int (credits (entry_lines e))"
  using assms
proof induction
  case (decided_step h c es)
  then show ?case by (cases c) (auto simp: handle_post_ok)
qed simp

subsection \<open>Properties\<close>

text \<open>A journal entry of fewer than \<^verbatim>\<open>2^64\<close> lines is accepted exactly when the tenant
  matches, it has lines, every amount is positive, and the debits and credits are equal as
  integers; the 128-bit totals never wrap.\<close>

theorem journal_entry_accepted_iff:
  assumes "length (pj_lines c) < 2 ^ 64"
  shows "is_ok (ledger_handle s (PostJournalEntry c)) \<longleftrightarrow>
     (lg_created s \<longrightarrow> lg_tenant_id s = Some (pj_tenant_id c)) \<and> pj_lines c \<noteq> [] \<and>
     amounts_positive (pj_lines c) \<and> debits (pj_lines c) = credits (pj_lines c)"
  using totals_equal_iff [OF _ assms] by (auto simp: is_ok_iff handle_post_ok)

definition ex_entry :: "i64 \<Rightarrow> PostJournalEntry" where
  "ex_entry credit = \<lparr> pj_tenant_id = TenantId 1, pj_ledger_id = LedgerId (AggregateId 7),
     pj_entry_id = 8, pj_lines =
       [\<lparr> jl_account = \<lparr> ac_code = ''1000'', ac_name = ''Cash'', ac_kind = Asset \<rparr>, jl_amount = 100,
          jl_is_debit = True \<rparr>,
        \<lparr> jl_account = \<lparr> ac_code = ''4000'', ac_name = ''Sales'', ac_kind = Revenue \<rparr>,
          jl_amount = credit, jl_is_debit = False \<rparr>],
     pj_occurred_at = 5, pj_description = None \<rparr>"

theorem journal_entry_accepted_iff_witness:
  "is_ok (ledger_handle (ledger_empty (LedgerId (AggregateId 7))) (PostJournalEntry (ex_entry 100))) \<and>
   \<not> is_ok (ledger_handle (ledger_empty (LedgerId (AggregateId 7))) (PostJournalEntry (ex_entry 99)))"
proof -
  have len: "length (pj_lines (ex_entry x)) < 2 ^ 64" for x by (simp add: ex_entry_def)
  show ?thesis
    using journal_entry_accepted_iff [OF len, of "ledger_empty (LedgerId (AggregateId 7))" 100]
      journal_entry_accepted_iff [OF len, of "ledger_empty (LedgerId (AggregateId 7))" 99]
    by (simp add: ex_entry_def ledger_empty_def amounts_positive_def)
qed

text \<open>C38: double entry: every entry in a history the ledger decided balances, so over any such
  history total debits equal total credits.\<close>

theorem ledger_history_balances:
  assumes "decided ledger_apply ledger_handle (ledger_empty i) h"
    "\<forall>e \<in> set h. length (entry_lines e) < 2 ^ 64"
  shows "(\<Sum>e \<leftarrow> h. debits (entry_lines e)) = (\<Sum>e \<leftarrow> h. credits (entry_lines e))"
proof -
  have "debits (entry_lines e) = credits (entry_lines e)" if "e \<in> set h" for e
    using decided_entries [OF assms(1) that] assms(2) that totals_equal_iff by blast
  then show ?thesis by (intro arg_cong [where f = sum_list] map_cong) auto
qed

theorem ledger_history_balances_witness:
  "(\<Sum>e \<leftarrow> [JournalEntryPosted \<lparr> jp_tenant_id = TenantId 1, jp_ledger_id = LedgerId (AggregateId 7),
      jp_entry_id = 8, jp_lines = pj_lines (ex_entry 100), jp_description = None,
      jp_occurred_at = 5 \<rparr>]. debits (entry_lines e)) =
   (\<Sum>e \<leftarrow> [JournalEntryPosted \<lparr> jp_tenant_id = TenantId 1, jp_ledger_id = LedgerId (AggregateId 7),
      jp_entry_id = 8, jp_lines = pj_lines (ex_entry 100), jp_description = None,
      jp_occurred_at = 5 \<rparr>]. credits (entry_lines e))"
proof (rule ledger_history_balances)
  have "decided ledger_apply ledger_handle (ledger_empty (LedgerId (AggregateId 7)))
    ([] @ [JournalEntryPosted \<lparr> jp_tenant_id = TenantId 1, jp_ledger_id = LedgerId (AggregateId 7),
      jp_entry_id = 8, jp_lines = pj_lines (ex_entry 100), jp_description = None,
      jp_occurred_at = 5 \<rparr>])"
    by (rule decided_step [OF decided_Nil, where c = "PostJournalEntry (ex_entry 100)"]) code_simp
  then show "decided ledger_apply ledger_handle (ledger_empty (LedgerId (AggregateId 7)))
    [JournalEntryPosted \<lparr> jp_tenant_id = TenantId 1, jp_ledger_id = LedgerId (AggregateId 7),
      jp_entry_id = 8, jp_lines = pj_lines (ex_entry 100), jp_description = None,
      jp_occurred_at = 5 \<rparr>]" by simp
qed (simp add: ex_entry_def)

end
