(* ===== verification/Account_Projection.thy ===== *)
theory Account_Projection
  imports Projections Accounting
begin

text \<open>
  Account balances (\<^verbatim>\<open>infra/src/projections/accounting.rs\<close>): one row per account code of a tenant,
  debit-positive, over all ledgers of the tenant.  The rows of a tenant always sum to zero (the
  trial balance), because every decided entry balances.
\<close>

record AccountBalance =
  ab_account_code :: string
  ab_account_name :: string
  ab_kind :: AccountKind
  ab_balance :: i128

type_synonym account_store = "(string, AccountBalance) InMemoryTenantStore"

definition ledger_check :: "TenantId \<Rightarrow> AggregateId \<Rightarrow> LedgerEvent \<Rightarrow> ApplyError + unit" where
  "ledger_check tenant_id _ ev =
    (if ledger_event_tenant ev \<noteq> tenant_id
       then Inl (TenantIsolation ''event tenant_id does not match envelope tenant_id'')
     else Inr ())"

definition line_delta :: "JournalEntryLine \<Rightarrow> i128" where
  "line_delta line = (if jl_is_debit line then scast (jl_amount line) else - scast (jl_amount line))"

definition post_line :: "TenantId \<Rightarrow> account_store \<Rightarrow> JournalEntryLine \<Rightarrow> account_store" where
  "post_line tenant_id store line =
    (let code = ac_code (jl_account line);
         rm = (case ts_get store tenant_id code of Some rm \<Rightarrow> rm
               | None \<Rightarrow> \<lparr> ab_account_code = code, ab_account_name = ac_name (jl_account line),
                   ab_kind = ac_kind (jl_account line), ab_balance = 0 \<rparr>)
     in ts_upsert store tenant_id code (rm\<lparr>ab_balance := ab_balance rm + line_delta line\<rparr>))"

definition account_balances_update ::
    "account_store \<Rightarrow> TenantId \<Rightarrow> AggregateId \<Rightarrow> LedgerEvent \<Rightarrow> account_store" where
  "account_balances_update store tenant_id _ ev =
    (case ev of JournalEntryPosted e \<Rightarrow> foldl (post_line tenant_id) store (jp_lines e))"

definition account_balances :: "(account_store, LedgerEvent) ProjectionLogic" where
  "account_balances = \<lparr> pl_aggregate_type = ''accounting.ledger'', pl_check = ledger_check,
     pl_update = account_balances_update \<rparr>"

subsection \<open>The trial balance\<close>

definition trial_balance ::
    "(((TenantId \<times> string) \<times> AccountBalance) list \<Rightarrow> ((TenantId \<times> string) \<times> AccountBalance) list) \<Rightarrow>
     account_store \<Rightarrow> TenantId \<Rightarrow> i128" where
  "trial_balance iter store t = sum_list (map ab_balance (ts_list iter store t))"

definition entry_sum :: "TenantId \<Rightarrow> ((TenantId \<times> string) \<times> AccountBalance) list \<Rightarrow> i128" where
  "entry_sum t xs = (\<Sum>((t', _), v) \<leftarrow> xs. if t' = t then ab_balance v else 0)"

lemma entry_sum_simps [simp]:
  "entry_sum t [] = 0"
  "entry_sum t (((t', k), v) # xs) = (if t' = t then ab_balance v else 0) + entry_sum t xs"
  by (simp_all add: entry_sum_def)

lemma entry_sum_map_filter:
  "sum_list (map ab_balance (List.map_filter (\<lambda>((t', _), v). if t' = t then Some v else None) xs)) = entry_sum t xs"
  by (induction xs) (auto simp: map_filter_simps)

lemma trial_balance_entries:
  assumes "iter_ok iter" "ts_ok s"
  shows "trial_balance iter s t = entry_sum t (its_inner s)"
proof -
  have "mset (iter (its_inner s)) = mset (its_inner s)" using assms(1) by (simp add: iter_ok_def)
  then have "entry_sum t (iter (its_inner s)) = entry_sum t (its_inner s)"
    unfolding entry_sum_def sum_mset_sum_list [symmetric] mset_map by (rule arg_cong)
  then show ?thesis
    using assms(2) by (simp add: trial_balance_def ts_list_def ts_ok_def entry_sum_map_filter)
qed

lemma entry_sum_update:
  "entry_sum t (AList.update (t', k) v xs) = entry_sum t xs +
    (if t' = t then ab_balance v - (case map_of xs (t', k) of Some w \<Rightarrow> ab_balance w | None \<Rightarrow> 0) else 0)"
proof (induction xs)
  case (Cons x xs)
  obtain a b w where x: "x = ((a, b), w)" by (cases x) auto
  show ?case
  proof (cases "(a, b) = (t', k)")
    case True
    then show ?thesis by (simp add: x)
  next
    case False
    then have "AList.update (t', k) v (x # xs) = x # AList.update (t', k) v xs"
      "map_of (x # xs) (t', k) = map_of xs (t', k)" by (auto simp: x)
    then show ?thesis by (simp only: x entry_sum_simps Cons.IH add.assoc)
  qed
qed simp

lemma post_line_sum:
  assumes "ts_ok s"
  shows "ts_ok (post_line t' s l)"
    "entry_sum t (its_inner (post_line t' s l)) =
       entry_sum t (its_inner s) + (if t' = t then line_delta l else 0)"
proof -
  show "ts_ok (post_line t' s l)"
    using assms by (simp add: post_line_def Let_def in_memory_tenant_store.store_simps)
  show "entry_sum t (its_inner (post_line t' s l)) =
      entry_sum t (its_inner s) + (if t' = t then line_delta l else 0)"
    using assms
    by (auto simp: post_line_def ts_ok_def Let_def ts_upsert_def ts_get_def entry_sum_update split: option.splits)
qed

lemma post_lines_sum:
  assumes "ts_ok s"
  shows "ts_ok (foldl (post_line t') s ls) \<and> entry_sum t (its_inner (foldl (post_line t') s ls)) =
    entry_sum t (its_inner s) + (if t' = t then word_of_int (debits ls) - word_of_int (credits ls) else 0)"
  using assms
proof (induction ls arbitrary: s)
  case (Cons l ls)
  have "line_delta l = (if jl_is_debit l then word_of_int (sint (jl_amount l))
      else - word_of_int (sint (jl_amount l)))"
    by (simp add: line_delta_def)
  then show ?case
    using Cons.IH [OF post_line_sum(1) [OF Cons.prems]] post_line_sum(2) [OF Cons.prems]
    by (auto simp: algebra_simps)
qed simp

lemma balanced_updates_sum:
  assumes "ts_ok s" "entry_sum t (its_inner s) = 0"
    "\<forall>(_, _, e) \<in> set xs. (word_of_int (debits (entry_lines e)) :: i128) = word_of_int (credits (entry_lines e))"
  shows "ts_ok (foldl (update_store account_balances) s xs) \<and>
    entry_sum t (its_inner (foldl (update_store account_balances) s xs)) = 0"
  using assms
proof (induction xs arbitrary: s)
  case (Cons x xs)
  obtain t' a e where x: "x = (t', a, JournalEntryPosted e)"
    by (cases x; cases "snd (snd x)") auto
  have "update_store account_balances s x = foldl (post_line t') s (jp_lines e)"
    by (simp add: x update_store_def account_balances_def account_balances_update_def)
  then show ?case
    using Cons.IH [of "update_store account_balances s x"] post_lines_sum [OF Cons.prems(1), of t' "jp_lines e" t]
      Cons.prems(2,3) x by auto
qed simp

subsection \<open>Properties\<close>

text \<open>C35: the trial balance is zero.  When the ledger streams are decided histories, delivered at
  least once without gaps in any interleaving, every call succeeds and the account balances of
  every tenant sum to zero, whatever the iteration order of the store.\<close>

theorem trial_balance_zero:
  assumes "\<forall>t a. decided ledger_apply ledger_handle (ledger_empty (LedgerId a)) (hist t a)"
    "\<forall>env \<in> set envs. genuine from_value account_balances hist env"
    "no_gaps ''accounting.ledger'' (\<lambda>_ _. 0) envs" "iter_ok iter"
  shows "\<exists>p. apply_envelopes (apply_envelope ops from_value account_balances)
      (projection_new ts_new ''accounting.balances'') envs = (p, Inr ()) \<and>
    (\<forall>t. trial_balance iter (pj_store p) t = 0)"
proof -
  let ?p0 = "projection_new ts_new ''accounting.balances''"
  let ?xs = "taken ''accounting.ledger'' hist (\<lambda>_ _. 0) envs"
  have ty: "pl_aggregate_type account_balances = ''accounting.ledger''" by (simp add: account_balances_def)
  have "at_progress ops ?p0 (\<lambda>_ _. 0)" by (simp add: at_progress_def)
  from apply_genuine_run [OF this assms(2)] assms(3) obtain p where p:
    "apply_envelopes (apply_envelope ops from_value account_balances) ?p0 envs = (p, Inr ())"
    "pj_store p = foldl (update_store account_balances) ts_new ?xs"
    by (auto simp: ty)
  have "\<forall>(_, _, e) \<in> set ?xs. (word_of_int (debits (entry_lines e)) :: i128) = word_of_int (credits (entry_lines e))"
    using taken_checked [OF assms(2), of "\<lambda>_ _. 0"] assms(1) decided_entries unfolding ty by fastforce
  then have "ts_ok (pj_store p) \<and> entry_sum t (its_inner (pj_store p)) = 0" for t
    unfolding p(2) by (intro balanced_updates_sum) (simp_all add: ts_new_def ts_ok_def)
  then show ?thesis using p(1) by (simp add: trial_balance_entries [OF assms(4)])
qed

definition ex_posted :: LedgerEvent where
  "ex_posted = JournalEntryPosted \<lparr> jp_tenant_id = TenantId 1, jp_ledger_id = LedgerId (AggregateId 7),
     jp_entry_id = 8, jp_lines = pj_lines (ex_entry 100), jp_description = None, jp_occurred_at = 5 \<rparr>"

definition ex_posted_env :: "LedgerEvent EventEnvelope" where
  "ex_posted_env = \<lparr> ee_event_id = 3, ee_tenant_id = TenantId 1, ee_aggregate_id = AggregateId 7,
     ee_aggregate_type = ''accounting.ledger'', ee_sequence_number = 1, ee_payload = ex_posted \<rparr>"

theorem trial_balance_zero_witness:
  "\<exists>p. apply_envelopes (apply_envelope InMemoryCursorStore Inr account_balances)
      (projection_new ts_new ''accounting.balances'') [ex_posted_env, ex_posted_env] = (p, Inr ()) \<and>
    (\<forall>t. trial_balance rev (pj_store p) t = 0)"
proof (rule trial_balance_zero)
  let ?hist = "\<lambda>t a. if t = TenantId 1 \<and> a = AggregateId 7 then [ex_posted] else []"
  have "decided ledger_apply ledger_handle (ledger_empty (LedgerId (AggregateId 7))) ([] @ [ex_posted])"
    by (rule decided_step [OF decided_Nil, where c = "PostJournalEntry (ex_entry 100)"]) code_simp
  then show "\<forall>t a. decided ledger_apply ledger_handle (ledger_empty (LedgerId a)) (?hist t a)"
    by (auto intro: decided_Nil)
  show "\<forall>env \<in> set [ex_posted_env, ex_posted_env]. genuine Inr account_balances ?hist env" by code_simp
  show "no_gaps ''accounting.ledger'' (\<lambda>_ _. 0) [ex_posted_env, ex_posted_env]" by code_simp
qed (simp add: iter_ok_def)

end
