(* ===== verification/User_Projection.thy ===== *)
theory User_Projection
  imports Projections Authorization
begin

text \<open>
  The user directory (\<^verbatim>\<open>infra/src/projections/users.rs\<close>).  Unlike the other projections it keeps
  no cursor.  With each event delivered once and in order its rows show the user aggregates; a
  redelivered event is applied again.
\<close>

record UserReadModel =
  urm_user_id :: AuthUserId
  urm_tenant_id :: TenantId
  urm_email :: string
  urm_display_name :: string
  urm_roles :: "string list"
  urm_status :: string
  urm_created_at :: datetime
  urm_updated_at :: datetime

record EffectivePermissions =
  ep_user_id :: AuthUserId
  ep_tenant_id :: TenantId
  ep_roles :: "string list"
  ep_permissions :: "string list"

type_synonym user_store = "(AuthUserId, UserReadModel) InMemoryTenantStore"

primrec show_status :: "UserStatus \<Rightarrow> string" where
  "show_status UserStatus.Active = ''Active''"
| "show_status UserStatus.Suspended = ''Suspended''"

definition users_apply_created :: "user_store \<Rightarrow> TenantId \<Rightarrow> UserCreated \<Rightarrow> user_store" where
  "users_apply_created store tenant_id e =
    ts_upsert store tenant_id (ucr_user_id e)
     \<lparr> urm_user_id = ucr_user_id e, urm_tenant_id = ucr_tenant_id e, urm_email = ucr_email e,
       urm_display_name = ucr_display_name e, urm_roles = map role_str (ucr_initial_roles e),
       urm_status = show_status UserStatus.Active, urm_created_at = ucr_occurred_at e,
       urm_updated_at = ucr_occurred_at e \<rparr>"

definition users_apply_role_assigned :: "user_store \<Rightarrow> TenantId \<Rightarrow> RoleAssigned \<Rightarrow> user_store" where
  "users_apply_role_assigned store tenant_id e =
    (case ts_get store tenant_id (ras_user_id e) of
       None \<Rightarrow> store
     | Some model \<Rightarrow>
         (let role = role_str (ras_role e);
              model = (if role \<notin> set (urm_roles model) then model\<lparr>urm_roles := urm_roles model @ [role]\<rparr> else model)
          in ts_upsert store tenant_id (ras_user_id e) (model\<lparr>urm_updated_at := ras_occurred_at e\<rparr>)))"

definition users_apply_role_revoked :: "user_store \<Rightarrow> TenantId \<Rightarrow> RoleRevoked \<Rightarrow> user_store" where
  "users_apply_role_revoked store tenant_id e =
    (case ts_get store tenant_id (rrv_user_id e) of
       None \<Rightarrow> store
     | Some model \<Rightarrow> ts_upsert store tenant_id (rrv_user_id e)
         (model\<lparr>urm_roles := filter (\<lambda>r. r \<noteq> role_str (rrv_role e)) (urm_roles model),
                urm_updated_at := rrv_occurred_at e\<rparr>))"

definition users_apply_suspended :: "user_store \<Rightarrow> TenantId \<Rightarrow> UserSuspended \<Rightarrow> user_store" where
  "users_apply_suspended store tenant_id e =
    (case ts_get store tenant_id (usu_user_id e) of
       None \<Rightarrow> store
     | Some model \<Rightarrow> ts_upsert store tenant_id (usu_user_id e)
         (model\<lparr>urm_status := show_status UserStatus.Suspended, urm_updated_at := usu_occurred_at e\<rparr>))"

definition users_apply_activated :: "user_store \<Rightarrow> TenantId \<Rightarrow> UserActivated \<Rightarrow> user_store" where
  "users_apply_activated store tenant_id e =
    (case ts_get store tenant_id (uac_user_id e) of
       None \<Rightarrow> store
     | Some model \<Rightarrow> ts_upsert store tenant_id (uac_user_id e)
         (model\<lparr>urm_status := show_status UserStatus.Active, urm_updated_at := uac_occurred_at e\<rparr>))"

definition users_update :: "user_store \<Rightarrow> TenantId \<Rightarrow> UserEvent \<Rightarrow> user_store" where
  "users_update store tenant_id event =
    (case event of
       Created e \<Rightarrow> users_apply_created store tenant_id e
     | RoleAssigned e \<Rightarrow> users_apply_role_assigned store tenant_id e
     | RoleRevoked e \<Rightarrow> users_apply_role_revoked store tenant_id e
     | UserEvent.Suspended e \<Rightarrow> users_apply_suspended store tenant_id e
     | Activated e \<Rightarrow> users_apply_activated store tenant_id e)"

definition users_apply_envelope ::
    "('j \<Rightarrow> string + UserEvent) \<Rightarrow> user_store \<Rightarrow> 'j EventEnvelope \<Rightarrow> user_store \<times> (string + unit)" where
  "users_apply_envelope from_value store envelope =
    (if take 9 (ee_aggregate_type envelope) \<noteq> ''auth.user'' then (store, Inr ())
     else (case from_value (ee_payload envelope) of
         Inl err \<Rightarrow> (store, Inl err)
       | Inr event \<Rightarrow> (users_update store (ee_tenant_id envelope) event, Inr ())))"

definition users_get_by_email ::
    "(string \<Rightarrow> string) \<Rightarrow> UserReadModel list \<Rightarrow> string \<Rightarrow> UserReadModel option" where
  "users_get_by_email to_lowercase rows email =
    find (\<lambda>u. urm_email u = to_lowercase (trim email)) rows"

definition effective_permissions ::
    "(string list \<Rightarrow> string list) \<Rightarrow> user_store \<Rightarrow> TenantId \<Rightarrow> AuthUserId \<Rightarrow> (string \<Rightarrow> string list) \<Rightarrow>
     EffectivePermissions option" where
  "effective_permissions iter store tenant_id user_id role_permissions =
    map_option (\<lambda>model.
      \<lparr> ep_user_id = urm_user_id model, ep_tenant_id = urm_tenant_id model, ep_roles = urm_roles model,
        ep_permissions = iter (role_perm_set role_permissions (urm_roles model) []) \<rparr>)
      (ts_get store tenant_id user_id)"

lemmas users_update_defs =
  users_update_def users_apply_created_def users_apply_role_assigned_def users_apply_role_revoked_def
  users_apply_suspended_def users_apply_activated_def

subsection \<open>Rows as folds\<close>

primrec user_event_user :: "UserEvent \<Rightarrow> AuthUserId" where
  "user_event_user (Created e) = ucr_user_id e"
| "user_event_user (RoleAssigned e) = ras_user_id e"
| "user_event_user (RoleRevoked e) = rrv_user_id e"
| "user_event_user (UserEvent.Suspended e) = usu_user_id e"
| "user_event_user (Activated e) = uac_user_id e"

definition user_row :: "UserReadModel option \<Rightarrow> UserEvent \<Rightarrow> UserReadModel option" where
  "user_row r event =
    (case event of
       Created e \<Rightarrow> Some
         \<lparr> urm_user_id = ucr_user_id e, urm_tenant_id = ucr_tenant_id e, urm_email = ucr_email e,
           urm_display_name = ucr_display_name e, urm_roles = map role_str (ucr_initial_roles e),
           urm_status = ''Active'', urm_created_at = ucr_occurred_at e,
           urm_updated_at = ucr_occurred_at e \<rparr>
     | RoleAssigned e \<Rightarrow> map_option (\<lambda>m. m\<lparr>urm_roles := (if role_str (ras_role e) \<in> set (urm_roles m)
           then urm_roles m else urm_roles m @ [role_str (ras_role e)]), urm_updated_at := ras_occurred_at e\<rparr>) r
     | RoleRevoked e \<Rightarrow> map_option (\<lambda>m. m\<lparr>urm_roles := filter (\<lambda>x. x \<noteq> role_str (rrv_role e)) (urm_roles m),
           urm_updated_at := rrv_occurred_at e\<rparr>) r
     | UserEvent.Suspended e \<Rightarrow> map_option (\<lambda>m. m\<lparr>urm_status := ''Suspended'', urm_updated_at := usu_occurred_at e\<rparr>) r
     | Activated e \<Rightarrow> map_option (\<lambda>m. m\<lparr>urm_status := ''Active'', urm_updated_at := uac_occurred_at e\<rparr>) r)"

lemma users_update_row:
  assumes "ts_ok s"
  shows "ts_ok (users_update s t e)"
    "ts_get (users_update s t e) t' u =
      (if t' = t \<and> u = user_event_user e then user_row (ts_get s t u) e else ts_get s t' u)"
  using assms
  by (cases e; auto simp: users_update_defs user_row_def Let_def in_memory_tenant_store.store_simps
    split: option.splits)+

text \<open>What the aggregate keeps, with statuses and roles as the strings of the row.\<close>

definition user_fields ::
    "UserReadModel \<Rightarrow> AuthUserId \<times> TenantId \<times> string \<times> string \<times> string list \<times> string" where
  "user_fields m = (urm_user_id m, urm_tenant_id m, urm_email m, urm_display_name m, urm_roles m, urm_status m)"

definition user_view ::
    "User \<Rightarrow> (AuthUserId \<times> TenantId \<times> string \<times> string \<times> string list \<times> string) option" where
  "user_view s = (if us_created s
     then map_option (\<lambda>t. (us_id s, t, us_email s, us_display_name s, map role_str (us_roles s),
       show_status (us_status s))) (us_tenant_id s) else None)"

lemma user_row_step:
  assumes "user_invar s" "user_handle lc s c = Inr es" "map_option user_fields r = user_view s"
  shows "map_option user_fields (foldl user_row r es) = user_view (foldl user_apply s es)"
  using assms(2)
proof (cases rule: user_handle_cases)
  case (create cmd e)
  then show ?thesis by (simp add: user_row_def user_view_def user_fields_def user_apply_defs)
next
  case (assign cmd e)
  then have "role_str (ras_role e) \<notin> role_str ` set (us_roles s)" by auto
  then show ?thesis
    using assign assms(3) by (cases r) (auto simp: user_row_def user_view_def user_fields_def user_apply_defs)
next
  case (revoke cmd e)
  then show ?thesis
    using assms(3) by (cases r) (auto simp: user_row_def user_view_def user_fields_def user_apply_defs filter_map comp_def)
next
  case (suspend cmd e)
  then show ?thesis
    using assms(3) by (cases r) (auto simp: user_row_def user_view_def user_fields_def user_apply_defs)
next
  case (activate cmd e)
  then show ?thesis
    using assms(3) by (cases r) (auto simp: user_row_def user_view_def user_fields_def user_apply_defs)
qed

lemma user_new_not_created: "\<not> us_created (user_new t u)"
  by (simp add: user_new_def user_empty_def)

lemma user_row_view:
  assumes "decided user_apply (user_handle lc) init h" "user_invar init" "\<not> us_created init"
  shows "map_option user_fields (foldl user_row None h) = user_view (foldl user_apply init h)"
  using assms(1)
proof induction
  case decided_Nil
  then show ?case using assms(3) by (simp add: user_view_def)
next
  case (decided_step h c es)
  then show ?case
    using user_row_step [OF user.decided_invar [OF decided_step.hyps(1) assms(2)] decided_step.hyps(2)] by simp
qed

text \<open>The events of one user among the envelopes.\<close>

definition user_events :: "('j \<Rightarrow> string + UserEvent) \<Rightarrow> 'j EventEnvelope list \<Rightarrow> TenantId \<Rightarrow> AuthUserId \<Rightarrow> UserEvent list" where
  "user_events from_value envs t u =
     List.map_filter (\<lambda>env. if take 9 (ee_aggregate_type env) = ''auth.user'' \<and> ee_tenant_id env = t
       then (case from_value (ee_payload env) of Inr e \<Rightarrow> if user_event_user e = u then Some e else None | Inl _ \<Rightarrow> None)
       else None) envs"

lemma users_apply_row:
  assumes "ts_ok s"
  shows "ts_ok (fst (users_apply_envelope from_value s env)) \<and>
    ts_get (fst (users_apply_envelope from_value s env)) t u = foldl user_row (ts_get s t u) (user_events from_value [env] t u)"
  using assms
  by (auto simp: users_apply_envelope_def user_events_def map_filter_simps users_update_row split: sum.splits)

lemma users_rows:
  assumes "ts_ok s"
  shows "ts_get (foldl (\<lambda>s env. fst (users_apply_envelope from_value s env)) s envs) t u =
    foldl user_row (ts_get s t u) (user_events from_value envs t u)"
  using assms
proof (induction envs arbitrary: s)
  case Nil
  then show ?case by (simp add: user_events_def map_filter_simps)
next
  case (Cons env envs)
  have "user_events from_value (env # envs) t u = user_events from_value [env] t u @ user_events from_value envs t u"
    by (simp add: user_events_def map_filter_simps split: option.splits)
  then show ?case
    using Cons.IH [of "fst (users_apply_envelope from_value s env)"] users_apply_row [OF Cons.prems, of from_value env t u]
    by simp
qed

subsection \<open>Properties\<close>

text \<open>C36: the user directory shows the aggregates.  When the events of a user among the applied
  envelopes are a history the user aggregate decided, its row has exactly the aggregate's tenant,
  e-mail, name, roles and status, and the effective permissions computed from it are exactly
  those some current role of the aggregate grants.\<close>

theorem user_directory_shows_aggregate:
  assumes "decided user_apply (user_handle lc) (user_new t u) (user_events from_value envs t u)" "iter_ok iter"
  shows "let s = foldl user_apply (user_new t u) (user_events from_value envs t u);
      store = foldl (\<lambda>s env. fst (users_apply_envelope from_value s env)) ts_new envs in
    map_option user_fields (ts_get store t u) = user_view s \<and>
    (case effective_permissions iter store t u f of
       None \<Rightarrow> \<not> us_created s
     | Some ep \<Rightarrow> us_created s \<and> set (ep_permissions ep) = (\<Union>r \<in> set (us_roles s). set (f (role_str r))))"
proof -
  let ?s = "foldl user_apply (user_new t u) (user_events from_value envs t u)"
  let ?store = "foldl (\<lambda>s env. fst (users_apply_envelope from_value s env)) ts_new envs"
  have inv: "user_invar ?s" using assms(1) by (rule user.decided_invar) simp
  have "ts_get ?store t u = foldl user_row None (user_events from_value envs t u)" by (simp add: users_rows)
  then have row: "map_option user_fields (ts_get ?store t u) = user_view ?s"
    using user_row_view [OF assms(1)] by (simp add: user_new_not_created)
  have perms: "set (role_perm_set f rs []) = (\<Union>r \<in> set rs. set (f r))" for rs by auto
  have "case effective_permissions iter ?store t u f of
       None \<Rightarrow> \<not> us_created ?s
     | Some ep \<Rightarrow> us_created ?s \<and> set (ep_permissions ep) = (\<Union>r \<in> set (us_roles ?s). set (f (role_str r)))"
    using row inv
    by (cases "ts_get ?store t u")
      (auto simp: effective_permissions_def user_view_def user_fields_def user_invar_def iter_ok_set [OF assms(2)]
        perms split: if_splits)
  then show ?thesis using row by (simp add: Let_def)
qed

definition ex_user_created :: UserEvent where
  "ex_user_created = Created \<lparr> ucr_tenant_id = TenantId 1, ucr_user_id = AuthUserId 7,
     ucr_email = ''a@b'', ucr_display_name = ''A'', ucr_initial_roles = [Role ''user''], ucr_occurred_at = 5 \<rparr>"

definition ex_user_suspended :: UserEvent where
  "ex_user_suspended = UserEvent.Suspended \<lparr> usu_tenant_id = TenantId 1, usu_user_id = AuthUserId 7,
     usu_reason = ''policy'', usu_occurred_at = 6 \<rparr>"

definition ex_user_env :: "u64 \<Rightarrow> UserEvent \<Rightarrow> UserEvent EventEnvelope" where
  "ex_user_env n e = \<lparr> ee_event_id = ucast n, ee_tenant_id = TenantId 1, ee_aggregate_id = AggregateId 7,
     ee_aggregate_type = ''auth.user'', ee_sequence_number = n, ee_payload = e \<rparr>"

theorem user_directory_shows_aggregate_witness:
  "map_option user_fields (ts_get (foldl (\<lambda>s env. fst (users_apply_envelope Inr s env)) ts_new
       [ex_user_env 1 ex_user_created, ex_user_env 2 ex_user_suspended]) (TenantId 1) (AuthUserId 7)) =
   user_view (foldl user_apply (user_new (TenantId 1) (AuthUserId 7)) [ex_user_created, ex_user_suspended])"
proof -
  let ?envs = "[ex_user_env 1 ex_user_created, ex_user_env 2 ex_user_suspended]"
  have ev: "user_events Inr ?envs (TenantId 1) (AuthUserId 7) = [ex_user_created, ex_user_suspended]"
    by code_simp
  have "decided user_apply (user_handle id) (user_new (TenantId 1) (AuthUserId 7)) ([] @ [ex_user_created])"
    by (rule decided_step [OF decided_Nil, where c = "Create \<lparr> cu_tenant_id = TenantId 1,
        cu_user_id = AuthUserId 7, cu_email = ''a@b'', cu_display_name = ''A'',
        cu_initial_roles = [Role ''user''], cu_occurred_at = 5 \<rparr>"]) code_simp
  then have "decided user_apply (user_handle id) (user_new (TenantId 1) (AuthUserId 7))
      (([] @ [ex_user_created]) @ [ex_user_suspended])"
    by (rule decided_step [where c = "Suspend \<lparr> su_tenant_id = TenantId 1,
        su_user_id = AuthUserId 7, su_reason = ''policy'', su_occurred_at = 6 \<rparr>"]) code_simp
  then have "decided user_apply (user_handle id) (user_new (TenantId 1) (AuthUserId 7))
      (user_events Inr ?envs (TenantId 1) (AuthUserId 7))" by (simp add: ev)
  from user_directory_shows_aggregate [OF this, of id] show ?thesis
    by (simp add: ev Let_def iter_ok_def)
qed

text \<open>The user directory is not idempotent.  Delivering the creation of a user again, after a
  suspension, turns the suspended user's row back to active.\<close>

theorem users_redelivery_reactivates:
  "map_option urm_status (ts_get (foldl (\<lambda>s env. fst (users_apply_envelope Inr s env)) ts_new
     [ex_user_env 1 ex_user_created, ex_user_env 2 ex_user_suspended]) (TenantId 1) (AuthUserId 7)) =
     Some ''Suspended'' \<and>
   map_option urm_status (ts_get (foldl (\<lambda>s env. fst (users_apply_envelope Inr s env)) ts_new
     [ex_user_env 1 ex_user_created, ex_user_env 2 ex_user_suspended, ex_user_env 1 ex_user_created])
     (TenantId 1) (AuthUserId 7)) = Some ''Active''"
  by code_simp

end
