(* ===== verification/Api_Core.thy ===== *)
theory Api_Core
  imports Dispatcher Authorization Stock_Projections Directory_Projections Order_Projections
    Invoice_Projections Account_Projection User_Projection
begin

text \<open>
  What the HTTP routes share (\<^verbatim>\<open>api/src/app/\<close>): responses and error mapping (\<^verbatim>\<open>errors.rs\<close>), request
  bodies and row rendering (\<^verbatim>\<open>dto.rs\<close>), the in-memory services (\<^verbatim>\<open>services.rs\<close>) and the steps every
  command route ends with: authorize, dispatch, respond.

  \<^verbatim>\<open>Platform\<close> holds what comes from outside the repository: parsing and printing of uuids and
  timestamps, the debug rendering of a store error, lower case, the iteration order of a hash set.
  \<^verbatim>\<open>Fresh\<close> holds what one request reads from its surroundings: the clock and fresh identifiers.
  \<^verbatim>\<open>Json\<close> is what the \<^verbatim>\<open>json!\<close> literals of the routes build.
\<close>

subsection \<open>Responses\<close>

datatype Json =
    JNull
  | JBool bool
  | JNumber int
  | JString string
  | JArray "Json list"
  | JObject "(string \<times> Json) list"

text \<open>\<^verbatim>\<open>Value::get\<close> with a key.\<close>

definition json_get :: "Json \<Rightarrow> string \<Rightarrow> Json option" where
  "json_get j k = (case j of JObject kvs \<Rightarrow> map_of kvs k | _ \<Rightarrow> None)"

record Response =
  rs_status :: StatusCode
  rs_body :: Json

abbreviation respond :: "StatusCode \<Rightarrow> (string \<times> Json) list \<Rightarrow> Response" where
  "respond status body \<equiv> \<lparr> rs_status = status, rs_body = JObject body \<rparr>"

definition json_error :: "StatusCode \<Rightarrow> string \<Rightarrow> string \<Rightarrow> Response" where
  "json_error status code message = respond status [(''error'', JString code), (''message'', JString message)]"

record Platform =
  pf_parse_uuid :: "string \<Rightarrow> uuid option"
  pf_uuid_string :: "uuid \<Rightarrow> string"
  pf_parse_rfc3339 :: "string \<Rightarrow> datetime option"
  pf_to_rfc3339 :: "datetime \<Rightarrow> string"
  pf_to_lowercase :: "string \<Rightarrow> string"
  pf_debug_store_error :: "EventStoreError \<Rightarrow> string"
  pf_iter :: "string list \<Rightarrow> string list"

record Fresh =
  fr_id :: uuid
  fr_entry_id :: uuid
  fr_event_ids :: "nat \<Rightarrow> nat \<Rightarrow> uuid"
  fr_now :: "nat \<Rightarrow> datetime"

definition dispatch_error_to_response :: "Platform \<Rightarrow> DispatchError \<Rightarrow> Response" where
  "dispatch_error_to_response pf err =
    (case err of
       DispatchError.Concurrency msg \<Rightarrow> json_error CONFLICT ''conflict'' msg
     | DispatchError.Validation msg \<Rightarrow> json_error BAD_REQUEST ''validation_error'' msg
     | DispatchError.InvariantViolation msg \<Rightarrow> json_error UNPROCESSABLE_ENTITY ''invariant_violation'' msg
     | DispatchError.Unauthorized \<Rightarrow> json_error FORBIDDEN ''unauthorized'' ''unauthorized''
     | DispatchError.NotFound \<Rightarrow> json_error NOT_FOUND ''not_found'' ''not found''
     | DispatchError.Deserialize msg \<Rightarrow> json_error INTERNAL_SERVER_ERROR ''deserialize_error'' msg
     | DispatchError.Store e \<Rightarrow> json_error INTERNAL_SERVER_ERROR ''store_error'' (pf_debug_store_error pf e)
     | DispatchError.Publish msg \<Rightarrow> json_error BAD_GATEWAY ''publish_error'' msg
     | DispatchError.TenantIsolation msg \<Rightarrow> json_error FORBIDDEN ''tenant_isolation'' msg)"

definition parse_account_kind :: "Platform \<Rightarrow> string \<Rightarrow> Response + AccountKind" where
  "parse_account_kind pf s =
    (let l = pf_to_lowercase pf s in
     if l = ''asset'' then Inr Asset
     else if l = ''liability'' then Inr Liability
     else if l = ''equity'' then Inr Equity
     else if l = ''revenue'' then Inr Revenue
     else if l = ''expense'' then Inr Expense
     else Inl (json_error BAD_REQUEST ''invalid_account_kind''
       ''kind must be one of: asset, liability, equity, revenue, expense''))"

primrec show_authz_error :: "AuthzError \<Rightarrow> string" where
  "show_authz_error TenantMismatch = ''tenant mismatch''"
| "show_authz_error (Forbidden p) = ''forbidden: missing permission '' @ [CHR 39] @ p @ [CHR 39]"

text \<open>\<^verbatim>\<open>match s.parse() { Ok(v) => v, Err(_) => return json_error(..) }\<close>\<close>

definition parse_id :: "Platform \<Rightarrow> string \<Rightarrow> string \<Rightarrow> Response + AggregateId" where
  "parse_id pf s message =
    (case pf_parse_uuid pf s of
       Some u \<Rightarrow> Inr (AggregateId u)
     | None \<Rightarrow> Inl (json_error BAD_REQUEST ''invalid_id'' message))"

subsection \<open>Request bodies\<close>

record CreateItemRequest =
  cir_name :: string

record AdjustStockRequest =
  asr_delta :: i64

record CreateProductRequest =
  cpr_sku :: string
  cpr_name :: string
  cpr_pricing :: "PricingMetadata option"

record RegisterPartyRequest =
  rpr_name :: string
  rpr_contact :: "ContactInfo option"

record UpdatePartyRequest =
  upr_name :: "string option"
  upr_contact :: "ContactInfo option"

record SuspendPartyRequest =
  spr_reason :: "string option"

record CreateSalesOrderLineRequest =
  slq_product_id :: string
  slq_quantity :: i64
  slq_unit_price :: u64

record IssueInvoiceRequest =
  iir_sales_order_id :: string
  iir_due_date :: string
  iir_lines :: "CreateSalesOrderLineRequest list"

record RegisterPaymentRequest =
  rpq_amount :: u64

record VoidInvoiceRequest =
  vir_reason :: "string option"

record PurchaseOrderLineRequest =
  plq_product_id :: string
  plq_quantity :: i64

record CreatePurchaseOrderRequest =
  cpq_supplier_id :: string
  cpq_lines :: "PurchaseOrderLineRequest list"

record CreateLedgerLineRequest =
  clr_account_code :: string
  clr_account_name :: string
  clr_kind :: string
  clr_amount :: i64
  clr_is_debit :: bool

record PostJournalEntryRequest =
  pjr_description :: "string option"
  pjr_lines :: "CreateLedgerLineRequest list"

primrec to_journal_lines ::
    "Platform \<Rightarrow> CreateLedgerLineRequest list \<Rightarrow> Response + JournalEntryLine list" where
  "to_journal_lines pf [] = Inr []"
| "to_journal_lines pf (l # ls) =
    and_then (parse_account_kind pf (clr_kind l)) (\<lambda>kind.
    and_then (to_journal_lines pf ls) (\<lambda>lines.
      Inr (\<lparr> jl_account = \<lparr> ac_code = clr_account_code l, ac_name = clr_account_name l, ac_kind = kind \<rparr>,
             jl_amount = clr_amount l, jl_is_debit = clr_is_debit l \<rparr> # lines)))"

subsection \<open>Rendering of rows\<close>

definition aggregate_string :: "Platform \<Rightarrow> AggregateId \<Rightarrow> string" where
  "aggregate_string pf a = pf_uuid_string pf (aggregate_uuid a)"

definition jopt :: "('a \<Rightarrow> Json) \<Rightarrow> 'a option \<Rightarrow> Json" where
  "jopt f x = (case x of None \<Rightarrow> JNull | Some a \<Rightarrow> f a)"

abbreviation jstr_opt :: "string option \<Rightarrow> Json" where "jstr_opt \<equiv> jopt JString"
abbreviation ju64 :: "u64 \<Rightarrow> Json" where "ju64 n \<equiv> JNumber (uint n)"
abbreviation ju32 :: "u32 \<Rightarrow> Json" where "ju32 n \<equiv> JNumber (uint n)"
abbreviation ji64 :: "i64 \<Rightarrow> Json" where "ji64 n \<equiv> JNumber (sint n)"

text \<open>\<^verbatim>\<open>format!("{:?}", status).to_lowercase()\<close>\<close>

primrec product_status_string :: "ProductStatus \<Rightarrow> string" where
  "product_status_string ProductStatus.Draft = ''draft''"
| "product_status_string ProductStatus.Active = ''active''"
| "product_status_string ProductStatus.Archived = ''archived''"

primrec party_status_string :: "PartyStatus \<Rightarrow> string" where
  "party_status_string PartyStatus.Active = ''active''"
| "party_status_string PartyStatus.Suspended = ''suspended''"

primrec sales_status_string :: "SalesOrderStatus \<Rightarrow> string" where
  "sales_status_string SalesOrderStatus.Draft = ''draft''"
| "sales_status_string SalesOrderStatus.Confirmed = ''confirmed''"
| "sales_status_string SalesOrderStatus.Invoiced = ''invoiced''"
| "sales_status_string SalesOrderStatus.Closed = ''closed''"

primrec purchase_status_string :: "PurchaseOrderStatus \<Rightarrow> string" where
  "purchase_status_string PurchaseOrderStatus.Draft = ''draft''"
| "purchase_status_string PurchaseOrderStatus.Approved = ''approved''"
| "purchase_status_string PurchaseOrderStatus.Received = ''received''"
| "purchase_status_string PurchaseOrderStatus.Closed = ''closed''"

primrec invoice_status_string :: "InvoiceStatus \<Rightarrow> string" where
  "invoice_status_string InvoiceStatus.Open = ''open''"
| "invoice_status_string InvoiceStatus.Paid = ''paid''"
| "invoice_status_string InvoiceStatus.Void = ''void''"

primrec account_kind_string :: "AccountKind \<Rightarrow> string" where
  "account_kind_string Asset = ''asset''"
| "account_kind_string Liability = ''liability''"
| "account_kind_string Equity = ''equity''"
| "account_kind_string Revenue = ''revenue''"
| "account_kind_string Expense = ''expense''"

primrec party_kind_string :: "PartyKind \<Rightarrow> string" where
  "party_kind_string Customer = ''customer''"
| "party_kind_string Supplier = ''supplier''"

definition show_int :: "int \<Rightarrow> string" where
  "show_int n = (if n < 0 then CHR ''-'' # show_nat (nat (- n)) else show_nat (nat n))"

definition inventory_to_json :: "Platform \<Rightarrow> InventoryReadModel \<Rightarrow> Json" where
  "inventory_to_json pf rm = JObject [
     (''id'', JString (aggregate_string pf (item_aggregate (irm_item_id rm)))),
     (''name'', JString (irm_name rm)),
     (''quantity'', ji64 (irm_quantity rm))]"

definition product_to_json :: "Platform \<Rightarrow> ProductReadModel \<Rightarrow> Json" where
  "product_to_json pf rm = JObject [
     (''id'', JString (aggregate_string pf (product_aggregate (prm_product_id rm)))),
     (''sku'', JString (prm_sku rm)),
     (''name'', JString (prm_name rm)),
     (''status'', JString (product_status_string (prm_status rm))),
     (''pricing'', JObject [
        (''base_price'', jopt ju64 (pm_base_price (prm_pricing rm))),
        (''currency'', jstr_opt (pm_currency (prm_pricing rm)))])]"

definition party_to_json :: "Platform \<Rightarrow> PartyReadModel \<Rightarrow> Json" where
  "party_to_json pf rm = JObject [
     (''id'', JString (aggregate_string pf (party_aggregate (pyr_party_id rm)))),
     (''kind'', JString (party_kind_string (pyr_kind rm))),
     (''name'', JString (pyr_name rm)),
     (''email'', jstr_opt (pyr_email rm)),
     (''phone'', jstr_opt (pyr_phone rm)),
     (''status'', JString (party_status_string (pyr_status rm)))]"

definition sales_order_to_json :: "Platform \<Rightarrow> SalesOrderReadModel \<Rightarrow> Json" where
  "sales_order_to_json pf rm = JObject [
     (''id'', JString (aggregate_string pf (sales_order_aggregate (sor_order_id rm)))),
     (''status'', JString (sales_status_string (sor_status rm))),
     (''lines'', JArray (map (\<lambda>l. JObject [
        (''line_no'', ju32 (slr_line_no l)),
        (''product_id'', JString (aggregate_string pf (product_aggregate (slr_product_id l)))),
        (''quantity'', ji64 (slr_quantity l)),
        (''unit_price'', ju64 (slr_unit_price l))]) (sor_lines rm)))]"

definition invoice_to_json :: "Platform \<Rightarrow> InvoiceReadModel \<Rightarrow> Json" where
  "invoice_to_json pf rm = JObject [
     (''id'', JString (aggregate_string pf (invoice_aggregate (inr_invoice_id rm)))),
     (''sales_order_id'', JString (aggregate_string pf (sales_order_aggregate (inr_sales_order_id rm)))),
     (''status'', JString (invoice_status_string (inr_status rm))),
     (''due_date'', jopt (\<lambda>d. JString (pf_to_rfc3339 pf d)) (inr_due_date rm)),
     (''total_amount'', ju64 (inr_total_amount rm)),
     (''total_paid'', ju64 (inr_total_paid rm)),
     (''outstanding_amount'', ju64 (u64_saturating_sub (inr_total_amount rm) (inr_total_paid rm))),
     (''lines'', JArray (map (\<lambda>l. JObject [
        (''line_no'', ju32 (il_line_no l)),
        (''product_id'', JString (aggregate_string pf (product_aggregate (il_product_id l)))),
        (''quantity'', ji64 (il_quantity l)),
        (''unit_price'', ju64 (il_unit_price l))]) (inr_lines rm)))]"

definition purchase_order_to_json :: "Platform \<Rightarrow> PurchaseOrderReadModel \<Rightarrow> Json" where
  "purchase_order_to_json pf rm = JObject [
     (''id'', JString (aggregate_string pf (purchase_order_aggregate (por_order_id rm)))),
     (''supplier_id'', JString (aggregate_string pf (party_aggregate (por_supplier_id rm)))),
     (''status'', JString (purchase_status_string (por_status rm))),
     (''lines'', JArray (map (\<lambda>l. JObject [
        (''line_no'', ju32 (li_line_no l)),
        (''product_id'', JString (aggregate_string pf (product_aggregate (li_product_id l)))),
        (''quantity'', ji64 (li_quantity l))]) (por_lines rm)))]"

definition ledger_balance_to_json :: "AccountBalance \<Rightarrow> Json" where
  "ledger_balance_to_json b = JObject [
     (''account_code'', JString (ab_account_code b)),
     (''account_name'', JString (ab_account_name b)),
     (''kind'', JString (account_kind_string (ab_kind b))),
     (''balance'', JString (show_int (sint (ab_balance b))))]"

definition aging_to_json :: "Platform \<Rightarrow> InvoiceAgingReadModel \<Rightarrow> Json" where
  "aging_to_json pf rm = JObject [
     (''invoice_id'', JString (aggregate_string pf (invoice_aggregate (iag_invoice_id rm)))),
     (''status'', JString (invoice_status_string (iag_status rm))),
     (''total_amount'', ju64 (iag_total_amount rm)),
     (''outstanding_amount'', ju64 (iag_outstanding_amount rm)),
     (''due_date'', jopt (\<lambda>d. JString (pf_to_rfc3339 pf d)) (iag_due_date rm))]"

subsection \<open>The in-memory services\<close>

record RealtimeMessage =
  rm_tenant_id :: TenantId
  rm_topic :: string
  rm_payload :: Json

text \<open>The variant \<^verbatim>\<open>AppServices::InMemory\<close>, without the AI sink.  \<^verbatim>\<open>sv_realtime\<close> lists the messages sent
  on the broadcast channel, of which a receiver may miss some.\<close>

record 'j AppServices =
  sv_event_store :: "'j InMemoryEventStore"
  sv_event_bus :: "'j EventEnvelope InMemoryEventBus"
  sv_inventory_projection :: "(stock_store, unit) Projection"
  sv_parties_projection :: "(party_store, unit) Projection"
  sv_products_projection :: "(product_store, unit) Projection"
  sv_sales_projection :: "(sales_store, unit) Projection"
  sv_invoices_projection :: "(invoice_store, unit) Projection"
  sv_ar_aging_projection :: "(aging_store, unit) Projection"
  sv_purchases_projection :: "(purchase_store, unit) Projection"
  sv_ledger_projection :: "(account_store, unit) Projection"
  sv_users_projection :: user_store
  sv_default_ledger_id :: AggregateId
  sv_realtime :: "RealtimeMessage list"

text \<open>\<^verbatim>\<open>build_in_memory_services\<close>: the first subscription to the bus feeds the read models, the second the
  saga.\<close>

abbreviation (input) projections_rx :: nat where "projections_rx \<equiv> 0"
abbreviation (input) saga_rx :: nat where "saga_rx \<equiv> 1"

definition build_in_memory_services :: "AggregateId \<Rightarrow> 'j AppServices" where
  "build_in_memory_services default_ledger_id = \<lparr> sv_event_store = store_new,
     sv_event_bus = fst (bus_subscribe (fst (bus_subscribe bus_new))),
     sv_inventory_projection = projection_new ts_new ''inventory.stock'',
     sv_parties_projection = projection_new ts_new ''parties.directory'',
     sv_products_projection = projection_new ts_new ''products.catalog'',
     sv_sales_projection = projection_new ts_new ''sales.orders'',
     sv_invoices_projection = projection_new ts_new ''invoicing.invoices'',
     sv_ar_aging_projection = projection_new ts_new ''invoicing.aging'',
     sv_purchases_projection = projection_new ts_new ''purchasing.orders'',
     sv_ledger_projection = projection_new ts_new ''accounting.balances'',
     sv_users_projection = ts_new, sv_default_ledger_id = default_ledger_id, sv_realtime = [] \<rparr>"

text \<open>Serialisation of the events of each aggregate.\<close>

record 'j Serdes =
  sz_inventory :: "(InventoryEvent, 'j) Serde"
  sz_product :: "(ProductEvent, 'j) Serde"
  sz_party :: "(PartyEvent, 'j) Serde"
  sz_sales :: "(SalesOrderEvent, 'j) Serde"
  sz_purchase :: "(PurchaseOrderEvent, 'j) Serde"
  sz_invoice :: "(InvoiceEvent, 'j) Serde"
  sz_ledger :: "(LedgerEvent, 'j) Serde"
  sz_user :: "(UserEvent, 'j) Serde"

text \<open>\<^verbatim>\<open>format!("{e:?}")\<close> for the only error of the in-memory bus.\<close>

primrec debug_bus_error :: "InMemoryBusError \<Rightarrow> string" where
  "debug_bus_error Poisoned = ''Poisoned''"

definition services_dispatch ::
    "('s, 'e, 'c) AggregateOps \<Rightarrow> ('e, 'j) Serde \<Rightarrow> (nat \<Rightarrow> uuid) \<Rightarrow> 'j AppServices \<Rightarrow> TenantId \<Rightarrow>
     AggregateId \<Rightarrow> string \<Rightarrow> 'c \<Rightarrow> (TenantId \<Rightarrow> AggregateId \<Rightarrow> 's) \<Rightarrow>
     'j AppServices \<times> (DispatchError + 'j StoredEvent list)" where
  "services_dispatch agg sd new_id self tenant_id aggregate_id aggregate_type command make_aggregate =
    (case dispatch append_events load_stream bus_publish debug_bus_error agg sd new_id
            (sv_event_store self, sv_event_bus self) tenant_id aggregate_id aggregate_type command make_aggregate of
       ((store, bus), r) \<Rightarrow> (self\<lparr>sv_event_store := store, sv_event_bus := bus\<rparr>, r))"

subsection \<open>The end of every command route\<close>

text \<open>Check the required permission, dispatch the command for the tenant of the request, map an
  error to its response.\<close>

definition guard :: "Platform \<Rightarrow> TenantContext \<Rightarrow> PrincipalContext \<Rightarrow> string \<Rightarrow> Response + unit" where
  "guard pf tenant prin perm =
     map_err (\<lambda>e. json_error FORBIDDEN ''forbidden'' (show_authz_error e))
       (authorize_command (pf_iter pf) tenant prin [Permission perm])"

definition dispatch_or_response ::
    "Platform \<Rightarrow> ('s, 'e, 'c) AggregateOps \<Rightarrow> ('e, 'j) Serde \<Rightarrow> (nat \<Rightarrow> uuid) \<Rightarrow> TenantContext \<Rightarrow>
     AggregateId \<Rightarrow> string \<Rightarrow> 'c \<Rightarrow> (TenantId \<Rightarrow> AggregateId \<Rightarrow> 's) \<Rightarrow> ('j AppServices \<Rightarrow> 'j StoredEvent list \<Rightarrow>
     'j AppServices \<times> Response) \<Rightarrow> 'j AppServices \<Rightarrow> 'j AppServices \<times> Response" where
  "dispatch_or_response pf agg sd new_id tenant a ty cmd mk k services =
    (case services_dispatch agg sd new_id services (tc_tenant_id tenant) a ty cmd mk of
       (services, Inl e) \<Rightarrow> (services, dispatch_error_to_response pf e)
     | (services, Inr committed) \<Rightarrow> k services committed)"

definition run_command ::
    "Platform \<Rightarrow> ('s, 'e, 'c) AggregateOps \<Rightarrow> ('e, 'j) Serde \<Rightarrow> (nat \<Rightarrow> uuid) \<Rightarrow> TenantContext \<Rightarrow>
     PrincipalContext \<Rightarrow> string \<Rightarrow> AggregateId \<Rightarrow> string \<Rightarrow> 'c \<Rightarrow> (TenantId \<Rightarrow> AggregateId \<Rightarrow> 's) \<Rightarrow>
     ('j StoredEvent list \<Rightarrow> Response) \<Rightarrow> 'j AppServices \<Rightarrow> 'j AppServices \<times> Response" where
  "run_command pf agg sd new_id tenant prin perm a ty cmd mk reply services =
    (case guard pf tenant prin perm of
       Inl response \<Rightarrow> (services, response)
     | Inr _ \<Rightarrow> dispatch_or_response pf agg sd new_id tenant a ty cmd mk
         (\<lambda>services committed. (services, reply committed)) services)"

text \<open>The usual body of a successful reply.\<close>

definition committed_reply :: "Platform \<Rightarrow> StatusCode \<Rightarrow> AggregateId \<Rightarrow> 'j StoredEvent list \<Rightarrow> Response" where
  "committed_reply pf status a committed = respond status
     [(''id'', JString (aggregate_string pf a)), (''events_committed'', JNumber (int (length committed)))]"

end
