(* ===== verification/Event_Query.thy ===== *)
theory Event_Query
  imports Event_Store "HOL-Library.Product_Lexorder"
begin

text \<open>
  Read-only queries over stored events (\<^verbatim>\<open>infra/src/event_store/query.rs\<close>) and their in-memory
  implementation (the second half of \<^verbatim>\<open>infra/src/event_store/in_memory.rs\<close>): filters, order and
  pagination.

  The order in which the hash map of streams is iterated is unspecified; it is an argument, the
  list of the keys of the map.  Offsets and limits are 32 bits wide and their sum wraps.  The
  locale \<^verbatim>\<open>event_query\<close> is what a client that reads page by page relies on.
\<close>

subsection \<open>Data\<close>

record Pagination =
  pg_limit :: u32
  pg_offset :: u32

definition pagination_default :: Pagination where
  "pagination_default = \<lparr> pg_limit = 50, pg_offset = 0 \<rparr>"

definition pagination_new :: "u32 option \<Rightarrow> u32 option \<Rightarrow> Pagination" where
  "pagination_new limit offset =
     \<lparr> pg_limit = min (case limit of Some l \<Rightarrow> l | None \<Rightarrow> 50) 1000,
       pg_offset = (case offset of Some k \<Rightarrow> k | None \<Rightarrow> 0) \<rparr>"

record EventFilter =
  ef_aggregate_id :: "AggregateId option"
  ef_aggregate_type :: "string option"
  ef_event_type :: "string option"
  ef_occurred_after :: "datetime option"
  ef_occurred_before :: "datetime option"

definition filter_default :: EventFilter where
  "filter_default = \<lparr> ef_aggregate_id = None, ef_aggregate_type = None, ef_event_type = None,
     ef_occurred_after = None, ef_occurred_before = None \<rparr>"

record 'j EventQueryResult =
  qr_events :: "'j StoredEvent list"
  qr_total :: u64
  qr_pagination :: Pagination
  qr_has_more :: bool

subsection \<open>Queries over the in-memory store\<close>

definition tenant_events ::
    "StreamKey list \<Rightarrow> 'j InMemoryEventStore \<Rightarrow> TenantId \<Rightarrow> 'j StoredEvent list" where
  "tenant_events keys self tenant_id =
     concat (map (\<lambda>key. or_default (st_streams self key))
       (filter (\<lambda>key. sk_tenant_id key = tenant_id) keys))"

text \<open>\<^verbatim>\<open>if let Some(x) = opt { if p(x) ... }\<close>\<close>

primrec some_and :: "('a \<Rightarrow> bool) \<Rightarrow> 'a option \<Rightarrow> bool" where
  "some_and p None = False"
| "some_and p (Some x) = p x"

definition matches_filter :: "EventFilter \<Rightarrow> 'j StoredEvent \<Rightarrow> bool" where
  "matches_filter f e =
    (if some_and (\<lambda>agg_id. se_aggregate_id e \<noteq> agg_id) (ef_aggregate_id f) then False
     else if some_and (\<lambda>agg_type. se_aggregate_type e \<noteq> agg_type) (ef_aggregate_type f) then False
     else if some_and (\<lambda>evt_type. se_event_type e \<noteq> evt_type) (ef_event_type f) then False
     else if some_and (\<lambda>after. se_occurred_at e < after) (ef_occurred_after f) then False
     else if some_and (\<lambda>before. before < se_occurred_at e) (ef_occurred_before f) then False
     else True)"

text \<open>The comparison of \<^verbatim>\<open>sort_by\<close>: later events first, then by sequence number; the sort is
  stable.\<close>

definition query_key :: "'j StoredEvent \<Rightarrow> int \<times> u64" where
  "query_key e = (- se_occurred_at e, se_sequence_number e)"

definition paginate :: "Pagination \<Rightarrow> 'a list \<Rightarrow> 'a list" where
  "paginate pg xs = take (unat (pg_limit pg)) (drop (unat (pg_offset pg)) xs)"

definition has_more :: "Pagination \<Rightarrow> 'a list \<Rightarrow> bool" where
  "has_more pg xs \<longleftrightarrow> (ucast (pg_offset pg + pg_limit pg) :: u64) < of_nat (length xs)"

definition query_result :: "Pagination \<Rightarrow> 'j StoredEvent list \<Rightarrow> 'j EventQueryResult" where
  "query_result pg xs = \<lparr> qr_events = paginate pg xs, qr_total = of_nat (length xs),
     qr_pagination = pg, qr_has_more = has_more pg xs \<rparr>"

definition query_events ::
    "StreamKey list \<Rightarrow> 'j InMemoryEventStore \<Rightarrow> TenantId \<Rightarrow> EventFilter \<Rightarrow> Pagination \<Rightarrow>
     EventStoreError + 'j EventQueryResult" where
  "query_events keys self tenant_id f pg =
    (if st_poisoned self then Inl (InvalidAppend ''lock poisoned'')
     else (let all_events = tenant_events keys self tenant_id;
               filtered = sort_key query_key (filter (matches_filter f) all_events)
           in Inr (query_result pg filtered)))"

definition get_aggregate_events ::
    "'j InMemoryEventStore \<Rightarrow> TenantId \<Rightarrow> AggregateId \<Rightarrow> Pagination option \<Rightarrow>
     EventStoreError + 'j EventQueryResult" where
  "get_aggregate_events self tenant_id aggregate_id pagination =
    and_then (load_stream self tenant_id aggregate_id)
      (\<lambda>all_events. Inr (query_result
        (case pagination of Some pg \<Rightarrow> pg | None \<Rightarrow> pagination_default) all_events))"

text \<open>The first stream of the tenant that has an event with the id wins.\<close>

fun find_event :: "StreamKey list \<Rightarrow> 'j InMemoryEventStore \<Rightarrow> TenantId \<Rightarrow> uuid \<Rightarrow> 'j StoredEvent option" where
  "find_event [] self tenant_id event_id = None"
| "find_event (key # keys) self tenant_id event_id =
    (if sk_tenant_id key = tenant_id
     then (case find (\<lambda>e. se_event_id e = event_id) (or_default (st_streams self key)) of
             Some event \<Rightarrow> Some event
           | None \<Rightarrow> find_event keys self tenant_id event_id)
     else find_event keys self tenant_id event_id)"

definition get_event_by_id ::
    "StreamKey list \<Rightarrow> 'j InMemoryEventStore \<Rightarrow> TenantId \<Rightarrow> uuid \<Rightarrow>
     EventStoreError + 'j StoredEvent option" where
  "get_event_by_id keys self tenant_id event_id =
    (if st_poisoned self then Inl (InvalidAppend ''lock poisoned'')
     else Inr (find_event keys self tenant_id event_id))"

subsection \<open>Pages\<close>

lemma pagination_new_limit: "unat (pg_limit (pagination_new l k)) \<le> 1000"
  by (simp add: pagination_new_def min_def word_le_nat_alt)

lemma paginate_length: "length (paginate pg xs) \<le> unat (pg_limit pg)"
  by (simp add: paginate_def)

lemma set_paginate: "set (paginate pg xs) \<subseteq> set xs"
  by (auto simp: paginate_def dest: in_set_takeD in_set_dropD)

lemma sorted_paginate: "sorted (map f xs) \<Longrightarrow> sorted (map f (paginate pg xs))"
  by (simp add: paginate_def take_map [symmetric] drop_map [symmetric] sorted_wrt_take sorted_wrt_drop)

lemma has_more_exact:
  assumes "unat (pg_offset pg) + unat (pg_limit pg) < 2 ^ 32" "length xs < 2 ^ 64"
  shows "has_more pg xs \<longleftrightarrow> unat (pg_offset pg) + unat (pg_limit pg) < length xs"
proof -
  have "unat (pg_offset pg + pg_limit pg) = unat (pg_offset pg) + unat (pg_limit pg)"
    using assms(1) by (simp add: unat_word_ariths)
  then have "unat (ucast (pg_offset pg + pg_limit pg) :: u64) = unat (pg_offset pg) + unat (pg_limit pg)"
    using assms(1) by (simp add: unsigned_ucast_eq take_bit_nat_eq_self)
  then show ?thesis
    using assms(2) by (simp add: has_more_def word_less_nat_alt unsigned_of_nat take_bit_nat_eq_self)
qed

text \<open>Consecutive pages of the same list put together again.\<close>

lemma pages_concat:
  "concat (map (\<lambda>i. take l (drop (i * l) xs)) [0..<n]) = take (n * l) xs"
  by (induction n) (simp_all add: take_add [symmetric] add.commute)

lemma unat_of_nat32: "k < 2 ^ 32 \<Longrightarrow> unat (of_nat k :: u32) = k"
  by (simp add: unsigned_of_nat take_bit_nat_eq_self)

subsection \<open>The contract of \<^verbatim>\<open>EventQuery\<close>\<close>

locale event_query =
  fixes query :: "'s \<Rightarrow> TenantId \<Rightarrow> EventFilter \<Rightarrow> Pagination \<Rightarrow> EventStoreError + 'j EventQueryResult"
    and matching :: "'s \<Rightarrow> TenantId \<Rightarrow> EventFilter \<Rightarrow> 'j StoredEvent list"
    and available :: "'s \<Rightarrow> bool"
  assumes query_ok: "available s \<Longrightarrow> query s t f pg = Inr (query_result pg (matching s t f))"
    and query_error: "\<not> available s \<Longrightarrow> \<exists>err. query s t f pg = Inl err"
    and matching_filter: "e \<in> set (matching s t f) \<Longrightarrow> matches_filter f e"
begin

lemma query_Inr: "query s t f pg = Inr r \<Longrightarrow> r = query_result pg (matching s t f)"
  using query_ok [of s t f pg] query_error [of s t f pg] by (cases "available s") auto

lemma query_pages:
  assumes "available s" "n * unat l < 2 ^ 32"
  shows "concat (map (\<lambda>i. case query s t f \<lparr> pg_limit = l, pg_offset = of_nat (i * unat l) \<rparr> of
      Inr r \<Rightarrow> qr_events r | Inl _ \<Rightarrow> []) [0..<n]) = take (n * unat l) (matching s t f)"
proof -
  have "unat (of_nat (i * unat l) :: u32) = i * unat l" if "i < n" for i
  proof (rule unat_of_nat32)
    have "i * unat l \<le> n * unat l" using that by simp
    from this assms(2) show "i * unat l < 2 ^ 32" by (rule order_le_less_trans)
  qed
  then have "map (\<lambda>i. case query s t f \<lparr> pg_limit = l, pg_offset = of_nat (i * unat l) \<rparr> of
      Inr r \<Rightarrow> qr_events r | Inl _ \<Rightarrow> []) [0..<n] =
      map (\<lambda>i. take (unat l) (drop (i * unat l) (matching s t f))) [0..<n]"
    using assms(1) by (simp add: query_ok query_result_def paginate_def del: of_nat_mult)
  then show ?thesis by (simp only: pages_concat)
qed

end

definition matching_events ::
    "StreamKey list \<Rightarrow> 'j InMemoryEventStore \<Rightarrow> TenantId \<Rightarrow> EventFilter \<Rightarrow> 'j StoredEvent list" where
  "matching_events keys s t f = sort_key query_key (filter (matches_filter f) (tenant_events keys s t))"

interpretation in_memory_query: event_query "query_events keys" "matching_events keys" "\<lambda>s. \<not> st_poisoned s"
  for keys
  by unfold_locales (auto simp: query_events_def matching_events_def)

subsection \<open>What a query returns\<close>

text \<open>\<^verbatim>\<open>keys\<close> is an iteration order of the streams.\<close>

definition iterates :: "StreamKey list \<Rightarrow> 'j InMemoryEventStore \<Rightarrow> bool" where
  "iterates keys s \<longleftrightarrow> distinct keys \<and> set keys = dom (st_streams s)"

lemma tenant_events_stored:
  assumes "iterates keys s"
  shows "e \<in> set (tenant_events keys s t) \<longleftrightarrow> (\<exists>a. e \<in> set (stream_of s t a))"
proof
  assume "e \<in> set (tenant_events keys s t)"
  then obtain key where "sk_tenant_id key = t" "e \<in> set (or_default (st_streams s key))"
    by (auto simp: tenant_events_def)
  then have "e \<in> set (stream_of s t (sk_aggregate_id key))" by (cases key) (simp add: stream_of_def)
  then show "\<exists>a. e \<in> set (stream_of s t a)" ..
next
  assume "\<exists>a. e \<in> set (stream_of s t a)"
  then obtain a where e: "e \<in> set (stream_of s t a)" ..
  let ?key = "\<lparr> sk_tenant_id = t, sk_aggregate_id = a \<rparr>"
  have "?key \<in> set keys"
    using e assms by (auto simp: stream_of_def or_default_def iterates_def split: option.splits)
  then show "e \<in> set (tenant_events keys s t)"
    using e by (auto simp: tenant_events_def stream_of_def intro!: bexI [of _ ?key])
qed

lemma set_matching:
  assumes "iterates keys s"
  shows "set (matching_events keys s t f) = {e. matches_filter f e \<and> (\<exists>a. e \<in> set (stream_of s t a))}"
  using tenant_events_stored [OF assms] by (auto simp: matching_events_def)

lemma matching_default [simp]: "matches_filter filter_default e"
  by (simp add: matches_filter_def filter_default_def)

lemma find_event_Some:
  "find_event keys s t i = Some e \<Longrightarrow> se_event_id e = i \<and> e \<in> set (tenant_events keys s t)"
  by (induction keys) (auto simp: tenant_events_def find_Some_iff in_set_conv_nth split: if_splits option.splits)

lemma find_event_None:
  "find_event keys s t i = None \<longleftrightarrow> (\<forall>e \<in> set (tenant_events keys s t). se_event_id e \<noteq> i)"
proof (induction keys)
  case (Cons key keys)
  show ?case
  proof (cases "find (\<lambda>e. se_event_id e = i) (or_default (st_streams s key))")
    case None
    then have "\<forall>e \<in> set (or_default (st_streams s key)). se_event_id e \<noteq> i"
      by (simp add: find_None_iff)
    then show ?thesis using None Cons.IH by (auto simp: tenant_events_def)
  next
    case (Some e)
    then have "e \<in> set (or_default (st_streams s key)) \<and> se_event_id e = i"
      by (auto simp: find_Some_iff)
    then show ?thesis using Some Cons.IH by (auto simp: tenant_events_def)
  qed
qed (simp add: tenant_events_def)

subsection \<open>Properties\<close>

text \<open>A query returns events of the caller's tenant only, all of which are stored and match the
  filter, the latest first and those of one instant in sequence order, at most as many as the
  limit; the total is the number of matching events; and when the page boundary fits 32 bits the
  flag says exactly whether further events match.\<close>

theorem query_sound:
  assumes "query_events keys s t f pg = Inr r" "iterates keys s" "store_invar s"
    "length (matching_events keys s t f) < 2 ^ 64"
  shows "(\<forall>e \<in> set (qr_events r). se_tenant_id e = t \<and> matches_filter f e \<and>
      e \<in> set (stream_of s t (se_aggregate_id e))) \<and>
    sorted (map query_key (qr_events r)) \<and> length (qr_events r) \<le> unat (pg_limit pg) \<and>
    unat (qr_total r) = length (matching_events keys s t f) \<and>
    (unat (pg_offset pg) + unat (pg_limit pg) < 2 ^ 32 \<longrightarrow>
      qr_has_more r = (unat (pg_offset pg) + unat (pg_limit pg) < unat (qr_total r)))"
proof -
  let ?m = "matching_events keys s t f"
  have r: "r = query_result pg ?m" using assms(1) by (rule in_memory_query.query_Inr)
  have m: "e \<in> set ?m" if "e \<in> set (qr_events r)" for e
    using that set_paginate [of pg ?m] by (auto simp: r query_result_def)
  have "se_tenant_id e = t \<and> matches_filter f e \<and> e \<in> set (stream_of s t (se_aggregate_id e))"
    if e: "e \<in> set (qr_events r)" for e
  proof -
    obtain a where "matches_filter f e" "e \<in> set (stream_of s t a)"
      using m [OF e] by (auto simp: set_matching [OF assms(2)])
    moreover have "stream_ok t a (stream_of s t a)" using assms(3) by (simp add: store_invar_def)
    ultimately show ?thesis by (auto simp: stream_ok_def)
  qed
  moreover have "sorted (map query_key ?m)" by (simp add: matching_events_def)
  moreover have "unat (of_nat (length ?m) :: u64) = length ?m"
    using assms(4) by (simp add: unsigned_of_nat take_bit_nat_eq_self)
  ultimately show ?thesis
    using has_more_exact [of pg ?m] assms(4)
    by (simp add: r query_result_def sorted_paginate paginate_length)
qed

definition ex_query_store :: "nat InMemoryEventStore" where
  "ex_query_store = fst (append_events store_new
     [ex_uncommitted (TenantId 1), (ex_uncommitted (TenantId 1))\<lparr>ue_occurred_at := 8\<rparr>] Any)"

definition ex_key :: StreamKey where
  "ex_key = \<lparr> sk_tenant_id = TenantId 1, sk_aggregate_id = AggregateId 7 \<rparr>"

lemma ex_query_iterates: "iterates [ex_key] ex_query_store"
proof -
  have "st_streams ex_query_store = [ex_key \<mapsto> stream_of ex_query_store (TenantId 1) (AggregateId 7)]"
    unfolding ex_query_store_def append_events_def
    by (simp add: ex_uncommitted_def check_batch_event_def append_locked_def Let_def ex_key_def
        store_new_def stream_of_def or_default_def expected_matches_def)
  then show ?thesis by (simp add: iterates_def)
qed

lemma ex_query_events:
  "map se_sequence_number (matching_events [ex_key] ex_query_store (TenantId 1) filter_default) = [2, 1]"
  by code_simp

lemma ex_query_invar: "store_invar ex_query_store"
  unfolding ex_query_store_def by (rule append_events_invar) simp

definition ex_first_page :: Pagination where
  "ex_first_page = \<lparr> pg_limit = 1, pg_offset = 0 \<rparr>"

theorem query_sound_witness:
  "qr_has_more (query_result ex_first_page (matching_events [ex_key] ex_query_store (TenantId 1) filter_default))"
proof -
  let ?m = "matching_events [ex_key] ex_query_store (TenantId 1) filter_default"
  have "length (map se_sequence_number ?m) = 2" by (simp only: ex_query_events) simp
  then have len: "length ?m = 2" by simp
  have np: "\<not> st_poisoned ex_query_store" by code_simp
  have len64: "length ?m < 2 ^ 64" using len by simp
  note q = query_sound [OF in_memory_query.query_ok [OF np] ex_query_iterates ex_query_invar len64, of ex_first_page]
  show ?thesis using q len by (simp add: ex_first_page_def)
qed

text \<open>Pages partition the result.  Over an unchanged store, the pages of any size that start at
  consecutive multiples of the limit, put together, are the matching events in query order, each
  once and none missing, as far as the pages reach.\<close>

theorem query_pages_cover:
  assumes "\<not> st_poisoned s" "n * unat l < 2 ^ 32"
  shows "concat (map (\<lambda>i. case query_events keys s t f \<lparr> pg_limit = l, pg_offset = of_nat (i * unat l) \<rparr> of
      Inr r \<Rightarrow> qr_events r | Inl _ \<Rightarrow> []) [0..<n]) = take (n * unat l) (matching_events keys s t f)"
  using assms by (rule in_memory_query.query_pages)

theorem query_pages_cover_witness:
  "concat (map (\<lambda>i. case query_events [ex_key] ex_query_store (TenantId 1) filter_default
      \<lparr> pg_limit = 1, pg_offset = of_nat (i * unat (1 :: u32)) \<rparr> of Inr r \<Rightarrow> qr_events r | Inl _ \<Rightarrow> []) [0..<2]) =
    take (2 * unat (1 :: u32)) (matching_events [ex_key] ex_query_store (TenantId 1) filter_default)"
proof (rule query_pages_cover)
  show "\<not> st_poisoned ex_query_store" by code_simp
qed simp

text \<open>Looking an event up by its id: within the tenant it finds an event with that id exactly when
  one is stored, and never one of another tenant.\<close>

lemma get_event_by_id_spec:
  assumes "iterates keys s" "\<not> st_poisoned s"
  shows "case get_event_by_id keys s t i of
      Inr (Some e) \<Rightarrow> se_event_id e = i \<and> (\<exists>a. e \<in> set (stream_of s t a))
    | Inr None \<Rightarrow> \<forall>a. \<forall>e \<in> set (stream_of s t a). se_event_id e \<noteq> i
    | Inl _ \<Rightarrow> False"
proof (cases "find_event keys s t i")
  case None
  then show ?thesis
    using assms tenant_events_stored [OF assms(1), of _ t] find_event_None [of keys s t i]
    by (auto simp: get_event_by_id_def)
next
  case (Some e)
  then show ?thesis
    using assms tenant_events_stored [OF assms(1), of e t] find_event_Some [OF Some]
    by (auto simp: get_event_by_id_def)
qed

end
