(* ===== verification/Replay.thy ===== *)
theory Replay
  imports Event_Query Stock_Projections
begin

text \<open>
  Replaying projections from the event store (\<^verbatim>\<open>infra/src/projections/replay.rs\<close>), with the
  callbacks the replay routes pass in (\<^verbatim>\<open>api/src/app/routes/replay.rs\<close>).

  A replay loads all events of a tenant page by page, clears the projection, and applies the
  events in order, reporting progress.  The cancellation flag is read at fixed points: it is a
  function from the number of the read to the value found.  The loop over the pages may run for
  ever when offsets wrap, so it is a partial function; \<^verbatim>\<open>load_pages_all\<close> shows when it returns.
\<close>

subsection \<open>Data\<close>

datatype ReplayError =
    EventStore EventStoreError
  | ProjectionError string
  | Cancelled
  | InvalidAggregateType string

datatype ReplayPhase = Loading | Clearing | Replaying | Complete | Failed

record ReplayProgress =
  rp_total_events :: u64
  rp_processed_events :: u64
  rp_processed_aggregates :: u64
  rp_phase :: ReplayPhase
  rp_is_complete :: bool
  rp_error :: "string option"

primrec show_store_error :: "EventStoreError \<Rightarrow> string" where
  "show_store_error (Concurrency m) = ''optimistic concurrency check failed: '' @ m"
| "show_store_error (EventStoreError.TenantIsolation m) = ''tenant isolation violation: '' @ m"
| "show_store_error (AggregateTypeMismatch m) = ''aggregate type mismatch: '' @ m"
| "show_store_error (InvalidAppend m) = ''invalid append: '' @ m"
| "show_store_error (Publish m) = ''event publication failed: '' @ m"

primrec show_replay_error :: "ReplayError \<Rightarrow> string" where
  "show_replay_error (EventStore e) = ''event store error: '' @ show_store_error e"
| "show_replay_error (ProjectionError e) = ''projection error: '' @ e"
| "show_replay_error Cancelled = ''replay cancelled''"
| "show_replay_error (InvalidAggregateType ty) = ''invalid aggregate type: '' @ ty"

subsection \<open>Loading\<close>

abbreviation page_size :: u32 where "page_size \<equiv> 1000"

partial_function (option) load_pages ::
    "(Pagination \<Rightarrow> EventStoreError + 'j EventQueryResult) \<Rightarrow> string list \<Rightarrow> (nat \<Rightarrow> bool) \<Rightarrow> nat \<Rightarrow> u32 \<Rightarrow>
     'j StoredEvent list \<Rightarrow> (ReplayError + nat \<times> 'j StoredEvent list) option" where
  "load_pages query aggregate_types cancelled i offset all_events =
    (if cancelled i then Some (Inl Cancelled)
     else (case query (pagination_new (Some page_size) (Some offset)) of
       Inl err \<Rightarrow> Some (Inl (EventStore err))
     | Inr result \<Rightarrow>
         (let all_events = all_events @
                filter (\<lambda>e. se_aggregate_type e \<in> set aggregate_types) (qr_events result) in
          if \<not> qr_has_more result then Some (Inr (Suc i, all_events))
          else load_pages query aggregate_types cancelled (Suc i) (offset + page_size) all_events)))"

declare load_pages.simps [code]

subsection \<open>The run\<close>

definition stored_key :: "'j StoredEvent \<Rightarrow> uuid \<times> uuid \<times> u64" where
  "stored_key e = (tenant_uuid (se_tenant_id e), aggregate_uuid (se_aggregate_id e), se_sequence_number e)"

text \<open>\<^verbatim>\<open>pe\<close> and \<^verbatim>\<open>pa\<close> are the atomic counters of processed events and aggregates.\<close>

primrec replay_loop ::
    "('p \<Rightarrow> 'j EventEnvelope \<Rightarrow> 'p \<times> (string + unit)) \<Rightarrow> (nat \<Rightarrow> bool) \<Rightarrow> bool \<Rightarrow> nat \<Rightarrow>
     AggregateId option \<Rightarrow> u64 \<Rightarrow> u64 \<Rightarrow> 'p \<Rightarrow> ReplayProgress \<Rightarrow> 'j StoredEvent list \<Rightarrow>
     'p \<times> ReplayProgress \<times> (ReplayError + unit)" where
  "replay_loop apply_cb cancelled dry_run i last_id pe pa p prog [] = (p, prog, Inr ())"
| "replay_loop apply_cb cancelled dry_run i last_id pe pa p prog (event # events) =
    (if cancelled i then (p, prog, Inl Cancelled)
     else
       (let new = Some (se_aggregate_id event) \<noteq> last_id;
            pa = (if new then pa + 1 else pa);
            last_id = (if new then Some (se_aggregate_id event) else last_id);
            (p, r) = (if \<not> dry_run then apply_cb p (to_envelope event) else (p, Inr ()))
        in case r of
             Inl e \<Rightarrow> (p, prog, Inl (ProjectionError e))
           | Inr _ \<Rightarrow> replay_loop apply_cb cancelled dry_run (Suc i) last_id (pe + 1) pa p
               (prog\<lparr>rp_processed_events := pe + 1, rp_processed_aggregates := pa\<rparr>) events))"

definition run_replay ::
    "(TenantId \<Rightarrow> EventFilter \<Rightarrow> Pagination \<Rightarrow> EventStoreError + 'j EventQueryResult) \<Rightarrow> TenantId \<Rightarrow>
     string list \<Rightarrow> ('p \<Rightarrow> 'j EventEnvelope \<Rightarrow> 'p \<times> (string + unit)) \<Rightarrow> ('p \<Rightarrow> TenantId \<Rightarrow> 'p) \<Rightarrow>
     bool \<Rightarrow> (nat \<Rightarrow> bool) \<Rightarrow> 'p \<Rightarrow> ReplayProgress \<Rightarrow>
     ('p \<times> ReplayProgress \<times> (ReplayError + unit)) option" where
  "run_replay query tenant_id aggregate_types apply_cb clear_tenant dry_run cancelled p prog =
    (let prog = prog\<lparr>rp_phase := Loading\<rparr> in
     case load_pages (query tenant_id filter_default) aggregate_types cancelled 0 0 [] of
       None \<Rightarrow> None
     | Some (Inl err) \<Rightarrow> Some (p, prog, Inl err)
     | Some (Inr (i, all_events)) \<Rightarrow>
         (let prog = prog\<lparr>rp_total_events := of_nat (length all_events)\<rparr> in
          if cancelled i then Some (p, prog, Inl Cancelled)
          else
            (let prog = prog\<lparr>rp_phase := Clearing\<rparr>;
                 p = (if \<not> dry_run then clear_tenant p tenant_id else p)
             in if cancelled (Suc i) then Some (p, prog, Inl Cancelled)
             else
               (let prog = prog\<lparr>rp_phase := Replaying\<rparr> in
                Some (replay_loop apply_cb cancelled dry_run (Suc (Suc i)) None 0 0 p prog
                  (sort_key stored_key all_events))))))"

definition progress_new :: ReplayProgress where
  "progress_new = \<lparr> rp_total_events = 0, rp_processed_events = 0, rp_processed_aggregates = 0,
     rp_phase = Loading, rp_is_complete = False, rp_error = None \<rparr>"

definition finish_replay :: "ReplayProgress \<Rightarrow> ReplayError + unit \<Rightarrow> ReplayProgress" where
  "finish_replay prog result =
    (case result of
       Inr _ \<Rightarrow> prog\<lparr>rp_phase := Complete, rp_is_complete := True\<rparr>
     | Inl Cancelled \<Rightarrow>
         prog\<lparr>rp_phase := Failed, rp_error := Some ''Replay cancelled'', rp_is_complete := True\<rparr>
     | Inl e \<Rightarrow>
         prog\<lparr>rp_phase := Failed, rp_error := Some (show_replay_error e), rp_is_complete := True\<rparr>)"

text \<open>The task that \<^verbatim>\<open>replay_projection\<close> spawns: the projection and the progress at its end.\<close>

definition replay_projection ::
    "(TenantId \<Rightarrow> EventFilter \<Rightarrow> Pagination \<Rightarrow> EventStoreError + 'j EventQueryResult) \<Rightarrow> TenantId \<Rightarrow>
     string list \<Rightarrow> ('p \<Rightarrow> 'j EventEnvelope \<Rightarrow> 'p \<times> (string + unit)) \<Rightarrow> ('p \<Rightarrow> TenantId \<Rightarrow> 'p) \<Rightarrow>
     bool \<Rightarrow> (nat \<Rightarrow> bool) \<Rightarrow> 'p \<Rightarrow> ('p \<times> ReplayProgress) option" where
  "replay_projection query tenant_id aggregate_types apply_cb clear_tenant dry_run cancelled p =
     map_option (\<lambda>(p, prog, result). (p, finish_replay prog result))
       (run_replay query tenant_id aggregate_types apply_cb clear_tenant dry_run cancelled p progress_new)"

text \<open>One turn of \<^verbatim>\<open>wait_for_completion\<close>: \<^term>\<open>None\<close> sleeps and looks again.\<close>

definition wait_turn :: "ReplayProgress \<Rightarrow> (ReplayError + ReplayProgress) option" where
  "wait_turn progress =
    (if rp_is_complete progress \<or> rp_phase progress = Failed
     then Some (case rp_error progress of
         Some err \<Rightarrow> Inl (ProjectionError err)
       | None \<Rightarrow> if rp_phase progress = Failed then Inl Cancelled else Inr progress)
     else None)"

subsection \<open>The callbacks of the replay routes\<close>

text \<open>Clearing goes through \<^verbatim>\<open>rebuild_from_scratch\<close> with one envelope whose payload is \<^verbatim>\<open>{}\<close>; its
  failure to decode is ignored.\<close>

definition create_apply_fn ::
    "(ApplyError \<Rightarrow> string) \<Rightarrow> ('p \<Rightarrow> 'j EventEnvelope \<Rightarrow> 'p \<times> (ApplyError + unit)) \<Rightarrow>
     'p \<Rightarrow> 'j EventEnvelope \<Rightarrow> 'p \<times> (string + unit)" where
  "create_apply_fn show_error step p envelope = (let (p', r) = step p envelope in (p', map_err show_error r))"

definition create_clear_fn ::
    "'c ProjectionCursorStore \<Rightarrow> ('st \<Rightarrow> TenantId \<Rightarrow> 'st) \<Rightarrow>
     (('st, 'c) Projection \<Rightarrow> 'j EventEnvelope \<Rightarrow> ('st, 'c) Projection \<times> (ApplyError + unit)) \<Rightarrow>
     string \<Rightarrow> 'j \<Rightarrow> uuid \<Rightarrow> uuid \<Rightarrow> ('st, 'c) Projection \<Rightarrow> TenantId \<Rightarrow> ('st, 'c) Projection" where
  "create_clear_fn ops clear step ty empty_object event_id aggregate_id p tenant_id =
     fst (rebuild_projection ops clear id step p
       [envelope_new event_id tenant_id (AggregateId aggregate_id) ty 1 empty_object])"

definition show_stock_apply_error :: "ApplyError \<Rightarrow> string" where
  "show_stock_apply_error e =
    (case e of
       Deserialize m \<Rightarrow> ''failed to deserialize inventory event: '' @ m
     | ApplyError.TenantIsolation m \<Rightarrow> ''tenant isolation violation: '' @ m
     | NonMonotonicSequence last_seq found \<Rightarrow> ''non-monotonic sequence number (last='' @ show_u64 last_seq
         @ '', found='' @ show_u64 found @ '')'')"

subsection \<open>The loops\<close>

lemma pagination_page [simp]:
  "pg_limit (pagination_new (Some page_size) k0) = page_size"
  "pg_offset (pagination_new l (Some k)) = k"
  by (simp_all add: pagination_new_def)

context event_query
begin

text \<open>The page loop reads everything from its offset on, and ends, as long as the boundary of the
  last page fits 32 bits.\<close>

lemma load_pages_all:
  assumes "available s" "unat offset \<le> length (matching s t f)" "length (matching s t f) + 2000 < 2 ^ 32"
  shows "\<exists>i'. load_pages (query s t f) types (\<lambda>_. False) i offset acc =
    Some (Inr (i', acc @ filter (\<lambda>e. se_aggregate_type e \<in> set types) (drop (unat offset) (matching s t f))))"
  using assms(2)
proof (induction "length (matching s t f) - unat offset" arbitrary: i offset acc rule: less_induct)
  case less
  let ?m = "matching s t f" and ?pg = "pagination_new (Some page_size) (Some offset)"
  let ?F = "filter (\<lambda>e. se_aggregate_type e \<in> set types)"
  have m: "unat offset + 1000 < 2 ^ 32" using less.prems assms(3) by simp
  have more: "has_more ?pg ?m \<longleftrightarrow> unat offset + 1000 < length ?m"
    using m assms(3) by (subst has_more_exact) simp_all
  have page: "paginate ?pg ?m = take 1000 (drop (unat offset) ?m)"
    by (simp add: paginate_def)
  show ?case
  proof (cases "unat offset + 1000 < length ?m")
    case False
    then have "paginate ?pg ?m = drop (unat offset) ?m" by (simp add: page)
    then show ?thesis
      using False more assms(1)
      by (subst load_pages.simps) (simp add: query_ok query_result_def)
  next
    case True
    have off: "unat (offset + page_size) = unat offset + 1000"
      using m by (simp add: unat_word_ariths)
    have split: "drop (unat offset) ?m = take 1000 (drop (unat offset) ?m) @ drop (unat (offset + page_size)) ?m"
      by (metis append_take_drop_id drop_drop add.commute off)
    have "\<exists>i'. load_pages (query s t f) types (\<lambda>_. False) (Suc i) (offset + page_size) (acc @ ?F (paginate ?pg ?m)) =
        Some (Inr (i', (acc @ ?F (paginate ?pg ?m)) @ ?F (drop (unat (offset + page_size)) ?m)))"
      using True by (intro less.hyps) (simp_all add: off)
    then show ?thesis
      using True more assms(1) unfolding page
      by (subst load_pages.simps, subst split) (simp add: query_ok query_result_def page)
  qed
qed

text \<open>Cancelled or not, the loop ends.\<close>

lemma load_pages_returns:
  assumes "unat offset \<le> length (matching s t f)" "length (matching s t f) + 2000 < 2 ^ 32"
  shows "\<exists>r. load_pages (query s t f) types cancelled i offset acc = Some r"
  using assms(1)
proof (induction "length (matching s t f) - unat offset" arbitrary: i offset acc rule: less_induct)
  case less
  let ?m = "matching s t f" and ?pg = "pagination_new (Some page_size) (Some offset)"
  have m: "unat offset + 1000 < 2 ^ 32" using less.prems assms(2) by simp
  have more: "has_more ?pg ?m \<longleftrightarrow> unat offset + 1000 < length ?m"
    using m assms(2) by (subst has_more_exact) simp_all
  have off: "unat (offset + page_size) = unat offset + 1000"
    using m by (simp add: unat_word_ariths)
  show ?case
  proof (cases "query s t f ?pg")
    case (Inl err)
    then show ?thesis by (subst load_pages.simps) simp
  next
    case (Inr r)
    have "\<exists>r'. load_pages (query s t f) types cancelled (Suc i) (offset + page_size) acc' = Some r'"
      if "has_more ?pg ?m" for acc'
      using that more by (intro less.hyps) (simp_all add: off)
    then show ?thesis
      using Inr query_Inr [OF Inr] by (subst load_pages.simps) (auto simp: Let_def query_result_def)
  qed
qed

end

lemma replay_loop_apply:
  assumes "apply_envelopes step p (map to_envelope es) = (p', Inr ())"
  shows "\<exists>prog'. replay_loop (create_apply_fn show_error step) (\<lambda>_. False) False i last_id pe pa p prog es =
      (p', prog', Inr ()) \<and> rp_total_events prog' = rp_total_events prog \<and> rp_phase prog' = rp_phase prog \<and>
    rp_error prog' = rp_error prog \<and>
    rp_processed_events prog' = (if es = [] then rp_processed_events prog else pe + of_nat (length es))"
  using assms
proof (induction es arbitrary: i last_id pe pa p prog)
  case (Cons e es)
  obtain p1 r1 where s: "step p (to_envelope e) = (p1, r1)" by fastforce
  with Cons.prems obtain u where r1: "r1 = Inr u" by (cases r1) auto
  have cb: "create_apply_fn show_error step p (to_envelope e) = (p1, Inr ())"
    using s r1 by (simp add: create_apply_fn_def)
  have rest: "apply_envelopes step p1 (map to_envelope es) = (p', Inr ())"
    using Cons.prems s r1 by simp
  let ?new = "Some (se_aggregate_id e) \<noteq> last_id"
  let ?pa = "if ?new then pa + 1 else pa" and ?last = "if ?new then Some (se_aggregate_id e) else last_id"
  from Cons.IH [OF rest, of "Suc i" ?last "pe + 1" ?pa
      "prog\<lparr>rp_processed_events := pe + 1, rp_processed_aggregates := ?pa\<rparr>"]
  show ?case by (cases ?new; cases "es = []") (auto simp: cb Let_def add.assoc)
qed simp

lemma replay_loop_error:
  "rp_error (fst (snd (replay_loop cb cancelled dry_run i last_id pe pa p prog es))) = rp_error prog"
proof (induction es arbitrary: i last_id pe pa p prog)
  case (Cons e es)
  then show ?case by (cases "cb p (to_envelope e)") (auto simp: Let_def split: sum.splits)
qed simp

text \<open>A dry run leaves the projection alone, cancelled or not.\<close>

lemma replay_loop_dry: "fst (replay_loop cb cancelled True i last_id pe pa p prog es) = p"
  by (induction es arbitrary: i last_id pe pa prog) (simp_all add: Let_def)

subsection \<open>What is replayed\<close>

text \<open>The streams of the tenant that hold the projection's aggregate type decode to the histories,
  event by event; the other histories are empty.\<close>

definition decodes_streams ::
    "('j \<Rightarrow> string + 'e) \<Rightarrow> ('st, 'e) ProjectionLogic \<Rightarrow> 'j InMemoryEventStore \<Rightarrow> TenantId \<Rightarrow>
     (AggregateId \<Rightarrow> 'e list) \<Rightarrow> bool" where
  "decodes_streams from_value pl s t hist \<longleftrightarrow>
    (\<forall>a. if stream_of s t a \<noteq> [] \<and> se_aggregate_type (hd (stream_of s t a)) = pl_aggregate_type pl
       then list_all2 (\<lambda>e ev. from_value (se_payload e) = Inr ev \<and> pl_check pl t a ev = Inr ())
              (stream_of s t a) (hist a)
       else hist a = [])"

lemma decodes_streamD:
  assumes "decodes_streams from_value pl s t hist"
  shows "\<lbrakk> stream_of s t a \<noteq> []; se_aggregate_type (hd (stream_of s t a)) = pl_aggregate_type pl \<rbrakk> \<Longrightarrow>
      list_all2 (\<lambda>e ev. from_value (se_payload e) = Inr ev \<and> pl_check pl t a ev = Inr ()) (stream_of s t a) (hist a)"
    "\<not> (stream_of s t a \<noteq> [] \<and> se_aggregate_type (hd (stream_of s t a)) = pl_aggregate_type pl) \<Longrightarrow> hist a = []"
  using spec [OF assms [unfolded decodes_streams_def], of a] by (simp_all split: if_splits)

lemma stream_number:
  assumes "stream_ok t a es" "length es < 2 ^ 64" "k < length es"
  shows "unat (se_sequence_number (es ! k)) = Suc k"
proof -
  have "map se_sequence_number es ! k = map of_nat [1..<Suc (length es)] ! k"
    using assms(1) by (simp add: stream_ok_def)
  then have "se_sequence_number (es ! k) = of_nat (Suc k)"
    using assms(3) by (simp del: upt_Suc of_nat_Suc)
  moreover have "Suc k < 2 ^ 64" using assms(2,3) by simp
  ultimately show ?thesis by (simp add: unsigned_of_nat take_bit_nat_eq_self del: of_nat_Suc)
qed

lemma stream_length_le:
  assumes "iterates keys s"
  shows "length (stream_of s t a) \<le> length (tenant_events keys s t)"
proof (cases "st_streams s \<lparr> sk_tenant_id = t, sk_aggregate_id = a \<rparr>")
  case (Some es)
  then have "\<lparr> sk_tenant_id = t, sk_aggregate_id = a \<rparr> \<in> set keys" using assms by (auto simp: iterates_def)
  then show ?thesis
    by (auto simp: tenant_events_def stream_of_def length_concat intro!: member_le_sum_list)
qed (simp add: stream_of_def or_default_def)

text \<open>The envelopes a replay of one aggregate type applies.\<close>

definition loaded ::
    "StreamKey list \<Rightarrow> 'j InMemoryEventStore \<Rightarrow> TenantId \<Rightarrow> string \<Rightarrow> 'j StoredEvent list" where
  "loaded keys s t ty = filter (\<lambda>e. se_aggregate_type e \<in> set [ty]) (matching_events keys s t filter_default)"

definition replayed ::
    "StreamKey list \<Rightarrow> 'j InMemoryEventStore \<Rightarrow> TenantId \<Rightarrow> string \<Rightarrow> 'j EventEnvelope list" where
  "replayed keys s t ty = map to_envelope (sort_key stored_key (loaded keys s t ty))"

lemma envelope_fields [simp]:
  "ee_tenant_id (to_envelope e) = se_tenant_id e" "ee_aggregate_id (to_envelope e) = se_aggregate_id e"
  "ee_aggregate_type (to_envelope e) = se_aggregate_type e" "ee_payload (to_envelope e) = se_payload e"
  "ee_sequence_number (to_envelope e) = se_sequence_number e"
  by (simp_all add: to_envelope_def envelope_new_def)

lemma sort_key_Nil_iff [simp]: "sort_key f xs = [] \<longleftrightarrow> xs = []"
  by (metis length_0_conv length_sort)

lemma replayed_sorted: "sorted (map replay_key (replayed keys s t ty))"
proof -
  have "map replay_key (replayed keys s t ty) = map stored_key (sort_key stored_key (loaded keys s t ty))"
    by (simp add: replayed_def replay_key_def stored_key_def o_def)
  then show ?thesis by simp
qed

lemma set_replayed:
  assumes "iterates keys s"
  shows "set (replayed keys s t ty) = to_envelope ` {e. se_aggregate_type e = ty \<and> (\<exists>a. e \<in> set (stream_of s t a))}"
  using set_matching [OF assms, of t filter_default] by (auto simp: replayed_def loaded_def)

lemma stream_event_ids:
  assumes "store_invar s" "e \<in> set (stream_of s t a)"
  shows "se_tenant_id e = t" "se_aggregate_id e = a"
  using assms by (auto simp: store_invar_def stream_ok_def)

lemma stream_event_at:
  assumes "store_invar s" "e \<in> set (stream_of s t a)"
  shows "se_tenant_id e = t \<and> se_aggregate_id e = a \<and> stream_of s t a \<noteq> [] \<and>
    se_aggregate_type e = se_aggregate_type (hd (stream_of s t a))"
  using assms by (auto simp: store_invar_def stream_ok_def)

lemma stream_event_type:
  assumes "store_invar s" "e \<in> set (stream_of s t a)"
  shows "se_aggregate_type e = ty \<longleftrightarrow>
    stream_of s t a \<noteq> [] \<and> se_aggregate_type (hd (stream_of s t a)) = ty"
  using stream_event_at [OF assms] by metis

text \<open>The events of the projection's streams are genuine and numbered without gaps.\<close>

lemma stream_event_genuine:
  assumes "store_invar s" "decodes_streams from_value pl s t (hist t)" "length (stream_of s t a) < 2 ^ 64"
    "e \<in> set (stream_of s t a)" "se_aggregate_type e = pl_aggregate_type pl"
  shows "genuine from_value pl hist (to_envelope e)"
proof -
  let ?es = "stream_of s t a"
  note at = stream_event_at [OF assms(1,4)]
  have dec: "list_all2 (\<lambda>e ev. from_value (se_payload e) = Inr ev \<and> pl_check pl t a ev = Inr ()) ?es (hist t a)"
    using at assms(5) by (intro decodes_streamD(1) [OF assms(2)]) simp_all
  obtain k where k: "k < length ?es" "e = ?es ! k" using assms(4) by (auto simp: in_set_conv_nth)
  have "unat (se_sequence_number e) = Suc k"
    using stream_number [of t a ?es k] assms(1,3) k by (simp add: store_invar_def)
  then show ?thesis
    using k at list_all2_nthD [OF dec k(1)] list_all2_lengthD [OF dec] assms(5)
    by (simp add: genuine_def Let_def)
qed

lemma stream_numbers:
  assumes "store_invar s" "decodes_streams from_value pl s t (hist t)" "length (stream_of s t a) < 2 ^ 64"
  shows "(\<lambda>e. unat (se_sequence_number e)) ` {e \<in> set (stream_of s t a). se_aggregate_type e = pl_aggregate_type pl}
    = {1..length (hist t a)}"
proof -
  let ?es = "stream_of s t a" and ?ty = "pl_aggregate_type pl"
  have ok: "stream_ok t a ?es" using assms(1) by (simp add: store_invar_def)
  show ?thesis
  proof (cases "?es \<noteq> [] \<and> se_aggregate_type (hd ?es) = ?ty")
    case True
    then have "length (hist t a) = length ?es"
      using decodes_streamD(1) [OF assms(2), of a] by (auto dest: list_all2_lengthD)
    moreover have "{e \<in> set ?es. se_aggregate_type e = ?ty} = set ?es"
      using True stream_event_type [OF assms(1)] by blast
    moreover have "(\<lambda>e. unat (se_sequence_number e)) ` set ?es = {1..length ?es}"
    proof -
      have "map (\<lambda>e. unat (se_sequence_number e)) ?es = [1..<Suc (length ?es)]"
        by (rule nth_equalityI) (simp_all add: stream_number [OF ok assms(3)] del: upt_Suc)
      then have "set (map (\<lambda>e. unat (se_sequence_number e)) ?es) = set [1..<Suc (length ?es)]"
        by (rule arg_cong)
      then show ?thesis by (simp only: set_map set_upt atLeastLessThanSuc_atLeastAtMost)
    qed
    ultimately show ?thesis by simp
  next
    case False
    then have "hist t a = []" by (rule decodes_streamD(2) [OF assms(2)])
    moreover have "{e \<in> set ?es. se_aggregate_type e = ?ty} = {}"
      using False stream_event_type [OF assms(1)] by blast
    ultimately show ?thesis by simp
  qed
qed

lemma replayed_genuine:
  assumes "iterates keys s" "store_invar s" "decodes_streams from_value pl s t (hist t)"
    "length (tenant_events keys s t) < 2 ^ 64"
  shows "\<forall>env \<in> set (replayed keys s t (pl_aggregate_type pl)). genuine from_value pl hist env"
proof
  fix env assume "env \<in> set (replayed keys s t (pl_aggregate_type pl))"
  then obtain e a where e: "env = to_envelope e" "se_aggregate_type e = pl_aggregate_type pl"
    "e \<in> set (stream_of s t a)" by (auto simp: set_replayed [OF assms(1)])
  have "length (stream_of s t a) < 2 ^ 64" using stream_length_le [OF assms(1), of t a] assms(4) by simp
  from stream_event_genuine [where hist = hist, OF assms(2,3) this e(3,2)]
  show "genuine from_value pl hist env" by (simp add: e(1))
qed

lemma replayed_numbers:
  assumes "iterates keys s" "store_invar s" "decodes_streams from_value pl s t (hist t)"
    "length (tenant_events keys s t) < 2 ^ 64"
  shows "numbers (pl_aggregate_type pl) (replayed keys s t (pl_aggregate_type pl)) t a = {1..length (hist t a)}"
proof -
  let ?es = "stream_of s t a" and ?ty = "pl_aggregate_type pl"
  have len: "length ?es < 2 ^ 64" using stream_length_le [OF assms(1), of t a] assms(4) by simp
  have F: "set (filter (\<lambda>env. ee_aggregate_type env = ?ty \<and> ee_tenant_id env = t \<and> ee_aggregate_id env = a)
      (replayed keys s t ?ty)) = to_envelope ` {e \<in> set ?es. se_aggregate_type e = ?ty}"
    (is "?L = ?R")
  proof (intro equalityI subsetI)
    fix env assume L: "env \<in> ?L"
    then obtain e a' where e: "env = to_envelope e" "se_aggregate_type e = ?ty" "e \<in> set (stream_of s t a')"
      by (auto simp: set_replayed [OF assms(1)])
    moreover have "a' = a" using L e(1) stream_event_ids(2) [OF assms(2) e(3)] by simp
    ultimately show "env \<in> ?R" by simp
  next
    fix env assume "env \<in> ?R"
    then obtain e where e: "env = to_envelope e" "se_aggregate_type e = ?ty" "e \<in> set ?es" by blast
    then have "env \<in> set (replayed keys s t ?ty)" by (auto simp: set_replayed [OF assms(1)])
    then show "env \<in> ?L" using e(1,2) stream_event_ids [OF assms(2) e(3)] by simp
  qed
  show ?thesis
    unfolding numbers_def F using stream_numbers [where hist = hist, OF assms(2,3) len] by (simp add: image_image)
qed

lemma create_clear_fn_clears:
  assumes "in_memory_cursors p" "from_value empty_object = Inl err"
  shows "create_clear_fn ops clear (apply_envelope ops from_value pl) (pl_aggregate_type pl) empty_object u v p t
    = clear_tenants ops clear p [t]"
proof -
  let ?c = "clear_tenants ops clear p [t]"
  have "get_cursor ops ?c t a = 0" for a
    using clear_all_simps [OF assms(1), of ops clear "[t]" t a] by simp
  then show ?thesis
    by (simp add: create_clear_fn_def rebuild_projection_def apply_envelope_def envelope_new_def
        Let_def assms(2))
qed

context state_view
begin

text \<open>A replay that is not cancelled ends, reports all events processed, and leaves the projection
  showing the states the tenant's streams replay to.\<close>

lemma replay_view:
  assumes "\<forall>t a. decided evolve handle (init a) (hist t a)"
    "in_memory_cursors p0" "ok (pj_store p0)"
    "iterates keys s" "store_invar s" "\<not> st_poisoned s"
    "decodes_streams from_value pl s t (hist t)" "length (tenant_events keys s t) + 2000 < 2 ^ 32"
    "from_value empty_object = Inl err"
  shows "\<exists>p prog. replay_projection (query_events keys s) t [pl_aggregate_type pl]
      (create_apply_fn show_error (apply_envelope ops from_value pl))
      (create_clear_fn ops clear_tenant (apply_envelope ops from_value pl) (pl_aggregate_type pl) empty_object u v)
      False (\<lambda>_. False) p0 = Some (p, prog) \<and>
    wait_turn prog = Some (Inr prog) \<and> rp_processed_events prog = rp_total_events prog \<and>
    (\<forall>t' a. map_option obs (get (pj_store p) t' (mk a)) = (if t' = t
      then view (foldl evolve (init a) (hist t a)) else map_option obs (get (pj_store p0) t' (mk a))))"
proof -
  let ?ty = "pl_aggregate_type pl" and ?step = "apply_envelope ops from_value pl"
  let ?xs = "loaded keys s t ?ty"
  have m: "length (matching_events keys s t filter_default) = length (tenant_events keys s t)"
    by (simp add: matching_events_def)
  obtain i where load: "load_pages (query_events keys s t filter_default) [?ty] (\<lambda>_. False) 0 0 [] = Some (Inr (i, ?xs))"
    using in_memory_query.load_pages_all [of s 0 keys t filter_default "[?ty]" 0 "[]"] assms(6,8)
    by (auto simp: m loaded_def)
  have len: "length (tenant_events keys s t) < 2 ^ 64" using assms(8) by simp
  note R = replayed_genuine [where hist = hist, OF assms(4,5,7) len]
    replayed_numbers [where hist = hist, OF assms(4,5,7) len]
  have tn: "ee_tenant_id ` set (replayed keys s t ?ty) \<subseteq> set [t]"
    using stream_event_ids [OF assms(5)] by (auto simp: set_replayed [OF assms(4)])
  obtain p where p: "apply_envelopes ?step (clear_tenants ops clear_tenant p0 [t])
      (map to_envelope (sort_key stored_key ?xs)) = (p, Inr ())"
    "\<And>t' k. get (pj_store p) t' k = (if t' = t then foldl row None (hist t (id_of k)) else get (pj_store p0) t' k)"
    using cleared_rows [OF assms(2,3) R(1) replayed_sorted tn, of ops] R(2) by (auto simp: replayed_def)
  let ?prog = "progress_new\<lparr>rp_total_events := of_nat (length ?xs), rp_phase := Replaying\<rparr>"
  obtain prog where prog:
    "replay_loop (create_apply_fn show_error ?step) (\<lambda>_. False) False (Suc (Suc i)) None 0 0
      (clear_tenants ops clear_tenant p0 [t]) ?prog (sort_key stored_key ?xs) = (p, prog, Inr ())"
    "rp_total_events prog = of_nat (length ?xs)" "rp_error prog = None"
    "rp_processed_events prog = of_nat (length ?xs)"
    using replay_loop_apply [OF p(1), of show_error "Suc (Suc i)" None 0 0 ?prog]
    by (auto simp: progress_new_def split: if_splits)
  have "run_replay (query_events keys s) t [?ty] (create_apply_fn show_error ?step)
      (create_clear_fn ops clear_tenant ?step ?ty empty_object u v) False (\<lambda>_. False) p0 progress_new
      = Some (p, prog, Inr ())"
    using prog(1) by (simp add: run_replay_def load create_clear_fn_clears [where from_value = from_value, OF assms(2,9)] progress_new_def)
  then show ?thesis
    using prog p(2) assms(1)
    by (auto simp: replay_projection_def finish_replay_def wait_turn_def id_mk row_view)
qed

end

subsection \<open>Properties\<close>

text \<open>C25: replays end.  Whatever projection, callbacks, cancellation and dry run, the replay task of
  a tenant whose stored events fit 32-bit offsets finishes; and whoever waits for it then gets an
  answer: the final progress, or the error that is recorded in it.\<close>

theorem replay_terminates:
  assumes "length (tenant_events keys s t) + 2000 < 2 ^ 32"
  shows "\<exists>p' prog. replay_projection (query_events keys s) t types cb clear dry_run cancelled p = Some (p', prog) \<and>
    (wait_turn prog = Some (Inr prog) \<and> rp_phase prog = Complete \<or>
     (\<exists>m. wait_turn prog = Some (Inl (ProjectionError m)) \<and> rp_error prog = Some m \<and> rp_phase prog = Failed))"
proof -
  have "length (matching_events keys s t filter_default) = length (tenant_events keys s t)"
    by (simp add: matching_events_def)
  then obtain r where r: "load_pages (query_events keys s t filter_default) types cancelled 0 0 [] = Some r"
    using in_memory_query.load_pages_returns [of 0 keys s t filter_default types cancelled 0 "[]"] assms by auto
  have "\<exists>p' prog result. run_replay (query_events keys s) t types cb clear dry_run cancelled p progress_new =
      Some (p', prog, result) \<and> rp_error prog = None"
  proof (cases r)
    case (Inl err)
    then show ?thesis by (simp add: run_replay_def r progress_new_def)
  next
    case (Inr q)
    obtain i es where q: "q = (i, es)" by fastforce
    let ?prog = "progress_new\<lparr>rp_phase := Loading, rp_total_events := of_nat (length es), rp_phase := Clearing,
      rp_phase := Replaying\<rparr>"
    let ?p = "if \<not> dry_run then clear p t else p"
    obtain p' prog result where loop: "replay_loop cb cancelled dry_run (Suc (Suc i)) None 0 0 ?p ?prog
        (sort_key stored_key es) = (p', prog, result)" by (metis prod_cases3)
    have "rp_error prog = None"
      using replay_loop_error [of cb cancelled dry_run "Suc (Suc i)" None 0 0 ?p ?prog "sort_key stored_key es"]
      unfolding loop by (simp add: progress_new_def)
    then show ?thesis
      using loop by (cases dry_run; cases "cancelled i"; cases "cancelled (Suc i)")
        (simp_all add: run_replay_def r Inr q Let_def progress_new_def)
  qed
  then obtain p' prog result where run:
    "run_replay (query_events keys s) t types cb clear dry_run cancelled p progress_new = Some (p', prog, result)"
    and err: "rp_error prog = None" by blast
  have "replay_projection (query_events keys s) t types cb clear dry_run cancelled p =
      Some (p', finish_replay prog result)" by (simp add: replay_projection_def run)
  moreover have "let prog = finish_replay prog result in
     wait_turn prog = Some (Inr prog) \<and> rp_phase prog = Complete \<or>
     (\<exists>m. wait_turn prog = Some (Inl (ProjectionError m)) \<and> rp_error prog = Some m \<and> rp_phase prog = Failed)"
    using err by (auto simp: finish_replay_def wait_turn_def Let_def split: sum.splits ReplayError.splits)
  ultimately show ?thesis by (auto simp: Let_def)
qed

theorem replay_terminates_witness:
  "\<exists>p' prog. replay_projection (query_events [ex_key] ex_query_store) (TenantId 1) [''x'']
      (\<lambda>(p :: nat) _. (Suc p, Inr ())) (\<lambda>_ _. 0) False (\<lambda>i. i = 3) 5 = Some (p', prog) \<and>
    (wait_turn prog = Some (Inr prog) \<and> rp_phase prog = Complete \<or>
     (\<exists>m. wait_turn prog = Some (Inl (ProjectionError m)) \<and> rp_error prog = Some m \<and> rp_phase prog = Failed))"
proof (rule replay_terminates)
  have "length (tenant_events [ex_key] ex_query_store (TenantId 1)) = 2" by code_simp
  then show "length (tenant_events [ex_key] ex_query_store (TenantId 1)) + 2000 < 2 ^ 32" by simp
qed

text \<open>A replay of the stock projection repairs it.  From whatever rows and cursors it has, when
  the tenant's item streams are decided histories, the replay ends, reports every event processed,
  and leaves exactly the states the streams replay to, while the other tenants' rows stay.  The
  empty object is not an event.\<close>

theorem stock_replay_sound:
  assumes "\<forall>t a. decided item_apply item_handle (item_empty (InventoryItemId a)) (hist t a)"
    "in_memory_cursors p0" "ts_ok (pj_store p0)"
    "iterates keys s" "store_invar s" "\<not> st_poisoned s"
    "decodes_streams from_value inventory_stock s t (hist t)" "length (tenant_events keys s t) + 2000 < 2 ^ 32"
    "from_value empty_object = Inl err"
  shows "\<exists>p prog. replay_projection (query_events keys s) t [''inventory.item'']
      (create_apply_fn show_stock_apply_error (apply_envelope ops from_value inventory_stock))
      (create_clear_fn ops ts_clear_tenant (apply_envelope ops from_value inventory_stock) ''inventory.item'' empty_object u v)
      False (\<lambda>_. False) p0 = Some (p, prog) \<and>
    wait_turn prog = Some (Inr prog) \<and> rp_processed_events prog = rp_total_events prog \<and>
    (\<forall>t' a. ts_get (pj_store p) t' (InventoryItemId a) = (if t' = t
      then item_view (foldl item_apply (item_empty (InventoryItemId a)) (hist t a))
      else ts_get (pj_store p0) t' (InventoryItemId a)))"
proof -
  have "pl_aggregate_type inventory_stock = ''inventory.item''" by (simp add: inventory_stock_def)
  then show ?thesis
    using stock_view.replay_view [where hist = hist, OF assms, of show_stock_apply_error ops u v,
      unfolded option.map_id] by simp
qed

text \<open>Payloads are events, or none for the empty object.\<close>

definition ex_from_value :: "InventoryEvent option \<Rightarrow> string + InventoryEvent" where
  "ex_from_value j = (case j of Some e \<Rightarrow> Inr e | None \<Rightarrow> Inl ''no variant'')"

definition ex_replay_store :: "InventoryEvent option InMemoryEventStore" where
  "ex_replay_store = fst (append_events store_new
     (map (\<lambda>e. \<lparr> ue_event_id = 9, ue_tenant_id = TenantId 1, ue_aggregate_id = AggregateId 7,
       ue_aggregate_type = ''inventory.item'', ue_event_type = ''e'', ue_event_version = 1,
       ue_occurred_at = 5, ue_payload = Some e \<rparr>) ex_stock_events) Any)"

lemma ex_replay_streams:
  "st_streams ex_replay_store = [ex_key \<mapsto> stream_of ex_replay_store (TenantId 1) (AggregateId 7)]"
  unfolding ex_replay_store_def append_events_def
  by (simp add: ex_stock_events_def check_batch_event_def append_locked_def Let_def ex_key_def
      store_new_def stream_of_def or_default_def)

lemma ex_replay_stream:
  "stream_of ex_replay_store (TenantId 1) (AggregateId 7) \<noteq> []"
  "se_aggregate_type (hd (stream_of ex_replay_store (TenantId 1) (AggregateId 7))) = ''inventory.item''"
  "list_all2 (\<lambda>e ev. ex_from_value (se_payload e) = Inr ev \<and>
     inventory_check (TenantId 1) (AggregateId 7) ev = Inr ())
     (stream_of ex_replay_store (TenantId 1) (AggregateId 7)) ex_stock_events"
  by code_simp+

lemma ex_replay_decodes: "decodes_streams ex_from_value inventory_stock ex_replay_store (TenantId 1) (ex_stock_hist (TenantId 1))"
proof -
  have "stream_of ex_replay_store (TenantId 1) a = []" if "a \<noteq> AggregateId 7" for a
    using that by (subst stream_of_def) (simp add: ex_replay_streams ex_key_def or_default_def)
  then show ?thesis
    using ex_replay_stream by (auto simp: decodes_streams_def ex_stock_hist_def inventory_stock_def)
qed

theorem stock_replay_sound_witness:
  "\<exists>p prog. replay_projection (query_events [ex_key] ex_replay_store) (TenantId 1) [''inventory.item'']
      (create_apply_fn show_stock_apply_error (apply_envelope InMemoryCursorStore ex_from_value inventory_stock))
      (create_clear_fn InMemoryCursorStore ts_clear_tenant
        (apply_envelope InMemoryCursorStore ex_from_value inventory_stock) ''inventory.item'' None 1 2)
      False (\<lambda>_. False) (projection_new ts_new ''inventory.stock'') = Some (p, prog) \<and>
    wait_turn prog = Some (Inr prog) \<and> rp_processed_events prog = rp_total_events prog \<and>
    (\<forall>t' a. ts_get (pj_store p) t' (InventoryItemId a) = (if t' = TenantId 1
      then item_view (foldl item_apply (item_empty (InventoryItemId a)) (ex_stock_hist (TenantId 1) a))
      else ts_get (pj_store (projection_new ts_new ''inventory.stock'' :: (_, unit) Projection)) t' (InventoryItemId a)))"
proof (rule stock_replay_sound [where hist = ex_stock_hist and err = "''no variant''"])
  show "\<forall>t a. decided item_apply item_handle (item_empty (InventoryItemId a)) (ex_stock_hist t a)"
    using ex_stock_decided by blast
  show "iterates [ex_key] ex_replay_store" by (simp add: iterates_def ex_replay_streams)
  show "store_invar ex_replay_store"
    unfolding ex_replay_store_def by (rule append_events_invar) simp
  show "\<not> st_poisoned ex_replay_store" by code_simp
  have "length (tenant_events [ex_key] ex_replay_store (TenantId 1)) = 2" by code_simp
  then show "length (tenant_events [ex_key] ex_replay_store (TenantId 1)) + 2000 < 2 ^ 32" by simp
qed (simp_all add: ex_replay_decodes ex_from_value_def)

end
