(* ===== verification/Api_Reads.thy ===== *)
theory Api_Reads
  imports Api_Core Replay
begin

text \<open>
  The read routes (\<^verbatim>\<open>api/src/app/routes/\<close>): rows of the read models, stored events, the caller's
  identity, and the tenant's realtime stream.  They change nothing, so a route is a function from
  the services to a response.  The iteration order of a hash map is the argument \<^verbatim>\<open>iter\<close>; the JSON
  form of a stored payload is the argument \<^verbatim>\<open>pj\<close>.
\<close>

subsection \<open>Rows\<close>

definition row_response :: "('v \<Rightarrow> Json) \<Rightarrow> string \<Rightarrow> 'v option \<Rightarrow> Response" where
  "row_response render message row =
    (case row of
       Some rm \<Rightarrow> \<lparr> rs_status = OK, rs_body = render rm \<rparr>
     | None \<Rightarrow> json_error NOT_FOUND ''not_found'' message)"

definition items_response :: "('v \<Rightarrow> Json) \<Rightarrow> 'v list \<Rightarrow> Response" where
  "items_response render rows = respond OK [(''items'', JArray (map render rows))]"

text \<open>Parse the id in the path, look the row up for the tenant of the request.\<close>

definition get_row ::
    "Platform \<Rightarrow> string \<Rightarrow> string \<Rightarrow> ('v \<Rightarrow> Json) \<Rightarrow> (AggregateId \<Rightarrow> 'k) \<Rightarrow> ('k, 'v) InMemoryTenantStore \<Rightarrow>
     TenantContext \<Rightarrow> string \<Rightarrow> Response" where
  "get_row pf invalid missing render mk store tenant path_id =
    (case parse_id pf path_id invalid of
       Inl response \<Rightarrow> response
     | Inr agg \<Rightarrow> row_response render missing (ts_get store (tc_tenant_id tenant) (mk agg)))"

definition get_item :: "Platform \<Rightarrow> TenantContext \<Rightarrow> string \<Rightarrow> 'j AppServices \<Rightarrow> Response" where
  "get_item pf tenant path_id services = get_row pf ''invalid item id'' ''item not found'' (inventory_to_json pf)
     InventoryItemId (pj_store (sv_inventory_projection services)) tenant path_id"

definition get_product :: "Platform \<Rightarrow> TenantContext \<Rightarrow> string \<Rightarrow> 'j AppServices \<Rightarrow> Response" where
  "get_product pf tenant path_id services = get_row pf ''invalid product id'' ''product not found'' (product_to_json pf)
     ProductId (pj_store (sv_products_projection services)) tenant path_id"

definition list_products ::
    "Platform \<Rightarrow> (((TenantId \<times> ProductId) \<times> ProductReadModel) list \<Rightarrow> ((TenantId \<times> ProductId) \<times> ProductReadModel) list) \<Rightarrow>
     TenantContext \<Rightarrow> 'j AppServices \<Rightarrow> Response" where
  "list_products pf iter tenant services = items_response (product_to_json pf)
     (ts_list iter (pj_store (sv_products_projection services)) (tc_tenant_id tenant))"

definition get_party_by_kind :: "Platform \<Rightarrow> TenantContext \<Rightarrow> string \<Rightarrow> PartyKind \<Rightarrow> 'j AppServices \<Rightarrow> Response" where
  "get_party_by_kind pf tenant path_id kind services =
    (case parse_id pf path_id ''invalid party id'' of
       Inl response \<Rightarrow> response
     | Inr agg \<Rightarrow>
         (case ts_get (pj_store (sv_parties_projection services)) (tc_tenant_id tenant) (PartyId agg) of
            Some rm \<Rightarrow> if pyr_kind rm = kind then \<lparr> rs_status = OK, rs_body = party_to_json pf rm \<rparr>
              else json_error NOT_FOUND ''not_found'' ''party not found''
          | None \<Rightarrow> json_error NOT_FOUND ''not_found'' ''party not found''))"

definition list_parties ::
    "Platform \<Rightarrow> (((TenantId \<times> PartyId) \<times> PartyReadModel) list \<Rightarrow> ((TenantId \<times> PartyId) \<times> PartyReadModel) list) \<Rightarrow>
     TenantContext \<Rightarrow> PartyKind \<Rightarrow> 'j AppServices \<Rightarrow> Response" where
  "list_parties pf iter tenant kind services = items_response (party_to_json pf)
     (filter (\<lambda>p. pyr_kind p = kind) (ts_list iter (pj_store (sv_parties_projection services)) (tc_tenant_id tenant)))"

definition get_sales_order :: "Platform \<Rightarrow> TenantContext \<Rightarrow> string \<Rightarrow> 'j AppServices \<Rightarrow> Response" where
  "get_sales_order pf tenant path_id services = get_row pf ''invalid order id'' ''sales order not found''
     (sales_order_to_json pf) SalesOrderId (pj_store (sv_sales_projection services)) tenant path_id"

definition list_sales_orders ::
    "Platform \<Rightarrow> (((TenantId \<times> SalesOrderId) \<times> SalesOrderReadModel) list \<Rightarrow> ((TenantId \<times> SalesOrderId) \<times> SalesOrderReadModel) list) \<Rightarrow>
     TenantContext \<Rightarrow> 'j AppServices \<Rightarrow> Response" where
  "list_sales_orders pf iter tenant services = items_response (sales_order_to_json pf)
     (ts_list iter (pj_store (sv_sales_projection services)) (tc_tenant_id tenant))"

definition get_invoice :: "Platform \<Rightarrow> TenantContext \<Rightarrow> string \<Rightarrow> 'j AppServices \<Rightarrow> Response" where
  "get_invoice pf tenant path_id services = get_row pf ''invalid invoice id'' ''invoice not found''
     (invoice_to_json pf) InvoiceId (pj_store (sv_invoices_projection services)) tenant path_id"

definition list_invoices ::
    "Platform \<Rightarrow> (((TenantId \<times> InvoiceId) \<times> InvoiceReadModel) list \<Rightarrow> ((TenantId \<times> InvoiceId) \<times> InvoiceReadModel) list) \<Rightarrow>
     TenantContext \<Rightarrow> 'j AppServices \<Rightarrow> Response" where
  "list_invoices pf iter tenant services = items_response (invoice_to_json pf)
     (ts_list iter (pj_store (sv_invoices_projection services)) (tc_tenant_id tenant))"

definition get_purchase_order :: "Platform \<Rightarrow> TenantContext \<Rightarrow> string \<Rightarrow> 'j AppServices \<Rightarrow> Response" where
  "get_purchase_order pf tenant path_id services = get_row pf ''invalid purchase order id'' ''purchase order not found''
     (purchase_order_to_json pf) PurchaseOrderId (pj_store (sv_purchases_projection services)) tenant path_id"

definition list_purchase_orders ::
    "Platform \<Rightarrow> (((TenantId \<times> PurchaseOrderId) \<times> PurchaseOrderReadModel) list \<Rightarrow> ((TenantId \<times> PurchaseOrderId) \<times> PurchaseOrderReadModel) list) \<Rightarrow>
     TenantContext \<Rightarrow> 'j AppServices \<Rightarrow> Response" where
  "list_purchase_orders pf iter tenant services = items_response (purchase_order_to_json pf)
     (ts_list iter (pj_store (sv_purchases_projection services)) (tc_tenant_id tenant))"

definition list_ledger_balances ::
    "(((TenantId \<times> string) \<times> AccountBalance) list \<Rightarrow> ((TenantId \<times> string) \<times> AccountBalance) list) \<Rightarrow>
     TenantContext \<Rightarrow> 'j AppServices \<Rightarrow> Response" where
  "list_ledger_balances iter tenant services = items_response ledger_balance_to_json
     (ts_list iter (pj_store (sv_ledger_projection services)) (tc_tenant_id tenant))"

definition get_ledger_balance :: "TenantContext \<Rightarrow> string \<Rightarrow> 'j AppServices \<Rightarrow> Response" where
  "get_ledger_balance tenant code services = row_response ledger_balance_to_json ''account not found''
     (ts_get (pj_store (sv_ledger_projection services)) (tc_tenant_id tenant) code)"

definition get_ar_aging ::
    "Platform \<Rightarrow> (((TenantId \<times> InvoiceId) \<times> InvoiceAgingReadModel) list \<Rightarrow> ((TenantId \<times> InvoiceId) \<times> InvoiceAgingReadModel) list) \<Rightarrow>
     TenantContext \<Rightarrow> 'j AppServices \<Rightarrow> Response" where
  "get_ar_aging pf iter tenant services = items_response (aging_to_json pf)
     (ts_list iter (pj_store (sv_ar_aging_projection services)) (tc_tenant_id tenant))"

subsection \<open>Users\<close>

definition user_to_json :: "Platform \<Rightarrow> UserReadModel \<Rightarrow> Json" where
  "user_to_json pf user = JObject [
     (''id'', JString (pf_uuid_string pf (auth_user_uuid (urm_user_id user)))),
     (''tenant_id'', JString (pf_uuid_string pf (tenant_uuid (urm_tenant_id user)))),
     (''email'', JString (urm_email user)),
     (''display_name'', JString (urm_display_name user)),
     (''roles'', JArray (map JString (urm_roles user))),
     (''status'', JString (urm_status user)),
     (''created_at'', JString (pf_to_rfc3339 pf (urm_created_at user))),
     (''updated_at'', JString (pf_to_rfc3339 pf (urm_updated_at user)))]"

definition list_users ::
    "Platform \<Rightarrow> (((TenantId \<times> AuthUserId) \<times> UserReadModel) list \<Rightarrow> ((TenantId \<times> AuthUserId) \<times> UserReadModel) list) \<Rightarrow>
     TenantContext \<Rightarrow> PrincipalContext \<Rightarrow> 'j AppServices \<Rightarrow> Response" where
  "list_users pf iter tenant prin services =
    (case guard pf tenant prin ''admin.users.list'' of
       Inl response \<Rightarrow> response
     | Inr _ \<Rightarrow> items_response (user_to_json pf) (ts_list iter (sv_users_projection services) (tc_tenant_id tenant)))"

definition parse_user_id :: "Platform \<Rightarrow> string \<Rightarrow> Response + AuthUserId" where
  "parse_user_id pf path_id =
    (case pf_parse_uuid pf path_id of
       Some u \<Rightarrow> Inr (AuthUserId u)
     | None \<Rightarrow> Inl (json_error BAD_REQUEST ''invalid_id'' ''invalid user id''))"

definition get_user :: "Platform \<Rightarrow> TenantContext \<Rightarrow> PrincipalContext \<Rightarrow> string \<Rightarrow> 'j AppServices \<Rightarrow> Response" where
  "get_user pf tenant prin path_id services =
    (case and_then (guard pf tenant prin ''admin.users.read'') (\<lambda>_. parse_user_id pf path_id) of
       Inl response \<Rightarrow> response
     | Inr user_id \<Rightarrow> row_response (user_to_json pf) ''user not found''
         (ts_get (sv_users_projection services) (tc_tenant_id tenant) user_id))"

definition inspect_permissions ::
    "Platform \<Rightarrow> TenantContext \<Rightarrow> PrincipalContext \<Rightarrow> string \<Rightarrow> 'j AppServices \<Rightarrow> Response" where
  "inspect_permissions pf tenant prin path_id services =
    (case and_then (guard pf tenant prin ''admin.users.read'') (\<lambda>_. parse_user_id pf path_id) of
       Inl response \<Rightarrow> response
     | Inr user_id \<Rightarrow>
         (case effective_permissions (pf_iter pf) (sv_users_projection services) (tc_tenant_id tenant) user_id
                 default_role_permissions of
            Some effective \<Rightarrow> respond OK
              [(''user_id'', JString (pf_uuid_string pf (auth_user_uuid (ep_user_id effective)))),
               (''tenant_id'', JString (pf_uuid_string pf (tenant_uuid (ep_tenant_id effective)))),
               (''roles'', JArray (map JString (ep_roles effective))),
               (''permissions'', JArray (map JString (sort (ep_permissions effective))))]
          | None \<Rightarrow> json_error NOT_FOUND ''not_found'' ''user not found''))"

subsection \<open>Stored events\<close>

record EventListQuery =
  elq_aggregate_id :: "string option"
  elq_aggregate_type :: "string option"
  elq_event_type :: "string option"
  elq_occurred_after :: "datetime option"
  elq_occurred_before :: "datetime option"
  elq_limit :: "u32 option"
  elq_offset :: "u32 option"

definition event_to_json :: "Platform \<Rightarrow> ('j \<Rightarrow> Json) \<Rightarrow> 'j StoredEvent \<Rightarrow> Json" where
  "event_to_json pf pj event = JObject [
     (''event_id'', JString (pf_uuid_string pf (se_event_id event))),
     (''tenant_id'', JString (pf_uuid_string pf (tenant_uuid (se_tenant_id event)))),
     (''aggregate_id'', JString (aggregate_string pf (se_aggregate_id event))),
     (''aggregate_type'', JString (se_aggregate_type event)),
     (''sequence_number'', ju64 (se_sequence_number event)),
     (''event_type'', JString (se_event_type event)),
     (''event_version'', ju32 (se_event_version event)),
     (''occurred_at'', JString (pf_to_rfc3339 pf (se_occurred_at event))),
     (''payload'', pj (se_payload event))]"

text \<open>The part of the body both listings share, and the response to a failed query.\<close>

definition page_json :: "Platform \<Rightarrow> ('j \<Rightarrow> Json) \<Rightarrow> 'j EventQueryResult \<Rightarrow> (string \<times> Json) list" where
  "page_json pf pj result =
     [(''events'', JArray (map (event_to_json pf pj) (qr_events result))),
      (''total'', ju64 (qr_total result)),
      (''pagination'', JObject [(''limit'', ju32 (pg_limit (qr_pagination result))),
         (''offset'', ju32 (pg_offset (qr_pagination result)))]),
      (''has_more'', JBool (qr_has_more result))]"

definition query_failed :: "string \<Rightarrow> EventStoreError \<Rightarrow> Response" where
  "query_failed what e = json_error INTERNAL_SERVER_ERROR ''query_failed'' (what @ show_store_error e)"

definition list_events ::
    "Platform \<Rightarrow> ('j \<Rightarrow> Json) \<Rightarrow> StreamKey list \<Rightarrow> TenantContext \<Rightarrow>
     PrincipalContext \<Rightarrow> EventListQuery \<Rightarrow> 'j AppServices \<Rightarrow> Response" where
  "list_events pf pj keys tenant prin query services =
    (case guard pf tenant prin ''admin.users.read'' of
       Inl response \<Rightarrow> response
     | Inr _ \<Rightarrow>
         (let aggregate_id = Option.bind (elq_aggregate_id query) (\<lambda>s. map_option AggregateId (pf_parse_uuid pf s));
              event_filter = \<lparr> ef_aggregate_id = aggregate_id, ef_aggregate_type = elq_aggregate_type query,
                ef_event_type = elq_event_type query, ef_occurred_after = elq_occurred_after query,
                ef_occurred_before = elq_occurred_before query \<rparr>;
              pagination = pagination_new (elq_limit query) (elq_offset query)
          in case query_events keys (sv_event_store services) (tc_tenant_id tenant) event_filter pagination of
               Inr result \<Rightarrow> respond OK (page_json pf pj result)
             | Inl e \<Rightarrow> query_failed ''Failed to query events: '' e))"

definition get_aggregate_events_route ::
    "Platform \<Rightarrow> ('j \<Rightarrow> Json) \<Rightarrow> TenantContext \<Rightarrow> PrincipalContext \<Rightarrow> string \<Rightarrow>
     EventListQuery \<Rightarrow> 'j AppServices \<Rightarrow> Response" where
  "get_aggregate_events_route pf pj tenant prin aggregate_id_str query services =
    (case and_then (guard pf tenant prin ''admin.users.read'')
            (\<lambda>_. parse_id pf aggregate_id_str ''invalid aggregate id'') of
       Inl response \<Rightarrow> response
     | Inr aggregate_id \<Rightarrow>
         (case get_aggregate_events (sv_event_store services) (tc_tenant_id tenant) aggregate_id
                 (Some (pagination_new (elq_limit query) (elq_offset query))) of
            Inr result \<Rightarrow> respond OK ((''aggregate_id'', JString aggregate_id_str) # page_json pf pj result)
          | Inl e \<Rightarrow> query_failed ''Failed to query events: '' e))"

definition get_event ::
    "Platform \<Rightarrow> ('j \<Rightarrow> Json) \<Rightarrow> StreamKey list \<Rightarrow> TenantContext \<Rightarrow>
     PrincipalContext \<Rightarrow> string \<Rightarrow> 'j AppServices \<Rightarrow> Response" where
  "get_event pf pj keys tenant prin event_id_str services =
    (case guard pf tenant prin ''admin.users.read'' of
       Inl response \<Rightarrow> response
     | Inr _ \<Rightarrow>
         (case pf_parse_uuid pf event_id_str of
            None \<Rightarrow> json_error BAD_REQUEST ''invalid_id'' ''invalid event id''
          | Some event_id \<Rightarrow>
              (case get_event_by_id keys (sv_event_store services) (tc_tenant_id tenant) event_id of
                 Inr (Some event) \<Rightarrow> \<lparr> rs_status = OK, rs_body = event_to_json pf pj event \<rparr>
               | Inr None \<Rightarrow> json_error NOT_FOUND ''not_found'' ''event not found''
               | Inl e \<Rightarrow> query_failed ''Failed to query event: '' e)))"

subsection \<open>Identity and realtime stream\<close>

primrec principal_uuid :: "PrincipalId \<Rightarrow> uuid" where
  "principal_uuid (PrincipalId u) = u"

definition whoami :: "Platform \<Rightarrow> TenantContext \<Rightarrow> PrincipalContext \<Rightarrow> Response" where
  "whoami pf tenant prin = respond OK
     [(''tenant_id'', JString (pf_uuid_string pf (tenant_uuid (tc_tenant_id tenant)))),
      (''principal_id'', JString (pf_uuid_string pf (principal_uuid (pctx_principal_id prin)))),
      (''roles'', JArray (map (\<lambda>r. JString (role_str r)) (pctx_roles prin)))]"

text \<open>The server-sent events of \<^verbatim>\<open>tenant_sse_stream\<close> for the messages a receiver gets: topic and
  payload of those of its tenant.\<close>

definition tenant_sse_stream :: "TenantId \<Rightarrow> RealtimeMessage list \<Rightarrow> (string \<times> Json) list" where
  "tenant_sse_stream tenant_id msgs =
     List.map_filter (\<lambda>m. if rm_tenant_id m = tenant_id then Some (rm_topic m, rm_payload m) else None) msgs"

end
