(* ===== verification/Api_Routes.thy ===== *)
theory Api_Routes
  imports Api_Core
begin

text \<open>
  The command routes (\<^verbatim>\<open>api/src/app/routes/\<close>: inventory, products, customers and suppliers, sales,
  invoices, purchases, ledger, admin users).  Each definition follows its handler up to the common
  end (\<^verbatim>\<open>run_command\<close>); \<^verbatim>\<open>serve\<close> is the routing table.  A request carries the path and the decoded body.
\<close>

subsection \<open>Inventory\<close>

abbreviation empty_item :: "TenantId \<Rightarrow> AggregateId \<Rightarrow> InventoryItem" where
  "empty_item \<equiv> (\<lambda>_ a. item_empty (InventoryItemId a))"

definition create_item ::
    "Platform \<Rightarrow> 'j Serdes \<Rightarrow> Fresh \<Rightarrow> TenantContext \<Rightarrow> PrincipalContext \<Rightarrow> CreateItemRequest \<Rightarrow>
     'j AppServices \<Rightarrow> 'j AppServices \<times> Response" where
  "create_item pf sz fr tenant prin body =
    (let agg = AggregateId (fr_id fr);
         cmd = CreateItem \<lparr> ci_tenant_id = tc_tenant_id tenant, ci_item_id = InventoryItemId agg,
                 ci_name = cir_name body, ci_occurred_at = fr_now fr 0 \<rparr>
     in run_command pf inventory_ops (sz_inventory sz) (fr_event_ids fr 0) tenant prin
          ''inventory.items.create'' agg ''inventory.item'' cmd empty_item (committed_reply pf CREATED agg))"

definition adjust_stock ::
    "Platform \<Rightarrow> 'j Serdes \<Rightarrow> Fresh \<Rightarrow> TenantContext \<Rightarrow> PrincipalContext \<Rightarrow> string \<Rightarrow> AdjustStockRequest \<Rightarrow>
     'j AppServices \<Rightarrow> 'j AppServices \<times> Response" where
  "adjust_stock pf sz fr tenant prin path_id body services =
    (case parse_id pf path_id ''invalid item id'' of
       Inl response \<Rightarrow> (services, response)
     | Inr agg \<Rightarrow>
         (let cmd = AdjustStock \<lparr> as_tenant_id = tc_tenant_id tenant, as_item_id = InventoryItemId agg,
                      as_delta = asr_delta body, as_occurred_at = fr_now fr 0 \<rparr>
          in run_command pf inventory_ops (sz_inventory sz) (fr_event_ids fr 0) tenant prin
               ''inventory.items.adjust'' agg ''inventory.item'' cmd empty_item
               (\<lambda>committed. respond OK
                  [(''id'', JString (aggregate_string pf agg)),
                   (''events_committed'', JNumber (int (length committed))),
                   (''stream_version'', ju64 (if committed = [] then 0 else se_sequence_number (last committed)))])
               services))"

subsection \<open>Products\<close>

abbreviation empty_product :: "TenantId \<Rightarrow> AggregateId \<Rightarrow> Product" where
  "empty_product \<equiv> (\<lambda>_ a. product_empty (ProductId a))"

definition create_product ::
    "Platform \<Rightarrow> 'j Serdes \<Rightarrow> Fresh \<Rightarrow> TenantContext \<Rightarrow> PrincipalContext \<Rightarrow> CreateProductRequest \<Rightarrow>
     'j AppServices \<Rightarrow> 'j AppServices \<times> Response" where
  "create_product pf sz fr tenant prin body =
    (let agg = AggregateId (fr_id fr);
         cmd = CreateProduct \<lparr> cp_tenant_id = tc_tenant_id tenant, cp_product_id = ProductId agg,
                 cp_sku = cpr_sku body, cp_name = cpr_name body, cp_pricing = cpr_pricing body,
                 cp_occurred_at = fr_now fr 0 \<rparr>
     in run_command pf product_ops (sz_product sz) (fr_event_ids fr 0) tenant prin
          ''products.create'' agg ''products.product'' cmd empty_product (committed_reply pf CREATED agg))"

definition activate_product ::
    "Platform \<Rightarrow> 'j Serdes \<Rightarrow> Fresh \<Rightarrow> TenantContext \<Rightarrow> PrincipalContext \<Rightarrow> string \<Rightarrow>
     'j AppServices \<Rightarrow> 'j AppServices \<times> Response" where
  "activate_product pf sz fr tenant prin path_id services =
    (case parse_id pf path_id ''invalid product id'' of
       Inl response \<Rightarrow> (services, response)
     | Inr agg \<Rightarrow>
         run_command pf product_ops (sz_product sz) (fr_event_ids fr 0) tenant prin
           ''products.activate'' agg ''products.product''
           (ActivateProduct \<lparr> acp_tenant_id = tc_tenant_id tenant, acp_product_id = ProductId agg,
              acp_occurred_at = fr_now fr 0 \<rparr>)
           empty_product (committed_reply pf OK agg) services)"

definition archive_product ::
    "Platform \<Rightarrow> 'j Serdes \<Rightarrow> Fresh \<Rightarrow> TenantContext \<Rightarrow> PrincipalContext \<Rightarrow> string \<Rightarrow>
     'j AppServices \<Rightarrow> 'j AppServices \<times> Response" where
  "archive_product pf sz fr tenant prin path_id services =
    (case parse_id pf path_id ''invalid product id'' of
       Inl response \<Rightarrow> (services, response)
     | Inr agg \<Rightarrow>
         run_command pf product_ops (sz_product sz) (fr_event_ids fr 0) tenant prin
           ''products.archive'' agg ''products.product''
           (ArchiveProduct \<lparr> arp_tenant_id = tc_tenant_id tenant, arp_product_id = ProductId agg,
              arp_occurred_at = fr_now fr 0 \<rparr>)
           empty_product (committed_reply pf OK agg) services)"

subsection \<open>Customers and suppliers\<close>

text \<open>The two files differ in the party kind, the permission and the rendered kind.\<close>

abbreviation empty_party :: "TenantId \<Rightarrow> AggregateId \<Rightarrow> Party" where
  "empty_party \<equiv> (\<lambda>_ a. party_empty (PartyId a))"

primrec party_routes :: "PartyKind \<Rightarrow> string" where
  "party_routes Customer = ''customers''"
| "party_routes Supplier = ''suppliers''"

definition parties_get :: "'j AppServices \<Rightarrow> TenantId \<Rightarrow> PartyId \<Rightarrow> PartyReadModel option" where
  "parties_get services tenant_id party_id = ts_get (pj_store (sv_parties_projection services)) tenant_id party_id"

definition register_party ::
    "Platform \<Rightarrow> 'j Serdes \<Rightarrow> Fresh \<Rightarrow> TenantContext \<Rightarrow> PrincipalContext \<Rightarrow> PartyKind \<Rightarrow> string \<Rightarrow>
     RegisterPartyRequest \<Rightarrow> 'j AppServices \<Rightarrow> 'j AppServices \<times> Response" where
  "register_party pf sz fr tenant prin kind perm body =
    (let agg = AggregateId (fr_id fr);
         cmd = RegisterParty \<lparr> rp_tenant_id = tc_tenant_id tenant, rp_party_id = PartyId agg, rp_kind = kind,
                 rp_name = rpr_name body, rp_contact = rpr_contact body, rp_occurred_at = fr_now fr 0 \<rparr>
     in run_command pf party_ops (sz_party sz) (fr_event_ids fr 0) tenant prin perm agg ''parties.party''
          cmd empty_party (\<lambda>committed. respond CREATED
            [(''id'', JString (aggregate_string pf agg)), (''kind'', JString (party_kind_string kind)),
             (''events_committed'', JNumber (int (length committed)))]))"

definition kind_guard :: "'j AppServices \<Rightarrow> TenantContext \<Rightarrow> AggregateId \<Rightarrow> PartyKind \<Rightarrow> Response + unit" where
  "kind_guard services tenant agg kind =
    (case parties_get services (tc_tenant_id tenant) (PartyId agg) of
       Some rm \<Rightarrow> if pyr_kind rm \<noteq> kind then Inl (json_error NOT_FOUND ''not_found'' ''party not found'') else Inr ()
     | None \<Rightarrow> Inr ())"

definition update_party ::
    "Platform \<Rightarrow> 'j Serdes \<Rightarrow> Fresh \<Rightarrow> TenantContext \<Rightarrow> PrincipalContext \<Rightarrow> string \<Rightarrow> UpdatePartyRequest \<Rightarrow>
     PartyKind \<Rightarrow> string \<Rightarrow> 'j AppServices \<Rightarrow> 'j AppServices \<times> Response" where
  "update_party pf sz fr tenant prin path_id body kind perm services =
    (case and_then (parse_id pf path_id ''invalid party id'') (\<lambda>agg.
            and_then (kind_guard services tenant agg kind) (\<lambda>_. Inr agg)) of
       Inl response \<Rightarrow> (services, response)
     | Inr agg \<Rightarrow>
         run_command pf party_ops (sz_party sz) (fr_event_ids fr 0) tenant prin perm agg ''parties.party''
           (UpdateDetails \<lparr> ud_tenant_id = tc_tenant_id tenant, ud_party_id = PartyId agg,
              ud_name = upr_name body, ud_contact = upr_contact body, ud_occurred_at = fr_now fr 0 \<rparr>)
           empty_party (committed_reply pf OK agg) services)"

definition suspend_party ::
    "Platform \<Rightarrow> 'j Serdes \<Rightarrow> Fresh \<Rightarrow> TenantContext \<Rightarrow> PrincipalContext \<Rightarrow> string \<Rightarrow> SuspendPartyRequest \<Rightarrow>
     PartyKind \<Rightarrow> string \<Rightarrow> 'j AppServices \<Rightarrow> 'j AppServices \<times> Response" where
  "suspend_party pf sz fr tenant prin path_id body kind perm services =
    (case and_then (parse_id pf path_id ''invalid party id'') (\<lambda>agg.
            and_then (kind_guard services tenant agg kind) (\<lambda>_. Inr agg)) of
       Inl response \<Rightarrow> (services, response)
     | Inr agg \<Rightarrow>
         run_command pf party_ops (sz_party sz) (fr_event_ids fr 0) tenant prin perm agg ''parties.party''
           (SuspendParty \<lparr> sp_tenant_id = tc_tenant_id tenant, sp_party_id = PartyId agg,
              sp_reason = spr_reason body, sp_occurred_at = fr_now fr 0 \<rparr>)
           empty_party (committed_reply pf OK agg) services)"

subsection \<open>Sales orders\<close>

abbreviation empty_sales_order :: "TenantId \<Rightarrow> AggregateId \<Rightarrow> SalesOrder" where
  "empty_sales_order \<equiv> (\<lambda>_ a. sales_order_empty (SalesOrderId a))"

definition create_sales_order ::
    "Platform \<Rightarrow> 'j Serdes \<Rightarrow> Fresh \<Rightarrow> TenantContext \<Rightarrow> PrincipalContext \<Rightarrow>
     'j AppServices \<Rightarrow> 'j AppServices \<times> Response" where
  "create_sales_order pf sz fr tenant prin =
    (let agg = AggregateId (fr_id fr);
         cmd = CreateSalesOrder \<lparr> cso_tenant_id = tc_tenant_id tenant, cso_order_id = SalesOrderId agg,
                 cso_occurred_at = fr_now fr 0 \<rparr>
     in run_command pf sales_ops (sz_sales sz) (fr_event_ids fr 0) tenant prin
          ''sales.orders.create'' agg ''sales.order'' cmd empty_sales_order (committed_reply pf CREATED agg))"

definition add_sales_order_line ::
    "Platform \<Rightarrow> 'j Serdes \<Rightarrow> Fresh \<Rightarrow> TenantContext \<Rightarrow> PrincipalContext \<Rightarrow> string \<Rightarrow>
     CreateSalesOrderLineRequest \<Rightarrow> 'j AppServices \<Rightarrow> 'j AppServices \<times> Response" where
  "add_sales_order_line pf sz fr tenant prin path_id body services =
    (case and_then (parse_id pf path_id ''invalid order id'') (\<lambda>agg.
            and_then (parse_id pf (slq_product_id body) ''invalid product id'') (\<lambda>product_agg.
              Inr (agg, product_agg))) of
       Inl response \<Rightarrow> (services, response)
     | Inr (agg, product_agg) \<Rightarrow>
         run_command pf sales_ops (sz_sales sz) (fr_event_ids fr 0) tenant prin
           ''sales.orders.add_line'' agg ''sales.order''
           (SalesOrderCommand.AddLine \<lparr> al_tenant_id = tc_tenant_id tenant, al_order_id = SalesOrderId agg,
              al_product_id = ProductId product_agg, al_quantity = slq_quantity body,
              al_unit_price = slq_unit_price body, al_occurred_at = fr_now fr 0 \<rparr>)
           empty_sales_order (committed_reply pf OK agg) services)"

definition confirm_sales_order ::
    "Platform \<Rightarrow> 'j Serdes \<Rightarrow> Fresh \<Rightarrow> TenantContext \<Rightarrow> PrincipalContext \<Rightarrow> string \<Rightarrow>
     'j AppServices \<Rightarrow> 'j AppServices \<times> Response" where
  "confirm_sales_order pf sz fr tenant prin path_id services =
    (case parse_id pf path_id ''invalid order id'' of
       Inl response \<Rightarrow> (services, response)
     | Inr agg \<Rightarrow>
         run_command pf sales_ops (sz_sales sz) (fr_event_ids fr 0) tenant prin
           ''sales.orders.confirm'' agg ''sales.order''
           (ConfirmOrder \<lparr> cfo_tenant_id = tc_tenant_id tenant, cfo_order_id = SalesOrderId agg,
              cfo_occurred_at = fr_now fr 0 \<rparr>)
           empty_sales_order (committed_reply pf OK agg) services)"

definition mark_sales_order_invoiced ::
    "Platform \<Rightarrow> 'j Serdes \<Rightarrow> Fresh \<Rightarrow> TenantContext \<Rightarrow> PrincipalContext \<Rightarrow> string \<Rightarrow>
     'j AppServices \<Rightarrow> 'j AppServices \<times> Response" where
  "mark_sales_order_invoiced pf sz fr tenant prin path_id services =
    (case parse_id pf path_id ''invalid order id'' of
       Inl response \<Rightarrow> (services, response)
     | Inr agg \<Rightarrow>
         run_command pf sales_ops (sz_sales sz) (fr_event_ids fr 0) tenant prin
           ''sales.orders.mark_invoiced'' agg ''sales.order''
           (MarkInvoiced \<lparr> mi_tenant_id = tc_tenant_id tenant, mi_order_id = SalesOrderId agg,
              mi_occurred_at = fr_now fr 0 \<rparr>)
           empty_sales_order (committed_reply pf OK agg) services)"

subsection \<open>Invoices\<close>

abbreviation empty_invoice :: "TenantId \<Rightarrow> AggregateId \<Rightarrow> Invoice" where
  "empty_invoice \<equiv> (\<lambda>_ a. invoice_empty (InvoiceId a))"

text \<open>The loop over the requested lines; \<^verbatim>\<open>idx as u32\<close> wraps.\<close>

primrec invoice_lines ::
    "Platform \<Rightarrow> SalesOrderId \<Rightarrow> nat \<Rightarrow> CreateSalesOrderLineRequest list \<Rightarrow> Response + InvoiceLine list" where
  "invoice_lines pf sales_order_id idx [] = Inr []"
| "invoice_lines pf sales_order_id idx (l # ls) =
    and_then (parse_id pf (slq_product_id l) ''invalid product id'') (\<lambda>prod_agg.
    and_then (invoice_lines pf sales_order_id (Suc idx) ls) (\<lambda>lines.
      Inr (\<lparr> il_line_no = of_nat idx + 1, il_sales_order_id = sales_order_id,
             il_product_id = ProductId prod_agg, il_quantity = slq_quantity l,
             il_unit_price = slq_unit_price l \<rparr> # lines)))"

definition issue_invoice ::
    "Platform \<Rightarrow> 'j Serdes \<Rightarrow> Fresh \<Rightarrow> TenantContext \<Rightarrow> PrincipalContext \<Rightarrow> IssueInvoiceRequest \<Rightarrow>
     'j AppServices \<Rightarrow> 'j AppServices \<times> Response" where
  "issue_invoice pf sz fr tenant prin body services =
    (case and_then (parse_id pf (iir_sales_order_id body) ''invalid sales_order_id'') (\<lambda>sales_order_agg.
          and_then (case pf_parse_rfc3339 pf (iir_due_date body) of
                      Some dt \<Rightarrow> Inr dt
                    | None \<Rightarrow> Inl (json_error BAD_REQUEST ''invalid_due_date'' ''due_date must be RFC3339'')) (\<lambda>due_date.
          and_then (invoice_lines pf (SalesOrderId sales_order_agg) 0 (iir_lines body)) (\<lambda>lines.
            Inr (sales_order_agg, due_date, lines)))) of
       Inl response \<Rightarrow> (services, response)
     | Inr (sales_order_agg, due_date, lines) \<Rightarrow>
         (let invoice_agg = AggregateId (fr_id fr);
              cmd = IssueInvoice \<lparr> is_tenant_id = tc_tenant_id tenant, is_invoice_id = InvoiceId invoice_agg,
                      is_sales_order_id = SalesOrderId sales_order_agg, is_lines = lines,
                      is_due_date = due_date, is_occurred_at = fr_now fr 0 \<rparr>
          in run_command pf invoice_ops (sz_invoice sz) (fr_event_ids fr 0) tenant prin
               ''invoices.issue'' invoice_agg ''invoicing.invoice'' cmd empty_invoice
               (committed_reply pf CREATED invoice_agg) services))"

definition register_invoice_payment ::
    "Platform \<Rightarrow> 'j Serdes \<Rightarrow> Fresh \<Rightarrow> TenantContext \<Rightarrow> PrincipalContext \<Rightarrow> string \<Rightarrow> RegisterPaymentRequest \<Rightarrow>
     'j AppServices \<Rightarrow> 'j AppServices \<times> Response" where
  "register_invoice_payment pf sz fr tenant prin path_id body services =
    (case parse_id pf path_id ''invalid invoice id'' of
       Inl response \<Rightarrow> (services, response)
     | Inr agg \<Rightarrow>
         run_command pf invoice_ops (sz_invoice sz) (fr_event_ids fr 0) tenant prin
           ''invoices.pay'' agg ''invoicing.invoice''
           (RegisterPayment \<lparr> rpm_tenant_id = tc_tenant_id tenant, rpm_invoice_id = InvoiceId agg,
              rpm_amount = rpq_amount body, rpm_occurred_at = fr_now fr 0 \<rparr>)
           empty_invoice (committed_reply pf OK agg) services)"

definition void_invoice ::
    "Platform \<Rightarrow> 'j Serdes \<Rightarrow> Fresh \<Rightarrow> TenantContext \<Rightarrow> PrincipalContext \<Rightarrow> string \<Rightarrow> VoidInvoiceRequest \<Rightarrow>
     'j AppServices \<Rightarrow> 'j AppServices \<times> Response" where
  "void_invoice pf sz fr tenant prin path_id body services =
    (case parse_id pf path_id ''invalid invoice id'' of
       Inl response \<Rightarrow> (services, response)
     | Inr agg \<Rightarrow>
         run_command pf invoice_ops (sz_invoice sz) (fr_event_ids fr 0) tenant prin
           ''invoices.void'' agg ''invoicing.invoice''
           (VoidInvoice \<lparr> vi_tenant_id = tc_tenant_id tenant, vi_invoice_id = InvoiceId agg,
              vi_reason = vir_reason body, vi_occurred_at = fr_now fr 0 \<rparr>)
           empty_invoice (committed_reply pf OK agg) services)"

subsection \<open>Purchase orders\<close>

abbreviation empty_purchase_order :: "TenantId \<Rightarrow> AggregateId \<Rightarrow> PurchaseOrder" where
  "empty_purchase_order \<equiv> (\<lambda>_ a. purchase_order_empty (PurchaseOrderId a))"

text \<open>The lines of a new order are added one command at a time, after the order was created: the
  \<^verbatim>\<open>k\<close>-th line is the \<^verbatim>\<open>Suc k\<close>-th dispatch of the request.\<close>

primrec add_order_lines ::
    "Platform \<Rightarrow> 'j Serdes \<Rightarrow> Fresh \<Rightarrow> TenantContext \<Rightarrow> PrincipalContext \<Rightarrow> AggregateId \<Rightarrow> nat \<Rightarrow> nat \<Rightarrow>
     PurchaseOrderLineRequest list \<Rightarrow> 'j AppServices \<Rightarrow> 'j AppServices \<times> Response" where
  "add_order_lines pf sz fr tenant prin order_agg k committed_total [] services =
    (services, respond CREATED [(''id'', JString (aggregate_string pf order_agg)),
       (''events_committed'', JNumber (int committed_total))])"
| "add_order_lines pf sz fr tenant prin order_agg k committed_total (l # ls) services =
    (case and_then (parse_id pf (plq_product_id l) ''invalid product id'') (\<lambda>prod_agg.
            and_then (guard pf tenant prin ''purchases.orders.add_line'') (\<lambda>_. Inr prod_agg)) of
       Inl response \<Rightarrow> (services, response)
     | Inr prod_agg \<Rightarrow>
         dispatch_or_response pf purchase_ops (sz_purchase sz) (fr_event_ids fr (Suc k)) tenant order_agg
           ''purchasing.order''
           (PurchaseOrderCommand.AddLine \<lparr> pal_tenant_id = tc_tenant_id tenant,
              pal_order_id = PurchaseOrderId order_agg, pal_product_id = ProductId prod_agg,
              pal_quantity = plq_quantity l, pal_occurred_at = fr_now fr (Suc k) \<rparr>)
           empty_purchase_order
           (\<lambda>services committed. add_order_lines pf sz fr tenant prin order_agg (Suc k)
              (committed_total + length committed) ls services) services)"

definition create_purchase_order ::
    "Platform \<Rightarrow> 'j Serdes \<Rightarrow> Fresh \<Rightarrow> TenantContext \<Rightarrow> PrincipalContext \<Rightarrow> CreatePurchaseOrderRequest \<Rightarrow>
     'j AppServices \<Rightarrow> 'j AppServices \<times> Response" where
  "create_purchase_order pf sz fr tenant prin body services =
    (let order_agg = AggregateId (fr_id fr) in
     case and_then (parse_id pf (cpq_supplier_id body) ''invalid supplier_id'') (\<lambda>supplier_agg.
            and_then (guard pf tenant prin ''purchases.orders.create'') (\<lambda>_. Inr supplier_agg)) of
       Inl response \<Rightarrow> (services, response)
     | Inr supplier_agg \<Rightarrow>
         dispatch_or_response pf purchase_ops (sz_purchase sz) (fr_event_ids fr 0) tenant order_agg
           ''purchasing.order''
           (CreatePurchaseOrder \<lparr> cpo_tenant_id = tc_tenant_id tenant, cpo_order_id = PurchaseOrderId order_agg,
              cpo_supplier_id = PartyId supplier_agg, cpo_occurred_at = fr_now fr 0 \<rparr>)
           empty_purchase_order
           (\<lambda>services committed. add_order_lines pf sz fr tenant prin order_agg 0 (length committed)
              (cpq_lines body) services) services)"

definition add_purchase_order_line ::
    "Platform \<Rightarrow> 'j Serdes \<Rightarrow> Fresh \<Rightarrow> TenantContext \<Rightarrow> PrincipalContext \<Rightarrow> string \<Rightarrow>
     PurchaseOrderLineRequest \<Rightarrow> 'j AppServices \<Rightarrow> 'j AppServices \<times> Response" where
  "add_purchase_order_line pf sz fr tenant prin path_id body services =
    (case and_then (parse_id pf path_id ''invalid purchase order id'') (\<lambda>agg.
            and_then (parse_id pf (plq_product_id body) ''invalid product id'') (\<lambda>prod_agg.
              Inr (agg, prod_agg))) of
       Inl response \<Rightarrow> (services, response)
     | Inr (agg, prod_agg) \<Rightarrow>
         run_command pf purchase_ops (sz_purchase sz) (fr_event_ids fr 0) tenant prin
           ''purchases.orders.add_line'' agg ''purchasing.order''
           (PurchaseOrderCommand.AddLine \<lparr> pal_tenant_id = tc_tenant_id tenant,
              pal_order_id = PurchaseOrderId agg, pal_product_id = ProductId prod_agg,
              pal_quantity = plq_quantity body, pal_occurred_at = fr_now fr 0 \<rparr>)
           empty_purchase_order (committed_reply pf OK agg) services)"

definition approve_purchase_order ::
    "Platform \<Rightarrow> 'j Serdes \<Rightarrow> Fresh \<Rightarrow> TenantContext \<Rightarrow> PrincipalContext \<Rightarrow> string \<Rightarrow>
     'j AppServices \<Rightarrow> 'j AppServices \<times> Response" where
  "approve_purchase_order pf sz fr tenant prin path_id services =
    (case parse_id pf path_id ''invalid purchase order id'' of
       Inl response \<Rightarrow> (services, response)
     | Inr agg \<Rightarrow>
         run_command pf purchase_ops (sz_purchase sz) (fr_event_ids fr 0) tenant prin
           ''purchases.orders.approve'' agg ''purchasing.order''
           (Approve \<lparr> ap_tenant_id = tc_tenant_id tenant, ap_order_id = PurchaseOrderId agg,
              ap_occurred_at = fr_now fr 0 \<rparr>)
           empty_purchase_order (committed_reply pf OK agg) services)"

definition receive_purchase_order_goods ::
    "Platform \<Rightarrow> 'j Serdes \<Rightarrow> Fresh \<Rightarrow> TenantContext \<Rightarrow> PrincipalContext \<Rightarrow> string \<Rightarrow>
     'j AppServices \<Rightarrow> 'j AppServices \<times> Response" where
  "receive_purchase_order_goods pf sz fr tenant prin path_id services =
    (case parse_id pf path_id ''invalid purchase order id'' of
       Inl response \<Rightarrow> (services, response)
     | Inr agg \<Rightarrow>
         run_command pf purchase_ops (sz_purchase sz) (fr_event_ids fr 0) tenant prin
           ''purchases.orders.receive'' agg ''purchasing.order''
           (ReceiveGoods \<lparr> rg_tenant_id = tc_tenant_id tenant, rg_order_id = PurchaseOrderId agg,
              rg_occurred_at = fr_now fr 0 \<rparr>)
           empty_purchase_order (committed_reply pf OK agg) services)"

subsection \<open>Ledger\<close>

abbreviation empty_ledger :: "TenantId \<Rightarrow> AggregateId \<Rightarrow> Ledger" where
  "empty_ledger \<equiv> (\<lambda>_ a. ledger_empty (LedgerId a))"

definition post_journal_entry ::
    "Platform \<Rightarrow> 'j Serdes \<Rightarrow> Fresh \<Rightarrow> TenantContext \<Rightarrow> PrincipalContext \<Rightarrow> PostJournalEntryRequest \<Rightarrow>
     'j AppServices \<Rightarrow> 'j AppServices \<times> Response" where
  "post_journal_entry pf sz fr tenant prin body services =
    (if pjr_lines body = []
     then (services, json_error BAD_REQUEST ''validation'' ''journal entry must have lines'')
     else (case to_journal_lines pf (pjr_lines body) of
         Inl response \<Rightarrow> (services, response)
       | Inr lines \<Rightarrow>
           (let ledger_agg = sv_default_ledger_id services in
            run_command pf ledger_ops (sz_ledger sz) (fr_event_ids fr 0) tenant prin
              ''ledger.post'' ledger_agg ''accounting.ledger''
              (PostJournalEntry \<lparr> pj_tenant_id = tc_tenant_id tenant, pj_ledger_id = LedgerId ledger_agg,
                 pj_entry_id = fr_entry_id fr, pj_lines = lines, pj_occurred_at = fr_now fr 0,
                 pj_description = pjr_description body \<rparr>)
              empty_ledger
              (\<lambda>committed. respond OK [(''ledger_id'', JString (aggregate_string pf ledger_agg)),
                 (''events_committed'', JNumber (int (length committed)))]) services)))"

subsection \<open>Users\<close>

record CreateUserRequest =
  cur_email :: string
  cur_display_name :: string
  cur_initial_roles :: "string list option"

record AssignRoleRequest =
  arq_role :: string

record SuspendUserRequest =
  suq_reason :: "string option"

abbreviation new_user :: "TenantId \<Rightarrow> AggregateId \<Rightarrow> User" where
  "new_user \<equiv> (\<lambda>t a. user_new t (AuthUserId (aggregate_uuid a)))"

text \<open>The loop that refuses roles the actor does not hold.\<close>

primrec escalation_check :: "Role list \<Rightarrow> Role list \<Rightarrow> Response + unit" where
  "escalation_check actor_roles [] = Inr ()"
| "escalation_check actor_roles (role # roles) =
    (let actor_has_role = (\<exists>r \<in> set actor_roles. role_str r = role_str role) in
     if \<not> actor_has_role \<and> role_str role \<noteq> ''user''
     then Inl (json_error FORBIDDEN ''privilege_escalation''
       (''cannot assign role '' @ [CHR 39] @ role_str role @ [CHR 39] @ '' that you don'' @ [CHR 39] @ ''t have''))
     else escalation_check actor_roles roles)"

definition create_user ::
    "Platform \<Rightarrow> 'j Serdes \<Rightarrow> Fresh \<Rightarrow> TenantContext \<Rightarrow> PrincipalContext \<Rightarrow> CreateUserRequest \<Rightarrow>
     'j AppServices \<Rightarrow> 'j AppServices \<times> Response" where
  "create_user pf sz fr tenant prin body services =
    (let agg = AggregateId (fr_id fr);
         user_id = AuthUserId (aggregate_uuid agg);
         initial_roles = map Role (case cur_initial_roles body of Some rs \<Rightarrow> rs | None \<Rightarrow> []);
         actor_is_admin = (\<exists>r \<in> set (pctx_roles prin). role_str r = ''admin'')
     in case (if \<not> actor_is_admin then escalation_check (pctx_roles prin) initial_roles else Inr ()) of
          Inl response \<Rightarrow> (services, response)
        | Inr _ \<Rightarrow>
            run_command pf (user_ops (pf_to_lowercase pf)) (sz_user sz) (fr_event_ids fr 0) tenant prin
              ''admin.users.create'' agg ''auth.user''
              (Create \<lparr> cu_tenant_id = tc_tenant_id tenant, cu_user_id = user_id, cu_email = cur_email body,
                 cu_display_name = cur_display_name body, cu_initial_roles = initial_roles,
                 cu_occurred_at = fr_now fr 0 \<rparr>)
              new_user (committed_reply pf CREATED agg) services)"

text \<open>The other user routes share the parsing of the id, the dispatch and the reply, which repeats
  the id as it was given.\<close>

definition user_command ::
    "Platform \<Rightarrow> 'j Serdes \<Rightarrow> Fresh \<Rightarrow> TenantContext \<Rightarrow> PrincipalContext \<Rightarrow> string \<Rightarrow> string \<Rightarrow>
     (AuthUserId \<Rightarrow> UserCommand) \<Rightarrow> 'j AppServices \<Rightarrow> 'j AppServices \<times> Response" where
  "user_command pf sz fr tenant prin path_id perm cmd services =
    (case pf_parse_uuid pf path_id of
       None \<Rightarrow> (services, json_error BAD_REQUEST ''invalid_id'' ''invalid user id'')
     | Some u \<Rightarrow>
         run_command pf (user_ops (pf_to_lowercase pf)) (sz_user sz) (fr_event_ids fr 0) tenant prin
           perm (AggregateId u) ''auth.user'' (cmd (AuthUserId u)) new_user
           (\<lambda>committed. respond OK [(''id'', JString path_id),
              (''events_committed'', JNumber (int (length committed)))]) services)"

definition assign_role ::
    "Platform \<Rightarrow> 'j Serdes \<Rightarrow> Fresh \<Rightarrow> TenantContext \<Rightarrow> PrincipalContext \<Rightarrow> string \<Rightarrow> AssignRoleRequest \<Rightarrow>
     'j AppServices \<Rightarrow> 'j AppServices \<times> Response" where
  "assign_role pf sz fr tenant prin path_id body =
    user_command pf sz fr tenant prin path_id ''admin.users.assign_role'' (\<lambda>user_id.
      AssignRole \<lparr> ar_tenant_id = tc_tenant_id tenant, ar_user_id = user_id, ar_role = Role (arq_role body),
        ar_actor_roles = pctx_roles prin, ar_occurred_at = fr_now fr 0 \<rparr>)"

definition revoke_role ::
    "Platform \<Rightarrow> 'j Serdes \<Rightarrow> Fresh \<Rightarrow> TenantContext \<Rightarrow> PrincipalContext \<Rightarrow> string \<Rightarrow> string \<Rightarrow>
     'j AppServices \<Rightarrow> 'j AppServices \<times> Response" where
  "revoke_role pf sz fr tenant prin path_id role =
    user_command pf sz fr tenant prin path_id ''admin.users.revoke_role'' (\<lambda>user_id.
      RevokeRole \<lparr> rr_tenant_id = tc_tenant_id tenant, rr_user_id = user_id, rr_role = Role role,
        rr_occurred_at = fr_now fr 0 \<rparr>)"

definition suspend_user ::
    "Platform \<Rightarrow> 'j Serdes \<Rightarrow> Fresh \<Rightarrow> TenantContext \<Rightarrow> PrincipalContext \<Rightarrow> string \<Rightarrow> SuspendUserRequest \<Rightarrow>
     'j AppServices \<Rightarrow> 'j AppServices \<times> Response" where
  "suspend_user pf sz fr tenant prin path_id body =
    user_command pf sz fr tenant prin path_id ''admin.users.suspend'' (\<lambda>user_id.
      Suspend \<lparr> su_tenant_id = tc_tenant_id tenant, su_user_id = user_id,
        su_reason = (case suq_reason body of Some r \<Rightarrow> r | None \<Rightarrow> ''No reason provided''),
        su_occurred_at = fr_now fr 0 \<rparr>)"

definition activate_user ::
    "Platform \<Rightarrow> 'j Serdes \<Rightarrow> Fresh \<Rightarrow> TenantContext \<Rightarrow> PrincipalContext \<Rightarrow> string \<Rightarrow>
     'j AppServices \<Rightarrow> 'j AppServices \<times> Response" where
  "activate_user pf sz fr tenant prin path_id =
    user_command pf sz fr tenant prin path_id ''admin.users.activate'' (\<lambda>user_id.
      Activate \<lparr> au_tenant_id = tc_tenant_id tenant, au_user_id = user_id, au_occurred_at = fr_now fr 0 \<rparr>)"

subsection \<open>The routing table\<close>

datatype CommandRequest =
    PostInventoryItems CreateItemRequest
  | PostItemAdjust string AdjustStockRequest
  | PostProducts CreateProductRequest
  | PostProductActivate string
  | PostProductArchive string
  | PostParties PartyKind RegisterPartyRequest
  | PatchParty PartyKind string UpdatePartyRequest
  | PostPartySuspend PartyKind string SuspendPartyRequest
  | PostSalesOrders
  | PostSalesOrderLines string CreateSalesOrderLineRequest
  | PostSalesOrderConfirm string
  | PostSalesOrderMarkInvoiced string
  | PostInvoices IssueInvoiceRequest
  | PostInvoicePayments string RegisterPaymentRequest
  | PostInvoiceVoid string VoidInvoiceRequest
  | PostPurchaseOrders CreatePurchaseOrderRequest
  | PostPurchaseOrderLines string PurchaseOrderLineRequest
  | PostPurchaseOrderApprove string
  | PostPurchaseOrderReceive string
  | PostLedgerJournal PostJournalEntryRequest
  | PostUsers CreateUserRequest
  | PostUserRoles string AssignRoleRequest
  | DeleteUserRole string string
  | PostUserSuspend string SuspendUserRequest
  | PostUserActivate string

primrec serve ::
    "Platform \<Rightarrow> 'j Serdes \<Rightarrow> Fresh \<Rightarrow> TenantContext \<Rightarrow> PrincipalContext \<Rightarrow> CommandRequest \<Rightarrow>
     'j AppServices \<Rightarrow> 'j AppServices \<times> Response" where
  "serve pf sz fr tenant prin (PostInventoryItems body) = create_item pf sz fr tenant prin body"
| "serve pf sz fr tenant prin (PostItemAdjust i body) = adjust_stock pf sz fr tenant prin i body"
| "serve pf sz fr tenant prin (PostProducts body) = create_product pf sz fr tenant prin body"
| "serve pf sz fr tenant prin (PostProductActivate i) = activate_product pf sz fr tenant prin i"
| "serve pf sz fr tenant prin (PostProductArchive i) = archive_product pf sz fr tenant prin i"
| "serve pf sz fr tenant prin (PostParties kind body) =
     register_party pf sz fr tenant prin kind (party_routes kind @ ''.register'') body"
| "serve pf sz fr tenant prin (PatchParty kind i body) =
     update_party pf sz fr tenant prin i body kind (party_routes kind @ ''.update'')"
| "serve pf sz fr tenant prin (PostPartySuspend kind i body) =
     suspend_party pf sz fr tenant prin i body kind (party_routes kind @ ''.suspend'')"
| "serve pf sz fr tenant prin PostSalesOrders = create_sales_order pf sz fr tenant prin"
| "serve pf sz fr tenant prin (PostSalesOrderLines i body) = add_sales_order_line pf sz fr tenant prin i body"
| "serve pf sz fr tenant prin (PostSalesOrderConfirm i) = confirm_sales_order pf sz fr tenant prin i"
| "serve pf sz fr tenant prin (PostSalesOrderMarkInvoiced i) = mark_sales_order_invoiced pf sz fr tenant prin i"
| "serve pf sz fr tenant prin (PostInvoices body) = issue_invoice pf sz fr tenant prin body"
| "serve pf sz fr tenant prin (PostInvoicePayments i body) = register_invoice_payment pf sz fr tenant prin i body"
| "serve pf sz fr tenant prin (PostInvoiceVoid i body) = void_invoice pf sz fr tenant prin i body"
| "serve pf sz fr tenant prin (PostPurchaseOrders body) = create_purchase_order pf sz fr tenant prin body"
| "serve pf sz fr tenant prin (PostPurchaseOrderLines i body) = add_purchase_order_line pf sz fr tenant prin i body"
| "serve pf sz fr tenant prin (PostPurchaseOrderApprove i) = approve_purchase_order pf sz fr tenant prin i"
| "serve pf sz fr tenant prin (PostPurchaseOrderReceive i) = receive_purchase_order_goods pf sz fr tenant prin i"
| "serve pf sz fr tenant prin (PostLedgerJournal body) = post_journal_entry pf sz fr tenant prin body"
| "serve pf sz fr tenant prin (PostUsers body) = create_user pf sz fr tenant prin body"
| "serve pf sz fr tenant prin (PostUserRoles i body) = assign_role pf sz fr tenant prin i body"
| "serve pf sz fr tenant prin (DeleteUserRole i role) = revoke_role pf sz fr tenant prin i role"
| "serve pf sz fr tenant prin (PostUserSuspend i body) = suspend_user pf sz fr tenant prin i body"
| "serve pf sz fr tenant prin (PostUserActivate i) = activate_user pf sz fr tenant prin i"

end
