(* ===== verification/Concurrency.thy ===== *)
theory Concurrency
  imports Dispatcher
begin

text \<open>
  Concurrent command dispatchers over one event store.  Each call of \<^verbatim>\<open>dispatch\<close> reads
  and writes the store in two atomic operations (\<^verbatim>\<open>load_stream\<close> and \<^verbatim>\<open>append\<close> each run
  under the store's lock); any number of other calls may run in between.  The step relation
  below interleaves them arbitrarily, lets calls be abandoned between the two, and lets
  other parts of the system append to streams outside the set \<^verbatim>\<open>owned\<close>.

  The result is that optimistic concurrency works: in every reachable state each owned stream
  decodes to a history in which every batch was decided on exactly the events before it.
\<close>

subsection \<open>The system\<close>

type_synonym 'j in_flight = "nat \<rightharpoonup> 'j UncommittedEvent list \<times> ExpectedVersion"

inductive reach ::
    "('st \<Rightarrow> 'j UncommittedEvent list \<Rightarrow> ExpectedVersion \<Rightarrow>
        'st \<times> (EventStoreError + 'j StoredEvent list)) \<Rightarrow>
     ('st \<Rightarrow> TenantId \<Rightarrow> AggregateId \<Rightarrow> EventStoreError + 'j StoredEvent list) \<Rightarrow>
     ('s, 'e, 'c) AggregateOps \<Rightarrow> ('e, 'j) Serde \<Rightarrow> string \<Rightarrow> (TenantId \<Rightarrow> AggregateId \<Rightarrow> 's) \<Rightarrow>
     (TenantId \<times> AggregateId) set \<Rightarrow> 'st \<Rightarrow> 'st \<times> 'j in_flight \<Rightarrow> bool"
  for append_ev load agg sd ty mk owned s0 where
  reach_init: "reach append_ev load agg sd ty mk owned s0 (s0, Map.empty)"
| reach_prepare: "\<lbrakk> reach append_ev load agg sd ty mk owned s0 (s, fl); (t, a) \<in> owned;
      dispatch_prepare load agg sd new_id s t a ty cmd mk = Inr (us, ev) \<rbrakk>
    \<Longrightarrow> reach append_ev load agg sd ty mk owned s0 (s, fl(k \<mapsto> (us, ev)))"
| reach_commit: "\<lbrakk> reach append_ev load agg sd ty mk owned s0 (s, fl); fl k = Some (us, ev);
      append_ev s us ev = (s', r) \<rbrakk>
    \<Longrightarrow> reach append_ev load agg sd ty mk owned s0 (s', fl(k := None))"
| reach_abandon: "reach append_ev load agg sd ty mk owned s0 (s, fl)
    \<Longrightarrow> reach append_ev load agg sd ty mk owned s0 (s, fl(k := None))"
| reach_other: "\<lbrakk> reach append_ev load agg sd ty mk owned s0 (s, fl);
      us \<noteq> [] \<Longrightarrow> (ue_tenant_id (hd us), ue_aggregate_id (hd us)) \<notin> owned;
      append_ev s us ev = (s', r) \<rbrakk>
    \<Longrightarrow> reach append_ev load agg sd ty mk owned s0 (s', fl)"

text \<open>The stream of an owned aggregate, read as domain events, was decided.\<close>

definition stream_decided ::
    "('s, 'e, 'c) AggregateOps \<Rightarrow> ('e, 'j) Serde \<Rightarrow> 's \<Rightarrow> 'j StoredEvent list \<Rightarrow> bool" where
  "stream_decided agg sd init es \<longleftrightarrow>
     (\<exists>h. decodes sd es h \<and> decided (ao_apply agg) (ao_handle agg) init h)"

lemma stream_decided_Nil: "stream_decided agg sd init []"
  by (simp add: stream_decided_def decided_Nil)

text \<open>A batch in flight was decided on a snapshot \<^verbatim>\<open>es\<close>.\<close>

definition decided_on ::
    "('s, 'e, 'c) AggregateOps \<Rightarrow> ('e, 'j) Serde \<Rightarrow> string \<Rightarrow> 's \<Rightarrow> TenantId \<Rightarrow> AggregateId \<Rightarrow>
     'j StoredEvent list \<Rightarrow> 'j UncommittedEvent list \<times> ExpectedVersion \<Rightarrow> bool" where
  "decided_on agg sd ty init t a es p \<longleftrightarrow>
     (case p of (us, ev) \<Rightarrow> ev = Exact (current_version es) \<and> stream_ok t a es \<and>
        (\<exists>h c d. decodes sd es h \<and> ao_handle agg (foldl (ao_apply agg) init h) c = Inr d \<and>
           encodes sd t a ty d us))"

text \<open>A batch aims at one stream.\<close>

definition aims_at :: "'j UncommittedEvent list \<Rightarrow> TenantId \<Rightarrow> AggregateId \<Rightarrow> bool" where
  "aims_at us t a \<longleftrightarrow> (us \<noteq> [] \<longrightarrow> ue_tenant_id (hd us) = t \<and> ue_aggregate_id (hd us) = a)"

context event_store
begin

lemma append_grows:
  assumes "prefix es (stream s t a)" "append_ev s us ev = (s', r)"
  shows "prefix es (stream s' t a)"
  using append_prefix [of s us ev t a] assms by (auto simp: prefix_def)

lemma append_elsewhere:
  assumes "append_ev s us ev = (s', r)" "us = [] \<or> \<not> (ue_tenant_id (hd us) = t \<and> ue_aggregate_id (hd us) = a)"
  shows "stream s' t a = stream s t a"
proof (cases r)
  case (Inl err)
  then show ?thesis using append_error assms(1) by blast
next
  case (Inr es)
  show ?thesis
  proof (cases "us = []")
    case True
    then show ?thesis using assms(1) append_Nil by simp
  next
    case False
    then show ?thesis using append_stream [OF assms(1) [unfolded Inr] False, of t a] assms(2) by auto
  qed
qed

lemma prepare_aims:
  assumes "dispatch_prepare load agg sd new_id s t a ty cmd mk = Inr (us, ev)"
  shows "aims_at us t a"
  using assms encodes_hd unfolding aims_at_def by (elim dispatch_prepare_ok) blast

lemma prepare_decided_on:
  assumes "dispatch_prepare load agg sd new_id s t a ty cmd mk = Inr (us, ev)" "invar s"
    "length (stream s t a) < 2 ^ 64"
  shows "decided_on agg sd ty (mk t a) t a (stream s t a) (us, ev)"
proof -
  from assms(1) obtain history aggr d where l: "load s t a = Inr history"
    and h: "apply_history (ao_apply agg) (sd_from_value sd) (mk t a) history = Inr aggr"
      "ao_handle agg aggr cmd = Inr d" "encodes sd t a ty d us" "ev = Exact (stream_version history)"
    by (rule dispatch_prepare_ok)
  have "history = stream s t a" using l by (rule load_stream_abs)
  moreover have "stream_ok t a (stream s t a)" using assms(2) by (rule stream_wf)
  ultimately show ?thesis
    using h assms(3) unfolding decided_on_def
    by (auto simp: apply_history_ok [OF _ assms(3)] stream_version_eq)
qed

text \<open>A commit that succeeds found the stream where its snapshot was taken.\<close>

lemma commit_on_snapshot:
  assumes "append_ev s us ev = (s', Inr cs)" "us \<noteq> []" "aims_at us t a" "invar s"
    "decided_on agg sd ty init t a es (us, ev)" "prefix es (stream s t a)"
    "length (stream s t a) < 2 ^ 64"
  shows "es = stream s t a"
proof -
  have es: "stream_ok t a es" "ev = Exact (current_version es)"
    using assms(5) by (simp_all add: decided_on_def)
  have "length es \<le> length (stream s t a)" using assms(6) by (rule prefix_length_le)
  then have "length (stream s t a) = length es"
    using assms es by (intro append_exact_length [of s us es s' cs t a]) (simp_all add: aims_at_def)
  then show ?thesis using assms(6) by (auto simp: prefix_def)
qed

lemma commit_decided:
  assumes "append_ev s us ev = (s', Inr cs)" "us \<noteq> []" "aims_at us t a" "invar s"
    "decided_on agg sd ty init t a es (us, ev)" "prefix es (stream s t a)"
    "length (stream s t a) < 2 ^ 64" "serde_ok sd" "stream_decided agg sd init (stream s t a)"
  shows "stream_decided agg sd init (stream s' t a)"
proof -
  have es: "es = stream s t a" using assms(1-7) by (rule commit_on_snapshot)
  from assms(5) obtain h c d where d: "decodes sd es h"
    "ao_handle agg (foldl (ao_apply agg) init h) c = Inr d" "encodes sd t a ty d us"
    by (auto simp: decided_on_def)
  from assms(9) obtain h' where "decodes sd (stream s t a) h'"
    "decided (ao_apply agg) (ao_handle agg) init h'" by (auto simp: stream_decided_def)
  then have "decided (ao_apply agg) (ao_handle agg) init h"
    using decodes_unique d(1) es by metis
  then have "decided (ao_apply agg) (ao_handle agg) init (h @ d)"
    using d(2) by (rule decided_step)
  moreover have "decodes sd (es @ cs) (h @ d)"
    using d(1) encodes_decodes [OF d(3) assms(8)] append_committed [OF assms(1,2)]
    by (auto intro: decodes_append)
  moreover have "stream s' t a = es @ cs"
    using append_stream [OF assms(1,2), of t a] assms(2,3) es by (simp add: aims_at_def)
  ultimately show ?thesis unfolding stream_decided_def by metis
qed

lemma commit_step:
  assumes "append_ev s us ev = (s', r)" "aims_at us t a" "invar s" "serde_ok sd"
    "length (stream s t a) < 2 ^ 64 \<Longrightarrow>
       \<exists>es. prefix es (stream s t a) \<and> decided_on agg sd ty init t a es (us, ev)"
    "length (stream s t a) < 2 ^ 64 \<Longrightarrow> stream_decided agg sd init (stream s t a)"
    "length (stream s' t a) < 2 ^ 64"
  shows "stream_decided agg sd init (stream s' t a)"
proof -
  have "prefix (stream s t a) (stream s' t a)" using append_grows [OF _ assms(1)] by simp
  then have len: "length (stream s t a) < 2 ^ 64"
    using prefix_length_le assms(7) by fastforce
  show ?thesis
  proof (cases "\<exists>cs. r = Inr cs \<and> us \<noteq> []")
    case True
    then show ?thesis
      using assms commit_decided len by metis
  next
    case False
    then have "stream s' t a = stream s t a"
      using assms(1) append_error append_Nil by (cases r) fastforce+
    then show ?thesis using assms(6) len by simp
  qed
qed

definition system_inv ::
    "('m, 'e, 'c) AggregateOps \<Rightarrow> ('e, 'j) Serde \<Rightarrow> string \<Rightarrow> (TenantId \<Rightarrow> AggregateId \<Rightarrow> 'm) \<Rightarrow>
     (TenantId \<times> AggregateId) set \<Rightarrow> 's \<Rightarrow> 'j in_flight \<Rightarrow> bool" where
  "system_inv agg sd ty mk owned s fl \<longleftrightarrow>
     invar s \<and>
     (\<forall>t a. (t, a) \<in> owned \<and> length (stream s t a) < 2 ^ 64 \<longrightarrow>
        stream_decided agg sd (mk t a) (stream s t a)) \<and>
     (\<forall>k us ev. fl k = Some (us, ev) \<longrightarrow> (\<exists>t a. (t, a) \<in> owned \<and> aims_at us t a \<and>
        (length (stream s t a) < 2 ^ 64 \<longrightarrow>
          (\<exists>es. prefix es (stream s t a) \<and> decided_on agg sd ty (mk t a) t a es (us, ev)))))"

text \<open>Flights survive an append by someone else: the snapshot stays a prefix.\<close>

lemma flights_append:
  assumes "system_inv agg sd ty mk owned s fl" "append_ev s us' ev' = (s', r)" "fl k = Some (us, ev)"
  shows "\<exists>t a. (t, a) \<in> owned \<and> aims_at us t a \<and> (length (stream s' t a) < 2 ^ 64 \<longrightarrow>
      (\<exists>es. prefix es (stream s' t a) \<and> decided_on agg sd ty (mk t a) t a es (us, ev)))"
proof -
  obtain t a where ta: "(t, a) \<in> owned" "aims_at us t a" "length (stream s t a) < 2 ^ 64 \<longrightarrow>
      (\<exists>es. prefix es (stream s t a) \<and> decided_on agg sd ty (mk t a) t a es (us, ev))"
    using assms(1,3) unfolding system_inv_def by blast
  have "prefix (stream s t a) (stream s' t a)" using append_grows [OF _ assms(2)] by simp
  then have "length (stream s t a) \<le> length (stream s' t a)" by (rule prefix_length_le)
  then show ?thesis
    using ta append_grows [OF _ assms(2)] by (intro exI [of _ t] exI [of _ a]) auto
qed

lemma system_inv_append:
  assumes "system_inv agg sd ty mk owned s fl" "append_ev s us ev = (s', r)" "serde_ok sd"
    "fl k = Some (us, ev) \<or> (us \<noteq> [] \<longrightarrow> (ue_tenant_id (hd us), ue_aggregate_id (hd us)) \<notin> owned)"
  shows "system_inv agg sd ty mk owned s' fl"
proof -
  have inv: "invar s" using assms(1) by (simp add: system_inv_def)
  have "stream_decided agg sd (mk t a) (stream s' t a)"
    if ta: "(t, a) \<in> owned" "length (stream s' t a) < 2 ^ 64" for t a
  proof (cases "us \<noteq> [] \<and> ue_tenant_id (hd us) = t \<and> ue_aggregate_id (hd us) = a")
    case True
    then have fl: "fl k = Some (us, ev)" using assms(4) ta(1) by auto
    then obtain t1 a1 where *: "(t1, a1) \<in> owned" "aims_at us t1 a1"
      "length (stream s t1 a1) < 2 ^ 64 \<longrightarrow>
        (\<exists>es. prefix es (stream s t1 a1) \<and> decided_on agg sd ty (mk t1 a1) t1 a1 es (us, ev))"
      using assms(1) unfolding system_inv_def by blast
    have "t1 = t" "a1 = a" using * True by (simp_all add: aims_at_def)
    then show ?thesis
      using * ta assms(1) unfolding system_inv_def
      by (intro commit_step [OF assms(2) _ inv assms(3), of t a agg ty "mk t a"]) auto
  next
    case False
    then have same: "stream s' t a = stream s t a" by (intro append_elsewhere [OF assms(2)]) auto
    show ?thesis
      using ta assms(1) unfolding system_inv_def same by blast
  qed
  moreover have "invar s'" using append_invar [OF inv, of us ev] assms(2) by simp
  ultimately show ?thesis
    using flights_append [OF assms(1,2)] unfolding system_inv_def by blast
qed

lemma system_inv_drop:
  "system_inv agg sd ty mk owned s fl \<Longrightarrow> system_inv agg sd ty mk owned s (fl(k := None))"
  unfolding system_inv_def by (auto split: if_splits)

lemma system_inv_prepare:
  assumes "system_inv agg sd ty mk owned s fl" "(t, a) \<in> owned"
    "dispatch_prepare load agg sd new_id s t a ty cmd mk = Inr (us, ev)"
  shows "system_inv agg sd ty mk owned s (fl(k \<mapsto> (us, ev)))"
proof -
  have "invar s" using assms(1) by (simp add: system_inv_def)
  then have "\<exists>t a. (t, a) \<in> owned \<and> aims_at us t a \<and> (length (stream s t a) < 2 ^ 64 \<longrightarrow>
      (\<exists>es. prefix es (stream s t a) \<and> decided_on agg sd ty (mk t a) t a es (us, ev)))"
    using assms(2) prepare_aims [OF assms(3)] prepare_decided_on [OF assms(3)] by blast
  then show ?thesis using assms(1) unfolding system_inv_def by auto
qed

lemma reach_inv:
  assumes "reach append_ev load agg sd ty mk owned s0 x" "serde_ok sd" "invar s0"
    "\<forall>t a. (t, a) \<in> owned \<longrightarrow> stream_decided agg sd (mk t a) (stream s0 t a)"
  shows "system_inv agg sd ty mk owned (fst x) (snd x)"
  using assms
proof induction
  case reach_init
  then show ?case by (simp add: system_inv_def)
next
  case (reach_prepare s fl t a new_id cmd us ev k)
  then have "system_inv agg sd ty mk owned s (fl(k \<mapsto> (us, ev)))"
    by (intro system_inv_prepare) simp_all
  then show ?case by (simp only: fst_conv snd_conv)
next
  case (reach_commit s fl k us ev s' r)
  then have "system_inv agg sd ty mk owned s' fl"
    by (intro system_inv_append [of agg sd ty mk owned s fl us ev s' r k]) auto
  then show ?case by (simp only: fst_conv snd_conv system_inv_drop)
next
  case (reach_abandon s fl k)
  then show ?case by (simp only: fst_conv snd_conv system_inv_drop)
next
  case (reach_other s fl us ev s' r)
  then show ?case by (auto intro: system_inv_append)
qed

theorem reach_stream_decided:
  assumes "reach append_ev load agg sd ty mk owned s0 (s, fl)" "serde_ok sd" "invar s0"
    "\<forall>t a. (t, a) \<in> owned \<longrightarrow> stream_decided agg sd (mk t a) (stream s0 t a)"
    "(t, a) \<in> owned" "length (stream s t a) < 2 ^ 64"
  shows "stream_decided agg sd (mk t a) (stream s t a)"
  using reach_inv [OF assms(1-4)] assms(5,6) by (auto simp: system_inv_def)

end

end
