(* ===== verification/Api_Safety.thy ===== *)
theory Api_Safety
  imports Api_Routes Concurrency
begin

text \<open>
  What every command request does to the event store: it extends streams of its own tenant only, it
  does nothing without the permission its route requires, and a refused request leaves no trace
  (\<^verbatim>\<open>create_purchase_order\<close>, which dispatches several commands, apart).  Requests go through the
  authentication middleware (\<^verbatim>\<open>http_request\<close>).
\<close>

subsection \<open>Requests with credentials\<close>

text \<open>\<^verbatim>\<open>build_app\<close>: the protected routes behind the authentication middleware.\<close>

definition http_request ::
    "Platform \<Rightarrow> 'j Serdes \<Rightarrow> (string \<Rightarrow> datetime \<Rightarrow> TokenValidationError + JwtClaims) \<Rightarrow> datetime \<Rightarrow> Fresh \<Rightarrow>
     HeaderValue option \<Rightarrow> CommandRequest \<Rightarrow> 'j AppServices \<Rightarrow> 'j AppServices \<times> Response" where
  "http_request pf sz validate now fr authorization request services =
    (case auth_middleware validate now authorization of
       Inl status \<Rightarrow> (services, \<lparr> rs_status = status, rs_body = JNull \<rparr>)
     | Inr (tenant, prin) \<Rightarrow> serve pf sz fr tenant prin request services)"

subsection \<open>The effect of a dispatch\<close>

context dispatcher
begin

lemma dispatch_elsewhere:
  assumes "dispatch append_ev load publish show_err agg sd new_id (st, b) t a ty c mk = ((st', b'), r)"
    "\<not> (t' = t \<and> a' = a)"
  shows "stream st' t' a' = stream st t' a'"
proof (cases "dispatch_prepare load agg sd new_id st t a ty c mk")
  case (Inr p)
  obtain us ev where p: "p = (us, ev)" by fastforce
  note aims = es.prepare_aims [OF Inr [unfolded p]]
  show ?thesis
  proof (cases "us = []")
    case False
    then have "fst (append_ev st us ev) = st'"
      using assms(1) Inr p by (auto simp: dispatch_def dispatch_commit_def split: prod.splits sum.splits)
    then have "append_ev st us ev = (st', snd (append_ev st us ev))" by auto
    then show ?thesis using es.append_elsewhere aims False assms(2) by (force simp: aims_at_def)
  qed (use assms(1) Inr p in \<open>simp add: dispatch_def dispatch_commit_def\<close>)
qed (use assms(1) in \<open>simp add: dispatch_def\<close>)

lemma dispatch_grows:
  assumes "dispatch append_ev load publish show_err agg sd new_id (st, b) t a ty c mk = ((st', b'), r)"
  shows "prefix (stream st t' a') (stream st' t' a')"
proof (cases "dispatch_prepare load agg sd new_id st t a ty c mk")
  case (Inr p)
  obtain us ev where p: "p = (us, ev)" by fastforce
  show ?thesis
  proof (cases "us = []")
    case False
    then have "fst (append_ev st us ev) = st'"
      using assms(1) Inr p by (auto simp: dispatch_def dispatch_commit_def split: prod.splits sum.splits)
    then have "append_ev st us ev = (st', snd (append_ev st us ev))" by auto
    then show ?thesis using es.append_grows [OF prefix_order.refl] by blast
  qed (use assms(1) Inr p in \<open>simp add: dispatch_def dispatch_commit_def\<close>)
qed (use assms in \<open>simp add: dispatch_def\<close>)

end

subsection \<open>What requests may do\<close>

abbreviation streams :: "'j AppServices \<Rightarrow> TenantId \<Rightarrow> AggregateId \<Rightarrow> 'j StoredEvent list" where
  "streams s \<equiv> stream_of (sv_event_store s)"

definition commits :: "TenantId \<Rightarrow> 'j AppServices \<Rightarrow> 'j AppServices \<Rightarrow> bool" where
  "commits t s s' \<longleftrightarrow>
     (\<forall>t' a. t' \<noteq> t \<longrightarrow> streams s' t' a = streams s t' a) \<and>
     (\<forall>a. prefix (streams s t a) (streams s' t a)) \<and>
     s' = s\<lparr>sv_event_store := sv_event_store s', sv_event_bus := sv_event_bus s'\<rparr>"

definition unchanged :: "'j AppServices \<Rightarrow> 'j AppServices \<Rightarrow> bool" where
  "unchanged s s' \<longleftrightarrow> (\<forall>t a. streams s' t a = streams s t a) \<and> sv_event_bus s' = sv_event_bus s \<and>
     s' = s\<lparr>sv_event_store := sv_event_store s'\<rparr>"

lemma commits_refl [simp]: "commits t s s"
  by (simp add: commits_def)

lemma commits_trans:
  assumes "commits t s s1" "commits t s1 s2"
  shows "commits t s s2"
proof -
  have "prefix (streams s t a) (streams s2 t a)" for a
    using assms by (auto simp: commits_def intro: prefix_order.trans)
  moreover have "s2 = s\<lparr>sv_event_store := sv_event_store s2, sv_event_bus := sv_event_bus s2\<rparr>"
    using assms unfolding commits_def by (metis (no_types, lifting) AppServices.surjective AppServices.update_convs(1,2))
  ultimately show ?thesis using assms by (simp add: commits_def)
qed

lemma unchanged_refl [simp]: "unchanged s s"
  by (simp add: unchanged_def)

lemma services_dispatch_commits:
  assumes "services_dispatch agg sd new_id s t a ty c mk = (s', r)"
  shows "commits t s s'"
proof -
  obtain st' b' where d: "dispatch append_events load_stream bus_publish debug_bus_error agg sd new_id
      (sv_event_store s, sv_event_bus s) t a ty c mk = ((st', b'), r)"
    and s': "s' = s\<lparr>sv_event_store := st', sv_event_bus := b'\<rparr>"
    using assms by (auto simp: services_dispatch_def split: prod.splits)
  show ?thesis
    using in_memory_dispatcher.dispatch_elsewhere [OF d] in_memory_dispatcher.dispatch_grows [OF d]
    by (simp add: commits_def s')
qed

lemma services_dispatch_error:
  assumes "services_dispatch agg sd new_id s t a ty c mk = (s', Inl e)" "\<forall>msg. e \<noteq> DispatchError.Publish msg"
  shows "unchanged s s'"
proof -
  obtain st' b' where d: "dispatch append_events load_stream bus_publish debug_bus_error agg sd new_id
      (sv_event_store s, sv_event_bus s) t a ty c mk = ((st', b'), Inl e)"
    and s': "s' = s\<lparr>sv_event_store := st', sv_event_bus := b'\<rparr>"
    using assms(1) by (auto simp: services_dispatch_def split: prod.splits)
  show ?thesis
    using in_memory_dispatcher.dispatch_error [OF d] assms(2) by (auto simp: unchanged_def s')
qed

subsection \<open>Permissions\<close>

lemma json_error_status [simp]: "rs_status (json_error status code message) = status"
  by (simp add: json_error_def)

lemma respond_status [simp]: "rs_status (respond status body) = status"
  by simp

definition granted :: "PrincipalContext \<Rightarrow> string \<Rightarrow> bool" where
  "granted prin perm \<longleftrightarrow> Role ''admin'' \<in> set (pctx_roles prin) \<or>
     (\<exists>r \<in> set (pctx_roles prin). perm \<in> set (default_role_permissions (role_str r)))"

lemma guard_cases:
  obtains (allowed) "guard pf tenant prin perm = Inr ()"
  | (refused) response where "guard pf tenant prin perm = Inl response" "rs_status response = FORBIDDEN"
proof (cases "authorize_command (pf_iter pf) tenant prin [Permission perm]")
  case (Inl e)
  then show ?thesis
    by (intro refused [of "json_error FORBIDDEN ''forbidden'' (show_authz_error e)"]) (simp_all add: guard_def result_simps)
next
  case (Inr u)
  then show ?thesis by (intro allowed) (simp add: guard_def result_simps)
qed

lemma guard_granted:
  assumes "iter_ok (pf_iter pf)"
  shows "guard pf tenant prin perm = Inr () \<longleftrightarrow> granted prin perm"
  using authorize_command_grants [OF assms, of tenant prin "[Permission perm]"]
  by (auto simp: guard_def granted_def map_err_def split: sum.splits)

text \<open>The permission each route asks for.\<close>

primrec required_permission :: "CommandRequest \<Rightarrow> string" where
  "required_permission (PostInventoryItems _) = ''inventory.items.create''"
| "required_permission (PostItemAdjust _ _) = ''inventory.items.adjust''"
| "required_permission (PostProducts _) = ''products.create''"
| "required_permission (PostProductActivate _) = ''products.activate''"
| "required_permission (PostProductArchive _) = ''products.archive''"
| "required_permission (PostParties kind _) = party_routes kind @ ''.register''"
| "required_permission (PatchParty kind _ _) = party_routes kind @ ''.update''"
| "required_permission (PostPartySuspend kind _ _) = party_routes kind @ ''.suspend''"
| "required_permission PostSalesOrders = ''sales.orders.create''"
| "required_permission (PostSalesOrderLines _ _) = ''sales.orders.add_line''"
| "required_permission (PostSalesOrderConfirm _) = ''sales.orders.confirm''"
| "required_permission (PostSalesOrderMarkInvoiced _) = ''sales.orders.mark_invoiced''"
| "required_permission (PostInvoices _) = ''invoices.issue''"
| "required_permission (PostInvoicePayments _ _) = ''invoices.pay''"
| "required_permission (PostInvoiceVoid _ _) = ''invoices.void''"
| "required_permission (PostPurchaseOrders _) = ''purchases.orders.create''"
| "required_permission (PostPurchaseOrderLines _ _) = ''purchases.orders.add_line''"
| "required_permission (PostPurchaseOrderApprove _) = ''purchases.orders.approve''"
| "required_permission (PostPurchaseOrderReceive _) = ''purchases.orders.receive''"
| "required_permission (PostLedgerJournal _) = ''ledger.post''"
| "required_permission (PostUsers _) = ''admin.users.create''"
| "required_permission (PostUserRoles _ _) = ''admin.users.assign_role''"
| "required_permission (DeleteUserRole _ _) = ''admin.users.revoke_role''"
| "required_permission (PostUserSuspend _ _) = ''admin.users.suspend''"
| "required_permission (PostUserActivate _) = ''admin.users.activate''"

text \<open>What holds of the outcome of a route with permission \<^verbatim>\<open>perm\<close>; \<^verbatim>\<open>one\<close> says that the route dispatches
  one command.\<close>

definition route_ok ::
    "Platform \<Rightarrow> bool \<Rightarrow> TenantContext \<Rightarrow> PrincipalContext \<Rightarrow> string \<Rightarrow> 'j AppServices \<Rightarrow> 'j AppServices \<times> Response \<Rightarrow> bool" where
  "route_ok pf one tenant prin perm s out =
    (case out of (s', response) \<Rightarrow>
       commits (tc_tenant_id tenant) s s' \<and>
       (guard pf tenant prin perm \<noteq> Inr () \<longrightarrow> s' = s \<and> rs_status response \<in> {FORBIDDEN, BAD_REQUEST, NOT_FOUND}) \<and>
       (one \<and> rs_status response \<notin> {OK, CREATED, BAD_GATEWAY} \<longrightarrow> unchanged s s'))"

lemma route_ok_refused [simp]:
  "route_ok pf one tenant prin perm s (s, response) \<longleftrightarrow>
     guard pf tenant prin perm = Inr () \<or> rs_status response \<in> {FORBIDDEN, BAD_REQUEST, NOT_FOUND}"
  by (auto simp: route_ok_def)

lemma error_status:
  "rs_status (dispatch_error_to_response pf e) \<notin> {BAD_GATEWAY} \<Longrightarrow> \<forall>msg. e \<noteq> DispatchError.Publish msg"
  by (cases e) (simp_all add: dispatch_error_to_response_def)

lemma dispatch_or_response_ok:
  assumes "guard pf tenant prin perm = Inr ()"
    "\<And>s1 cs. services_dispatch agg sd new_id s (tc_tenant_id tenant) a ty cmd mk = (s1, Inr cs) \<Longrightarrow>
       commits (tc_tenant_id tenant) s s1 \<Longrightarrow>
       commits (tc_tenant_id tenant) s1 (fst (k s1 cs)) \<and> (one \<longrightarrow> rs_status (snd (k s1 cs)) \<in> {OK, CREATED})"
  shows "route_ok pf one tenant prin perm s (dispatch_or_response pf agg sd new_id tenant a ty cmd mk k s)"
proof -
  obtain s1 r where d: "services_dispatch agg sd new_id s (tc_tenant_id tenant) a ty cmd mk = (s1, r)"
    by fastforce
  note c = services_dispatch_commits [OF d]
  show ?thesis
  proof (cases r)
    case (Inl e)
    have "unchanged s s1" if "rs_status (dispatch_error_to_response pf e) \<noteq> BAD_GATEWAY"
      using services_dispatch_error [OF d [unfolded Inl]] error_status [of pf e] that by simp
    then show ?thesis
      using c assms(1) d Inl by (simp add: route_ok_def dispatch_or_response_def)
  next
    case (Inr cs)
    obtain s2 resp where k: "k s1 cs = (s2, resp)" by fastforce
    show ?thesis
      using assms(1) assms(2) [OF d [unfolded Inr] c] commits_trans [OF c] d Inr k
      by (auto simp: route_ok_def dispatch_or_response_def)
  qed
qed

lemma run_command_ok:
  assumes "\<And>cs. rs_status (reply cs) \<in> {OK, CREATED}"
  shows "route_ok pf one tenant prin perm s
    (run_command pf agg sd new_id tenant prin perm a ty cmd mk reply s)"
proof (cases rule: guard_cases [of pf tenant prin perm])
  case allowed
  moreover have "\<forall>cs. rs_status (reply cs) = OK \<or> rs_status (reply cs) = CREATED" using assms by auto
  ultimately show ?thesis by (auto simp: run_command_def intro!: dispatch_or_response_ok)
next
  case (refused response)
  then show ?thesis by (simp add: run_command_def)
qed

lemma committed_reply_status [simp]: "rs_status (committed_reply pf status a cs) = status"
  by (simp add: committed_reply_def)

lemma parse_id_error: "parse_id pf s m = Inl response \<Longrightarrow> rs_status response = BAD_REQUEST"
  by (auto simp: parse_id_def split: option.splits)

text \<open>Routes that parse their input first.\<close>

lemma parsed_route:
  assumes "\<And>response. parsed = Inl response \<Longrightarrow> rs_status response \<in> {FORBIDDEN, BAD_REQUEST, NOT_FOUND}"
    "\<And>x. parsed = Inr x \<Longrightarrow> route_ok pf one tenant prin perm s (k x)"
  shows "route_ok pf one tenant prin perm s (case parsed of Inl response \<Rightarrow> (s, response) | Inr x \<Rightarrow> k x)"
  using assms by (cases parsed) simp_all

lemma parse_errors:
  "and_then (parse_id pf i m) f = Inl response \<Longrightarrow>
     rs_status response = BAD_REQUEST \<or> (\<exists>a. f a = Inl response)"
  "invoice_lines pf so n ls = Inl response \<Longrightarrow> rs_status response = BAD_REQUEST"
  "to_journal_lines pf jls = Inl response \<Longrightarrow> rs_status response = BAD_REQUEST"
  "kind_guard s tenant a kind = Inl response \<Longrightarrow> rs_status response = NOT_FOUND"
  "escalation_check rs rs' = Inl response \<Longrightarrow> rs_status response = FORBIDDEN"
  subgoal by (auto simp: result_simps parse_id_error split: sum.splits)
  subgoal by (induction ls arbitrary: n) (auto simp: result_simps parse_id_error split: sum.splits)
  subgoal by (induction jls)
      (auto simp: result_simps parse_account_kind_def Let_def split: sum.splits if_splits)
  subgoal by (auto simp: kind_guard_def split: option.splits if_splits)
  subgoal by (induction rs') (auto simp: Let_def split: if_splits)
  done

lemma and_then_kept:
  "and_then r (\<lambda>x. Inr (f x)) = Inl response \<Longrightarrow> r = Inl response"
  by (cases r) (simp_all add: result_simps)

lemma add_order_lines_commits:
  "commits (tc_tenant_id tenant) s (fst (add_order_lines pf sz fr tenant prin a k n ls s))"
proof (induction ls arbitrary: k n s)
  case (Cons l ls)
  show ?case
  proof (cases "and_then (parse_id pf (plq_product_id l) ''invalid product id'') (\<lambda>prod_agg.
            and_then (guard pf tenant prin ''purchases.orders.add_line'') (\<lambda>_. Inr prod_agg))")
    case (Inr prod_agg)
    show ?thesis
      by (auto simp: Inr dispatch_or_response_def split: prod.splits sum.splits
          intro: services_dispatch_commits commits_trans [OF services_dispatch_commits Cons.IH])
  qed simp
qed simp

lemma serve_ok:
  "route_ok pf (case request of PostPurchaseOrders _ \<Rightarrow> False | _ \<Rightarrow> True) tenant prin (required_permission request) s
    (serve pf sz fr tenant prin request s)"
proof (cases request)
  case (PostPurchaseOrders body)
  let ?parsed = "and_then (parse_id pf (cpq_supplier_id body) ''invalid supplier_id'') (\<lambda>supplier_agg.
            and_then (guard pf tenant prin ''purchases.orders.create'') (\<lambda>_. Inr supplier_agg))"
  have "route_ok pf False tenant prin ''purchases.orders.create'' s (create_purchase_order pf sz fr tenant prin body s)"
    unfolding create_purchase_order_def Let_def
  proof (rule parsed_route)
    fix response assume "?parsed = Inl response"
    then show "rs_status response \<in> {FORBIDDEN, BAD_REQUEST, NOT_FOUND}"
      by (cases rule: guard_cases [of pf tenant prin "''purchases.orders.create''"])
        (auto simp: result_simps dest: parse_id_error)
  next
    fix supplier assume p: "?parsed = Inr supplier"
    have "guard pf tenant prin ''purchases.orders.create'' = Inr ()"
      by (cases rule: guard_cases [of pf tenant prin "''purchases.orders.create''"])
        (use p in \<open>auto simp: result_simps split: sum.splits\<close>)
    then show "route_ok pf False tenant prin ''purchases.orders.create'' s
      (dispatch_or_response pf purchase_ops (sz_purchase sz) (fr_event_ids fr 0) tenant (AggregateId (fr_id fr))
           ''purchasing.order''
           (CreatePurchaseOrder \<lparr> cpo_tenant_id = tc_tenant_id tenant, cpo_order_id = PurchaseOrderId (AggregateId (fr_id fr)),
              cpo_supplier_id = PartyId supplier, cpo_occurred_at = fr_now fr 0 \<rparr>)
           empty_purchase_order
           (\<lambda>services committed. add_order_lines pf sz fr tenant prin (AggregateId (fr_id fr)) 0 (length committed)
              (cpq_lines body) services) s)"
      by (rule dispatch_or_response_ok) (simp add: add_order_lines_commits)
  qed
  then show ?thesis by (simp add: PostPurchaseOrders)
qed (auto simp: create_item_def adjust_stock_def create_product_def activate_product_def archive_product_def
    register_party_def update_party_def suspend_party_def create_sales_order_def add_sales_order_line_def
    confirm_sales_order_def mark_sales_order_invoiced_def issue_invoice_def register_invoice_payment_def
    void_invoice_def add_purchase_order_line_def approve_purchase_order_def receive_purchase_order_goods_def
    post_journal_entry_def create_user_def assign_role_def revoke_role_def suspend_user_def activate_user_def
    user_command_def Let_def split_beta
    intro!: parsed_route run_command_ok dest!: parse_errors parse_id_error and_then_kept
    split: option.splits if_splits)

subsection \<open>Sequences of requests\<close>

text \<open>Several tenants work on the same services: whatever they ask, a tenant that asks nothing sees
  its streams unchanged.\<close>

locale tenant_requests =
  fixes handle :: "'r \<Rightarrow> 's \<Rightarrow> 's"
    and requester :: "'r \<Rightarrow> TenantId option"
    and stream :: "'s \<Rightarrow> TenantId \<Rightarrow> AggregateId \<Rightarrow> 'j StoredEvent list"
  assumes handle_isolated: "requester r \<noteq> Some t \<Longrightarrow> stream (handle r s) t a = stream s t a"
    and handle_grows: "prefix (stream s t a) (stream (handle r s) t a)"
begin

lemma requests_isolated:
  "\<forall>r \<in> set rs. requester r \<noteq> Some t \<Longrightarrow> stream (fold handle rs s) t a = stream s t a"
  by (induction rs arbitrary: s) (simp_all add: handle_isolated)

lemma requests_grow: "prefix (stream s t a) (stream (fold handle rs s) t a)"
  by (induction rs arbitrary: s) (auto intro: prefix_order.trans [OF handle_grows])

end

text \<open>A request as it arrives: its surroundings, its header and its content.\<close>

record Arrival =
  arv_now :: datetime
  arv_fresh :: Fresh
  arv_authorization :: "HeaderValue option"
  arv_request :: CommandRequest

definition arrive ::
    "Platform \<Rightarrow> 'j Serdes \<Rightarrow> (string \<Rightarrow> datetime \<Rightarrow> TokenValidationError + JwtClaims) \<Rightarrow> Arrival \<Rightarrow>
     'j AppServices \<Rightarrow> 'j AppServices" where
  "arrive pf sz validate r s = fst (http_request pf sz validate (arv_now r) (arv_fresh r)
     (arv_authorization r) (arv_request r) s)"

definition arrival_tenant ::
    "(string \<Rightarrow> datetime \<Rightarrow> TokenValidationError + JwtClaims) \<Rightarrow> Arrival \<Rightarrow> TenantId option" where
  "arrival_tenant validate r =
    (case auth_middleware validate (arv_now r) (arv_authorization r) of
       Inl _ \<Rightarrow> None
     | Inr (tenant, _) \<Rightarrow> Some (tc_tenant_id tenant))"

lemma serve_commits: "commits (tc_tenant_id tenant) s (fst (serve pf sz fr tenant prin request s))"
  using serve_ok [of pf request tenant prin s sz fr] by (simp add: route_ok_def split_beta)

lemma arrive_commits:
  "arrive pf sz validate r s = s \<or>
   (\<exists>t. arrival_tenant validate r = Some t \<and> commits t s (arrive pf sz validate r s))"
  by (auto simp: arrive_def http_request_def arrival_tenant_def serve_commits split: sum.splits)

interpretation http_api: tenant_requests "arrive pf sz validate" "arrival_tenant validate" streams
proof
  fix r t and s :: "'a AppServices" and a
  show "streams (arrive pf sz validate r s) t a = streams s t a" if "arrival_tenant validate r \<noteq> Some t"
    using arrive_commits [of pf sz validate r s] that by (auto simp: commits_def)
  show "prefix (streams s t a) (streams (arrive pf sz validate r s) t a)"
  proof (cases "arrival_tenant validate r = Some t")
    case True
    then show ?thesis using arrive_commits [of pf sz validate r s] by (auto simp: commits_def)
  next
    case False
    then show ?thesis using arrive_commits [of pf sz validate r s] by (auto simp: commits_def)
  qed
qed

subsection \<open>A concrete service\<close>

text \<open>Payloads are the inventory events themselves; the other aggregates do not serialise.\<close>

definition no_serde :: "('e, 'j) Serde" where
  "no_serde = \<lparr> sd_to_value = (\<lambda>_. Inl ''unsupported''), sd_from_value = (\<lambda>_. Inl ''unsupported'') \<rparr>"

definition sample_serdes :: "InventoryEvent Serdes" where
  "sample_serdes = \<lparr> sz_inventory = \<lparr> sd_to_value = Inr, sd_from_value = Inr \<rparr>, sz_product = no_serde,
     sz_party = no_serde, sz_sales = no_serde, sz_purchase = no_serde, sz_invoice = no_serde,
     sz_ledger = no_serde, sz_user = no_serde \<rparr>"

text \<open>Ids are written as decimal numbers.\<close>

definition sample_platform :: Platform where
  "sample_platform = \<lparr> pf_parse_uuid = (\<lambda>s. if s = ''42'' then Some 42 else None),
     pf_uuid_string = (\<lambda>u. show_nat (unat u)), pf_parse_rfc3339 = (\<lambda>_. None), pf_to_rfc3339 = show_int,
     pf_to_lowercase = id, pf_debug_store_error = (\<lambda>_. ''store error''), pf_iter = id \<rparr>"

definition sample_fresh :: Fresh where
  "sample_fresh = \<lparr> fr_id = 42, fr_entry_id = 43, fr_event_ids = (\<lambda>i j. 44), fr_now = int \<rparr>"

definition sample_services :: "InventoryEvent AppServices" where
  "sample_services = build_in_memory_services (AggregateId 5)"

definition sample_tenant :: TenantContext where
  "sample_tenant = \<lparr> tc_tenant_id = TenantId 1 \<rparr>"

definition principal_with :: "string \<Rightarrow> PrincipalContext" where
  "principal_with role = \<lparr> pctx_principal_id = PrincipalId 2, pctx_roles = [Role role] \<rparr>"

definition sample_validate :: "string \<Rightarrow> datetime \<Rightarrow> TokenValidationError + JwtClaims" where
  "sample_validate token now = Inr \<lparr> jc_sub = PrincipalId 2, jc_tenant_id = TenantId 1,
     jc_roles = [Role token], jc_issued_at = 0, jc_expires_at = 100 \<rparr>"

lemma sample_iter [simp]: "iter_ok (pf_iter sample_platform)"
  by (simp add: sample_platform_def iter_ok_def)

subsection \<open>Properties\<close>

text \<open>C7: tenant isolation and authorization of the whole command API.  Whatever request arrives with
  whatever credentials, it only extends streams of the tenant its valid token names; without valid
  claims, or when none of the token's roles is \<^verbatim>\<open>admin\<close> or grants the permission the route
  requires, nothing changes at all and the response is an error.\<close>

theorem api_requests_guarded:
  assumes "iter_ok (pf_iter pf)"
    "http_request pf sz validate now fr authorization request s = (s', response)"
  shows "case auth_middleware validate now authorization of
      Inl status \<Rightarrow> s' = s \<and> rs_status response = status
    | Inr (tenant, prin) \<Rightarrow>
        (\<forall>t a. t \<noteq> tc_tenant_id tenant \<longrightarrow> streams s' t a = streams s t a) \<and>
        (\<forall>a. prefix (streams s (tc_tenant_id tenant) a) (streams s' (tc_tenant_id tenant) a)) \<and>
        (\<not> granted prin (required_permission request) \<longrightarrow>
           s' = s \<and> rs_status response \<in> {FORBIDDEN, BAD_REQUEST, NOT_FOUND})"
proof (cases "auth_middleware validate now authorization")
  case (Inr tp)
  obtain tenant prin where tp: "tp = (tenant, prin)" by fastforce
  have "serve pf sz fr tenant prin request s = (s', response)"
    using assms(2) by (simp add: http_request_def Inr tp)
  then show ?thesis
    using serve_ok [of pf request tenant prin s sz fr] guard_granted [OF assms(1), of tenant prin]
    by (simp add: Inr tp route_ok_def commits_def)
qed (use assms(2) in \<open>auto simp: http_request_def\<close>)

theorem api_requests_guarded_witness:
  "fst (http_request sample_platform sample_serdes sample_validate 50 sample_fresh
     (Some (Str ''Bearer manager'')) (PostInventoryItems \<lparr> cir_name = ''bolt'' \<rparr>) sample_services) = sample_services"
proof -
  let ?r = "http_request sample_platform sample_serdes sample_validate 50 sample_fresh
     (Some (Str ''Bearer manager'')) (PostInventoryItems \<lparr> cir_name = ''bolt'' \<rparr>) sample_services"
  have "auth_middleware sample_validate 50 (Some (Str ''Bearer manager'')) =
      Inr (sample_tenant, principal_with ''manager'')" by code_simp
  moreover have "\<not> granted (principal_with ''manager'') (required_permission (PostInventoryItems \<lparr> cir_name = ''bolt'' \<rparr>))"
    by code_simp
  ultimately show ?thesis
    using api_requests_guarded [OF sample_iter, of sample_serdes sample_validate 50 sample_fresh
        "Some (Str ''Bearer manager'')" "PostInventoryItems \<lparr> cir_name = ''bolt'' \<rparr>" sample_services "fst ?r" "snd ?r"]
    by simp
qed

text \<open>C15: a request that is refused leaves no trace: when a route other than \<^verbatim>\<open>POST /purchases/orders\<close>
  answers with anything but success or a publication failure (502), every stream and the bus are as
  before.\<close>

theorem refused_requests_change_nothing:
  assumes "serve pf sz fr tenant prin request s = (s', response)"
    "rs_status response \<notin> {OK, CREATED, BAD_GATEWAY}" "\<forall>body. request \<noteq> PostPurchaseOrders body"
  shows "(\<forall>t a. streams s' t a = streams s t a) \<and> sv_event_bus s' = sv_event_bus s"
proof -
  have "(case request of PostPurchaseOrders _ \<Rightarrow> False | _ \<Rightarrow> True)"
    using assms(3) by (cases request) auto
  then show ?thesis
    using serve_ok [of pf request tenant prin s sz fr] assms(1,2) by (simp add: route_ok_def unchanged_def)
qed

theorem refused_requests_change_nothing_witness:
  "let r = serve sample_platform sample_serdes sample_fresh sample_tenant (principal_with ''admin'')
         (PostItemAdjust ''42'' \<lparr> asr_delta = 3 \<rparr>) sample_services
   in rs_status (snd r) = NOT_FOUND \<and> (\<forall>t a. streams (fst r) t a = streams sample_services t a)"
proof -
  let ?r = "serve sample_platform sample_serdes sample_fresh sample_tenant (principal_with ''admin'')
         (PostItemAdjust ''42'' \<lparr> asr_delta = 3 \<rparr>) sample_services"
  have "rs_status (snd ?r) = NOT_FOUND" by code_simp
  then show ?thesis
    using refused_requests_change_nothing [of sample_platform sample_serdes sample_fresh sample_tenant
        "principal_with ''admin''" "PostItemAdjust ''42'' \<lparr> asr_delta = 3 \<rparr>" sample_services "fst ?r" "snd ?r"]
    by (simp add: Let_def)
qed

text \<open>No default role but \<^verbatim>\<open>admin\<close> grants a permission that a command route requires.\<close>

lemma party_routes_case:
  "party_routes kind = (case kind of Customer \<Rightarrow> ''customers'' | Supplier \<Rightarrow> ''suppliers'')"
  by (cases kind) simp_all

lemma only_admin_granted:
  assumes "granted prin (required_permission request)"
  shows "Role ''admin'' \<in> set (pctx_roles prin)"
proof -
  have "required_permission request \<notin> set (default_role_permissions r)" if "r \<noteq> ''admin''" for r
    using that by (cases request) (simp_all add: default_role_permissions_def party_routes_case split: PartyKind.splits)
  then show ?thesis using assms unfolding granted_def by (metis Role.collapse)
qed

text \<open>With the default role mapping only administrators can change anything: a request whose
  principal does not have the role \<^verbatim>\<open>admin\<close> is refused by every command route, because no other role
  grants any of the permissions the routes ask for.\<close>

theorem only_admins_command:
  assumes "iter_ok (pf_iter pf)" "serve pf sz fr tenant prin request s = (s', response)"
    "Role ''admin'' \<notin> set (pctx_roles prin)"
  shows "s' = s \<and> rs_status response \<in> {FORBIDDEN, BAD_REQUEST, NOT_FOUND}"
proof -
  have "guard pf tenant prin (required_permission request) \<noteq> Inr ()"
    using only_admin_granted assms(3) guard_granted [OF assms(1)] by blast
  then show ?thesis
    using serve_ok [of pf request tenant prin s sz fr] assms(2) by (simp add: route_ok_def)
qed

theorem only_admins_command_witness:
  "fst (serve sample_platform sample_serdes sample_fresh sample_tenant (principal_with ''manager'')
     (PostInventoryItems \<lparr> cir_name = ''bolt'' \<rparr>) sample_services) = sample_services"
proof -
  let ?r = "serve sample_platform sample_serdes sample_fresh sample_tenant (principal_with ''manager'')
     (PostInventoryItems \<lparr> cir_name = ''bolt'' \<rparr>) sample_services"
  have "Role ''admin'' \<notin> set (pctx_roles (principal_with ''manager''))" by (simp add: principal_with_def)
  from only_admins_command [OF sample_iter _ this, of sample_serdes sample_fresh sample_tenant
      "PostInventoryItems \<lparr> cir_name = ''bolt'' \<rparr>" sample_services "fst ?r" "snd ?r"]
  show ?thesis by simp
qed

text \<open>An administrator's request is served.\<close>

lemma admin_creates_item:
  "rs_status (snd (serve sample_platform sample_serdes sample_fresh sample_tenant (principal_with ''admin'')
     (PostInventoryItems \<lparr> cir_name = ''bolt'' \<rparr>) sample_services)) = CREATED"
  by code_simp

end
