(* ===== verification/Services.thy ===== *)
theory Services
  imports Api_Reads Api_Safety
begin

text \<open>
  The running application (\<^verbatim>\<open>api/src/app/services.rs\<close>): the background subscriber that feeds the read
  models from the bus, and the system of requests and deliveries.  Requests are handled one at a
  time here.  The saga thread is in \<^verbatim>\<open>Saga_System\<close>; the AI runner the subscriber triggers is left out here.

  The lemmas follow what a request publishes and what the subscriber has processed; \<^verbatim>\<open>End_To_End\<close>
  draws the conclusion for the queries.
\<close>

subsection \<open>The subscriber\<close>

text \<open>Apply the envelope to the projections of its aggregate type; the flag is \<^verbatim>\<open>apply_ok.is_ok()\<close>.
  \<^verbatim>\<open>fresh\<close> is the id a row invents for an unknown partner.\<close>

definition apply_to_projections ::
    "'j Serdes \<Rightarrow> AggregateId \<Rightarrow> 'j AppServices \<Rightarrow> 'j EventEnvelope \<Rightarrow> 'j AppServices \<times> bool" where
  "apply_to_projections sz fresh services env =
    (let at = ee_aggregate_type env in
     if at = ''inventory.item'' then
       (case apply_envelope InMemoryCursorStore (sd_from_value (sz_inventory sz)) inventory_stock
               (sv_inventory_projection services) env of
          (p, r) \<Rightarrow> (services\<lparr>sv_inventory_projection := p\<rparr>, is_ok r))
     else if at = ''parties.party'' then
       (case apply_envelope InMemoryCursorStore (sd_from_value (sz_party sz)) party_directory
               (sv_parties_projection services) env of
          (p, r) \<Rightarrow> (services\<lparr>sv_parties_projection := p\<rparr>, is_ok r))
     else if at = ''products.product'' then
       (case apply_envelope InMemoryCursorStore (sd_from_value (sz_product sz)) product_catalog
               (sv_products_projection services) env of
          (p, r) \<Rightarrow> (services\<lparr>sv_products_projection := p\<rparr>, is_ok r))
     else if at = ''sales.order'' then
       (case apply_envelope InMemoryCursorStore (sd_from_value (sz_sales sz)) sales_orders
               (sv_sales_projection services) env of
          (p, r) \<Rightarrow> (services\<lparr>sv_sales_projection := p\<rparr>, is_ok r))
     else if at = ''invoicing.invoice'' then
       (case apply_envelope InMemoryCursorStore (sd_from_value (sz_invoice sz)) (invoices fresh)
               (sv_invoices_projection services) env of
          (p, r) \<Rightarrow>
            (let services = services\<lparr>sv_invoices_projection := p\<rparr> in
             if \<not> is_ok r then (services, False)
             else (case apply_envelope InMemoryCursorStore (sd_from_value (sz_invoice sz)) invoice_aging
                     (sv_ar_aging_projection services) env of
                (p, r) \<Rightarrow> (services\<lparr>sv_ar_aging_projection := p\<rparr>, is_ok r))))
     else if at = ''purchasing.order'' then
       (case apply_envelope InMemoryCursorStore (sd_from_value (sz_purchase sz)) (purchase_orders fresh)
               (sv_purchases_projection services) env of
          (p, r) \<Rightarrow> (services\<lparr>sv_purchases_projection := p\<rparr>, is_ok r))
     else if at = ''accounting.ledger'' then
       (case apply_envelope InMemoryCursorStore (sd_from_value (sz_ledger sz)) account_balances
               (sv_ledger_projection services) env of
          (p, r) \<Rightarrow> (services\<lparr>sv_ledger_projection := p\<rparr>, is_ok r))
     else if at = ''auth.user'' then
       (case users_apply_envelope (sd_from_value (sz_user sz)) (sv_users_projection services) env of
          (st, r) \<Rightarrow> (services\<lparr>sv_users_projection := st\<rparr>, is_ok r))
     else (services, True))"

definition projection_updated :: "Platform \<Rightarrow> 'j EventEnvelope \<Rightarrow> RealtimeMessage" where
  "projection_updated pf env = \<lparr> rm_tenant_id = ee_tenant_id env,
     rm_topic = ee_aggregate_type env @ ''.projection_updated'',
     rm_payload = JObject [(''kind'', JString ''projection_update''),
       (''aggregate_type'', JString (ee_aggregate_type env)),
       (''aggregate_id'', JString (aggregate_string pf (ee_aggregate_id env))),
       (''sequence_number'', ju64 (ee_sequence_number env))] \<rparr>"

definition process_envelope ::
    "Platform \<Rightarrow> 'j Serdes \<Rightarrow> AggregateId \<Rightarrow> 'j AppServices \<Rightarrow> 'j EventEnvelope \<Rightarrow> 'j AppServices" where
  "process_envelope pf sz fresh services env =
    (case apply_to_projections sz fresh services env of
       (services, apply_ok) \<Rightarrow>
         if \<not> apply_ok then services
         else services\<lparr>sv_realtime := sv_realtime services @ [projection_updated pf env]\<rparr>)"

text \<open>One turn of the subscriber's loop: it blocks when its queue is empty.\<close>

definition subscriber_turn ::
    "Platform \<Rightarrow> 'j Serdes \<Rightarrow> AggregateId \<Rightarrow> 'j AppServices \<Rightarrow> 'j AppServices" where
  "subscriber_turn pf sz fresh services =
    (case sub_try_recv (sv_event_bus services) projections_rx of
       (bus, Inr env) \<Rightarrow> process_envelope pf sz fresh (services\<lparr>sv_event_bus := bus\<rparr>) env
     | (_, Inl _) \<Rightarrow> services)"

subsection \<open>The running system\<close>

inductive app_reach ::
    "Platform \<Rightarrow> 'j Serdes \<Rightarrow> (string \<Rightarrow> datetime \<Rightarrow> TokenValidationError + JwtClaims) \<Rightarrow> AggregateId \<Rightarrow>
     'j AppServices \<Rightarrow> bool" for pf sz validate ledger_id where
  app_start: "app_reach pf sz validate ledger_id (build_in_memory_services ledger_id)"
| app_request: "app_reach pf sz validate ledger_id s \<Longrightarrow> app_reach pf sz validate ledger_id (arrive pf sz validate r s)"
| app_deliver: "app_reach pf sz validate ledger_id s \<Longrightarrow> app_reach pf sz validate ledger_id (subscriber_turn pf sz fresh s)"

subsection \<open>What dispatches publish\<close>

definition in_stream :: "TenantId \<Rightarrow> AggregateId \<Rightarrow> 'j EventEnvelope \<Rightarrow> bool" where
  "in_stream t a env \<longleftrightarrow> ee_tenant_id env = t \<and> ee_aggregate_id env = a"

definition base_ok :: "'j AppServices \<Rightarrow> bool" where
  "base_ok s \<longleftrightarrow> store_invar (sv_event_store s) \<and> bus_invar (sv_event_bus s) \<and>
     \<not> bus_poisoned (sv_event_bus s) \<and> projections_rx \<in> bus_live (sv_event_bus s)"

abbreviation pending :: "'j AppServices \<Rightarrow> 'j EventEnvelope list" where
  "pending s \<equiv> bus_queued (sv_event_bus s) projections_rx"

text \<open>The events \<^verbatim>\<open>es\<close> were appended to their streams and published, in this order.\<close>

definition published :: "'j AppServices \<Rightarrow> 'j AppServices \<Rightarrow> 'j StoredEvent list \<Rightarrow> bool" where
  "published s s' es \<longleftrightarrow> base_ok s' \<and> pending s' = pending s @ map to_envelope es \<and>
     (\<forall>t a. streams s' t a = streams s t a @ filter (\<lambda>e. se_tenant_id e = t \<and> se_aggregate_id e = a) es)"

lemma published_refl: "base_ok s \<Longrightarrow> published s s []"
  by (simp add: published_def)

lemma published_trans: "\<lbrakk> published s s1 es; published s1 s2 es' \<rbrakk> \<Longrightarrow> published s s2 (es @ es')"
  by (simp add: published_def)

lemma publish_all_poisoned:
  "publish_all bus_publish b ms = (b', r) \<Longrightarrow> bus_poisoned b' = bus_poisoned b"
  by (induction ms arbitrary: b) (auto simp: bus_publish_def split: prod.splits sum.splits if_splits)

lemma append_types:
  assumes "encodes sd t a ty d us" "us \<noteq> []" "append_events st us ev = (st', Inr cs)"
  shows "\<forall>e \<in> set cs. se_tenant_id e = t \<and> se_aggregate_id e = a \<and> se_aggregate_type e = ty"
proof -
  have "\<forall>u \<in> set us. ue_tenant_id u = t \<and> ue_aggregate_id u = a \<and> ue_aggregate_type u = ty"
    using assms(1) unfolding encodes_def by (induction rule: list_all2_induct) auto
  then show ?thesis
    unfolding in_memory_store.append_committed [OF assms(3,2)] by (auto elim!: set_assign_sequence simp: store_event_def)
qed

text \<open>A dispatch publishes what it appends, all of it of its aggregate type.\<close>

lemma dispatch_published:
  assumes "base_ok s" "services_dispatch agg sd new_id s t a ty c mk = (s', r)"
  shows "published s s' (case r of Inl _ \<Rightarrow> [] | Inr cs \<Rightarrow> cs)"
    "r = Inr cs \<Longrightarrow> \<forall>e \<in> set cs. se_aggregate_type e = ty"
proof -
  let ?st = "sv_event_store s" and ?b = "sv_event_bus s"
  have inv: "bus_invar ?b" "\<not> bus_poisoned ?b" "projections_rx \<in> bus_live ?b" "store_invar ?st"
    using assms(1) by (simp_all add: base_ok_def)
  have "published s s' (case r of Inl _ \<Rightarrow> [] | Inr cs \<Rightarrow> cs) \<and> (\<forall>cs. r = Inr cs \<longrightarrow> (\<forall>e \<in> set cs. se_aggregate_type e = ty))"
  proof (cases "dispatch_prepare load_stream agg sd new_id ?st t a ty c mk")
    case (Inl e)
    then have "s' = s" "\<exists>e. r = Inl e" using assms(2) by (auto simp: services_dispatch_def dispatch_def)
    then show ?thesis using published_refl [OF assms(1)] by auto
  next
    case (Inr p)
    obtain us ev where p: "p = (us, ev)" by fastforce
    obtain d where enc: "encodes sd t a ty d us"
      using dispatch_prepare_ok [OF Inr [unfolded p]] by blast
    obtain st1 r1 where ap: "append_events ?st us ev = (st1, r1)" by fastforce
    have inv1: "store_invar st1" using append_events_invar [OF inv(4), of us ev] ap by simp
    show ?thesis
    proof (cases "us = []")
      case True
      then have "s' = s" "r = Inr []"
        using assms(2) Inr p by (auto simp: services_dispatch_def dispatch_def dispatch_commit_def)
      then show ?thesis using published_refl [OF assms(1)] by simp
    next
      case False
      show ?thesis
      proof (cases r1)
        case (Inl e)
        then have s': "s' = s\<lparr>sv_event_store := st1\<rparr>" "\<exists>e. r = Inl e"
          using assms(2) Inr p False ap by (auto simp: services_dispatch_def dispatch_def dispatch_commit_def)
        have "published s s' []"
          using assms(1) inv1 append_events_Inl [OF ap [unfolded Inl]] by (simp add: published_def s' base_ok_def)
        then show ?thesis using s'(2) by auto
      next
        case (Inr cs)
        obtain b' where pb: "publish_all bus_publish ?b (map to_envelope cs) = (b', Inr ())"
          using bus_publish_all_ok [OF inv(2)] by blast
        have s': "s' = s\<lparr>sv_event_store := st1, sv_event_bus := b'\<rparr>" "r = Inr cs"
          using assms(2) \<open>dispatch_prepare _ _ _ _ _ _ _ _ _ _ = _\<close> p False ap Inr pb
          by (auto simp: services_dispatch_def dispatch_def dispatch_commit_def)
        have b': "bus_invar b'" "bus_live b' = bus_live ?b"
          "bus_queued b' projections_rx = bus_queued ?b projections_rx @ map to_envelope cs"
          using in_memory_bus.publish_all_delivers [OF inv(1) pb] inv(3) by auto
        note ty = append_types [OF enc False ap [unfolded Inr]]
        have "streams s' t' a' = streams s t' a' @ filter (\<lambda>e. se_tenant_id e = t' \<and> se_aggregate_id e = a') cs" for t' a'
        proof -
          have "filter (\<lambda>e. se_tenant_id e = t' \<and> se_aggregate_id e = a') cs = (if t' = t \<and> a' = a then cs else [])"
            using ty by (auto simp: filter_empty_conv intro: filter_True)
          then show ?thesis
            using in_memory_store.append_stream [OF ap [unfolded Inr] False, of t' a'] encodes_hd [OF enc False]
            by (simp add: s')
        qed
        moreover have "base_ok s'"
          using assms(1) inv1 b' publish_all_poisoned [OF pb] by (simp add: base_ok_def s')
        ultimately have "published s s' cs" using b' by (simp add: published_def s')
        then show ?thesis using ty s'(2) by simp
      qed
    qed
  qed
  then show "published s s' (case r of Inl _ \<Rightarrow> [] | Inr cs \<Rightarrow> cs)"
    "r = Inr cs \<Longrightarrow> \<forall>e \<in> set cs. se_aggregate_type e = ty" by simp_all
qed

text \<open>A request publishes only events of the aggregate type its route is about.\<close>

primrec request_type :: "CommandRequest \<Rightarrow> string" where
  "request_type (PostInventoryItems _) = ''inventory.item''"
| "request_type (PostItemAdjust _ _) = ''inventory.item''"
| "request_type (PostProducts _) = ''products.product''"
| "request_type (PostProductActivate _) = ''products.product''"
| "request_type (PostProductArchive _) = ''products.product''"
| "request_type (PostParties _ _) = ''parties.party''"
| "request_type (PatchParty _ _ _) = ''parties.party''"
| "request_type (PostPartySuspend _ _ _) = ''parties.party''"
| "request_type PostSalesOrders = ''sales.order''"
| "request_type (PostSalesOrderLines _ _) = ''sales.order''"
| "request_type (PostSalesOrderConfirm _) = ''sales.order''"
| "request_type (PostSalesOrderMarkInvoiced _) = ''sales.order''"
| "request_type (PostInvoices _) = ''invoicing.invoice''"
| "request_type (PostInvoicePayments _ _) = ''invoicing.invoice''"
| "request_type (PostInvoiceVoid _ _) = ''invoicing.invoice''"
| "request_type (PostPurchaseOrders _) = ''purchasing.order''"
| "request_type (PostPurchaseOrderLines _ _) = ''purchasing.order''"
| "request_type (PostPurchaseOrderApprove _) = ''purchasing.order''"
| "request_type (PostPurchaseOrderReceive _) = ''purchasing.order''"
| "request_type (PostLedgerJournal _) = ''accounting.ledger''"
| "request_type (PostUsers _) = ''auth.user''"
| "request_type (PostUserRoles _ _) = ''auth.user''"
| "request_type (DeleteUserRole _ _) = ''auth.user''"
| "request_type (PostUserSuspend _ _) = ''auth.user''"
| "request_type (PostUserActivate _) = ''auth.user''"

definition publishes :: "string \<Rightarrow> 'j AppServices \<Rightarrow> 'j AppServices \<Rightarrow> bool" where
  "publishes ty s s' \<longleftrightarrow> (base_ok s \<longrightarrow> (\<exists>es. published s s' es \<and> (\<forall>e \<in> set es. se_aggregate_type e = ty)))"

lemma publishes_refl [simp]: "publishes ty s s"
  by (auto simp: publishes_def intro: exI [of _ "[]"] published_refl)

lemma publishes_trans:
  assumes "publishes ty s s1" "publishes ty s1 s2"
  shows "publishes ty s s2"
  unfolding publishes_def
proof
  assume "base_ok s"
  then obtain es where es: "published s s1 es" "\<forall>e \<in> set es. se_aggregate_type e = ty"
    using assms(1) by (auto simp: publishes_def)
  moreover from es(1) have "base_ok s1" by (simp add: published_def)
  then obtain es' where "published s1 s2 es'" "\<forall>e \<in> set es'. se_aggregate_type e = ty"
    using assms(2) by (auto simp: publishes_def)
  ultimately show "\<exists>es. published s s2 es \<and> (\<forall>e \<in> set es. se_aggregate_type e = ty)"
    using published_trans by (intro exI [of _ "es @ es'"]) auto
qed

lemma dispatch_publishes:
  assumes "services_dispatch agg sd new_id s t a ty c mk = (s', r)"
  shows "publishes ty s s'"
  unfolding publishes_def
proof
  assume "base_ok s"
  note d = dispatch_published [OF this assms]
  show "\<exists>es. published s s' es \<and> (\<forall>e \<in> set es. se_aggregate_type e = ty)"
    by (cases r) (use d in auto)
qed

lemma run_command_publishes:
  "publishes ty s (fst (run_command pf agg sd new_id tenant prin perm a ty cmd mk reply s))"
  by (auto simp: run_command_def dispatch_or_response_def dest: dispatch_publishes split: sum.splits prod.splits)

lemma parsed_publishes:
  assumes "\<And>x. parsed = Inr x \<Longrightarrow> publishes ty s (fst (k x))"
  shows "publishes ty s (fst (case parsed of Inl response \<Rightarrow> (s, response) | Inr x \<Rightarrow> k x))"
  using assms by (cases parsed) simp_all

lemma add_order_lines_publishes:
  "publishes ''purchasing.order'' s (fst (add_order_lines pf sz fr tenant prin a k n ls s))"
proof (induction ls arbitrary: k n s)
  case (Cons l ls)
  show ?case
    by (auto simp: dispatch_or_response_def split: prod.splits sum.splits
        intro: dispatch_publishes publishes_trans [OF dispatch_publishes Cons.IH])
qed simp

lemmas route_defs = create_item_def adjust_stock_def create_product_def activate_product_def archive_product_def
    register_party_def update_party_def suspend_party_def create_sales_order_def add_sales_order_line_def
    confirm_sales_order_def mark_sales_order_invoiced_def issue_invoice_def register_invoice_payment_def
    void_invoice_def add_purchase_order_line_def approve_purchase_order_def receive_purchase_order_goods_def
    post_journal_entry_def create_user_def assign_role_def revoke_role_def suspend_user_def activate_user_def
    user_command_def

lemma serve_publishes: "publishes (request_type request) s (fst (serve pf sz fr tenant prin request s))"
proof (cases request)
  case (PostPurchaseOrders body)
  show ?thesis
    by (auto simp: PostPurchaseOrders create_purchase_order_def Let_def dispatch_or_response_def
        split: prod.splits sum.splits
        intro: dispatch_publishes publishes_trans [OF dispatch_publishes add_order_lines_publishes])
qed (auto simp: route_defs Let_def split_beta intro!: parsed_publishes run_command_publishes split: option.splits)

lemma arrive_publishes: "publishes (request_type (arv_request r)) s (arrive pf sz validate r s)"
  by (auto simp: arrive_def http_request_def serve_publishes split: sum.splits)

subsection \<open>What the subscriber has processed\<close>

text \<open>The part of a state that the subscriber reads.\<close>

lemma subscriber_idle: "pending s = [] \<Longrightarrow> subscriber_turn pf sz fresh s = s"
  by (simp add: subscriber_turn_def sub_try_recv_def bus_queued_def)

lemma projections_keep_infra:
  "sv_event_store (fst (apply_to_projections sz fresh s env)) = sv_event_store s"
  "sv_event_bus (fst (apply_to_projections sz fresh s env)) = sv_event_bus s"
  by (simp_all add: apply_to_projections_def Let_def split: prod.splits)

lemma process_keeps_infra:
  "sv_event_store (process_envelope pf sz fresh s env) = sv_event_store s"
  "sv_event_bus (process_envelope pf sz fresh s env) = sv_event_bus s"
  using projections_keep_infra [of sz fresh s env] by (auto simp: process_envelope_def split_beta)

lemma subscriber_streams: "streams (subscriber_turn pf sz fresh s) = streams s"
  by (auto simp: subscriber_turn_def process_keeps_infra split: prod.splits sum.splits)

lemma subscriber_busy:
  "pending s = env # q \<Longrightarrow> subscriber_turn pf sz fresh s =
     process_envelope pf sz fresh (s\<lparr>sv_event_bus := fst (sub_try_recv (sv_event_bus s) projections_rx)\<rparr>) env"
  by (simp add: subscriber_turn_def sub_try_recv_def bus_queued_def)

lemma subscriber_takes:
  assumes "base_ok s" "pending s = env # q"
  shows "pending (subscriber_turn pf sz fresh s) = q" "base_ok (subscriber_turn pf sz fresh s)"
proof -
  let ?s1 = "s\<lparr>sv_event_bus := fst (sub_try_recv (sv_event_bus s) projections_rx)\<rparr>"
  note t = subscriber_busy [OF assms(2), of pf sz fresh]
  have b: "bus_queued (sv_event_bus ?s1) projections_rx = q"
    "bus_invar (sv_event_bus ?s1)" "bus_live (sv_event_bus ?s1) = bus_live (sv_event_bus s)"
    "bus_poisoned (sv_event_bus ?s1) = bus_poisoned (sv_event_bus s)"
    using assms by (auto simp: base_ok_def sub_try_recv_def bus_queued_def bus_invar_def bus_live_def)
  have st: "sv_event_store ?s1 = sv_event_store s" by simp
  show "pending (subscriber_turn pf sz fresh s) = q" by (simp only: t process_keeps_infra b)
  show "base_ok (subscriber_turn pf sz fresh s)"
    using assms(1) unfolding base_ok_def t process_keeps_infra b st by (simp only: b simp_thms)
qed

text \<open>The subscriber catches up with its queue.\<close>

lemma subscriber_catches_up:
  assumes "base_ok s" "length (pending s) \<le> n"
  shows "pending ((subscriber_turn pf sz fresh ^^ n) s) = []"
  using assms
proof (induction n arbitrary: s)
  case (Suc n)
  show ?case
  proof (cases "pending s")
    case Nil
    then show ?thesis
      using Suc.IH [OF Suc.prems(1)] by (simp add: funpow_Suc_right subscriber_idle del: funpow.simps)
  next
    case (Cons env q)
    note t = subscriber_takes [OF Suc.prems(1) Cons, of pf sz fresh]
    have "length (pending (subscriber_turn pf sz fresh s)) \<le> n" using Suc.prems(2) by (simp only: t Cons) simp
    from Suc.IH [OF t(2) this] show ?thesis by (simp add: funpow_Suc_right del: funpow.simps)
  qed
qed simp

lemma subscriber_turns_streams: "streams ((subscriber_turn pf sz fresh ^^ n) s) = streams s"
  by (induction n) (simp_all add: subscriber_streams)

lemma subscriber_turns_reach:
  "app_reach pf sz validate l s \<Longrightarrow> app_reach pf sz validate l ((subscriber_turn pf sz fresh ^^ n) s)"
  by (induction n) (simp_all add: app_deliver)

text \<open>A read model of the services sees exactly the envelopes of the queue, whatever their type.\<close>

definition fed_by ::
    "'j Serdes \<Rightarrow> ('j AppServices \<Rightarrow> ('st, unit) Projection) \<Rightarrow> ('j \<Rightarrow> string + 'e) \<Rightarrow> ('st, 'e) ProjectionLogic \<Rightarrow> bool" where
  "fed_by sz proj from_value pl \<longleftrightarrow>
    (\<forall>fresh s env. proj (fst (apply_to_projections sz fresh s env)) =
       fst (apply_envelope InMemoryCursorStore from_value pl (proj s) env)) \<and>
    (\<forall>s b. proj (s\<lparr>sv_event_bus := b\<rparr>) = proj s) \<and> (\<forall>s st. proj (s\<lparr>sv_event_store := st\<rparr>) = proj s) \<and>
    (\<forall>s m. proj (s\<lparr>sv_realtime := m\<rparr>) = proj s)"

lemma subscriber_feeds:
  assumes "fed_by sz proj from_value pl" "pending s = env # q"
  shows "proj (subscriber_turn pf sz fresh s) = fst (apply_envelope InMemoryCursorStore from_value pl (proj s) env)"
proof -
  let ?s1 = "s\<lparr>sv_event_bus := fst (sub_try_recv (sv_event_bus s) projections_rx)\<rparr>"
  note subscriber_busy [OF assms(2), of pf sz fresh]
  then have "proj (subscriber_turn pf sz fresh s) = proj (fst (apply_to_projections sz fresh ?s1 env))"
    using assms(1) by (simp add: process_envelope_def fed_by_def split_beta)
  then show ?thesis using assms(1) by (simp add: fed_by_def)
qed

lemma fed_by_commits: "fed_by sz proj from_value pl \<Longrightarrow> commits t s s' \<Longrightarrow> proj s' = proj s"
  unfolding fed_by_def commits_def by metis

text \<open>What was processed and what is queued is, stream by stream, what was committed.\<close>

definition log_ok :: "'j AppServices \<Rightarrow> 'j EventEnvelope list \<Rightarrow> bool" where
  "log_ok s proc \<longleftrightarrow> base_ok s \<and>
     (\<forall>t a. filter (in_stream t a) (proc @ pending s) = map to_envelope (streams s t a))"

lemma log_ok_published:
  assumes "log_ok s proc" "published s s' es"
  shows "log_ok s' proc"
proof -
  have "filter (in_stream t a) (map to_envelope es) =
      map to_envelope (filter (\<lambda>e. se_tenant_id e = t \<and> se_aggregate_id e = a) es)" for t a
    by (simp add: filter_map o_def in_stream_def)
  then show ?thesis using assms unfolding log_ok_def published_def by (simp flip: append_assoc)
qed

lemma log_ok_processed:
  assumes "log_ok s proc" "pending s = env # q"
  shows "log_ok (subscriber_turn pf sz fresh s) (proc @ [env])"
  using assms subscriber_takes [of s env q pf sz fresh] unfolding log_ok_def by (simp add: subscriber_streams)

lemma base_ok_start: "base_ok (build_in_memory_services l)" "pending (build_in_memory_services l) = []"
  by (simp_all add: base_ok_def build_in_memory_services_def bus_invar_def bus_live_def bus_queued_def
      bus_subscribe_def bus_new_def)

lemma log_ok_start: "log_ok (build_in_memory_services l) []"
  by (simp add: log_ok_def base_ok_start) (simp add: build_in_memory_services_def)

end
