(* ===== verification/Saga.thy ===== *)
theory Saga
  imports Services
begin

text \<open>
  Process managers: the contract (\<^verbatim>\<open>events/src/saga.rs\<close>), the saga from sales orders over invoices to
  the ledger (\<^verbatim>\<open>infra/src/saga/mod.rs\<close>, \<^verbatim>\<open>infra/src/saga/sales_ar.rs\<close>), and the thread of the application
  that runs it (\<^verbatim>\<open>api/src/app/services.rs\<close>).

  Payloads are JSON here.  Decoding and encoding of commands, of saga events and of times are serde's
  and chrono's: the record \<^verbatim>\<open>SagaSerde\<close>.  Fresh ids and the clock are arguments.
\<close>

subsection \<open>The contract\<close>

datatype SagaAction =
    Emit string Json
  | Command string string Json
  | Compensate string string Json
  | Complete

record ('st, 'ev, 'c) Saga =
  sg_saga_type :: string
  sg_correlate :: "Json EventEnvelope \<Rightarrow> 'c option"
  sg_saga_id :: "TenantId \<Rightarrow> 'c \<Rightarrow> AggregateId"
  sg_initial_state :: "TenantId \<Rightarrow> 'c \<Rightarrow> 'st"
  sg_apply :: "'st \<Rightarrow> 'ev \<Rightarrow> 'st"
  sg_react :: "'st \<Rightarrow> TenantId \<Rightarrow> 'c \<Rightarrow> Json EventEnvelope \<Rightarrow> SagaAction list"

subsection \<open>The repository\<close>

definition saga_load ::
    "Json InMemoryEventStore \<Rightarrow> TenantId \<Rightarrow> AggregateId \<Rightarrow> EventStoreError + Json StoredEvent list" where
  "saga_load store tenant_id saga_id = load_stream store tenant_id saga_id"

definition append_emit ::
    "string \<Rightarrow> uuid \<Rightarrow> datetime \<Rightarrow> Json InMemoryEventStore \<Rightarrow> TenantId \<Rightarrow> AggregateId \<Rightarrow> string \<Rightarrow> Json \<Rightarrow>
     Json InMemoryEventStore \<times> (EventStoreError + Json StoredEvent list)" where
  "append_emit saga_type fresh now store tenant_id saga_id event_type payload =
     append_events store [\<lparr> ue_event_id = fresh, ue_tenant_id = tenant_id, ue_aggregate_id = saga_id,
       ue_aggregate_type = saga_type, ue_event_type = event_type, ue_event_version = 1, ue_occurred_at = now,
       ue_payload = payload \<rparr>] ExpectedVersion.Any"

subsection \<open>From sales to receivables\<close>

datatype SalesArSagaState =
    WaitingForOrderConfirmed
  | WaitingForInvoiceIssued
  | WaitingForLedgerPosted string
  | Completed
  | Failed

datatype SalesArSagaEvent =
    OrderConfirmedReceived
  | InvoiceIssueRequested
  | InvoiceIssuedReceived string
  | LedgerPostRequested
  | LedgerPostedReceived
  | SagaCompleted
  | SagaFailed string

text \<open>\<^verbatim>\<open>Value::as_object\<close>, \<^verbatim>\<open>Value::as_str\<close>, and the string under a key.\<close>

definition as_object :: "Json \<Rightarrow> (string \<times> Json) list option" where
  "as_object j = (case j of JObject kvs \<Rightarrow> Some kvs | _ \<Rightarrow> None)"

definition as_str :: "Json \<Rightarrow> string option" where
  "as_str j = (case j of JString s \<Rightarrow> Some s | _ \<Rightarrow> None)"

definition str_at :: "Json \<Rightarrow> string \<Rightarrow> string option" where
  "str_at j k = Option.bind (json_get j k) as_str"

definition sales_ar_correlate :: "Platform \<Rightarrow> Json EventEnvelope \<Rightarrow> SalesOrderId option" where
  "sales_ar_correlate pf env =
    (if ee_aggregate_type env = ''sales.order'' then
       Option.bind (str_at (ee_payload env) ''order_id'') (\<lambda>id_str.
         map_option (\<lambda>u. SalesOrderId (AggregateId u)) (pf_parse_uuid pf id_str))
     else if ee_aggregate_type env = ''invoicing.invoice'' then
       Option.bind (str_at (ee_payload env) ''sales_order_id'') (\<lambda>id_str.
         map_option (\<lambda>u. SalesOrderId (AggregateId u)) (pf_parse_uuid pf id_str))
     else None)"

definition sales_ar_saga_id :: "TenantId \<Rightarrow> SalesOrderId \<Rightarrow> AggregateId" where
  "sales_ar_saga_id tenant_id correlation = sales_order_aggregate correlation"

primrec sales_ar_apply :: "SalesArSagaState \<Rightarrow> SalesArSagaEvent \<Rightarrow> SalesArSagaState" where
  "sales_ar_apply state OrderConfirmedReceived = WaitingForInvoiceIssued"
| "sales_ar_apply state InvoiceIssueRequested = state"
| "sales_ar_apply state (InvoiceIssuedReceived invoice_id) = WaitingForLedgerPosted invoice_id"
| "sales_ar_apply state LedgerPostRequested = state"
| "sales_ar_apply state LedgerPostedReceived = Completed"
| "sales_ar_apply state SagaCompleted = Completed"
| "sales_ar_apply state (SagaFailed reason) = Failed"

text \<open>The entry id and the time in the ledger command are fresh at each reaction.\<close>

definition ledger_line :: "string \<Rightarrow> string \<Rightarrow> string \<Rightarrow> bool \<Rightarrow> Json" where
  "ledger_line account_code account_name kind is_debit = JObject [(''account_code'', JString account_code),
     (''account_name'', JString account_name), (''kind'', JString kind), (''amount'', JNumber 0), (''is_debit'', JBool is_debit)]"

definition sales_ar_react ::
    "Platform \<Rightarrow> (datetime \<Rightarrow> string) \<Rightarrow> uuid \<Rightarrow> datetime \<Rightarrow> SalesArSagaState \<Rightarrow> TenantId \<Rightarrow> SalesOrderId \<Rightarrow>
     Json EventEnvelope \<Rightarrow> SagaAction list" where
  "sales_ar_react pf time_str entry_id now state tenant_id correlation incoming =
    (let event_type = ee_aggregate_type incoming in
     case state of
       WaitingForOrderConfirmed \<Rightarrow>
         (if event_type = ''sales.order'' then
            (case as_object (ee_payload incoming) of
               Some ((evt_variant, _) # _) \<Rightarrow>
                 if evt_variant = ''OrderConfirmed'' then
                   [Emit ''order_confirmed_received'' (JObject []), Emit ''invoice_issue_requested'' (JObject []),
                    Command ''Invoice'' ''IssueInvoice'' (JObject [(''tenant_id'', JString (pf_uuid_string pf (tenant_uuid tenant_id))),
                      (''sales_order_id'', JString (pf_uuid_string pf (aggregate_uuid (sales_order_aggregate correlation))))])]
                 else []
             | _ \<Rightarrow> [])
          else [])
     | WaitingForInvoiceIssued \<Rightarrow>
         (if event_type = ''invoicing.invoice'' then
            (case Option.bind (json_get (ee_payload incoming) ''InvoiceIssued'') (\<lambda>evt. str_at evt ''invoice_id'') of
               Some invoice_id \<Rightarrow>
                 [Emit ''invoice_issued_received'' (JObject [(''invoice_id'', JString invoice_id)]),
                  Emit ''ledger_post_requested'' (JObject []),
                  Command ''Ledger'' ''PostJournalEntry'' (JObject [(''tenant_id'', JString (pf_uuid_string pf (tenant_uuid tenant_id))),
                    (''entry_id'', JString (pf_uuid_string pf entry_id)),
                    (''lines'', JArray [ledger_line ''1200'' ''Accounts Receivable'' ''Asset'' True,
                       ledger_line ''4000'' ''Sales Revenue'' ''Revenue'' False]),
                    (''description'', JString (''AR for invoice '' @ invoice_id)),
                    (''occurred_at'', JString (time_str now))])]
             | None \<Rightarrow> [])
          else [])
     | WaitingForLedgerPosted _ \<Rightarrow>
         (if event_type = ''accounting.ledger'' then
            (case as_object (ee_payload incoming) of
               Some kvs \<Rightarrow>
                 if map_of kvs ''JournalEntryPosted'' \<noteq> None
                 then [Emit ''ledger_posted_received'' (JObject []), Complete] else []
             | None \<Rightarrow> [])
          else [])
     | Completed \<Rightarrow> []
     | Failed \<Rightarrow> [])"

definition SalesArSaga ::
    "Platform \<Rightarrow> (datetime \<Rightarrow> string) \<Rightarrow> uuid \<Rightarrow> datetime \<Rightarrow> (SalesArSagaState, SalesArSagaEvent, SalesOrderId) Saga" where
  "SalesArSaga pf time_str entry_id now = \<lparr> sg_saga_type = ''saga.sales_ar'', sg_correlate = sales_ar_correlate pf,
     sg_saga_id = sales_ar_saga_id, sg_initial_state = (\<lambda>_ _. WaitingForOrderConfirmed), sg_apply = sales_ar_apply,
     sg_react = sales_ar_react pf time_str entry_id now \<rparr>"

subsection \<open>Executing commands\<close>

record SagaSerde =
  ss_saga_event :: "Json \<Rightarrow> SalesArSagaEvent option"
  ss_issue_invoice :: "Json \<Rightarrow> string + IssueInvoice"
  ss_post_journal_entry :: "Json \<Rightarrow> string + PostJournalEntry"
  ss_void_invoice :: "Json \<Rightarrow> string + VoidInvoice"
  ss_invoice_line :: "InvoiceLine \<Rightarrow> Json"
  ss_time :: "datetime \<Rightarrow> string"

record SagaFresh =
  sf_entry_id :: uuid
  sf_invoice_id :: uuid
  sf_event_id :: "nat \<Rightarrow> uuid"
  sf_event_ids :: "nat \<Rightarrow> nat \<Rightarrow> uuid"
  sf_now :: datetime

definition saga_dispatch ::
    "('s, 'e, 'c) AggregateOps \<Rightarrow> ('e, Json) Serde \<Rightarrow> (nat \<Rightarrow> uuid) \<Rightarrow> Json AppServices \<Rightarrow> TenantId \<Rightarrow> AggregateId \<Rightarrow>
     string \<Rightarrow> 'c \<Rightarrow> (TenantId \<Rightarrow> AggregateId \<Rightarrow> 's) \<Rightarrow> Json AppServices \<times> (DispatchError + unit)" where
  "saga_dispatch agg sd ids services tenant_id aggregate_id aggregate_type command make_aggregate =
    (case services_dispatch agg sd ids services tenant_id aggregate_id aggregate_type command make_aggregate of
       (services, Inl e) \<Rightarrow> (services, Inl e)
     | (services, Inr _) \<Rightarrow> (services, Inr ()))"

text \<open>\<^verbatim>\<open>InMemorySagaExecutor::execute\<close>; the tenant comes from the decoded command, not from the argument.\<close>

definition saga_execute ::
    "Json Serdes \<Rightarrow> SagaSerde \<Rightarrow> (nat \<Rightarrow> uuid) \<Rightarrow> Json AppServices \<Rightarrow> TenantId \<Rightarrow> string \<Rightarrow> string \<Rightarrow> Json \<Rightarrow>
     Json AppServices \<times> (DispatchError + unit)" where
  "saga_execute sz ss ids services tenant_id aggregate_type command_type payload =
    (if aggregate_type = ''Invoice'' \<and> command_type = ''IssueInvoice'' then
       (case ss_issue_invoice ss payload of
          Inl e \<Rightarrow> (services, Inl (DispatchError.Validation e))
        | Inr cmd \<Rightarrow> saga_dispatch invoice_ops (sz_invoice sz) ids services (is_tenant_id cmd)
            (invoice_aggregate (is_invoice_id cmd)) ''invoicing.invoice'' (IssueInvoice cmd) empty_invoice)
     else if aggregate_type = ''Ledger'' \<and> command_type = ''PostJournalEntry'' then
       (case ss_post_journal_entry ss payload of
          Inl e \<Rightarrow> (services, Inl (DispatchError.Validation e))
        | Inr cmd \<Rightarrow> saga_dispatch ledger_ops (sz_ledger sz) ids services (pj_tenant_id cmd)
            (sv_default_ledger_id services) ''accounting.ledger'' (PostJournalEntry cmd) (\<lambda>_ a. ledger_empty (LedgerId a)))
     else if aggregate_type = ''Invoice'' \<and> command_type = ''VoidInvoice'' then
       (case ss_void_invoice ss payload of
          Inl e \<Rightarrow> (services, Inl (DispatchError.Validation e))
        | Inr cmd \<Rightarrow> saga_dispatch invoice_ops (sz_invoice sz) ids services (vi_tenant_id cmd)
            (invoice_aggregate (vi_invoice_id cmd)) ''invoicing.invoice'' (VoidInvoice cmd) empty_invoice)
     else (services, Inl (DispatchError.Validation (''Unsupported saga command: '' @ aggregate_type @ ''.'' @ command_type))))"

subsection \<open>The thread\<close>

definition or_insert :: "string \<Rightarrow> Json \<Rightarrow> Json \<Rightarrow> Json" where
  "or_insert k v j =
    (case j of JObject kvs \<Rightarrow> if map_of kvs k = None then JObject (kvs @ [(k, v)]) else j | _ \<Rightarrow> j)"

text \<open>Seconds of a day in nanoseconds, thirty times.\<close>

definition thirty_days :: datetime where "thirty_days = 30 * 24 * 60 * 60 * 10 ^ 9"

definition fill_invoice ::
    "Platform \<Rightarrow> SagaSerde \<Rightarrow> SagaFresh \<Rightarrow> Json AppServices \<Rightarrow> TenantId \<Rightarrow> SalesOrderId \<Rightarrow> Json \<Rightarrow> Json" where
  "fill_invoice pf ss sf services tenant_id correlation payload =
    (case ts_get (pj_store (sv_sales_projection services)) tenant_id correlation of
       None \<Rightarrow> payload
     | Some order \<Rightarrow>
         (let lines = map (\<lambda>l. \<lparr> il_line_no = slr_line_no l, il_sales_order_id = sor_order_id order,
                il_product_id = slr_product_id l, il_quantity = slr_quantity l, il_unit_price = slr_unit_price l \<rparr>) (sor_lines order)
          in or_insert ''occurred_at'' (JString (ss_time ss (sf_now sf)))
             (or_insert ''due_date'' (JString (ss_time ss (sf_now sf + thirty_days)))
             (or_insert ''lines'' (JArray (map (ss_invoice_line ss) lines))
             (or_insert ''invoice_id'' (JString (pf_uuid_string pf (sf_invoice_id sf)))
             (or_insert ''tenant_id'' (JString (pf_uuid_string pf (tenant_uuid tenant_id))) payload))))))"

definition saga_action ::
    "Platform \<Rightarrow> Json Serdes \<Rightarrow> SagaSerde \<Rightarrow> SagaFresh \<Rightarrow> TenantId \<Rightarrow> SalesOrderId \<Rightarrow> AggregateId \<Rightarrow> nat \<Rightarrow> SagaAction \<Rightarrow>
     Json AppServices \<Rightarrow> Json AppServices" where
  "saga_action pf sz ss sf tenant_id correlation saga_id n action services =
    (let emit = (\<lambda>event_type payload. services\<lparr>sv_event_store := fst (append_emit ''saga.sales_ar'' (sf_event_id sf n)
           (sf_now sf) (sv_event_store services) tenant_id saga_id event_type payload)\<rparr>)
     in case action of
          Emit event_type payload \<Rightarrow> emit event_type payload
        | Command aggregate_type command_type payload \<Rightarrow>
            (let payload = (if aggregate_type = ''Invoice'' \<and> command_type = ''IssueInvoice''
                   then fill_invoice pf ss sf services tenant_id correlation payload else payload)
             in fst (saga_execute sz ss (sf_event_ids sf n) services tenant_id aggregate_type command_type payload))
        | Compensate aggregate_type command_type payload \<Rightarrow>
            fst (saga_execute sz ss (sf_event_ids sf n) services tenant_id aggregate_type command_type payload)
        | Complete \<Rightarrow> emit ''saga.completed'' (JObject []))"

primrec saga_actions ::
    "Platform \<Rightarrow> Json Serdes \<Rightarrow> SagaSerde \<Rightarrow> SagaFresh \<Rightarrow> TenantId \<Rightarrow> SalesOrderId \<Rightarrow> AggregateId \<Rightarrow> nat \<Rightarrow> SagaAction list \<Rightarrow>
     Json AppServices \<Rightarrow> Json AppServices" where
  "saga_actions pf sz ss sf t c i n [] services = services"
| "saga_actions pf sz ss sf t c i n (action # actions) services =
     saga_actions pf sz ss sf t c i (Suc n) actions (saga_action pf sz ss sf t c i n action services)"

text \<open>The state replayed from the saga's stream: what cannot be read, and what does not decode, is skipped.\<close>

definition saga_state ::
    "(SalesArSagaState, SalesArSagaEvent, SalesOrderId) Saga \<Rightarrow> SagaSerde \<Rightarrow> Json AppServices \<Rightarrow> TenantId \<Rightarrow> SalesOrderId \<Rightarrow>
     SalesArSagaState" where
  "saga_state saga ss services tenant_id correlation =
    (case saga_load (sv_event_store services) tenant_id (sg_saga_id saga tenant_id correlation) of
       Inl _ \<Rightarrow> sg_initial_state saga tenant_id correlation
     | Inr history \<Rightarrow>
         foldl (sg_apply saga) (sg_initial_state saga tenant_id correlation)
           (List.map_filter (\<lambda>se. ss_saga_event ss (se_payload se)) history))"

definition saga_process ::
    "Platform \<Rightarrow> Json Serdes \<Rightarrow> SagaSerde \<Rightarrow> SagaFresh \<Rightarrow> Json EventEnvelope \<Rightarrow> Json AppServices \<Rightarrow> Json AppServices" where
  "saga_process pf sz ss sf env services =
    (let saga = SalesArSaga pf (ss_time ss) (sf_entry_id sf) (sf_now sf) in
     case sg_correlate saga env of
       None \<Rightarrow> services
     | Some correlation \<Rightarrow>
         (let tenant_id = ee_tenant_id env;
              saga_id = sg_saga_id saga tenant_id correlation;
              state = saga_state saga ss services tenant_id correlation
          in saga_actions pf sz ss sf tenant_id correlation saga_id 0 (sg_react saga state tenant_id correlation env) services))"

definition saga_turn ::
    "Platform \<Rightarrow> Json Serdes \<Rightarrow> SagaSerde \<Rightarrow> SagaFresh \<Rightarrow> Json AppServices \<Rightarrow> Json AppServices" where
  "saga_turn pf sz ss sf services =
    (case sub_try_recv (sv_event_bus services) saga_rx of
       (bus, Inr env) \<Rightarrow> saga_process pf sz ss sf env (services\<lparr>sv_event_bus := bus\<rparr>)
     | (_, Inl _) \<Rightarrow> services)"

subsection \<open>The state machine\<close>

text \<open>The saga event that an action stands for, by the name under which it is emitted.\<close>

fun emitted_event :: "SagaAction \<Rightarrow> SalesArSagaEvent option" where
  "emitted_event (Emit ty payload) =
    (if ty = ''order_confirmed_received'' then Some OrderConfirmedReceived
     else if ty = ''invoice_issue_requested'' then Some InvoiceIssueRequested
     else if ty = ''invoice_issued_received'' then map_option InvoiceIssuedReceived (str_at payload ''invoice_id'')
     else if ty = ''ledger_post_requested'' then Some LedgerPostRequested
     else if ty = ''ledger_posted_received'' then Some LedgerPostedReceived
     else None)"
| "emitted_event Complete = Some SagaCompleted"
| "emitted_event _ = None"

fun issued_command :: "SagaAction \<Rightarrow> (string \<times> string) option" where
  "issued_command (Command ty cmd _) = Some (ty, cmd)"
| "issued_command (Compensate ty cmd _) = Some (ty, cmd)"
| "issued_command _ = None"

text \<open>A saga that reacts to envelopes one after the other, its emitted events applied, and the commands it issues.
  Each envelope comes with the fresh id and the time of the reaction.\<close>

primrec saga_run ::
    "Platform \<Rightarrow> (datetime \<Rightarrow> string) \<Rightarrow> TenantId \<Rightarrow> SalesOrderId \<Rightarrow> (uuid \<times> datetime \<times> Json EventEnvelope) list \<Rightarrow>
     SalesArSagaState \<Rightarrow> SalesArSagaState \<times> (string \<times> string) list" where
  "saga_run pf time_str t c [] state = (state, [])"
| "saga_run pf time_str t c (x # xs) state =
    (case x of (entry_id, now, env) \<Rightarrow>
     let actions = sales_ar_react pf time_str entry_id now state t c env;
         state' = foldl sales_ar_apply state (List.map_filter emitted_event actions)
     in case saga_run pf time_str t c xs state' of
          (final, cmds) \<Rightarrow> (final, List.map_filter issued_command actions @ cmds))"

text \<open>What a saga can still issue.\<close>

primrec to_issue :: "SalesArSagaState \<Rightarrow> (string \<times> string) list" where
  "to_issue WaitingForOrderConfirmed = [(''Invoice'', ''IssueInvoice''), (''Ledger'', ''PostJournalEntry'')]"
| "to_issue WaitingForInvoiceIssued = [(''Ledger'', ''PostJournalEntry'')]"
| "to_issue (WaitingForLedgerPosted _) = []"
| "to_issue Completed = []"
| "to_issue Failed = []"

lemma react_step:
  assumes "actions = sales_ar_react pf time_str entry_id now state t c env"
  shows "to_issue state = List.map_filter issued_command actions @
    to_issue (foldl sales_ar_apply state (List.map_filter emitted_event actions))"
  using assms
  by (cases state) (auto simp: sales_ar_react_def Let_def map_filter_simps str_at_def json_get_def as_object_def as_str_def
    split: option.splits list.splits if_splits)

lemma saga_run_issues:
  assumes "saga_run pf time_str t c xs state = (final, cmds)"
  shows "to_issue state = cmds @ to_issue final"
  using assms
proof (induction xs arbitrary: state final cmds)
  case (Cons x xs)
  obtain entry_id now env where x: "x = (entry_id, now, env)" by (cases x) auto
  let ?acts = "sales_ar_react pf time_str entry_id now state t c env"
  let ?state' = "foldl sales_ar_apply state (List.map_filter emitted_event ?acts)"
  obtain final' cmds' where r: "saga_run pf time_str t c xs ?state' = (final', cmds')" by fastforce
  have "final = final'" "cmds = List.map_filter issued_command ?acts @ cmds'"
    using Cons.prems r by (simp_all add: x Let_def)
  then show ?case using Cons.IH [OF r] react_step [OF refl, of state pf time_str entry_id now t c env] by simp
qed simp

text \<open>The saga drives its order at most once through each stage.  Whatever envelopes it is given, of whatever
  types, in whatever order and however often delivered, the commands it issues with its emitted events applied are
  a prefix of: issue the invoice, post the journal entry.  It has issued both exactly when it waits for the ledger or
  is done, and an ended saga reacts to nothing.\<close>

theorem saga_commands_once:
  "prefix (snd (saga_run pf time_str t c xs WaitingForOrderConfirmed)) [(''Invoice'', ''IssueInvoice''), (''Ledger'', ''PostJournalEntry'')] \<and>
   to_issue WaitingForOrderConfirmed = snd (saga_run pf time_str t c xs WaitingForOrderConfirmed)
     @ to_issue (fst (saga_run pf time_str t c xs WaitingForOrderConfirmed)) \<and>
   (\<forall>state entry_id now env. state \<in> {Completed, Failed} \<longrightarrow> sales_ar_react pf time_str entry_id now state t c env = [])"
proof -
  obtain final cmds where r: "saga_run pf time_str t c xs WaitingForOrderConfirmed = (final, cmds)" by fastforce
  have i: "to_issue WaitingForOrderConfirmed = cmds @ to_issue final" by (rule saga_run_issues [OF r])
  then have "prefix cmds [(''Invoice'', ''IssueInvoice''), (''Ledger'', ''PostJournalEntry'')]" by (auto simp: prefix_def)
  then show ?thesis using i by (auto simp: r sales_ar_react_def)
qed

theorem saga_commands_once_witness:
  "sales_ar_react sample_platform (\<lambda>_. []) 1 0 Completed (TenantId 1) (SalesOrderId (AggregateId 2))
     \<lparr> ee_event_id = 1, ee_tenant_id = TenantId 1, ee_aggregate_id = AggregateId 2, ee_aggregate_type = ''sales.order'',
       ee_sequence_number = 3, ee_payload = JObject [(''OrderConfirmed'', JNull)] \<rparr> = []"
  using saga_commands_once [of sample_platform "\<lambda>_. []" "TenantId 1" "SalesOrderId (AggregateId 2)" "[]"] by blast

end
