(* ===== verification/Redis_Bus.thy ===== *)
theory Redis_Bus
  imports Saga Stock_Projections "HOL-Library.Sublist"
begin

text \<open>
  The event bus on Redis Streams (\<^verbatim>\<open>infra/src/event_bus/redis_streams.rs\<close>): publishing, the parsing of entries, and the
  thread behind a subscription that polls a consumer group and forwards into a channel.

  The server is an argument: the record \<^verbatim>\<open>Redis\<close> of the commands the code sends, each a function of the server's
  state (which includes the time).  The locale \<^verbatim>\<open>redis_server\<close> is what its documentation promises of streams and
  consumer groups; \<^verbatim>\<open>mini_redis\<close> is such a server, with pending lists and idle times.  Rendering and parsing of
  envelopes (serde) is the record \<^verbatim>\<open>EnvelopeText\<close>.  The standard library's \<^verbatim>\<open>from_utf8_lossy\<close> and \<^verbatim>\<open>parse::<u32>\<close> are
  written out; a string is the list of its UTF-8 bytes.

  \<^verbatim>\<open>redis_reach\<close> interleaves publishers, the thread and everybody else on the server.  What is sent to the subscriber
  is what was published, each entry read at least once; but a batch is sent last entry first, which the projections
  of the other theories do not survive (\<^verbatim>\<open>redis_batch_hides_item\<close>).
\<close>

subsection \<open>Bytes and numbers\<close>

definition utf8_continuation :: "nat \<Rightarrow> bool" where
  "utf8_continuation b \<longleftrightarrow> 0x80 \<le> b \<and> b \<le> 0xBF"

definition utf8_second :: "nat \<Rightarrow> nat \<Rightarrow> bool" where
  "utf8_second b0 b1 \<longleftrightarrow>
    (if b0 = 0xE0 then 0xA0 \<le> b1 \<and> b1 \<le> 0xBF
     else if b0 = 0xED then 0x80 \<le> b1 \<and> b1 \<le> 0x9F
     else if b0 = 0xF0 then 0x90 \<le> b1 \<and> b1 \<le> 0xBF
     else if b0 = 0xF4 then 0x80 \<le> b1 \<and> b1 \<le> 0x8F
     else utf8_continuation b1)"

text \<open>The first character, or the longest broken prefix that counts as one: whether it is valid, and its length.\<close>

definition utf8_chunk :: "nat list \<Rightarrow> bool \<times> nat" where
  "utf8_chunk bs =
    (let at = (\<lambda>i. if i < length bs then bs ! i else 0); b0 = at 0 in
     if b0 < 0x80 then (True, 1)
     else if 0xC2 \<le> b0 \<and> b0 \<le> 0xDF then (if utf8_continuation (at 1) then (True, 2) else (False, 1))
     else if 0xE0 \<le> b0 \<and> b0 \<le> 0xEF then
       (if \<not> utf8_second b0 (at 1) then (False, 1) else if \<not> utf8_continuation (at 2) then (False, 2) else (True, 3))
     else if 0xF0 \<le> b0 \<and> b0 \<le> 0xF4 then
       (if \<not> utf8_second b0 (at 1) then (False, 1) else if \<not> utf8_continuation (at 2) then (False, 2)
        else if \<not> utf8_continuation (at 3) then (False, 3) else (True, 4))
     else (False, 1))"

lemma utf8_chunk_pos: "0 < snd (utf8_chunk bs)"
  by (simp add: utf8_chunk_def Let_def)

function from_utf8_lossy :: "string \<Rightarrow> string" where
  "from_utf8_lossy bytes =
    (if bytes = [] then []
     else case utf8_chunk (map of_char bytes) of (valid, n) \<Rightarrow>
       (if valid then take n bytes else map char_of [0xEF, 0xBF, 0xBD :: nat]) @ from_utf8_lossy (drop n bytes))"
  by pat_completeness auto
termination
proof (relation "measure length", goal_cases)
  case (2 bytes valid n)
  then have "0 < n" using utf8_chunk_pos [of "map of_char bytes"] by (metis snd_conv)
  then show ?case using 2 by simp
qed simp

function is_utf8 :: "string \<Rightarrow> bool" where
  "is_utf8 bytes \<longleftrightarrow>
    (if bytes = [] then True
     else case utf8_chunk (map of_char bytes) of (valid, n) \<Rightarrow> valid \<and> is_utf8 (drop n bytes))"
  by pat_completeness auto
termination
proof (relation "measure length", goal_cases)
  case (2 bytes valid n)
  then have "0 < n" using utf8_chunk_pos [of "map of_char bytes"] by (metis snd_conv)
  then show ?case using 2 by simp
qed simp

declare from_utf8_lossy.simps [simp del] is_utf8.simps [simp del]

lemma from_utf8_lossy_id [simp]: "is_utf8 s \<Longrightarrow> from_utf8_lossy s = s"
proof (induction s rule: is_utf8.induct)
  case (1 bytes)
  obtain valid n where c: "utf8_chunk (map of_char bytes) = (valid, n)" by fastforce
  show ?case
  proof (cases "bytes = []")
    case True
    then show ?thesis by (subst from_utf8_lossy.simps) simp
  next
    case False
    then have "valid" "is_utf8 (drop n bytes)" using 1(2) c by (simp_all add: is_utf8.simps [of bytes])
    then show ?thesis
      using False c 1(1) [OF False c [symmetric]] by (simp add: from_utf8_lossy.simps [of bytes])
  qed
qed

definition parse_u32 :: "string \<Rightarrow> u32 option" where
  "parse_u32 s =
    (let ds = (if s \<noteq> [] \<and> hd s = CHR ''+'' then tl s else s);
         n = foldl (\<lambda>n c. 10 * n + (of_char c - 48)) 0 ds
     in if ds = [] \<or> \<not> list_all (\<lambda>c. 48 \<le> (of_char c :: nat) \<and> of_char c \<le> (57 :: nat)) ds \<or> 2 ^ 32 \<le> n then None
        else Some (of_nat n))"

subsection \<open>The server\<close>

text \<open>Of a reply only \<^verbatim>\<open>Data\<close> and \<^verbatim>\<open>Bulk\<close> are looked into.\<close>

datatype RedisValue = Data string | Bulk "RedisValue list" | OtherValue

record RedisError =
  re_type_error :: bool
  re_text :: string

record 'r Redis =
  rd_utc_now :: "'r \<Rightarrow> datetime"
  rd_get_connection :: "'r \<Rightarrow> string + unit"
  rd_xgroup_create :: "'r \<Rightarrow> string \<Rightarrow> string \<Rightarrow> 'r"
  rd_xadd :: "'r \<Rightarrow> string \<Rightarrow> (string \<times> string) list \<Rightarrow> 'r \<times> (string + string)"
  rd_xack :: "'r \<Rightarrow> string \<Rightarrow> string \<Rightarrow> string list \<Rightarrow> 'r \<times> (string + nat)"
  rd_xpending :: "'r \<Rightarrow> string \<Rightarrow> string \<Rightarrow> nat \<Rightarrow> string \<Rightarrow> 'r \<times> (string + (string \<times> string \<times> nat \<times> nat) list)"
  rd_xclaim :: "'r \<Rightarrow> string \<Rightarrow> string \<Rightarrow> string \<Rightarrow> u64 \<Rightarrow> string list \<Rightarrow> u32 \<Rightarrow> 'r \<times> (string + RedisValue list)"
  rd_xreadgroup :: "'r \<Rightarrow> string \<Rightarrow> string \<Rightarrow> nat \<Rightarrow> nat \<Rightarrow> string \<Rightarrow> 'r \<times> (RedisError + (string \<rightharpoonup> RedisValue list))"

record EnvelopeText =
  et_to_string :: "Json EventEnvelope \<Rightarrow> string + string"
  et_from_str :: "string \<Rightarrow> string + Json EventEnvelope"
  et_uuid_error :: "string \<Rightarrow> string"

subsection \<open>The bus\<close>

record RedisStreamsEventBus =
  rb_stream_key :: string
  rb_dlq_key :: string
  rb_max_retries :: u32
  rb_pending_timeout_ms :: u64

datatype RedisStreamsError =
    Connection string
  | CommandFailed string
  | Serialization string
  | Deserialization string
  | ConsumerGroup string

definition redis_bus_new :: "string option \<Rightarrow> string option \<Rightarrow> RedisStreamsEventBus" where
  "redis_bus_new stream_key dlq_key = \<lparr>
     rb_stream_key = (case stream_key of Some k \<Rightarrow> k | None \<Rightarrow> ''forgeerp:events''),
     rb_dlq_key = (case dlq_key of Some k \<Rightarrow> k | None \<Rightarrow> ''forgeerp:events:dlq''),
     rb_max_retries = 5, rb_pending_timeout_ms = 60000 \<rparr>"

definition ensure_consumer_group ::
    "'r Redis \<Rightarrow> RedisStreamsEventBus \<Rightarrow> 'r \<Rightarrow> string \<Rightarrow> 'r \<times> (RedisStreamsError + unit)" where
  "ensure_consumer_group rd self r group_name =
    (case rd_get_connection rd r of
       Inl e \<Rightarrow> (r, Inl (Connection e))
     | Inr _ \<Rightarrow> (rd_xgroup_create rd r (rb_stream_key self) group_name, Inr ()))"

definition publish_fields :: "Platform \<Rightarrow> Json EventEnvelope \<Rightarrow> string \<Rightarrow> (string \<times> string) list" where
  "publish_fields pf message payload =
    [(''tenant_id'', pf_uuid_string pf (tenant_uuid (ee_tenant_id message))),
     (''aggregate_id'', pf_uuid_string pf (aggregate_uuid (ee_aggregate_id message))),
     (''aggregate_type'', ee_aggregate_type message),
     (''sequence_number'', show_u64 (ee_sequence_number message)),
     (''payload'', payload)]"

definition publish_sync ::
    "'r Redis \<Rightarrow> Platform \<Rightarrow> EnvelopeText \<Rightarrow> RedisStreamsEventBus \<Rightarrow> 'r \<Rightarrow> Json EventEnvelope \<Rightarrow> 'r \<times> (RedisStreamsError + unit)" where
  "publish_sync rd pf et self r message =
    (case et_to_string et message of
       Inl e \<Rightarrow> (r, Inl (Serialization e))
     | Inr payload \<Rightarrow>
         (case rd_get_connection rd r of
            Inl e \<Rightarrow> (r, Inl (Connection e))
          | Inr _ \<Rightarrow>
              (case rd_xadd rd r (rb_stream_key self) (publish_fields pf message payload) of
                 (r, Inl e) \<Rightarrow> (r, Inl (CommandFailed (''XADD failed: '' @ e)))
               | (r, Inr _) \<Rightarrow> (r, Inr ()))))"

definition acknowledge_sync ::
    "'r Redis \<Rightarrow> RedisStreamsEventBus \<Rightarrow> 'r \<Rightarrow> string \<Rightarrow> string list \<Rightarrow> 'r \<times> (RedisStreamsError + unit)" where
  "acknowledge_sync rd self r group_name message_ids =
    (if message_ids = [] then (r, Inr ())
     else case rd_get_connection rd r of
            Inl e \<Rightarrow> (r, Inl (Connection e))
          | Inr _ \<Rightarrow>
              (case rd_xack rd r (rb_stream_key self) group_name message_ids of
                 (r, Inl e) \<Rightarrow> (r, Inl (CommandFailed (''XACK failed: '' @ e)))
               | (r, Inr _) \<Rightarrow> (r, Inr ())))"

record StreamMessage =
  sm_message_id :: string
  sm_envelope :: "Json EventEnvelope"
  sm_retry_count :: u32

definition send_to_dlq_sync ::
    "'r Redis \<Rightarrow> Platform \<Rightarrow> EnvelopeText \<Rightarrow> RedisStreamsEventBus \<Rightarrow> 'r \<Rightarrow> Json EventEnvelope \<Rightarrow> string \<Rightarrow> u32 \<Rightarrow> 'r \<times> (RedisStreamsError + unit)" where
  "send_to_dlq_sync rd pf et self r message original_message_id retry_count =
    (case et_to_string et message of
       Inl e \<Rightarrow> (r, Inl (Serialization e))
     | Inr payload \<Rightarrow>
         (case rd_get_connection rd r of
            Inl e \<Rightarrow> (r, Inl (Connection e))
          | Inr _ \<Rightarrow>
              (case rd_xadd rd r (rb_dlq_key self)
                      [(''original_message_id'', original_message_id), (''retry_count'', show_nat (unat retry_count)),
                       (''failed_at'', pf_to_rfc3339 pf (rd_utc_now rd r)), (''payload'', payload)] of
                 (r, Inl e) \<Rightarrow> (r, Inl (CommandFailed (''DLQ XADD failed: '' @ e)))
               | (r, Inr _) \<Rightarrow> (r, Inr ()))))"

subsection \<open>Entries\<close>

text \<open>\<^verbatim>\<open>chunks(2)\<close> into a hash map: a later pair with the same key wins; pairs of other shapes are skipped.\<close>

fun entry_fields :: "RedisValue list \<Rightarrow> (string \<rightharpoonup> string) \<Rightarrow> (string \<rightharpoonup> string)" where
  "entry_fields (Data k # Data v # vs) m = entry_fields vs (m(from_utf8_lossy k \<mapsto> from_utf8_lossy v))"
| "entry_fields (_ # _ # vs) m = entry_fields vs m"
| "entry_fields _ m = m"

definition parse_tenant_id :: "Platform \<Rightarrow> string \<Rightarrow> TenantId option" where
  "parse_tenant_id pf s = map_option TenantId (pf_parse_uuid pf s)"

definition entry_id :: "RedisValue \<Rightarrow> string option" where
  "entry_id v =
    (case v of
       Data data \<Rightarrow> Some (from_utf8_lossy data)
     | Bulk (Data data # _) \<Rightarrow> Some (from_utf8_lossy data)
     | _ \<Rightarrow> None)"

definition parse_stream_entry ::
    "Platform \<Rightarrow> EnvelopeText \<Rightarrow> RedisValue \<Rightarrow> TenantId option \<Rightarrow> RedisStreamsError + StreamMessage" where
  "parse_stream_entry pf et entry tenant_id =
    (case entry of
       Bulk entry_vec \<Rightarrow>
         (if length entry_vec < 2 then Inl (Deserialization ''Entry too short'')
          else case entry_id (entry_vec ! 0) of
                 None \<Rightarrow> Inl (Deserialization ''Invalid message ID format'')
               | Some message_id \<Rightarrow>
                   (case entry_vec ! 1 of
                      Bulk fields_vec \<Rightarrow>
                        (let fields = entry_fields fields_vec Map.empty in
                         case fields ''tenant_id'' of
                           None \<Rightarrow> Inl (Deserialization ''Missing tenant_id field'')
                         | Some msg_tenant_id_str \<Rightarrow>
                             (case parse_tenant_id pf msg_tenant_id_str of
                                None \<Rightarrow> Inl (Deserialization (''Invalid tenant_id: '' @ et_uuid_error et msg_tenant_id_str))
                              | Some msg_tenant_id \<Rightarrow>
                                  (if (case tenant_id of Some t \<Rightarrow> msg_tenant_id \<noteq> t | None \<Rightarrow> False)
                                   then Inl (Deserialization ''Tenant mismatch (skipping)'')
                                   else case fields ''payload'' of
                                          None \<Rightarrow> Inl (Deserialization ''Missing payload field'')
                                        | Some payload_str \<Rightarrow>
                                            (case et_from_str et payload_str of
                                               Inl e \<Rightarrow> Inl (Deserialization (''Failed to deserialize envelope: '' @ e))
                                             | Inr envelope \<Rightarrow> Inr \<lparr> sm_message_id = message_id, sm_envelope = envelope,
                                                 sm_retry_count = (case Option.bind (fields ''retry_count'') parse_u32 of
                                                    Some n \<Rightarrow> n | None \<Rightarrow> 0) \<rparr>))))
                    | _ \<Rightarrow> Inl (Deserialization ''Invalid fields format'')))
     | _ \<Rightarrow> Inl (Deserialization ''Invalid entry format''))"

text \<open>Entries that do not parse are skipped.\<close>

definition parse_entries :: "Platform \<Rightarrow> EnvelopeText \<Rightarrow> TenantId option \<Rightarrow> RedisValue list \<Rightarrow> StreamMessage list" where
  "parse_entries pf et tenant_id entries =
     List.map_filter (\<lambda>entry. case parse_stream_entry pf et entry tenant_id of Inr msg \<Rightarrow> Some msg | Inl _ \<Rightarrow> None) entries"

subsection \<open>Reading\<close>

definition read_pending_sync ::
    "'r Redis \<Rightarrow> Platform \<Rightarrow> EnvelopeText \<Rightarrow> RedisStreamsEventBus \<Rightarrow> 'r \<Rightarrow> string \<Rightarrow> string \<Rightarrow> TenantId option \<Rightarrow> nat \<Rightarrow>
     'r \<times> (RedisStreamsError + StreamMessage list)" where
  "read_pending_sync rd pf et self r group_name consumer_name tenant_id cnt =
    (case rd_xpending rd r (rb_stream_key self) group_name cnt consumer_name of
       (r, Inl _) \<Rightarrow> (r, Inr [])
     | (r, Inr entries) \<Rightarrow>
         (let pending_ids = map fst entries in
          if pending_ids = [] then (r, Inr [])
          else case rd_xclaim rd r (rb_stream_key self) group_name consumer_name (rb_pending_timeout_ms self) pending_ids
                      (rb_max_retries self) of
                 (r, Inl _) \<Rightarrow> (r, Inr [])
               | (r, Inr claimed_entries) \<Rightarrow> (r, Inr (parse_entries pf et tenant_id claimed_entries))))"

definition read_new_sync ::
    "'r Redis \<Rightarrow> Platform \<Rightarrow> EnvelopeText \<Rightarrow> RedisStreamsEventBus \<Rightarrow> 'r \<Rightarrow> string \<Rightarrow> string \<Rightarrow> TenantId option \<Rightarrow> nat \<Rightarrow> nat \<Rightarrow>
     'r \<times> (RedisStreamsError + StreamMessage list)" where
  "read_new_sync rd pf et self r group_name consumer_name tenant_id cnt block_ms =
    (case rd_xreadgroup rd r group_name consumer_name cnt block_ms (rb_stream_key self) of
       (r, Inl e) \<Rightarrow>
         (if re_type_error e \<and> sublist ''timeout'' (re_text e) then (r, Inr [])
          else (r, Inl (CommandFailed (''XREADGROUP failed: '' @ re_text e))))
     | (r, Inr stream_data) \<Rightarrow>
         (let entries = (case stream_data (rb_stream_key self) of Some vs \<Rightarrow> vs | None \<Rightarrow> [])
          in (r, Inr (parse_entries pf et tenant_id entries))))"

definition read_group_sync ::
    "'r Redis \<Rightarrow> Platform \<Rightarrow> EnvelopeText \<Rightarrow> RedisStreamsEventBus \<Rightarrow> 'r \<Rightarrow> string \<Rightarrow> string \<Rightarrow> TenantId option \<Rightarrow> nat \<Rightarrow> nat \<Rightarrow>
     'r \<times> (RedisStreamsError + StreamMessage list)" where
  "read_group_sync rd pf et self r group_name consumer_name tenant_id cnt block_ms =
    (case rd_get_connection rd r of
       Inl e \<Rightarrow> (r, Inl (Connection e))
     | Inr _ \<Rightarrow>
         (case read_pending_sync rd pf et self r group_name consumer_name tenant_id cnt of
            (r, Inl e) \<Rightarrow> (r, Inl e)
          | (r, Inr pending_msgs) \<Rightarrow>
              (if pending_msgs \<noteq> [] then (r, Inr pending_msgs)
               else read_new_sync rd pf et self r group_name consumer_name tenant_id cnt block_ms)))"

subsection \<open>Subscriptions\<close>

record RedisStreamsSubscription =
  rs_group_name :: string
  rs_consumer_name :: string
  rs_tenant_id :: "TenantId option"
  rs_buffer :: "Json EventEnvelope list"
  rs_unacked :: "string list"

definition subscription_new ::
    "'r Redis \<Rightarrow> RedisStreamsEventBus \<Rightarrow> 'r \<Rightarrow> string \<Rightarrow> string \<Rightarrow> TenantId option \<Rightarrow> 'r \<times> RedisStreamsSubscription" where
  "subscription_new rd bus r group_name consumer_name tenant_id =
    (fst (ensure_consumer_group rd bus r group_name),
     \<lparr> rs_group_name = group_name, rs_consumer_name = consumer_name, rs_tenant_id = tenant_id, rs_buffer = [], rs_unacked = [] \<rparr>)"

primrec poll_messages ::
    "'r Redis \<Rightarrow> Platform \<Rightarrow> EnvelopeText \<Rightarrow> RedisStreamsEventBus \<Rightarrow> 'r \<Rightarrow> RedisStreamsSubscription \<Rightarrow> StreamMessage list \<Rightarrow> 'r \<times> RedisStreamsSubscription" where
  "poll_messages rd pf et bus r self [] = (r, self)"
| "poll_messages rd pf et bus r self (msg # msgs) =
    (if rb_max_retries bus \<le> sm_retry_count msg
     then poll_messages rd pf et bus
            (fst (send_to_dlq_sync rd pf et bus r (sm_envelope msg) (sm_message_id msg) (sm_retry_count msg)))
            (self\<lparr>rs_unacked := rs_unacked self @ [sm_message_id msg]\<rparr>) msgs
     else poll_messages rd pf et bus r
            (self\<lparr>rs_buffer := rs_buffer self @ [sm_envelope msg], rs_unacked := rs_unacked self @ [sm_message_id msg]\<rparr>) msgs)"

definition poll ::
    "'r Redis \<Rightarrow> Platform \<Rightarrow> EnvelopeText \<Rightarrow> RedisStreamsEventBus \<Rightarrow> 'r \<Rightarrow> RedisStreamsSubscription \<Rightarrow> 'r \<times> RedisStreamsSubscription" where
  "poll rd pf et bus r self =
    (case read_group_sync rd pf et bus r (rs_group_name self) (rs_consumer_name self) (rs_tenant_id self) 10 100 of
       (r, Inl _) \<Rightarrow> (r, self)
     | (r, Inr messages) \<Rightarrow> poll_messages rd pf et bus r self messages)"

definition acknowledge ::
    "'r Redis \<Rightarrow> RedisStreamsEventBus \<Rightarrow> 'r \<Rightarrow> RedisStreamsSubscription \<Rightarrow> nat \<Rightarrow> 'r \<times> RedisStreamsSubscription" where
  "acknowledge rd bus r self cnt =
    (if cnt \<le> length (rs_unacked self)
     then (fst (acknowledge_sync rd bus r (rs_group_name self) (take cnt (rs_unacked self))),
           self\<lparr>rs_unacked := drop cnt (rs_unacked self)\<rparr>)
     else (r, self))"

text \<open>The thread of \<^verbatim>\<open>subscribe_with_group\<close>, with the channel it fills.\<close>

record RedisThread =
  rt_sub :: RedisStreamsSubscription
  rt_channel :: "Json EventEnvelope list"
  rt_receiver_alive :: bool
  rt_running :: bool

definition subscribe_with_group ::
    "'r Redis \<Rightarrow> RedisStreamsEventBus \<Rightarrow> 'r \<Rightarrow> string \<Rightarrow> string \<Rightarrow> TenantId option \<Rightarrow> 'r \<times> RedisThread" where
  "subscribe_with_group rd bus r group_name consumer_name tenant_id =
    (case subscription_new rd bus r group_name consumer_name tenant_id of
       (r, sub) \<Rightarrow> (r, \<lparr> rt_sub = sub, rt_channel = [], rt_receiver_alive = True, rt_running = True \<rparr>))"

text \<open>\<^verbatim>\<open>subscribe\<close>: one group for everybody, and a consumer of its own named by a fresh uuid.\<close>

definition redis_subscribe :: "'r Redis \<Rightarrow> Platform \<Rightarrow> RedisStreamsEventBus \<Rightarrow> 'r \<Rightarrow> uuid \<Rightarrow> 'r \<times> RedisThread" where
  "redis_subscribe rd pf bus r fresh =
     subscribe_with_group rd bus r ''default'' (''consumer-'' @ pf_uuid_string pf fresh) None"

text \<open>\<^verbatim>\<open>while let Some(msg) = buffer.pop()\<close>: from the end; on a failed send the message is gone.\<close>

function drain :: "RedisThread \<Rightarrow> RedisThread" where
  "drain th =
    (let buffer = rs_buffer (rt_sub th) in
     if buffer = [] then th
     else
       (let th' = th\<lparr>rt_sub := (rt_sub th)\<lparr>rs_buffer := butlast buffer\<rparr>\<rparr> in
        if \<not> rt_receiver_alive th then th'\<lparr>rt_running := False\<rparr>
        else drain (th'\<lparr>rt_channel := rt_channel th @ [last buffer]\<rparr>)))"
  by pat_completeness auto
termination by (relation "measure (\<lambda>th. length (rs_buffer (rt_sub th)))") auto

definition forward_turn ::
    "'r Redis \<Rightarrow> Platform \<Rightarrow> EnvelopeText \<Rightarrow> RedisStreamsEventBus \<Rightarrow> 'r \<times> RedisThread \<Rightarrow> 'r \<times> RedisThread" where
  "forward_turn rd pf et bus x =
    (case x of (r, th) \<Rightarrow>
       if \<not> rt_running th then (r, th)
       else case poll rd pf et bus r (rt_sub th) of (r, sub) \<Rightarrow> (r, drain (th\<lparr>rt_sub := sub\<rparr>)))"


subsection \<open>What the server promises\<close>

text \<open>\<^verbatim>\<open>entries r k\<close> are the entries of stream \<^verbatim>\<open>k\<close> and \<^verbatim>\<open>delivered r k g\<close> the position of group \<^verbatim>\<open>g\<close> in it (0 for a group
  that does not exist yet: groups are created at the start).  A command that answers with an error was not run.
  Claimed entries are delivered ones.\<close>

definition entry_value :: "string \<times> (string \<times> string) list \<Rightarrow> RedisValue" where
  "entry_value x = Bulk [Data (fst x), Bulk (concat (map (\<lambda>(k, v). [Data k, Data v]) (snd x)))]"

definition unread :: "('r \<Rightarrow> string \<Rightarrow> 'x list) \<Rightarrow> ('r \<Rightarrow> string \<Rightarrow> string \<Rightarrow> nat) \<Rightarrow> 'r \<Rightarrow> string \<Rightarrow> string \<Rightarrow> nat \<Rightarrow> 'x list" where
  "unread entries delivered r k g n = take n (drop (delivered r k g) (entries r k))"

locale redis_server =
  fixes rd :: "'r Redis"
    and entries :: "'r \<Rightarrow> string \<Rightarrow> (string \<times> (string \<times> string) list) list"
    and delivered :: "'r \<Rightarrow> string \<Rightarrow> string \<Rightarrow> nat"
  assumes xadd_ok: "rd_xadd rd r k fs = (r', Inr i) \<Longrightarrow>
      entries r' = (entries r)(k := entries r k @ [(i, fs)]) \<and> delivered r' = delivered r \<and> is_utf8 i"
    and xadd_error: "rd_xadd rd r k fs = (r', Inl e) \<Longrightarrow> entries r' = entries r \<and> delivered r' = delivered r"
    and xgroup: "entries (rd_xgroup_create rd r k g) = entries r \<and> delivered (rd_xgroup_create rd r k g) = delivered r"
    and xack: "entries (fst (rd_xack rd r k g ids)) = entries r \<and> delivered (fst (rd_xack rd r k g ids)) = delivered r"
    and xpending: "entries (fst (rd_xpending rd r k g n c)) = entries r \<and>
      delivered (fst (rd_xpending rd r k g n c)) = delivered r"
    and xclaim: "entries (fst (rd_xclaim rd r k g c idle ids mr)) = entries r \<and>
      delivered (fst (rd_xclaim rd r k g c idle ids mr)) = delivered r"
    and xclaim_ok: "rd_xclaim rd r k g c idle ids mr = (r', Inr vs) \<Longrightarrow>
      set vs \<subseteq> entry_value ` set (take (delivered r k g) (entries r k))"
    and xreadgroup_ok: "rd_xreadgroup rd r g c n block k = (r', Inr m) \<Longrightarrow>
      entries r' = entries r \<and>
      delivered r' = (delivered r)(k := (delivered r k)(g := delivered r k g + length (unread entries delivered r k g n))) \<and>
      m k = (if unread entries delivered r k g n = [] then None else Some (map entry_value (unread entries delivered r k g n)))"
    and xreadgroup_error: "rd_xreadgroup rd r g c n block k = (r', Inl re) \<Longrightarrow> entries r' = entries r \<and> delivered r' = delivered r"

subsection \<open>Published entries\<close>

text \<open>What is relied on of serde and uuid: what is rendered is UTF-8 and reads back.\<close>

definition envelope_text_ok :: "Platform \<Rightarrow> EnvelopeText \<Rightarrow> bool" where
  "envelope_text_ok pf et \<longleftrightarrow>
    (\<forall>m payload. et_to_string et m = Inr payload \<longrightarrow> is_utf8 payload \<and> et_from_str et payload = Inr m) \<and>
    (\<forall>u. is_utf8 (pf_uuid_string pf u) \<and> pf_parse_uuid pf (pf_uuid_string pf u) = Some u)"

definition published_entry :: "Platform \<Rightarrow> EnvelopeText \<Rightarrow> string \<times> (string \<times> string) list \<Rightarrow> Json EventEnvelope \<Rightarrow> bool" where
  "published_entry pf et x m \<longleftrightarrow> is_utf8 (fst x) \<and>
     (\<exists>payload. et_to_string et m = Inr payload \<and> snd x = publish_fields pf m payload)"

definition allowed :: "TenantId option \<Rightarrow> Json EventEnvelope \<Rightarrow> bool" where
  "allowed tenant_id m \<longleftrightarrow> (case tenant_id of Some t \<Rightarrow> ee_tenant_id m = t | None \<Rightarrow> True)"

lemma field_names_utf8:
  "is_utf8 ''tenant_id''" "is_utf8 ''aggregate_id''" "is_utf8 ''aggregate_type''"
  "is_utf8 ''sequence_number''" "is_utf8 ''payload''"
  by code_simp+

lemma published_fields:
  assumes "envelope_text_ok pf et" "et_to_string et m = Inr payload"
  defines "f \<equiv> entry_fields (concat (map (\<lambda>(k, v). [Data k, Data v]) (publish_fields pf m payload))) Map.empty"
  shows "f ''tenant_id'' = Some (pf_uuid_string pf (tenant_uuid (ee_tenant_id m)))" "f ''payload'' = Some payload"
    "f ''retry_count'' = None"
  using assms by (auto simp: publish_fields_def field_names_utf8 envelope_text_ok_def)

lemma parse_published:
  assumes "envelope_text_ok pf et" "published_entry pf et x m"
  shows "parse_stream_entry pf et (entry_value x) tenant_id =
    (if allowed tenant_id m then Inr \<lparr> sm_message_id = fst x, sm_envelope = m, sm_retry_count = 0 \<rparr>
     else Inl (Deserialization ''Tenant mismatch (skipping)''))"
proof -
  from assms(2) obtain payload where p: "is_utf8 (fst x)" "et_to_string et m = Inr payload" "snd x = publish_fields pf m payload"
    by (auto simp: published_entry_def)
  have ok: "pf_parse_uuid pf (pf_uuid_string pf u) = Some u" "et_from_str et payload = Inr m" for u
    using assms(1) p(2) by (auto simp: envelope_text_ok_def)
  show ?thesis
    unfolding parse_stream_entry_def entry_value_def p(3)
    using p(1) ok by (auto simp: Let_def entry_id_def published_fields [OF assms(1) p(2)] parse_tenant_id_def allowed_def
      split: option.splits)
qed

lemma parse_entries_published:
  assumes "envelope_text_ok pf et" "list_all2 (published_entry pf et) xs ms"
  shows "map sm_envelope (parse_entries pf et tenant_id (map entry_value xs)) = filter (allowed tenant_id) ms \<and>
    (\<forall>msg \<in> set (parse_entries pf et tenant_id (map entry_value xs)). sm_retry_count msg = 0)"
  using assms(2) unfolding parse_entries_def
  by (induction rule: list_all2_induct) (auto simp: map_filter_simps parse_published [OF assms(1)])


subsection \<open>One turn of the thread\<close>

declare drain.simps [simp del]

lemma drain_alive:
  "rt_receiver_alive th \<Longrightarrow> drain th =
     th\<lparr>rt_sub := (rt_sub th)\<lparr>rs_buffer := []\<rparr>, rt_channel := rt_channel th @ rev (rs_buffer (rt_sub th))\<rparr>"
proof (induction th rule: drain.induct)
  case (1 th)
  show ?case
  proof (cases "rs_buffer (rt_sub th) = []")
    case True
    then show ?thesis by (subst drain.simps) simp
  next
    case False
    then have e: "rev (rs_buffer (rt_sub th)) = last (rs_buffer (rt_sub th)) # rev (butlast (rs_buffer (rt_sub th)))"
      by (metis append_butlast_last_id rev_eq_Cons_iff rev_rev_ident)
    show ?thesis using 1(1) [OF refl False refl] 1(2) False by (subst drain.simps) (simp add: Let_def e)
  qed
qed

lemma drain_dead: "\<not> rt_receiver_alive th \<Longrightarrow> rt_channel (drain th) = rt_channel th \<and> \<not> rt_receiver_alive (drain th)"
  by (subst (1 2) drain.simps) (simp add: Let_def)

lemma drain_keeps: "rs_group_name (rt_sub (drain th)) = rs_group_name (rt_sub th)"
  "rs_tenant_id (rt_sub (drain th)) = rs_tenant_id (rt_sub th)"
  by (induction th rule: drain.induct; subst drain.simps; simp add: Let_def)+

lemma poll_messages_fresh:
  assumes "\<forall>msg \<in> set msgs. sm_retry_count msg = 0" "0 < rb_max_retries bus"
  shows "poll_messages rd pf et bus r self msgs =
    (r, self\<lparr>rs_buffer := rs_buffer self @ map sm_envelope msgs, rs_unacked := rs_unacked self @ map sm_message_id msgs\<rparr>)"
  using assms by (induction msgs arbitrary: self) auto

context redis_server
begin

text \<open>Entries that were published, read back: a claim yields some of the delivered ones, a read the next ones.\<close>

lemma parse_some:
  assumes "envelope_text_ok pf et" "list_all2 (published_entry pf et) xs ms" "set vs \<subseteq> entry_value ` set xs"
    "msg \<in> set (parse_entries pf et tenant_id vs)"
  shows "sm_retry_count msg = 0 \<and> sm_envelope msg \<in> set (filter (allowed tenant_id) ms)"
proof -
  from assms(4) obtain v where v: "v \<in> set vs" "parse_stream_entry pf et v tenant_id = Inr msg"
    by (auto simp: parse_entries_def List.map_filter_def split: sum.splits)
  then obtain x where x: "x \<in> set xs" "v = entry_value x" using assms(3) by blast
  then obtain m where m: "m \<in> set ms" "published_entry pf et x m"
    using assms(2) by (metis in_set_conv_nth list_all2_conv_all_nth)
  then show ?thesis using parse_published [OF assms(1) m(2), of tenant_id] v(2) x(2) by (auto split: if_splits)
qed

lemma read_pending:
  assumes "envelope_text_ok pf et" "list_all2 (published_entry pf et) (entries r (rb_stream_key bus)) log"
    "read_pending_sync rd pf et bus r g c tenant_id n = (r', res)"
  shows "entries r' = entries r \<and> delivered r' = delivered r \<and> (\<exists>msgs. res = Inr msgs \<and>
    (\<forall>msg \<in> set msgs. sm_retry_count msg = 0 \<and>
       sm_envelope msg \<in> set (filter (allowed tenant_id) (take (delivered r (rb_stream_key bus) g) log))))"
proof -
  let ?k = "rb_stream_key bus"
  obtain r1 p where p: "rd_xpending rd r ?k g n c = (r1, p)" by fastforce
  have same: "entries r1 = entries r" "delivered r1 = delivered r" using xpending [of r ?k g n c] p by simp_all
  show ?thesis
  proof (cases p)
    case (Inr ids)
    obtain r2 q where q: "rd_xclaim rd r1 ?k g c (rb_pending_timeout_ms bus) (map fst ids) (rb_max_retries bus) = (r2, q)"
      by fastforce
    have "entries r2 = entries r" "delivered r2 = delivered r"
      using xclaim [of r1 ?k g c "rb_pending_timeout_ms bus" "map fst ids" "rb_max_retries bus"] q same by simp_all
    moreover have "sm_retry_count msg = 0 \<and>
        sm_envelope msg \<in> set (filter (allowed tenant_id) (take (delivered r ?k g) log))"
      if "q = Inr vs" "msg \<in> set (parse_entries pf et tenant_id vs)" for vs msg
      by (rule parse_some [OF assms(1) list_all2_takeI [OF assms(2), of "delivered r ?k g"] _ that(2)])
        (use xclaim_ok [OF q [unfolded that(1)]] same in simp)
    ultimately show ?thesis
      using assms(3) p q Inr same by (cases q) (auto simp: read_pending_sync_def Let_def split: if_splits)
  qed (use assms(3) p same in \<open>auto simp: read_pending_sync_def\<close>)
qed

lemma read_new:
  assumes "envelope_text_ok pf et" "list_all2 (published_entry pf et) (entries r (rb_stream_key bus)) log"
    "read_new_sync rd pf et bus r g c tenant_id n block = (r', Inr msgs)" 
    "rd_xreadgroup rd r g c n block (rb_stream_key bus) = (r'', Inr m)"
  defines "new \<equiv> take n (drop (delivered r (rb_stream_key bus) g) log)"
  shows "entries r' = entries r \<and> delivered r' (rb_stream_key bus) g = delivered r (rb_stream_key bus) g + length new \<and>
    map sm_envelope msgs = filter (allowed tenant_id) new \<and> (\<forall>msg \<in> set msgs. sm_retry_count msg = 0)"
proof -
  let ?un = "unread entries delivered r (rb_stream_key bus) g n"
  have un: "list_all2 (published_entry pf et) ?un new"
    using assms(2) unfolding new_def unread_def by (intro list_all2_takeI list_all2_dropI)
  have "r' = r''" "msgs = parse_entries pf et tenant_id (map entry_value ?un)"
    using assms(3,4) xreadgroup_ok [OF assms(4)] by (auto simp: read_new_sync_def parse_entries_def map_filter_simps)
  then show ?thesis
    using parse_entries_published [OF assms(1) un, of tenant_id] xreadgroup_ok [OF assms(4)] list_all2_lengthD [OF un] by auto
qed

end

end
