(* ===== verification/Redis_Pubsub.thy ===== *)
theory Redis_Pubsub
  imports Redis_Bus
begin

text \<open>
  The event bus on Redis pub/sub (\<^verbatim>\<open>infra/src/event_bus/redis_pubsub.rs\<close>): publishing, and the thread that forwards the
  messages of a channel.  What the connection answers is an argument.
\<close>

record RedisPubSubEventBus =
  rp_channel :: string

datatype RedisBusError = Redis string | Serialize string

text \<open>\<^verbatim>\<open>publish\<close>: the connection, then the command with the number of receivers or an error.\<close>

definition pubsub_publish ::
    "('r \<Rightarrow> string + unit) \<Rightarrow> ('r \<Rightarrow> string \<Rightarrow> string \<Rightarrow> 'r \<times> (string + int)) \<Rightarrow> EnvelopeText \<Rightarrow> RedisPubSubEventBus \<Rightarrow> 'r \<Rightarrow>
     Json EventEnvelope \<Rightarrow> 'r \<times> (RedisBusError + unit)" where
  "pubsub_publish connect send et self r message =
    (case et_to_string et message of
       Inl e \<Rightarrow> (r, Inl (Serialize e))
     | Inr payload \<Rightarrow>
         (case connect r of
            Inl e \<Rightarrow> (r, Inl (Redis e))
          | Inr _ \<Rightarrow>
              (case send r (rp_channel self) payload of
                 (r, Inl e) \<Rightarrow> (r, Inl (Redis e))
               | (r, Inr _) \<Rightarrow> (r, Inr ()))))"

text \<open>What \<^verbatim>\<open>get_message\<close> and \<^verbatim>\<open>get_payload\<close> give.\<close>

datatype PubSubReply = Lost | Unreadable | Payload string

record PubSubThread =
  pt_sent :: "Json EventEnvelope list"
  pt_receiver_alive :: bool
  pt_running :: bool

definition pubsub_subscribe :: "string + unit \<Rightarrow> bool \<Rightarrow> PubSubThread" where
  "pubsub_subscribe connection subscribed =
     \<lparr> pt_sent = [], pt_receiver_alive = True,
       pt_running = (case connection of Inl _ \<Rightarrow> False | Inr _ \<Rightarrow> subscribed) \<rparr>"

definition pubsub_turn :: "EnvelopeText \<Rightarrow> PubSubThread \<Rightarrow> PubSubReply \<Rightarrow> PubSubThread" where
  "pubsub_turn et th reply =
    (if \<not> pt_running th then th
     else case reply of
            Lost \<Rightarrow> th\<lparr>pt_running := False\<rparr>
          | Unreadable \<Rightarrow> th
          | Payload payload \<Rightarrow>
              (case et_from_str et payload of
                 Inl _ \<Rightarrow> th
               | Inr envelope \<Rightarrow>
                   if pt_receiver_alive th then th\<lparr>pt_sent := pt_sent th @ [envelope]\<rparr> else th\<lparr>pt_running := False\<rparr>))"

definition envelope_of :: "EnvelopeText \<Rightarrow> PubSubReply \<Rightarrow> Json EventEnvelope option" where
  "envelope_of et reply =
    (case reply of Payload payload \<Rightarrow> (case et_from_str et payload of Inr env \<Rightarrow> Some env | Inl _ \<Rightarrow> None) | _ \<Rightarrow> None)"

text \<open>A thread whose receiver listens forwards every envelope it can read, in order, until the connection is lost.\<close>

theorem pubsub_forwards_in_order:
  assumes "pt_receiver_alive th" "pt_running th"
  shows "pt_sent (foldl (pubsub_turn et) th replies) =
    pt_sent th @ List.map_filter (envelope_of et) (takeWhile (\<lambda>r. r \<noteq> Lost) replies)"
  using assms
proof (induction replies arbitrary: th)
  case (Cons r rs)
  have stopped: "foldl (pubsub_turn et) th rs = th" if "\<not> pt_running th" for th rs
    using that by (induction rs) (simp_all add: pubsub_turn_def)
  show ?case
  proof (cases r)
    case Lost
    then show ?thesis using Cons.prems by (simp add: pubsub_turn_def [of _ th] stopped map_filter_simps)
  next
    case Unreadable
    then show ?thesis using Cons by (simp add: pubsub_turn_def [of _ th] envelope_of_def map_filter_simps)
  next
    case (Payload p)
    then show ?thesis
      using Cons.prems Cons.IH [of "pubsub_turn et th (Payload p)"]
      by (cases "et_from_str et p") (simp_all add: pubsub_turn_def [of _ th] envelope_of_def map_filter_simps)
  qed
qed (simp add: map_filter_simps)

end
