(* ===== verification/F64.thy ===== *)
theory F64
  imports Complex_Main Prelude
begin

text \<open>
  Rust's \<^verbatim>\<open>f64\<close>: IEEE 754 binary64 with rounding to nearest, ties to even.

  A finite number is its sign and its magnitude, an exact rational; every operation is the exact one followed by
  \<^verbatim>\<open>round64\<close>.  Zeros carry a sign, a not-a-number no payload.  The lemmas say that rounding respects powers of two,
  is exact on small integers, and which operations stay finite.
\<close>

datatype F64 = Finite bool rat | Infinite bool | NaN

definition pow2 :: "int \<Rightarrow> rat" where
  "pow2 e = 2 powi e"

fun two_power :: "int \<Rightarrow> nat \<Rightarrow> int" where
  "two_power acc 0 = acc"
| "two_power acc (Suc n) = two_power (2 * acc) n"

lemma two_power: "two_power acc n = acc * 2 ^ n"
  by (induction acc n rule: two_power.induct) simp_all

lemma pow2_code [code]:
  "pow2 e = (if 0 \<le> e then of_int (two_power 1 (nat e)) else Fract 1 (two_power 1 (nat (- e))))"
  by (simp add: pow2_def two_power power_int_def Fract_of_int_quotient inverse_eq_divide power_one_over)

subsection \<open>Rounding\<close>

function bit_length :: "int \<Rightarrow> int" where
  "bit_length n = (if n \<le> 0 then 0 else 1 + bit_length (n div 2))"
  by pat_completeness auto
termination by (relation "measure nat") auto

declare bit_length.simps [simp del]

text \<open>The exponent of a positive rational: \<^verbatim>\<open>2^e \<le> x < 2^(e+1)\<close>.\<close>

definition exponent :: "rat \<Rightarrow> int" where
  "exponent x =
    (case quotient_of x of (n, d) \<Rightarrow>
       let e = bit_length n - bit_length d in if pow2 e \<le> x then e else e - 1)"

definition nearest :: "rat \<Rightarrow> int" where
  "nearest x =
    (let f = \<lfloor>x\<rfloor>; r = x - of_int f
     in if r < 1 / 2 \<or> (r = 1 / 2 \<and> even f) then f else f + 1)"

definition ulp_exponent :: "rat \<Rightarrow> int" where
  "ulp_exponent x = max (exponent x - 52) (- 1074)"

definition rounded :: "rat \<Rightarrow> rat" where
  "rounded x = of_int (nearest (x / pow2 (ulp_exponent x))) * pow2 (ulp_exponent x)"

definition round64 :: "bool \<Rightarrow> rat \<Rightarrow> F64" where
  "round64 neg x =
    (if x = 0 then Finite neg 0 else let v = rounded x in if pow2 1024 \<le> v then Infinite neg else Finite neg v)"

subsection \<open>Operations\<close>

fun f64_value :: "F64 \<Rightarrow> rat" where
  "f64_value (Finite neg x) = (if neg then - x else x)"
| "f64_value _ = 0"

definition round_signed :: "rat \<Rightarrow> F64" where
  "round_signed x = round64 (x < 0) \<bar>x\<bar>"

definition f64_of_int :: "int \<Rightarrow> F64" where
  "f64_of_int n = round_signed (of_int n)"

fun f64_neg :: "F64 \<Rightarrow> F64" where
  "f64_neg (Finite s x) = Finite (\<not> s) x"
| "f64_neg (Infinite s) = Infinite (\<not> s)"
| "f64_neg NaN = NaN"

fun f64_add :: "F64 \<Rightarrow> F64 \<Rightarrow> F64" where
  "f64_add (Finite s x) (Finite t y) =
    (let v = f64_value (Finite s x) + f64_value (Finite t y)
     in if v = 0 then Finite (s \<and> t) 0 else round_signed v)"
| "f64_add (Infinite s) (Infinite t) = (if s = t then Infinite s else NaN)"
| "f64_add (Infinite s) (Finite _ _) = Infinite s"
| "f64_add (Finite _ _) (Infinite t) = Infinite t"
| "f64_add _ _ = NaN"

definition f64_sub :: "F64 \<Rightarrow> F64 \<Rightarrow> F64" where
  "f64_sub a b = f64_add a (f64_neg b)"

fun f64_mul :: "F64 \<Rightarrow> F64 \<Rightarrow> F64" where
  "f64_mul (Finite s x) (Finite t y) = round64 (s \<noteq> t) (x * y)"
| "f64_mul (Infinite s) (Infinite t) = Infinite (s \<noteq> t)"
| "f64_mul (Infinite s) (Finite t y) = (if y = 0 then NaN else Infinite (s \<noteq> t))"
| "f64_mul (Finite s x) (Infinite t) = (if x = 0 then NaN else Infinite (s \<noteq> t))"
| "f64_mul _ _ = NaN"

fun f64_div :: "F64 \<Rightarrow> F64 \<Rightarrow> F64" where
  "f64_div (Finite s x) (Finite t y) =
    (if y = 0 then (if x = 0 then NaN else Infinite (s \<noteq> t)) else round64 (s \<noteq> t) (x / y))"
| "f64_div (Infinite s) (Finite t y) = Infinite (s \<noteq> t)"
| "f64_div (Finite s x) (Infinite t) = Finite (s \<noteq> t) 0"
| "f64_div _ _ = NaN"

fun f64_abs :: "F64 \<Rightarrow> F64" where
  "f64_abs (Finite _ x) = Finite False x"
| "f64_abs (Infinite _) = Infinite False"
| "f64_abs NaN = NaN"

text \<open>Comparisons: false with a not-a-number.\<close>

fun f64_lt :: "F64 \<Rightarrow> F64 \<Rightarrow> bool" where
  "f64_lt (Finite s x) (Finite t y) \<longleftrightarrow> f64_value (Finite s x) < f64_value (Finite t y)"
| "f64_lt (Infinite s) (Infinite t) \<longleftrightarrow> s \<and> \<not> t"
| "f64_lt (Infinite s) (Finite _ _) \<longleftrightarrow> s"
| "f64_lt (Finite _ _) (Infinite t) \<longleftrightarrow> \<not> t"
| "f64_lt _ _ \<longleftrightarrow> False"

fun f64_le :: "F64 \<Rightarrow> F64 \<Rightarrow> bool" where
  "f64_le (Finite s x) (Finite t y) \<longleftrightarrow> f64_value (Finite s x) \<le> f64_value (Finite t y)"
| "f64_le (Infinite s) (Infinite t) \<longleftrightarrow> s \<or> \<not> t"
| "f64_le (Infinite s) (Finite _ _) \<longleftrightarrow> s"
| "f64_le (Finite _ _) (Infinite t) \<longleftrightarrow> \<not> t"
| "f64_le _ _ \<longleftrightarrow> False"

text \<open>The square root, correctly rounded: no root of a double lies in the middle of two.\<close>

function isqrt :: "int \<Rightarrow> int" where
  "isqrt n = (if n \<le> 0 then 0 else let r = 2 * isqrt (n div 4) in if (r + 1) * (r + 1) \<le> n then r + 1 else r)"
  by pat_completeness auto
termination by (relation "measure nat") auto

declare isqrt.simps [simp del]

definition sqrt_rounded :: "rat \<Rightarrow> rat" where
  "sqrt_rounded x =
    (let e = exponent x div 2 - 52; y = x / pow2 (2 * e); m = isqrt \<lfloor>y\<rfloor>;
         m = (if (of_int m + 1 / 2) * (of_int m + 1 / 2) < y then m + 1 else m)
     in of_int m * pow2 e)"

fun f64_sqrt :: "F64 \<Rightarrow> F64" where
  "f64_sqrt (Finite s x) = (if x = 0 then Finite s 0 else if s then NaN else Finite False (sqrt_rounded x))"
| "f64_sqrt (Infinite s) = (if s then NaN else Infinite False)"
| "f64_sqrt NaN = NaN"

text \<open>\<^verbatim>\<open>Iterator::sum\<close> starts from negative zero.\<close>

definition f64_sum :: "F64 list \<Rightarrow> F64" where
  "f64_sum xs = foldl f64_add (Finite True 0) xs"

definition is_finite :: "F64 \<Rightarrow> bool" where
  "is_finite a = (case a of Finite _ _ \<Rightarrow> True | _ \<Rightarrow> False)"

text \<open>\<^verbatim>\<open>f64::EPSILON\<close>.\<close>

definition f64_epsilon :: F64 where
  "f64_epsilon = Finite False (pow2 (- 52))"

subsection \<open>Rounding and powers of two\<close>

lemma pow2_simps [simp]: "0 < pow2 e" "pow2 e \<noteq> 0" "pow2 0 = 1" "0 \<le> pow2 e"
  by (simp_all add: pow2_def)

lemma pow2_add: "pow2 (a + b) = pow2 a * pow2 b"
  by (simp add: pow2_def power_int_add)

lemma pow2_diff: "pow2 (a - b) = pow2 a / pow2 b"
  by (simp add: pow2_def power_int_diff)

lemma pow2_mono: "a \<le> b \<Longrightarrow> pow2 a \<le> pow2 b"
  by (simp add: pow2_def power_int_increasing)

lemma pow2_less: "a < b \<Longrightarrow> pow2 a < pow2 b"
  by (simp add: pow2_def power_int_strict_increasing)

lemma pow2_nat: "pow2 (int n) = 2 ^ n"
  by (simp add: pow2_def)

lemma pow2_int: "0 \<le> e \<Longrightarrow> pow2 e = of_int (2 ^ nat e)"
  by (simp add: pow2_def power_int_def)

lemma bit_length_bounds:
  "0 < n \<Longrightarrow> 0 < bit_length n \<and> 2 ^ nat (bit_length n - 1) \<le> n \<and> n < 2 ^ nat (bit_length n)"
proof (induction n rule: bit_length.induct)
  case (1 n)
  show ?case
  proof (cases "n = 1")
    case True
    then show ?thesis by (simp add: bit_length.simps [of 1] bit_length.simps [of 0])
  next
    case False
    let ?b = "bit_length (n div 2)"
    have pos: "0 < n div 2" using 1(2) False by auto
    then have IH: "0 < ?b" "2 ^ nat (?b - 1) \<le> n div 2" "n div 2 < 2 ^ nat ?b" using 1(1,2) by auto
    have b: "bit_length n = 1 + ?b" using 1(2) by (subst bit_length.simps) simp
    have "nat ?b = Suc (nat (?b - 1))" "nat (1 + ?b) = Suc (nat ?b)" using IH(1) by auto
    then show ?thesis unfolding b using IH by simp linarith
  qed
qed

lemma exponent_bounds:
  assumes "0 < x"
  shows "pow2 (exponent x) \<le> x \<and> x < pow2 (exponent x + 1)"
proof -
  obtain n d where q: "quotient_of x = (n, d)" by fastforce
  have x: "x = of_int n / of_int d" "0 < d" "0 < n"
    using quotient_of_div [OF q] quotient_of_denom_pos [OF q] assms by (auto simp: zero_less_divide_iff)
  let ?a = "bit_length n" and ?b = "bit_length d"
  have a: "0 < ?a" "pow2 (?a - 1) \<le> of_int n" "of_int n < pow2 ?a"
    using bit_length_bounds [OF x(3)] by (simp_all add: pow2_int del: of_int_power)
  have b: "0 < ?b" "pow2 (?b - 1) \<le> of_int d" "of_int d < pow2 ?b"
    using bit_length_bounds [OF x(2)] by (simp_all add: pow2_int del: of_int_power)
  have "pow2 (?a - 1 - ?b) \<le> x" unfolding pow2_diff [of "?a - 1"] x(1)
    using a b x by (intro frac_le) (simp_all add: less_imp_le)
  moreover have "x < pow2 (?a - (?b - 1))" unfolding pow2_diff [of ?a] x(1)
    using a b x by (intro frac_less) (simp_all add: less_imp_le)
  ultimately show ?thesis by (auto simp: exponent_def q Let_def algebra_simps)
qed

lemma exponent_le: "0 < x \<Longrightarrow> x \<le> pow2 k \<Longrightarrow> exponent x \<le> k"
  using exponent_bounds [of x] pow2_less [of k "exponent x"] by force

lemma exponent_ge: "0 < x \<Longrightarrow> pow2 k \<le> x \<Longrightarrow> k \<le> exponent x"
  using exponent_bounds [of x] pow2_mono [of "exponent x + 1" k] by force

lemma nearest_int [simp]: "nearest (of_int n) = n"
  by (simp add: nearest_def Let_def)

lemma nearest_ge: "of_int n \<le> x \<Longrightarrow> n \<le> nearest x"
  using le_floor_iff [of n x] by (simp add: nearest_def Let_def)

lemma nearest_le:
  assumes "x \<le> of_int n"
  shows "nearest x \<le> n"
proof (cases "\<lfloor>x\<rfloor> = n")
  case True
  then have "x = of_int n" using assms of_int_floor_le [of x] by simp
  then show ?thesis by simp
next
  case False
  then have "\<lfloor>x\<rfloor> < n" using assms floor_mono [of x "of_int n"] by simp
  then show ?thesis by (simp add: nearest_def Let_def)
qed

text \<open>Rounding keeps below and above a power of two.\<close>

lemma rounded_ge:
  assumes "0 < x" "pow2 k \<le> x" "- 1074 \<le> k"
  shows "pow2 k \<le> rounded x"
proof -
  let ?e = "ulp_exponent x"
  show ?thesis
  proof (cases "?e \<le> k")
    case True
    then have "of_int (2 ^ nat (k - ?e)) \<le> x / pow2 ?e"
      using assms(2) by (simp add: pow2_int [symmetric] pow2_diff divide_right_mono del: of_int_power)
    then have "2 ^ nat (k - ?e) \<le> nearest (x / pow2 ?e)" by (rule nearest_ge)
    then have "of_int (2 ^ nat (k - ?e)) \<le> (of_int (nearest (x / pow2 ?e)) :: rat)" by (simp only: of_int_le_iff)
    then have "pow2 (k - ?e) * pow2 ?e \<le> of_int (nearest (x / pow2 ?e)) * pow2 ?e"
      using True by (simp add: pow2_int mult_right_mono del: of_int_power)
    then show ?thesis by (simp add: rounded_def pow2_diff)
  next
    case False
    then have e: "?e = exponent x - 52" using assms(3) by (simp add: ulp_exponent_def max_def split: if_splits)
    have "of_int (2 ^ 52) \<le> x / pow2 ?e"
    proof -
      have "pow2 52 * pow2 ?e \<le> x" using exponent_bounds [OF assms(1)] by (simp add: e flip: pow2_add)
      moreover have "pow2 52 = (of_int (2 ^ 52) :: rat)" using pow2_int [of 52] by simp
      ultimately show ?thesis by (simp add: pos_le_divide_eq)
    qed
    then have "(2 :: int) ^ 52 \<le> nearest (x / pow2 ?e)" by (rule nearest_ge)
    then have "(1 :: rat) \<le> of_int (nearest (x / pow2 ?e))" by simp
    then have "pow2 ?e \<le> of_int (nearest (x / pow2 ?e)) * pow2 ?e" by simp
    moreover have "pow2 k \<le> pow2 ?e" using False by (intro pow2_mono) simp
    ultimately show ?thesis unfolding rounded_def by (rule order_trans [rotated])
  qed
qed

lemma rounded_le:
  assumes "0 < x" "x \<le> pow2 k" "- 1074 \<le> k"
  shows "rounded x \<le> pow2 k"
proof -
  let ?e = "ulp_exponent x"
  have e: "?e \<le> k" using exponent_le [OF assms(1,2)] assms(3) by (simp add: ulp_exponent_def)
  then have "x / pow2 ?e \<le> of_int (2 ^ nat (k - ?e))"
    using assms(2) by (simp add: pow2_int [symmetric] pow2_diff divide_right_mono del: of_int_power)
  then have "nearest (x / pow2 ?e) \<le> 2 ^ nat (k - ?e)" by (rule nearest_le)
  then have "of_int (nearest (x / pow2 ?e)) \<le> (of_int (2 ^ nat (k - ?e)) :: rat)" by (simp only: of_int_le_iff)
  then have "of_int (nearest (x / pow2 ?e)) * pow2 ?e \<le> pow2 (k - ?e) * pow2 ?e"
    using e by (simp add: pow2_int mult_right_mono del: of_int_power)
  then show ?thesis by (simp add: rounded_def pow2_diff)
qed

lemma round64_ge:
  assumes "pow2 k \<le> x" "- 1074 \<le> k"
  shows "round64 neg x = Infinite neg \<or> (\<exists>v. round64 neg x = Finite neg v \<and> pow2 k \<le> v)"
proof -
  have "0 < x" using assms(1) pow2_simps(1) [of k] by linarith
  then show ?thesis using rounded_ge [OF _ assms] by (simp add: round64_def Let_def)
qed

lemma round64_le:
  assumes "0 \<le> x" "x \<le> pow2 k" "- 1074 \<le> k" "k < 1024"
  obtains v where "round64 neg x = Finite neg v" "0 \<le> v" "v \<le> pow2 k"
proof (cases "x = 0")
  case True
  then show thesis by (intro that [of 0]) (simp_all add: round64_def)
next
  case False
  then have x: "0 < x" using assms(1) by simp
  note le = rounded_le [OF x assms(2,3)]
  have "0 \<le> nearest (x / pow2 (ulp_exponent x))" using x by (intro nearest_ge) simp
  then have "0 \<le> rounded x" by (simp add: rounded_def)
  then show thesis
    using le pow2_less [OF assms(4)] x by (intro that [of "rounded x"]) (simp_all add: round64_def Let_def)
qed

lemma round64_sign: "round64 neg x = Infinite neg \<or> (\<exists>v. round64 neg x = Finite neg v)"
  by (simp add: round64_def Let_def)

text \<open>Integers of up to 53 bits are exact.\<close>

lemma round64_int:
  assumes "0 \<le> n" "n \<le> 2 ^ 53"
  shows "round64 neg (of_int n) = Finite neg (of_int n)"
proof (cases "n = 0 \<or> n = 2 ^ 53")
  case True
  have "round64 b (of_int (2 ^ 53)) = Finite b (of_int (2 ^ 53))" for b by (cases b) code_simp+
  then show ?thesis using True by (auto simp: round64_def)
next
  case False
  let ?x = "of_int n :: rat"
  let ?e = "ulp_exponent ?x"
  have p: "pow2 53 = of_int (2 ^ 53)" using pow2_int [of 53] by simp
  have x: "0 < ?x" "?x < pow2 53" unfolding p of_int_less_iff using assms False by simp_all
  have "exponent ?x < 53"
  proof (rule ccontr)
    assume "\<not> exponent ?x < 53"
    then have "pow2 53 \<le> pow2 (exponent ?x)" by (intro pow2_mono) simp
    then show False using exponent_bounds [OF x(1)] x(2) by linarith
  qed
  then have e: "?e \<le> 0" by (simp add: ulp_exponent_def)
  then have "?x / pow2 ?e = of_int (n * 2 ^ nat (- ?e))"
    using pow2_int [of "- ?e"] pow2_diff [of 0 ?e] by (simp add: divide_inverse)
  then have "rounded ?x = ?x" unfolding rounded_def by (metis nearest_int nonzero_eq_divide_eq pow2_simps(2))
  moreover have "?x < pow2 1024" using x(2) pow2_less [of 53 1024] by simp
  ultimately show ?thesis using False by (simp add: round64_def)
qed

subsection \<open>Operations that stay finite\<close>

text \<open>\<^verbatim>\<open>mag_le k a\<close>: finite and of magnitude at most \<^verbatim>\<open>2^k\<close>.  \<^verbatim>\<open>not_negative a\<close>: finite and at least zero.\<close>

fun mag_le :: "int \<Rightarrow> F64 \<Rightarrow> bool" where
  "mag_le k (Finite _ v) \<longleftrightarrow> 0 \<le> v \<and> v \<le> pow2 k"
| "mag_le k _ \<longleftrightarrow> False"

fun not_negative :: "F64 \<Rightarrow> bool" where
  "not_negative (Finite s v) \<longleftrightarrow> 0 \<le> v \<and> (s \<longrightarrow> v = 0)"
| "not_negative _ \<longleftrightarrow> False"

lemma mag_le_Finite:
  assumes "mag_le k a"
  obtains s v where "a = Finite s v" "0 \<le> v" "v \<le> pow2 k"
  using assms by (cases a) auto

lemma mag_le_mono: "mag_le j a \<Longrightarrow> j \<le> k \<Longrightarrow> mag_le k a"
  using pow2_mono [of j k] by (cases a) auto

lemma mag_le_value: "mag_le k a \<Longrightarrow> \<bar>f64_value a\<bar> \<le> pow2 k"
  by (cases a) auto

lemma round64_mag_le: "0 \<le> x \<Longrightarrow> x \<le> pow2 k \<Longrightarrow> - 1074 \<le> k \<Longrightarrow> k < 1024 \<Longrightarrow> mag_le k (round64 neg x)"
  by (rule round64_le [of x k neg]) simp_all

lemma round_signed_mag_le: "\<bar>x\<bar> \<le> pow2 k \<Longrightarrow> - 1074 \<le> k \<Longrightarrow> k < 1024 \<Longrightarrow> mag_le k (round_signed x)"
  by (simp add: round_signed_def round64_mag_le)

lemma f64_of_int_mag_le:
  assumes "\<bar>n\<bar> \<le> 2 ^ k" "k < 1024"
  shows "mag_le (int k) (f64_of_int n)"
proof -
  have "of_int \<bar>n\<bar> \<le> (of_int (2 ^ k) :: rat)" using assms(1) by (simp only: of_int_le_iff)
  then show ?thesis using assms(2) by (simp add: f64_of_int_def round_signed_mag_le pow2_nat)
qed

lemma f64_neg_mag_le [simp]: "mag_le k (f64_neg a) = mag_le k a"
  by (cases a) simp_all

lemma f64_add_mag_le:
  assumes "mag_le k a" "mag_le k b" "- 1074 \<le> k" "k < 1023"
  shows "mag_le (k + 1) (f64_add a b)"
proof -
  obtain s x t y where ab: "a = Finite s x" "b = Finite t y" using assms by (metis mag_le_Finite)
  have "\<bar>f64_value a + f64_value b\<bar> \<le> pow2 (k + 1)"
    using mag_le_value [OF assms(1)] mag_le_value [OF assms(2)] pow2_add [of k 1]
    by (simp add: pow2_def)
  then show ?thesis using assms ab round_signed_mag_le [of "f64_value a + f64_value b" "k + 1"] by (auto simp: Let_def)
qed

lemma f64_sub_mag_le: "mag_le k a \<Longrightarrow> mag_le k b \<Longrightarrow> - 1074 \<le> k \<Longrightarrow> k < 1023 \<Longrightarrow> mag_le (k + 1) (f64_sub a b)"
  by (simp add: f64_sub_def f64_add_mag_le)

lemma f64_mul_mag_le:
  assumes "mag_le j a" "mag_le k b" "- 1074 \<le> j + k" "j + k < 1024"
  shows "mag_le (j + k) (f64_mul a b)"
proof -
  obtain s x where a: "a = Finite s x" "0 \<le> x" "x \<le> pow2 j" using assms(1) by (rule mag_le_Finite)
  obtain t y where b: "b = Finite t y" "0 \<le> y" "y \<le> pow2 k" using assms(2) by (rule mag_le_Finite)
  have "x * y \<le> pow2 (j + k)" using a b by (simp add: pow2_add mult_mono)
  then show ?thesis using a b assms by (simp add: round64_mag_le)
qed

text \<open>Division by a number that is at least one.\<close>

lemma f64_div_mag_le:
  assumes "mag_le k a" "1 \<le> y" "- 1074 \<le> k" "k < 1024"
  shows "mag_le k (f64_div a (Finite False y))"
proof -
  obtain s x where a: "a = Finite s x" "0 \<le> x" "x \<le> pow2 k" using assms(1) by (rule mag_le_Finite)
  have "x / y \<le> x / 1" using a(2) assms(2) by (intro divide_left_mono) simp_all
  then have "x / y \<le> pow2 k" using a(3) by simp
  then show ?thesis using a assms by (auto intro!: round64_mag_le)
qed

lemma f64_sum_mag_le:
  assumes "\<forall>x \<in> set xs. mag_le k x" "0 \<le> k" "k + int (length xs) < 1024"
  shows "mag_le (k + int (length xs)) (f64_sum xs)"
  using assms unfolding f64_sum_def
proof (induction xs rule: rev_induct)
  case (snoc x xs)
  then have "mag_le (k + int (length xs)) (foldl f64_add (Finite True 0) xs)" by simp
  moreover have "mag_le (k + int (length xs)) x" using mag_le_mono [of k x] snoc.prems by simp
  ultimately have "mag_le (k + int (length xs) + 1) (f64_add (foldl f64_add (Finite True 0) xs) x)"
    using f64_add_mag_le snoc.prems by simp
  then show ?case by (simp add: add.assoc [symmetric] add.commute)
qed simp

lemma round64_not_negative: "mag_le k (round64 False x) \<Longrightarrow> not_negative (round64 False x)"
  by (auto simp: round64_def Let_def split: if_splits)

lemma f64_add_not_negative:
  assumes "not_negative a" "not_negative b" "mag_le k (f64_add a b)"
  shows "not_negative (f64_add a b)"
proof -
  obtain s x t y where ab: "a = Finite s x" "b = Finite t y" using assms(1,2) by (cases a; cases b) auto
  then have "0 \<le> f64_value a + f64_value b" using assms(1,2) by auto
  then show ?thesis using assms ab round64_not_negative by (auto simp: Let_def round_signed_def split: if_splits)
qed

lemma f64_sum_not_negative:
  assumes "\<forall>x \<in> set xs. mag_le k x \<and> not_negative x" "0 \<le> k" "k + int (length xs) < 1024"
  shows "not_negative (f64_sum xs)"
  using assms
proof (induction xs rule: rev_induct)
  case (snoc x xs)
  have "mag_le (k + int (length (xs @ [x]))) (f64_sum (xs @ [x]))" using snoc.prems by (intro f64_sum_mag_le) auto
  then show ?case using snoc f64_add_not_negative [of "f64_sum xs" x] by (simp add: f64_sum_def)
qed (simp add: f64_sum_def)

lemma f64_mul_square: "mag_le k (f64_mul a a) \<Longrightarrow> not_negative (f64_mul a a)"
  by (cases a) (simp_all add: round64_not_negative)

lemma f64_div_not_negative:
  assumes "not_negative a" "mag_le k (f64_div a (Finite False y))" "0 < y"
  shows "not_negative (f64_div a (Finite False y))"
proof -
  obtain s x where "a = Finite s x" "0 \<le> x" "s \<longrightarrow> x = 0" using assms(1) by (cases a) auto
  then show ?thesis using assms(2,3) round64_not_negative by (cases s) (auto simp: round64_def [where x = 0])
qed

lemma isqrt_nonneg: "0 \<le> isqrt n"
  by (induction n rule: isqrt.induct) (subst isqrt.simps, simp add: Let_def)

lemma f64_sqrt_not_negative:
  assumes "not_negative a"
  shows "not_negative (f64_sqrt a)"
proof -
  have "0 \<le> sqrt_rounded x" for x using isqrt_nonneg by (simp add: sqrt_rounded_def Let_def)
  then show ?thesis using assms by (cases a) auto
qed

end
