(* ===== verification/Ai_Insights.thy ===== *)
theory Ai_Insights
  imports F64 Services Jobs
begin

text \<open>
  Inventory anomalies: the statistics (\<^verbatim>\<open>ai/src/inventory_anomaly.rs\<close>), the scheduler (\<^verbatim>\<open>ai/src/scheduler.rs\<close>), the thread
  that runs them for a tenant (\<^verbatim>\<open>infra/src/ai/inventory_anomaly_runner.rs\<close>), the snapshot of the stock projection it
  reads and the sink it fills (\<^verbatim>\<open>api/src/app/services.rs\<close>).

  Numbers are those of \<^verbatim>\<open>F64\<close>; a window is a \<^verbatim>\<open>nat\<close>.  The rendering \<^verbatim>\<open>{}\<close> of a float (the shortest text that reads
  back) and the JSON of the metadata are arguments.  The runner's loop is cut into the gates that decide whether to
  run and the attempt; the clock readings and what the reader answers are arguments of a turn.
\<close>

subsection \<open>Snapshots, jobs and results\<close>

record InventoryItemSnapshot =
  sn_item_id :: string
  sn_quantity :: i64
  sn_historical_trend :: "i64 list"

record InventorySnapshot =
  is_tenant_id :: TenantId
  is_items :: "InventoryItemSnapshot list"

datatype AiError = InvalidInput string | InferenceFailed string | Internal string

record AnomalyDetected =
  an_item_id :: string
  an_severity :: F64
  an_explanation :: string

text \<open>The metadata object the job builds.\<close>

record AnomalyMetadata =
  am_kind :: string
  am_tenant_id :: string
  am_window :: nat
  am_z_threshold :: F64
  am_anomalies :: "AnomalyDetected list"

record AiResult =
  ai_score :: F64
  ai_confidence :: F64
  ai_explanation :: "string option"
  ai_metadata :: "AnomalyMetadata option"

definition ai_result_new :: "F64 \<Rightarrow> F64 \<Rightarrow> AiResult" where
  "ai_result_new score confidence =
     \<lparr> ai_score = score, ai_confidence = confidence, ai_explanation = None, ai_metadata = None \<rparr>"

record InventoryAnomalyJob =
  aj_tenant_id :: TenantId
  aj_input :: InventorySnapshot
  aj_window :: nat
  aj_z_threshold :: F64

definition anomaly_job_new :: "TenantId \<Rightarrow> InventorySnapshot \<Rightarrow> InventoryAnomalyJob" where
  "anomaly_job_new tenant_id input =
     \<lparr> aj_tenant_id = tenant_id, aj_input = input, aj_window = 10, aj_z_threshold = Finite False 3 \<rparr>"

subsection \<open>Statistics\<close>

definition mean :: "F64 list \<Rightarrow> F64" where
  "mean xs = (if xs = [] then Finite False 0 else f64_div (f64_sum xs) (f64_of_int (int (length xs))))"

definition stddev_sample :: "F64 list \<Rightarrow> F64 \<Rightarrow> F64" where
  "stddev_sample xs m =
    (if length xs < 2 then Finite False 0
     else f64_sqrt (f64_div (f64_sum (map (\<lambda>x. let d = f64_sub x m in f64_mul d d) xs)) (f64_of_int (int (length xs) - 1))))"

text \<open>\<^verbatim>\<open>{:.2}\<close>.\<close>

definition fixed2 :: "F64 \<Rightarrow> string" where
  "fixed2 a =
    (case a of
       NaN \<Rightarrow> ''NaN''
     | Infinite s \<Rightarrow> (if s then ''-inf'' else ''inf'')
     | Finite s x \<Rightarrow>
         (let n = nat (nearest (x * 100))
          in (if s then ''-'' else []) @ show_nat (n div 100) @ ''.'' @ show_nat (n div 10 mod 10) @ show_nat (n mod 10)))"

definition deltas :: "i64 list \<Rightarrow> F64 list" where
  "deltas trend = map2 (\<lambda>prev cur. f64_sub (f64_of_int (sint cur)) (f64_of_int (sint prev))) trend (tl trend)"

definition detect_item_anomaly :: "InventoryItemSnapshot \<Rightarrow> nat \<Rightarrow> F64 \<Rightarrow> AnomalyDetected option" where
  "detect_item_anomaly item window z_threshold =
    (if length (sn_historical_trend item) < window + 2 then None
     else
       (let ds = deltas (sn_historical_trend item);
            last_delta = (if ds = [] then Finite False 0 else last ds);
            start = length ds - (window + 1);
            end = length ds - 1;
            baseline = take (end - start) (drop start ds);
            m = mean baseline;
            std = stddev_sample baseline m
        in
        if f64_le std f64_epsilon
        then (if f64_lt (Finite False 0) (f64_abs (f64_sub last_delta m))
              then Some \<lparr> an_item_id = sn_item_id item, an_severity = Finite False 1,
                     an_explanation = ''item '' @ sn_item_id item @ '' moved by '' @ fixed2 last_delta @
                       '' units; baseline movement is constant at '' @ fixed2 m @
                       '' (std'' @ [CHR 0xE2, CHR 0x89, CHR 0x88] @ ''0)'' \<rparr>
              else None)
        else
          (let z = f64_div (f64_sub last_delta m) std; az = f64_abs z
           in if f64_lt az z_threshold then None
              else Some \<lparr> an_item_id = sn_item_id item, an_severity = f64_div az z_threshold,
                     an_explanation = ''item '' @ sn_item_id item @ '' moved by '' @ fixed2 last_delta @
                       '' units; baseline mean='' @ fixed2 m @ '', std='' @ fixed2 std @ '', z='' @ fixed2 z @
                       '' (threshold='' @ fixed2 z_threshold @ '')'' \<rparr>)))"

definition job_run :: "Platform \<Rightarrow> (F64 \<Rightarrow> string) \<Rightarrow> InventoryAnomalyJob \<Rightarrow> AiError + AiResult" where
  "job_run pf display self =
    (if is_tenant_id (aj_input self) \<noteq> aj_tenant_id self
     then Inl (InvalidInput ''tenant_id mismatch between job and snapshot'')
     else if aj_window self < 2 then Inl (InvalidInput ''window must be >= 2 to compute standard deviation'')
     else if \<not> (is_finite (aj_z_threshold self) \<and> f64_lt (Finite False 0) (aj_z_threshold self))
     then Inl (InvalidInput ''z_threshold must be a finite positive number'')
     else
       (let anomalies = List.map_filter (\<lambda>item. detect_item_anomaly item (aj_window self) (aj_z_threshold self))
              (is_items (aj_input self));
            score = f64_of_int (int (length anomalies));
            confidence = (if anomalies = [] then Finite False 1 else round64 False (8 / 10))
        in Inr ((ai_result_new score confidence)\<lparr>
             ai_explanation := Some (''detected '' @ show_nat (length anomalies) @
               '' anomalous inventory movement(s) using rolling z-score (window='' @ show_nat (aj_window self) @
               '', threshold='' @ display (aj_z_threshold self) @ '')''),
             ai_metadata := Some \<lparr> am_kind = ''inventory.anomaly_detection'',
               am_tenant_id = pf_uuid_string pf (tenant_uuid (aj_tenant_id self)), am_window = aj_window self,
               am_z_threshold = aj_z_threshold self, am_anomalies = anomalies \<rparr>\<rparr>)))"

subsection \<open>The scheduler\<close>

datatype TenantScope = AnyTenant | OneTenant TenantId

primrec scope_allows :: "TenantScope \<Rightarrow> TenantId \<Rightarrow> bool" where
  "scope_allows AnyTenant tenant_id = True"
| "scope_allows (OneTenant t) tenant_id = (t = tenant_id)"

definition scheduler_run ::
    "Platform \<Rightarrow> (F64 \<Rightarrow> string) \<Rightarrow> TenantScope \<Rightarrow> InventoryAnomalyJob \<Rightarrow> AiError + AiResult" where
  "scheduler_run pf display scope job =
    (if \<not> scope_allows scope (aj_tenant_id job)
     then Inl (InvalidInput ''tenant scope violation (job tenant not allowed by scheduler)'')
     else job_run pf display job)"

subsection \<open>The runner\<close>

record InventoryAnomalyRunner =
  rc_interval :: duration
  rc_max_retries :: u32
  rc_base_backoff :: duration
  rc_window :: nat
  rc_z_threshold :: F64

definition runner_default :: InventoryAnomalyRunner where
  "runner_default = \<lparr> rc_interval = millis 60000, rc_max_retries = 5, rc_base_backoff = millis 250,
     rc_window = 10, rc_z_threshold = Finite False 3 \<rparr>"

definition backoff :: "duration \<Rightarrow> u32 \<Rightarrow> duration" where
  "backoff base attempt =
    (let pow = 2 ^ min (unat attempt - 1) 10;
         ms = min (2 ^ 128 - 1) ((base div 1000000) * pow)
     in millis (min ms 10000))"

text \<open>What the thread keeps, with the two channels of its handle: the trigger's holds at most one message.\<close>

record AiRunner =
  ar_next_tick :: nat
  ar_pending :: bool
  ar_failures :: u32
  ar_backoff_until :: "nat option"
  ar_trigger :: bool
  ar_shutdown :: bool
  ar_running :: bool
  ar_emitted :: "(TenantId \<times> AiResult) list"

definition spawn_for_tenant :: "InventoryAnomalyRunner \<Rightarrow> nat \<Rightarrow> AiRunner" where
  "spawn_for_tenant cfg now = \<lparr> ar_next_tick = now + rc_interval cfg, ar_pending = True, ar_failures = 0,
     ar_backoff_until = None, ar_trigger = False, ar_shutdown = False, ar_running = True, ar_emitted = [] \<rparr>"

definition runner_trigger :: "AiRunner \<Rightarrow> AiRunner" where
  "runner_trigger self = (if ar_running self then self\<lparr>ar_trigger := True\<rparr> else self)"

definition runner_shutdown :: "AiRunner \<Rightarrow> AiRunner" where
  "runner_shutdown self = (if ar_running self then self\<lparr>ar_shutdown := True\<rparr> else self)"

text \<open>\<^verbatim>\<open>while next_tick <= now\<close>: with an interval of zero it does not end.\<close>

partial_function (option) advance_tick :: "duration \<Rightarrow> nat \<Rightarrow> nat \<Rightarrow> nat option" where
  "advance_tick interval next_tick now =
    (if next_tick \<le> now then advance_tick interval (next_tick + interval) now else Some next_tick)"

text \<open>Shutdown, tick, trigger and backoff: the state the loop goes on with, and whether it attempts a run.\<close>

definition runner_gates :: "InventoryAnomalyRunner \<Rightarrow> nat \<Rightarrow> nat \<Rightarrow> AiRunner \<Rightarrow> (AiRunner \<times> bool) option" where
  "runner_gates cfg now later st =
    (if \<not> ar_running st then Some (st, False)
     else if ar_shutdown st then Some (st\<lparr>ar_shutdown := False, ar_running := False\<rparr>, False)
     else
       (case (if ar_next_tick st \<le> now
              then map_option (\<lambda>t. st\<lparr>ar_pending := True, ar_next_tick := t\<rparr>) (advance_tick (rc_interval cfg) (ar_next_tick st) now)
              else Some st) of
          None \<Rightarrow> None
        | Some st \<Rightarrow>
            (let st = (if ar_trigger st then st\<lparr>ar_pending := True, ar_trigger := False\<rparr> else st) in
             if (case ar_backoff_until st of Some until \<Rightarrow> later < until | None \<Rightarrow> False) then Some (st, False)
             else
               (let st = st\<lparr>ar_backoff_until := None\<rparr>
                in if \<not> ar_pending st then Some (st, False) else Some (st\<lparr>ar_pending := False\<rparr>, True)))))"

definition runner_failed :: "InventoryAnomalyRunner \<Rightarrow> nat \<Rightarrow> AiRunner \<Rightarrow> AiRunner" where
  "runner_failed cfg now st =
    (let failures = ar_failures st + 1 in
     if failures \<le> rc_max_retries cfg
     then st\<lparr>ar_failures := failures, ar_pending := True,
            ar_backoff_until := Some (now + backoff (rc_base_backoff cfg) failures)\<rparr>
     else st\<lparr>ar_failures := 0\<rparr>)"

definition runner_job :: "InventoryAnomalyRunner \<Rightarrow> TenantId \<Rightarrow> InventorySnapshot \<Rightarrow> InventoryAnomalyJob" where
  "runner_job cfg tenant_id snapshot =
     (anomaly_job_new tenant_id snapshot)\<lparr>aj_window := rc_window cfg, aj_z_threshold := rc_z_threshold cfg\<rparr>"

definition runner_attempt ::
    "Platform \<Rightarrow> (F64 \<Rightarrow> string) \<Rightarrow> InventoryAnomalyRunner \<Rightarrow> TenantId \<Rightarrow> nat \<Rightarrow> AiError + InventorySnapshot \<Rightarrow> AiRunner \<Rightarrow> AiRunner" where
  "runner_attempt pf display cfg tenant_id now answer st =
    (case answer of
       Inl e \<Rightarrow> runner_failed cfg now st
     | Inr snapshot \<Rightarrow>
         (case scheduler_run pf display (OneTenant tenant_id) (runner_job cfg tenant_id snapshot) of
            Inr result \<Rightarrow> st\<lparr>ar_failures := 0, ar_emitted := ar_emitted st @ [(tenant_id, result)]\<rparr>
          | Inl e \<Rightarrow> runner_failed cfg now st))"

definition runner_turn ::
    "Platform \<Rightarrow> (F64 \<Rightarrow> string) \<Rightarrow> InventoryAnomalyRunner \<Rightarrow> TenantId \<Rightarrow> nat \<times> nat \<times> nat \<Rightarrow> AiError + InventorySnapshot \<Rightarrow>
     AiRunner \<Rightarrow> (AiRunner \<times> bool) option" where
  "runner_turn pf display cfg tenant_id clock answer st =
    (case clock of (now, later, now') \<Rightarrow>
      map_option (\<lambda>(st, go). (if go then runner_attempt pf display cfg tenant_id now' answer st else st, go))
        (runner_gates cfg now later st))"

subsection \<open>In the application\<close>

text \<open>The snapshot of the stock projection: the trend is the latest quantity only.\<close>

definition get_snapshot ::
    "Platform \<Rightarrow> (((TenantId \<times> InventoryItemId) \<times> InventoryReadModel) list \<Rightarrow> ((TenantId \<times> InventoryItemId) \<times> InventoryReadModel) list) \<Rightarrow>
     (stock_store, 'c) Projection \<Rightarrow> TenantId \<Rightarrow> AiError + InventorySnapshot" where
  "get_snapshot pf iter self tenant_id =
    Inr \<lparr> is_tenant_id = tenant_id,
      is_items = map (\<lambda>rm. \<lparr> sn_item_id = aggregate_string pf (item_aggregate (irm_item_id rm)), sn_quantity = irm_quantity rm,
        sn_historical_trend = [irm_quantity rm] \<rparr>) (ts_list iter (pj_store self) tenant_id) \<rparr>"

text \<open>The sink stores the result and broadcasts that it is there.\<close>

definition insight_available :: "(AnomalyMetadata option \<Rightarrow> Json) \<Rightarrow> TenantId \<Rightarrow> AiResult \<Rightarrow> RealtimeMessage" where
  "insight_available to_json tenant_id result = \<lparr> rm_tenant_id = tenant_id, rm_topic = ''ai.insight_available'',
     rm_payload = JObject [(''kind'', JString ''insights''), (''insight_type'', JString ''ai.result''),
       (''metadata'', to_json (ai_metadata result))] \<rparr>"

record ApiAiInsightSink =
  as_inner :: "(TenantId \<times> AiResult) list"
  as_realtime :: "RealtimeMessage list"

definition sink_emit :: "(AnomalyMetadata option \<Rightarrow> Json) \<Rightarrow> ApiAiInsightSink \<Rightarrow> TenantId \<Rightarrow> AiResult \<Rightarrow> ApiAiInsightSink" where
  "sink_emit to_json self tenant_id result =
     \<lparr> as_inner = as_inner self @ [(tenant_id, result)],
       as_realtime = as_realtime self @ [insight_available to_json tenant_id result] \<rparr>"

text \<open>After an applied stock envelope the subscriber wakes the tenant's runner, which the first one starts.\<close>

definition notify_runner :: "InventoryAnomalyRunner \<Rightarrow> nat \<Rightarrow> 'j EventEnvelope \<Rightarrow> (TenantId \<rightharpoonup> AiRunner) \<Rightarrow> (TenantId \<rightharpoonup> AiRunner)" where
  "notify_runner cfg now env runners =
    (if ee_aggregate_type env = ''inventory.item''
     then runners(ee_tenant_id env \<mapsto> runner_trigger
            (case runners (ee_tenant_id env) of Some h \<Rightarrow> h | None \<Rightarrow> spawn_for_tenant cfg now))
     else runners)"

subsection \<open>No computed statistic is a not-a-number\<close>

lemma f64_of_length: "0 \<le> n \<Longrightarrow> n \<le> 2 ^ 53 \<Longrightarrow> f64_of_int n = Finite False (of_int n)"
  by (simp add: f64_of_int_def round_signed_def round64_int not_less)

lemma deltas_mag_le: "x \<in> set (deltas trend) \<Longrightarrow> mag_le 64 x"
proof -
  assume "x \<in> set (deltas trend)"
  then obtain a b :: i64 where x: "x = f64_sub (f64_of_int (sint a)) (f64_of_int (sint b))" by (auto simp: deltas_def)
  have "mag_le 63 (f64_of_int (sint q))" for q :: i64
    using f64_of_int_mag_le [of "sint q" 63] sint64_range [of q] by simp
  from f64_sub_mag_le [OF this this] show ?thesis by (simp add: x)
qed

lemma mean_mag_le:
  assumes "\<forall>x \<in> set xs. mag_le k x" "0 \<le> k" "k + int (length xs) < 1024" "xs \<noteq> []"
  shows "mag_le (k + int (length xs)) (mean xs)"
proof -
  have "f64_of_int (int (length xs)) = Finite False (of_int (int (length xs)))"
    using assms(2,3) by (intro f64_of_length) simp_all
  moreover have "1 \<le> length xs" using assms(4) by (simp add: Suc_le_eq)
  ultimately show ?thesis
    using f64_sum_mag_le [OF assms(1-3)] assms by (auto simp: mean_def intro!: f64_div_mag_le)
qed

lemma stddev_not_negative:
  assumes "\<forall>x \<in> set xs. mag_le j x" "mag_le j m" "0 \<le> j" "2 * j + 2 + int (length xs) < 1024" "2 \<le> length xs"
  shows "not_negative (stddev_sample xs m)"
proof -
  let ?sq = "map (\<lambda>x. let d = f64_sub x m in f64_mul d d) xs" and ?k = "2 * j + 2"
  have sq: "\<forall>y \<in> set ?sq. mag_le ?k y \<and> not_negative y"
  proof
    fix y assume "y \<in> set ?sq"
    then obtain x where x: "x \<in> set xs" "y = f64_mul (f64_sub x m) (f64_sub x m)" by (auto simp: Let_def)
    have "mag_le (j + 1) (f64_sub x m)" using assms x(1) by (intro f64_sub_mag_le) simp_all
    then have "mag_le ((j + 1) + (j + 1)) y" using assms(3,4) unfolding x(2) by (intro f64_mul_mag_le) simp_all
    then have "mag_le ?k y" by (simp add: algebra_simps)
    then show "mag_le ?k y \<and> not_negative y" using f64_mul_square [of ?k "f64_sub x m"] x(2) by simp
  qed
  have n: "f64_of_int (int (length xs) - 1) = Finite False (of_int (int (length xs) - 1))"
    using assms(3-5) by (intro f64_of_length) (auto simp: Suc_le_eq)
  have sum: "mag_le (?k + int (length xs)) (f64_sum ?sq)" "not_negative (f64_sum ?sq)"
    using f64_sum_mag_le [of ?sq ?k] f64_sum_not_negative [OF sq] sq assms(3,4) by simp_all
  let ?n = "of_int (int (length xs) - 1) :: rat"
  have n1: "1 \<le> ?n" using assms(5) by simp
  then have "mag_le (?k + int (length xs)) (f64_div (f64_sum ?sq) (Finite False ?n))"
    using sum(1) assms(3,4) by (intro f64_div_mag_le) simp_all
  then have "not_negative (f64_div (f64_sum ?sq) (Finite False ?n))"
    using f64_div_not_negative [OF sum(2)] n1 by simp
  then show ?thesis using assms(5) by (simp add: stddev_sample_def n f64_sqrt_not_negative)
qed

lemma severity_at_least_one:
  assumes "mag_le k d" "not_negative std" "\<not> f64_le std f64_epsilon" "0 < t"
    "\<not> f64_lt (f64_abs (f64_div d std)) (Finite False t)"
  shows "f64_le (Finite False 1) (f64_div (f64_abs (f64_div d std)) (Finite False t))"
proof -
  obtain v where std: "std = Finite False v" "0 < v"
  proof (cases std)
    case (Finite s v)
    then have "pow2 (- 52) < (if s then - v else v)" "0 \<le> v" using assms(2,3) by (auto simp: f64_epsilon_def)
    then have "\<not> s" "0 < v" using pow2_simps(1) [of "- 52"] by (cases s; simp; linarith)+
    then show thesis using Finite that by simp
  qed (use assms(2) in auto)
  obtain s x where d: "d = Finite s x" "0 \<le> x" using assms(1) by (rule mag_le_Finite)
  consider "f64_abs (f64_div d std) = Infinite False" | w where "f64_abs (f64_div d std) = Finite False w"
    using d std round64_sign [of s "x / v"] by auto
  then show ?thesis
  proof cases
    case (2 w)
    then have "t \<le> w" using assms(5) by simp
    then have "pow2 0 \<le> w / t" using assms(4) by simp
    then have "round64 False (w / t) = Infinite False \<or> (\<exists>v. round64 False (w / t) = Finite False v \<and> 1 \<le> v)"
      using round64_ge [of 0 "w / t" False] by simp
    then show ?thesis using 2 assms(4) by auto
  qed simp
qed

subsection \<open>A constant movement\<close>

text \<open>Integers of up to 53 bits as floats: differences are exact, and so is the mean of equal numbers.\<close>

definition f64i :: "int \<Rightarrow> F64" where
  "f64i n = Finite (n < 0) \<bar>of_int n\<bar>"

lemma f64_of_int_exact:
  assumes "\<bar>n\<bar> \<le> 2 ^ 53"
  shows "f64_of_int n = f64i n"
proof -
  have "round64 (n < 0) (of_int \<bar>n\<bar>) = Finite (n < 0) (of_int \<bar>n\<bar>)" using assms by (intro round64_int) simp_all
  then show ?thesis by (simp add: f64_of_int_def round_signed_def f64i_def)
qed

lemma f64_value_f64i [simp]: "f64_value (f64i n) = of_int n"
  by (simp add: f64i_def abs_if)

lemma f64_add_f64i:
  assumes "\<bar>n + m\<bar> \<le> 2 ^ 53"
  shows "f64_add (f64i n) (f64i m) = f64i (n + m)"
proof -
  have v: "f64_value (f64i n) + f64_value (f64i m) = of_int (n + m)" by simp
  show ?thesis
  proof (cases "n + m = 0")
    case True
    then show ?thesis by (auto simp: f64i_def Let_def abs_if)
  next
    case False
    then have "f64_add (f64i n) (f64i m) = f64_of_int (n + m)"
      using v unfolding f64_of_int_def by (simp add: f64i_def Let_def del: f64_value.simps of_int_add) 
    then show ?thesis using f64_of_int_exact [OF assms] by simp
  qed
qed

lemma f64_add_zero: "\<bar>m\<bar> \<le> 2 ^ 53 \<Longrightarrow> f64_add (Finite True 0) (f64i m) = f64i m"
  using f64_of_int_exact [of m] by (auto simp: f64i_def f64_of_int_def Let_def abs_if split: if_splits)

lemma f64_sub_f64i:
  assumes "\<bar>n - m\<bar> \<le> 2 ^ 53"
  shows "f64_sub (f64i n) (f64i m) = f64i (n - m)"
proof (cases "m = 0")
  case True
  then show ?thesis using f64_of_int_exact [of n] assms
    by (auto simp: f64_sub_def f64i_def f64_of_int_def Let_def abs_if split: if_splits)
next
  case False
  then have "f64_neg (f64i m) = f64i (- m)" by (auto simp: f64i_def)
  then show ?thesis using f64_add_f64i [of n "- m"] assms by (simp add: f64_sub_def)
qed

lemma f64_sum_replicate:
  assumes "0 < n" "int n * \<bar>d\<bar> \<le> 2 ^ 53"
  shows "f64_sum (replicate n (f64i d)) = f64i (int n * d)"
  using assms
proof (induction n)
  case (Suc n)
  have b: "\<bar>int n * d + d\<bar> \<le> 2 ^ 53" 
    using Suc.prems(2) abs_triangle_ineq [of "int n * d" d] by (simp add: abs_mult distrib_right)
  show ?case
  proof (cases "n = 0")
    case True
    then show ?thesis using Suc.prems(2) by (simp add: f64_sum_def f64_add_zero)
  next
    case False
    have "int n * \<bar>d\<bar> \<le> 2 ^ 53" using Suc.prems(2) by (simp add: distrib_right)
    then have "f64_sum (replicate n (f64i d)) = f64i (int n * d)" using Suc.IH False by simp
    moreover have "replicate (Suc n) (f64i d) = replicate n (f64i d) @ [f64i d]" by (simp add: replicate_append_same)
    ultimately show ?thesis using f64_add_f64i [OF b] by (simp add: f64_sum_def distrib_right add.commute)
  qed
qed simp

lemma constant_mean:
  assumes "0 < n" "int n * \<bar>d\<bar> \<le> 2 ^ 53" "n \<le> 2 ^ 53"
  shows "mean (replicate n (f64i d)) = f64i d"
proof -
  have n: "f64_of_int (int n) = Finite False (of_nat n)" using f64_of_length [of "int n"] assms(3) by simp
  have "\<bar>d\<bar> \<le> int n * \<bar>d\<bar>" using assms(1) by (cases "d = 0") simp_all
  then have d: "\<bar>d\<bar> \<le> 2 ^ 53" using assms(2) by simp
  have "round64 (int n * d < 0) (of_int \<bar>d\<bar>) = Finite (d < 0) (of_int \<bar>d\<bar>)"
    using round64_int [of "\<bar>d\<bar>" "d < 0"] d assms(1) by (simp add: mult_less_0_iff)
  moreover have "\<bar>of_int (int n * d)\<bar> / of_nat n = (of_int \<bar>d\<bar> :: rat)" using assms(1) by (simp add: abs_mult)
  ultimately show ?thesis
    using f64_sum_replicate [OF assms(1,2)] assms(1) by (simp add: mean_def n) (simp add: f64i_def)
qed

lemma constant_stddev:
  assumes "2 \<le> n" "n \<le> 2 ^ 53"
  shows "stddev_sample (replicate n (f64i d)) (f64i d) = Finite False 0"
proof -
  have "f64_mul (f64_sub (f64i d) (f64i d)) (f64_sub (f64i d) (f64i d)) = f64i 0"
    by (simp add: f64_sub_f64i) (simp add: f64i_def round64_def)
  then have "f64_sum (map (\<lambda>x. let e = f64_sub x (f64i d) in f64_mul e e) (replicate n (f64i d))) = f64i 0"
    using f64_sum_replicate [of n 0] assms(1) by (simp add: Let_def)
  moreover have "f64_of_int (int n - 1) = Finite False (of_int (int n - 1))"
    using assms by (intro f64_of_length) simp_all
  ultimately show ?thesis using assms(1) by (simp add: stddev_sample_def) (simp add: f64i_def round64_def)
qed

subsection \<open>The runner among its handle's owner and the clock\<close>

definition insight ::
    "Platform \<Rightarrow> (F64 \<Rightarrow> string) \<Rightarrow> InventoryAnomalyRunner \<Rightarrow> TenantId \<Rightarrow> AiError + InventorySnapshot \<Rightarrow> AiResult option" where
  "insight pf display cfg tenant_id answer =
    (case answer of
       Inl _ \<Rightarrow> None
     | Inr snapshot \<Rightarrow>
         (case scheduler_run pf display (OneTenant tenant_id) (runner_job cfg tenant_id snapshot) of
            Inr result \<Rightarrow> Some result | Inl _ \<Rightarrow> None))"

text \<open>The clock may say anything; the list is what the reader answered, attempt by attempt.\<close>

inductive runner_reach ::
    "Platform \<Rightarrow> (F64 \<Rightarrow> string) \<Rightarrow> InventoryAnomalyRunner \<Rightarrow> TenantId \<Rightarrow> AiRunner \<Rightarrow> (AiError + InventorySnapshot) list \<Rightarrow> bool"
    for pf display cfg tenant_id where
  ru_spawn: "runner_reach pf display cfg tenant_id (spawn_for_tenant cfg now) []"
| ru_trigger: "runner_reach pf display cfg tenant_id st as \<Longrightarrow> runner_reach pf display cfg tenant_id (runner_trigger st) as"
| ru_shutdown: "runner_reach pf display cfg tenant_id st as \<Longrightarrow> runner_reach pf display cfg tenant_id (runner_shutdown st) as"
| ru_turn: "runner_reach pf display cfg tenant_id st as \<Longrightarrow>
    runner_turn pf display cfg tenant_id clock answer st = Some (st', go) \<Longrightarrow>
    runner_reach pf display cfg tenant_id st' (if go then as @ [answer] else as)"

text \<open>The attempts that failed since the last insight.\<close>

definition failed_since :: "('a \<Rightarrow> 'b option) \<Rightarrow> 'a list \<Rightarrow> nat" where
  "failed_since f as = length (takeWhile (\<lambda>a. f a = None) (rev as))"

lemma failed_since_snoc: "failed_since f (as @ [a]) = (if f a = None then Suc (failed_since f as) else 0)"
  by (simp add: failed_since_def)

lemma advance_tick_returns:
  assumes "0 < interval"
  shows "\<exists>t. advance_tick interval next_tick now = Some t \<and> now < t \<and> next_tick \<le> t"
proof (induction "Suc now - next_tick" arbitrary: next_tick rule: less_induct)
  case less
  show ?case
  proof (cases "next_tick \<le> now")
    case True
    then obtain t where "advance_tick interval (next_tick + interval) now = Some t" "now < t" "next_tick + interval \<le> t"
      using less [of "next_tick + interval"] assms by fastforce
    then show ?thesis using True by (subst advance_tick.simps) simp
  qed (subst advance_tick.simps, simp)
qed

text \<open>The gates change neither what was emitted nor the count of failures.\<close>

lemma runner_gates_keep:
  assumes "runner_gates cfg now later st = Some (st', go)"
  shows "ar_emitted st' = ar_emitted st \<and> ar_failures st' = ar_failures st \<and>
    (go \<longrightarrow> \<not> ar_pending st' \<and> ar_backoff_until st' = None)"
  using assms by (auto simp: runner_gates_def Let_def split: if_splits option.splits)

lemma runner_gates_defined:
  assumes "0 < rc_interval cfg"
  obtains st' go where "runner_gates cfg now later st = Some (st', go)"
proof -
  obtain t where "advance_tick (rc_interval cfg) (ar_next_tick st) now = Some t"
    using advance_tick_returns [OF assms] by blast
  then have "runner_gates cfg now later st \<noteq> None" by (auto simp: runner_gates_def Let_def)
  then show thesis using that by auto
qed

lemma runner_attempt_effect:
  "runner_attempt pf display cfg tenant_id now answer st =
    (case insight pf display cfg tenant_id answer of
       Some r \<Rightarrow> st\<lparr>ar_failures := 0, ar_emitted := ar_emitted st @ [(tenant_id, r)]\<rparr>
     | None \<Rightarrow> runner_failed cfg now st)"
  by (auto simp: runner_attempt_def insight_def split: sum.splits)

lemma runner_failed_count:
  "unat (ar_failures (runner_failed cfg now st)) =
     (if ar_failures st + 1 \<le> rc_max_retries cfg then unat (ar_failures st + 1) else 0)"
  "ar_emitted (runner_failed cfg now st) = ar_emitted st"
  by (simp_all add: runner_failed_def Let_def)

lemma cyclic_count:
  fixes f m :: u32
  assumes "unat f = n mod (unat m + 1)"
  shows "(if f + 1 \<le> m then unat (f + 1) else 0) = Suc n mod (unat m + 1)"
proof -
  have le: "unat f \<le> unat m" using assms by (metis Suc_eq_plus1 less_Suc_eq_le mod_less_divisor zero_less_Suc)
  have b: "unat m < 2 ^ 32" using unsigned_less [of m, where 'a = nat] by simp
  have s: "Suc n mod (unat m + 1) = (if unat f = unat m then 0 else Suc (unat f))"
    using assms le by (simp add: mod_Suc)
  show ?thesis
  proof (cases "unat f = unat m")
    case True
    then have "f = m" by (rule unsigned_word_eqI)
    then show ?thesis using s b by (cases "m + 1 = 0") (auto simp: word_le_nat_alt unat_word_ariths mod_Suc)
  next
    case False
    then have "unat (f + 1) = Suc (unat f)" using le b by (simp add: unat_word_ariths)
    then show ?thesis using s le False by (simp add: word_le_nat_alt)
  qed
qed

lemma runner_reach_inv:
  assumes "runner_reach pf display cfg tenant_id st as"
  shows "ar_emitted st = map (Pair tenant_id) (List.map_filter (insight pf display cfg tenant_id) as) \<and>
    unat (ar_failures st) = failed_since (insight pf display cfg tenant_id) as mod (unat (rc_max_retries cfg) + 1)"
  using assms
proof induction
  case (ru_spawn now)
  then show ?case by (simp add: spawn_for_tenant_def failed_since_def map_filter_simps)
next
  case (ru_turn st as clock answer st' go)
  obtain now later now' where t: "clock = (now, later, now')" by (cases clock) auto
  obtain st1 where g: "runner_gates cfg now later st = Some (st1, go)"
    "st' = (if go then runner_attempt pf display cfg tenant_id now' answer st1 else st1)"
    using ru_turn.hyps(2) by (auto simp: runner_turn_def t)
  have k: "ar_emitted st1 = ar_emitted st" "ar_failures st1 = ar_failures st" using runner_gates_keep [OF g(1)] by simp_all
  show ?case
  proof (cases "go \<and> insight pf display cfg tenant_id answer = None")
    case True
    then show ?thesis
      using ru_turn.IH k g(2) cyclic_count [OF conjunct2 [OF ru_turn.IH]]
      by (simp add: runner_attempt_effect runner_failed_count failed_since_snoc List.map_filter_def split: if_splits)
  next
    case False
    then show ?thesis
      using ru_turn.IH k g(2)
      by (auto simp: runner_attempt_effect failed_since_snoc List.map_filter_def)
  qed
qed (simp_all add: runner_trigger_def runner_shutdown_def)

subsection \<open>Properties\<close>


definition ex_item_trend :: "i64 list \<Rightarrow> InventoryItemSnapshot" where
  "ex_item_trend trend = \<lparr> sn_item_id = ''bolt'', sn_quantity = last trend, sn_historical_trend = trend \<rparr>"




text \<open>On the snapshots of the stock projection the detection is inert.  They carry one point of history per item,
  less than any window needs, so whatever the stock did, every insight says that nothing was found, with certainty.\<close>

theorem stock_insights_empty:
  assumes "get_snapshot pf iter projection tenant_id = answer" "2 \<le> rc_window cfg" "rc_z_threshold cfg = Finite False t" "0 < t"
  shows "\<exists>r md. insight pf display cfg tenant_id answer = Some r \<and> ai_score r = Finite False 0 \<and> ai_confidence r = Finite False 1 \<and>
    ai_metadata r = Some md \<and> am_anomalies md = []"
proof -
  obtain snapshot where s: "answer = Inr snapshot" "is_tenant_id snapshot = tenant_id"
    "\<forall>item \<in> set (is_items snapshot). length (sn_historical_trend item) = 1"
    using assms(1) by (auto simp: get_snapshot_def)
  then have "\<forall>item \<in> set (is_items snapshot). detect_item_anomaly item w z = None" for w z
    by (simp add: detect_item_anomaly_def)
  then have none: "List.map_filter (\<lambda>item. detect_item_anomaly item w z) (is_items snapshot) = []" for w z
    by (simp add: List.map_filter_def)
  show ?thesis
    using s assms(2-4) none f64_of_int_exact [of 0]
    by (simp add: insight_def scheduler_run_def runner_job_def anomaly_job_new_def job_run_def is_finite_def ai_result_new_def f64i_def)
qed

theorem stock_insights_empty_witness:
  "\<exists>r. insight sample_platform (\<lambda>_. ''3'') runner_default (TenantId 1)
       (get_snapshot sample_platform id (projection_new ts_new ''inventory.stock'' :: (stock_store, unit) Projection) (TenantId 1)) = Some r \<and>
     ai_score r = Finite False 0"
  using stock_insights_empty [OF refl, where cfg = runner_default and t = 3 and pf = sample_platform and iter = id
    and display = "\<lambda>_. ''3''" and tenant_id = "TenantId 1"
    and projection = "projection_new ts_new ''inventory.stock'' :: (stock_store, unit) Projection"]
  by (auto simp: runner_default_def)

text \<open>C27: a tenant's runner, whatever the clock, its triggers and the reader do: it has emitted exactly the insights of
  the snapshots it was given, in order and for its tenant; its count of failures is the number of failed attempts since
  the last insight, up to the retries it grants before it gives up; with an interval that is not zero every turn of the
  loop comes to an end, and a requested shutdown ends the thread on the next one.\<close>

theorem runner_emits_insights:
  assumes "runner_reach pf display cfg tenant_id st as"
  shows "ar_emitted st = map (Pair tenant_id) (List.map_filter (insight pf display cfg tenant_id) as) \<and>
    unat (ar_failures st) = failed_since (insight pf display cfg tenant_id) as mod (unat (rc_max_retries cfg) + 1) \<and>
    (0 < rc_interval cfg \<longrightarrow> (\<exists>st' go. runner_turn pf display cfg tenant_id clock answer st = Some (st', go) \<and>
       (ar_shutdown st \<longrightarrow> \<not> ar_running st' \<and> \<not> go)))"
proof -
  obtain now later now' where t: "clock = (now, later, now')" by (cases clock) auto
  have "\<exists>st' go. runner_turn pf display cfg tenant_id clock answer st = Some (st', go) \<and>
      (ar_shutdown st \<longrightarrow> \<not> ar_running st' \<and> \<not> go)" if pos: "0 < rc_interval cfg"
  proof -
    obtain st1 go where g: "runner_gates cfg now later st = Some (st1, go)" by (rule runner_gates_defined [OF pos])
    then have "ar_shutdown st \<longrightarrow> \<not> ar_running st1 \<and> \<not> go" by (auto simp: runner_gates_def split: if_splits)
    then show ?thesis using g by (simp add: runner_turn_def t)
  qed
  then show ?thesis using runner_reach_inv [OF assms] by blast
qed

theorem runner_emits_insights_witness:
  "\<exists>st. runner_turn sample_platform (\<lambda>_. ''3'') runner_default (TenantId 1) (0, 0, 0) (Inl (Internal ''no''))
       (spawn_for_tenant runner_default 0) = Some (st, True) \<and> ar_emitted st = [] \<and> unat (ar_failures st) = 1"
proof -
  let ?turn = "runner_turn sample_platform (\<lambda>_. ''3'') runner_default (TenantId 1) (0, 0, 0) (Inl (Internal ''no''))
    (spawn_for_tenant runner_default 0)"
  obtain st where st: "?turn = Some (st, True)" by (auto simp: runner_turn_def runner_gates_def spawn_for_tenant_def runner_default_def)
  from ru_turn [OF ru_spawn this]
  have r: "runner_reach sample_platform (\<lambda>_. ''3'') runner_default (TenantId 1) st [Inl (Internal ''no'')]" by simp
  have "ar_emitted st = []" "unat (ar_failures st) = 1"
    using runner_emits_insights [OF r] by (simp_all add: insight_def failed_since_def List.map_filter_def runner_default_def)
  then show ?thesis using st by simp
qed

end
