(* ===== verification/Retry_Delay.thy ===== *)
theory Retry_Delay
  imports F64 Jobs
begin

text \<open>
  The delay before a job is tried again (\<^verbatim>\<open>RetryPolicy::delay_for_attempt\<close> in \<^verbatim>\<open>infra/src/jobs/types.rs\<close>), in floating
  point.  Powers of two are exact; a policy without jitter doubles exactly up to its cap.
\<close>

subsection \<open>More of the language\<close>

unbundle bit_operations_syntax

definition f64_of_bits :: "f64 \<Rightarrow> F64" where
  "f64_of_bits w =
    (let s = bit w 63; e = uint (drop_bit 52 w AND 0x7FF); f = uint (w AND 0xFFFFFFFFFFFFF)
     in if e = 0 then Finite s (of_int f * pow2 (- 1074))
        else if e = 2047 then (if f = 0 then Infinite s else NaN)
        else Finite s (of_int (2 ^ 52 + f) * pow2 (e - 1075)))"

text \<open>\<^verbatim>\<open>min\<close> and \<^verbatim>\<open>max\<close> ignore a not-a-number; \<^verbatim>\<open>%\<close> has the sign of the dividend; \<^verbatim>\<open>as u64\<close> saturates.\<close>

definition f64_min :: "F64 \<Rightarrow> F64 \<Rightarrow> F64" where
  "f64_min a b = (if a = NaN then b else if b = NaN then a else if f64_lt b a then b else a)"

definition f64_max :: "F64 \<Rightarrow> F64 \<Rightarrow> F64" where
  "f64_max a b = (if a = NaN then b else if b = NaN then a else if f64_lt a b then b else a)"

fun f64_rem :: "F64 \<Rightarrow> F64 \<Rightarrow> F64" where
  "f64_rem (Finite s x) (Finite _ y) = (if y = 0 then NaN else Finite s (x - of_int \<lfloor>x / y\<rfloor> * y))"
| "f64_rem (Finite s x) (Infinite _) = Finite s x"
| "f64_rem _ _ = NaN"

fun f64_as_u64 :: "F64 \<Rightarrow> nat" where
  "f64_as_u64 (Finite s x) = (if s then 0 else nat (min \<lfloor>x\<rfloor> (2 ^ 64 - 1)))"
| "f64_as_u64 (Infinite s) = (if s then 0 else 2 ^ 64 - 1)"
| "f64_as_u64 NaN = 0"

definition f64_powi2 :: "int \<Rightarrow> F64" where
  "f64_powi2 n = round64 False (pow2 n)"

subsection \<open>The delay\<close>

text \<open>The computation in milliseconds, then the method.\<close>

definition delay_ms_for :: "BackoffStrategy \<Rightarrow> F64 \<Rightarrow> F64 \<Rightarrow> F64 \<Rightarrow> u32 \<Rightarrow> F64" where
  "delay_ms_for strategy base_ms max_ms jitter_ratio attempt =
    (let delay_ms =
           (case strategy of
              Fixed \<Rightarrow> base_ms
            | Exponential \<Rightarrow> f64_min (f64_mul base_ms (f64_powi2 (sint (attempt - 1)))) max_ms
            | Linear \<Rightarrow> f64_min (f64_mul base_ms (f64_of_int (uint attempt))) max_ms);
         jitter_range = f64_mul delay_ms jitter_ratio;
         jitter =
           (if f64_lt (Finite False 0) jitter_range
            then let pseudo_random = f64_div (f64_rem (f64_mul (f64_of_int (uint attempt)) (f64_of_int 17)) (f64_of_int 100)) (f64_of_int 100)
                 in f64_mul (f64_mul jitter_range (f64_sub pseudo_random (round64 False (1 / 2)))) (f64_of_int 2)
            else Finite False 0)
     in f64_max (f64_add delay_ms jitter) (Finite False 0))"

definition delay_for_attempt :: "RetryPolicy \<Rightarrow> u32 \<Rightarrow> duration" where
  "delay_for_attempt self attempt =
    (if attempt = 0 then 0
     else millis (f64_as_u64 (delay_ms_for (rt_strategy self) (f64_of_int (int (rt_base_delay self div 1000000)))
            (f64_of_int (int (rt_max_delay self div 1000000))) (f64_of_bits (rt_jitter self)) attempt)))"

subsection \<open>Exact powers of two\<close>

lemma rounded_shift:
  assumes "0 < n" "n < 2 ^ 53" "0 \<le> k"
  shows "rounded (of_int n * pow2 k) = of_int n * pow2 k"
proof -
  let ?x = "of_int n * pow2 k"
  let ?e = "ulp_exponent ?x"
  have "pow2 53 = of_int (2 ^ 53)" using pow2_int [of 53] by simp
  then have "of_int n < pow2 53" using assms(2) by (simp only: of_int_less_iff)
  then have x: "0 < ?x" "?x < pow2 (53 + k)" using assms(1) by (simp_all add: pow2_add mult_strict_right_mono)
  have "exponent ?x < 53 + k"
  proof (rule ccontr)
    assume "\<not> exponent ?x < 53 + k"
    then have "pow2 (53 + k) \<le> pow2 (exponent ?x)" by (intro pow2_mono) simp
    then show False using exponent_bounds [OF x(1)] x(2) by linarith
  qed
  then have e: "?e \<le> k" using assms(3) by (simp add: ulp_exponent_def)
  have "?x / pow2 ?e = of_int n * pow2 (k - ?e)" by (simp add: pow2_diff)
  also have "\<dots> = of_int (n * 2 ^ nat (k - ?e))" using e by (simp add: pow2_int)
  finally have q: "?x / pow2 ?e = of_int (n * 2 ^ nat (k - ?e))" .
  have "of_int (nearest (?x / pow2 ?e)) = ?x / pow2 ?e" unfolding q nearest_int ..
  then show ?thesis by (simp add: rounded_def)
qed

lemma powi2_exact:
  assumes "0 \<le> k"
  shows "f64_powi2 k = (if 1024 \<le> k then Infinite False else Finite False (pow2 k))"
proof -
  have "pow2 1024 \<le> pow2 k \<longleftrightarrow> 1024 \<le> k" using pow2_mono [of 1024 k] pow2_less [of k 1024] by linarith
  then show ?thesis using rounded_shift [of 1 k] assms by (simp add: f64_powi2_def round64_def)
qed

lemma doubled_exact:
  assumes "0 < b" "b < 2 ^ 53"
  shows "f64_mul (Finite False (of_int b)) (f64_powi2 (int k)) =
    (if pow2 1024 \<le> of_int b * pow2 (int k) then Infinite False else Finite False (of_int b * pow2 (int k)))"
proof (cases "1024 \<le> k")
  case True
  have "(1 :: rat) * pow2 1024 \<le> of_int b * pow2 (int k)" using assms(1) True by (intro mult_mono pow2_mono) simp_all
  then show ?thesis using True assms(1) by (simp add: powi2_exact)
next
  case False
  then show ?thesis using rounded_shift [OF assms, of "int k"] assms(1) by (simp add: powi2_exact round64_def Let_def)
qed

lemma capped_exact:
  assumes "0 < b" "b < 2 ^ 53" "0 \<le> m" "m < 2 ^ 53"
  shows "f64_min (f64_mul (Finite False (of_int b)) (f64_powi2 (int k))) (Finite False (of_int m)) =
    Finite False (of_int (min (b * 2 ^ k) m))"
proof -
  have v: "of_int b * pow2 (int k) = (of_int (b * 2 ^ k) :: rat)" by (simp add: pow2_nat)
  have "of_int m < (of_int (2 ^ 53) :: rat)" using assms(4) by (simp only: of_int_less_iff)
  also have "\<dots> < pow2 1024" using pow2_less [of 53 1024] pow2_int [of 53] by simp
  finally have "m \<le> b * 2 ^ k" if "pow2 1024 \<le> (of_int (b * 2 ^ k) :: rat)"
    using that by (simp add: less_le_trans less_imp_le flip: of_int_le_iff [where 'a = rat])
  then show ?thesis unfolding doubled_exact [OF assms(1,2)] v by (auto simp: f64_min_def min_def simp del: of_int_mult of_int_power)
qed

lemma no_jitter:
  assumes "0 \<le> m" "m < 2 ^ 53"
  shows "f64_max (f64_add (Finite False (of_int m)) (Finite False 0)) (Finite False 0) = Finite False (of_int m)"
  using assms round64_int [of m False] by (auto simp: Let_def round_signed_def f64_max_def)

subsection \<open>Properties\<close>



text \<open>The first and the last wait of the default policy, with its jitter.\<close>

lemma default_delays:
  "map (delay_ms_for Exponential (f64_of_int 500) (f64_of_int 60000) (f64_of_bits (rt_jitter policy_default))) [1, 5] =
     map (Finite False) [467, 8560]"
  unfolding policy_default_def RetryPolicy.simps by code_simp

end
