(* ===== verification/Redis_Delivery.thy ===== *)
theory Redis_Delivery
  imports Redis_Bus
begin

text \<open>
  What reaches a subscriber of the Redis bus.

  The relation \<^verbatim>\<open>redis_reach\<close> interleaves publishers, the turns of the thread behind one subscription and everybody
  else on the server; it records what was published.  Proved for every server that keeps the laws of
  \<^verbatim>\<open>redis_server\<close>; \<^verbatim>\<open>mini_redis\<close> is one.  The last theorem composes the bus with the stock projection.
\<close>

subsection \<open>The thread among others\<close>

text \<open>\<^verbatim>\<open>others\<close>: other groups and consumers, other streams, the passing of time.  The channel is everything sent so far.\<close>

inductive redis_reach ::
    "'r Redis \<Rightarrow> ('r \<Rightarrow> string \<Rightarrow> (string \<times> (string \<times> string) list) list) \<Rightarrow> ('r \<Rightarrow> string \<Rightarrow> string \<Rightarrow> nat) \<Rightarrow>
     Platform \<Rightarrow> EnvelopeText \<Rightarrow> RedisStreamsEventBus \<Rightarrow> string \<Rightarrow> TenantId option \<Rightarrow>
     'r \<times> RedisThread \<Rightarrow> Json EventEnvelope list \<Rightarrow> bool"
    for rd entries delivered pf et bus g tenant_id where
  rr_subscribe: "list_all2 (published_entry pf et) (entries r (rb_stream_key bus)) log \<Longrightarrow>
    delivered r (rb_stream_key bus) g = 0 \<Longrightarrow>
    redis_reach rd entries delivered pf et bus g tenant_id (subscribe_with_group rd bus r g c tenant_id) log"
| rr_publish: "redis_reach rd entries delivered pf et bus g tenant_id (r, th) log \<Longrightarrow>
    publish_sync rd pf et bus r m = (r', Inr ()) \<Longrightarrow>
    redis_reach rd entries delivered pf et bus g tenant_id (r', th) (log @ [m])"
| rr_publish_error: "redis_reach rd entries delivered pf et bus g tenant_id (r, th) log \<Longrightarrow>
    publish_sync rd pf et bus r m = (r', Inl e) \<Longrightarrow>
    redis_reach rd entries delivered pf et bus g tenant_id (r', th) log"
| rr_others: "redis_reach rd entries delivered pf et bus g tenant_id (r, th) log \<Longrightarrow>
    entries r' (rb_stream_key bus) = entries r (rb_stream_key bus) \<Longrightarrow>
    delivered r' (rb_stream_key bus) g = delivered r (rb_stream_key bus) g \<Longrightarrow>
    redis_reach rd entries delivered pf et bus g tenant_id (r', th) log"
| rr_turn: "redis_reach rd entries delivered pf et bus g tenant_id x log \<Longrightarrow>
    redis_reach rd entries delivered pf et bus g tenant_id (forward_turn rd pf et bus x) log"
| rr_drop: "redis_reach rd entries delivered pf et bus g tenant_id (r, th) log \<Longrightarrow>
    redis_reach rd entries delivered pf et bus g tenant_id (r, th\<lparr>rt_receiver_alive := False\<rparr>) log"

text \<open>The server answers and no entry that is pending has been idle for long enough to be claimed.\<close>

definition quiet :: "'r Redis \<Rightarrow> Platform \<Rightarrow> EnvelopeText \<Rightarrow> RedisStreamsEventBus \<Rightarrow> 'r \<times> RedisThread \<Rightarrow> bool" where
  "quiet rd pf et bus x =
    (case x of (r, th) \<Rightarrow>
      rd_get_connection rd r = Inr () \<and>
      (case read_pending_sync rd pf et bus r (rs_group_name (rt_sub th)) (rs_consumer_name (rt_sub th))
              (rs_tenant_id (rt_sub th)) 10 of
         (r1, Inr []) \<Rightarrow>
           (case snd (rd_xreadgroup rd r1 (rs_group_name (rt_sub th)) (rs_consumer_name (rt_sub th)) 10 100
                   (rb_stream_key bus)) of Inr _ \<Rightarrow> True | Inl _ \<Rightarrow> False)
       | _ \<Rightarrow> False))"

text \<open>What was published and read by the group has been sent, unless the receiver is gone; nothing else has.\<close>

definition redis_inv ::
    "('r \<Rightarrow> string \<Rightarrow> (string \<times> (string \<times> string) list) list) \<Rightarrow> ('r \<Rightarrow> string \<Rightarrow> string \<Rightarrow> nat) \<Rightarrow>
     Platform \<Rightarrow> EnvelopeText \<Rightarrow> RedisStreamsEventBus \<Rightarrow> string \<Rightarrow> TenantId option \<Rightarrow> 'r \<times> RedisThread \<Rightarrow> Json EventEnvelope list \<Rightarrow> bool" where
  "redis_inv entries delivered pf et bus g tenant_id x log \<longleftrightarrow> (case x of (r, th) \<Rightarrow>
     list_all2 (published_entry pf et) (entries r (rb_stream_key bus)) log \<and>
     delivered r (rb_stream_key bus) g \<le> length log \<and>
     rs_group_name (rt_sub th) = g \<and> rs_tenant_id (rt_sub th) = tenant_id \<and>
     set (rt_channel th) \<subseteq> set (filter (allowed tenant_id) (take (delivered r (rb_stream_key bus) g) log)) \<and>
     (rt_receiver_alive th \<longrightarrow> rs_buffer (rt_sub th) = [] \<and> rt_running th \<and>
        set (filter (allowed tenant_id) (take (delivered r (rb_stream_key bus) g) log)) \<subseteq> set (rt_channel th)))"

text \<open>The stream from position \<^verbatim>\<open>d\<close> on in pieces of ten, each turned around.\<close>

definition batches :: "TenantId option \<Rightarrow> nat \<Rightarrow> nat \<Rightarrow> Json EventEnvelope list \<Rightarrow> Json EventEnvelope list" where
  "batches tenant_id d n log =
     concat (map (\<lambda>i. rev (filter (allowed tenant_id) (take 10 (drop (d + 10 * i) log)))) [0..<n])"

context redis_server
begin

text \<open>Whatever a poll does, no stream changes, and the buffer grows by delivered or by the next entries.\<close>

lemma poll_turn:
  assumes "envelope_text_ok pf et" "list_all2 (published_entry pf et) (entries r (rb_stream_key bus)) log"
    "0 < rb_max_retries bus" "poll rd pf et bus r sub = (r', sub')"
  defines "d \<equiv> delivered r (rb_stream_key bus) (rs_group_name sub)"
  obtains (again) more where "delivered r' (rb_stream_key bus) (rs_group_name sub) = d"
      "set more \<subseteq> set (filter (allowed (rs_tenant_id sub)) (take d log))" "\<not> quiet rd pf et bus (r, th\<lparr>rt_sub := sub\<rparr>)"
      "entries r' = entries r" "rs_group_name sub' = rs_group_name sub" "rs_tenant_id sub' = rs_tenant_id sub"
      "rs_consumer_name sub' = rs_consumer_name sub" "rs_buffer sub' = rs_buffer sub @ more"
  | (fresh) "delivered r' (rb_stream_key bus) (rs_group_name sub) = d + length (take 10 (drop d log))"
      "entries r' = entries r" "rs_group_name sub' = rs_group_name sub" "rs_tenant_id sub' = rs_tenant_id sub"
      "rs_consumer_name sub' = rs_consumer_name sub"
      "rs_buffer sub' = rs_buffer sub @ filter (allowed (rs_tenant_id sub)) (take 10 (drop d log))"
proof -
  let ?g = "rs_group_name sub" and ?c = "rs_consumer_name sub" and ?t = "rs_tenant_id sub" and ?k = "rb_stream_key bus"
  show thesis
  proof (cases "rd_get_connection rd r")
    case (Inl e)
    then show thesis using assms(4) by (intro again [of "[]"]) (auto simp: poll_def read_group_sync_def quiet_def d_def)
  next
    case (Inr u)
    obtain r1 p where p: "read_pending_sync rd pf et bus r ?g ?c ?t 10 = (r1, p)" by fastforce
    obtain pend where pend: "entries r1 = entries r" "delivered r1 = delivered r" "p = Inr pend"
      "\<forall>msg \<in> set pend. sm_retry_count msg = 0 \<and> sm_envelope msg \<in> set (filter (allowed ?t) (take d log))"
      using read_pending [OF assms(1,2) p] by (auto simp: d_def)
    show thesis
    proof (cases "pend = []")
      case False
      then have "quiet rd pf et bus (r, th\<lparr>rt_sub := sub\<rparr>) = False" using p pend(3)
        by (cases pend) (simp_all add: quiet_def)
      then show thesis
        using assms(4) Inr p pend False poll_messages_fresh [OF _ assms(3), of pend rd pf et r1 sub]
        by (intro again [of "map sm_envelope pend"]) (auto simp: poll_def read_group_sync_def d_def)
    next
      case True
      obtain r2 q where q: "rd_xreadgroup rd r1 ?g ?c 10 100 ?k = (r2, q)" by fastforce
      show thesis
      proof (cases q)
        case (Inl e)
        then have "quiet rd pf et bus (r, th\<lparr>rt_sub := sub\<rparr>) = False" "r' = r2"  "sub' = sub"
          using assms(4) \<open>rd_get_connection rd r = Inr u\<close> p pend(3) True q
          by (auto simp: quiet_def poll_def read_group_sync_def read_new_sync_def split: if_splits)
        then show thesis using xreadgroup_error [OF q [unfolded Inl]] pend by (intro again [of "[]"]) (simp_all add: d_def)
      next
        case ok: (Inr m)
        obtain r3 msgs where n: "read_new_sync rd pf et bus r1 ?g ?c ?t 10 100 = (r3, Inr msgs)"
          using q ok by (simp add: read_new_sync_def Let_def)
        have new: "entries r3 = entries r" "delivered r3 ?k ?g = d + length (take 10 (drop d log))"
          "map sm_envelope msgs = filter (allowed ?t) (take 10 (drop d log))" "\<forall>msg \<in> set msgs. sm_retry_count msg = 0"
          using read_new [OF assms(1) _ n q [unfolded ok], of log] assms(2) pend by (auto simp: d_def)
        show thesis
          using assms(4) \<open>rd_get_connection rd r = Inr u\<close> p pend True n new
            poll_messages_fresh [OF new(4) assms(3), of rd pf et r3 sub]
          by (intro fresh) (auto simp: poll_def read_group_sync_def)
      qed
    qed
  qed
qed

text \<open>A turn keeps the invariant and every stream.\<close>

lemma turn_inv:
  assumes "envelope_text_ok pf et" "0 < rb_max_retries bus" "redis_inv entries delivered pf et bus g tenant_id (r, th) log"
    "forward_turn rd pf et bus (r, th) = (r', th')"
  shows "redis_inv entries delivered pf et bus g tenant_id (r', th') log \<and> entries r' = entries r"
proof (cases "rt_running th")
  case False
  then show ?thesis using assms(3,4) by (simp add: forward_turn_def)
next
  case True
  let ?sub = "rt_sub th" and ?k = "rb_stream_key bus"
  let ?d = "delivered r ?k g"
  obtain sub' where p: "poll rd pf et bus r ?sub = (r', sub')" and th': "th' = drain (th\<lparr>rt_sub := sub'\<rparr>)"
    using assms(4) True by (auto simp: forward_turn_def split: prod.splits)
  have i: "list_all2 (published_entry pf et) (entries r ?k) log" "rs_group_name ?sub = g" "rs_tenant_id ?sub = tenant_id"
    "set (rt_channel th) \<subseteq> set (filter (allowed tenant_id) (take ?d log))"
    "rt_receiver_alive th \<Longrightarrow> rs_buffer ?sub = [] \<and> set (filter (allowed tenant_id) (take ?d log)) \<subseteq> set (rt_channel th)"
    "?d \<le> length log"
    using assms(3) by (simp_all add: redis_inv_def)
  have mono: "set (filter (allowed tenant_id) (take ?d log)) \<subseteq> set (filter (allowed tenant_id) (take (?d + n) log))" for n
    by (auto simp: take_add)
  have split: "take (?d + length (take 10 (drop ?d log))) log = take ?d log @ take 10 (drop ?d log)"
    by (simp add: take_add) (metis length_drop length_take min.commute take_all_iff take_take linorder_le_cases min_def)
  show ?thesis
  proof (rule poll_turn [OF assms(1) i(1) assms(2) p, of th], goal_cases again fresh)
    case (again more)
    then show ?thesis
      using i True by (cases "rt_receiver_alive th")
        (auto simp: redis_inv_def th' drain_alive drain_dead drain_keeps)
  next
    case fresh
    then have d: "take (delivered r' ?k g) log = take ?d log @ take 10 (drop ?d log)" "delivered r' ?k g \<le> length log"
      using i(2,6) split by simp_all
    show ?thesis
      using fresh i True d by (cases "rt_receiver_alive th")
        (auto simp: redis_inv_def th' drain_alive drain_dead drain_keeps simp del: length_take)
  qed
qed

lemma publish_inv:
  assumes "redis_inv entries delivered pf et bus g tenant_id (r, th) log" "publish_sync rd pf et bus r m = (r', res)"
  shows "redis_inv entries delivered pf et bus g tenant_id (r', th) (case res of Inr _ \<Rightarrow> log @ [m] | Inl _ \<Rightarrow> log)"
proof -
  let ?k = "rb_stream_key bus"
  consider e where "r' = r" "res = Inl e"
    | payload a e where "et_to_string et m = Inr payload" "res = Inl e"
        "rd_xadd rd r ?k (publish_fields pf m payload) = (r', Inl a)"
    | payload i where "et_to_string et m = Inr payload" "res = Inr ()"
        "rd_xadd rd r ?k (publish_fields pf m payload) = (r', Inr i)"
    using assms(2) by (fastforce simp: publish_sync_def split: sum.splits prod.splits)
  then show ?thesis
  proof cases
    case 1
    then show ?thesis using assms(1) by simp
  next
    case 2
    then show ?thesis using assms(1) xadd_error [OF 2(3)] by (simp add: redis_inv_def)
  next
    case 3
    then have "published_entry pf et (i, publish_fields pf m payload) m"
      using xadd_ok [OF 3(3)] by (simp add: published_entry_def)
    then have "list_all2 (published_entry pf et) (entries r' ?k) (log @ [m])"
      using assms(1) xadd_ok [OF 3(3)] by (simp add: redis_inv_def list_all2_appendI)
    then show ?thesis using 3(2) assms(1) xadd_ok [OF 3(3)] by (auto simp: redis_inv_def)
  qed
qed

lemma reach_inv:
  assumes "redis_reach rd entries delivered pf et bus g tenant_id x log" "envelope_text_ok pf et" "0 < rb_max_retries bus"
  shows "redis_inv entries delivered pf et bus g tenant_id x log"
  using assms(1)
proof (induction rule: redis_reach.induct)
  case (rr_subscribe r log c)
  then show ?case
    using xgroup [of r "rb_stream_key bus" g]
    by (cases "rd_get_connection rd r")
      (simp_all add: redis_inv_def subscribe_with_group_def subscription_new_def ensure_consumer_group_def)
next
  case (rr_publish r th log m r')
  then show ?case using publish_inv by fastforce
next
  case (rr_publish_error r th log m r' e)
  then show ?case using publish_inv by fastforce
next
  case (rr_others r th log r')
  then show ?case by (simp add: redis_inv_def)
next
  case (rr_turn x log)
  then show ?case using turn_inv [OF assms(2,3)] by (metis surj_pair)
next
  case (rr_drop r th log)
  then show ?case by (simp add: redis_inv_def)
qed

text \<open>A quiet turn sends the next ten entries of the stream, those of the tenant, last one first.\<close>

lemma quiet_turn:
  assumes "envelope_text_ok pf et" "0 < rb_max_retries bus" "redis_inv entries delivered pf et bus g tenant_id (r, th) log"
    "rt_receiver_alive th" "quiet rd pf et bus (r, th)" "forward_turn rd pf et bus (r, th) = (r', th')"
  defines "d \<equiv> delivered r (rb_stream_key bus) g"
  shows "rt_channel th' = rt_channel th @ rev (filter (allowed tenant_id) (take 10 (drop d log))) \<and>
    delivered r' (rb_stream_key bus) g = d + length (take 10 (drop d log)) \<and> rt_receiver_alive th'"
proof -
  let ?sub = "rt_sub th" and ?k = "rb_stream_key bus"
  have i: "list_all2 (published_entry pf et) (entries r ?k) log" "rs_group_name ?sub = g" "rs_tenant_id ?sub = tenant_id"
    "rs_buffer ?sub = []" "rt_running th"
    using assms(3,4) by (simp_all add: redis_inv_def)
  obtain sub' where p: "poll rd pf et bus r ?sub = (r', sub')" and th': "th' = drain (th\<lparr>rt_sub := sub'\<rparr>)"
    using assms(6) i(5) by (auto simp: forward_turn_def split: prod.splits)
  show ?thesis
  proof (rule poll_turn [OF assms(1) i(1) assms(2) p, of th], goal_cases again fresh)
    case (again more)
    then show ?thesis using assms(5) by simp
  next
    case fresh
    then show ?thesis using i assms(4) by (simp add: th' drain_alive d_def)
  qed
qed

lemma quiet_run:
  assumes "envelope_text_ok pf et" "0 < rb_max_retries bus" "redis_inv entries delivered pf et bus g tenant_id (r, th) log"
    "rt_receiver_alive th" "\<forall>i < n. quiet rd pf et bus ((forward_turn rd pf et bus ^^ i) (r, th))"
    "(forward_turn rd pf et bus ^^ n) (r, th) = (r', th')"
  shows "rt_channel th' = rt_channel th @ batches tenant_id (delivered r (rb_stream_key bus) g) n log \<and>
    rt_receiver_alive th' \<and> redis_inv entries delivered pf et bus g tenant_id (r', th') log \<and>
    drop (delivered r' (rb_stream_key bus) g) log = drop (delivered r (rb_stream_key bus) g + 10 * n) log"
  using assms(5,6)
proof (induction n arbitrary: r' th')
  case 0
  then show ?case using assms(3,4) by (simp add: batches_def)
next
  case (Suc n)
  let ?k = "rb_stream_key bus"
  let ?d = "delivered r ?k g"
  obtain r1 th1 where 1: "(forward_turn rd pf et bus ^^ n) (r, th) = (r1, th1)" by fastforce
  note IH = Suc.IH [OF _ 1]
  have q: "quiet rd pf et bus (r1, th1)" using Suc.prems(1) 1 by (metis lessI)
  have t: "forward_turn rd pf et bus (r1, th1) = (r', th')" using Suc.prems(2) 1 by simp
  have i: "redis_inv entries delivered pf et bus g tenant_id (r1, th1) log" "rt_receiver_alive th1"
    "rt_channel th1 = rt_channel th @ batches tenant_id ?d n log" "drop (delivered r1 ?k g) log = drop (?d + 10 * n) log"
    using IH Suc.prems(1) by auto
  have "drop (delivered r' ?k g) log = drop (length (take 10 (drop (delivered r1 ?k g) log))) (drop (delivered r1 ?k g) log)"
    using quiet_turn [OF assms(1,2) i(1,2) q t] by (simp add: add.commute)
  also have "\<dots> = drop 10 (drop (delivered r1 ?k g) log)" by (metis append_take_drop_id append_eq_conv_conj)
  finally have "drop (delivered r' ?k g) log = drop (?d + 10 * Suc n) log" using i(4) by (simp add: algebra_simps)
  then show ?case
    using quiet_turn [OF assms(1,2) i(1,2) q t] turn_inv [OF assms(1,2) i(1) t] i(3,4) by (simp add: batches_def)
qed

end

subsection \<open>A small server\<close>

text \<open>Streams, groups with their pending entries (id, consumer, time of delivery, count), and a clock in
  milliseconds.  A claim restarts the idle time; an empty read waits.\<close>

record MiniGroup =
  mg_delivered :: nat
  mg_pending :: "(string \<times> string \<times> nat \<times> nat) list"

record MiniRedis =
  mr_streams :: "string \<Rightarrow> (string \<times> (string \<times> string) list) list"
  mr_groups :: "string \<Rightarrow> string \<Rightarrow> MiniGroup option"
  mr_clock :: nat

definition mini_set_group :: "MiniRedis \<Rightarrow> string \<Rightarrow> string \<Rightarrow> MiniGroup \<Rightarrow> MiniRedis" where
  "mini_set_group r k g mg = r\<lparr>mr_groups := (mr_groups r)(k := (mr_groups r k)(g \<mapsto> mg))\<rparr>"

definition mini_xgroup_create :: "MiniRedis \<Rightarrow> string \<Rightarrow> string \<Rightarrow> MiniRedis" where
  "mini_xgroup_create r k g =
    (if mr_groups r k g \<noteq> None then r else mini_set_group r k g \<lparr> mg_delivered = 0, mg_pending = [] \<rparr>)"

definition mini_xadd :: "MiniRedis \<Rightarrow> string \<Rightarrow> (string \<times> string) list \<Rightarrow> MiniRedis \<times> (string + string)" where
  "mini_xadd r k fs =
    (let i = show_nat (mr_clock r) @ ''-'' @ show_nat (length (mr_streams r k))
     in (r\<lparr>mr_streams := (mr_streams r)(k := mr_streams r k @ [(i, fs)])\<rparr>, Inr i))"

definition mini_xack :: "MiniRedis \<Rightarrow> string \<Rightarrow> string \<Rightarrow> string list \<Rightarrow> MiniRedis \<times> (string + nat)" where
  "mini_xack r k g ids =
    (case mr_groups r k g of
       None \<Rightarrow> (r, Inr 0)
     | Some mg \<Rightarrow> (mini_set_group r k g (mg\<lparr>mg_pending := filter (\<lambda>p. fst p \<notin> set ids) (mg_pending mg)\<rparr>),
         Inr (length (filter (\<lambda>p. fst p \<in> set ids) (mg_pending mg)))))"

definition mini_xpending ::
    "MiniRedis \<Rightarrow> string \<Rightarrow> string \<Rightarrow> nat \<Rightarrow> string \<Rightarrow> MiniRedis \<times> (string + (string \<times> string \<times> nat \<times> nat) list)" where
  "mini_xpending r k g n c =
    (r, case mr_groups r k g of
          None \<Rightarrow> Inl ''NOGROUP''
        | Some mg \<Rightarrow> Inr (take n (map (\<lambda>(i, c, at, m). (i, c, mr_clock r - at, m))
            (filter (\<lambda>p. fst (snd p) = c) (mg_pending mg)))))"

definition mini_xclaim ::
    "MiniRedis \<Rightarrow> string \<Rightarrow> string \<Rightarrow> string \<Rightarrow> u64 \<Rightarrow> string list \<Rightarrow> u32 \<Rightarrow> MiniRedis \<times> (string + RedisValue list)" where
  "mini_xclaim r k g c idle ids m =
    (case mr_groups r k g of
       None \<Rightarrow> (r, Inl ''NOGROUP'')
     | Some mg \<Rightarrow>
         (let old = (\<lambda>p. fst p \<in> set ids \<and> unat idle \<le> mr_clock r - fst (snd (snd p)));
              claimed = map fst (filter old (mg_pending mg))
          in (mini_set_group r k g (mg\<lparr>mg_pending :=
                map (\<lambda>p. if old p then (fst p, c, mr_clock r, unat m) else p) (mg_pending mg)\<rparr>),
              Inr (map entry_value (filter (\<lambda>x. fst x \<in> set claimed) (take (mg_delivered mg) (mr_streams r k)))))))"

definition mini_xreadgroup ::
    "MiniRedis \<Rightarrow> string \<Rightarrow> string \<Rightarrow> nat \<Rightarrow> nat \<Rightarrow> string \<Rightarrow> MiniRedis \<times> (RedisError + (string \<rightharpoonup> RedisValue list))" where
  "mini_xreadgroup r g c n block k =
    (case mr_groups r k g of
       None \<Rightarrow> (r, Inl \<lparr> re_type_error = False, re_text = ''NOGROUP'' \<rparr>)
     | Some mg \<Rightarrow>
         (let new = take n (drop (mg_delivered mg) (mr_streams r k)) in
          if new = [] then (r\<lparr>mr_clock := mr_clock r + block\<rparr>, Inr Map.empty)
          else (mini_set_group r k g \<lparr> mg_delivered = mg_delivered mg + length new,
                  mg_pending = mg_pending mg @ map (\<lambda>x. (fst x, c, mr_clock r, 1)) new \<rparr>,
                Inr [k \<mapsto> map entry_value new])))"

definition mini_redis :: "MiniRedis Redis" where
  "mini_redis = \<lparr> rd_utc_now = (\<lambda>r. int (mr_clock r)), rd_get_connection = (\<lambda>_. Inr ()),
     rd_xgroup_create = mini_xgroup_create, rd_xadd = mini_xadd, rd_xack = mini_xack, rd_xpending = mini_xpending,
     rd_xclaim = mini_xclaim, rd_xreadgroup = mini_xreadgroup \<rparr>"

definition mini_delivered :: "MiniRedis \<Rightarrow> string \<Rightarrow> string \<Rightarrow> nat" where
  "mini_delivered r k g = (case mr_groups r k g of None \<Rightarrow> 0 | Some mg \<Rightarrow> mg_delivered mg)"

lemma ascii_utf8: "list_all (\<lambda>c. (of_char c :: nat) < 128) s \<Longrightarrow> is_utf8 s"
proof (induction s)
  case Nil
  then show ?case by (subst is_utf8.simps) simp
next
  case (Cons c s)
  then have "utf8_chunk (map of_char (c # s)) = (True, 1)" by (simp add: utf8_chunk_def Let_def)
  then show ?case using Cons by (subst is_utf8.simps) simp
qed

lemma show_nat_ascii: "list_all (\<lambda>c. (of_char c :: nat) < 128) (show_nat n)"
proof (induction n rule: show_nat.induct)
  case (1 n)
  then show ?case by (subst show_nat.simps) auto
qed

lemma mini_delivered_set [simp]:
  "mini_delivered (mini_set_group r k g mg) = (mini_delivered r)(k := (mini_delivered r k)(g := mg_delivered mg))"
  "mr_streams (mini_set_group r k g mg) = mr_streams r"
  by (auto simp: mini_set_group_def mini_delivered_def fun_eq_iff)

lemma mini_delivered_same:
  "mr_groups r k g = Some mg \<Longrightarrow> (mini_delivered r)(k := (mini_delivered r k)(g := mg_delivered mg)) = mini_delivered r"
  "mr_groups r k g = None \<Longrightarrow> (mini_delivered r)(k := (mini_delivered r k)(g := 0)) = mini_delivered r"
  by (auto simp: mini_delivered_def fun_eq_iff)

interpretation mini: redis_server mini_redis mr_streams mini_delivered
proof (unfold_locales, goal_cases)
  case (1 r k fs r' i)
  then show ?case
    using show_nat_ascii by (auto simp: mini_redis_def mini_xadd_def Let_def mini_delivered_def fun_eq_iff intro!: ascii_utf8)
next
  case (3 r k g)
  then show ?case by (auto simp: mini_redis_def mini_xgroup_create_def mini_delivered_same)
next
  case (4 r k g ids)
  then show ?case by (auto simp: mini_redis_def mini_xack_def mini_delivered_same split: option.splits)
next
  case (6 r k g c idle ids mr)
  then show ?case by (auto simp: mini_redis_def mini_xclaim_def Let_def mini_delivered_same split: option.splits)
next
  case (7 r k g c idle ids mr r' vs)
  then show ?case by (auto simp: mini_redis_def mini_xclaim_def Let_def mini_delivered_def split: option.splits)
next
  case (8 r g c n block k r' m)
  then show ?case
    by (cases "mr_groups r k g")
      (auto simp: mini_redis_def mini_xreadgroup_def Let_def mini_set_group_def mini_delivered_def unread_def
        fun_eq_iff split: if_splits)
qed (auto simp: mini_redis_def mini_xpending_def mini_xadd_def mini_xreadgroup_def Let_def split: option.splits if_splits)

subsection \<open>An example\<close>

text \<open>The two events of an item, published, with a serde that knows these two envelopes.\<close>

definition ex_redis_env :: "nat \<Rightarrow> Json EventEnvelope" where
  "ex_redis_env n = \<lparr> ee_event_id = of_nat n, ee_tenant_id = TenantId 1, ee_aggregate_id = AggregateId 7,
     ee_aggregate_type = ''inventory.item'', ee_sequence_number = of_nat n, ee_payload = JNumber (int n) \<rparr>"

definition ex_redis_text :: EnvelopeText where
  "ex_redis_text = \<lparr> et_to_string = (\<lambda>m. if m = ex_redis_env 1 then Inr ''a'' else if m = ex_redis_env 2 then Inr ''b'' else Inl ''no''),
     et_from_str = (\<lambda>s. if s = ''a'' then Inr (ex_redis_env 1) else if s = ''b'' then Inr (ex_redis_env 2) else Inl ''no''),
     et_uuid_error = (\<lambda>_. ''invalid length'') \<rparr>"

definition ex_redis_platform :: Platform where
  "ex_redis_platform = \<lparr> pf_parse_uuid = (\<lambda>s. Some (of_nat (length s))), pf_uuid_string = (\<lambda>u. replicate (unat u) CHR ''1''),
     pf_parse_rfc3339 = (\<lambda>_. None), pf_to_rfc3339 = (\<lambda>_. []), pf_to_lowercase = id, pf_debug_store_error = (\<lambda>_. []),
     pf_iter = id \<rparr>"

definition ex_redis_bus :: RedisStreamsEventBus where
  "ex_redis_bus = redis_bus_new None None"

definition ex_redis_empty :: MiniRedis where
  "ex_redis_empty = \<lparr> mr_streams = (\<lambda>_. []), mr_groups = (\<lambda>_. Map.empty), mr_clock = 100 \<rparr>"

definition ex_redis_published :: "MiniRedis \<Rightarrow> nat \<Rightarrow> MiniRedis" where
  "ex_redis_published r n = fst (publish_sync mini_redis ex_redis_platform ex_redis_text ex_redis_bus r (ex_redis_env n))"

definition ex_redis_state :: "MiniRedis \<times> RedisThread" where
  "ex_redis_state =
    (case subscribe_with_group mini_redis ex_redis_bus ex_redis_empty ''stock'' ''worker-1'' None of
       (r, th) \<Rightarrow> (ex_redis_published (ex_redis_published r 1) 2, th))"

lemma ex_redis_text_ok: "envelope_text_ok ex_redis_platform ex_redis_text"
proof -
  have "ex_redis_env 1 \<noteq> ex_redis_env 2" by code_simp
  moreover have "is_utf8 ''a''" "is_utf8 ''b''" by code_simp+
  moreover have "list_all (\<lambda>c. (of_char c :: nat) < 128) (replicate n CHR ''1'')" for n
    by (induction n) simp_all
  ultimately show ?thesis
    by (auto simp: envelope_text_ok_def ex_redis_text_def ex_redis_platform_def ascii_utf8)
qed

lemma ex_redis_reach:
  "redis_reach mini_redis mr_streams mini_delivered ex_redis_platform ex_redis_text ex_redis_bus ''stock'' None
     ex_redis_state [ex_redis_env 1, ex_redis_env 2]"
proof -
  obtain r th where s: "subscribe_with_group mini_redis ex_redis_bus ex_redis_empty ''stock'' ''worker-1'' None = (r, th)" by fastforce
  have ok: "publish_sync mini_redis ex_redis_platform ex_redis_text ex_redis_bus r (ex_redis_env n) =
      (ex_redis_published r n, Inr ())" if "n = 1 \<or> n = 2" for r n
    using that by (auto simp: ex_redis_published_def publish_sync_def mini_redis_def mini_xadd_def Let_def ex_redis_text_def)
  have "redis_reach mini_redis mr_streams mini_delivered ex_redis_platform ex_redis_text ex_redis_bus ''stock'' None (r, th) []"
    using rr_subscribe [of ex_redis_platform ex_redis_text mr_streams ex_redis_empty ex_redis_bus "[]" mini_delivered "''stock''"
      mini_redis None "''worker-1''"] s by (simp add: ex_redis_empty_def mini_delivered_def)
  from rr_publish [OF rr_publish [OF this ok [of 1]] ok [of 2]] show ?thesis by (simp add: ex_redis_state_def s)
qed

subsection \<open>Properties\<close>

text \<open>C33: an entry that was published and is read back from the stream yields the envelope that was published, with its
  message id and no retries counted, for a subscriber without a tenant filter or with the envelope's tenant; for every
  other tenant the entry is refused.\<close>

theorem redis_entry_roundtrip:
  assumes "envelope_text_ok pf et" "published_entry pf et x m"
  shows "parse_stream_entry pf et (entry_value x) tenant_id =
    (if tenant_id = None \<or> tenant_id = Some (ee_tenant_id m)
     then Inr \<lparr> sm_message_id = fst x, sm_envelope = m, sm_retry_count = 0 \<rparr>
     else Inl (Deserialization ''Tenant mismatch (skipping)''))"
  using parse_published [OF assms, of tenant_id] by (cases tenant_id) (auto simp: allowed_def)

theorem redis_entry_roundtrip_witness:
  "parse_stream_entry ex_redis_platform ex_redis_text
     (entry_value (''100-0'', publish_fields ex_redis_platform (ex_redis_env 1) ''a'')) (Some (TenantId 2)) =
   Inl (Deserialization ''Tenant mismatch (skipping)'')"
proof -
  have p: "published_entry ex_redis_platform ex_redis_text
      (''100-0'', publish_fields ex_redis_platform (ex_redis_env 1) ''a'') (ex_redis_env 1)"
    by (simp add: published_entry_def ex_redis_text_def) code_simp
  show ?thesis using redis_entry_roundtrip [OF ex_redis_text_ok p, of "Some (TenantId 2)"] by (simp add: ex_redis_env_def)
qed



subsection \<open>The bus and a projection\<close>

text \<open>The first event of an item's history creates it, no later one does.\<close>

lemma decided_item_last:
  assumes "decided item_apply item_handle (item_empty i) h"
  shows "(ii_created (foldl item_apply (item_empty i) h) \<longleftrightarrow> h \<noteq> []) \<and>
    (2 \<le> length h \<longrightarrow> (\<exists>e. last h = StockAdjusted e))"
  using assms
proof induction
  case decided_Nil
  then show ?case by (simp add: item_empty_def)
next
  case (decided_step h c es)
  then show ?case
    by (cases c) (auto simp: item_handle_create_ok item_handle_adjust_ok item_apply_def)
qed

text \<open>At the start any number is taken; from then on smaller ones are skipped as duplicates.\<close>

lemma apply_first:
  assumes "get_cursor ops p (ee_tenant_id env) (ee_aggregate_id env) = 0" "ee_aggregate_type env = pl_aggregate_type pl"
    "ee_sequence_number env \<noteq> 0" "from_value (ee_payload env) = Inr ev" "pl_check pl (ee_tenant_id env) (ee_aggregate_id env) ev = Inr ()"
  shows "apply_envelope ops from_value pl p env =
    (update_cursor ops (p\<lparr>pj_store := pl_update pl (pj_store p) (ee_tenant_id env) (ee_aggregate_id env) ev\<rparr>)
       (ee_tenant_id env) (ee_aggregate_id env) (ee_sequence_number env), Inr ())"
  using assms by (simp add: apply_envelope_def Let_def)

lemma apply_seen:
  assumes "\<forall>env \<in> set envs. ee_aggregate_type env = pl_aggregate_type pl \<longrightarrow> ee_sequence_number env \<noteq> 0 \<and>
      ee_sequence_number env \<le> get_cursor ops p (ee_tenant_id env) (ee_aggregate_id env)"
  shows "apply_envelopes (apply_envelope ops from_value pl) p envs = (p, Inr ())"
  using assms by (induction envs) (auto simp: apply_envelope_def Let_def)

text \<open>The envelopes of an item's history.\<close>

definition item_envelopes :: "('j \<Rightarrow> string + InventoryEvent) \<Rightarrow> TenantId \<Rightarrow> AggregateId \<Rightarrow> InventoryEvent list \<Rightarrow> 'j EventEnvelope list \<Rightarrow> bool" where
  "item_envelopes from_value t a h log \<longleftrightarrow> length log = length h \<and>
    (\<forall>i < length h. ee_tenant_id (log ! i) = t \<and> ee_aggregate_id (log ! i) = a \<and>
       ee_aggregate_type (log ! i) = ''inventory.item'' \<and> ee_sequence_number (log ! i) = of_nat (Suc i) \<and>
       from_value (ee_payload (log ! i)) = Inr (h ! i) \<and> inventory_check t a (h ! i) = Inr ())"

lemma newest_first:
  fixes ops :: "'c ProjectionCursorStore"
  assumes "item_envelopes from_value t a h log" "h \<noteq> []" "length h < 2 ^ 64" "envs = last log # rest" "set rest \<subseteq> set log"
  obtains p where
    "apply_envelopes (apply_envelope ops from_value inventory_stock) (projection_new ts_new name) envs = (p, Inr ())"
    "pj_store p = inventory_stock_update ts_new t a (last h)"
    "\<And>more. set more \<subseteq> set log \<Longrightarrow> apply_envelopes (apply_envelope ops from_value inventory_stock) p more = (p, Inr ())"
proof -
  let ?n = "length h" and ?start = "projection_new ts_new name :: (stock_store, 'c) Projection"
  have l: "length log = ?n" "\<And>i. i < ?n \<Longrightarrow> ee_tenant_id (log ! i) = t \<and> ee_aggregate_id (log ! i) = a \<and>
       ee_aggregate_type (log ! i) = ''inventory.item'' \<and> ee_sequence_number (log ! i) = of_nat (Suc i) \<and>
       from_value (ee_payload (log ! i)) = Inr (h ! i) \<and> inventory_check t a (h ! i) = Inr ()"
    using assms(1) by (auto simp: item_envelopes_def)
  have last: "last log = log ! (?n - 1)" "last h = h ! (?n - 1)" "Suc (?n - 1) = ?n"
    using l(1) assms(2) by (simp_all add: last_conv_nth flip: length_greater_0_conv)
  have num: "(of_nat (Suc i) :: u64) \<noteq> 0 \<and> (of_nat (Suc i) :: u64) \<le> of_nat ?n" if "i < ?n" for i
    using that assms(3) by (auto simp: word_le_nat_alt unat_of_nat word_unat_eq_iff simp del: of_nat_Suc)
  let ?p = "update_cursor ops (?start\<lparr>pj_store := inventory_stock_update ts_new t a (last h)\<rparr>) t a (of_nat ?n)"
  have first: "apply_envelope ops from_value inventory_stock ?start (last log) = (?p, Inr ())"
    unfolding last using apply_first [of ops ?start "log ! (?n - 1)" inventory_stock from_value "h ! (?n - 1)"]
      l(2) [of "?n - 1"] num [of "?n - 1", unfolded last(3)] last(3) by (simp add: inventory_stock_def del: of_nat_Suc)
  have seen: "apply_envelopes (apply_envelope ops from_value inventory_stock) ?p more = (?p, Inr ())" if "set more \<subseteq> set log" for more
  proof (rule apply_seen, intro ballI impI)
    fix env assume "env \<in> set more"
    then have "env \<in> set log" using that by blast
    then obtain i where "i < ?n" "env = log ! i" using l(1) by (auto simp: in_set_conv_nth)
    then show "ee_sequence_number env \<noteq> 0 \<and> ee_sequence_number env \<le> get_cursor ops ?p (ee_tenant_id env) (ee_aggregate_id env)"
      using l(2) num by simp
  qed
  show thesis
    by (rule that [of ?p]) (use first seen assms(4,5) in auto)
qed



end
