(* ===== verification/Desktop_Queue.thy ===== *)
theory Desktop_Queue
  imports Api_Core "HOL-Library.Countable"
begin

text \<open>
  The offline command queue of the desktop client (\<^verbatim>\<open>desktop/src/command_queue.rs\<close>,
  \<^verbatim>\<open>desktop/src/types.rs\<close>): a table of commands in a local SQLite database, all columns text.

  A statement is a function on the rows of the table.  The order of a scan without
  \<^verbatim>\<open>ORDER BY\<close> and of ties is the argument \<^verbatim>\<open>scan\<close>.  The argument \<^verbatim>\<open>db\<close> of an operation says whether the
  runtime, the connection pool and the statement worked; when they do not, the source logs the
  error and goes on.  Rendering and parsing of uuids, timestamps and JSON are fields of \<^verbatim>\<open>Texts\<close>.
\<close>

subsection \<open>Types\<close>

datatype CommandStatus = Pending | Syncing | Synced | Failed

primrec status_str :: "CommandStatus \<Rightarrow> string" where
  "status_str Pending = ''Pending''"
| "status_str Syncing = ''Syncing''"
| "status_str Synced = ''Synced''"
| "status_str Failed = ''Failed''"

record QueuedCommand =
  qc_id :: uuid
  qc_tenant_id :: TenantId
  qc_command_type :: string
  qc_aggregate_id :: AggregateId
  qc_payload :: Json
  qc_status :: CommandStatus
  qc_created_at :: datetime
  qc_synced_at :: "datetime option"
  qc_error :: "string option"

record Texts = Platform +
  tx_json :: "Json \<Rightarrow> string"
  tx_parse_json :: "string \<Rightarrow> Json option"

text \<open>A row of the table \<^verbatim>\<open>command_queue\<close>; \<^verbatim>\<open>id\<close> is the primary key.\<close>

record CommandRow =
  cr_id :: string
  cr_tenant_id :: string
  cr_command_type :: string
  cr_aggregate_id :: string
  cr_payload :: string
  cr_status :: string
  cr_created_at :: string
  cr_synced_at :: "string option"
  cr_error :: "string option"

type_synonym CommandQueue = "CommandRow list"

subsection \<open>Rows\<close>

definition parse_status :: "string \<Rightarrow> CommandStatus option" where
  "parse_status s =
    (if s = ''Pending'' then Some Pending else if s = ''Syncing'' then Some Syncing
     else if s = ''Synced'' then Some Synced else if s = ''Failed'' then Some Failed else None)"

definition row_to_command :: "('a Texts_scheme) \<Rightarrow> CommandRow \<Rightarrow> string + QueuedCommand" where
  "row_to_command tx row =
    and_then (ok_or (pf_parse_uuid tx (cr_id row)) ''invalid UUID in command_queue.id'') (\<lambda>qid.
    and_then (ok_or (pf_parse_uuid tx (cr_tenant_id row)) ''invalid tenant_id in command_queue'') (\<lambda>t.
    and_then (ok_or (pf_parse_uuid tx (cr_aggregate_id row)) ''invalid aggregate_id in command_queue'') (\<lambda>a.
    and_then (ok_or (tx_parse_json tx (cr_payload row)) ''invalid JSON payload in command_queue'') (\<lambda>payload.
    and_then (ok_or (parse_status (cr_status row))
      (''unknown command status '' @ apostrophe @ cr_status row @ apostrophe @ '' in command_queue'')) (\<lambda>status.
    and_then (ok_or (pf_parse_rfc3339 tx (cr_created_at row)) ''invalid created_at in command_queue'') (\<lambda>created.
    and_then (case cr_synced_at row of
        Some s \<Rightarrow> and_then (ok_or (pf_parse_rfc3339 tx s) ''invalid synced_at in command_queue'') (\<lambda>d. Inr (Some d))
      | None \<Rightarrow> Inr None) (\<lambda>synced.
    Inr \<lparr> qc_id = qid, qc_tenant_id = TenantId t, qc_command_type = cr_command_type row,
      qc_aggregate_id = AggregateId a, qc_payload = payload, qc_status = status, qc_created_at = created,
      qc_synced_at = synced, qc_error = cr_error row \<rparr>)))))))"

text \<open>The row that the \<^verbatim>\<open>INSERT\<close> of \<^verbatim>\<open>enqueue\<close> binds.\<close>

definition command_row :: "('a Texts_scheme) \<Rightarrow> QueuedCommand \<Rightarrow> CommandRow" where
  "command_row tx cmd = \<lparr> cr_id = pf_uuid_string tx (qc_id cmd),
     cr_tenant_id = pf_uuid_string tx (tenant_uuid (qc_tenant_id cmd)),
     cr_command_type = qc_command_type cmd,
     cr_aggregate_id = pf_uuid_string tx (aggregate_uuid (qc_aggregate_id cmd)),
     cr_payload = tx_json tx (qc_payload cmd), cr_status = status_str (qc_status cmd),
     cr_created_at = pf_to_rfc3339 tx (qc_created_at cmd), cr_synced_at = None, cr_error = None \<rparr>"

definition insert_row :: "CommandRow \<Rightarrow> CommandQueue \<Rightarrow> CommandQueue" where
  "insert_row row rows = (if cr_id row \<in> cr_id ` set rows then rows else rows @ [row])"

definition update_where ::
    "(CommandRow \<Rightarrow> bool) \<Rightarrow> (CommandRow \<Rightarrow> CommandRow) \<Rightarrow> CommandQueue \<Rightarrow> CommandQueue" where
  "update_where cond f rows = map (\<lambda>row. if cond row then f row else row) rows"

subsection \<open>Operations\<close>

definition enqueue ::
    "('a Texts_scheme) \<Rightarrow> bool \<Rightarrow> uuid \<Rightarrow> datetime \<Rightarrow> CommandQueue \<Rightarrow> TenantId \<Rightarrow> string \<Rightarrow> AggregateId \<Rightarrow> Json \<Rightarrow>
     CommandQueue \<times> QueuedCommand" where
  "enqueue tx db fresh now self tenant_id command_type aggregate_id payload =
    (let cmd = \<lparr> qc_id = fresh, qc_tenant_id = tenant_id, qc_command_type = command_type,
           qc_aggregate_id = aggregate_id, qc_payload = payload, qc_status = Pending, qc_created_at = now,
           qc_synced_at = None, qc_error = None \<rparr>
     in (if db then insert_row (command_row tx cmd) self else self, cmd))"

definition pending_rows :: "('a Texts_scheme) \<Rightarrow> (CommandRow list \<Rightarrow> CommandRow list) \<Rightarrow> CommandQueue \<Rightarrow>
    TenantId \<Rightarrow> CommandRow list" where
  "pending_rows tx scan self tenant_id =
     sort_key cr_created_at (filter (\<lambda>row. cr_tenant_id row = pf_uuid_string tx (tenant_uuid tenant_id) \<and>
       cr_status row \<in> {''Pending'', ''Failed''}) (scan self))"

definition list_pending ::
    "('a Texts_scheme) \<Rightarrow> (CommandRow list \<Rightarrow> CommandRow list) \<Rightarrow> bool \<Rightarrow> CommandQueue \<Rightarrow> TenantId \<Rightarrow>
     QueuedCommand list" where
  "list_pending tx scan db self tenant_id =
    (if \<not> db then []
     else (case collect_results (row_to_command tx) (pending_rows tx scan self tenant_id) of
             Inr cmds \<Rightarrow> cmds
           | Inl _ \<Rightarrow> []))"

definition update_status ::
    "('a Texts_scheme) \<Rightarrow> bool \<Rightarrow> CommandQueue \<Rightarrow> uuid \<Rightarrow> CommandStatus \<Rightarrow> datetime option \<Rightarrow> CommandQueue" where
  "update_status tx db self qid status synced_at =
    (if \<not> db then self
     else update_where (\<lambda>row. cr_id row = pf_uuid_string tx qid)
       (\<lambda>row. row\<lparr>cr_status := status_str status, cr_synced_at := map_option (pf_to_rfc3339 tx) synced_at\<rparr>) self)"

definition mark_syncing :: "('a Texts_scheme) \<Rightarrow> bool \<Rightarrow> CommandQueue \<Rightarrow> uuid \<Rightarrow> CommandQueue" where
  "mark_syncing tx db self qid = update_status tx db self qid Syncing None"

definition mark_synced :: "('a Texts_scheme) \<Rightarrow> bool \<Rightarrow> datetime \<Rightarrow> CommandQueue \<Rightarrow> uuid \<Rightarrow> CommandQueue" where
  "mark_synced tx db now self qid = update_status tx db self qid Synced (Some now)"

definition command_mark_failed :: "('a Texts_scheme) \<Rightarrow> bool \<Rightarrow> CommandQueue \<Rightarrow> uuid \<Rightarrow> string \<Rightarrow> CommandQueue" where
  "command_mark_failed tx db self qid error =
    (if \<not> db then self
     else update_where (\<lambda>row. cr_id row = pf_uuid_string tx qid)
       (\<lambda>row. row\<lparr>cr_status := ''Failed'', cr_error := Some error\<rparr>) self)"

definition retry_failed :: "('a Texts_scheme) \<Rightarrow> bool \<Rightarrow> CommandQueue \<Rightarrow> uuid \<Rightarrow> CommandQueue" where
  "retry_failed tx db self qid =
    (if \<not> db then self
     else update_where (\<lambda>row. cr_id row = pf_uuid_string tx qid \<and> cr_status row = ''Failed'')
       (\<lambda>row. row\<lparr>cr_status := ''Pending'', cr_error := None\<rparr>) self)"

text \<open>Seven days in nanoseconds.  The comparison is one of strings.\<close>

definition seven_days :: datetime where "seven_days = 7 * 24 * 60 * 60 * 10 ^ 9"

definition clear_synced :: "('a Texts_scheme) \<Rightarrow> bool \<Rightarrow> datetime \<Rightarrow> CommandQueue \<Rightarrow> CommandQueue" where
  "clear_synced tx db now self =
    (if \<not> db then self
     else (let cutoff = pf_to_rfc3339 tx (now - seven_days) in
       filter (\<lambda>row. \<not> (cr_status row = ''Synced'' \<and>
         (case cr_synced_at row of None \<Rightarrow> False | Some s \<Rightarrow> s < cutoff))) self))"

subsection \<open>The typed queue\<close>

text \<open>What the library functions behind \<^verbatim>\<open>Texts\<close> promise: texts read back to what was written, and
  the texts of two instants from 1970 to 9999 compare as the instants do.  \<^verbatim>\<open>json_ok\<close> are the values
  that \<^verbatim>\<open>serde_json\<close> can hold: integers of 64 bits, objects with their keys in order.\<close>

definition instants :: "datetime set" where
  "instants = {0 ..< 253402300800 * 10 ^ 9}"

fun json_ok :: "Json \<Rightarrow> bool" where
  "json_ok (JNumber n) \<longleftrightarrow> - (2 ^ 63) \<le> n \<and> n < 2 ^ 64"
| "json_ok (JArray js) \<longleftrightarrow> (\<forall>j \<in> set js. json_ok j)"
| "json_ok (JObject kvs) \<longleftrightarrow> sorted_wrt (<) (map fst kvs) \<and> (\<forall>kv \<in> set kvs. json_ok (snd kv))"
| "json_ok _ \<longleftrightarrow> True"

definition texts_ok :: "('a Texts_scheme) \<Rightarrow> bool" where
  "texts_ok tx \<longleftrightarrow> (\<forall>u. pf_parse_uuid tx (pf_uuid_string tx u) = Some u) \<and>
     (\<forall>d \<in> instants. pf_parse_rfc3339 tx (pf_to_rfc3339 tx d) = Some d) \<and>
     (\<forall>j. json_ok j \<longrightarrow> tx_parse_json tx (tx_json tx j) = Some j) \<and>
     (\<forall>d \<in> instants. \<forall>d' \<in> instants. pf_to_rfc3339 tx d < pf_to_rfc3339 tx d' \<longleftrightarrow> d < d')"

definition command_ok :: "QueuedCommand \<Rightarrow> bool" where
  "command_ok c \<longleftrightarrow> json_ok (qc_payload c) \<and> qc_created_at c \<in> instants \<and>
     (\<forall>d. qc_synced_at c = Some d \<longrightarrow> d \<in> instants)"

definition typed_ok :: "QueuedCommand list \<Rightarrow> bool" where
  "typed_ok q \<longleftrightarrow> distinct (map qc_id q) \<and> (\<forall>c \<in> set q. command_ok c)"

text \<open>The row of a command in any state.\<close>

definition render :: "('a Texts_scheme) \<Rightarrow> QueuedCommand \<Rightarrow> CommandRow" where
  "render tx cmd = (command_row tx cmd)
     \<lparr>cr_synced_at := map_option (pf_to_rfc3339 tx) (qc_synced_at cmd), cr_error := qc_error cmd\<rparr>"

lemma parse_status_str [simp]: "parse_status (status_str s) = Some s"
  by (cases s) (simp_all add: parse_status_def)

lemma status_str_eq [simp]:
  "status_str s = ''Pending'' \<longleftrightarrow> s = Pending" "status_str s = ''Failed'' \<longleftrightarrow> s = Failed"
  "status_str s = ''Synced'' \<longleftrightarrow> s = Synced" "status_str s = ''Syncing'' \<longleftrightarrow> s = Syncing"
  by (cases s; simp)+

lemma row_to_command_render:
  assumes "texts_ok tx" "command_ok cmd"
  shows "row_to_command tx (render tx cmd) = Inr cmd"
  using assms by (cases "qc_synced_at cmd")
    (simp_all add: row_to_command_def render_def command_row_def texts_ok_def command_ok_def)

lemma uuid_string_eq:
  assumes "texts_ok tx"
  shows "pf_uuid_string tx u = pf_uuid_string tx v \<longleftrightarrow> u = v"
  using assms unfolding texts_ok_def by (metis option.inject)

lemma render_fields [simp]:
  "cr_id (render tx c) = pf_uuid_string tx (qc_id c)"
  "cr_tenant_id (render tx c) = pf_uuid_string tx (tenant_uuid (qc_tenant_id c))"
  "cr_status (render tx c) = status_str (qc_status c)"
  "cr_created_at (render tx c) = pf_to_rfc3339 tx (qc_created_at c)"
  "cr_synced_at (render tx c) = map_option (pf_to_rfc3339 tx) (qc_synced_at c)"
  by (simp_all add: render_def command_row_def)

text \<open>The table as a list of commands: what the operations mean.\<close>

definition due :: "TenantId \<Rightarrow> QueuedCommand \<Rightarrow> bool" where
  "due t c \<longleftrightarrow> qc_tenant_id c = t \<and> qc_status c \<in> {Pending, Failed}"

definition upd :: "uuid \<Rightarrow> (QueuedCommand \<Rightarrow> QueuedCommand) \<Rightarrow> QueuedCommand list \<Rightarrow> QueuedCommand list" where
  "upd qid f q = map (\<lambda>c. if qc_id c = qid then f c else c) q"

lemma enqueue_refines:
  assumes "texts_ok tx" "fresh \<notin> qc_id ` set q"
    "enqueue tx True fresh now (map (render tx) q) t ty a payload = (rows, cmd)"
  shows "rows = map (render tx) (q @ [cmd])"
  using assms by (auto simp: enqueue_def Let_def insert_row_def uuid_string_eq image_iff render_def command_row_def)

lemma update_status_refines:
  assumes "texts_ok tx"
  shows "update_status tx True (map (render tx) q) qid st at = map (render tx)
    (upd qid (\<lambda>c. c\<lparr>qc_status := st, qc_synced_at := at\<rparr>) q)"
  unfolding update_status_def upd_def
  by (simp add: update_where_def uuid_string_eq [OF assms] render_def command_row_def)

lemma mark_failed_refines:
  assumes "texts_ok tx"
  shows "command_mark_failed tx True (map (render tx) q) qid e = map (render tx)
    (upd qid (\<lambda>c. c\<lparr>qc_status := Failed, qc_error := Some e\<rparr>) q)"
  unfolding command_mark_failed_def upd_def
  by (simp add: update_where_def uuid_string_eq [OF assms] render_def command_row_def)

lemma retry_failed_refines:
  assumes "texts_ok tx"
  shows "retry_failed tx True (map (render tx) q) qid = map (render tx)
    (map (\<lambda>c. if qc_id c = qid \<and> qc_status c = Failed then c\<lparr>qc_status := Pending, qc_error := None\<rparr> else c) q)"
  unfolding retry_failed_def
  by (simp add: update_where_def uuid_string_eq [OF assms] render_def command_row_def)

lemma clear_synced_refines:
  assumes "texts_ok tx" "now - seven_days \<in> instants" "typed_ok q"
  shows "clear_synced tx True now (map (render tx) q) = map (render tx)
    (filter (\<lambda>c. \<not> (qc_status c = Synced \<and> (\<exists>d. qc_synced_at c = Some d \<and> d < now - seven_days))) q)"
proof -
  have "(case cr_synced_at (render tx c) of None \<Rightarrow> False | Some s \<Rightarrow> s < pf_to_rfc3339 tx (now - seven_days)) \<longleftrightarrow>
      (\<exists>d. qc_synced_at c = Some d \<and> d < now - seven_days)" if "c \<in> set q" for c
    using assms that by (cases "qc_synced_at c") (simp_all add: texts_ok_def typed_ok_def command_ok_def)
  then show ?thesis
    unfolding clear_synced_def Let_def by (simp add: filter_map o_def cong: filter_cong)
qed

lemma rfc3339_sorted:
  assumes "texts_ok tx" "\<forall>c \<in> set cs. qc_created_at c \<in> instants"
  shows "sorted (map (\<lambda>c. pf_to_rfc3339 tx (qc_created_at c)) cs) \<longleftrightarrow> sorted (map qc_created_at cs)"
proof -
  have "pf_to_rfc3339 tx d \<le> pf_to_rfc3339 tx d' \<longleftrightarrow> d \<le> d'" if "d \<in> instants" "d' \<in> instants" for d d'
    using assms(1) that unfolding texts_ok_def by (metis linorder_not_less)
  then show ?thesis using assms(2) by (induction cs) auto
qed

text \<open>The list that synchronisation works through: the due commands of the tenant, oldest first.\<close>

lemma list_pending_rows:
  assumes "texts_ok tx" "iter_ok scan" "typed_ok q"
  shows "pending_rows tx scan (map (render tx) q) t = map (render tx) (list_pending tx scan True (map (render tx) q) t)"
    "mset (list_pending tx scan True (map (render tx) q) t) = mset (filter (due t) q)"
proof -
  let ?rows = "pending_rows tx scan (map (render tx) q) t"
  have due: "due t = (\<lambda>c. tenant_uuid (qc_tenant_id c) = tenant_uuid t \<and> (qc_status c = Pending \<or> qc_status c = Failed))"
    by (auto simp: due_def fun_eq_iff TenantId.expand)
  have P: "filter (\<lambda>row. cr_tenant_id row = pf_uuid_string tx (tenant_uuid t) \<and> cr_status row \<in> {''Pending'', ''Failed''})
      (map (render tx) q) = map (render tx) (filter (due t) q)"
    by (simp add: filter_map o_def due uuid_string_eq [OF assms(1)])
  have m: "mset ?rows = mset (map (render tx) (filter (due t) q))"
    unfolding pending_rows_def mset_sort P [symmetric] using assms(2) by (simp add: iter_ok_def mset_filter)
  have inv: "\<exists>c. command_ok c \<and> row = render tx c" if "row \<in> set ?rows" for row
    using that mset_eq_setD [OF m] assms(3) by (auto simp: typed_ok_def)
  define cmds where "cmds = map (projr \<circ> row_to_command tx) ?rows"
  have rows: "?rows = map (render tx) cmds"
    unfolding cmds_def using inv by (force simp: o_def row_to_command_render [OF assms(1)] intro!: map_idI [symmetric])
  have lp: "list_pending tx scan True (map (render tx) q) t = cmds"
    using collect_results_total [of ?rows "row_to_command tx" "projr \<circ> row_to_command tx"] inv
    by (force simp: list_pending_def cmds_def row_to_command_render [OF assms(1)])
  have "mset cmds = image_mset (projr \<circ> row_to_command tx) (mset (map (render tx) (filter (due t) q)))"
    unfolding m [symmetric] cmds_def by simp
  also have "\<dots> = mset (map (\<lambda>c. c) (filter (due t) q))"
    unfolding mset_map [symmetric] map_map
    by (rule arg_cong [where f = mset], rule map_cong)
      (use assms(3) in \<open>auto simp: typed_ok_def row_to_command_render [OF assms(1)]\<close>)
  finally show "mset (list_pending tx scan True (map (render tx) q) t) = mset (filter (due t) q)"
    by (simp add: lp)
  show "?rows = map (render tx) (list_pending tx scan True (map (render tx) q) t)"
    unfolding lp by (rule rows)
qed

lemma list_pending_sorted:
  assumes "texts_ok tx" "iter_ok scan" "typed_ok q"
  shows "sorted (map qc_created_at (list_pending tx scan True (map (render tx) q) t))"
proof -
  let ?cmds = "list_pending tx scan True (map (render tx) q) t"
  have "sorted (map cr_created_at (pending_rows tx scan (map (render tx) q) t))"
    unfolding pending_rows_def by (rule sorted_sort_key)
  moreover have "\<forall>c \<in> set ?cmds. qc_created_at c \<in> instants"
    using mset_eq_setD [OF list_pending_rows(2) [OF assms(1-3), of t]] assms(3) by (auto simp: typed_ok_def command_ok_def)
  ultimately show ?thesis
    unfolding list_pending_rows(1) [OF assms] using rfc3339_sorted [OF assms(1), of ?cmds] by (simp add: o_def)
qed

lemma list_pending_set:
  assumes "texts_ok tx" "iter_ok scan" "typed_ok q"
  shows "set (list_pending tx scan True (map (render tx) q) t) = {c \<in> set q. due t c}"
  using mset_eq_setD [OF list_pending_rows(2) [OF assms, of t]] by simp

lemma list_pending_distinct:
  assumes "texts_ok tx" "iter_ok scan" "typed_ok q"
  shows "distinct (map qc_id (list_pending tx scan True (map (render tx) q) t))"
proof -
  have "mset (map qc_id (list_pending tx scan True (map (render tx) q) t)) = mset (map qc_id (filter (due t) q))"
    using list_pending_rows(2) [OF assms(1-3), of t] by simp
  moreover have "distinct (map qc_id (filter (due t) q))"
    using assms(3) by (simp add: typed_ok_def distinct_map_filter)
  ultimately show ?thesis by (metis mset_eq_imp_distinct_iff)
qed

lemma enqueue_fields:
  assumes "enqueue tx db fresh now rows t ty a payload = (rows', cmd)"
  shows "qc_id cmd = fresh" "qc_status cmd = Pending" "qc_tenant_id cmd = t" "qc_created_at cmd = now"
    "qc_payload cmd = payload" "qc_synced_at cmd = None"
  using assms by (auto simp: enqueue_def Let_def)

lemma enqueue_typed:
  assumes "texts_ok tx" "typed_ok q" "fresh \<notin> qc_id ` set q" "now \<in> instants" "json_ok payload"
    "enqueue tx True fresh now (map (render tx) q) t ty a payload = (rows, cmd)"
  shows "rows = map (render tx) (q @ [cmd])" "typed_ok (q @ [cmd])"
  using assms enqueue_refines [OF assms(1,3,6)] enqueue_fields [OF assms(6)]
  by (auto simp: typed_ok_def command_ok_def)

text \<open>What was queued comes back.  With texts that read back and a primary key that is new, a command that
  was queued while the database worked is one of the commands listed for synchronisation, with its payload and
  instant intact; together with it are listed exactly the commands of its tenant that are pending or failed, none
  twice, in the order in which they were queued.\<close>

theorem queued_commands_listed:
  assumes "texts_ok tx" "iter_ok scan" "typed_ok q" "fresh \<notin> qc_id ` set q" "now \<in> instants" "json_ok payload"
    "enqueue tx True fresh now (map (render tx) q) t ty a payload = (rows, cmd)"
  shows "mset (list_pending tx scan True rows t) = add_mset cmd (mset (filter (due t) q)) \<and>
    sorted (map qc_created_at (list_pending tx scan True rows t)) \<and>
    distinct (map qc_id (list_pending tx scan True rows t)) \<and>
    qc_payload cmd = payload \<and> qc_created_at cmd = now \<and> qc_status cmd = Pending"
proof -
  note cmd = enqueue_fields [OF assms(7)]
  note rows = enqueue_typed [OF assms(1,3-7)]
  note L = list_pending_rows(2) [OF assms(1,2) rows(2), of t] list_pending_sorted [OF assms(1,2) rows(2), of t]
    list_pending_distinct [OF assms(1,2) rows(2), of t]
  have "due t cmd" using cmd by (simp add: due_def)
  with L cmd show ?thesis unfolding rows(1) by simp
qed

subsection \<open>Sample texts\<close>

text \<open>Texts that keep the promises: numerals in unary, and the number of a value in an enumeration of all.\<close>

instance Json :: countable
  by countable_datatype

definition sample_texts :: Texts where
  "sample_texts = \<lparr> pf_parse_uuid = (\<lambda>s. Some (of_nat (length s))), pf_uuid_string = (\<lambda>u. replicate (unat u) CHR ''a''),
     pf_parse_rfc3339 = (\<lambda>s. Some (int (length s))), pf_to_rfc3339 = (\<lambda>d. replicate (nat d) CHR ''a''),
     pf_to_lowercase = (\<lambda>s. s), pf_debug_store_error = (\<lambda>_. []), pf_iter = (\<lambda>xs. xs),
     tx_json = (\<lambda>j. replicate (to_nat j) CHR ''a''), tx_parse_json = (\<lambda>s. Some (from_nat (length s))) \<rparr>"

lemma replicate_less: "replicate m c < replicate n c \<longleftrightarrow> m < n" for c :: char
proof (induction m arbitrary: n)
  case 0
  then show ?case by (cases n) simp_all
next
  case (Suc m)
  then show ?case by (cases n) simp_all
qed

lemma sample_texts_ok: "texts_ok sample_texts"
  by (auto simp: texts_ok_def sample_texts_def instants_def replicate_less nat_less_eq_zless)

definition sample_queue :: "QueuedCommand list" where
  "sample_queue = [\<lparr> qc_id = 1, qc_tenant_id = TenantId 7, qc_command_type = ''inventory.adjust_stock'',
     qc_aggregate_id = AggregateId 5, qc_payload = JObject [(''delta'', JNumber 3)], qc_status = Failed,
     qc_created_at = 10, qc_synced_at = None, qc_error = Some ''API error (500): '' \<rparr>,
   \<lparr> qc_id = 2, qc_tenant_id = TenantId 7, qc_command_type = ''inventory.adjust_stock'',
     qc_aggregate_id = AggregateId 5, qc_payload = JObject [(''delta'', JNumber 4)], qc_status = Synced,
     qc_created_at = 20, qc_synced_at = Some 25, qc_error = None \<rparr>]"

lemma sample_queue_ok: "typed_ok sample_queue"
  by (simp add: sample_queue_def typed_ok_def command_ok_def instants_def)

theorem queued_commands_listed_witness:
  "\<exists>cmd. enqueue sample_texts True 3 30 (map (render sample_texts) sample_queue) (TenantId 7) ''inventory.adjust_stock''
      (AggregateId 5) (JObject [(''delta'', JNumber 1)]) = (map (render sample_texts) (sample_queue @ [cmd]), cmd) \<and>
    mset (list_pending sample_texts rev True (map (render sample_texts) (sample_queue @ [cmd])) (TenantId 7)) =
      mset [cmd, hd sample_queue]"
proof -
  let ?e = "enqueue sample_texts True 3 30 (map (render sample_texts) sample_queue) (TenantId 7) ''inventory.adjust_stock''
    (AggregateId 5) (JObject [(''delta'', JNumber 1)])"
  have h: "3 \<notin> qc_id ` set sample_queue" "30 \<in> instants" "json_ok (JObject [(''delta'', JNumber 1)])" "iter_ok rev"
    by (simp_all add: sample_queue_def instants_def iter_ok_def)
  have e: "?e = (fst ?e, snd ?e)" by simp
  have r: "fst ?e = map (render sample_texts) (sample_queue @ [snd ?e])"
    by (rule enqueue_typed(1) [OF sample_texts_ok sample_queue_ok h(1-3) e])
  have "filter (due (TenantId 7)) sample_queue = [hd sample_queue]" by (simp add: sample_queue_def due_def)
  then have "mset (list_pending sample_texts rev True (fst ?e) (TenantId 7)) = mset [snd ?e, hd sample_queue]"
    using queued_commands_listed [OF sample_texts_ok h(4) sample_queue_ok h(1-3) e] by simp
  then show ?thesis using r by (metis e)
qed

end
