(* ===== verification/Desktop_Sync.thy ===== *)
theory Desktop_Sync
  imports Desktop_Queue
begin

text \<open>
  Synchronisation of the desktop client: the cache of read models (\<^verbatim>\<open>desktop/src/cache.rs\<close>), the offline
  mode (\<^verbatim>\<open>offline.rs\<close>), the sync manager (\<^verbatim>\<open>sync_manager.rs\<close>), the background worker (\<^verbatim>\<open>sync_worker.rs\<close>)
  and the commands of the user interface (\<^verbatim>\<open>commands.rs\<close>).

  The API on the other side of the network is the field \<^verbatim>\<open>ou_http\<close> of \<^verbatim>\<open>Outside\<close>: it turns a request and a state of
  the world into an outcome and the next state of the world.  The clock is read from the world by
  \<^verbatim>\<open>ou_clock\<close>.  The database of the client works here; its failures are in \<^verbatim>\<open>Desktop_Queue\<close>.

  The operations of the queue and of the cache block on a runtime of their own, and the source calls
  them from asynchronous functions, where tokio panics instead of blocking.  The model takes these
  calls to return, as they do on a thread outside of a runtime.
\<close>

subsection \<open>The cache\<close>

record CacheRow =
  ca_data :: string
  ca_cached_at :: string
  ca_version :: "i64 option"

text \<open>The table \<^verbatim>\<open>read_models\<close> by its primary key: tenant, aggregate type, aggregate id.\<close>

type_synonym LocalCache = "string \<times> string \<times> string \<Rightarrow> CacheRow option"

definition cache_key :: "('a Texts_scheme) \<Rightarrow> TenantId \<Rightarrow> string \<Rightarrow> string \<Rightarrow> string \<times> string \<times> string" where
  "cache_key tx tenant_id aggregate_type aggregate_id =
     (pf_uuid_string tx (tenant_uuid tenant_id), aggregate_type, aggregate_id)"

definition cache_read_model_with_version ::
    "('a Texts_scheme) \<Rightarrow> datetime \<Rightarrow> LocalCache \<Rightarrow> TenantId \<Rightarrow> string \<Rightarrow> string \<Rightarrow> Json \<Rightarrow> u64 option \<Rightarrow> LocalCache" where
  "cache_read_model_with_version tx now self tenant_id aggregate_type aggregate_id model version =
     self(cache_key tx tenant_id aggregate_type aggregate_id \<mapsto>
       \<lparr> ca_data = tx_json tx model, ca_cached_at = pf_to_rfc3339 tx now, ca_version = version \<rparr>)"

definition cache_read_model ::
    "('a Texts_scheme) \<Rightarrow> datetime \<Rightarrow> LocalCache \<Rightarrow> TenantId \<Rightarrow> string \<Rightarrow> string \<Rightarrow> Json \<Rightarrow> LocalCache" where
  "cache_read_model tx now self tenant_id aggregate_type aggregate_id model =
     cache_read_model_with_version tx now self tenant_id aggregate_type aggregate_id model None"

definition get_read_model_version ::
    "('a Texts_scheme) \<Rightarrow> LocalCache \<Rightarrow> TenantId \<Rightarrow> string \<Rightarrow> AggregateId \<Rightarrow> u64 option" where
  "get_read_model_version tx self tenant_id aggregate_type aggregate_id =
    (case self (cache_key tx tenant_id aggregate_type (aggregate_string (Platform.truncate tx) aggregate_id)) of
       None \<Rightarrow> None
     | Some row \<Rightarrow> ca_version row)"

text \<open>\<^verbatim>\<open>get_read_model\<close>: \<^verbatim>\<open>Inl\<close> when the text does not decode to the requested type.\<close>

definition get_read_model ::
    "('a Texts_scheme) \<Rightarrow> (Json \<Rightarrow> 'm option) \<Rightarrow> LocalCache \<Rightarrow> TenantId \<Rightarrow> string \<Rightarrow> string \<Rightarrow> string + 'm option" where
  "get_read_model tx of_json self tenant_id aggregate_type aggregate_id =
    (case self (cache_key tx tenant_id aggregate_type aggregate_id) of
       None \<Rightarrow> Inr None
     | Some row \<Rightarrow>
         and_then (ok_or (Option.bind (tx_parse_json tx (ca_data row)) of_json) ''failed to deserialize cached read model'')
           (\<lambda>m. Inr (Some m)))"

record DesktopInventoryReadModel =
  im_id :: string
  im_name :: string
  im_quantity :: i64

definition inventory_model_json :: "DesktopInventoryReadModel \<Rightarrow> Json" where
  "inventory_model_json m = JObject [(''id'', JString (im_id m)), (''name'', JString (im_name m)), (''quantity'', ji64 (im_quantity m))]"

definition cache_inventory_item ::
    "('a Texts_scheme) \<Rightarrow> bool \<Rightarrow> datetime \<Rightarrow> LocalCache \<Rightarrow> TenantId \<Rightarrow> InventoryItemId \<Rightarrow> DesktopInventoryReadModel \<Rightarrow> LocalCache" where
  "cache_inventory_item tx db now self tenant_id item_id model =
    (if \<not> db then self
     else cache_read_model tx now self tenant_id ''inventory_item''
       (aggregate_string (Platform.truncate tx) (item_aggregate item_id)) (inventory_model_json model))"

text \<open>\<^verbatim>\<open>get_inventory_item\<close>: a row older than \<^verbatim>\<open>max_age\<close> does not count, and neither does one that does
  not parse; \<^verbatim>\<open>item_of_json\<close> is serde's decoding of the read model.\<close>

definition get_inventory_item ::
    "('a Texts_scheme) \<Rightarrow> (Json \<Rightarrow> 'm option) \<Rightarrow> datetime \<Rightarrow> LocalCache \<Rightarrow> TenantId \<Rightarrow> string \<Rightarrow> datetime option \<Rightarrow> 'm option" where
  "get_inventory_item tx item_of_json now self tenant_id item_id max_age =
    (case self (cache_key tx tenant_id ''inventory_item'' item_id) of
       None \<Rightarrow> None
     | Some row \<Rightarrow>
         (case pf_parse_rfc3339 tx (ca_cached_at row) of
            None \<Rightarrow> None
          | Some cached_at \<Rightarrow>
              (if (case max_age of Some m \<Rightarrow> now - cached_at > m | None \<Rightarrow> False) then None
               else Option.bind (tx_parse_json tx (ca_data row)) item_of_json)))"

definition cache_clear_tenant :: "('a Texts_scheme) \<Rightarrow> LocalCache \<Rightarrow> TenantId \<Rightarrow> LocalCache" where
  "cache_clear_tenant tx self tenant_id =
     (\<lambda>k. if fst k = pf_uuid_string tx (tenant_uuid tenant_id) then None else self k)"

definition cache_clear_all :: "LocalCache \<Rightarrow> LocalCache" where
  "cache_clear_all self = (\<lambda>_. None)"

subsection \<open>Offline mode\<close>

datatype ConnectivityState = Online | Offline

record OfflineMode =
  om_state :: ConnectivityState
  om_api_url :: string

definition offline_new :: "string \<Rightarrow> OfflineMode" where
  "offline_new api_url = \<lparr> om_state = Online, om_api_url = api_url \<rparr>"

definition set_offline :: "OfflineMode \<Rightarrow> OfflineMode" where
  "set_offline self = self\<lparr>om_state := Offline\<rparr>"

definition set_online :: "OfflineMode \<Rightarrow> OfflineMode" where
  "set_online self = self\<lparr>om_state := Online\<rparr>"

definition is_offline :: "OfflineMode \<Rightarrow> bool" where
  "is_offline self \<longleftrightarrow> om_state self = Offline"

datatype OfflineError = OfflineError | ApiConnection string

definition require_online :: "OfflineMode \<Rightarrow> OfflineError + unit" where
  "require_online self = (if is_offline self then Inl OfflineError else Inr ())"

subsection \<open>Endpoints\<close>

text \<open>\<^verbatim>\<open>str::starts_with\<close>, \<^verbatim>\<open>str::contains\<close> and \<^verbatim>\<open>str::split('.').next()\<close>.\<close>

definition starts_with :: "string \<Rightarrow> string \<Rightarrow> bool" where
  "starts_with s p \<longleftrightarrow> take (length p) s = p"

primrec str_contains :: "string \<Rightarrow> string \<Rightarrow> bool" where
  "str_contains [] p = (p = [])"
| "str_contains (c # s) p = (starts_with (c # s) p \<or> str_contains s p)"

definition command_endpoint :: "string \<Rightarrow> string \<Rightarrow> string" where
  "command_endpoint command_type aggregate_id =
    (if starts_with command_type ''inventory.'' then
       (if str_contains command_type ''adjust'' then ''/inventory/items/'' @ aggregate_id @ ''/adjust''
        else if str_contains command_type ''create'' then ''/inventory/items''
        else ''/inventory/items/'' @ aggregate_id)
     else if starts_with command_type ''sales.'' then
       (if str_contains command_type ''create'' then ''/sales/orders'' else ''/sales/orders/'' @ aggregate_id)
     else if starts_with command_type ''products.'' then
       (if str_contains command_type ''create'' then ''/products'' else ''/products/'' @ aggregate_id)
     else ''/commands/'' @ aggregate_id)"

definition read_model_endpoint :: "string \<Rightarrow> string \<Rightarrow> string" where
  "read_model_endpoint aggregate_type aggregate_id =
    (if aggregate_type = ''inventory_item'' then ''/inventory/items/'' @ aggregate_id
     else if aggregate_type = ''sales_order'' then ''/sales/orders/'' @ aggregate_id
     else if aggregate_type = ''product'' then ''/products/'' @ aggregate_id
     else ''/read-models/'' @ aggregate_type @ ''/'' @ aggregate_id)"

definition aggregate_type_from_command_type :: "string \<Rightarrow> string" where
  "aggregate_type_from_command_type command_type =
    (let prefix = takeWhile (\<lambda>c. c \<noteq> CHR ''.'') command_type in
     if prefix = ''inventory'' then ''inventory_item''
     else if prefix = ''sales'' then ''sales_order''
     else if prefix = ''products'' then ''product''
     else prefix)"

subsection \<open>Requests\<close>

datatype HttpMethod = GET | POST

record HttpRequest =
  hq_method :: HttpMethod
  hq_url :: string
  hq_body :: "Json option"
  hq_token :: "string option"

text \<open>What came back: a status, the text of the body, the body as JSON if it parses, and the headers by
  name; or an error of the connection.\<close>

record HttpResponse =
  hr_status :: nat
  hr_text :: string
  hr_json :: "string + Json"
  hr_header :: "string \<Rightarrow> string option"

datatype HttpOutcome = Responded HttpResponse | Refused string

definition is_success :: "HttpResponse \<Rightarrow> bool" where
  "is_success r \<longleftrightarrow> 200 \<le> hr_status r \<and> hr_status r < 300"

datatype SyncError =
    SyncOffline
  | Network string
  | Api nat string
  | Parse string
  | Cache string
  | SyncConflict string

primrec show_sync_error :: "SyncError \<Rightarrow> string" where
  "show_sync_error SyncOffline = ''client is offline''"
| "show_sync_error (Network e) = ''network error: '' @ e"
| "show_sync_error (Api n e) = ''API error ('' @ show_nat n @ ''): '' @ e"
| "show_sync_error (Parse e) = ''parse error: '' @ e"
| "show_sync_error (Cache e) = ''cache error: '' @ e"
| "show_sync_error (SyncConflict e) = ''conflict: '' @ e"

record SyncManager =
  sm_api_url :: string
  sm_token :: "string option"

definition max_retries :: nat where "max_retries = 3"

text \<open>The loop over the attempts, with as many left as \<^verbatim>\<open>left\<close>; the delays between them only cost time.
  A request whose body is a stream cannot be cloned for an attempt.\<close>

primrec sync_attempts ::
    "('w \<Rightarrow> HttpRequest \<Rightarrow> 'w \<times> HttpOutcome) \<Rightarrow> bool \<Rightarrow> HttpRequest \<Rightarrow> nat \<Rightarrow> 'w \<Rightarrow> 'w \<times> (SyncError + unit)" where
  "sync_attempts http clonable req 0 w =
    (if \<not> clonable then (w, Inl (Network ''Failed to clone request for retry''))
     else (case http w req of
       (w, Responded resp) \<Rightarrow>
         if is_success resp then (w, Inr ())
         else if hr_status resp = 409 then (w, Inl (SyncConflict (hr_text resp)))
         else (w, Inl (Api (hr_status resp) (hr_text resp)))
     | (w, Refused e) \<Rightarrow> (w, Inl (Network e))))"
| "sync_attempts http clonable req (Suc left) w =
    (if \<not> clonable then (w, Inl (Network ''Failed to clone request for retry''))
     else (case http w req of
       (w, Responded resp) \<Rightarrow>
         if is_success resp then (w, Inr ())
         else if hr_status resp = 409 then (w, Inl (SyncConflict (hr_text resp)))
         else sync_attempts http clonable req left w
     | (w, Refused e) \<Rightarrow> sync_attempts http clonable req left w))"

definition command_request :: "('a Texts_scheme) \<Rightarrow> SyncManager \<Rightarrow> QueuedCommand \<Rightarrow> HttpRequest" where
  "command_request tx self cmd = \<lparr> hq_method = POST,
     hq_url = sm_api_url self @ command_endpoint (qc_command_type cmd) (pf_uuid_string tx (aggregate_uuid (qc_aggregate_id cmd))),
     hq_body = Some (qc_payload cmd), hq_token = sm_token self \<rparr>"

text \<open>What the client meets outside: the API, the clock, fresh identifiers.\<close>

record 'w Outside =
  ou_http :: "'w \<Rightarrow> HttpRequest \<Rightarrow> 'w \<times> HttpOutcome"
  ou_clonable :: "HttpRequest \<Rightarrow> bool"
  ou_clock :: "'w \<Rightarrow> datetime"
  ou_fresh :: "'w \<Rightarrow> uuid"

definition sync_command ::
    "('a Texts_scheme) \<Rightarrow> 'w Outside \<Rightarrow> SyncManager \<Rightarrow> QueuedCommand \<Rightarrow> 'w \<Rightarrow> 'w \<times> (SyncError + unit)" where
  "sync_command tx out self cmd w =
    (let req = command_request tx self cmd in sync_attempts (ou_http out) (ou_clonable out req) req max_retries w)"

subsection \<open>Versions\<close>

text \<open>\<^verbatim>\<open>str::parse::<u64>\<close>: an optional plus sign and digits, in range.\<close>

definition digit_value :: "char \<Rightarrow> nat option" where
  "digit_value c = (if 48 \<le> byte c \<and> byte c \<le> 57 then Some (byte c - 48) else None)"

primrec digits_value :: "nat \<Rightarrow> string \<Rightarrow> nat option" where
  "digits_value acc [] = Some acc"
| "digits_value acc (c # s) =
    (case digit_value c of None \<Rightarrow> None | Some d \<Rightarrow> digits_value (10 * acc + d) s)"

definition parse_u64 :: "string \<Rightarrow> u64 option" where
  "parse_u64 s =
    (let ds = (if s \<noteq> [] \<and> hd s = CHR ''+'' then tl s else s) in
     if ds = [] then None
     else (case digits_value 0 ds of
             None \<Rightarrow> None
           | Some n \<Rightarrow> if n < 2 ^ 64 then Some (of_nat n) else None))"

definition strip_prefix :: "string \<Rightarrow> string \<Rightarrow> string option" where
  "strip_prefix s p = (if starts_with s p then Some (drop (length p) s) else None)"

definition json_as_u64 :: "Json \<Rightarrow> u64 option" where
  "json_as_u64 j = (case j of JNumber n \<Rightarrow> if 0 \<le> n \<and> n < 2 ^ 64 then Some (word_of_int n) else None | _ \<Rightarrow> None)"

text \<open>\<^verbatim>\<open>Utc::now().timestamp() as u64\<close>\<close>

definition timestamp :: "datetime \<Rightarrow> u64" where
  "timestamp now = word_of_int (now div 10 ^ 9)"

definition extract_version_from_body :: "datetime \<Rightarrow> Json \<Rightarrow> (string \<Rightarrow> string option) \<Rightarrow> u64" where
  "extract_version_from_body now body headers =
    (case Option.bind (Option.bind (headers ''ETag'') (\<lambda>etag. strip_prefix etag ''v'')) parse_u64 of
       Some version \<Rightarrow> version
     | None \<Rightarrow>
         (case Option.bind (headers ''X-Stream-Version'') parse_u64 of
            Some version \<Rightarrow> version
          | None \<Rightarrow>
              (case Option.bind (json_get body ''stream_version'') json_as_u64 of
                 Some version \<Rightarrow> version
               | None \<Rightarrow> timestamp now)))"

subsection \<open>Read models\<close>

datatype ConflictResolution = UseLocal | UseRemote | Merge

record Conflict =
  cf_aggregate_type :: string
  cf_aggregate_id :: AggregateId
  cf_local_version :: "u64 option"
  cf_remote_version :: u64
  cf_resolution :: ConflictResolution

datatype SyncReadModelResult = ModelConflict Conflict | ModelSynced string AggregateId

record 'w AppState =
  ap_manager :: SyncManager
  ap_cache :: LocalCache
  ap_queue :: CommandQueue
  ap_offline :: OfflineMode
  ap_world :: 'w

definition model_request :: "('a Texts_scheme) \<Rightarrow> SyncManager \<Rightarrow> string \<Rightarrow> AggregateId \<Rightarrow> HttpRequest" where
  "model_request tx self aggregate_type aggregate_id = \<lparr> hq_method = GET,
     hq_url = sm_api_url self @ read_model_endpoint aggregate_type (pf_uuid_string tx (aggregate_uuid aggregate_id)),
     hq_body = None, hq_token = sm_token self \<rparr>"

definition sync_read_model ::
    "('a Texts_scheme) \<Rightarrow> 'w Outside \<Rightarrow> 'w AppState \<Rightarrow> TenantId \<Rightarrow> string \<Rightarrow> AggregateId \<Rightarrow>
     'w AppState \<times> (SyncError + SyncReadModelResult option)" where
  "sync_read_model tx out st tenant_id aggregate_type aggregate_id =
    (let local_version = get_read_model_version tx (ap_cache st) tenant_id aggregate_type aggregate_id in
     case ou_http out (ap_world st) (model_request tx (ap_manager st) aggregate_type aggregate_id) of
       (w, outcome) \<Rightarrow>
         (let st = st\<lparr>ap_world := w\<rparr> in
          case outcome of
            Refused e \<Rightarrow> (st, Inl (Network e))
          | Responded resp \<Rightarrow>
              if \<not> is_success resp then (st, Inl (Api (hr_status resp) (hr_text resp)))
              else (case hr_json resp of
                  Inl e \<Rightarrow> (st, Inl (Parse (''Failed to parse read model: '' @ e)))
                | Inr body \<Rightarrow>
                    (let now = ou_clock out w;
                         remote_version = extract_version_from_body now body (hr_header resp);
                         cached = st\<lparr>ap_cache := cache_read_model_with_version tx now (ap_cache st) tenant_id
                           aggregate_type (pf_uuid_string tx (aggregate_uuid aggregate_id)) body (Some remote_version)\<rparr>
                     in case local_version of
                          Some local_ver \<Rightarrow>
                            if local_ver < remote_version
                            then (cached, Inr (Some (ModelConflict \<lparr> cf_aggregate_type = aggregate_type,
                                    cf_aggregate_id = aggregate_id, cf_local_version = Some local_ver,
                                    cf_remote_version = remote_version, cf_resolution = UseRemote \<rparr>)))
                            else (cached, Inr (Some (ModelSynced aggregate_type aggregate_id)))
                        | None \<Rightarrow> (cached, Inr (Some (ModelSynced aggregate_type aggregate_id)))))))"

subsection \<open>Synchronising a tenant\<close>

record SyncResult =
  sr_synced_commands :: "uuid list"
  sr_synced_read_models :: "(string \<times> AggregateId) list"
  sr_conflicts :: "Conflict list"

definition note_read_model :: "SyncResult \<Rightarrow> SyncError + SyncReadModelResult option \<Rightarrow> SyncResult" where
  "note_read_model result r =
    (case r of
       Inr (Some (ModelConflict conflict)) \<Rightarrow> result\<lparr>sr_conflicts := sr_conflicts result @ [conflict]\<rparr>
     | Inr (Some (ModelSynced ty a)) \<Rightarrow> result\<lparr>sr_synced_read_models := sr_synced_read_models result @ [(ty, a)]\<rparr>
     | _ \<Rightarrow> result)"

definition sync_one ::
    "('a Texts_scheme) \<Rightarrow> 'w Outside \<Rightarrow> TenantId \<Rightarrow> QueuedCommand \<Rightarrow> 'w AppState \<times> SyncResult \<Rightarrow>
     'w AppState \<times> SyncResult" where
  "sync_one tx out tenant_id cmd sr =
    (case sr of (st, result) \<Rightarrow>
     case sync_command tx out (ap_manager st) cmd (ap_world st) of
       (w, r) \<Rightarrow>
         (let st = st\<lparr>ap_world := w\<rparr> in
          case r of
            Inr _ \<Rightarrow>
              (let st = st\<lparr>ap_queue := mark_synced tx True (ou_clock out w) (ap_queue st) (qc_id cmd)\<rparr>;
                   result = result\<lparr>sr_synced_commands := sr_synced_commands result @ [qc_id cmd]\<rparr>
               in case sync_read_model tx out st tenant_id (aggregate_type_from_command_type (qc_command_type cmd))
                         (qc_aggregate_id cmd) of
                    (st, rm) \<Rightarrow> (st, note_read_model result rm))
          | Inl (Network _) \<Rightarrow> (st\<lparr>ap_queue := mark_syncing tx True (ap_queue st) (qc_id cmd)\<rparr>, result)
          | Inl SyncOffline \<Rightarrow> (st\<lparr>ap_queue := mark_syncing tx True (ap_queue st) (qc_id cmd)\<rparr>, result)
          | Inl e \<Rightarrow> (st\<lparr>ap_queue := command_mark_failed tx True (ap_queue st) (qc_id cmd) (show_sync_error e)\<rparr>, result)))"

definition sync_tenant ::
    "('a Texts_scheme) \<Rightarrow> (CommandRow list \<Rightarrow> CommandRow list) \<Rightarrow> 'w Outside \<Rightarrow> 'w AppState \<Rightarrow> TenantId \<Rightarrow>
     'w AppState \<times> (SyncError + SyncResult)" where
  "sync_tenant tx scan out st tenant_id =
    (case fold (sync_one tx out tenant_id) (list_pending tx scan True (ap_queue st) tenant_id)
         (st, \<lparr> sr_synced_commands = [], sr_synced_read_models = [], sr_conflicts = [] \<rparr>) of
       (st, result) \<Rightarrow> (st, Inr result))"

subsection \<open>Connectivity\<close>

definition check_connectivity :: "'w Outside \<Rightarrow> 'w AppState \<Rightarrow> 'w AppState \<times> bool" where
  "check_connectivity out st =
    (case ou_http out (ap_world st)
        \<lparr> hq_method = GET, hq_url = sm_api_url (ap_manager st) @ ''/health'', hq_body = None, hq_token = None \<rparr> of
       (w, Responded _) \<Rightarrow> (st\<lparr>ap_world := w\<rparr>, True)
     | (w, _) \<Rightarrow> (st\<lparr>ap_world := w\<rparr>, False))"

definition sync_inventory_item ::
    "('a Texts_scheme) \<Rightarrow> 'w Outside \<Rightarrow> (Json \<Rightarrow> string + DesktopInventoryReadModel) \<Rightarrow> 'w AppState \<Rightarrow> TenantId \<Rightarrow> InventoryItemId \<Rightarrow>
     'w AppState \<times> (SyncError + unit)" where
  "sync_inventory_item tx out of_json st tenant_id item_id =
    (case ou_http out (ap_world st) \<lparr> hq_method = GET,
        hq_url = sm_api_url (ap_manager st) @ ''/inventory/items/'' @ aggregate_string (Platform.truncate tx) (item_aggregate item_id),
        hq_body = None, hq_token = sm_token (ap_manager st) \<rparr> of
       (w, outcome) \<Rightarrow>
         (let st = st\<lparr>ap_world := w\<rparr> in
          case outcome of
            Refused e \<Rightarrow> (st, Inl (Network e))
          | Responded resp \<Rightarrow>
              if \<not> is_success resp then (st, Inl (Api (hr_status resp) (hr_text resp)))
              else (case and_then (hr_json resp) of_json of
                  Inl e \<Rightarrow> (st, Inl (Parse e))
                | Inr model \<Rightarrow>
                    (st\<lparr>ap_cache := cache_inventory_item tx True (ou_clock out w) (ap_cache st) tenant_id item_id model\<rparr>, Inr ()))))"

definition full_sync :: "'w Outside \<Rightarrow> 'w AppState \<Rightarrow> TenantId \<Rightarrow> 'w AppState \<times> (SyncError + unit)" where
  "full_sync out st tenant_id =
    (case check_connectivity out st of
       (st, False) \<Rightarrow> (st\<lparr>ap_offline := set_offline (ap_offline st)\<rparr>, Inl SyncOffline)
     | (st, True) \<Rightarrow> (st\<lparr>ap_offline := set_online (ap_offline st)\<rparr>, Inr ()))"

text \<open>The messages to the user interface are listed in the order in which they are emitted.\<close>

datatype Emitted =
    EmitConflict "Conflict list"
  | EmitCompleted nat nat nat
  | EmitFailed string

definition sync_tenant_internal ::
    "('a Texts_scheme) \<Rightarrow> (CommandRow list \<Rightarrow> CommandRow list) \<Rightarrow> 'w Outside \<Rightarrow> 'w AppState \<Rightarrow> TenantId \<Rightarrow>
     'w AppState \<times> Emitted list \<times> (string + unit)" where
  "sync_tenant_internal tx scan out st tenant_id =
    (if is_offline (ap_offline st) then (st, [], Inl ''Offline mode is active'')
     else (case check_connectivity out st of
         (st, False) \<Rightarrow> (st\<lparr>ap_offline := set_offline (ap_offline st)\<rparr>, [], Inl ''No connectivity'')
       | (st, True) \<Rightarrow>
           (case sync_tenant tx scan out (st\<lparr>ap_offline := set_online (ap_offline st)\<rparr>) tenant_id of
              (st, Inr result) \<Rightarrow>
                if sr_conflicts result \<noteq> [] then (st, [EmitConflict (sr_conflicts result)], Inr ())
                else (st, [EmitCompleted (length (sr_synced_commands result)) (length (sr_synced_read_models result))
                       (length (sr_conflicts result))], Inr ())
            | (st, Inl SyncOffline) \<Rightarrow>
                (st\<lparr>ap_offline := set_offline (ap_offline st)\<rparr>, [], Inl ''Client is offline'')
            | (st, Inl (Network e)) \<Rightarrow>
                (st\<lparr>ap_offline := set_offline (ap_offline st)\<rparr>, [EmitFailed e], Inl (''Network error: '' @ e))
            | (st, Inl e) \<Rightarrow>
                (st, [EmitFailed (show_sync_error e)], Inl (''Sync failed: '' @ show_sync_error e)))))"

subsection \<open>The background worker\<close>

record SyncWorker =
  wk_active_tenants :: "TenantId list"
  wk_consecutive_failures :: u32
  wk_backoff_duration :: nat

definition add_tenant :: "SyncWorker \<Rightarrow> TenantId \<Rightarrow> SyncWorker" where
  "add_tenant self tenant_id =
    (if tenant_id \<in> set (wk_active_tenants self) then self
     else self\<lparr>wk_active_tenants := wk_active_tenants self @ [tenant_id]\<rparr>)"

definition remove_tenant :: "SyncWorker \<Rightarrow> TenantId \<Rightarrow> SyncWorker" where
  "remove_tenant self tenant_id = self\<lparr>wk_active_tenants := filter (\<lambda>t. t \<noteq> tenant_id) (wk_active_tenants self)\<rparr>"

definition count_failure :: "SyncWorker \<Rightarrow> SyncWorker" where
  "count_failure self =
    (let failures = wk_consecutive_failures self + 1;
         self = self\<lparr>wk_consecutive_failures := failures\<rparr>
     in if failures > 0
        then self\<lparr>wk_backoff_duration := min (wk_backoff_duration self * 2 ^ unat (min failures 5)) 300\<rparr>
        else self)"

definition worker_tenant ::
    "('a Texts_scheme) \<Rightarrow> (CommandRow list \<Rightarrow> CommandRow list) \<Rightarrow> 'w Outside \<Rightarrow> TenantId \<Rightarrow>
     'w AppState \<times> SyncWorker \<times> Emitted list \<Rightarrow> 'w AppState \<times> SyncWorker \<times> Emitted list" where
  "worker_tenant tx scan out tenant_id s =
    (case s of (st, self, emitted) \<Rightarrow>
     if list_pending tx scan True (ap_queue st) tenant_id = [] then (st, self, emitted)
     else (case sync_tenant_internal tx scan out st tenant_id of
         (st, msgs, Inr _) \<Rightarrow>
           (st, self\<lparr>wk_consecutive_failures := 0, wk_backoff_duration := 1\<rparr>, emitted @ msgs)
       | (st, msgs, Inl _) \<Rightarrow> (st, count_failure self, emitted @ msgs)))"

text \<open>What the worker does at one tick of its timer.\<close>

definition worker_tick ::
    "('a Texts_scheme) \<Rightarrow> (CommandRow list \<Rightarrow> CommandRow list) \<Rightarrow> 'w Outside \<Rightarrow> 'w AppState \<Rightarrow> SyncWorker \<Rightarrow>
     'w AppState \<times> SyncWorker \<times> Emitted list" where
  "worker_tick tx scan out st self =
    (if is_offline (ap_offline st) then (st, self, [])
     else (case check_connectivity out st of
         (st, False) \<Rightarrow> (st\<lparr>ap_offline := set_offline (ap_offline st)\<rparr>, self, [])
       | (st, True) \<Rightarrow>
           (let st = st\<lparr>ap_offline := set_online (ap_offline st)\<rparr> in
            if wk_active_tenants self = [] then (st, self, [])
            else fold (worker_tenant tx scan out) (wk_active_tenants self) (st, self, []))))"

text \<open>\<^verbatim>\<open>sync_tenant_with_backoff\<close> with \<^verbatim>\<open>left\<close> retries left.\<close>

primrec sync_tenant_with_backoff ::
    "('a Texts_scheme) \<Rightarrow> (CommandRow list \<Rightarrow> CommandRow list) \<Rightarrow> 'w Outside \<Rightarrow> TenantId \<Rightarrow> nat \<Rightarrow> 'w AppState \<Rightarrow>
     'w AppState \<times> Emitted list \<times> (string + unit)" where
  "sync_tenant_with_backoff tx scan out tenant_id 0 st = sync_tenant_internal tx scan out st tenant_id"
| "sync_tenant_with_backoff tx scan out tenant_id (Suc left) st =
    (case sync_tenant_internal tx scan out st tenant_id of
       (st, msgs, Inr _) \<Rightarrow> (st, msgs, Inr ())
     | (st, msgs, Inl e) \<Rightarrow>
         (case sync_tenant_with_backoff tx scan out tenant_id left st of
            (st, msgs', r) \<Rightarrow> (st, msgs @ msgs', r)))"

subsection \<open>Commands of the user interface\<close>

text \<open>\<^verbatim>\<open>new\<close> and \<^verbatim>\<open>with_token\<close>; the two tables are the files that the last run left.\<close>

definition app_state_new :: "string \<Rightarrow> string option \<Rightarrow> LocalCache \<Rightarrow> CommandQueue \<Rightarrow> 'w \<Rightarrow> 'w AppState" where
  "app_state_new api_url token cache queue w = \<lparr> ap_manager = \<lparr> sm_api_url = api_url, sm_token = token \<rparr>,
     ap_cache = cache, ap_queue = queue, ap_offline = offline_new api_url, ap_world = w \<rparr>"

text \<open>The rendered parse error of an identifier is left to the caller: \<^verbatim>\<open>bad\<close>.\<close>

definition parse_tenant :: "('a Texts_scheme) \<Rightarrow> (string \<Rightarrow> string) \<Rightarrow> string \<Rightarrow> string + TenantId" where
  "parse_tenant tx bad s =
    (case pf_parse_uuid tx s of Some u \<Rightarrow> Inr (TenantId u) | None \<Rightarrow> Inl (''Invalid tenant_id: '' @ bad s))"

definition ui_adjust_stock ::
    "('a Texts_scheme) \<Rightarrow> (string \<Rightarrow> string) \<Rightarrow> 'w Outside \<Rightarrow> bool \<Rightarrow> string \<Rightarrow> string \<Rightarrow> i64 \<Rightarrow> 'w AppState \<Rightarrow>
     'w AppState \<times> (string + unit)" where
  "ui_adjust_stock tx bad out db tenant_id item_id delta st =
    (case and_then (parse_tenant tx bad tenant_id) (\<lambda>t.
            and_then (ok_or (pf_parse_uuid tx item_id) (''Invalid item_id: '' @ bad item_id)) (\<lambda>i. Inr (t, AggregateId i))) of
       Inl e \<Rightarrow> (st, Inl e)
     | Inr (t, a) \<Rightarrow>
         (case enqueue tx db (ou_fresh out (ap_world st)) (ou_clock out (ap_world st)) (ap_queue st) t
                 ''inventory.adjust_stock'' a (JObject [(''delta'', ji64 delta)]) of
            (q, queued) \<Rightarrow>
              (let st = st\<lparr>ap_queue := q\<rparr> in
               if is_offline (ap_offline st) then (st, Inr ())
               else (case sync_command tx out (ap_manager st) queued (ap_world st) of
                   (w, Inl _) \<Rightarrow> (st\<lparr>ap_world := w\<rparr>, Inr ())
                 | (w, Inr _) \<Rightarrow>
                     (st\<lparr>ap_world := w, ap_queue := mark_synced tx True (ou_clock out w) (ap_queue st) (qc_id queued)\<rparr>, Inr ())))))"

text \<open>\<^verbatim>\<open>list_inventory_items\<close> answers with no items whatever the cache holds.\<close>

definition list_inventory_items ::
    "('a Texts_scheme) \<Rightarrow> (string \<Rightarrow> string) \<Rightarrow> string \<Rightarrow> 'w AppState \<Rightarrow> string + DesktopInventoryReadModel list" where
  "list_inventory_items tx bad tenant_id st = and_then (parse_tenant tx bad tenant_id) (\<lambda>_. Inr [])"

definition get_connectivity_state :: "'w AppState \<Rightarrow> string + ConnectivityState" where
  "get_connectivity_state st = Inr (om_state (ap_offline st))"

definition sync_now ::
    "('a Texts_scheme) \<Rightarrow> (string \<Rightarrow> string) \<Rightarrow> (CommandRow list \<Rightarrow> CommandRow list) \<Rightarrow> 'w Outside \<Rightarrow> string \<Rightarrow>
     'w AppState \<Rightarrow> 'w AppState \<times> (string + SyncResult)" where
  "sync_now tx bad scan out tenant_id st =
    (case parse_tenant tx bad tenant_id of
       Inl e \<Rightarrow> (st, Inl e)
     | Inr t \<Rightarrow>
         (case check_connectivity out st of
            (st, False) \<Rightarrow> (st\<lparr>ap_offline := set_offline (ap_offline st)\<rparr>, Inl ''Client is offline. Cannot sync.'')
          | (st, True) \<Rightarrow>
              (case sync_tenant tx scan out (st\<lparr>ap_offline := set_online (ap_offline st)\<rparr>) t of
                 (st, Inl e) \<Rightarrow> (st, Inl (''Sync failed: '' @ show_sync_error e))
               | (st, Inr result) \<Rightarrow> (st, Inr result))))"

definition list_pending_commands ::
    "('a Texts_scheme) \<Rightarrow> (string \<Rightarrow> string) \<Rightarrow> (CommandRow list \<Rightarrow> CommandRow list) \<Rightarrow> bool \<Rightarrow> string \<Rightarrow> 'w AppState \<Rightarrow>
     string + QueuedCommand list" where
  "list_pending_commands tx bad scan db tenant_id st =
     and_then (parse_tenant tx bad tenant_id) (\<lambda>t. Inr (list_pending tx scan db (ap_queue st) t))"

definition resolve_conflict ::
    "('a Texts_scheme) \<Rightarrow> (string \<Rightarrow> string) \<Rightarrow> 'w Outside \<Rightarrow> string \<Rightarrow> string \<Rightarrow> ConflictResolution \<Rightarrow> string \<Rightarrow>
     'w AppState \<Rightarrow> 'w AppState \<times> (string + unit)" where
  "resolve_conflict tx bad out conflict_aggregate_type conflict_aggregate_id resolution tenant_id st =
    (case and_then (parse_tenant tx bad tenant_id) (\<lambda>t.
            and_then (ok_or (pf_parse_uuid tx conflict_aggregate_id) (''Invalid aggregate_id: '' @ bad conflict_aggregate_id))
              (\<lambda>u. Inr (t, AggregateId u))) of
       Inl e \<Rightarrow> (st, Inl e)
     | Inr (t, a) \<Rightarrow>
         (case resolution of
            UseRemote \<Rightarrow>
              (case sync_read_model tx out st t conflict_aggregate_type a of
                 (st, Inl e) \<Rightarrow> (st, Inl (''Failed to sync remote version: '' @ show_sync_error e))
               | (st, Inr (Some (ModelConflict _))) \<Rightarrow>
                   (st, Inl ''Conflict still exists after resolution attempt'')
               | (st, Inr _) \<Rightarrow> (st, Inr ()))
          | UseLocal \<Rightarrow> (st, Inr ())
          | Merge \<Rightarrow> (st, Inl ''Merge resolution not yet implemented'')))"

end
