(* ===== verification/Desktop_Safety.thy ===== *)
theory Desktop_Safety
  imports Desktop_Sync
begin

text \<open>
  What synchronisation of the desktop client achieves: every listed command is settled by the answer of
  the API and nothing else is touched, a command counts as synced only when the API accepted it, the
  number of requests is bounded, and a settled command is never sent again.
\<close>

subsection \<open>Settling a command\<close>

text \<open>What the answer to a command does to its row.\<close>

definition settle :: "datetime \<Rightarrow> SyncError + unit \<Rightarrow> QueuedCommand \<Rightarrow> QueuedCommand" where
  "settle now r c =
    (case r of
       Inr _ \<Rightarrow> c\<lparr>qc_status := Synced, qc_synced_at := Some now\<rparr>
     | Inl (Network _) \<Rightarrow> c\<lparr>qc_status := Syncing, qc_synced_at := None\<rparr>
     | Inl SyncOffline \<Rightarrow> c\<lparr>qc_status := Syncing, qc_synced_at := None\<rparr>
     | Inl e \<Rightarrow> c\<lparr>qc_status := Failed, qc_error := Some (show_sync_error e)\<rparr>)"

lemma settle_fun:
  "settle now (Inr u) = (\<lambda>c. c\<lparr>qc_status := Synced, qc_synced_at := Some now\<rparr>)"
  "settle now (Inl (Network e)) = (\<lambda>c. c\<lparr>qc_status := Syncing, qc_synced_at := None\<rparr>)"
  "settle now (Inl SyncOffline) = (\<lambda>c. c\<lparr>qc_status := Syncing, qc_synced_at := None\<rparr>)"
  "settle now (Inl (Api n e)) = (\<lambda>c. c\<lparr>qc_status := Failed, qc_error := Some (show_sync_error (Api n e))\<rparr>)"
  "settle now (Inl (Parse e)) = (\<lambda>c. c\<lparr>qc_status := Failed, qc_error := Some (show_sync_error (Parse e))\<rparr>)"
  "settle now (Inl (Cache e)) = (\<lambda>c. c\<lparr>qc_status := Failed, qc_error := Some (show_sync_error (Cache e))\<rparr>)"
  "settle now (Inl (SyncConflict e)) = (\<lambda>c. c\<lparr>qc_status := Failed, qc_error := Some (show_sync_error (SyncConflict e))\<rparr>)"
  by (simp_all add: fun_eq_iff settle_def)

lemma settle_fields [simp]:
  "qc_id (settle now r c) = qc_id c" "qc_payload (settle now r c) = qc_payload c"
  "qc_tenant_id (settle now r c) = qc_tenant_id c" "qc_created_at (settle now r c) = qc_created_at c"
  "qc_command_type (settle now r c) = qc_command_type c" "qc_aggregate_id (settle now r c) = qc_aggregate_id c"
  by (cases r rule: sum.exhaust; simp add: settle_def split: SyncError.splits)+

lemma settle_status: "qc_status (settle now r c) = Synced \<longleftrightarrow> is_ok r" "qc_status (settle now r c) \<noteq> Pending"
  by (cases r; simp add: settle_def split: SyncError.splits)+

lemma settle_command_ok: "command_ok c \<Longrightarrow> now \<in> instants \<Longrightarrow> command_ok (settle now r c)"
  by (cases r) (auto simp: settle_def command_ok_def split: SyncError.splits)

lemma sync_read_model_frame:
  assumes "sync_read_model tx out st t ty a = (st', r)"
  shows "ap_queue st' = ap_queue st" "ap_manager st' = ap_manager st" "ap_offline st' = ap_offline st"
  using assms by (auto simp: sync_read_model_def Let_def split: prod.splits HttpOutcome.splits if_splits sum.splits option.splits)

lemma note_read_model_synced [simp]: "sr_synced_commands (note_read_model result r) = sr_synced_commands result"
  by (simp add: note_read_model_def split: sum.split option.split SyncReadModelResult.split)

text \<open>One step of the loop: the outcome of the request settles the command's row.\<close>

lemma sync_one_effect:
  assumes "texts_ok tx" "ap_queue st = map (render tx) q"
    "sync_command tx out (ap_manager st) cmd (ap_world st) = (w, r)"
    "sync_one tx out t cmd (st, result) = (st', result')"
  shows "ap_queue st' = map (render tx) (upd (qc_id cmd) (settle (ou_clock out w) r) q)"
    "sr_synced_commands result' = sr_synced_commands result @ (if is_ok r then [qc_id cmd] else [])"
    "ap_manager st' = ap_manager st" "ap_offline st' = ap_offline st"
proof -
  have "ap_queue st' = map (render tx) (upd (qc_id cmd) (settle (ou_clock out w) r) q) \<and>
      sr_synced_commands result' = sr_synced_commands result @ (if is_ok r then [qc_id cmd] else []) \<and>
      ap_manager st' = ap_manager st \<and> ap_offline st' = ap_offline st"
  proof (cases r)
    case (Inr u)
    then show ?thesis using assms
      by (auto simp: sync_one_def Let_def settle_fun mark_synced_def update_status_refines dest: sync_read_model_frame
        split: prod.splits)
  next
    case (Inl e)
    then show ?thesis using assms
      by (cases e) (auto simp: sync_one_def Let_def settle_fun mark_syncing_def update_status_refines mark_failed_refines)
  qed
  then show "ap_queue st' = map (render tx) (upd (qc_id cmd) (settle (ou_clock out w) r) q)"
    "sr_synced_commands result' = sr_synced_commands result @ (if is_ok r then [qc_id cmd] else [])"
    "ap_manager st' = ap_manager st" "ap_offline st' = ap_offline st" by simp_all
qed

text \<open>The whole loop, with the instant and the outcome of each request given by \<^verbatim>\<open>R\<close>.\<close>

definition settle_all :: "uuid set \<Rightarrow> (uuid \<Rightarrow> datetime \<times> (SyncError + unit)) \<Rightarrow> QueuedCommand list \<Rightarrow> QueuedCommand list" where
  "settle_all ids R q = map (\<lambda>c. if qc_id c \<in> ids then settle (fst (R (qc_id c))) (snd (R (qc_id c))) c else c) q"

lemma settle_all_upd:
  assumes "i \<notin> ids"
  shows "settle_all ids R (upd i (settle d r) q) = settle_all (insert i ids) (R(i := (d, r))) q"
  using assms by (auto simp: settle_all_def upd_def)

lemma sync_fold_effect:
  assumes "texts_ok tx" "ap_queue st = map (render tx) q" "distinct (map qc_id cs)"
    "fold (sync_one tx out t) cs (st, result) = (st', result')"
  shows "\<exists>R. ap_queue st' = map (render tx) (settle_all (qc_id ` set cs) R q) \<and>
    sr_synced_commands result' = sr_synced_commands result @ filter (\<lambda>i. is_ok (snd (R i))) (map qc_id cs) \<and>
    (\<forall>i. \<exists>w. fst (R i) = ou_clock out w) \<and> ap_manager st' = ap_manager st \<and> ap_offline st' = ap_offline st"
  using assms
proof (induction cs arbitrary: st q result)
  case Nil
  then show ?case by (auto simp: settle_all_def intro!: exI [of _ "\<lambda>_. (ou_clock out undefined, Inr ())"])
next
  case (Cons c cs)
  obtain w r where wr: "sync_command tx out (ap_manager st) c (ap_world st) = (w, r)" by fastforce
  obtain st1 res1 where one: "sync_one tx out t c (st, result) = (st1, res1)" by fastforce
  note E = sync_one_effect [OF Cons.prems(1,2) wr one]
  have d: "qc_id c \<notin> qc_id ` set cs" "distinct (map qc_id cs)" using Cons.prems(3) by auto
  have "fold (sync_one tx out t) cs (st1, res1) = (st', result')" using Cons.prems(4) one by simp
  from Cons.IH [OF Cons.prems(1) E(1) d(2) this] obtain R where
    R: "ap_queue st' = map (render tx) (settle_all (qc_id ` set cs) R (upd (qc_id c) (settle (ou_clock out w) r) q))"
      "sr_synced_commands result' = sr_synced_commands res1 @ filter (\<lambda>i. is_ok (snd (R i))) (map qc_id cs)"
      "\<forall>i. \<exists>w. fst (R i) = ou_clock out w" "ap_manager st' = ap_manager st1" "ap_offline st' = ap_offline st1"
    by blast
  have f: "filter (\<lambda>i. is_ok (snd ((R(qc_id c := (ou_clock out w, r))) i))) (map qc_id cs) =
      filter (\<lambda>i. is_ok (snd (R i))) (map qc_id cs)"
    using d(1) by (intro filter_cong) (auto simp: image_iff)
  show ?case
    by (rule exI [of _ "R(qc_id c := (ou_clock out w, r))"])
      (use R E d f in \<open>auto simp: settle_all_upd fun_upd_def\<close>)
qed

lemma settle_all_ids: "map qc_id (settle_all ids R q) = map qc_id q"
  by (simp add: settle_all_def)

lemma settle_all_typed:
  assumes "typed_ok q" "\<forall>i. fst (R i) \<in> instants"
  shows "typed_ok (settle_all ids R q)"
proof -
  have "\<forall>c \<in> set (settle_all ids R q). command_ok c"
    using assms by (auto simp: settle_all_def typed_ok_def intro: settle_command_ok)
  then show ?thesis using assms(1) settle_all_ids [of ids R q] unfolding typed_ok_def by simp
qed

lemma sync_tenant_effect:
  assumes "texts_ok tx" "iter_ok scan" "typed_ok q" "ap_queue st = map (render tx) q"
    "sync_tenant tx scan out st t = (st', r)"
  shows "\<exists>R result. r = Inr result \<and>
    ap_queue st' = map (render tx) (settle_all {i. \<exists>c \<in> set q. due t c \<and> qc_id c = i} R q) \<and>
    sr_synced_commands result = filter (\<lambda>i. is_ok (snd (R i))) (map qc_id (list_pending tx scan True (ap_queue st) t)) \<and>
    (\<forall>i. \<exists>w. fst (R i) = ou_clock out w) \<and> ap_manager st' = ap_manager st \<and> ap_offline st' = ap_offline st"
proof -
  let ?cs = "list_pending tx scan True (map (render tx) q) t"
  let ?z = "\<lparr> sr_synced_commands = [], sr_synced_read_models = [], sr_conflicts = [] \<rparr>"
  obtain res where f: "fold (sync_one tx out t) ?cs (st, ?z) = (st', res)" "r = Inr res"
    using assms(4,5) by (auto simp: sync_tenant_def split: prod.splits)
  have ids: "qc_id ` set ?cs = {i. \<exists>c \<in> set q. due t c \<and> qc_id c = i}"
    using list_pending_set [OF assms(1-3), of t] by auto
  show ?thesis
    using sync_fold_effect [OF assms(1,4) list_pending_distinct [OF assms(1-3)] f(1)] f(2) assms(4)
    unfolding ids by auto
qed

lemma typed_ids: "typed_ok q \<Longrightarrow> c \<in> set q \<Longrightarrow> c' \<in> set q \<Longrightarrow> qc_id c' = qc_id c \<Longrightarrow> c' = c"
  by (simp add: typed_ok_def distinct_map inj_on_def)

lemma due_in_ids:
  assumes "typed_ok q" "c \<in> set q"
  shows "qc_id c \<in> {i. \<exists>c \<in> set q. due t c \<and> qc_id c = i} \<longleftrightarrow> due t c"
  using assms by (auto simp: typed_ok_def distinct_map inj_on_def)

text \<open>Synchronising a tenant settles exactly its due commands.  There is an outcome for each command such that
  afterwards every pending or failed command of the tenant is synced, failed with the error of the API, or, after an
  error of the network, syncing, none is pending any more, and every other row of the table is as it was.  The ids
  reported as synced are those of the commands whose request succeeded, in the order in which they were queued.\<close>

theorem sync_tenant_settles:
  assumes "texts_ok tx" "iter_ok scan" "typed_ok q" "ap_queue st = map (render tx) q"
    "sync_tenant tx scan out st t = (st', r)"
  shows "\<exists>R result. r = Inr result \<and>
    ap_queue st' = map (render tx)
      (map (\<lambda>c. if due t c then settle (fst (R (qc_id c))) (snd (R (qc_id c))) c else c) q) \<and>
    sr_synced_commands result = filter (\<lambda>i. is_ok (snd (R i))) (map qc_id (list_pending tx scan True (ap_queue st) t)) \<and>
    sorted (map qc_created_at (list_pending tx scan True (ap_queue st) t)) \<and>
    (\<forall>row \<in> set (pending_rows tx scan (ap_queue st') t). cr_status row = ''Failed'')"
proof -
  obtain R result where R: "r = Inr result"
      "ap_queue st' = map (render tx) (settle_all {i. \<exists>c \<in> set q. due t c \<and> qc_id c = i} R q)"
      "sr_synced_commands result = filter (\<lambda>i. is_ok (snd (R i))) (map qc_id (list_pending tx scan True (ap_queue st) t))"
    using sync_tenant_effect [OF assms] by blast
  have q': "settle_all {i. \<exists>c \<in> set q. due t c \<and> qc_id c = i} R q =
      map (\<lambda>c. if due t c then settle (fst (R (qc_id c))) (snd (R (qc_id c))) c else c) q"
    unfolding settle_all_def using due_in_ids [OF assms(3)] by (intro map_cong refl if_cong) auto
  have "cr_status row = ''Failed''" if "row \<in> set (pending_rows tx scan (ap_queue st') t)" for row
  proof -
    have "set (scan (ap_queue st')) = set (ap_queue st')" using assms(2) by (auto simp: iter_ok_def dest: mset_eq_setD)
    with that R(2) q' obtain c where c: "c \<in> set q" and
      row: "row = render tx (if due t c then settle (fst (R (qc_id c))) (snd (R (qc_id c))) c else c)"
        "cr_tenant_id row = pf_uuid_string tx (tenant_uuid t)" "cr_status row \<in> {''Pending'', ''Failed''}"
      by (auto simp: pending_rows_def)
    then show ?thesis
      by (cases "due t c") (auto simp: settle_status due_def uuid_string_eq [OF assms(1)] TenantId.expand)
  qed
  then show ?thesis
    using R q' list_pending_sorted [OF assms(1-3), of t] assms(4) by auto
qed

subsection \<open>What was sent\<close>

text \<open>The outside world with a record of every request and its outcome.\<close>

definition recorded :: "'w Outside \<Rightarrow> ((HttpRequest \<times> HttpOutcome) list \<times> 'w) Outside" where
  "recorded out = \<lparr> ou_http = (\<lambda>(log, w) req. case ou_http out w req of (w', oc) \<Rightarrow> ((log @ [(req, oc)], w'), oc)),
     ou_clonable = ou_clonable out, ou_clock = ou_clock out \<circ> snd, ou_fresh = ou_fresh out \<circ> snd \<rparr>"

lemma recorded_http [simp]:
  "ou_http (recorded out) (log, w) req = ((log @ [(req, snd (ou_http out w req))], fst (ou_http out w req)), snd (ou_http out w req))"
  by (simp add: recorded_def split_beta)

primrec accepted :: "HttpOutcome \<Rightarrow> bool" where
  "accepted (Responded resp) = is_success resp"
| "accepted (Refused e) = False"

text \<open>The posted requests that the API accepted, in order.\<close>

definition accepted_posts :: "(HttpRequest \<times> HttpOutcome) list \<Rightarrow> HttpRequest list" where
  "accepted_posts log = map fst (filter (\<lambda>(req, oc). hq_method req = POST \<and> accepted oc) log)"

lemma accepted_posts_append [simp]: "accepted_posts (xs @ ys) = accepted_posts xs @ accepted_posts ys"
  by (simp add: accepted_posts_def)

lemma accepted_posts_Nil [simp]: "accepted_posts [] = []"
  by (simp add: accepted_posts_def)

lemma attempts_recorded:
  assumes "sync_attempts (ou_http (recorded out)) clonable req left (log, w) = ((log', w'), r)" "hq_method req = POST"
  shows "\<exists>new. log' = log @ new \<and> length new \<le> Suc left \<and> accepted_posts new = (if is_ok r then [req] else [])"
  using assms(1)
proof (induction left arbitrary: log w)
  case 0
  obtain w1 oc where h: "ou_http out w req = (w1, oc)" by fastforce
  show ?case
    by (cases oc; cases clonable) (use 0 h assms(2) in \<open>auto simp: accepted_posts_def split: if_splits\<close>)
next
  case (Suc left)
  obtain w1 oc where h: "ou_http out w req = (w1, oc)" by fastforce
  show ?case
  proof (cases "clonable \<and> \<not> accepted oc \<and> (\<forall>resp. oc = Responded resp \<longrightarrow> hr_status resp \<noteq> 409)")
    case True
    then have "sync_attempts (ou_http (recorded out)) clonable req left (log @ [(req, oc)], w1) = ((log', w'), r)"
      using Suc.prems h by (cases oc) (auto split: if_splits)
    from Suc.IH [OF this] obtain new where "log' = (log @ [(req, oc)]) @ new" "length new \<le> Suc left"
      "accepted_posts new = (if is_ok r then [req] else [])" by blast
    then show ?thesis
      using True by (intro exI [of _ "(req, oc) # new"]) (simp add: accepted_posts_def)
  next
    case False
    then show ?thesis
      using Suc.prems h assms(2) by (cases oc) (auto simp: accepted_posts_def split: if_splits)
  qed
qed

lemma sync_read_model_recorded:
  assumes "sync_read_model tx (recorded out) st t ty a = (st', r)"
  shows "\<exists>new. fst (ap_world st') = fst (ap_world st) @ new \<and> length new = 1 \<and> accepted_posts new = []"
proof -
  obtain log w where w: "ap_world st = (log, w)" by fastforce
  show ?thesis
    using assms w by (auto simp: sync_read_model_def Let_def accepted_posts_def model_request_def split_beta
      split: HttpOutcome.splits if_splits sum.splits option.splits)
qed

lemma sync_one_recorded:
  assumes "sync_one tx (recorded out) t cmd (st, result) = (st', result')"
  shows "\<exists>new. fst (ap_world st') = fst (ap_world st) @ new \<and> length new \<le> 5 \<and>
    accepted_posts new = map (\<lambda>_. command_request tx (ap_manager st) cmd)
      (drop (length (sr_synced_commands result)) (sr_synced_commands result'))"
proof -
  obtain log w where w: "ap_world st = (log, w)" by fastforce
  obtain log1 w1 r where sc: "sync_command tx (recorded out) (ap_manager st) cmd (ap_world st) = ((log1, w1), r)"
    by (metis surj_pair)
  have "hq_method (command_request tx (ap_manager st) cmd) = POST" by (simp add: command_request_def)
  from attempts_recorded [OF _ this] sc w obtain new where
    new: "log1 = log @ new" "length new \<le> 4" "accepted_posts new = (if is_ok r then [command_request tx (ap_manager st) cmd] else [])"
    by (fastforce simp: sync_command_def Let_def max_retries_def)
  show ?thesis
  proof (cases r)
    case (Inl e)
    then show ?thesis using assms sc w new by (cases e) (auto simp: sync_one_def Let_def)
  next
    case (Inr u)
    then obtain st1 rm where rm: "sync_read_model tx (recorded out) st1 t
        (aggregate_type_from_command_type (qc_command_type cmd)) (qc_aggregate_id cmd) = (st', rm)"
        "fst (ap_world st1) = log1"
        "result' = note_read_model (result\<lparr>sr_synced_commands := sr_synced_commands result @ [qc_id cmd]\<rparr>) rm"
      using assms sc by (auto simp: sync_one_def Let_def split: prod.splits)
    from sync_read_model_recorded [OF rm(1)] obtain new' where
      "fst (ap_world st') = log1 @ new'" "length new' = 1" "accepted_posts new' = []" using rm(2) by auto
    then show ?thesis using new w rm(3) Inr by (intro exI [of _ "new @ new'"]) auto
  qed
qed

lemma sync_fold_recorded:
  assumes "texts_ok tx" "ap_queue st = map (render tx) q" "distinct (map qc_id cs)"
    "set (sr_synced_commands result) \<inter> qc_id ` set cs = {}"
    "fold (sync_one tx (recorded out) t) cs (st, result) = (st', result')"
  shows "\<exists>new. fst (ap_world st') = fst (ap_world st) @ new \<and> length new \<le> 5 * length cs \<and>
    accepted_posts new = map (command_request tx (ap_manager st)) (filter (\<lambda>c. qc_id c \<in> set (sr_synced_commands result')) cs)"
  using assms
proof (induction cs arbitrary: st q result)
  case Nil
  then show ?case by auto
next
  case (Cons c cs)
  obtain w r where wr: "sync_command tx (recorded out) (ap_manager st) c (ap_world st) = (w, r)" by fastforce
  obtain st1 res1 where one: "sync_one tx (recorded out) t c (st, result) = (st1, res1)" by fastforce
  note E = sync_one_effect [OF Cons.prems(1,2) wr one]
  have d: "qc_id c \<notin> qc_id ` set cs" "distinct (map qc_id cs)" using Cons.prems(3) by auto
  have dj: "set (sr_synced_commands res1) \<inter> qc_id ` set cs = {}" using E(2) Cons.prems(4) d(1) by (auto simp: image_iff split: if_splits)
  have f: "fold (sync_one tx (recorded out) t) cs (st1, res1) = (st', result')" using Cons.prems(5) one by simp
  from sync_one_recorded [OF one] obtain n1 where n1: "fst (ap_world st1) = fst (ap_world st) @ n1" "length n1 \<le> 5"
    "accepted_posts n1 = (if is_ok r then [command_request tx (ap_manager st) c] else [])" using E(2) by auto
  from Cons.IH [OF Cons.prems(1) E(1) d(2) dj f] E(3) obtain n2 where
    n2: "fst (ap_world st') = fst (ap_world st1) @ n2" "length n2 \<le> 5 * length cs"
      "accepted_posts n2 = map (command_request tx (ap_manager st)) (filter (\<lambda>c. qc_id c \<in> set (sr_synced_commands result')) cs)"
    by auto
  obtain R :: "uuid \<Rightarrow> datetime \<times> (SyncError + unit)" where
    R: "sr_synced_commands result' = sr_synced_commands res1 @ filter (\<lambda>i. is_ok (snd (R i))) (map qc_id cs)"
    using sync_fold_effect [OF Cons.prems(1) E(1) d(2) f] by blast
  have "qc_id c \<in> set (sr_synced_commands result') \<longleftrightarrow> is_ok r"
    using R E(2) d(1) Cons.prems(4) by (auto simp: image_iff)
  then show ?case using n1 n2 by (intro exI [of _ "n1 @ n2"]) auto
qed

text \<open>C10: a command counts as synced if and only if the API accepted it.  Of the requests that a synchronisation
  posts, those the API answered with success are exactly the requests of the commands it reports as synced: each one
  once and in the order in which they were queued, whatever failures and retries came between.  It makes at most
  five requests for each listed command, four attempts and one fetch of the read model.\<close>

theorem synced_iff_accepted:
  assumes "texts_ok tx" "iter_ok scan" "typed_ok q" "ap_queue st = map (render tx) q"
    "sync_tenant tx scan (recorded out) st t = (st', Inr result)"
  shows "\<exists>new. fst (ap_world st') = fst (ap_world st) @ new \<and>
    accepted_posts new = map (command_request tx (ap_manager st))
      (filter (\<lambda>c. qc_id c \<in> set (sr_synced_commands result)) (list_pending tx scan True (ap_queue st) t)) \<and>
    length new \<le> 5 * length (list_pending tx scan True (ap_queue st) t)"
proof -
  let ?cs = "list_pending tx scan True (map (render tx) q) t"
  let ?z = "\<lparr> sr_synced_commands = [], sr_synced_read_models = [], sr_conflicts = [] \<rparr>"
  have f: "fold (sync_one tx (recorded out) t) ?cs (st, ?z) = (st', result)"
    using assms(4,5) by (simp add: sync_tenant_def split: prod.splits)
  show ?thesis
    using sync_fold_recorded [OF assms(1,4) list_pending_distinct [OF assms(1-3)] _ f] unfolding assms(4) by auto
qed

subsection \<open>The life of the client\<close>

text \<open>The operations on the state of the client, in any order.  \<^verbatim>\<open>used\<close> are the ids handed out so far: those of
  version 7 are not handed out twice.\<close>

inductive client_step for tx :: "('a Texts_scheme)" and bad scan and out :: "'w Outside" where
  Adjust: "ou_fresh out (ap_world st) \<notin> used \<Longrightarrow>
    client_step tx bad scan out (used, st)
      (insert (ou_fresh out (ap_world st)) used, fst (ui_adjust_stock tx bad out db tenant item delta st))"
| Sync_Now: "client_step tx bad scan out (used, st) (used, fst (sync_now tx bad scan out tenant st))"
| Tick: "client_step tx bad scan out (used, st) (used, fst (worker_tick tx scan out st worker))"
| Resolve: "client_step tx bad scan out (used, st) (used, fst (resolve_conflict tx bad out ty aid resolution tenant st))"
| Clear: "client_step tx bad scan out (used, st)
    (used, st\<lparr>ap_queue := clear_synced tx db (ou_clock out (ap_world st)) (ap_queue st)\<rparr>)"
| Retry: "client_step tx bad scan out (used, st) (used, st\<lparr>ap_queue := retry_failed tx db (ap_queue st) qid\<rparr>)"

definition settled :: "QueuedCommand \<Rightarrow> bool" where
  "settled c \<longleftrightarrow> qc_status c \<in> {Synced, Syncing}"

text \<open>What every operation does to the queue: new ids are fresh, settled commands stay as they are, and only
  synced ones may go.\<close>

definition advances :: "uuid set \<Rightarrow> uuid set \<Rightarrow> QueuedCommand list \<Rightarrow> QueuedCommand list \<Rightarrow> bool" where
  "advances used used' q q' \<longleftrightarrow> typed_ok q' \<and> used \<subseteq> used' \<and> qc_id ` set q' \<subseteq> qc_id ` set q \<union> (used' - used) \<and>
     (\<forall>c \<in> set q. settled c \<longrightarrow> c \<in> set q' \<or> qc_status c = Synced \<and> qc_id c \<notin> qc_id ` set q')"

lemma advances_refl: "typed_ok q \<Longrightarrow> advances used used q q"
  by (auto simp: advances_def)

lemma advances_trans:
  assumes "advances u1 u2 q1 q2" "advances u2 u3 q2 q3" "qc_id ` set q1 \<subseteq> u1"
  shows "advances u1 u3 q1 q3"
proof -
  have "c \<in> set q3 \<or> qc_status c = Synced \<and> qc_id c \<notin> qc_id ` set q3" if c: "c \<in> set q1" "settled c" for c
  proof (cases "c \<in> set q2")
    case True
    then show ?thesis using assms(2) c(2) by (auto simp: advances_def)
  next
    case False
    then have "qc_status c = Synced" "qc_id c \<notin> qc_id ` set q2" using assms(1) c by (auto simp: advances_def)
    moreover have "qc_id c \<in> u2" using assms(1,3) c(1) by (auto simp: advances_def)
    ultimately show ?thesis using assms(2) unfolding advances_def by blast
  qed
  moreover have "typed_ok q3" "u1 \<subseteq> u3" using assms(1,2) by (auto simp: advances_def)
  moreover have "qc_id ` set q3 \<subseteq> qc_id ` set q1 \<union> (u3 - u1)" using assms(1,2) unfolding advances_def by blast
  ultimately show ?thesis unfolding advances_def by blast
qed

definition client_queue :: "('a Texts_scheme) \<Rightarrow> uuid set \<Rightarrow> 'w AppState \<Rightarrow> QueuedCommand list \<Rightarrow> bool" where
  "client_queue tx used st q \<longleftrightarrow> ap_queue st = map (render tx) q \<and> typed_ok q \<and> qc_id ` set q \<subseteq> used"

lemma client_queue_advances:
  assumes "client_queue tx used st q" "advances used used' q q'" "ap_queue st' = map (render tx) q'"
  shows "client_queue tx used' st' q'"
  using assms unfolding client_queue_def advances_def by blast

lemma sync_tenant_advances:
  assumes "texts_ok tx" "iter_ok scan" "\<forall>w. ou_clock out w \<in> instants" "client_queue tx used st q"
    "sync_tenant tx scan out st t = (st', r)"
  shows "\<exists>q'. ap_queue st' = map (render tx) q' \<and> advances used used q q'"
proof -
  have q: "typed_ok q" "ap_queue st = map (render tx) q" using assms(4) by (auto simp: client_queue_def)
  let ?ids = "{i. \<exists>c \<in> set q. due t c \<and> qc_id c = i}"
  obtain R where R: "ap_queue st' = map (render tx) (settle_all ?ids R q)" "\<forall>i. \<exists>w. fst (R i) = ou_clock out w"
    using sync_tenant_effect [OF assms(1,2) q assms(5)] by blast
  have "typed_ok (settle_all ?ids R q)"
    using R(2) assms(3) by (intro settle_all_typed [OF q(1)] allI) metis
  moreover have "c \<in> set (settle_all ?ids R q)" if "c \<in> set q" "settled c" for c
  proof -
    have "qc_id c \<notin> ?ids" using due_in_ids [OF q(1) that(1), of t] that(2) by (auto simp: settled_def due_def)
    then show ?thesis using that(1) unfolding settle_all_def by (simp add: image_iff)
  qed
  moreover have "qc_id ` set (settle_all ?ids R q) = qc_id ` set q"
    using arg_cong [OF settle_all_ids, of set ?ids R q] by simp
  ultimately show ?thesis using R(1) unfolding advances_def by blast
qed

lemma check_connectivity_queue:
  assumes "check_connectivity out st = (st', b)"
  shows "ap_queue st' = ap_queue st"
  using assms by (auto simp: check_connectivity_def split: prod.splits HttpOutcome.splits)

lemma client_queue_cong:
  "ap_queue st' = ap_queue st \<Longrightarrow> client_queue tx used st' q \<longleftrightarrow> client_queue tx used st q"
  by (simp add: client_queue_def)

lemma sync_tenant_internal_advances:
  assumes "texts_ok tx" "iter_ok scan" "\<forall>w. ou_clock out w \<in> instants" "client_queue tx used st q"
    "sync_tenant_internal tx scan out st t = (st', msgs, r)"
  shows "\<exists>q'. ap_queue st' = map (render tx) q' \<and> advances used used q q'"
proof -
  have same: "\<exists>q'. map (render tx) q = map (render tx) q' \<and> advances used used q q'"
    using assms(4) advances_refl by (auto simp: client_queue_def)
  obtain st1 b where c: "check_connectivity out st = (st1, b)" by fastforce
  let ?st2 = "st1\<lparr>ap_offline := set_online (ap_offline st1)\<rparr>"
  obtain st3 r3 where t: "sync_tenant tx scan out ?st2 t = (st3, r3)" by fastforce
  have q2: "client_queue tx used ?st2 q"
    using assms(4) check_connectivity_queue [OF c] by (simp add: client_queue_def)
  note A = sync_tenant_advances [OF assms(1-3) q2 t]
  have "ap_queue st' \<in> {map (render tx) q, ap_queue st3}"
    using assms(4,5) c t check_connectivity_queue [OF c]
    by (auto simp: sync_tenant_internal_def client_queue_def split: if_splits bool.splits sum.splits SyncError.splits)
  then show ?thesis using A same by auto
qed

lemma worker_tenants_advance:
  assumes "texts_ok tx" "iter_ok scan" "\<forall>w. ou_clock out w \<in> instants" "client_queue tx used st q"
    "fold (worker_tenant tx scan out) ts (st, wk, em) = (st', wk', em')"
  shows "\<exists>q'. ap_queue st' = map (render tx) q' \<and> advances used used q q'"
  using assms(4,5)
proof (induction ts arbitrary: st q wk em)
  case Nil
  then show ?case using advances_refl by (auto simp: client_queue_def)
next
  case (Cons t ts)
  obtain st1 msgs r where i: "sync_tenant_internal tx scan out st t = (st1, msgs, r)" by (metis prod_cases3)
  obtain st2 wk2 em2 where o: "worker_tenant tx scan out t (st, wk, em) = (st2, wk2, em2)" by (metis prod_cases3)
  have "st2 = st \<or> st2 = st1" using o i by (auto simp: worker_tenant_def split: if_splits sum.splits)
  moreover have "advances used used q q" using Cons.prems(1) advances_refl by (auto simp: client_queue_def)
  ultimately obtain q1 where q1: "ap_queue st2 = map (render tx) q1" "advances used used q q1"
    using sync_tenant_internal_advances [OF assms(1-3) Cons.prems(1) i] Cons.prems(1) by (auto simp: client_queue_def)
  have "fold (worker_tenant tx scan out) ts (st2, wk2, em2) = (st', wk', em')" using Cons.prems(2) o by simp
  from Cons.IH [OF client_queue_advances [OF Cons.prems(1) q1(2,1)] this] obtain q2 where
    "ap_queue st' = map (render tx) q2" "advances used used q1 q2" by blast
  then show ?case using advances_trans [OF q1(2)] Cons.prems(1) by (auto simp: client_queue_def)
qed

lemma worker_tick_advances:
  assumes "texts_ok tx" "iter_ok scan" "\<forall>w. ou_clock out w \<in> instants" "client_queue tx used st q"
    "worker_tick tx scan out st wk = (st', wk', em)"
  shows "\<exists>q'. ap_queue st' = map (render tx) q' \<and> advances used used q q'"
proof -
  have same: "ap_queue st = map (render tx) q" "advances used used q q"
    using assms(4) advances_refl by (auto simp: client_queue_def)
  obtain st1 b where c: "check_connectivity out st = (st1, b)" by fastforce
  note cq = check_connectivity_queue [OF c]
  let ?st2 = "st1\<lparr>ap_offline := set_online (ap_offline st1)\<rparr>"
  have q2: "client_queue tx used ?st2 q" using assms(4) cq by (simp add: client_queue_def)
  show ?thesis
  proof (cases "is_offline (ap_offline st) \<or> \<not> b \<or> wk_active_tenants wk = []")
    case True
    then have "ap_queue st' = map (render tx) q"
      using assms(5) c cq same by (auto simp: worker_tick_def Let_def split: if_splits bool.splits)
    then show ?thesis using same(2) by blast
  next
    case False
    then have "fold (worker_tenant tx scan out) (wk_active_tenants wk) (?st2, wk, []) = (st', wk', em)"
      using assms(5) c by (auto simp: worker_tick_def Let_def split: bool.splits)
    then show ?thesis by (rule worker_tenants_advance [OF assms(1-3) q2])
  qed
qed

lemma upd_append: "upd i f (q @ [c]) = upd i f q @ [if qc_id c = i then f c else c]"
  by (simp add: upd_def)

lemma upd_other: "i \<notin> qc_id ` set q \<Longrightarrow> upd i f q = q"
  by (auto simp: upd_def intro!: map_idI)

lemma ji64_ok: "json_ok (JObject [(k, ji64 n)])"
  using sint_greater_eq [of n] sint_less [of n] by simp

lemma ui_adjust_advances:
  assumes "texts_ok tx" "\<forall>w. ou_clock out w \<in> instants" "client_queue tx used st q" "ou_fresh out (ap_world st) \<notin> used"
    "ui_adjust_stock tx bad out db tenant item delta st = (st', r)"
  shows "\<exists>q'. ap_queue st' = map (render tx) q' \<and> advances used (insert (ou_fresh out (ap_world st)) used) q q'"
proof -
  let ?fresh = "ou_fresh out (ap_world st)" and ?now = "ou_clock out (ap_world st)"
  have q: "typed_ok q" "ap_queue st = map (render tx) q" "?fresh \<notin> qc_id ` set q"
    using assms(3,4) by (auto simp: client_queue_def)
  have same: "advances used (insert ?fresh used) q q" using q(1) by (auto simp: advances_def)
  have stored: "advances used (insert ?fresh used) q (q @ [cmd])"
    if "qc_id cmd = ?fresh" "command_ok cmd" for cmd
    using q(1,3) that assms(4) by (auto simp: advances_def typed_ok_def)
  show ?thesis
  proof (cases "\<exists>t a. pf_parse_uuid tx tenant = Some t \<and> pf_parse_uuid tx item = Some a")
    case False
    then have "st' = st" using assms(5) by (auto simp: ui_adjust_stock_def parse_tenant_def split: option.splits)
    then show ?thesis using same q(2) by blast
  next
    case True
    then obtain t a where ta: "pf_parse_uuid tx tenant = Some t" "pf_parse_uuid tx item = Some a" by blast
    obtain rows cmd where e: "enqueue tx db ?fresh ?now (map (render tx) q) (TenantId t) ''inventory.adjust_stock''
        (AggregateId a) (JObject [(''delta'', ji64 delta)]) = (rows, cmd)" by fastforce
    note F = enqueue_fields [OF e]
    have rows: "rows = map (render tx) (if db then q @ [cmd] else q)"
    proof (cases db)
      case True
      then show ?thesis using enqueue_refines [OF assms(1) q(3)] e by auto
    next
      case False
      then show ?thesis using e by (auto simp: enqueue_def Let_def)
    qed
    obtain w1 r1 where sc: "sync_command tx out (ap_manager st) cmd (ap_world st) = (w1, r1)" by fastforce
    define cmd' where "cmd' = cmd\<lparr>qc_status := Synced, qc_synced_at := Some (ou_clock out w1)\<rparr>"
    have synced: "mark_synced tx True (ou_clock out w1) rows (qc_id cmd) = map (render tx) (if db then q @ [cmd'] else q)"
      unfolding rows mark_synced_def update_status_refines [OF assms(1)] cmd'_def
      using F(1) upd_other [OF q(3)] by (simp add: upd_append)
    have "command_ok cmd" "command_ok cmd'" "qc_id cmd = ?fresh" "qc_id cmd' = ?fresh"
      unfolding cmd'_def using F assms(2) ji64_ok by (auto simp: command_ok_def)
    then have "\<exists>q'. map (render tx) (if db then q @ [c] else q) = map (render tx) q' \<and> advances used (insert ?fresh used) q q'"
      if "c = cmd \<or> c = cmd'" for c
      using stored [of c] same that by (intro exI [of _ "if db then q @ [c] else q"]) auto
    moreover have "ap_queue st' = rows \<or> ap_queue st' = map (render tx) (if db then q @ [cmd'] else q)"
      using assms(5) ta e sc q(2) synced
      by (auto simp: ui_adjust_stock_def parse_tenant_def Let_def split: if_splits sum.splits)
    ultimately show ?thesis unfolding rows by metis
  qed
qed

lemma sync_now_advances:
  assumes "texts_ok tx" "iter_ok scan" "\<forall>w. ou_clock out w \<in> instants" "client_queue tx used st q"
    "sync_now tx bad scan out tenant st = (st', r)"
  shows "\<exists>q'. ap_queue st' = map (render tx) q' \<and> advances used used q q'"
proof -
  have same: "ap_queue st = map (render tx) q" "advances used used q q"
    using assms(4) advances_refl by (auto simp: client_queue_def)
  obtain st1 b where c: "check_connectivity out st = (st1, b)" by fastforce
  note cq = check_connectivity_queue [OF c]
  let ?st2 = "st1\<lparr>ap_offline := set_online (ap_offline st1)\<rparr>"
  have q2: "client_queue tx used ?st2 q" using assms(4) cq by (simp add: client_queue_def)
  show ?thesis
  proof (cases "pf_parse_uuid tx tenant")
    case None
    then show ?thesis using assms(5) same by (auto simp: sync_now_def parse_tenant_def)
  next
    case (Some t)
    obtain st3 r3 where t: "sync_tenant tx scan out ?st2 (TenantId t) = (st3, r3)" by fastforce
    have "ap_queue st' = map (render tx) q \<or> st' = st3"
      using assms(5) c t cq same Some by (auto simp: sync_now_def parse_tenant_def split: bool.splits sum.splits)
    then show ?thesis using sync_tenant_advances [OF assms(1-3) q2 t] same by auto
  qed
qed

lemma resolve_conflict_queue:
  assumes "resolve_conflict tx bad out ty aid resolution tenant st = (st', r)"
  shows "ap_queue st' = ap_queue st"
  using assms by (auto simp: resolve_conflict_def dest: sync_read_model_frame
    split: sum.splits prod.splits ConflictResolution.splits option.splits SyncReadModelResult.splits)

lemma retry_advances:
  assumes "typed_ok q"
  shows "advances used used q
    (map (\<lambda>c. if qc_id c = qid \<and> qc_status c = Failed then c\<lparr>qc_status := Pending, qc_error := None\<rparr> else c) q)"
    (is "advances _ _ _ (map ?f q)")
proof -
  have ids: "map qc_id (map ?f q) = map qc_id q" by simp
  have "\<forall>c \<in> set (map ?f q). command_ok c" using assms by (auto simp: typed_ok_def command_ok_def)
  then have "typed_ok (map ?f q)" using assms unfolding typed_ok_def ids by blast
  moreover have "qc_id ` set (map ?f q) = qc_id ` set q" using arg_cong [OF ids, of set] unfolding set_map .
  moreover have "c \<in> set (map ?f q)" if "c \<in> set q" "settled c" for c
    using that by (auto simp: settled_def image_iff)
  ultimately show ?thesis unfolding advances_def by blast
qed

lemma client_step_advances:
  assumes "client_step tx bad scan out us us'" "texts_ok tx" "iter_ok scan" "\<forall>w. ou_clock out w \<in> instants"
    "client_queue tx (fst us) (snd us) q"
  shows "\<exists>q'. ap_queue (snd us') = map (render tx) q' \<and> advances (fst us) (fst us') q q'"
  using assms(1,5)
proof (cases rule: client_step.cases)
  case (Adjust st used db tenant item delta)
  obtain st2 r where s: "ui_adjust_stock tx bad out db tenant item delta st = (st2, r)" by fastforce
  have "client_queue tx used st q" using assms(5) Adjust(1) by simp
  from ui_adjust_advances [OF assms(2,4) this Adjust(3) s] show ?thesis using Adjust(1,2) s by simp
next
  case (Sync_Now used st tenant)
  obtain st2 r where s: "sync_now tx bad scan out tenant st = (st2, r)" by fastforce
  have "client_queue tx used st q" using assms(5) Sync_Now(1) by simp
  from sync_now_advances [OF assms(2-4) this s] show ?thesis using Sync_Now s by simp
next
  case (Tick used st worker)
  obtain st2 wk em where s: "worker_tick tx scan out st worker = (st2, wk, em)" by (metis prod_cases3)
  have "client_queue tx used st q" using assms(5) Tick(1) by simp
  from worker_tick_advances [OF assms(2-4) this s] show ?thesis using Tick s by simp
next
  case (Resolve used st ty aid resolution tenant)
  obtain st2 r where s: "resolve_conflict tx bad out ty aid resolution tenant st = (st2, r)" by fastforce
  have "ap_queue st2 = map (render tx) q" "advances used used q q"
    using resolve_conflict_queue [OF s] assms(5) Resolve(1) by (auto simp: client_queue_def advances_refl)
  then show ?thesis using Resolve s by auto
next
  case (Clear used st db)
  let ?keep = "\<lambda>c. \<not> (cr_status (render tx c) = ''Synced'' \<and> (case cr_synced_at (render tx c) of None \<Rightarrow> False
    | Some s \<Rightarrow> s < pf_to_rfc3339 tx (ou_clock out (ap_world st) - seven_days)))"
  have q: "typed_ok q" "ap_queue st = map (render tx) q" using assms(5) Clear by (auto simp: client_queue_def)
  have "clear_synced tx db (ou_clock out (ap_world st)) (ap_queue st) = map (render tx) (if db then filter ?keep q else q)"
    unfolding clear_synced_def Let_def q(2) by (simp add: filter_map o_def)
  moreover have "advances used used q (filter ?keep q)"
    using q(1) by (auto simp: advances_def typed_ok_def distinct_map_filter) (auto simp: distinct_map inj_on_def)
  then have "advances used used q (if db then filter ?keep q else q)" using advances_refl [OF q(1)] by simp
  ultimately show ?thesis using Clear by (intro exI [of _ "if db then filter ?keep q else q"]) simp
next
  case (Retry used st db qid)
  let ?f = "\<lambda>c. if qc_id c = qid \<and> qc_status c = Failed then c\<lparr>qc_status := Pending, qc_error := None\<rparr> else c"
  have q: "typed_ok q" "ap_queue st = map (render tx) q" using assms(5) Retry by (auto simp: client_queue_def)
  have "retry_failed tx db (ap_queue st) qid = map (render tx) (if db then map ?f q else q)"
    unfolding q(2) by (cases db) (simp_all add: retry_failed_refines [OF assms(2)], simp add: retry_failed_def)
  moreover have "advances used used q (if db then map ?f q else q)"
    using advances_refl [OF q(1)] retry_advances [OF q(1)] by simp
  ultimately show ?thesis using Retry by (intro exI [of _ "if db then map ?f q else q"]) simp
qed

lemma client_steps_advance:
  assumes "(client_step tx bad scan out)\<^sup>*\<^sup>* us us'" "texts_ok tx" "iter_ok scan" "\<forall>w. ou_clock out w \<in> instants"
    "client_queue tx (fst us) (snd us) q"
  shows "\<exists>q'. ap_queue (snd us') = map (render tx) q' \<and> advances (fst us) (fst us') q q'"
  using assms(1)
proof (induction rule: rtranclp_induct)
  case base
  then show ?case using assms(5) advances_refl by (auto simp: client_queue_def)
next
  case (step us1 us2)
  then obtain q1 where q1: "ap_queue (snd us1) = map (render tx) q1" "advances (fst us) (fst us1) q q1" by blast
  from client_step_advances [OF step(2) assms(2-4) client_queue_advances [OF assms(5) q1(2,1)]]
  obtain q2 where "ap_queue (snd us2) = map (render tx) q2" "advances (fst us1) (fst us2) q1 q2" by blast
  then show ?case using advances_trans [OF q1(2)] assms(5) by (auto simp: client_queue_def)
qed


subsection \<open>Versions and conflicts\<close>

lemma digits_value_append:
  "digits_value acc (s @ t) = Option.bind (digits_value acc s) (\<lambda>n. digits_value n t)"
  by (induction s arbitrary: acc) (simp_all split: option.split)

lemma digit_value_char: "d < 10 \<Longrightarrow> digit_value (char_of (48 + d)) = Some d"
  by (simp add: digit_value_def)

lemma digits_value_show: "digits_value 0 (show_nat n) = Some n"
proof (induction n rule: show_nat.induct)
  case (1 n)
  then show ?case
    by (subst show_nat.simps) (simp add: digits_value_append digit_value_char)
qed

lemma show_nat_hd: "show_nat n \<noteq> [] \<and> (\<exists>d < 10. hd (show_nat n) = char_of (48 + d :: nat))"
proof (induction n rule: show_nat.induct)
  case (1 n)
  then show ?case by (subst (1 2) show_nat.simps) auto
qed

lemma parse_u64_show: "parse_u64 (show_u64 v) = Some v"
proof -
  obtain d :: nat where d: "d < 10" "hd (show_nat (unat v)) = (char_of (48 + d) :: char)" "show_nat (unat v) \<noteq> []"
    using show_nat_hd by blast
  have "hd (show_nat (unat v)) \<noteq> CHR ''+''"
  proof
    assume "hd (show_nat (unat v)) = CHR ''+''"
    then have "of_char (char_of (48 + d) :: char) = (43 :: nat)" using d(2) by simp
    then show False using d(1) by simp
  qed
  then show ?thesis
    using d(3) unsigned_less [of v] by (simp add: parse_u64_def Let_def show_u64_def digits_value_show)
qed

text \<open>The version that a response carries, if it carries one.\<close>

definition response_version :: "Json \<Rightarrow> (string \<Rightarrow> string option) \<Rightarrow> u64 option" where
  "response_version body headers =
    (case Option.bind (Option.bind (headers ''ETag'') (\<lambda>etag. strip_prefix etag ''v'')) parse_u64 of
       Some v \<Rightarrow> Some v
     | None \<Rightarrow>
         (case Option.bind (headers ''X-Stream-Version'') parse_u64 of
            Some v \<Rightarrow> Some v
          | None \<Rightarrow> Option.bind (json_get body ''stream_version'') json_as_u64))"

lemma extract_version_response:
  "extract_version_from_body now body headers =
     (case response_version body headers of Some v \<Rightarrow> v | None \<Rightarrow> timestamp now)"
  by (simp add: extract_version_from_body_def response_version_def split: option.split)

lemma etag_version:
  assumes "headers ''ETag'' = Some (CHR ''v'' # show_u64 v)"
  shows "response_version body headers = Some v"
  using assms by (simp add: response_version_def strip_prefix_def starts_with_def parse_u64_show)

definition fetched :: "HttpOutcome \<Rightarrow> Json \<Rightarrow> (string \<Rightarrow> string option) \<Rightarrow> bool" where
  "fetched oc body headers \<longleftrightarrow>
    (case oc of Responded resp \<Rightarrow> is_success resp \<and> hr_json resp = Inr body \<and> hr_header resp = headers | Refused _ \<Rightarrow> False)"

lemma sync_read_model_fetched:
  assumes "ou_http out (ap_world st) (model_request tx (ap_manager st) ty a) = (w, oc)" "fetched oc body headers"
    "sync_read_model tx out st t ty a = (st', r)"
  defines "v \<equiv> extract_version_from_body (ou_clock out w) body headers"
    and "old \<equiv> get_read_model_version tx (ap_cache st) t ty a"
  shows "r = Inr (Some (if \<exists>l. old = Some l \<and> l < v
      then ModelConflict \<lparr> cf_aggregate_type = ty, cf_aggregate_id = a, cf_local_version = old, cf_remote_version = v,
        cf_resolution = UseRemote \<rparr>
      else ModelSynced ty a))"
    "get_read_model_version tx (ap_cache st') t ty a = Some v" "ap_world st' = w" "ap_manager st' = ap_manager st"
proof -
  obtain resp where resp: "oc = Responded resp" "is_success resp" "hr_json resp = Inr body" "hr_header resp = headers"
    using assms(2) by (cases oc) (auto simp: fetched_def)
  have st': "st' = st\<lparr>ap_world := w, ap_cache := cache_read_model_with_version tx (ou_clock out w) (ap_cache st) t ty
      (pf_uuid_string tx (aggregate_uuid a)) body (Some v)\<rparr>"
    and r: "r = Inr (Some (if \<exists>l. old = Some l \<and> l < v
      then ModelConflict \<lparr> cf_aggregate_type = ty, cf_aggregate_id = a, cf_local_version = old, cf_remote_version = v,
        cf_resolution = UseRemote \<rparr>
      else ModelSynced ty a))"
    using assms(1,3) resp by (auto simp: sync_read_model_def Let_def v_def old_def split: option.splits if_splits)
  show "r = Inr (Some (if \<exists>l. old = Some l \<and> l < v
      then ModelConflict \<lparr> cf_aggregate_type = ty, cf_aggregate_id = a, cf_local_version = old, cf_remote_version = v,
        cf_resolution = UseRemote \<rparr>
      else ModelSynced ty a))" by (rule r)
  show "get_read_model_version tx (ap_cache st') t ty a = Some v" "ap_world st' = w" "ap_manager st' = ap_manager st"
    by (simp_all add: st' get_read_model_version_def cache_read_model_with_version_def cache_key_def
      aggregate_string_def Platform.defs)
qed

text \<open>Of two fetches of the same read model the later one reports a conflict exactly when the version it finds
  is above the version the earlier one cached.  When both responses carry an entity tag \<^verbatim>\<open>v<n>\<close> these are the versions
  the API sent.  When the responses carry no version -- and no route of the API sends one -- they are the seconds of
  the clock, so that any two fetches in different seconds end in a reported conflict although nothing has changed.\<close>

theorem resync_conflict_iff:
  assumes "ou_http out (ap_world st) (model_request tx (ap_manager st) ty a) = (w1, oc1)" "fetched oc1 body1 headers1"
    "sync_read_model tx out st t ty a = (st1, r1)"
    "ou_http out w (model_request tx (ap_manager st) ty a) = (w2, oc2)" "fetched oc2 body2 headers2"
    "sync_read_model tx out (st1\<lparr>ap_world := w\<rparr>) t ty a = (st2, r2)"
  shows "((\<exists>c. r2 = Inr (Some (ModelConflict c))) \<longleftrightarrow>
      extract_version_from_body (ou_clock out w1) body1 headers1 < extract_version_from_body (ou_clock out w2) body2 headers2) \<and>
    (headers1 ''ETag'' = Some (CHR ''v'' # show_u64 v1) \<and> headers2 ''ETag'' = Some (CHR ''v'' # show_u64 v2) \<longrightarrow>
      ((\<exists>c. r2 = Inr (Some (ModelConflict c))) \<longleftrightarrow> v1 < v2)) \<and>
    (response_version body1 headers1 = None \<and> response_version body2 headers2 = None \<longrightarrow>
      ((\<exists>c. r2 = Inr (Some (ModelConflict c))) \<longleftrightarrow> timestamp (ou_clock out w1) < timestamp (ou_clock out w2)))"
proof -
  note F1 = sync_read_model_fetched [OF assms(1-3)]
  have req: "ou_http out (ap_world (st1\<lparr>ap_world := w\<rparr>)) (model_request tx (ap_manager (st1\<lparr>ap_world := w\<rparr>)) ty a) = (w2, oc2)"
    using assms(4) F1(4) by simp
  note F2 = sync_read_model_fetched [OF req assms(5,6)]
  have main: "(\<exists>c. r2 = Inr (Some (ModelConflict c))) \<longleftrightarrow>
      extract_version_from_body (ou_clock out w1) body1 headers1 < extract_version_from_body (ou_clock out w2) body2 headers2"
    using F2(1) F1(2) by simp
  then show ?thesis unfolding extract_version_response by (simp add: etag_version)
qed

subsection \<open>A sample client\<close>

text \<open>An API that accepts every second request, with a clock that ticks at every request.\<close>

definition sample_response :: HttpResponse where
  "sample_response = \<lparr> hr_status = 200, hr_text = [], hr_json = Inr (JObject []), hr_header = (\<lambda>_. None) \<rparr>"

definition sample_outside :: "nat Outside" where
  "sample_outside = \<lparr> ou_http = (\<lambda>n req. (Suc n, if odd n then Responded sample_response else Refused ''timeout'')),
     ou_clonable = (\<lambda>_. True), ou_clock = (\<lambda>n. int (min n 1000) * 10 ^ 9), ou_fresh = (\<lambda>n. of_nat n) \<rparr>"

definition sample_client :: "'w \<Rightarrow> 'w AppState" where
  "sample_client w = app_state_new ''http://localhost:8080'' None (\<lambda>_. None) (map (render sample_texts) sample_queue) w"

lemma sample_client_queue: "ap_queue (sample_client w) = map (render sample_texts) sample_queue"
  by (simp add: sample_client_def app_state_new_def)

lemma iter_ok_rev: "iter_ok rev"
  by (simp add: iter_ok_def)

theorem sync_tenant_settles_witness:
  "\<exists>R result. snd (sync_tenant sample_texts rev sample_outside (sample_client 0) (TenantId 7)) = Inr result \<and>
    ap_queue (fst (sync_tenant sample_texts rev sample_outside (sample_client 0) (TenantId 7))) = map (render sample_texts)
      [settle (fst (R 1)) (snd (R 1)) (sample_queue ! 0), sample_queue ! 1]"
proof -
  have e: "sync_tenant sample_texts rev sample_outside (sample_client 0) (TenantId 7) =
      (fst (sync_tenant sample_texts rev sample_outside (sample_client 0) (TenantId 7)),
       snd (sync_tenant sample_texts rev sample_outside (sample_client 0) (TenantId 7)))" by simp
  have m: "map (\<lambda>c. if due (TenantId 7) c then settle (fst (R (qc_id c))) (snd (R (qc_id c))) c else c) sample_queue =
      [settle (fst (R 1)) (snd (R 1)) (sample_queue ! 0), sample_queue ! 1]" for R
    by (simp add: sample_queue_def due_def)
  from sync_tenant_settles [OF sample_texts_ok iter_ok_rev sample_queue_ok sample_client_queue e, unfolded m]
  obtain R result where "snd (sync_tenant sample_texts rev sample_outside (sample_client 0) (TenantId 7)) = Inr result"
    "ap_queue (fst (sync_tenant sample_texts rev sample_outside (sample_client 0) (TenantId 7))) = map (render sample_texts)
      [settle (fst (R 1)) (snd (R 1)) (sample_queue ! 0), sample_queue ! 1]" by (elim exE conjE)
  then show ?thesis by (intro exI conjI)
qed

lemma sample_pending: "list_pending sample_texts rev True (map (render sample_texts) sample_queue) (TenantId 7) = [sample_queue ! 0]"
proof -
  have "mset (list_pending sample_texts rev True (map (render sample_texts) sample_queue) (TenantId 7)) = {#sample_queue ! 0#}"
    unfolding list_pending_rows(2) [OF sample_texts_ok iter_ok_rev sample_queue_ok]
    by (simp add: sample_queue_def due_def)
  then show ?thesis by simp
qed

theorem synced_iff_accepted_witness:
  "\<exists>new result. snd (sync_tenant sample_texts rev (recorded sample_outside) (sample_client ([], 0)) (TenantId 7)) = Inr result \<and>
    fst (ap_world (fst (sync_tenant sample_texts rev (recorded sample_outside) (sample_client ([], 0)) (TenantId 7)))) = new \<and>
    length (accepted_posts new) \<le> 1 \<and> length new \<le> 5"
proof -
  let ?s = "sync_tenant sample_texts rev (recorded sample_outside) (sample_client ([], 0)) (TenantId 7)"
  obtain result where r: "?s = (fst ?s, Inr result)" by (auto simp: sync_tenant_def split_beta)
  have w: "fst (ap_world (sample_client ([] :: (HttpRequest \<times> HttpOutcome) list, 0 :: nat))) = []" by (simp add: sample_client_def app_state_new_def)
  from synced_iff_accepted [OF sample_texts_ok iter_ok_rev sample_queue_ok sample_client_queue r,
      unfolded sample_client_queue sample_pending w]
  obtain new where n: "fst (ap_world (fst ?s)) = [] @ new" "length new \<le> 5 * length [sample_queue ! 0]"
    "accepted_posts new = map (command_request sample_texts (ap_manager (sample_client ([] :: (HttpRequest \<times> HttpOutcome) list, 0 :: nat))))
      (filter (\<lambda>c. qc_id c \<in> set (sr_synced_commands result)) [sample_queue ! 0])"
    by blast
  have "snd ?s = Inr result" by (subst r) simp
  moreover have "length (accepted_posts new) \<le> 1" unfolding n(3) by simp
  ultimately show ?thesis using n(1,2) by auto
qed


theorem resync_conflict_iff_witness:
  "\<exists>c. snd (sync_read_model sample_texts sample_outside
      ((fst (sync_read_model sample_texts sample_outside (sample_client 1) (TenantId 7) ''product'' (AggregateId 5)))\<lparr>ap_world := 3\<rparr>)
      (TenantId 7) ''product'' (AggregateId 5)) = Inr (Some (ModelConflict c))"
proof -
  let ?s1 = "sync_read_model sample_texts sample_outside (sample_client 1) (TenantId 7) ''product'' (AggregateId 5)"
  let ?s2 = "sync_read_model sample_texts sample_outside ((fst ?s1)\<lparr>ap_world := 3\<rparr>) (TenantId 7) ''product'' (AggregateId 5)"
  have h: "ou_http sample_outside (ap_world (sample_client 1)) req = (2, Responded sample_response)"
      "ou_http sample_outside 3 req = (4, Responded sample_response)" for req
    by (simp_all add: sample_outside_def sample_client_def app_state_new_def)
  have f: "fetched (Responded sample_response) (JObject []) (\<lambda>_. None)"
    by (simp add: fetched_def sample_response_def is_success_def)
  have s: "?s1 = (fst ?s1, snd ?s1)" "?s2 = (fst ?s2, snd ?s2)" by simp_all
  have n: "response_version (JObject []) (\<lambda>_. None) = None" by (simp add: response_version_def json_get_def)
  have t: "timestamp (ou_clock sample_outside 2) < timestamp (ou_clock sample_outside 4)"
    by (simp add: timestamp_def sample_outside_def)
  show ?thesis using resync_conflict_iff [OF h(1) f s(1) h(2) f s(2)] n t
    by (simp add: extract_version_response)
qed

end
