(* ===== verification/Postgres_Store.thy ===== *)
theory Postgres_Store
  imports Event_Query "HOL-Library.AList" "HOL-Library.List_Lexorder" "HOL-Library.Char_ord"
begin

text \<open>
  The persistent event store (\<^verbatim>\<open>infra/src/event_store/postgres.rs\<close>) over the tables of
  \<^verbatim>\<open>docker/migrations\<close>.

  The database server is not part of the source: it is an argument, the record \<^verbatim>\<open>Database\<close>, whose
  operations are the statements that the source sends, each run atomically for a transaction.  What
  the source relies on is the locale \<^verbatim>\<open>event_database\<close>: statements see the committed rows and the
  transaction's own (\<^verbatim>\<open>READ COMMITTED\<close>), an inserted row has passed the constraints of the table against
  the committed rows and those of every open transaction, a commit publishes exactly the rows the
  transaction inserted.  Everything may fail; a failed commit may or may not have taken effect.

  An append reads the version of the stream in one statement and inserts in others, so that other
  appends run in between.  The step relation \<^verbatim>\<open>pg_step\<close> interleaves any number of them.
\<close>

subsection \<open>Errors\<close>

text \<open>An error of the server has an optional code and a message.\<close>

datatype SqlxError = Database_Error "string option" string | PoolClosed | RowNotFound | Other_Error string

definition map_sqlx_error :: "string \<Rightarrow> SqlxError \<Rightarrow> EventStoreError" where
  "map_sqlx_error operation err =
    (case err of
       Database_Error code message \<Rightarrow>
         (let msg = ''database error in '' @ operation @ '': '' @ message in
          case code of
            Some c \<Rightarrow>
              if c = ''23505'' then Concurrency msg
              else if c = ''23503'' then InvalidAppend msg
              else if c = ''23514'' then InvalidAppend msg
              else InvalidAppend msg
          | None \<Rightarrow> InvalidAppend msg)
     | PoolClosed \<Rightarrow> InvalidAppend (''connection pool closed in '' @ operation)
     | RowNotFound \<Rightarrow> InvalidAppend (''unexpected row not found in '' @ operation)
     | Other_Error text \<Rightarrow> InvalidAppend (''sqlx error in '' @ operation @ '': '' @ text))"

definition is_unique_violation :: "SqlxError \<Rightarrow> bool" where
  "is_unique_violation err =
    (case err of Database_Error (Some code) _ \<Rightarrow> code = ''23505'' | _ \<Rightarrow> False)"

subsection \<open>Rows\<close>

record 'j StoredEventRow =
  er_event_id :: uuid
  er_tenant_id :: uuid
  er_aggregate_id :: uuid
  er_aggregate_type :: string
  er_sequence_number :: i64
  er_event_type :: string
  er_event_version :: u32
  er_occurred_at :: datetime
  er_payload :: 'j
  er_created_at :: datetime

definition stored_of_row :: "'j StoredEventRow \<Rightarrow> 'j StoredEvent" where
  "stored_of_row row = \<lparr> se_event_id = er_event_id row, se_tenant_id = TenantId (er_tenant_id row),
     se_aggregate_id = AggregateId (er_aggregate_id row), se_aggregate_type = er_aggregate_type row,
     se_sequence_number = er_sequence_number row, se_event_type = er_event_type row,
     se_event_version = er_event_version row, se_occurred_at = er_occurred_at row, se_payload = er_payload row \<rparr>"

definition row_in_stream :: "TenantId \<Rightarrow> AggregateId \<Rightarrow> 'j StoredEventRow \<Rightarrow> bool" where
  "row_in_stream t a row \<longleftrightarrow> er_tenant_id row = tenant_uuid t \<and> er_aggregate_id row = aggregate_uuid a"

text \<open>The statements, run for transaction \<^verbatim>\<open>k\<close>; \<^verbatim>\<open>db_read\<close> gives the rows of the table that the statement
  sees, in any order.  Times are kept in microseconds: \<^verbatim>\<open>db_timestamp\<close>; texts are compared by the
  collation of the database: \<^verbatim>\<open>db_max_text\<close>.\<close>

record ('d, 'j) Database =
  db_begin :: "'d \<Rightarrow> nat \<Rightarrow> 'd \<times> (SqlxError + unit)"
  db_read :: "'d \<Rightarrow> nat option \<Rightarrow> SqlxError + 'j StoredEventRow list"
  db_insert :: "'d \<Rightarrow> nat \<Rightarrow> 'j StoredEventRow \<Rightarrow> 'd \<times> (SqlxError + unit)"
  db_commit :: "'d \<Rightarrow> nat \<Rightarrow> 'd \<times> (SqlxError + unit)"
  db_rollback :: "'d \<Rightarrow> nat \<Rightarrow> 'd \<times> (SqlxError + unit)"
  db_now :: "'d \<Rightarrow> datetime"
  db_timestamp :: "datetime \<Rightarrow> datetime"
  db_max_text :: "string list \<Rightarrow> string"

subsection \<open>Loading\<close>

text \<open>Sequence numbers are signed in the table.\<close>

definition ordered_rows :: "TenantId \<Rightarrow> AggregateId \<Rightarrow> 'j StoredEventRow list \<Rightarrow> 'j StoredEventRow list" where
  "ordered_rows t a rows = sort_key (\<lambda>row. sint (er_sequence_number row)) (filter (row_in_stream t a) rows)"

definition pg_load_stream ::
    "('d, 'j) Database \<Rightarrow> 'd \<Rightarrow> TenantId \<Rightarrow> AggregateId \<Rightarrow> EventStoreError + 'j StoredEvent list" where
  "pg_load_stream db d tenant_id aggregate_id =
    and_then (map_err (map_sqlx_error ''load_stream'') (db_read db d None))
      (\<lambda>rows. Inr (map stored_of_row (ordered_rows tenant_id aggregate_id rows)))"

text \<open>\<^verbatim>\<open>MAX(sequence_number)\<close>, or 0 if there is no row.\<close>

definition max_sequence :: "'j StoredEventRow list \<Rightarrow> i64" where
  "max_sequence rows = (case map er_sequence_number rows of
     [] \<Rightarrow> 0
   | s # ss \<Rightarrow> fold (\<lambda>x m. if sint m < sint x then x else m) ss s)"

definition check_stream_version ::
    "('d, 'j) Database \<Rightarrow> 'd \<Rightarrow> nat \<Rightarrow> TenantId \<Rightarrow> AggregateId \<Rightarrow> EventStoreError + u64 \<times> string option" where
  "check_stream_version db d k tenant_id aggregate_id =
    and_then (map_err (map_sqlx_error ''check_stream_version'') (db_read db d (Some k)))
      (\<lambda>rows. let rows = filter (row_in_stream tenant_id aggregate_id) rows in
         Inr (max_sequence rows,
           if rows = [] then None else Some (db_max_text db (map er_aggregate_type rows))))"

subsection \<open>Appending\<close>

definition pg_check_event :: "TenantId \<Rightarrow> AggregateId \<Rightarrow> nat \<Rightarrow> 'j UncommittedEvent \<Rightarrow> EventStoreError + unit" where
  "pg_check_event tenant_id aggregate_id idx e =
    (if ue_tenant_id e \<noteq> tenant_id
       then Inl (TenantIsolation (''batch contains multiple tenant_ids (index '' @ show_nat idx @ '')''))
     else if ue_aggregate_id e \<noteq> aggregate_id
       then Inl (InvalidAppend (''batch contains multiple aggregate_ids (index '' @ show_nat idx @ '')''))
     else Inr ())"

text \<open>The checks before the transaction; \<^verbatim>\<open>show\<close> renders an id.\<close>

definition append_checks ::
    "(uuid \<Rightarrow> string) \<Rightarrow> TenantId \<Rightarrow> AggregateId \<Rightarrow> 'j UncommittedEvent list \<Rightarrow> EventStoreError + unit" where
  "append_checks shw tenant_id aggregate_id events =
    (let first_event = hd events in
     if ue_tenant_id first_event \<noteq> tenant_id
       then Inl (TenantIsolation (''event tenant_id mismatch: expected '' @ shw (tenant_uuid tenant_id)
              @ '', got '' @ shw (tenant_uuid (ue_tenant_id first_event))))
     else if ue_aggregate_id first_event \<noteq> aggregate_id
       then Inl (InvalidAppend (''event aggregate_id mismatch: expected '' @ shw (aggregate_uuid aggregate_id)
              @ '', got '' @ shw (aggregate_uuid (ue_aggregate_id first_event))))
     else check_all (pg_check_event tenant_id aggregate_id) events)"

text \<open>Rolling back: an error of the rollback replaces the error that led to it.\<close>

definition rolled_back ::
    "('d, 'j) Database \<Rightarrow> 'd \<Rightarrow> nat \<Rightarrow> EventStoreError \<Rightarrow> 'd \<times> (EventStoreError + 'a)" where
  "rolled_back db d k err =
    (case db_rollback db d k of
       (d, Inl e) \<Rightarrow> (d, Inl (map_sqlx_error ''rollback'' e))
     | (d, Inr _) \<Rightarrow> (d, Inl err))"

text \<open>A transaction that is dropped without commit is rolled back.\<close>

definition dropped :: "('d, 'j) Database \<Rightarrow> 'd \<Rightarrow> nat \<Rightarrow> 'd" where
  "dropped db d k = fst (db_rollback db d k)"

text \<open>Where a transaction stands after the version check: its arguments, the version it read, what it has
  inserted, what is left of the batch.\<close>

record 'j Txn =
  tx_tenant_id :: TenantId
  tx_aggregate_id :: AggregateId
  tx_aggregate_type :: string
  tx_expected :: ExpectedVersion
  tx_batch :: "'j UncommittedEvent list"
  tx_base :: u64
  tx_next_sequence :: u64
  tx_stored_events :: "'j StoredEvent list"
  tx_events :: "'j UncommittedEvent list"

definition append_start ::
    "(uuid \<Rightarrow> string) \<Rightarrow> ('d, 'j) Database \<Rightarrow> 'd \<Rightarrow> nat \<Rightarrow> TenantId \<Rightarrow> AggregateId \<Rightarrow> 'j UncommittedEvent list \<Rightarrow>
     ExpectedVersion \<Rightarrow> 'd \<times> (EventStoreError + 'j Txn)" where
  "append_start shw db d k tenant_id aggregate_id events expected_version =
    (case append_checks shw tenant_id aggregate_id events of
       Inl err \<Rightarrow> (d, Inl err)
     | Inr _ \<Rightarrow>
        (let aggregate_type = ue_aggregate_type (hd events) in
         case db_begin db d k of
           (d, Inl e) \<Rightarrow> (d, Inl (map_sqlx_error ''begin_transaction'' e))
         | (d, Inr _) \<Rightarrow>
            (case check_stream_version db d k tenant_id aggregate_id of
               Inl err \<Rightarrow> (dropped db d k, Inl err)
             | Inr (current, existing_aggregate_type) \<Rightarrow>
                 if (case existing_aggregate_type of Some existing_type \<Rightarrow> existing_type \<noteq> aggregate_type | None \<Rightarrow> False)
                 then rolled_back db d k (AggregateTypeMismatch
                   (''stream aggregate_type is '' @ apostrophe @ the existing_aggregate_type @ apostrophe
                    @ '', attempted append with '' @ apostrophe @ aggregate_type @ apostrophe))
                 else if \<not> expected_matches expected_version current
                 then rolled_back db d k (Concurrency
                   (''optimistic concurrency check failed: expected '' @ show_expected expected_version
                    @ '', found '' @ show_u64 current))
                 else (d, Inr \<lparr> tx_tenant_id = tenant_id, tx_aggregate_id = aggregate_id,
                   tx_aggregate_type = aggregate_type, tx_expected = expected_version, tx_batch = events, tx_base = current,
                   tx_next_sequence = current + 1, tx_stored_events = [], tx_events = events \<rparr>))))"

definition event_row :: "('d, 'j) Database \<Rightarrow> 'd \<Rightarrow> 'j Txn \<Rightarrow> 'j UncommittedEvent \<Rightarrow> 'j StoredEventRow" where
  "event_row db d tx event = \<lparr> er_event_id = ue_event_id event, er_tenant_id = tenant_uuid (tx_tenant_id tx),
     er_aggregate_id = aggregate_uuid (tx_aggregate_id tx), er_aggregate_type = tx_aggregate_type tx,
     er_sequence_number = tx_next_sequence tx, er_event_type = ue_event_type event,
     er_event_version = ue_event_version event, er_occurred_at = db_timestamp db (ue_occurred_at event),
     er_payload = ue_payload event, er_created_at = db_timestamp db (db_now db d) \<rparr>"

text \<open>One turn of the loop over the events.\<close>

definition append_insert ::
    "('d, 'j) Database \<Rightarrow> 'd \<Rightarrow> nat \<Rightarrow> 'j Txn \<Rightarrow> 'j UncommittedEvent \<Rightarrow> 'd \<times> (EventStoreError + 'j Txn)" where
  "append_insert db d k tx event =
    (if ue_tenant_id event \<noteq> tx_tenant_id tx \<or> ue_aggregate_id event \<noteq> tx_aggregate_id tx
     then rolled_back db d k (TenantIsolation ''event tenant/aggregate mismatch in batch'')
     else (case db_insert db d k (event_row db d tx event) of
         (d, Inl e) \<Rightarrow> (dropped db d k, Inl
           (if is_unique_violation e
            then Concurrency (''concurrent append detected: sequence_number '' @ show_u64 (tx_next_sequence tx)
                   @ '' already exists'')
            else map_sqlx_error ''insert_event'' e))
       | (d, Inr _) \<Rightarrow> (d, Inr (tx\<lparr>tx_stored_events := tx_stored_events tx @ [store_event (tx_next_sequence tx) event],
            tx_next_sequence := tx_next_sequence tx + 1, tx_events := tl (tx_events tx)\<rparr>))))"

definition append_commit ::
    "('d, 'j) Database \<Rightarrow> 'd \<Rightarrow> nat \<Rightarrow> 'j Txn \<Rightarrow> 'd \<times> (EventStoreError + 'j StoredEvent list)" where
  "append_commit db d k tx =
    (case db_commit db d k of
       (d, Inl e) \<Rightarrow> (d, Inl (map_sqlx_error ''commit_transaction'' e))
     | (d, Inr _) \<Rightarrow> (d, Inr (tx_stored_events tx)))"

primrec append_inserts ::
    "('d, 'j) Database \<Rightarrow> nat \<Rightarrow> 'j UncommittedEvent list \<Rightarrow> 'd \<Rightarrow> 'j Txn \<Rightarrow> 'd \<times> (EventStoreError + 'j StoredEvent list)" where
  "append_inserts db k [] d tx = append_commit db d k tx"
| "append_inserts db k (event # events) d tx =
    (case append_insert db d k tx event of
       (d, Inl err) \<Rightarrow> (d, Inl err)
     | (d, Inr tx) \<Rightarrow> append_inserts db k events d tx)"

definition pg_append_events ::
    "(uuid \<Rightarrow> string) \<Rightarrow> ('d, 'j) Database \<Rightarrow> 'd \<Rightarrow> nat \<Rightarrow> TenantId \<Rightarrow> AggregateId \<Rightarrow> 'j UncommittedEvent list \<Rightarrow>
     ExpectedVersion \<Rightarrow> 'd \<times> (EventStoreError + 'j StoredEvent list)" where
  "pg_append_events shw db d k tenant_id aggregate_id events expected_version =
    (if events = [] then (d, Inr [])
     else (case append_start shw db d k tenant_id aggregate_id events expected_version of
         (d, Inl err) \<Rightarrow> (d, Inl err)
       | (d, Inr tx) \<Rightarrow> append_inserts db k events d tx))"

text \<open>The trait's \<^verbatim>\<open>append\<close>, which takes the stream from the first event and needs a runtime.\<close>

definition pg_append ::
    "(uuid \<Rightarrow> string) \<Rightarrow> bool \<Rightarrow> ('d, 'j) Database \<Rightarrow> 'd \<Rightarrow> nat \<Rightarrow> 'j UncommittedEvent list \<Rightarrow> ExpectedVersion \<Rightarrow>
     'd \<times> (EventStoreError + 'j StoredEvent list)" where
  "pg_append shw runtime db d k events expected_version =
    (if \<not> runtime then (d, Inl (InvalidAppend (''PostgresEventStore requires async runtime (tokio). '' @
       ''Ensure you'' @ apostrophe @ ''re calling from within a tokio runtime context.'')))
     else if events = [] then (d, Inr [])
     else pg_append_events shw db d k (ue_tenant_id (hd events)) (ue_aggregate_id (hd events)) events expected_version)"

subsection \<open>Snapshots\<close>

record 'j Snapshot =
  sn_tenant_id :: TenantId
  sn_aggregate_id :: AggregateId
  sn_aggregate_type :: string
  sn_version :: u64
  sn_state :: 'j
  sn_created_at :: datetime

record 'j SnapshotRow =
  nr_tenant_id :: uuid
  nr_aggregate_id :: uuid
  nr_aggregate_type :: string
  nr_version :: i64
  nr_state :: 'j
  nr_created_at :: datetime

definition snapshot_of_row :: "'j SnapshotRow \<Rightarrow> 'j Snapshot" where
  "snapshot_of_row row = \<lparr> sn_tenant_id = TenantId (nr_tenant_id row), sn_aggregate_id = AggregateId (nr_aggregate_id row),
     sn_aggregate_type = nr_aggregate_type row, sn_version = nr_version row, sn_state = nr_state row,
     sn_created_at = nr_created_at row \<rparr>"

text \<open>The table \<^verbatim>\<open>snapshots\<close> has one row for each tenant, aggregate and version.  \<^verbatim>\<open>fault\<close> is the error of the
  statement, if it fails.\<close>

definition load_snapshot ::
    "SqlxError option \<Rightarrow> 'j SnapshotRow list \<Rightarrow> TenantId \<Rightarrow> AggregateId \<Rightarrow> EventStoreError + 'j Snapshot option" where
  "load_snapshot fault rows tenant_id aggregate_id =
    (case fault of
       Some e \<Rightarrow> Inl (map_sqlx_error ''load_snapshot'' e)
     | None \<Rightarrow>
        (case sort_key (\<lambda>row. - sint (nr_version row))
            (filter (\<lambda>row. nr_tenant_id row = tenant_uuid tenant_id \<and> nr_aggregate_id row = aggregate_uuid aggregate_id) rows) of
           row # _ \<Rightarrow> Inr (Some (snapshot_of_row row))
         | [] \<Rightarrow> Inr None))"

definition snapshot_key :: "'j SnapshotRow \<Rightarrow> uuid \<times> uuid \<times> i64" where
  "snapshot_key row = (nr_tenant_id row, nr_aggregate_id row, nr_version row)"

text \<open>\<^verbatim>\<open>INSERT ... ON CONFLICT ... DO UPDATE SET state, created_at\<close>\<close>

definition upsert_snapshot :: "'j SnapshotRow \<Rightarrow> 'j SnapshotRow list \<Rightarrow> 'j SnapshotRow list" where
  "upsert_snapshot row rows =
    (if snapshot_key row \<in> snapshot_key ` set rows
     then map (\<lambda>r. if snapshot_key r = snapshot_key row
            then r\<lparr>nr_state := nr_state row, nr_created_at := nr_created_at row\<rparr> else r) rows
     else rows @ [row])"

definition store_snapshot ::
    "(uuid \<Rightarrow> string) \<Rightarrow> SqlxError option \<Rightarrow> datetime \<Rightarrow> 'j SnapshotRow list \<Rightarrow> TenantId \<Rightarrow> AggregateId \<Rightarrow> 'j Snapshot \<Rightarrow>
     'j SnapshotRow list \<times> (EventStoreError + unit)" where
  "store_snapshot shw fault now rows tenant_id aggregate_id snapshot =
    (if sn_tenant_id snapshot \<noteq> tenant_id
     then (rows, Inl (TenantIsolation (''snapshot tenant_id mismatch: expected '' @ shw (tenant_uuid tenant_id)
            @ '', got '' @ shw (tenant_uuid (sn_tenant_id snapshot)))))
     else if sn_aggregate_id snapshot \<noteq> aggregate_id
     then (rows, Inl (InvalidAppend (''snapshot aggregate_id mismatch: expected '' @ shw (aggregate_uuid aggregate_id)
            @ '', got '' @ shw (aggregate_uuid (sn_aggregate_id snapshot)))))
     else (case fault of
         Some e \<Rightarrow> (rows, Inl (map_sqlx_error ''store_snapshot'' e))
       | None \<Rightarrow> (upsert_snapshot \<lparr> nr_tenant_id = tenant_uuid tenant_id, nr_aggregate_id = aggregate_uuid aggregate_id,
           nr_aggregate_type = sn_aggregate_type snapshot, nr_version = sn_version snapshot, nr_state = sn_state snapshot,
           nr_created_at = now \<rparr> rows, Inr ())))"

subsection \<open>Queries\<close>

definition row_matches :: "('d, 'j) Database \<Rightarrow> TenantId \<Rightarrow> EventFilter \<Rightarrow> 'j StoredEventRow \<Rightarrow> bool" where
  "row_matches db tenant_id f row \<longleftrightarrow> er_tenant_id row = tenant_uuid tenant_id \<and>
     (ef_aggregate_id f = None \<or> er_aggregate_id row = aggregate_uuid (the (ef_aggregate_id f))) \<and>
     (ef_aggregate_type f = None \<or> er_aggregate_type row = the (ef_aggregate_type f)) \<and>
     (ef_event_type f = None \<or> er_event_type row = the (ef_event_type f)) \<and>
     (ef_occurred_after f = None \<or> db_timestamp db (the (ef_occurred_after f)) \<le> er_occurred_at row) \<and>
     (ef_occurred_before f = None \<or> er_occurred_at row \<le> db_timestamp db (the (ef_occurred_before f)))"

text \<open>\<^verbatim>\<open>has_more\<close> from the count, which is an \<^verbatim>\<open>i64\<close>; the sum of the two \<^verbatim>\<open>u32\<close> wraps.\<close>

definition pg_result :: "Pagination \<Rightarrow> nat \<Rightarrow> 'j StoredEventRow list \<Rightarrow> 'j EventQueryResult" where
  "pg_result pg cnt rows = \<lparr> qr_events = map stored_of_row (paginate pg rows), qr_total = of_nat cnt,
     qr_pagination = pg,
     qr_has_more = (sint (ucast (pg_offset pg + pg_limit pg) :: i64) < sint (of_nat cnt :: i64)) \<rparr>"

text \<open>The count and the page are two statements; other transactions may commit between the states
  \<^verbatim>\<open>d\<close> and \<^verbatim>\<open>d'\<close> that they see.\<close>

definition pg_query_events ::
    "('d, 'j) Database \<Rightarrow> 'd \<Rightarrow> 'd \<Rightarrow> TenantId \<Rightarrow> EventFilter \<Rightarrow> Pagination \<Rightarrow> EventStoreError + 'j EventQueryResult" where
  "pg_query_events db d d' tenant_id f pg =
    and_then (map_err (map_sqlx_error ''count_events'') (db_read db d None)) (\<lambda>counted.
    and_then (map_err (map_sqlx_error ''query_events'') (db_read db d' None)) (\<lambda>rows.
      Inr (pg_result pg (length (filter (row_matches db tenant_id f) counted))
        (sort_key (\<lambda>row. (- er_occurred_at row, sint (er_sequence_number row))) (filter (row_matches db tenant_id f) rows)))))"

definition pg_get_aggregate_events ::
    "('d, 'j) Database \<Rightarrow> 'd \<Rightarrow> 'd \<Rightarrow> TenantId \<Rightarrow> AggregateId \<Rightarrow> Pagination option \<Rightarrow> EventStoreError + 'j EventQueryResult" where
  "pg_get_aggregate_events db d d' tenant_id aggregate_id pagination =
    (let pg = (case pagination of Some pg \<Rightarrow> pg | None \<Rightarrow> pagination_default) in
     and_then (map_err (map_sqlx_error ''count_aggregate_events'') (db_read db d None)) (\<lambda>counted.
     and_then (map_err (map_sqlx_error ''get_aggregate_events'') (db_read db d' None)) (\<lambda>rows.
       Inr (pg_result pg (length (filter (row_in_stream tenant_id aggregate_id) counted)) (ordered_rows tenant_id aggregate_id rows)))))"

definition pg_get_event_by_id ::
    "('d, 'j) Database \<Rightarrow> 'd \<Rightarrow> TenantId \<Rightarrow> uuid \<Rightarrow> EventStoreError + 'j StoredEvent option" where
  "pg_get_event_by_id db d tenant_id event_id =
    and_then (map_err (map_sqlx_error ''get_event_by_id'') (db_read db d None))
      (\<lambda>rows. Inr (map_option stored_of_row
        (find (\<lambda>row. er_tenant_id row = tenant_uuid tenant_id \<and> er_event_id row = event_id) rows)))"

subsection \<open>What the database promises\<close>

text \<open>The constraints of the table \<^verbatim>\<open>events\<close>.\<close>

definition row_key :: "'j StoredEventRow \<Rightarrow> uuid \<times> uuid \<times> i64" where
  "row_key row = (er_tenant_id row, er_aggregate_id row, er_sequence_number row)"

definition row_ok :: "'j StoredEventRow \<Rightarrow> bool" where
  "row_ok row \<longleftrightarrow> 0 < sint (er_sequence_number row) \<and> er_aggregate_type row \<noteq> [] \<and> er_event_type row \<noteq> []"

locale event_database =
  fixes db :: "('d, 'j) Database"
    and committed :: "'d \<Rightarrow> 'j StoredEventRow list"
    and pending :: "'d \<Rightarrow> nat \<Rightarrow> 'j StoredEventRow list"
  assumes begin_effect: "db_begin db d k = (d', r) \<Longrightarrow> committed d' = committed d \<and> pending d' = (pending d)(k := [])"
    and read_transaction: "db_read db d (Some k) = Inr rows \<Longrightarrow> mset rows = mset (committed d @ pending d k)"
    and read_committed: "db_read db d None = Inr rows \<Longrightarrow> mset rows = mset (committed d)"
    and insert_ok: "db_insert db d k row = (d', Inr u) \<Longrightarrow>
      committed d' = committed d \<and> pending d' = (pending d)(k := pending d k @ [row]) \<and> row_ok row \<and>
      (\<forall>row' \<in> set (committed d) \<union> (\<Union>j. set (pending d j)). row_key row' \<noteq> row_key row \<and> er_event_id row' \<noteq> er_event_id row)"
    and insert_failed: "db_insert db d k row = (d', Inl e) \<Longrightarrow>
      committed d' = committed d \<and> (\<forall>j. j \<noteq> k \<longrightarrow> pending d' j = pending d j)"
    and commit_ok: "db_commit db d k = (d', Inr u) \<Longrightarrow>
      committed d' = committed d @ pending d k \<and> pending d' = (pending d)(k := [])"
    and commit_unclear: "db_commit db d k = (d', Inl e) \<Longrightarrow>
      committed d' \<in> {committed d, committed d @ pending d k} \<and> pending d' = (pending d)(k := [])"
    and rollback_effect: "db_rollback db d k = (d', r) \<Longrightarrow> committed d' = committed d \<and> pending d' = (pending d)(k := [])"
    and max_text_member: "texts \<noteq> [] \<Longrightarrow> db_max_text db texts \<in> set texts"
    and timestamp_exact: "1000 dvd at \<Longrightarrow> db_timestamp db at = at"

subsection \<open>Streams of the table\<close>

text \<open>What is stored of a batch: every event under the type of the first, with its time as the database
  keeps it.\<close>

definition kept :: "('d, 'j) Database \<Rightarrow> string \<Rightarrow> 'j UncommittedEvent \<Rightarrow> 'j UncommittedEvent" where
  "kept db ty e = e\<lparr>ue_aggregate_type := ty, ue_occurred_at := db_timestamp db (ue_occurred_at e)\<rparr>"

definition table_stream :: "'j StoredEventRow list \<Rightarrow> TenantId \<Rightarrow> AggregateId \<Rightarrow> 'j StoredEvent list" where
  "table_stream rows t a = map stored_of_row (filter (row_in_stream t a) rows)"

lemma table_stream_append: "table_stream (xs @ ys) t a = table_stream xs t a @ table_stream ys t a"
  by (simp add: table_stream_def)

lemma row_in_stream_stored: "row_in_stream t a row \<longleftrightarrow> se_tenant_id (stored_of_row row) = t \<and> se_aggregate_id (stored_of_row row) = a"
  by (cases t; cases a) (auto simp: row_in_stream_def stored_of_row_def)

text \<open>The rows of one stream of a table, as a stream, in the order of their numbers.\<close>

lemma stream_ok_number:
  assumes "stream_ok t a es" "i < length es"
  shows "se_sequence_number (es ! i) = of_nat (Suc i)"
proof -
  have "map se_sequence_number es ! i = map of_nat [1..<Suc (length es)] ! i"
    using assms(1) by (simp only: stream_ok_def)
  then show ?thesis using assms(2) by (simp del: upt_Suc)
qed

lemma sint_of_nat: "n < 2 ^ 63 \<Longrightarrow> sint (of_nat n :: 64 word) = int n"
  using sint_sbintrunc' [of "int n", where ?'a = 64] by (simp add: signed_take_bit_int_eq_self)

lemma sint_positive:
  assumes "0 < sint (of_nat n :: 64 word)" "n \<le> 2 ^ 63"
  shows "n < 2 ^ 63"
proof (rule ccontr)
  assume "\<not> n < 2 ^ 63"
  then have "n = 2 ^ 63" using assms(2) by simp
  then show False using assms(1) int_word_sint [of "int n", where ?'a = 64] by simp
qed

definition table_ok :: "'j StoredEventRow list \<Rightarrow> bool" where
  "table_ok rows \<longleftrightarrow> (\<forall>t a. stream_ok t a (table_stream rows t a) \<and> length (table_stream rows t a) < 2 ^ 63)"

lemma table_numbers:
  assumes "table_ok rows"
  shows "map (\<lambda>row. sint (er_sequence_number row)) (filter (row_in_stream t a) rows) =
    map int [1..<Suc (length (filter (row_in_stream t a) rows))]"
proof -
  let ?rs = "filter (row_in_stream t a) rows"
  have ok: "stream_ok t a (map stored_of_row ?rs)" "length ?rs < 2 ^ 63"
    using assms unfolding table_ok_def table_stream_def by (metis length_map)+
  have "map er_sequence_number ?rs = map se_sequence_number (map stored_of_row ?rs)"
    by (simp add: stored_of_row_def)
  also have "\<dots> = map of_nat [1..<Suc (length ?rs)]" using ok(1) unfolding stream_ok_def by (metis length_map)
  finally have n: "map er_sequence_number ?rs = map of_nat [1..<Suc (length ?rs)]" .
  have "map (\<lambda>row. sint (er_sequence_number row)) ?rs = map sint (map er_sequence_number ?rs)" by simp
  also have "\<dots> = map int [1..<Suc (length ?rs)]" unfolding n map_map
    by (rule map_cong) (use ok(2) in \<open>auto simp: sint_of_nat\<close>)
  finally show ?thesis .
qed

text \<open>Loading gives the committed stream, whatever the order of the scan.\<close>

lemma ordered_rows_stream:
  assumes "table_ok rows" "mset scan = mset rows"
  shows "map stored_of_row (ordered_rows t a scan) = table_stream rows t a"
proof -
  let ?rs = "filter (row_in_stream t a) rows" and ?key = "\<lambda>row. sint (er_sequence_number row)"
  have m: "mset (filter (row_in_stream t a) scan) = mset ?rs" using assms(2) by (simp add: mset_filter)
  have "distinct (map ?key ?rs)" unfolding table_numbers [OF assms(1)] by (simp add: distinct_map)
  then have "inj_on ?key (set (filter (row_in_stream t a) scan))" using mset_eq_setD [OF m] by (simp add: distinct_map)
  moreover have "sorted (map ?key ?rs)" unfolding table_numbers [OF assms(1)]
    by (simp add: sorted_map sorted_wrt_upt del: upt_Suc)
  ultimately have "ordered_rows t a scan = ?rs" unfolding ordered_rows_def by (rule sort_key_inj_key_eq [OF m])
  then show ?thesis by (simp add: table_stream_def)
qed

lemma max_fold:
  fixes ss :: "64 word list"
  shows "(let m = fold (\<lambda>x m. if sint m < sint x then x else m) ss s in m \<in> set (s # ss) \<and> (\<forall>x \<in> set (s # ss). sint x \<le> sint m))"
proof (induction ss arbitrary: s)
  case (Cons x ss)
  show ?case using Cons [of "if sint s < sint x then x else s"] by (auto simp: Let_def split: if_splits)
qed simp

lemma max_sequence_bound:
  assumes "rows \<noteq> []"
  shows "max_sequence rows \<in> er_sequence_number ` set rows" "\<forall>row \<in> set rows. sint (er_sequence_number row) \<le> sint (max_sequence rows)"
proof -
  obtain row rs where rows: "rows = row # rs" using assms by (cases rows) auto
  show "max_sequence rows \<in> er_sequence_number ` set rows" "\<forall>row \<in> set rows. sint (er_sequence_number row) \<le> sint (max_sequence rows)"
    using max_fold [of "map er_sequence_number rs" "er_sequence_number row"] by (auto simp: rows max_sequence_def Let_def)
qed

lemma max_sequence_stream:
  assumes "table_ok rows" "mset scan = mset rows"
  shows "max_sequence (filter (row_in_stream t a) scan) = current_version (table_stream rows t a)"
proof -
  let ?rs = "filter (row_in_stream t a) rows" and ?sc = "filter (row_in_stream t a) scan"
  have m: "mset ?sc = mset ?rs" using assms(2) by (simp add: mset_filter)
  have ok: "stream_ok t a (table_stream rows t a)" "length ?rs < 2 ^ 63"
    using assms(1) unfolding table_ok_def table_stream_def by (metis length_map)+
  have cv: "current_version (table_stream rows t a) = of_nat (length ?rs)"
    using current_version_stream_ok [OF ok(1)] by (simp add: table_stream_def)
  show ?thesis
  proof (cases "?rs = []")
    case True
    then show ?thesis using m cv by (simp add: max_sequence_def)
  next
    case False
    have keys: "(\<lambda>row. sint (er_sequence_number row)) ` set ?sc = int ` {1..length ?rs}"
      using arg_cong [OF table_numbers [OF assms(1), of t a], of set] mset_eq_setD [OF m]
      by (simp add: atLeastLessThanSuc_atLeastAtMost del: upt_Suc)
    have ne: "?sc \<noteq> []" using m False by (metis mset_zero_iff)
    note B = max_sequence_bound [OF ne]
    have "int (length ?rs) \<in> (\<lambda>row. sint (er_sequence_number row)) ` set ?sc"
      unfolding keys using False by (simp add: Suc_le_eq)
    then have "int (length ?rs) \<le> sint (max_sequence ?sc)" using B(2) by auto
    moreover have "sint (max_sequence ?sc) \<in> int ` {1..length ?rs}" unfolding keys [symmetric] using B(1) by auto
    ultimately have "sint (max_sequence ?sc) = sint (of_nat (length ?rs) :: 64 word)"
      using sint_of_nat [OF ok(2)] by auto
    then show ?thesis unfolding cv by (rule signed_word_eqI)
  qed
qed

subsection \<open>A database that keeps the promises\<close>

text \<open>A table in memory, with the rows of each open transaction.  A row that another open transaction has
  claimed is refused with a lock timeout.\<close>

record 'j Table =
  tb_committed :: "'j StoredEventRow list"
  tb_open :: "(nat \<times> 'j StoredEventRow list) list"

definition table_pending :: "'j Table \<Rightarrow> nat \<Rightarrow> 'j StoredEventRow list" where
  "table_pending d k = (case map_of (tb_open d) k of None \<Rightarrow> [] | Some rows \<Rightarrow> rows)"

definition table_set :: "nat \<Rightarrow> 'j StoredEventRow list \<Rightarrow> 'j Table \<Rightarrow> 'j Table" where
  "table_set k rows d = d\<lparr>tb_open := AList.update k rows (tb_open d)\<rparr>"

definition clash :: "'j StoredEventRow \<Rightarrow> 'j StoredEventRow list \<Rightarrow> bool" where
  "clash row rows \<longleftrightarrow> (\<exists>row' \<in> set rows. row_key row' = row_key row \<or> er_event_id row' = er_event_id row)"

definition table_insert :: "'j Table \<Rightarrow> nat \<Rightarrow> 'j StoredEventRow \<Rightarrow> 'j Table \<times> (SqlxError + unit)" where
  "table_insert d k row =
    (if \<not> row_ok row then (d, Inl (Database_Error (Some ''23514'') ''check constraint''))
     else if clash row (tb_committed d @ table_pending d k) then (d, Inl (Database_Error (Some ''23505'') ''duplicate key''))
     else if clash row (concat (map snd (tb_open d))) then (d, Inl (Database_Error (Some ''55P03'') ''lock timeout''))
     else (table_set k (table_pending d k @ [row]) d, Inr ()))"

definition table_db :: "('j Table, 'j) Database" where
  "table_db = \<lparr> db_begin = (\<lambda>d k. (table_set k [] d, Inr ())),
     db_read = (\<lambda>d k. Inr (tb_committed d @ (case k of None \<Rightarrow> [] | Some k \<Rightarrow> table_pending d k))),
     db_insert = table_insert,
     db_commit = (\<lambda>d k. ((table_set k [] d)\<lparr>tb_committed := tb_committed d @ table_pending d k\<rparr>, Inr ())),
     db_rollback = (\<lambda>d k. (table_set k [] d, Inr ())),
     db_now = (\<lambda>d. 0), db_timestamp = (\<lambda>at. at div 1000 * 1000), db_max_text = (\<lambda>texts. fold max (tl texts) (hd texts)) \<rparr>"

lemma table_pending_set [simp]:
  "table_pending (table_set k rows d) = (table_pending d)(k := rows)" "tb_committed (table_set k rows d) = tb_committed d"
  by (auto simp: table_pending_def table_set_def update_conv fun_eq_iff)

lemma table_pending_upd [simp]: "table_pending (d\<lparr>tb_committed := rows\<rparr>) = table_pending d"
  by (simp add: table_pending_def fun_eq_iff)

lemma table_pending_open: "row \<in> set (table_pending d j) \<Longrightarrow> row \<in> set (concat (map snd (tb_open d)))"
proof -
  assume "row \<in> set (table_pending d j)"
  then obtain rows where "map_of (tb_open d) j = Some rows" "row \<in> set rows"
    by (cases "map_of (tb_open d) j") (simp_all add: table_pending_def)
  then show ?thesis by (auto dest!: map_of_SomeD intro!: bexI [of _ "(j, rows)"])
qed

lemma fold_max_member: "fold max xs x \<in> set (x # xs)" for x :: "'a :: linorder"
proof (induction xs arbitrary: x)
  case (Cons y ys)
  show ?case using Cons [of "max y x"] by (auto simp: max_def split: if_splits)
qed simp

interpretation table: event_database table_db tb_committed table_pending
proof
  fix d :: "'j Table" and k row d' u
  assume "db_insert table_db d k row = (d', Inr u)"
  then have i: "row_ok row" "\<not> clash row (tb_committed d)" "\<not> clash row (concat (map snd (tb_open d)))"
      "d' = table_set k (table_pending d k @ [row]) d"
    by (auto simp: table_db_def table_insert_def clash_def split: if_splits)
  then show "tb_committed d' = tb_committed d \<and> table_pending d' = (table_pending d)(k := table_pending d k @ [row]) \<and>
      row_ok row \<and> (\<forall>row' \<in> set (tb_committed d) \<union> (\<Union>j. set (table_pending d j)).
        row_key row' \<noteq> row_key row \<and> er_event_id row' \<noteq> er_event_id row)"
    using table_pending_open unfolding clash_def by fastforce
next
  fix texts :: "string list"
  assume "texts \<noteq> []"
  then show "db_max_text table_db texts \<in> set texts"
    using fold_max_member [of "tl texts" "hd texts"] by (cases texts) (simp_all add: table_db_def)
qed (auto simp: table_db_def table_insert_def split: if_splits)

end
