(* ===== verification/Postgres_Concurrency.thy ===== *)
theory Postgres_Concurrency
  imports Postgres_Store
begin

text \<open>
  Concurrent appends to the persistent event store: however the statements of any number of appends
  interleave, the committed streams are those that a sequence of appends to the in-memory store
  produces, one for each commit, and an append that answers with its events found the stream at the
  expected version when it committed.
\<close>

subsection \<open>Interleaved appends\<close>

text \<open>Any number of appends over one database, each between two of its statements at any time.\<close>

type_synonym 'j open_txns = "nat \<rightharpoonup> 'j Txn"

inductive pg_step ::
    "(uuid \<Rightarrow> string) \<Rightarrow> ('d, 'j) Database \<Rightarrow> 'd \<times> 'j open_txns \<Rightarrow> 'd \<times> 'j open_txns \<Rightarrow> bool"
  for shw db where
  pg_start: "\<lbrakk> fl k = None; events \<noteq> []; append_start shw db d k t a events ev = (d', Inr tx) \<rbrakk>
    \<Longrightarrow> pg_step shw db (d, fl) (d', fl(k \<mapsto> tx))"
| pg_refused: "\<lbrakk> fl k = None; events \<noteq> []; append_start shw db d k t a events ev = (d', Inl err) \<rbrakk>
    \<Longrightarrow> pg_step shw db (d, fl) (d', fl)"
| pg_insert: "\<lbrakk> fl k = Some tx; tx_events tx = e # es; append_insert db d k tx e = (d', Inr tx') \<rbrakk>
    \<Longrightarrow> pg_step shw db (d, fl) (d', fl(k \<mapsto> tx'))"
| pg_insert_failed: "\<lbrakk> fl k = Some tx; tx_events tx = e # es; append_insert db d k tx e = (d', Inl err) \<rbrakk>
    \<Longrightarrow> pg_step shw db (d, fl) (d', fl(k := None))"
| pg_commit: "\<lbrakk> fl k = Some tx; tx_events tx = []; append_commit db d k tx = (d', r) \<rbrakk>
    \<Longrightarrow> pg_step shw db (d, fl) (d', fl(k := None))"
| pg_lost: "\<lbrakk> fl k = Some tx; d' = dropped db d k \<rbrakk> \<Longrightarrow> pg_step shw db (d, fl) (d', fl(k := None))"

subsection \<open>One transaction\<close>

lemma kept_fields [simp]:
  "ue_tenant_id (kept db ty e) = ue_tenant_id e" "ue_aggregate_id (kept db ty e) = ue_aggregate_id e"
  "ue_aggregate_type (kept db ty e) = ty"
  by (simp_all add: kept_def)

lemma assign_sequence_snoc:
  "assign_sequence n (us @ [u]) = assign_sequence n us @ [store_event (n + of_nat (length us)) u]"
  by (induction us arbitrary: n) (simp_all add: algebra_simps)

lemma table_stream_in:
  assumes "\<forall>row \<in> set rows. row_in_stream t a row"
  shows "table_stream rows t a = map stored_of_row rows"
    "(t', a') \<noteq> (t, a) \<Longrightarrow> table_stream rows t' a' = []"
proof -
  show "table_stream rows t a = map stored_of_row rows" using assms by (simp add: table_stream_def)
  assume "(t', a') \<noteq> (t, a)"
  then show "table_stream rows t' a' = []"
    using assms by (auto simp: table_stream_def row_in_stream_stored filter_empty_conv)
qed

text \<open>Where an open transaction stands over the committed rows: it has inserted, for the events done so far,
  the numbers that follow the version it read, and once it has inserted anything that is still the
  version of the stream.\<close>

definition txn_ok ::
    "('d, 'j) Database \<Rightarrow> 'j StoredEventRow list \<Rightarrow> 'j StoredEventRow list \<Rightarrow> 'j Txn \<Rightarrow> 'j UncommittedEvent list \<Rightarrow> bool" where
  "txn_ok db rows mine tx finished \<longleftrightarrow>
    (let st = table_stream rows (tx_tenant_id tx) (tx_aggregate_id tx) in
     (\<forall>row \<in> set mine. row_in_stream (tx_tenant_id tx) (tx_aggregate_id tx) row) \<and>
     (\<forall>e \<in> set finished. ue_tenant_id e = tx_tenant_id tx \<and> ue_aggregate_id e = tx_aggregate_id tx) \<and>
     tx_batch tx = finished @ tx_events tx \<and>
     tx_stored_events tx = assign_sequence (tx_base tx + 1) finished \<and>
     map stored_of_row mine = assign_sequence (tx_base tx + 1) (map (kept db (tx_aggregate_type tx)) finished) \<and>
     tx_next_sequence tx = tx_base tx + 1 + of_nat (length finished) \<and>
     unat (tx_base tx) \<le> length st \<and>
     (finished \<noteq> [] \<longrightarrow> unat (tx_base tx) = length st \<and> length st + length finished < 2 ^ 63) \<and>
     (0 < unat (tx_base tx) \<longrightarrow> se_aggregate_type (hd st) = tx_aggregate_type tx) \<and>
     expected_matches (tx_expected tx) (tx_base tx))"

lemma txn_ok_length: "txn_ok db rows mine tx finished \<Longrightarrow> length mine = length finished"
  unfolding txn_ok_def Let_def by (metis length_assign_sequence length_map)

lemma txn_base_eq:
  assumes "txn_ok db rows mine tx finished" "finished \<noteq> []"
  shows "unat (tx_base tx) = length (table_stream rows (tx_tenant_id tx) (tx_aggregate_id tx))"
  using assms by (simp add: txn_ok_def Let_def)

text \<open>A row that the table accepts for the next event carries the next number of the stream.\<close>

lemma insert_continues:
  assumes "table_ok rows" "txn_ok db rows mine tx finished"
    "row_ok row" "row_in_stream (tx_tenant_id tx) (tx_aggregate_id tx) row" "er_sequence_number row = tx_next_sequence tx"
    "\<forall>row' \<in> set rows. row_key row' \<noteq> row_key row"
  shows "unat (tx_base tx) = length (table_stream rows (tx_tenant_id tx) (tx_aggregate_id tx))"
    "length (table_stream rows (tx_tenant_id tx) (tx_aggregate_id tx)) + length finished + 1 < 2 ^ 63"
proof -
  let ?t = "tx_tenant_id tx" and ?a = "tx_aggregate_id tx"
  define st where "st = table_stream rows ?t ?a"
  let ?b = "unat (tx_base tx)" and ?m = "length finished"
  have st: "stream_ok ?t ?a st" "length st < 2 ^ 63" using assms(1) by (simp_all add: table_ok_def st_def)
  have T: "tx_next_sequence tx = tx_base tx + 1 + of_nat ?m" "?b \<le> length st"
      "finished \<noteq> [] \<Longrightarrow> ?b = length st \<and> length st + ?m < 2 ^ 63"
    using assms(2) by (simp_all add: txn_ok_def Let_def st_def)
  have nxt: "er_sequence_number row = of_nat (?b + 1 + ?m)" using T(1) assms(5) by simp
  have le: "?b + 1 + ?m \<le> 2 ^ 63" using T(2,3) st(2) by (cases "finished = []") auto
  have pos: "?b + 1 + ?m < 2 ^ 63"
    using assms(3) le unfolding row_ok_def nxt by (intro sint_positive) auto
  have "?b = length st"
  proof (cases "finished = []")
    case True
    show ?thesis
    proof (rule ccontr)
      assume "?b \<noteq> length st"
      then have lt: "?b < length st" using T(2) by simp
      have "st ! ?b \<in> set st" using lt by simp
      then obtain row' where r: "row' \<in> set rows" "row_in_stream ?t ?a row'" "stored_of_row row' = st ! ?b"
        unfolding st_def table_stream_def by force
      have "er_sequence_number row' = se_sequence_number (st ! ?b)"
        unfolding r(3) [symmetric] by (simp add: stored_of_row_def)
      also have "\<dots> = er_sequence_number row" using stream_ok_number [OF st(1) lt] nxt True by simp
      finally have "row_key row' = row_key row" using r(2) assms(4) by (simp add: row_key_def row_in_stream_def)
      then show False using assms(6) r(1) by blast
    qed
  qed (use T(3) in blast)
  then show "?b = length (table_stream rows ?t ?a)" "length (table_stream rows ?t ?a) + ?m + 1 < 2 ^ 63"
    using pos by (simp_all add: st_def)
qed

text \<open>What committing a transaction does to the table.\<close>

lemma commit_streams:
  assumes "table_ok rows" "txn_ok db rows mine tx finished"
  defines "st \<equiv> table_stream rows (tx_tenant_id tx) (tx_aggregate_id tx)"
  shows "table_stream (rows @ mine) t a = (if t = tx_tenant_id tx \<and> a = tx_aggregate_id tx
      then st @ assign_sequence (current_version st + 1) (map (kept db (tx_aggregate_type tx)) finished) else table_stream rows t a)"
    "finished \<noteq> [] \<Longrightarrow> tx_base tx = current_version st"
    "finished \<noteq> [] \<Longrightarrow> st \<noteq> [] \<Longrightarrow> se_aggregate_type (hd st) = tx_aggregate_type tx"
    "table_ok (rows @ mine)"
proof -
  let ?t = "tx_tenant_id tx" and ?a = "tx_aggregate_id tx" and ?ks = "map (kept db (tx_aggregate_type tx)) finished"
  have st: "stream_ok ?t ?a st" "length st < 2 ^ 63" using assms(1) by (simp_all add: table_ok_def st_def)
  have T: "\<forall>row \<in> set mine. row_in_stream ?t ?a row" "map stored_of_row mine = assign_sequence (tx_base tx + 1) ?ks"
    "finished \<noteq> [] \<Longrightarrow> unat (tx_base tx) = length st \<and> length st + length finished < 2 ^ 63"
    "0 < unat (tx_base tx) \<Longrightarrow> se_aggregate_type (hd st) = tx_aggregate_type tx"
    "\<forall>e \<in> set finished. ue_tenant_id e = ?t \<and> ue_aggregate_id e = ?a"
    using assms(2) by (simp_all add: txn_ok_def Let_def st_def)
  show base: "tx_base tx = current_version st" if "finished \<noteq> []"
  proof -
    have "of_nat (unat (tx_base tx)) = tx_base tx" by simp
    then show ?thesis using T(3) [OF that] current_version_stream_ok [OF st(1)] by simp
  qed
  show ty: "se_aggregate_type (hd st) = tx_aggregate_type tx" if "finished \<noteq> []" "st \<noteq> []"
    using T(3,4) that by simp
  have mine: "table_stream mine ?t ?a = assign_sequence (current_version st + 1) ?ks"
    using table_stream_in(1) [OF T(1)] T(2) base by (cases "finished = []") simp_all
  show eq: "table_stream (rows @ mine) t a = (if t = ?t \<and> a = ?a
      then st @ assign_sequence (current_version st + 1) ?ks else table_stream rows t a)" for t a
    using mine table_stream_in(2) [OF T(1), of t a] by (auto simp: table_stream_append st_def)
  have new: "stream_ok ?t ?a (st @ assign_sequence (current_version st + 1) ?ks)"
  proof (cases "finished = []")
    case False
    show ?thesis by (rule stream_ok_append [OF st(1), where ty = "tx_aggregate_type tx"]) (use T(5) ty False in auto)
  qed (use st in simp)
  have len: "length (st @ assign_sequence (current_version st + 1) ?ks) < 2 ^ 63"
    using st(2) T(3) by (cases "finished = []") auto
  show "table_ok (rows @ mine)"
    unfolding table_ok_def eq using new len assms(1) by (auto simp: table_ok_def)
qed

subsection \<open>All transactions\<close>

definition pg_inv ::
    "('d, 'j) Database \<Rightarrow> 'j StoredEventRow list \<Rightarrow> (nat \<Rightarrow> 'j StoredEventRow list) \<Rightarrow> 'j open_txns \<Rightarrow> bool" where
  "pg_inv db rows pend fl \<longleftrightarrow> table_ok rows \<and>
     (\<forall>k. fl k = None \<longrightarrow> pend k = []) \<and>
     (\<forall>k tx. fl k = Some tx \<longrightarrow> (\<exists>finished. txn_ok db rows (pend k) tx finished)) \<and>
     (\<forall>j k tx tx'. j \<noteq> k \<longrightarrow> fl j = Some tx \<longrightarrow> fl k = Some tx' \<longrightarrow> pend j \<noteq> [] \<longrightarrow> pend k \<noteq> [] \<longrightarrow>
        (tx_tenant_id tx, tx_aggregate_id tx) \<noteq> (tx_tenant_id tx', tx_aggregate_id tx'))"

lemma pg_inv_drop: "pg_inv db rows pend fl \<Longrightarrow> pg_inv db rows (pend(k := [])) (fl(k := None))"
  by (simp add: pg_inv_def)

lemma pg_inv_start:
  assumes "pg_inv db rows pend fl" "txn_ok db rows [] tx []"
  shows "pg_inv db rows (pend(k := [])) (fl(k \<mapsto> tx))"
  using assms unfolding pg_inv_def by auto

lemma pg_inv_insert:
  assumes "pg_inv db rows pend fl" "fl k = Some tx" "txn_ok db rows (pend k) tx finished"
    "tx_tenant_id tx' = tx_tenant_id tx" "tx_aggregate_id tx' = tx_aggregate_id tx"
    "txn_ok db rows (pend k @ [row]) tx' (finished @ [e])" "row_in_stream (tx_tenant_id tx) (tx_aggregate_id tx) row"
    "er_sequence_number row = tx_next_sequence tx"
    "\<forall>row' \<in> (\<Union>j. set (pend j)). row_key row' \<noteq> row_key row" "tx_base tx' = tx_base tx"
  shows "pg_inv db rows (pend(k := pend k @ [row])) (fl(k \<mapsto> tx'))"
proof -
  let ?t = "tx_tenant_id tx" and ?a = "tx_aggregate_id tx"
  have "pend j = []" if j: "j \<noteq> k" "fl j = Some tj" "tx_tenant_id tj = ?t" "tx_aggregate_id tj = ?a" for j tj
  proof (rule ccontr)
    assume ne: "pend j \<noteq> []"
    then have "pend k = []" using assms(1,2) j unfolding pg_inv_def by metis
    then have fin: "finished = []" using txn_ok_length [OF assms(3)] by simp
    obtain fj where fj: "txn_ok db rows (pend j) tj fj" using assms(1) j(2) unfolding pg_inv_def by blast
    have fne: "fj \<noteq> []" using txn_ok_length [OF fj] ne by auto
    have len: "tx_base tj = tx_base tx"
      using txn_base_eq [OF fj fne] txn_base_eq [OF assms(6)] assms(4,5,10) j(3,4) by (simp add: word_unat_eq_iff)
    have "se_sequence_number (stored_of_row (hd (pend j))) = tx_base tj + 1"
    proof -
      have "map stored_of_row (pend j) = assign_sequence (tx_base tj + 1) (map (kept db (tx_aggregate_type tj)) fj)"
        using fj by (simp add: txn_ok_def Let_def)
      then have "stored_of_row (hd (pend j)) = hd (assign_sequence (tx_base tj + 1) (map (kept db (tx_aggregate_type tj)) fj))"
        using ne by (metis hd_map)
      then show ?thesis using fne by (cases fj) (simp_all add: store_event_def)
    qed
    then have "er_sequence_number (hd (pend j)) = tx_base tx + 1"
      using len by (simp add: stored_of_row_def)
    moreover have "row_in_stream ?t ?a (hd (pend j))" using fj ne j(3,4) by (simp add: txn_ok_def Let_def)
    moreover have "tx_next_sequence tx = tx_base tx + 1" using assms(3) fin by (simp add: txn_ok_def Let_def)
    ultimately have "row_key (hd (pend j)) = row_key row"
      using assms(7,8) by (simp add: row_key_def row_in_stream_def)
    then show False using assms(9) ne by (meson UN_I UNIV_I hd_in_set)
  qed
  then show ?thesis
    using assms(1,4-6) unfolding pg_inv_def by (auto split: if_splits)
qed

lemma txn_ok_other:
  assumes "table_ok rows" "txn_ok db rows mine tx finished" "txn_ok db rows mine' tx' finished'"
    "mine = [] \<or> mine' = [] \<or> (tx_tenant_id tx', tx_aggregate_id tx') \<noteq> (tx_tenant_id tx, tx_aggregate_id tx)"
  shows "txn_ok db (rows @ mine) mine' tx' finished'"
proof -
  let ?st = "table_stream rows (tx_tenant_id tx') (tx_aggregate_id tx')"
  let ?st' = "table_stream (rows @ mine) (tx_tenant_id tx') (tx_aggregate_id tx')"
  have "?st' = ?st \<or> finished' = []"
    using assms(4) commit_streams(1) [OF assms(1,2)] txn_ok_length [OF assms(2)] txn_ok_length [OF assms(3)]
    by (auto split: if_splits)
  moreover obtain new where "?st' = ?st @ new" by (metis table_stream_append)
  ultimately show ?thesis
    using assms(3) unfolding txn_ok_def Let_def by (auto simp: hd_append)
qed

lemma pg_inv_commit:
  assumes "pg_inv db rows pend fl" "fl k = Some tx"
  shows "pg_inv db (rows @ pend k) (pend(k := [])) (fl(k := None))"
proof -
  obtain finished where f: "txn_ok db rows (pend k) tx finished" and t: "table_ok rows"
    using assms unfolding pg_inv_def by blast
  have "\<exists>fj. txn_ok db (rows @ pend k) (pend j) tj fj" if j: "j \<noteq> k" "fl j = Some tj" for j tj
  proof -
    obtain fj where fj: "txn_ok db rows (pend j) tj fj" using assms(1) j(2) unfolding pg_inv_def by blast
    have "pend k = [] \<or> pend j = [] \<or> (tx_tenant_id tj, tx_aggregate_id tj) \<noteq> (tx_tenant_id tx, tx_aggregate_id tx)"
      using assms j unfolding pg_inv_def by metis
    then show ?thesis using txn_ok_other [OF t f fj] by blast
  qed
  then show ?thesis
    using assms(1) commit_streams(4) [OF t f] unfolding pg_inv_def by auto
qed

subsection \<open>Sequential histories\<close>

text \<open>A history of appends to the in-memory store, all of them successful, that gives the streams of the table.\<close>

definition all_succeed :: "('j UncommittedEvent list \<times> ExpectedVersion) list \<Rightarrow> bool" where
  "all_succeed ops \<longleftrightarrow> (\<forall>i < length ops.
     is_ok (snd (append_events (store_run store_new (take i ops)) (fst (ops ! i)) (snd (ops ! i)))))"

definition history_of :: "('j UncommittedEvent list \<times> ExpectedVersion) list \<Rightarrow> 'j StoredEventRow list \<Rightarrow> bool" where
  "history_of ops rows \<longleftrightarrow> all_succeed ops \<and> (\<forall>t a. stream_of (store_run store_new ops) t a = table_stream rows t a)"

lemma all_succeed_snoc:
  assumes "all_succeed ops" "is_ok (snd (append_events (store_run store_new ops) us ev))"
  shows "all_succeed (ops @ [(us, ev)])"
  using assms unfolding all_succeed_def by (auto simp: nth_append less_Suc_eq)

lemma store_run_unpoisoned: "\<not> st_poisoned (store_run store_new ops)"
proof (induction ops rule: rev_induct)
  case Nil
  then show ?case by (simp add: store_run_def store_new_def)
next
  case (snoc x ops)
  obtain us ev where x: "x = (us, ev)" by fastforce
  have "st_poisoned (fst (append_events s us ev)) = st_poisoned s" for s :: "'a InMemoryEventStore"
    by (cases us) (auto simp: append_events_def append_locked_def Let_def split: sum.splits if_splits)
  then show ?case using snoc by (simp add: store_run_def x)
qed

text \<open>An append that the in-memory store accepts.\<close>

lemma append_events_accepts:
  assumes "us \<noteq> []" "\<forall>u \<in> set us. ue_tenant_id u = t \<and> ue_aggregate_id u = a \<and> ue_aggregate_type u = ty"
    "\<not> st_poisoned s" "expected_matches ev (current_version (stream_of s t a))"
    "stream_of s t a \<noteq> [] \<Longrightarrow> se_aggregate_type (hd (stream_of s t a)) = ty"
  shows "\<exists>s'. append_events s us ev = (s', Inr (assign_sequence (current_version (stream_of s t a) + 1) us))"
proof -
  obtain u us' where us: "us = u # us'" using assms(1) by (cases us) auto
  have u: "ue_tenant_id u = t" "ue_aggregate_id u = a" "ue_aggregate_type u = ty" using assms(2) us by auto
  have "check_all (check_batch_event t a ty) us = Inr ()" using assms(2) by (simp only: check_batch_ok)
  then show ?thesis
    using assms(3-5) u
    by (auto simp: append_events_def us append_locked_def Let_def stream_of_def simp del: check_all_from.simps)
qed

lemma history_commit:
  assumes "history_of ops rows" "table_ok rows" "txn_ok db rows mine tx finished"
  shows "\<exists>ops'. history_of ops' (rows @ mine) \<and>
    (finished \<noteq> [] \<longrightarrow> ops' = ops @ [(map (kept db (tx_aggregate_type tx)) finished, tx_expected tx)])"
proof (cases "finished = []")
  case True
  then have "mine = []" using txn_ok_length [OF assms(3)] by simp
  then show ?thesis using assms(1) True by auto
next
  case False
  let ?t = "tx_tenant_id tx" and ?a = "tx_aggregate_id tx" and ?ks = "map (kept db (tx_aggregate_type tx)) finished"
  let ?s = "store_run store_new ops"
  note C = commit_streams [OF assms(2,3)]
  have st: "stream_of ?s t a = table_stream rows t a" for t a using assms(1) by (simp add: history_of_def)
  have T: "\<forall>e \<in> set finished. ue_tenant_id e = ?t \<and> ue_aggregate_id e = ?a" "expected_matches (tx_expected tx) (tx_base tx)"
    using assms(3) by (simp_all add: txn_ok_def Let_def)
  have "\<exists>s'. append_events ?s ?ks (tx_expected tx) = (s', Inr (assign_sequence (current_version (stream_of ?s ?t ?a) + 1) ?ks))"
    by (rule append_events_accepts [where ty = "tx_aggregate_type tx"])
      (use False T C(2,3) st store_run_unpoisoned in auto)
  then obtain s' where s': "append_events ?s ?ks (tx_expected tx) = (s', Inr (assign_sequence (current_version (stream_of ?s ?t ?a) + 1) ?ks))"
    by blast
  have hd: "ue_tenant_id (hd ?ks) = ?t" "ue_aggregate_id (hd ?ks) = ?a" using T(1) False by (simp_all add: hd_map)
  have "stream_of s' t a = table_stream (rows @ mine) t a" for t a
    using in_memory_store.append_stream [OF s', of t a] False unfolding hd C(1) st by auto
  moreover have "store_run store_new (ops @ [(?ks, tx_expected tx)]) = s'" using s' by (simp add: store_run_def)
  moreover have "all_succeed (ops @ [(?ks, tx_expected tx)])"
    using assms(1) s' by (intro all_succeed_snoc) (simp_all add: history_of_def)
  ultimately show ?thesis unfolding history_of_def by auto
qed

subsection \<open>Over a database\<close>

context event_database
begin

lemma dropped_effect: "committed (dropped db d k) = committed d" "pending (dropped db d k) = (pending d)(k := [])"
  using rollback_effect [of d k "dropped db d k" "snd (db_rollback db d k)"] by (simp_all add: dropped_def)

lemma rolled_back_effect:
  assumes "rolled_back db d k err = (d', r)"
  shows "committed d' = committed d" "pending d' = (pending d)(k := [])" "\<not> is_ok r"
  using assms rollback_effect by (fastforce simp: rolled_back_def split: prod.splits sum.splits)+

lemma check_stream_version_reads:
  assumes "check_stream_version db d k t a = Inr (v, ty)" "table_ok (committed d)" "pending d k = []"
  shows "v = current_version (table_stream (committed d) t a)"
    "ty = (if table_stream (committed d) t a = [] then None else Some (se_aggregate_type (hd (table_stream (committed d) t a))))"
proof -
  let ?st = "table_stream (committed d) t a"
  obtain rows where rows: "db_read db d (Some k) = Inr rows" "v = max_sequence (filter (row_in_stream t a) rows)"
      "ty = (if filter (row_in_stream t a) rows = [] then None else Some (db_max_text db (map er_aggregate_type (filter (row_in_stream t a) rows))))"
    using assms(1) by (cases "db_read db d (Some k)") (auto simp: check_stream_version_def Let_def)
  have m: "mset rows = mset (committed d)" using read_transaction [OF rows(1)] assms(3) by simp
  show "v = current_version ?st" unfolding rows(2) by (rule max_sequence_stream [OF assms(2) m])
  have mf: "mset (filter (row_in_stream t a) rows) = mset (filter (row_in_stream t a) (committed d))" using m by (simp add: mset_filter)
  have e: "filter (row_in_stream t a) rows = [] \<longleftrightarrow> ?st = []"
    unfolding table_stream_def length_0_conv [symmetric] length_map mset_eq_length [OF mf] ..
  have f: "set (filter (row_in_stream t a) rows) = set (filter (row_in_stream t a) (committed d))" using mset_eq_setD [OF m] by simp
  have types: "er_aggregate_type row = se_aggregate_type (hd ?st)" if "row \<in> set (filter (row_in_stream t a) (committed d))" for row
  proof -
    have "stored_of_row row \<in> set ?st" using that by (simp add: table_stream_def)
    then have "se_aggregate_type (stored_of_row row) = se_aggregate_type (hd ?st)"
      using assms(2) unfolding table_ok_def stream_ok_def by blast
    then show ?thesis by (simp add: stored_of_row_def)
  qed
  show "ty = (if ?st = [] then None else Some (se_aggregate_type (hd ?st)))"
  proof (cases "?st = []")
    case True
    then show ?thesis using rows(3) e by simp
  next
    case False
    then have ne: "filter (row_in_stream t a) rows \<noteq> []" using e by simp
    have "db_max_text db (map er_aggregate_type (filter (row_in_stream t a) rows)) \<in> er_aggregate_type ` set (filter (row_in_stream t a) rows)"
      using max_text_member [of "map er_aggregate_type (filter (row_in_stream t a) rows)"] ne by (simp only: map_is_Nil_conv set_map not_False_eq_True)
    then obtain row where row: "db_max_text db (map er_aggregate_type (filter (row_in_stream t a) rows)) = er_aggregate_type row"
        "row \<in> set (filter (row_in_stream t a) rows)" by (rule imageE)
    have "row \<in> set (filter (row_in_stream t a) (committed d))" using row(2) unfolding f .
    note row(1) [unfolded types [OF this]]
    then show ?thesis unfolding rows(3) if_not_P [OF ne] if_not_P [OF False] by (rule arg_cong)
  qed
qed

lemma append_start_effect:
  assumes "append_start shw db d k t a events ev = (d', r)" "pending d k = []"
  shows "committed d' = committed d" "pending d' = pending d"
proof -
  have same: "(pending d)(k := []) = pending d" using assms(2) by auto
  have "committed d' = committed d \<and> pending d' = (pending d)(k := [])"
  proof (cases "append_checks shw t a events")
    case (Inl e)
    then show ?thesis using assms same by (simp add: append_start_def)
  next
    case (Inr u)
    obtain d1 b where b: "db_begin db d k = (d1, b)" by fastforce
    note B = begin_effect [OF b]
    have "committed d' = committed d1 \<and> pending d' = (pending d1)(k := []) \<or> d' = d1"
      using assms(1) Inr b rolled_back_effect dropped_effect
      by (auto simp: append_start_def Let_def split: sum.splits prod.splits if_splits option.splits)
    then show ?thesis using B by auto
  qed
  then show "committed d' = committed d" "pending d' = pending d" using same by simp_all
qed

lemma append_start_txn:
  assumes "append_start shw db d k t a events ev = (d', Inr tx)" "pending d k = []" "table_ok (committed d)"
  shows "txn_ok db (committed d) [] tx []" "tx_tenant_id tx = t" "tx_aggregate_id tx = a" "tx_expected tx = ev" "tx_batch tx = events"
    "tx_aggregate_type tx = ue_aggregate_type (hd events)" "tx_base tx = current_version (table_stream (committed d) t a)"
proof -
  let ?st = "table_stream (committed d) t a"
  note E = append_start_effect [OF assms(1,2)]
  have nb: "rolled_back db d1 k err \<noteq> (d', Inr tx)" for d1 err using rolled_back_effect(3) by fastforce
  obtain d1 v ty where *: "db_begin db d k = (d1, Inr ())" "check_stream_version db d1 k t a = Inr (v, ty)"
      "case ty of Some x \<Rightarrow> x = ue_aggregate_type (hd events) | None \<Rightarrow> True" "expected_matches ev v"
      "tx = \<lparr> tx_tenant_id = t, tx_aggregate_id = a, tx_aggregate_type = ue_aggregate_type (hd events), tx_expected = ev, tx_batch = events,
        tx_base = v, tx_next_sequence = v + 1, tx_stored_events = [], tx_events = events \<rparr>"
    using assms(1) nb
    by (auto simp: append_start_def Let_def split: sum.splits prod.splits if_splits option.splits)
  note B = begin_effect [OF *(1)]
  have "table_ok (committed d1)" "pending d1 k = []" using B assms(3) by simp_all
  note V = check_stream_version_reads [OF *(2) this]
  have st: "stream_ok t a ?st" "length ?st < 2 ^ 63" using assms(3) by (simp_all add: table_ok_def)
  have v: "unat v = length ?st"
    using V(1) B current_version_stream_ok [OF st(1)] st(2) by (simp add: unsigned_of_nat take_bit_nat_eq_self)
  show "tx_base tx = current_version ?st" using V(1) B *(5) by simp
  show "txn_ok db (committed d) [] tx []"
    using v V(2) B *(3,4) unfolding *(5) txn_ok_def Let_def by (cases "?st = []") simp_all
qed (use assms(1) in \<open>auto simp: append_start_def Let_def rolled_back_def split: sum.splits prod.splits if_splits option.splits\<close>)

lemma append_insert_effect:
  assumes "append_insert db d k tx e = (d', Inr tx')"
  shows "committed d' = committed d" "pending d' = (pending d)(k := pending d k @ [event_row db d tx e])"
    "row_ok (event_row db d tx e)"
    "\<forall>row' \<in> set (committed d) \<union> (\<Union>j. set (pending d j)). row_key row' \<noteq> row_key (event_row db d tx e)"
    "ue_tenant_id e = tx_tenant_id tx" "ue_aggregate_id e = tx_aggregate_id tx"
    "tx' = tx\<lparr>tx_stored_events := tx_stored_events tx @ [store_event (tx_next_sequence tx) e],
       tx_next_sequence := tx_next_sequence tx + 1, tx_events := tl (tx_events tx)\<rparr>"
proof -
  have nb: "rolled_back db d1 k err \<noteq> (d', Inr tx')" for d1 err using rolled_back_effect(3) by fastforce
  have i: "db_insert db d k (event_row db d tx e) = (d', Inr ())" "ue_tenant_id e = tx_tenant_id tx" "ue_aggregate_id e = tx_aggregate_id tx"
    "tx' = tx\<lparr>tx_stored_events := tx_stored_events tx @ [store_event (tx_next_sequence tx) e],
       tx_next_sequence := tx_next_sequence tx + 1, tx_events := tl (tx_events tx)\<rparr>"
    using assms nb by (auto simp: append_insert_def split: if_splits prod.splits sum.splits)
  note I = insert_ok [OF i(1)]
  from I show "committed d' = committed d" "pending d' = (pending d)(k := pending d k @ [event_row db d tx e])"
    "row_ok (event_row db d tx e)"
    "\<forall>row' \<in> set (committed d) \<union> (\<Union>j. set (pending d j)). row_key row' \<noteq> row_key (event_row db d tx e)"
    by blast+
qed (use assms rolled_back_effect(3) in \<open>fastforce simp: append_insert_def split: if_splits prod.splits sum.splits\<close>)+

lemma append_insert_failed:
  assumes "append_insert db d k tx e = (d', Inl err)"
  shows "committed d' = committed d" "pending d' = (pending d)(k := [])"
proof -
  obtain d1 r where i: "db_insert db d k (event_row db d tx e) = (d1, r)" by fastforce
  have "committed d' = committed d \<and> pending d' = (pending d)(k := [])"
  proof (cases "ue_tenant_id e \<noteq> tx_tenant_id tx \<or> ue_aggregate_id e \<noteq> tx_aggregate_id tx")
    case True
    from rolled_back_effect [OF assms [unfolded append_insert_def if_P [OF True]]] show ?thesis by simp
  next
    case False
    then obtain x where x: "r = Inl x" "d' = dropped db d1 k" using assms i by (auto simp: append_insert_def split: sum.splits)
    show ?thesis using insert_failed [OF i [unfolded x(1)]] dropped_effect [of d1 k] x(2) by (auto simp: fun_eq_iff)
  qed
  then show "committed d' = committed d" "pending d' = (pending d)(k := [])" by simp_all
qed

lemma append_insert_txn:
  assumes "append_insert db d k tx e = (d', Inr tx')" "table_ok (committed d)" "txn_ok db (committed d) (pending d k) tx finished"
    "tx_events tx = e # es"
  shows "txn_ok db (committed d) (pending d k @ [event_row db d tx e]) tx' (finished @ [e])"
proof -
  let ?row = "event_row db d tx e" and ?t = "tx_tenant_id tx" and ?a = "tx_aggregate_id tx"
  note I = append_insert_effect [OF assms(1)]
  have row: "row_in_stream ?t ?a ?row" "er_sequence_number ?row = tx_next_sequence tx"
    by (simp_all add: row_in_stream_def event_row_def)
  note C = insert_continues [OF assms(2,3) I(3) row]
  have C1: "unat (tx_base tx) = length (table_stream (committed d) ?t ?a)"
      "length (table_stream (committed d) ?t ?a) + length finished + 1 < 2 ^ 63" using C I(4) by auto
  have stored: "stored_of_row ?row = store_event (tx_next_sequence tx) (kept db (tx_aggregate_type tx) e)"
    using I(5,6) by (simp add: stored_of_row_def event_row_def store_event_def kept_def)
  show ?thesis
    using assms(3,4) C1 row I(5,6) stored unfolding I(7) txn_ok_def Let_def
    by (auto simp: assign_sequence_snoc)
qed

text \<open>Every step keeps the invariant, and the streams of the table have a sequential history.\<close>

lemma pg_step_inv:
  assumes "pg_step shw db (d, fl) (d', fl')" "pg_inv db (committed d) (pending d) fl" "history_of ops (committed d)"
  shows "pg_inv db (committed d') (pending d') fl' \<and> (\<exists>ops'. history_of ops' (committed d')) \<and>
    (\<exists>rows. committed d' = committed d @ rows)"
proof -
  have t: "table_ok (committed d)" using assms(2) by (simp add: pg_inv_def)
  have closed: "pending d k = []" if "fl k = None" for k using assms(2) that by (simp add: pg_inv_def)
  have opened: "\<exists>finished. txn_ok db (committed d) (pending d k) tx finished" if "fl k = Some tx" for k tx
    using assms(2) that unfolding pg_inv_def by blast
  show ?thesis
    using assms(1)
  proof (cases rule: pg_step.cases)
    case (pg_start k events t a ev tx)
    note E = append_start_effect [OF pg_start(4) closed [OF pg_start(2)]]
    have "pg_inv db (committed d) ((pending d)(k := [])) (fl(k \<mapsto> tx))"
      by (rule pg_inv_start [OF assms(2) append_start_txn(1) [OF pg_start(4) closed [OF pg_start(2)] \<open>table_ok (committed d)\<close>]])
    moreover have "(pending d)(k := []) = pending d" using closed [OF pg_start(2)] by auto
    ultimately show ?thesis using E assms(3) pg_start(1) by auto
  next
    case (pg_refused k events t a ev err)
    note E = append_start_effect [OF pg_refused(4) closed [OF pg_refused(2)]]
    then show ?thesis using assms(2,3) pg_refused(1) by auto
  next
    case (pg_insert k tx e es tx')
    obtain finished where f: "txn_ok db (committed d) (pending d k) tx finished" using opened [OF pg_insert(2)] by blast
    note I = append_insert_effect [OF pg_insert(4)]
    have "pg_inv db (committed d) ((pending d)(k := pending d k @ [event_row db d tx e])) (fl(k \<mapsto> tx'))"
      by (rule pg_inv_insert [OF assms(2) pg_insert(2) f _ _ append_insert_txn [OF pg_insert(4) t f pg_insert(3)]])
        (use I in \<open>auto simp: row_in_stream_def event_row_def\<close>)
    then show ?thesis using I(1,2) assms(3) pg_insert(1) by auto
  next
    case (pg_insert_failed k tx e es err)
    then show ?thesis using append_insert_failed [OF pg_insert_failed(4)] pg_inv_drop [OF assms(2)] assms(3) by auto
  next
    case (pg_commit k tx r)
    obtain finished where f: "txn_ok db (committed d) (pending d k) tx finished" using opened [OF pg_commit(2)] by blast
    obtain d1 c where c: "db_commit db d k = (d1, c)" by fastforce
    have "d' = d1" using pg_commit(4) c by (auto simp: append_commit_def split: sum.splits)
    then have "committed d' \<in> {committed d, committed d @ pending d k}" "pending d' = (pending d)(k := [])"
      using commit_ok [of d k d1] commit_unclear [of d k d1] c by (cases c; auto)+
    then show ?thesis
      using pg_inv_drop [OF assms(2), of k] pg_inv_commit [OF assms(2) pg_commit(2)] history_commit [OF assms(3) t f]
        assms(3) pg_commit(1) by auto
  next
    case (pg_lost k tx)
    then show ?thesis using dropped_effect [of d k] pg_inv_drop [OF assms(2), of k] assms(3) by auto
  qed
qed

lemma pg_steps_inv:
  assumes "(pg_step shw db)\<^sup>*\<^sup>* x y" "pg_inv db (committed (fst x)) (pending (fst x)) (snd x)" "history_of ops (committed (fst x))"
  shows "pg_inv db (committed (fst y)) (pending (fst y)) (snd y) \<and> (\<exists>ops'. history_of ops' (committed (fst y))) \<and>
    (\<exists>rows. committed (fst y) = committed (fst x) @ rows)"
  using assms
proof (induction rule: rtranclp_induct)
  case base
  then show ?case by auto
next
  case (step y z)
  then obtain ops' rows where y: "pg_inv db (committed (fst y)) (pending (fst y)) (snd y)" "history_of ops' (committed (fst y))"
    "committed (fst y) = committed (fst x) @ rows" by blast
  from pg_step_inv [OF _ y(1,2), of shw "fst z" "snd z"] step(2) y(3) show ?case by auto
qed

text \<open>A commit that succeeds: the batch was decided on the version that the stream still has.\<close>

lemma commit_spec:
  assumes "pg_inv db (committed d) (pending d) fl" "fl k = Some tx" "tx_events tx = []" "tx_batch tx \<noteq> []"
    "append_commit db d k tx = (d', Inr es)"
  defines "st \<equiv> table_stream (committed d) (tx_tenant_id tx) (tx_aggregate_id tx)"
  shows "expected_matches (tx_expected tx) (current_version st)"
    "es = assign_sequence (current_version st + 1) (tx_batch tx)"
    "table_stream (committed d') t a = (if t = tx_tenant_id tx \<and> a = tx_aggregate_id tx
      then st @ assign_sequence (current_version st + 1) (map (kept db (tx_aggregate_type tx)) (tx_batch tx))
      else table_stream (committed d) t a)"
proof -
  obtain finished where f: "txn_ok db (committed d) (pending d k) tx finished" and tb: "table_ok (committed d)"
    using assms(1,2) unfolding pg_inv_def by blast
  have fin: "finished = tx_batch tx" "tx_stored_events tx = assign_sequence (tx_base tx + 1) finished"
      "expected_matches (tx_expected tx) (tx_base tx)"
    using f assms(3) by (simp_all add: txn_ok_def Let_def)
  note C = commit_streams [OF tb f, folded st_def]
  have b: "tx_base tx = current_version st" using C(2) fin(1) assms(4) by simp
  obtain c: "db_commit db d k = (d', Inr ())" "es = tx_stored_events tx"
    using assms(5) by (auto simp: append_commit_def split: prod.splits sum.splits)
  show "expected_matches (tx_expected tx) (current_version st)" "es = assign_sequence (current_version st + 1) (tx_batch tx)"
    using fin b c(2) by simp_all
  show "table_stream (committed d') t a = (if t = tx_tenant_id tx \<and> a = tx_aggregate_id tx
      then st @ assign_sequence (current_version st + 1) (map (kept db (tx_aggregate_type tx)) (tx_batch tx))
      else table_stream (committed d) t a)"
    using commit_ok [OF c(1)] C(1) fin(1) by simp
qed

text \<open>The function of the source runs through the steps.\<close>

lemma append_inserts_steps:
  assumes "append_inserts db k events d tx = (d', Inr es)" "fl k = Some tx" "tx_events tx = events"
  shows "\<exists>d1 tx1. (pg_step shw db)\<^sup>*\<^sup>* (d, fl) (d1, fl(k \<mapsto> tx1)) \<and> append_commit db d1 k tx1 = (d', Inr es) \<and>
    committed d1 = committed d \<and> tx_events tx1 = [] \<and> tx_batch tx1 = tx_batch tx \<and> tx_expected tx1 = tx_expected tx \<and>
    tx_tenant_id tx1 = tx_tenant_id tx \<and> tx_aggregate_id tx1 = tx_aggregate_id tx \<and> tx_aggregate_type tx1 = tx_aggregate_type tx"
  using assms
proof (induction events arbitrary: d tx fl)
  case Nil
  then have "fl(k \<mapsto> tx) = fl" by auto
  then show ?case using Nil by (intro exI [of _ d] exI [of _ tx]) auto
next
  case (Cons e events)
  obtain d1 tx1 where i: "append_insert db d k tx e = (d1, Inr tx1)" "append_inserts db k events d1 tx1 = (d', Inr es)"
    using Cons.prems(1) by (auto split: prod.splits sum.splits)
  note I = append_insert_effect [OF i(1)]
  have t1: "tx_events tx1 = events" using I(7) Cons.prems(3) by simp
  have s: "pg_step shw db (d, fl) (d1, fl(k \<mapsto> tx1))" by (rule pg_step.pg_insert [where fl = fl and k = k, OF Cons.prems(2,3) i(1)])
  have "(fl(k \<mapsto> tx1)) k = Some tx1" by simp
  from Cons.IH [where fl = "fl(k \<mapsto> tx1)", OF i(2) this t1, unfolded fun_upd_upd] obtain d2 tx2 where
    2: "(pg_step shw db)\<^sup>*\<^sup>* (d1, fl(k \<mapsto> tx1)) (d2, fl(k \<mapsto> tx2))" "append_commit db d2 k tx2 = (d', Inr es)"
      "committed d2 = committed d1" "tx_events tx2 = []" "tx_batch tx2 = tx_batch tx1" "tx_expected tx2 = tx_expected tx1"
      "tx_tenant_id tx2 = tx_tenant_id tx1" "tx_aggregate_id tx2 = tx_aggregate_id tx1" "tx_aggregate_type tx2 = tx_aggregate_type tx1"
    by blast
  have "(pg_step shw db)\<^sup>*\<^sup>* (d, fl) (d2, fl(k \<mapsto> tx2))" by (rule converse_rtranclp_into_rtranclp [OF s 2(1)])
  then show ?case using I(1,7) 2(2-9) by (intro exI [of _ d2] exI [of _ tx2] conjI) (simp_all del: fun_upd_apply)
qed

lemma pg_inv_initial:
  assumes "committed d = []" "\<forall>k. pending d k = []"
  shows "pg_inv db (committed d) (pending d) Map.empty" "history_of [] (committed d)"
  using assms by (simp_all add: pg_inv_def table_ok_def table_stream_def history_of_def all_succeed_def store_run_def)

lemma load_committed:
  assumes "table_ok (committed d)" "pg_load_stream db d t a = Inr es"
  shows "es = table_stream (committed d) t a"
  using assms(2) ordered_rows_stream [OF assms(1) read_committed]
  by (cases "db_read db d None") (auto simp: pg_load_stream_def)

lemma reachable_inv:
  assumes "committed d0 = []" "\<forall>k. pending d0 k = []" "(pg_step shw db)\<^sup>*\<^sup>* (d0, Map.empty) (d, fl)"
  shows "pg_inv db (committed d) (pending d) fl" "\<exists>ops. history_of ops (committed d)" "table_ok (committed d)"
proof -
  show i: "pg_inv db (committed d) (pending d) fl" "\<exists>ops. history_of ops (committed d)"
    using pg_steps_inv [OF assms(3)] pg_inv_initial [OF assms(1,2)] by auto
  show "table_ok (committed d)" using i(1) by (simp add: pg_inv_def)
qed

lemma linearizable:
  assumes "committed d0 = []" "\<forall>k. pending d0 k = []" "(pg_step shw db)\<^sup>*\<^sup>* (d0, Map.empty) (d, fl)"
  shows "(\<exists>ops. all_succeed ops \<and> (\<forall>t a. stream_of (store_run store_new ops) t a = table_stream (committed d) t a)) \<and>
    (\<forall>t a. stream_ok t a (table_stream (committed d) t a)) \<and>
    (\<forall>t a es. pg_load_stream db d t a = Inr es \<longrightarrow> es = table_stream (committed d) t a)"
  using reachable_inv(2,3) [OF assms] load_committed [OF reachable_inv(3) [OF assms]]
  unfolding history_of_def table_ok_def by blast

lemma append_spec:
  assumes "pg_inv db (committed d) (pending d) fl" "fl k = None" "events \<noteq> []" "history_of ops (committed d)"
    "pg_append_events shw db d k t a events ev = (d', Inr es)"
  defines "st \<equiv> table_stream (committed d) t a"
  shows "expected_matches ev (current_version st)" "es = assign_sequence (current_version st + 1) events"
    "table_stream (committed d') t' a' = (if t' = t \<and> a' = a
      then st @ assign_sequence (current_version st + 1) (map (kept db (ue_aggregate_type (hd events))) events)
      else table_stream (committed d) t' a')"
proof -
  obtain d1 tx where s: "append_start shw db d k t a events ev = (d1, Inr tx)" "append_inserts db k events d1 tx = (d', Inr es)"
    using assms(3,5) by (auto simp: pg_append_events_def split: prod.splits sum.splits)
  have p: "pending d k = []" "table_ok (committed d)" using assms(1,2) by (simp_all add: pg_inv_def)
  note T = append_start_txn [OF s(1) p]
  have st1: "pg_step shw db (d, fl) (d1, fl(k \<mapsto> tx))" by (rule pg_start [where fl = fl and k = k, OF assms(2,3) s(1)])
  note I1 = pg_step_inv [OF st1 assms(1,4)]
  obtain ops1 where o1: "history_of ops1 (committed d1)" using I1 by blast
  have ev1: "tx_events tx = events" using T(1,5) by (simp add: txn_ok_def Let_def)
  have "(fl(k \<mapsto> tx)) k = Some tx" by simp
  from append_inserts_steps [where fl = "fl(k \<mapsto> tx)" and shw = shw, OF s(2) this ev1, unfolded fun_upd_upd] obtain d2 tx2 where
    2: "(pg_step shw db)\<^sup>*\<^sup>* (d1, fl(k \<mapsto> tx)) (d2, fl(k \<mapsto> tx2))" "append_commit db d2 k tx2 = (d', Inr es)"
      "committed d2 = committed d1" "tx_events tx2 = []" "tx_batch tx2 = events" "tx_expected tx2 = ev"
      "tx_tenant_id tx2 = t" "tx_aggregate_id tx2 = a" "tx_aggregate_type tx2 = ue_aggregate_type (hd events)"
    using T by auto
  have inv2: "pg_inv db (committed d2) (pending d2) (fl(k \<mapsto> tx2))"
    using pg_steps_inv [OF 2(1)] I1 o1 by simp
  have same: "committed d2 = committed d" using 2(3) append_start_effect(1) [OF s(1) p(1)] by simp
  have ne: "tx_batch tx2 \<noteq> []" using assms(3) 2(5) by simp
  have k2: "(fl(k \<mapsto> tx2)) k = Some tx2" by simp
  note C = commit_spec [where fl = "fl(k \<mapsto> tx2)", OF inv2 k2 2(4) ne 2(2), unfolded 2(5-9) same, folded st_def]
  show "expected_matches ev (current_version st)" "es = assign_sequence (current_version st + 1) events"
    by (fact C(1), fact C(2))
  show "table_stream (committed d') t' a' = (if t' = t \<and> a' = a
      then st @ assign_sequence (current_version st + 1) (map (kept db (ue_aggregate_type (hd events))) events)
      else table_stream (committed d) t' a')" by (fact C(3))
qed

lemma append_spec_type:
  assumes "pg_inv db (committed d) (pending d) fl" "fl k = None" "events \<noteq> []"
    "pg_append_events shw db d k t a events ev = (d', Inr es)" "table_stream (committed d) t a \<noteq> []"
  shows "se_aggregate_type (hd (table_stream (committed d) t a)) = ue_aggregate_type (hd events)"
proof -
  obtain d1 tx where s: "append_start shw db d k t a events ev = (d1, Inr tx)"
    using assms(3,4) by (auto simp: pg_append_events_def split: prod.splits sum.splits)
  have p: "pending d k = []" "table_ok (committed d)" using assms(1,2) by (simp_all add: pg_inv_def)
  note T = append_start_txn [OF s p]
  have "tx_base tx = current_version (table_stream (committed d) t a)"
    by (rule T(7))
  moreover have "stream_ok t a (table_stream (committed d) t a)" "length (table_stream (committed d) t a) < 2 ^ 63"
    using p(2) by (simp_all add: table_ok_def)
  ultimately have "0 < unat (tx_base tx)"
    using assms(5) by (simp add: current_version_stream_ok unsigned_of_nat take_bit_nat_eq_self)
  then show ?thesis using T(1,2,3,6) by (simp add: txn_ok_def Let_def)
qed

lemma kept_exact:
  assumes "ue_aggregate_type e = ty" "1000 dvd ue_occurred_at e"
  shows "kept db ty e = e"
  using assms timestamp_exact by (simp add: kept_def)

end

subsection \<open>Properties\<close>


text \<open>C5: optimistic concurrency holds at the commit.  When an append in flight commits, whatever was committed
  since it read the version of its stream, its expectation holds of the stream as it is now; the answer is the batch,
  numbered from the version the stream has now; the stream grows by what is kept of the batch and no other stream
  changes.  For a batch of one aggregate type with times of whole microseconds what is kept is the answer.\<close>

theorem postgres_commit_current:
  assumes "event_database db committed pending" "committed d0 = []" "\<forall>k. pending d0 k = []"
    "(pg_step shw db)\<^sup>*\<^sup>* (d0, Map.empty) (d, fl)" "fl k = Some tx" "tx_events tx = []" "tx_batch tx \<noteq> []"
    "append_commit db d k tx = (d', Inr es)"
  shows "let st = table_stream (committed d) (tx_tenant_id tx) (tx_aggregate_id tx);
             ks = assign_sequence (current_version st + 1) (map (kept db (tx_aggregate_type tx)) (tx_batch tx))
    in expected_matches (tx_expected tx) (current_version st) \<and>
      es = assign_sequence (current_version st + 1) (tx_batch tx) \<and>
      (\<forall>t a. table_stream (committed d') t a =
        (if t = tx_tenant_id tx \<and> a = tx_aggregate_id tx then st @ ks else table_stream (committed d) t a)) \<and>
      ((\<forall>e \<in> set (tx_batch tx). ue_aggregate_type e = tx_aggregate_type tx \<and> 1000 dvd ue_occurred_at e) \<longrightarrow> ks = es)"
proof -
  note C = event_database.commit_spec [OF assms(1) event_database.reachable_inv(1) [OF assms(1-4)] assms(5-8)]
  have "map (kept db (tx_aggregate_type tx)) (tx_batch tx) = tx_batch tx"
    if "\<forall>e \<in> set (tx_batch tx). ue_aggregate_type e = tx_aggregate_type tx \<and> 1000 dvd ue_occurred_at e"
    using that event_database.kept_exact [OF assms(1)] by (intro map_idI) blast
  then show ?thesis using C by (simp add: Let_def)
qed

text \<open>An append that runs while others are in flight but stand still does what the in-memory store does.  If
  the two stores hold the same streams and the persistent one answers with events, then for a batch of one stream and
  type with times of whole microseconds the in-memory store answers with the same events, and the stores hold the
  same streams again.\<close>

theorem postgres_append_refines:
  assumes "event_database db committed pending" "committed d0 = []" "\<forall>k. pending d0 k = []"
    "(pg_step shw db)\<^sup>*\<^sup>* (d0, Map.empty) (d, fl)" "fl k = None"
    "\<forall>t a. stream_of s t a = table_stream (committed d) t a" "\<not> st_poisoned s"
    "batch_ok us" "\<forall>u \<in> set us. 1000 dvd ue_occurred_at u" "us \<noteq> []"
    "pg_append shw True db d k us ev = (d', Inr es)"
  shows "\<exists>s'. append_events s us ev = (s', Inr es) \<and> (\<forall>t a. stream_of s' t a = table_stream (committed d') t a)"
proof -
  let ?t = "ue_tenant_id (hd us)" and ?a = "ue_aggregate_id (hd us)" and ?ty = "ue_aggregate_type (hd us)"
  note R = event_database.reachable_inv [OF assms(1-4)]
  obtain ops where ops: "history_of ops (committed d)" using R(2) by blast
  have ap: "pg_append_events shw db d k ?t ?a us ev = (d', Inr es)" using assms(10,11) by (simp add: pg_append_def)
  note A = event_database.append_spec [OF assms(1) R(1) assms(5,10) ops ap]
  have uni: "\<forall>u \<in> set us. ue_tenant_id u = ?t \<and> ue_aggregate_id u = ?a \<and> ue_aggregate_type u = ?ty"
    using assms(8) by (simp add: batch_ok_def)
  have ks: "map (kept db ?ty) us = us"
    using uni assms(9) event_database.kept_exact [OF assms(1)] by (intro map_idI) blast
  have types: "se_aggregate_type (hd (stream_of s ?t ?a)) = ?ty" if "stream_of s ?t ?a \<noteq> []"
    using event_database.append_spec_type [OF assms(1) R(1) assms(5,10) ap] that assms(6) by simp
  have "\<exists>s'. append_events s us ev = (s', Inr (assign_sequence (current_version (stream_of s ?t ?a) + 1) us))"
    by (rule append_events_accepts [OF assms(10) uni assms(7)]) (use A(1) types assms(6) in auto)
  then obtain s' where s': "append_events s us ev = (s', Inr es)" using A(2) assms(6) by auto
  have "stream_of s' t a = table_stream (committed d') t a" for t a
    using in_memory_store.append_stream [OF s' assms(10), of t a] A(2) A(3) [of t a] assms(6) ks by auto
  then show ?thesis using s' by blast
qed

subsection \<open>A sample run\<close>

text \<open>Two appends to one stream that both read version 0: the first commits, the second is refused.\<close>

definition sample_table :: "nat Table" where
  "sample_table = \<lparr> tb_committed = [], tb_open = [] \<rparr>"

definition sample_event :: "uuid \<Rightarrow> nat UncommittedEvent" where
  "sample_event i = \<lparr> ue_event_id = i, ue_tenant_id = TenantId 1, ue_aggregate_id = AggregateId 7,
     ue_aggregate_type = ''x'', ue_event_type = ''x.y'', ue_event_version = 1, ue_occurred_at = 5000, ue_payload = 0 \<rparr>"

definition start_of :: "nat Table \<Rightarrow> nat \<Rightarrow> nat Table \<times> (EventStoreError + nat Txn)" where
  "start_of d k = append_start (\<lambda>_. []) table_db d k (TenantId 1) (AggregateId 7) [sample_event (of_nat k)] (Exact 0)"

definition run1 where "run1 = start_of sample_table 1"
definition run2 where "run2 = start_of (fst run1) 2"
definition run3 where "run3 = append_insert table_db (fst run2) 1 (projr (snd run1)) (sample_event 1)"
definition run4 where "run4 = append_commit table_db (fst run3) 1 (projr (snd run3))"
definition run5 where "run5 = append_insert table_db (fst run4) 2 (projr (snd run2)) (sample_event 2)"

lemma ok_projr: "is_ok r \<Longrightarrow> r = Inr (projr r)"
  by (cases r) simp_all

lemma sample_runs:
  "is_ok (snd run1)" "is_ok (snd run2)" "is_ok (snd run3)" "is_ok (snd run4)" "\<not> is_ok (snd run5)"
  "tx_events (projr (snd run1)) = [sample_event 1]" "tx_events (projr (snd run2)) = [sample_event 2]"
  "tx_events (projr (snd run3)) = []" "tx_batch (projr (snd run3)) = [sample_event 1]"
  "tx_tenant_id (projr (snd run3)) = TenantId 1" "tx_aggregate_id (projr (snd run3)) = AggregateId 7"
  by code_simp+

lemma sample_reached:
  "(pg_step (\<lambda>_. []) table_db)\<^sup>*\<^sup>* (sample_table, Map.empty)
     (fst run3, [1 \<mapsto> projr (snd run1), 2 \<mapsto> projr (snd run2), 1 \<mapsto> projr (snd run3)])"
proof -
  let ?step = "pg_step (\<lambda>_. []) table_db" and ?tx1 = "projr (snd run1)" and ?tx2 = "projr (snd run2)"
  have r1: "append_start (\<lambda>_. []) table_db sample_table 1 (TenantId 1) (AggregateId 7) [sample_event 1] (Exact 0) = (fst run1, Inr ?tx1)"
    using ok_projr [OF sample_runs(1)] by (simp add: run1_def start_of_def prod_eq_iff)
  have r2: "append_start (\<lambda>_. []) table_db (fst run1) 2 (TenantId 1) (AggregateId 7) [sample_event 2] (Exact 0) = (fst run2, Inr ?tx2)"
    using ok_projr [OF sample_runs(2)] by (simp add: run2_def start_of_def prod_eq_iff)
  have r3: "append_insert table_db (fst run2) 1 ?tx1 (sample_event 1) = (fst run3, Inr (projr (snd run3)))"
    using ok_projr [OF sample_runs(3)] by (simp add: run3_def prod_eq_iff)
  have s1: "?step (sample_table, Map.empty) (fst run1, [1 \<mapsto> ?tx1])"
    by (rule pg_start [where fl = Map.empty, OF _ _ r1]) simp_all
  have s2: "?step (fst run1, [1 \<mapsto> ?tx1]) (fst run2, [1 \<mapsto> ?tx1, 2 \<mapsto> ?tx2])"
    by (rule pg_start [where fl = "[1 \<mapsto> ?tx1]", OF _ _ r2]) simp_all
  have s3: "?step (fst run2, [1 \<mapsto> ?tx1, 2 \<mapsto> ?tx2]) (fst run3, [1 \<mapsto> ?tx1, 2 \<mapsto> ?tx2, 1 \<mapsto> projr (snd run3)])"
    by (rule pg_insert [where fl = "[1 \<mapsto> ?tx1, 2 \<mapsto> ?tx2]" and k = 1, OF _ sample_runs(6) r3]) simp
  show ?thesis
    by (rule converse_rtranclp_into_rtranclp [OF s1 converse_rtranclp_into_rtranclp [OF s2 r_into_rtranclp [of ?step, OF s3]]])
qed

lemma sample_initial: "tb_committed sample_table = []" "\<forall>k. table_pending sample_table k = []"
  by (simp_all add: sample_table_def table_pending_def)


theorem postgres_commit_current_witness:
  "\<exists>es. append_commit table_db (fst run3) 1 (projr (snd run3)) = (fst run4, Inr es) \<and> length es = 1 \<and>
    table_stream (tb_committed (fst run4)) (TenantId 1) (AggregateId 7) =
      table_stream (tb_committed (fst run3)) (TenantId 1) (AggregateId 7) @ es"
proof -
  have c: "append_commit table_db (fst run3) 1 (projr (snd run3)) = (fst run4, Inr (projr (snd run4)))"
    using ok_projr [OF sample_runs(4)] by (simp add: run4_def prod_eq_iff)
  have k: "([1 \<mapsto> projr (snd run1), 2 \<mapsto> projr (snd run2), 1 \<mapsto> projr (snd run3)]) 1 = Some (projr (snd run3))" by simp
  have ev: "\<forall>e \<in> set (tx_batch (projr (snd run3))). ue_aggregate_type e = tx_aggregate_type (projr (snd run3)) \<and> 1000 dvd ue_occurred_at e"
    by code_simp
  have ne: "tx_batch (projr (snd run3)) \<noteq> []" using sample_runs(9) by simp
  note C = postgres_commit_current [OF table.event_database_axioms sample_initial sample_reached k sample_runs(8) ne c]
  show ?thesis
    using C ev sample_runs(9-11) c unfolding Let_def by (intro exI [of _ "projr (snd run4)"]) auto
qed

theorem postgres_append_refines_witness:
  "\<exists>s'. append_events store_new [sample_event 1] (Exact 0) =
      (s', Inr (projr (snd (pg_append (\<lambda>_. []) True table_db sample_table 3 [sample_event 1] (Exact 0)))))"
proof -
  let ?r = "pg_append (\<lambda>_. []) True table_db sample_table 3 [sample_event 1] (Exact 0)"
  have "is_ok (snd ?r)" by code_simp
  then have r: "?r = (fst ?r, Inr (projr (snd ?r)))" using ok_projr by (simp add: prod_eq_iff)
  have "batch_ok [sample_event 1]" "\<forall>u \<in> set [sample_event 1]. 1000 dvd ue_occurred_at u" "[sample_event 1] \<noteq> []"
    by (simp_all add: batch_ok_def sample_event_def)
  moreover have "\<forall>t a. stream_of store_new t a = table_stream (tb_committed sample_table) t a" "\<not> st_poisoned (store_new :: nat InMemoryEventStore)"
    by (simp_all add: sample_table_def table_stream_def) (simp add: store_new_def)
  ultimately show ?thesis
    using postgres_append_refines [where shw = "\<lambda>_. []" and k = 3 and s = store_new and us = "[sample_event 1]",
      OF table.event_database_axioms sample_initial rtranclp.rtrancl_refl _ _ _ _ _ _ r] by blast
qed

end
