(* ===== verification/Saga_System.thy ===== *)
theory Saga_System
  imports Saga
begin

text \<open>
  The saga thread in the running application.  Derived serialisation of the event enums is externally
  tagged: a payload is an object whose only key is the name of the variant.  The saga looks for its
  correlation id at the top level of the payload, so it never finds one: the thread takes every envelope
  off its queue and does nothing.
\<close>

subsection \<open>Payloads\<close>

text \<open>The documented form of an enum without serde attributes; the names of the variants are not those of
  the fields the saga looks for.\<close>

definition variant_object :: "Json \<Rightarrow> bool" where
  "variant_object j \<longleftrightarrow> (\<exists>v body. j = JObject [(v, body)] \<and> v \<noteq> ''order_id'' \<and> v \<noteq> ''sales_order_id'')"

definition externally_tagged :: "('e, Json) Serde \<Rightarrow> bool" where
  "externally_tagged sd \<longleftrightarrow> (\<forall>e j. sd_to_value sd e = Inr j \<longrightarrow> variant_object j)"

definition serdes_tagged :: "Json Serdes \<Rightarrow> bool" where
  "serdes_tagged sz \<longleftrightarrow> externally_tagged (sz_inventory sz) \<and> externally_tagged (sz_product sz) \<and>
     externally_tagged (sz_party sz) \<and> externally_tagged (sz_sales sz) \<and> externally_tagged (sz_purchase sz) \<and>
     externally_tagged (sz_invoice sz) \<and> externally_tagged (sz_ledger sz) \<and> externally_tagged (sz_user sz)"

definition tagged :: "Json AppServices \<Rightarrow> bool" where
  "tagged s \<longleftrightarrow> (\<forall>rx. \<forall>env \<in> set (bus_queued (sv_event_bus s) rx). variant_object (ee_payload env))"

lemma correlate_tagged: "variant_object (ee_payload env) \<Longrightarrow> sales_ar_correlate pf env = None"
  by (auto simp: variant_object_def sales_ar_correlate_def str_at_def json_get_def)

subsection \<open>Dispatches keep the queues tagged\<close>

lemma channel_send_queue: "channel_send chans tx m = (chans', b) \<Longrightarrow> set (ch_queue (chans' i)) \<subseteq> set (ch_queue (chans i)) \<union> {m}"
  by (auto simp: channel_send_def split: if_splits)

lemma retain_send_queue:
  "retain_send chans txs m = (chans', ks) \<Longrightarrow> set (ch_queue (chans' i)) \<subseteq> set (ch_queue (chans i)) \<union> {m}"
proof (induction txs arbitrary: chans ks)
  case (Cons tx txs)
  obtain c1 b where c: "channel_send chans tx m = (c1, b)" by fastforce
  obtain c2 k2 where r: "retain_send c1 txs m = (c2, k2)" by fastforce
  then have "chans' = c2" using Cons.prems c by (auto simp: Let_def split: if_splits)
  then show ?case using Cons.IH [OF r [folded \<open>chans' = c2\<close>]] channel_send_queue [OF c, of i] by blast
qed auto

lemma bus_publish_queue:
  assumes "bus_publish b m = (b', r)"
  shows "set (bus_queued b' i) \<subseteq> set (bus_queued b i) \<union> {m}"
proof -
  obtain chans subs where "retain_send (bus_channels b) (bus_subscribers b) m = (chans, subs)" by fastforce
  then show ?thesis
    using assms retain_send_queue [of "bus_channels b" "bus_subscribers b" m chans subs i]
    by (auto simp: bus_publish_def bus_queued_def split: if_splits)
qed

lemma publish_all_queue:
  assumes "publish_all bus_publish b ms = (b', r)"
  shows "set (bus_queued b' i) \<subseteq> set (bus_queued b i) \<union> set ms"
  using assms
proof (induction ms arbitrary: b)
  case (Cons m ms)
  obtain b1 r1 where p: "bus_publish b m = (b1, r1)" by fastforce
  show ?case
  proof (cases r1)
    case (Inl e)
    then show ?thesis using Cons.prems p bus_publish_queue [OF p, of i] by auto
  next
    case (Inr u)
    then have "publish_all bus_publish b1 ms = (b', r)" using Cons.prems p by simp
    then show ?thesis using Cons.IH [of b1] bus_publish_queue [OF p, of i] by auto
  qed
qed simp

text \<open>What a step keeps.\<close>

definition keeps_tagged :: "Json AppServices \<Rightarrow> Json AppServices \<Rightarrow> bool" where
  "keeps_tagged s s' \<longleftrightarrow> (tagged s \<longrightarrow> tagged s')"

lemma keeps_tagged_refl [simp]: "keeps_tagged s s"
  by (simp add: keeps_tagged_def)

lemma keeps_tagged_trans: "keeps_tagged s s1 \<Longrightarrow> keeps_tagged s1 s2 \<Longrightarrow> keeps_tagged s s2"
  by (simp add: keeps_tagged_def)

lemma dispatch_keeps_tagged:
  assumes "externally_tagged sd" "services_dispatch agg sd new_id s t a ty c mk = (s', r)"
  shows "keeps_tagged s s'"
proof (cases "dispatch_prepare load_stream agg sd new_id (sv_event_store s) t a ty c mk")
  case (Inl e)
  then show ?thesis using assms(2) by (auto simp: services_dispatch_def dispatch_def)
next
  case (Inr p)
  obtain us ev where p: "p = (us, ev)" by fastforce
  obtain d where enc: "encodes sd t a ty d us" using dispatch_prepare_ok [OF Inr [unfolded p]] by blast
  have "list_all2 (\<lambda>e u. variant_object (ue_payload u)) d us"
    using enc assms(1) unfolding encodes_def externally_tagged_def by (auto elim: list_all2_mono)
  then have us: "\<forall>u \<in> set us. variant_object (ue_payload u)" by (auto simp: list_all2_conv_all_nth in_set_conv_nth)
  obtain st1 r1 where ap: "append_events (sv_event_store s) us ev = (st1, r1)" by fastforce
  show ?thesis
  proof (cases "us = [] \<or> \<not> is_ok r1")
    case True
    then have "sv_event_bus s' = sv_event_bus s"
      using assms(2) Inr p ap
      by (cases r1; cases "us = []") (auto simp: services_dispatch_def dispatch_def dispatch_commit_def)
    then show ?thesis by (simp add: keeps_tagged_def tagged_def)
  next
    case False
    then obtain cs where cs: "r1 = Inr cs" by (cases r1) auto
    obtain b' r2 where pb: "publish_all bus_publish (sv_event_bus s) (map to_envelope cs) = (b', r2)" by fastforce
    have s': "sv_event_bus s' = b'"
      using assms(2) Inr p ap cs pb False
      by (cases r2) (auto simp: services_dispatch_def dispatch_def dispatch_commit_def)
    have "variant_object (ee_payload env)" if "env \<in> set (map to_envelope cs)" for env
      using that us in_memory_store.append_committed [OF ap [unfolded cs]] False
      by (auto elim!: set_assign_sequence simp: store_event_def to_envelope_def envelope_new_def)
    then show ?thesis
      unfolding keeps_tagged_def tagged_def s' using publish_all_queue [OF pb] by blast
  qed
qed

lemma run_command_keeps_tagged:
  "externally_tagged sd \<Longrightarrow> keeps_tagged s (fst (run_command pf agg sd new_id tenant prin perm a ty cmd mk reply s))"
  by (auto simp: run_command_def dispatch_or_response_def dest: dispatch_keeps_tagged split: sum.splits prod.splits)

lemma parsed_keeps_tagged:
  assumes "\<And>x. parsed = Inr x \<Longrightarrow> keeps_tagged s (fst (k x))"
  shows "keeps_tagged s (fst (case parsed of Inl response \<Rightarrow> (s, response) | Inr x \<Rightarrow> k x))"
  using assms by (cases parsed) simp_all

lemma add_order_lines_keeps_tagged:
  assumes "externally_tagged (sz_purchase sz)"
  shows "keeps_tagged s (fst (add_order_lines pf sz fr tenant prin a k n ls s))"
proof (induction ls arbitrary: k n s)
  case (Cons l ls)
  show ?case
    by (auto simp: dispatch_or_response_def split: prod.splits sum.splits
        intro: dispatch_keeps_tagged [OF assms] keeps_tagged_trans [OF dispatch_keeps_tagged [OF assms] Cons.IH])
qed simp

lemma serve_keeps_tagged:
  assumes "serdes_tagged sz"
  shows "keeps_tagged s (fst (serve pf sz fr tenant prin request s))"
proof (cases request)
  case (PostPurchaseOrders body)
  have p: "externally_tagged (sz_purchase sz)" using assms by (simp add: serdes_tagged_def)
  show ?thesis
    by (auto simp: PostPurchaseOrders create_purchase_order_def Let_def dispatch_or_response_def
        split: prod.splits sum.splits
        intro: dispatch_keeps_tagged [OF p] keeps_tagged_trans [OF dispatch_keeps_tagged [OF p] add_order_lines_keeps_tagged [OF p]])
qed (use assms in \<open>auto simp: serdes_tagged_def route_defs Let_def split_beta
    intro!: parsed_keeps_tagged run_command_keeps_tagged split: option.splits\<close>)

lemma arrive_keeps_tagged: "serdes_tagged sz \<Longrightarrow> keeps_tagged s (arrive pf sz validate r s)"
  by (auto simp: arrive_def http_request_def serve_keeps_tagged split: sum.splits)

subsection \<open>The running system with the saga\<close>

inductive saga_reach ::
    "Platform \<Rightarrow> Json Serdes \<Rightarrow> (string \<Rightarrow> datetime \<Rightarrow> TokenValidationError + JwtClaims) \<Rightarrow> AggregateId \<Rightarrow> SagaSerde \<Rightarrow>
     Json AppServices \<Rightarrow> bool" for pf sz validate ledger_id ss where
  saga_start: "saga_reach pf sz validate ledger_id ss (build_in_memory_services ledger_id)"
| saga_request: "saga_reach pf sz validate ledger_id ss s \<Longrightarrow> saga_reach pf sz validate ledger_id ss (arrive pf sz validate r s)"
| saga_deliver: "saga_reach pf sz validate ledger_id ss s \<Longrightarrow> saga_reach pf sz validate ledger_id ss (subscriber_turn pf sz fresh s)"
| saga_step: "saga_reach pf sz validate ledger_id ss s \<Longrightarrow> saga_reach pf sz validate ledger_id ss (saga_turn pf sz ss sf s)"

lemma try_recv_tagged:
  assumes "tagged s"
  shows "tagged (s\<lparr>sv_event_bus := fst (sub_try_recv (sv_event_bus s) rx)\<rparr>)"
    "sub_try_recv (sv_event_bus s) rx = (b, Inr env) \<Longrightarrow> variant_object (ee_payload env)"
proof -
  have q: "variant_object (ee_payload e)" if "e \<in> set (ch_queue (bus_channels (sv_event_bus s) i))" for e i
    using assms that by (simp add: tagged_def bus_queued_def)
  show "tagged (s\<lparr>sv_event_bus := fst (sub_try_recv (sv_event_bus s) rx)\<rparr>)"
    using q q [of _ rx] by (cases "ch_queue (bus_channels (sv_event_bus s) rx)") (auto simp: tagged_def sub_try_recv_def bus_queued_def)
  show "variant_object (ee_payload env)" if "sub_try_recv (sv_event_bus s) rx = (b, Inr env)"
    using that q [of env rx] by (auto simp: sub_try_recv_def split: list.splits)
qed

lemma subscriber_tagged:
  assumes "tagged s"
  shows "tagged (subscriber_turn pf sz fresh s)"
proof (cases "sub_try_recv (sv_event_bus s) projections_rx")
  case (Pair b r)
  then show ?thesis
    using assms try_recv_tagged(1) [OF assms, of projections_rx]
    by (cases r) (simp_all add: subscriber_turn_def tagged_def process_keeps_infra)
qed

lemma saga_turn_idle:
  assumes "tagged s"
  shows "saga_turn pf sz ss sf s = s\<lparr>sv_event_bus := fst (sub_try_recv (sv_event_bus s) saga_rx)\<rparr>"
proof (cases "sub_try_recv (sv_event_bus s) saga_rx")
  case (Pair b r)
  show ?thesis
  proof (cases r)
    case (Inl e)
    then have "b = sv_event_bus s" using Pair by (auto simp: sub_try_recv_def split: list.splits)
    then show ?thesis using Pair Inl by (simp add: saga_turn_def)
  next
    case (Inr env)
    then have "sales_ar_correlate pf env = None"
      using try_recv_tagged(2) [OF assms, of saga_rx b env] Pair correlate_tagged by simp
    then show ?thesis using Pair Inr by (simp add: saga_turn_def saga_process_def SalesArSaga_def)
  qed
qed

lemma saga_reach_tagged:
  assumes "saga_reach pf sz validate l ss s" "serdes_tagged sz"
  shows "tagged s"
  using assms(1)
proof induction
  case saga_start
  then show ?case
    by (simp add: tagged_def build_in_memory_services_def bus_queued_def bus_subscribe_def bus_new_def Let_def)
next
  case (saga_request s r)
  then show ?case using arrive_keeps_tagged [OF assms(2)] by (simp add: keeps_tagged_def)
next
  case (saga_deliver s fresh)
  then show ?case by (intro subscriber_tagged)
next
  case (saga_step s sf)
  then show ?case unfolding saga_turn_idle [OF saga_step.IH] by (intro try_recv_tagged(1))
qed

text \<open>C34: the saga is never started.  In every reachable state of the running application a turn of the saga thread
  takes the next envelope off its queue and changes nothing else: no saga event is stored, no invoice is issued and
  no journal entry is posted, whatever orders were confirmed.  (The payload of an event is an object with the name
  of the variant as its only key, and the saga looks for the order's id beside that key.)\<close>

theorem saga_thread_inert:
  assumes "serdes_tagged sz" "saga_reach pf sz validate ledger_id ss s"
  shows "saga_turn pf sz ss sf s = s\<lparr>sv_event_bus := fst (sub_try_recv (sv_event_bus s) saga_rx)\<rparr> \<and>
    streams (saga_turn pf sz ss sf s) = streams s \<and>
    (\<forall>rx. rx \<noteq> saga_rx \<longrightarrow> bus_queued (sv_event_bus (saga_turn pf sz ss sf s)) rx = bus_queued (sv_event_bus s) rx)"
proof -
  note t = saga_turn_idle [OF saga_reach_tagged [OF assms(2,1)], of pf sz ss sf]
  show ?thesis unfolding t by (auto simp: sub_try_recv_def bus_queued_def split: list.splits)
qed

definition tagged_serde :: "string \<Rightarrow> ('e, Json) Serde" where
  "tagged_serde v = \<lparr> sd_to_value = (\<lambda>_. Inr (JObject [(v, JObject [(''order_id'', JString [])])])), sd_from_value = (\<lambda>_. Inl []) \<rparr>"

definition tagged_serdes :: "Json Serdes" where
  "tagged_serdes = \<lparr> sz_inventory = tagged_serde ''StockAdjusted'', sz_product = tagged_serde ''ProductCreated'',
     sz_party = tagged_serde ''PartyRegistered'', sz_sales = tagged_serde ''OrderConfirmed'',
     sz_purchase = tagged_serde ''OrderApproved'', sz_invoice = tagged_serde ''InvoiceIssued'',
     sz_ledger = tagged_serde ''JournalEntryPosted'', sz_user = tagged_serde ''UserCreated'' \<rparr>"

definition no_saga_serde :: SagaSerde where
  "no_saga_serde = \<lparr> ss_saga_event = (\<lambda>_. None), ss_issue_invoice = (\<lambda>_. Inl []), ss_post_journal_entry = (\<lambda>_. Inl []),
     ss_void_invoice = (\<lambda>_. Inl []), ss_invoice_line = (\<lambda>_. JNull), ss_time = (\<lambda>_. []) \<rparr>"

definition no_saga_fresh :: SagaFresh where
  "no_saga_fresh = \<lparr> sf_entry_id = 1, sf_invoice_id = 2, sf_event_id = (\<lambda>_. 3), sf_event_ids = (\<lambda>_ _. 4), sf_now = 0 \<rparr>"

theorem saga_thread_inert_witness:
  "streams (saga_turn sample_platform tagged_serdes no_saga_serde no_saga_fresh (build_in_memory_services (AggregateId 9))) =
     streams (build_in_memory_services (AggregateId 9))"
proof -
  have sz: "serdes_tagged tagged_serdes"
    by (simp add: serdes_tagged_def tagged_serdes_def externally_tagged_def tagged_serde_def variant_object_def)
  have "saga_reach sample_platform tagged_serdes (\<lambda>_ _. Inl undefined) (AggregateId 9) no_saga_serde (build_in_memory_services (AggregateId 9))"
    by (rule saga_start)
  from saga_thread_inert [OF sz this] show ?thesis by blast
qed

end
