(* ===== verification/Subscriber.thy ===== *)
theory Subscriber
  imports Event_Bus
begin

text \<open>
  A subscription to the in-memory bus among other threads, shared by the threads that listen to it
  (\<^verbatim>\<open>Projection_Worker\<close>, \<^verbatim>\<open>Event_Stream\<close>).

  \<^verbatim>\<open>bus_env\<close> is a step of the others on the bus, with the list of what was published so far: they publish, subscribe,
  receive on or drop their own subscriptions, or break the lock.  As long as the subscription \<^verbatim>\<open>rx\<close> is held, what is
  published waits in its queue in order.
\<close>

inductive bus_env ::
    "nat \<Rightarrow> 'm InMemoryEventBus \<times> 'm list \<Rightarrow> 'm InMemoryEventBus \<times> 'm list \<Rightarrow> bool" for rx where
  env_publish: "bus_publish b m = (b', Inr ()) \<Longrightarrow> bus_env rx (b, ms) (b', ms @ [m])"
| env_poison: "bus_env rx (b, ms) (b\<lparr>bus_poisoned := True\<rparr>, ms)"
| env_subscribe: "bus_env rx (b, ms) (fst (bus_subscribe b), ms)"
| env_recv: "i \<noteq> rx \<Longrightarrow> bus_env rx (b, ms) (fst (sub_try_recv b i), ms)"
| env_drop: "i \<noteq> rx \<Longrightarrow> bus_env rx (b, ms) (sub_drop b i, ms)"

text \<open>Only a bus with a broken lock can have lost a subscription that is held.\<close>

definition subscribed :: "nat \<Rightarrow> 'm InMemoryEventBus \<Rightarrow> bool" where
  "subscribed rx b \<longleftrightarrow> bus_invar b \<and> rx < bus_next b \<and> (bus_poisoned b \<or> rx \<in> bus_live b)"

lemmas subscribed_defs = subscribed_def bus_invar_def bus_live_def bus_subscribe_def sub_drop_def

lemma try_recv_bus:
  "fst (sub_try_recv b rx) = b\<lparr>bus_channels := (bus_channels b)
     (rx := (bus_channels b rx)\<lparr>ch_queue := tl (bus_queued b rx)\<rparr>)\<rparr>"
proof (cases "bus_queued b rx")
  case Nil
  then have "(bus_channels b rx)\<lparr>ch_queue := []\<rparr> = bus_channels b rx"
    by (cases "bus_channels b rx") (simp add: bus_queued_def)
  then have "(bus_channels b)(rx := (bus_channels b rx)\<lparr>ch_queue := []\<rparr>) = bus_channels b" by (metis fun_upd_triv)
  then show ?thesis using Nil by (simp add: sub_try_recv_def bus_queued_def)
qed (simp add: sub_try_recv_def bus_queued_def)

lemma subscribe_subscribed:
  assumes "bus_invar b" "bus_subscribe b = (b', rx)"
  shows "subscribed rx b' \<and> bus_queued b' rx = []"
  using assms by (auto simp: subscribed_defs bus_queued_def Let_def less_SucI split: if_splits)

lemma receive_subscribed:
  "subscribed rx b \<Longrightarrow> subscribed rx (fst (sub_try_recv b i))"
  "bus_queued (fst (sub_try_recv b rx)) rx = tl (bus_queued b rx)"
  by (auto simp: subscribed_defs try_recv_bus bus_queued_def)

lemma try_recv_cases:
  obtains (empty) e where "bus_queued b rx = []" "sub_try_recv b rx = (b, Inl e)"
  | (message) m ms where "bus_queued b rx = m # ms" "sub_try_recv b rx = (fst (sub_try_recv b rx), Inr m)"
  by (cases "bus_queued b rx") (auto simp: sub_try_recv_def bus_queued_def)

lemma dropped_queue: "bus_queued (sub_drop b rx) rx = []"
  by (simp add: sub_drop_def bus_queued_def)

text \<open>What the others do to a held subscription.\<close>

lemma bus_env_log:
  assumes "bus_env rx (b, ms) (b', ms')"
  obtains new where "ms' = ms @ new"
  using assms by cases auto

lemma publish_subscribed:
  assumes "subscribed rx b" "bus_publish b m = (b', Inr ())"
  shows "subscribed rx b' \<and> bus_queued b' rx = bus_queued b rx @ [m]"
proof -
  have i: "bus_invar b" using assms(1) by (simp add: subscribed_def)
  then have "bus_invar b'" "bus_live b' = bus_live b"
    using in_memory_bus.publish_invar [of b m] in_memory_bus.publish_live [of b m] assms(2) by simp_all
  moreover have "bus_next b' = bus_next b" "\<not> bus_poisoned b"
    using assms(2) by (auto simp: bus_publish_def split: if_splits prod.splits)
  ultimately show ?thesis using assms(1) in_memory_bus.publish_ok [OF i assms(2), of rx] by (simp add: subscribed_def)
qed

text \<open>Publishing on a bus whose lock is intact.\<close>

lemma publish_intact:
  assumes "\<not> bus_poisoned b"
  shows "bus_publish b m = (fst (bus_publish b m), Inr ()) \<and> \<not> bus_poisoned (fst (bus_publish b m))"
proof -
  obtain chans subs where "retain_send (bus_channels b) (bus_subscribers b) m = (chans, subs)" by fastforce
  then show ?thesis using assms by (simp add: bus_publish_def)
qed

lemma bus_env_subscribed:
  assumes "bus_env rx (b, ms) (b', ms')" "subscribed rx b"
  obtains new where "subscribed rx b'" "ms' = ms @ new" "bus_queued b' rx = bus_queued b rx @ new"
  using assms(1)
proof cases
  case (env_publish m)
  then show thesis using publish_subscribed [OF assms(2) env_publish(2)] by (intro that [of "[m]"]) auto
next
  case env_poison
  then show thesis using assms(2) by (intro that [of "[]"]) (auto simp: subscribed_defs bus_queued_def)
next
  case env_subscribe
  then show thesis using assms(2) by (intro that [of "[]"]) (auto simp: subscribed_defs bus_queued_def Let_def)
next
  case (env_recv i)
  then show thesis using receive_subscribed(1) [OF assms(2), of i]
    by (intro that [of "[]"]) (auto simp: try_recv_bus bus_queued_def)
next
  case (env_drop i)
  then show thesis using assms(2) by (intro that [of "[]"]) (auto simp: subscribed_defs bus_queued_def)
qed

end
