(* ===== verification/Projection_Worker.thy ===== *)
theory Projection_Worker
  imports Subscriber Stock_Projections
begin

text \<open>
  The background worker that feeds a projection (\<^verbatim>\<open>infra/src/workers/projection_worker.rs\<close>): its thread and the
  handle that stops it.

  The loop is cut at the two points where other threads can be seen, the look at the shutdown channel and the
  receive: \<^verbatim>\<open>worker_check\<close> and \<^verbatim>\<open>worker_receive\<close>.  The receive waits for up to a quarter of a second; it times out
  only on an empty queue.  A handler is a closure with a state of its own; what it returns is only logged.  The
  relation \<^verbatim>\<open>worker_reach\<close> interleaves the loop with the other threads on the bus and with the owner of the handle,
  and records what was published since the worker subscribed.
\<close>

subsection \<open>The thread and its handle\<close>

datatype WorkerPhase = Checking | Receiving | Stopped

record ('m, 'h) Worker =
  wk_bus :: "'m InMemoryEventBus"
  wk_sub :: nat
  wk_shutdown :: bool
  wk_handler :: 'h
  wk_phase :: WorkerPhase

definition worker_spawn :: "'m InMemoryEventBus \<Rightarrow> 'h \<Rightarrow> ('m, 'h) Worker" where
  "worker_spawn bus handler =
    (let (bus, sub) = bus_subscribe bus
     in \<lparr> wk_bus = bus, wk_sub = sub, wk_shutdown = False, wk_handler = handler, wk_phase = Checking \<rparr>)"

text \<open>Leaving the loop ends the thread, which drops the subscription.\<close>

definition worker_stop :: "('m, 'h) Worker \<Rightarrow> ('m, 'h) Worker" where
  "worker_stop w = w\<lparr>wk_bus := sub_drop (wk_bus w) (wk_sub w), wk_phase := Stopped\<rparr>"

definition worker_check :: "('m, 'h) Worker \<Rightarrow> ('m, 'h) Worker" where
  "worker_check w = (if wk_shutdown w then worker_stop (w\<lparr>wk_shutdown := False\<rparr>) else w\<lparr>wk_phase := Receiving\<rparr>)"

definition worker_receive ::
    "('m \<Rightarrow> TenantId) \<Rightarrow> TenantId option \<Rightarrow> ('h \<Rightarrow> 'm \<Rightarrow> 'h \<times> ('e + unit)) \<Rightarrow> ('m, 'h) Worker \<Rightarrow> ('m, 'h) Worker" where
  "worker_receive tenant_of tenant_id handler w =
    (case sub_try_recv (wk_bus w) (wk_sub w) of
       (bus, Inr msg) \<Rightarrow>
         (let w = w\<lparr>wk_bus := bus, wk_phase := Checking\<rparr>
          in if (case tenant_id of Some t \<Rightarrow> tenant_of msg \<noteq> t | None \<Rightarrow> False) then w
             else w\<lparr>wk_handler := fst (handler (wk_handler w) msg)\<rparr>)
     | (bus, Inl Empty) \<Rightarrow> w\<lparr>wk_phase := Checking\<rparr>
     | (bus, Inl Disconnected) \<Rightarrow> worker_stop w)"

definition worker_loop ::
    "('m \<Rightarrow> TenantId) \<Rightarrow> TenantId option \<Rightarrow> ('h \<Rightarrow> 'm \<Rightarrow> 'h \<times> ('e + unit)) \<Rightarrow> ('m, 'h) Worker \<Rightarrow> ('m, 'h) Worker" where
  "worker_loop tenant_of tenant_id handler w =
    (case wk_phase w of
       Checking \<Rightarrow> worker_check w
     | Receiving \<Rightarrow> worker_receive tenant_of tenant_id handler w
     | Stopped \<Rightarrow> w)"

text \<open>\<^verbatim>\<open>WorkerHandle::shutdown\<close> sends and then joins; the send is lost when the thread is gone.\<close>

definition handle_shutdown :: "('m, 'h) Worker \<Rightarrow> ('m, 'h) Worker" where
  "handle_shutdown w = (if wk_phase w = Stopped then w else w\<lparr>wk_shutdown := True\<rparr>)"

subsection \<open>The worker among other threads\<close>

inductive worker_reach ::
    "('m \<Rightarrow> TenantId) \<Rightarrow> TenantId option \<Rightarrow> ('h \<Rightarrow> 'm \<Rightarrow> 'h \<times> ('e + unit)) \<Rightarrow> 'h \<Rightarrow> ('m, 'h) Worker \<Rightarrow> 'm list \<Rightarrow> bool"
    for tenant_of tenant_id handler h0 where
  wr_spawn: "bus_invar b \<Longrightarrow> worker_reach tenant_of tenant_id handler h0 (worker_spawn b h0) []"
| wr_others: "worker_reach tenant_of tenant_id handler h0 w ms \<Longrightarrow> bus_env (wk_sub w) (wk_bus w, ms) (b', ms') \<Longrightarrow>
    worker_reach tenant_of tenant_id handler h0 (w\<lparr>wk_bus := b'\<rparr>) ms'"
| wr_shutdown: "worker_reach tenant_of tenant_id handler h0 w ms \<Longrightarrow>
    worker_reach tenant_of tenant_id handler h0 (handle_shutdown w) ms"
| wr_loop: "worker_reach tenant_of tenant_id handler h0 w ms \<Longrightarrow>
    worker_reach tenant_of tenant_id handler h0 (worker_loop tenant_of tenant_id handler w) ms"

text \<open>The messages meant for the worker, and the handler run over them whatever it answers.\<close>

definition for_tenant :: "('m \<Rightarrow> TenantId) \<Rightarrow> TenantId option \<Rightarrow> 'm \<Rightarrow> bool" where
  "for_tenant tenant_of tenant_id m \<longleftrightarrow> (case tenant_id of Some t \<Rightarrow> tenant_of m = t | None \<Rightarrow> True)"

definition handled ::
    "('m \<Rightarrow> TenantId) \<Rightarrow> TenantId option \<Rightarrow> ('h \<Rightarrow> 'm \<Rightarrow> 'h \<times> ('e + unit)) \<Rightarrow> 'h \<Rightarrow> 'm list \<Rightarrow> 'h" where
  "handled tenant_of tenant_id handler h ms =
     foldl (\<lambda>h m. fst (handler h m)) h (filter (for_tenant tenant_of tenant_id) ms)"

text \<open>A worker that runs holds its subscription, and what was published is what was handled or skipped, then what
  waits in its queue.\<close>

definition in_order ::
    "('m \<Rightarrow> TenantId) \<Rightarrow> TenantId option \<Rightarrow> ('h \<Rightarrow> 'm \<Rightarrow> 'h \<times> ('e + unit)) \<Rightarrow> 'h \<Rightarrow> ('m, 'h) Worker \<Rightarrow> 'm list \<Rightarrow> bool" where
  "in_order tenant_of tenant_id handler h0 w ms \<longleftrightarrow>
    (\<exists>d r. ms = d @ r \<and> wk_handler w = handled tenant_of tenant_id handler h0 d \<and>
       (wk_phase w \<noteq> Stopped \<longrightarrow> subscribed (wk_sub w) (wk_bus w) \<and> bus_queued (wk_bus w) (wk_sub w) = r))"

lemma in_orderI:
  assumes "ms = d @ r" "wk_handler w = handled tenant_of tenant_id handler h0 d"
    "wk_phase w \<noteq> Stopped \<Longrightarrow> subscribed (wk_sub w) (wk_bus w) \<and> bus_queued (wk_bus w) (wk_sub w) = r"
  shows "in_order tenant_of tenant_id handler h0 w ms"
  using assms by (auto simp: in_order_def)

text \<open>One receive, by what it finds.\<close>

lemma worker_receive_cases:
  obtains (empty) "bus_queued (wk_bus w) (wk_sub w) = []"
      "worker_receive tenant_of tenant_id handler w = w\<lparr>wk_phase := Checking\<rparr> \<or>
       worker_receive tenant_of tenant_id handler w = worker_stop w"
  | (message) m ms where "bus_queued (wk_bus w) (wk_sub w) = m # ms"
      "worker_receive tenant_of tenant_id handler w = w\<lparr>wk_bus := fst (sub_try_recv (wk_bus w) (wk_sub w)),
         wk_phase := Checking, wk_handler := handled tenant_of tenant_id handler (wk_handler w) [m]\<rparr>"
proof (cases rule: try_recv_cases [of "wk_bus w" "wk_sub w"])
  case (empty e)
  then show thesis by (intro that(1)) (cases e; simp add: worker_receive_def)+
next
  case (message m ms)
  show thesis
    by (rule that(2) [OF message(1)])
      (subst worker_receive_def, subst message(2), simp add: handled_def for_tenant_def split: option.splits)
qed

lemma in_order_loop:
  assumes "in_order tenant_of tenant_id handler h0 w ms"
  shows "in_order tenant_of tenant_id handler h0 (worker_loop tenant_of tenant_id handler w) ms"
proof -
  from assms obtain d r where o: "ms = d @ r" "wk_handler w = handled tenant_of tenant_id handler h0 d"
    "wk_phase w \<noteq> Stopped \<Longrightarrow> subscribed (wk_sub w) (wk_bus w) \<and> bus_queued (wk_bus w) (wk_sub w) = r"
    by (auto simp: in_order_def)
  show ?thesis
  proof (cases "wk_phase w")
    case Receiving
    show ?thesis
    proof (cases rule: worker_receive_cases [of w tenant_of tenant_id handler])
      case empty
      then show ?thesis using o Receiving
        by (intro in_orderI [of _ d r]) (auto simp: worker_loop_def worker_stop_def)
    next
      case (message m ms')
      then have "r = m # ms'" using o(3) Receiving by simp
      then show ?thesis using o message Receiving
        by (intro in_orderI [of _ "d @ [m]" ms'])
          (simp_all add: worker_loop_def handled_def receive_subscribed)
    qed
  qed (use o in \<open>auto simp: worker_loop_def worker_check_def worker_stop_def in_order_def\<close>)
qed

lemma worker_reach_in_order:
  "worker_reach tenant_of tenant_id handler h0 w ms \<Longrightarrow> in_order tenant_of tenant_id handler h0 w ms"
proof (induction rule: worker_reach.induct)
  case (wr_spawn b)
  show ?case
    using subscribe_subscribed [OF wr_spawn]
    by (intro in_orderI [of _ "[]" "[]"]) (auto simp: worker_spawn_def handled_def split: prod.splits)
next
  case (wr_others w ms b' ms')
  then obtain d r where o: "ms = d @ r" "wk_handler w = handled tenant_of tenant_id handler h0 d"
    "wk_phase w \<noteq> Stopped \<Longrightarrow> subscribed (wk_sub w) (wk_bus w) \<and> bus_queued (wk_bus w) (wk_sub w) = r"
    by (auto simp: in_order_def)
  obtain new where new: "ms' = ms @ new" by (rule bus_env_log [OF wr_others.hyps(2)])
  have "subscribed (wk_sub w) b' \<and> bus_queued b' (wk_sub w) = r @ new" if "wk_phase w \<noteq> Stopped"
    by (rule bus_env_subscribed [OF wr_others.hyps(2)]) (use o(3) [OF that] new in auto)
  then show ?case using o new by (intro in_orderI [of _ d "r @ new"]) simp_all
next
  case (wr_shutdown w ms)
  then show ?case by (auto simp: in_order_def handle_shutdown_def)
next
  case (wr_loop w ms)
  show ?case by (rule in_order_loop [OF wr_loop.IH])
qed

subsection \<open>Catching up and stopping\<close>

lemma worker_catches_up:
  assumes "\<not> wk_shutdown w" "wk_phase w = Stopped \<Longrightarrow> bus_queued (wk_bus w) (wk_sub w) = []"
    "2 * length (bus_queued (wk_bus w) (wk_sub w)) - (if wk_phase w = Receiving then 1 else 0) \<le> n"
  shows "wk_handler ((worker_loop tenant_of tenant_id handler ^^ n) w) =
    handled tenant_of tenant_id handler (wk_handler w) (bus_queued (wk_bus w) (wk_sub w))"
  using assms
proof (induction n arbitrary: w)
  case 0
  then have "bus_queued (wk_bus w) (wk_sub w) = []" by (cases "bus_queued (wk_bus w) (wk_sub w)") (auto split: if_splits)
  then show ?case by (simp add: handled_def)
next
  case (Suc n)
  let ?f = "worker_loop tenant_of tenant_id handler"
  have step: "(?f ^^ Suc n) w = (?f ^^ n) (?f w)" by (simp add: funpow_swap1)
  show ?case
  proof (cases "wk_phase w")
    case Checking
    then have "?f w = w\<lparr>wk_phase := Receiving\<rparr>" using Suc.prems(1) by (simp add: worker_loop_def worker_check_def)
    then show ?thesis unfolding step using Suc.IH [of "?f w"] Suc.prems Checking by simp
  next
    case Receiving
    show ?thesis
    proof (cases rule: worker_receive_cases [of w tenant_of tenant_id handler])
      case empty
      then have "wk_handler (?f w) = wk_handler w" "\<not> wk_shutdown (?f w)" "bus_queued (wk_bus (?f w)) (wk_sub (?f w)) = []"
        using Receiving Suc.prems(1) by (auto simp: worker_loop_def worker_stop_def dropped_queue)
      then show ?thesis unfolding step using Suc.IH [of "?f w"] empty(1) by simp
    next
      case (message m ms)
      then have f: "wk_handler (?f w) = handled tenant_of tenant_id handler (wk_handler w) [m]" "\<not> wk_shutdown (?f w)"
        "wk_phase (?f w) = Checking" "bus_queued (wk_bus (?f w)) (wk_sub (?f w)) = ms"
        using Receiving Suc.prems(1) by (auto simp: worker_loop_def receive_subscribed)
      have "2 * length ms \<le> n" using Suc.prems(3) message(1) Receiving by simp
      then have "wk_handler ((?f ^^ n) (?f w)) = handled tenant_of tenant_id handler (wk_handler (?f w)) ms"
        using Suc.IH [of "?f w"] f by simp
      then show ?thesis unfolding step f(1) message(1) by (simp add: handled_def)
    qed
  next
    case Stopped
    then have "?f w = w" by (simp add: worker_loop_def)
    then show ?thesis unfolding step using Suc.IH [of w] Suc.prems(1,2) Stopped by simp
  qed
qed

lemma worker_shutdown_stops:
  assumes "wk_shutdown w"
  shows "wk_phase (worker_loop tenant_of tenant_id handler (worker_loop tenant_of tenant_id handler w)) = Stopped"
proof (cases "wk_phase w")
  case Receiving
  have "wk_shutdown (worker_loop tenant_of tenant_id handler w)"
    by (cases rule: worker_receive_cases [of w tenant_of tenant_id handler])
      (use Receiving assms in \<open>auto simp: worker_loop_def worker_stop_def\<close>)
  moreover have "wk_phase (worker_loop tenant_of tenant_id handler w) \<in> {Checking, Stopped}"
    by (cases rule: worker_receive_cases [of w tenant_of tenant_id handler])
      (use Receiving in \<open>auto simp: worker_loop_def worker_stop_def\<close>)
  ultimately show ?thesis by (auto simp: worker_loop_def worker_check_def worker_stop_def)
qed (use assms in \<open>simp_all add: worker_loop_def worker_check_def worker_stop_def\<close>)

lemma worker_run_catches_up:
  assumes "worker_reach tenant_of tenant_id handler h0 w ms"
    "wk_phase w \<noteq> Stopped \<and> \<not> wk_shutdown w \<and> 2 * length (bus_queued (wk_bus w) (wk_sub w)) \<le> n"
  shows "wk_handler ((worker_loop tenant_of tenant_id handler ^^ n) w) = handled tenant_of tenant_id handler h0 ms"
proof -
  obtain d r where "ms = d @ r" "wk_handler w = handled tenant_of tenant_id handler h0 d"
    "wk_phase w \<noteq> Stopped \<Longrightarrow> bus_queued (wk_bus w) (wk_sub w) = r"
    using worker_reach_in_order [OF assms(1)] by (auto simp: in_order_def)
  then show ?thesis using worker_catches_up [of w n tenant_of tenant_id handler] assms(2) by (auto simp: handled_def)
qed

subsection \<open>Properties\<close>

text \<open>C26: under every interleaving with publishers, other subscribers and the owner of its handle, a worker has run
  its handler on a prefix of what was published since it subscribed, restricted to its tenant, in order and once
  each, whatever the handler answered; left running it catches up with all of it within two steps per waiting
  message; and a requested shutdown stops it within two steps.\<close>

theorem worker_handles_in_order:
  assumes "worker_reach tenant_of tenant_id handler h0 w ms"
  shows "(\<exists>k \<le> length ms. wk_handler w = handled tenant_of tenant_id handler h0 (take k ms)) \<and>
    (wk_phase w \<noteq> Stopped \<and> \<not> wk_shutdown w \<and> 2 * length (bus_queued (wk_bus w) (wk_sub w)) \<le> n \<longrightarrow>
       wk_handler ((worker_loop tenant_of tenant_id handler ^^ n) w) = handled tenant_of tenant_id handler h0 ms) \<and>
    (wk_shutdown w \<longrightarrow>
       wk_phase (worker_loop tenant_of tenant_id handler (worker_loop tenant_of tenant_id handler w)) = Stopped)"
proof -
  obtain d r where o: "ms = d @ r" "wk_handler w = handled tenant_of tenant_id handler h0 d"
    using worker_reach_in_order [OF assms] by (auto simp: in_order_def)
  have "\<exists>k \<le> length ms. wk_handler w = handled tenant_of tenant_id handler h0 (take k ms)"
    by (rule exI [of _ "length d"]) (simp add: o)
  then show ?thesis using worker_run_catches_up [OF assms, of n] worker_shutdown_stops by blast
qed

text \<open>A worker on a new bus, with messages waiting.\<close>

definition ex_publish :: "('m, 'h) Worker \<Rightarrow> 'm \<Rightarrow> ('m, 'h) Worker" where
  "ex_publish w m = w\<lparr>wk_bus := fst (bus_publish (wk_bus w) m)\<rparr>"

definition ex_worker :: "'h \<Rightarrow> 'm list \<Rightarrow> ('m, 'h) Worker" where
  "ex_worker h ms = foldl ex_publish (worker_spawn bus_new h) ms"

lemma ex_publish_reach:
  assumes "worker_reach tenant_of tenant_id handler h0 w ms" "\<not> bus_poisoned (wk_bus w)"
  shows "worker_reach tenant_of tenant_id handler h0 (ex_publish w m) (ms @ [m]) \<and> \<not> bus_poisoned (wk_bus (ex_publish w m))"
  using wr_others [OF assms(1) env_publish, of m] publish_intact [OF assms(2), of m] by (auto simp: ex_publish_def)

lemma ex_worker_reach: "worker_reach tenant_of tenant_id handler h0 (ex_worker h0 ms) ms"
proof -
  have "worker_reach tenant_of tenant_id handler h0 (ex_worker h0 ms) ms \<and> \<not> bus_poisoned (wk_bus (ex_worker h0 ms))"
  proof (induction ms rule: rev_induct)
    case Nil
    show ?case by (simp add: ex_worker_def wr_spawn) (simp add: worker_spawn_def bus_subscribe_def bus_new_def)
  next
    case (snoc m ms)
    show ?case using ex_publish_reach [OF conjunct1 [OF snoc.IH] conjunct2 [OF snoc.IH], of m] by (simp add: ex_worker_def)
  qed
  then show ?thesis ..
qed

definition ex_failing_handler :: "nat list \<Rightarrow> nat \<Rightarrow> nat list \<times> (string + unit)" where
  "ex_failing_handler h m = (h @ [m], Inl ''no'')"

theorem worker_handles_in_order_witness:
  "wk_handler ((worker_loop (\<lambda>_. TenantId 1) None ex_failing_handler ^^ 4) (ex_worker [] [5, 6])) = [5, 6]"
proof -
  let ?w = "ex_worker [] [5, 6] :: (nat, nat list) Worker"
  have q: "wk_phase ?w \<noteq> Stopped \<and> \<not> wk_shutdown ?w \<and> 2 * length (bus_queued (wk_bus ?w) (wk_sub ?w)) \<le> 4" by code_simp
  have "handled (\<lambda>_. TenantId 1) None ex_failing_handler [] [5, 6] = [5, 6]" by code_simp
  then show ?thesis
    using worker_handles_in_order [OF ex_worker_reach [of "\<lambda>_. TenantId 1" None ex_failing_handler "[]" "[5, 6]"], of 4] q by simp
qed

subsection \<open>A worker that keeps a read model\<close>

lemma filtered_progress:
  assumes "no_gaps ty p envs" "\<And>a. q tenant a = p tenant a"
  shows "no_gaps ty q (filter (for_tenant ee_tenant_id (Some tenant)) envs) \<and>
    (\<forall>a. foldl (advance ty) q (filter (for_tenant ee_tenant_id (Some tenant)) envs) tenant a =
         foldl (advance ty) p envs tenant a)"
  using assms
proof (induction envs arbitrary: p q)
  case (Cons env envs)
  have "no_gaps ty (advance ty p env) envs" using Cons.prems(1) by simp
  note IH = Cons.IH [OF this]
  show ?case
  proof (cases "ee_tenant_id env = tenant")
    case True
    have "advance ty q env tenant a = advance ty p env tenant a" for a
      using Cons.prems(2) True by (simp add: advance_def)
    then show ?thesis using IH [of "advance ty q env"] Cons.prems True by (simp add: for_tenant_def)
  next
    case False
    have "q tenant a = advance ty p env tenant a" for a using Cons.prems(2) False by (simp add: advance_def)
    then show ?thesis using IH [of q] False by (simp add: for_tenant_def)
  qed
qed simp

lemma other_tenants_untouched:
  "t \<noteq> tenant \<Longrightarrow> foldl (advance ty) q (filter (for_tenant ee_tenant_id (Some tenant)) envs) t a = q t a"
  by (induction envs arbitrary: q) (auto simp: for_tenant_def advance_def)

text \<open>C18: a worker pinned to a tenant keeps that tenant's stock read model.  The streams are decided histories and
  what is published are their envelopes without gaps, with redeliveries and envelopes of other tenants and types in
  between; once the worker has caught up, each item of the tenant shows the state its published events replay to,
  and there are no rows of other tenants.\<close>

theorem worker_keeps_stock_view:
  assumes "\<forall>t a. decided item_apply item_handle (item_empty (InventoryItemId a)) (hist t a)"
    "\<forall>env \<in> set envs. genuine from_value inventory_stock hist env"
    "no_gaps ''inventory.item'' (\<lambda>_ _. 0) envs"
    "worker_reach ee_tenant_id (Some tenant) (apply_envelope ops from_value inventory_stock)
       (projection_new ts_new ''inventory.stock'') w envs"
    "wk_phase w \<noteq> Stopped \<and> \<not> wk_shutdown w \<and> 2 * length (bus_queued (wk_bus w) (wk_sub w)) \<le> n"
  shows "\<forall>t a. ts_get (pj_store (wk_handler ((worker_loop ee_tenant_id (Some tenant)
        (apply_envelope ops from_value inventory_stock) ^^ n) w))) t (InventoryItemId a) =
      (if t = tenant then item_view (foldl item_apply (item_empty (InventoryItemId a))
         (take (foldl (advance ''inventory.item'') (\<lambda>_ _. 0) envs t a) (hist t a))) else None)"
proof -
  let ?mine = "filter (for_tenant ee_tenant_id (Some tenant)) envs"
  let ?step = "apply_envelope ops from_value inventory_stock"
  note prog = filtered_progress [where q = "\<lambda>_ _. 0" and tenant = tenant, OF assms(3) refl]
  have "pl_aggregate_type inventory_stock = ''inventory.item''" by (simp add: inventory_stock_def)
  then obtain p where p: "apply_envelopes ?step (projection_new ts_new ''inventory.stock'') ?mine = (p, Inr ())"
    "\<And>t a. ts_get (pj_store p) t (InventoryItemId a) = item_view (foldl item_apply (item_empty (InventoryItemId a))
      (take (foldl (advance ''inventory.item'') (\<lambda>_ _. 0) ?mine t a) (hist t a)))"
    using stock_view.deliver_view [OF assms(1), of "projection_new ts_new ''inventory.stock''" ops ?mine from_value]
      assms(2) prog by (auto simp: option.map_id)
  have "wk_handler ((worker_loop ee_tenant_id (Some tenant) ?step ^^ n) w) = p"
    using worker_run_catches_up [OF assms(4,5)] apply_envelopes_foldl [OF p(1)] by (simp add: handled_def)
  then show ?thesis using p(2) prog other_tenants_untouched [of _ tenant "''inventory.item''" "\<lambda>_ _. 0" envs] by auto
qed

theorem worker_keeps_stock_view_witness:
  "ts_get (pj_store (wk_handler ((worker_loop ee_tenant_id (Some (TenantId 1))
      (apply_envelope InMemoryCursorStore Inr inventory_stock) ^^ 8)
        (ex_worker (projection_new ts_new ''inventory.stock'')
          [ex_stock_env 1, ex_stock_env 2, (ex_stock_env 1)\<lparr>ee_tenant_id := TenantId 2, ee_aggregate_type := ''x''\<rparr>, ex_stock_env 2]))))
     (TenantId 1) (InventoryItemId (AggregateId 7)) =
   Some \<lparr> irm_item_id = InventoryItemId (AggregateId 7), irm_name = ''bolt'', irm_quantity = 3 \<rparr>"
proof -
  let ?envs = "[ex_stock_env 1, ex_stock_env 2, (ex_stock_env 1)\<lparr>ee_tenant_id := TenantId 2, ee_aggregate_type := ''x''\<rparr>, ex_stock_env 2]"
  let ?w = "ex_worker (projection_new ts_new ''inventory.stock'') ?envs"
  have h: "\<forall>t a. decided item_apply item_handle (item_empty (InventoryItemId a)) (ex_stock_hist t a)"
    using ex_stock_decided by blast
  have g: "\<forall>env \<in> set ?envs. genuine Inr inventory_stock ex_stock_hist env" by code_simp
  have n: "no_gaps ''inventory.item'' (\<lambda>_ _. 0) ?envs" by code_simp
  have q: "wk_phase ?w \<noteq> Stopped \<and> \<not> wk_shutdown ?w \<and> 2 * length (bus_queued (wk_bus ?w) (wk_sub ?w)) \<le> 8" by code_simp
  have v: "item_view (foldl item_apply (item_empty (InventoryItemId (AggregateId 7)))
      (take (foldl (advance ''inventory.item'') (\<lambda>_ _. 0) ?envs (TenantId 1) (AggregateId 7))
        (ex_stock_hist (TenantId 1) (AggregateId 7)))) =
      Some \<lparr> irm_item_id = InventoryItemId (AggregateId 7), irm_name = ''bolt'', irm_quantity = 3 \<rparr>" by code_simp
  show ?thesis
    using worker_keeps_stock_view [where ops = InMemoryCursorStore, OF h g n ex_worker_reach q,
      THEN spec [of _ "TenantId 1"], THEN spec [of _ "AggregateId 7"]] v by simp
qed

end
