(* ===== verification/Rbac_Routes.thy ===== *)
theory Rbac_Routes
  imports Api_Reads Api_Safety
begin

text \<open>
  The routes that explain authorization (\<^verbatim>\<open>api/src/app/routes/rbac.rs\<close>): listings of the roles and permissions
  of the default mapping, and the explanation of a decision for the caller or for a user of the tenant.

  They change nothing.  The order in which the hash maps of the registry are listed is \<^verbatim>\<open>pf_iter\<close>, the debug
  rendering of a list of strings is the argument \<^verbatim>\<open>debug_list\<close>.
\<close>

subsection \<open>JSON\<close>

definition role_to_json :: "RoleDefinition \<Rightarrow> Json" where
  "role_to_json role = JObject [(''name'', JString (rd_name role)),
     (''permissions'', JArray (map JString (rd_permissions role))),
     (''description'', jopt JString (rd_description role))]"

definition permission_to_json :: "PermissionDefinition \<Rightarrow> Json" where
  "permission_to_json perm = JObject [(''name'', JString (pd_name perm)),
     (''description'', jopt JString (pd_description perm)), (''category'', jopt JString (pd_category perm))]"

primrec denial_kind_string :: "DenialKind \<Rightarrow> string" where
  "denial_kind_string DenialTenantMismatch = ''tenant_mismatch''"
| "denial_kind_string MissingPermission = ''missing_permission''"

definition denial_to_json :: "DenialReason \<Rightarrow> Json" where
  "denial_to_json d = JObject [(''kind'', JString (denial_kind_string (dr_kind d))), (''message'', JString (dr_message d)),
     (''suggestions'', JArray (map JString (dr_suggestions d)))]"

definition principal_to_json :: "Platform \<Rightarrow> PrincipalState \<Rightarrow> Json" where
  "principal_to_json pf p = JObject [
     (''principal_id'', JString (pf_uuid_string pf (principal_uuid (ps_principal_id p)))),
     (''active_tenant_id'', JString (pf_uuid_string pf (tenant_uuid (ps_active_tenant_id p)))),
     (''membership_tenant_id'', JString (pf_uuid_string pf (tenant_uuid (ps_membership_tenant_id p)))),
     (''roles'', JArray (map JString (ps_roles p))),
     (''effective_permissions'', JArray (map JString (ps_effective_permissions p))),
     (''has_wildcard'', JBool (ps_has_wildcard p))]"

definition explanation_to_json :: "Platform \<Rightarrow> AuthorizationExplanation \<Rightarrow> Json" where
  "explanation_to_json pf x = JObject [(''required_permission'', JString (ax_required_permission x)),
     (''granted'', JBool (ax_granted x)), (''reason'', JString (ax_reason x)),
     (''principal'', principal_to_json pf (ax_principal x)), (''denial_reason'', jopt denial_to_json (ax_denial_reason x))]"

subsection \<open>Listings\<close>

text \<open>The keys of the registry's two maps.\<close>

definition registry_permissions :: "(string \<Rightarrow> string list) \<Rightarrow> string list" where
  "registry_permissions role_permissions = role_perm_set role_permissions known_roles []"

definition list_roles :: "Platform \<Rightarrow> TenantContext \<Rightarrow> PrincipalContext \<Rightarrow> Response" where
  "list_roles pf tenant prin =
    (case guard pf tenant prin ''admin.users.read'' of
       Inl response \<Rightarrow> response
     | Inr _ \<Rightarrow>
         (let registry = from_role_mapping default_role_permissions;
              roles = List.map_filter (rb_roles registry) (pf_iter pf known_roles)
          in respond OK [(''roles'', JArray (map role_to_json roles))]))"

definition get_role :: "Platform \<Rightarrow> TenantContext \<Rightarrow> PrincipalContext \<Rightarrow> string \<Rightarrow> Response" where
  "get_role pf tenant prin role_name =
    (case guard pf tenant prin ''admin.users.read'' of
       Inl response \<Rightarrow> response
     | Inr _ \<Rightarrow>
         (let registry = from_role_mapping default_role_permissions
          in case rb_roles registry role_name of
               Some role \<Rightarrow> respond OK [(''role'', role_to_json role)]
             | None \<Rightarrow> json_error NOT_FOUND ''not_found'' ''role not found''))"

definition list_permissions :: "Platform \<Rightarrow> TenantContext \<Rightarrow> PrincipalContext \<Rightarrow> Response" where
  "list_permissions pf tenant prin =
    (case guard pf tenant prin ''admin.users.read'' of
       Inl response \<Rightarrow> response
     | Inr _ \<Rightarrow>
         (let registry = from_role_mapping default_role_permissions;
              permissions = List.map_filter (rb_permissions registry) (pf_iter pf (registry_permissions default_role_permissions))
          in respond OK [(''permissions'', JArray (map permission_to_json permissions))]))"

definition get_permission :: "Platform \<Rightarrow> TenantContext \<Rightarrow> PrincipalContext \<Rightarrow> string \<Rightarrow> Response" where
  "get_permission pf tenant prin perm_name =
    (case guard pf tenant prin ''admin.users.read'' of
       Inl response \<Rightarrow> response
     | Inr _ \<Rightarrow>
         (let registry = from_role_mapping default_role_permissions
          in case rb_permissions registry perm_name of
               Some perm \<Rightarrow> respond OK [(''permission'', permission_to_json perm)]
             | None \<Rightarrow> json_error NOT_FOUND ''not_found'' ''permission not found''))"

subsection \<open>Explanations\<close>

record ExplainAuthzQuery =
  xq_permission :: string
  xq_user_id :: "string option"

definition explain_authorization_decision ::
    "Platform \<Rightarrow> (string list \<Rightarrow> string) \<Rightarrow> TenantContext \<Rightarrow> PrincipalContext \<Rightarrow> ExplainAuthzQuery \<Rightarrow> Response" where
  "explain_authorization_decision pf debug_list tenant prin query =
    (let required_perm = Permission (xq_permission query);
         membership = \<lparr> tm_tenant_id = tc_tenant_id tenant, tm_roles = pctx_roles prin,
           tm_permissions = permissions_from_roles (pf_iter pf) (pctx_roles prin) \<rparr>;
         principal_obj = \<lparr> pn_principal_id = pctx_principal_id prin, pn_active_tenant_id = tc_tenant_id tenant,
           pn_membership = membership \<rparr>;
         explanation = explain_authorization (pf_iter pf) (\<lambda>t. pf_uuid_string pf (tenant_uuid t)) debug_list
           principal_obj required_perm default_role_permissions
     in respond OK [(''explanation'', explanation_to_json pf explanation)])"

definition explain_user_authorization ::
    "Platform \<Rightarrow> (string list \<Rightarrow> string) \<Rightarrow> TenantContext \<Rightarrow> PrincipalContext \<Rightarrow> string \<Rightarrow> ExplainAuthzQuery \<Rightarrow>
     'j AppServices \<Rightarrow> Response" where
  "explain_user_authorization pf debug_list tenant prin user_id_str query services =
    (case and_then (guard pf tenant prin ''admin.users.read'') (\<lambda>_. parse_user_id pf user_id_str) of
       Inl response \<Rightarrow> response
     | Inr user_id \<Rightarrow>
         (case ts_get (sv_users_projection services) (tc_tenant_id tenant) user_id of
            None \<Rightarrow> json_error NOT_FOUND ''not_found'' ''user not found''
          | Some user \<Rightarrow>
              (case effective_permissions (pf_iter pf) (sv_users_projection services) (tc_tenant_id tenant) user_id
                      default_role_permissions of
                 None \<Rightarrow> json_error NOT_FOUND ''not_found'' ''user not found''
               | Some effective \<Rightarrow>
                   (let membership = \<lparr> tm_tenant_id = tc_tenant_id tenant, tm_roles = map Role (ep_roles effective),
                          tm_permissions = map Permission (ep_permissions effective) \<rparr>;
                        principal_obj = \<lparr> pn_principal_id = PrincipalId (auth_user_uuid (urm_user_id user)),
                          pn_active_tenant_id = tc_tenant_id tenant, pn_membership = membership \<rparr>;
                        required_perm = Permission (xq_permission query);
                        explanation = explain_authorization (pf_iter pf) (\<lambda>t. pf_uuid_string pf (tenant_uuid t)) debug_list
                          principal_obj required_perm default_role_permissions
                    in respond OK
                         [(''user_id'', JString (pf_uuid_string pf (auth_user_uuid user_id))),
                          (''user_email'', JString (urm_email user)),
                          (''explanation'', explanation_to_json pf explanation)]))))"

subsection \<open>Properties\<close>

text \<open>What a response says of the decision.\<close>

definition says_granted :: "Response \<Rightarrow> bool" where
  "says_granted r \<longleftrightarrow> rs_status r = OK \<and>
     Option.bind (json_get (rs_body r) ''explanation'') (\<lambda>x. json_get x ''granted'') = Some (JBool True)"

lemma explanation_for_roles:
  assumes "iter_ok (pf_iter pf)"
  shows "ax_granted (explain_authorization (pf_iter pf) show_tenant debug_list
      \<lparr> pn_principal_id = i, pn_active_tenant_id = tc_tenant_id tenant, pn_membership =
         \<lparr> tm_tenant_id = tc_tenant_id tenant, tm_roles = roles, tm_permissions = permissions_from_roles (pf_iter pf) roles \<rparr> \<rparr>
      (Permission perm) default_role_permissions) \<longleftrightarrow>
    guard pf tenant \<lparr> pctx_principal_id = j, pctx_roles = roles \<rparr> perm = Inr ()"
proof -
  have "map perm_str (permissions_from_roles (pf_iter pf) roles) =
      pf_iter pf (role_perm_set default_role_permissions (map role_str roles) [])"
    by (simp add: permissions_from_roles_def comp_def)
  then have "set (foldl hashset_insert (role_perm_set default_role_permissions (map role_str roles) [])
      (map perm_str (permissions_from_roles (pf_iter pf) roles))) =
      set (map perm_str (permissions_from_roles (pf_iter pf) roles))"
    using iter_ok_set [OF assms] by auto
  then show ?thesis
    by (auto simp: explain_authorization_def guard_def authorize_command_def authorize_def and_then_def Let_def
        split: if_splits)
qed

lemma says_granted_explanation [simp]:
  "says_granted (respond OK (kvs @ [(''explanation'', explanation_to_json pf x)])) \<longleftrightarrow> ax_granted x"
  if "map_of kvs ''explanation'' = None"
  using that by (simp add: says_granted_def json_get_def explanation_to_json_def map_add_def)

lemma decision_granted:
  assumes "iter_ok (pf_iter pf)"
  shows "says_granted (explain_authorization_decision pf debug_list tenant prin query) \<longleftrightarrow>
    guard pf tenant prin (xq_permission query) = Inr ()"
  using explanation_for_roles [OF assms, where roles = "pctx_roles prin" and j = "pctx_principal_id prin" and
      i = "pctx_principal_id prin" and tenant = tenant and perm = "xq_permission query"]
    says_granted_explanation [of "[]"]
  by (cases prin) (simp add: explain_authorization_decision_def Let_def)

lemma user_decision_granted:
  assumes "iter_ok (pf_iter pf)" "guard pf tenant prin ''admin.users.read'' = Inr ()" "pf_parse_uuid pf user_id_str = Some u"
    "ts_get (sv_users_projection services) (tc_tenant_id tenant) (AuthUserId u) = Some user"
  shows "says_granted (explain_user_authorization pf debug_list tenant prin user_id_str query services) \<longleftrightarrow>
    guard pf tenant \<lparr> pctx_principal_id = PrincipalId u, pctx_roles = map Role (urm_roles user) \<rparr> (xq_permission query) = Inr ()"
proof -
  have p: "permissions_from_roles (pf_iter pf) (map Role (urm_roles user)) =
      map Permission (pf_iter pf (role_perm_set default_role_permissions (urm_roles user) []))"
    by (simp add: permissions_from_roles_def comp_def)
  show ?thesis
    using explanation_for_roles [OF assms(1), where roles = "map Role (urm_roles user)" and j = "PrincipalId u" and
        i = "PrincipalId (auth_user_uuid (urm_user_id user))" and tenant = tenant and perm = "xq_permission query"]
      says_granted_explanation [of "[(''user_id'', JString (pf_uuid_string pf u)), (''user_email'', JString (urm_email user))]"]
    unfolding p by (simp add: explain_user_authorization_def effective_permissions_def parse_user_id_def and_then_def assms Let_def)
qed

text \<open>C16: the explanations agree with the guard of the command routes.  The route for the caller grants a permission
  exactly when a command that requires it would pass the guard; the route for a user, asked by someone who may
  read users and for a user of the caller's tenant, grants it exactly when the guard would let a principal with the
  roles of the user's row pass; an unknown user and a caller without the permission are refused.\<close>

theorem explain_routes_agree_with_guard:
  assumes "iter_ok (pf_iter pf)"
  shows "(says_granted (explain_authorization_decision pf debug_list tenant prin query) \<longleftrightarrow>
      guard pf tenant prin (xq_permission query) = Inr ()) \<and>
    (\<forall>response. guard pf tenant prin ''admin.users.read'' = Inl response \<longrightarrow>
      explain_user_authorization pf debug_list tenant prin user_id_str query services = response \<and> rs_status response = FORBIDDEN) \<and>
    (\<forall>u. guard pf tenant prin ''admin.users.read'' = Inr () \<and> pf_parse_uuid pf user_id_str = Some u \<longrightarrow>
      (case ts_get (sv_users_projection services) (tc_tenant_id tenant) (AuthUserId u) of
         None \<Rightarrow> rs_status (explain_user_authorization pf debug_list tenant prin user_id_str query services) = NOT_FOUND
       | Some user \<Rightarrow> says_granted (explain_user_authorization pf debug_list tenant prin user_id_str query services) \<longleftrightarrow>
           guard pf tenant \<lparr> pctx_principal_id = PrincipalId u, pctx_roles = map Role (urm_roles user) \<rparr>
             (xq_permission query) = Inr ()))"
proof -
  have "rs_status response = FORBIDDEN" if "guard pf tenant prin perm = Inl response" for perm response
    using that by (auto simp: guard_def json_error_def map_err_def split: sum.splits)
  moreover have "explain_user_authorization pf debug_list tenant prin user_id_str query services = response"
    if "guard pf tenant prin ''admin.users.read'' = Inl response" for response
    using that by (simp add: explain_user_authorization_def and_then_def)
  moreover have "rs_status (explain_user_authorization pf debug_list tenant prin user_id_str query services) = NOT_FOUND"
    if "guard pf tenant prin ''admin.users.read'' = Inr ()" "pf_parse_uuid pf user_id_str = Some u"
      "ts_get (sv_users_projection services) (tc_tenant_id tenant) (AuthUserId u) = None" for u
    using that by (simp add: explain_user_authorization_def parse_user_id_def and_then_def json_error_def)
  ultimately show ?thesis
    using decision_granted [OF assms] user_decision_granted [OF assms, where services = services] by (auto split: option.splits)
qed

text \<open>A manager asking about a warehouse clerk.\<close>

definition ex_clerk :: UserReadModel where
  "ex_clerk = \<lparr> urm_user_id = AuthUserId 42, urm_tenant_id = TenantId 1, urm_email = ''a@b'', urm_display_name = ''a'',
     urm_roles = [''warehouse''], urm_status = ''active'', urm_created_at = 0, urm_updated_at = 0 \<rparr>"

definition ex_clerk_services :: "InventoryEvent AppServices" where
  "ex_clerk_services = sample_services\<lparr>sv_users_projection := ts_upsert ts_new (TenantId 1) (AuthUserId 42) ex_clerk\<rparr>"

theorem explain_routes_agree_with_guard_witness:
  "says_granted (explain_user_authorization sample_platform concat sample_tenant (principal_with ''manager'') ''42''
     \<lparr> xq_permission = ''inventory.write'', xq_user_id = None \<rparr> ex_clerk_services) \<and>
   \<not> says_granted (explain_authorization_decision sample_platform concat sample_tenant (principal_with ''manager'')
     \<lparr> xq_permission = ''ledger.write'', xq_user_id = None \<rparr>)"
proof -
  have g: "guard sample_platform sample_tenant (principal_with ''manager'') ''admin.users.read'' = Inr () \<and>
      pf_parse_uuid sample_platform ''42'' = Some 42" by code_simp
  have r: "ts_get (sv_users_projection ex_clerk_services) (tc_tenant_id sample_tenant) (AuthUserId 42) = Some ex_clerk"
    by code_simp
  have w: "guard sample_platform sample_tenant \<lparr> pctx_principal_id = PrincipalId 42, pctx_roles = map Role (urm_roles ex_clerk) \<rparr>
      ''inventory.write'' = Inr ()" by code_simp
  have n: "guard sample_platform sample_tenant (principal_with ''manager'') ''ledger.write'' \<noteq> Inr ()" by code_simp
  note e = explain_routes_agree_with_guard [OF sample_iter, where debug_list = concat and tenant = sample_tenant and
      prin = "principal_with ''manager''" and user_id_str = "''42''" and services = ex_clerk_services]
  from e [where query = "\<lparr> xq_permission = ''inventory.write'', xq_user_id = None \<rparr>"] g r w
  have "says_granted (explain_user_authorization sample_platform concat sample_tenant (principal_with ''manager'') ''42''
     \<lparr> xq_permission = ''inventory.write'', xq_user_id = None \<rparr> ex_clerk_services)" by simp
  moreover from e [where query = "\<lparr> xq_permission = ''ledger.write'', xq_user_id = None \<rparr>"] n
  have "\<not> says_granted (explain_authorization_decision sample_platform concat sample_tenant (principal_with ''manager'')
     \<lparr> xq_permission = ''ledger.write'', xq_user_id = None \<rparr>)" by simp
  ultimately show ?thesis by blast
qed

end
