(* ===== verification/End_To_End.thy ===== *)
theory End_To_End
  imports Services
begin

text \<open>
  From a request to a query: what the read models answer once the subscriber has caught up.

  A read model that is a view of an aggregate's state (\<^verbatim>\<open>state_view\<close>) is connected to the running
  services by the locale \<^verbatim>\<open>served_view\<close>: the subscriber feeds it, and every request either publishes
  nothing of its aggregate type or dispatches commands to the aggregate.  Composing the routes, the
  dispatcher, the store, the bus, the subscriber and the projection, each row then is the state that
  the stream in the event store replays to.
\<close>

subsection \<open>Requests that reach an aggregate\<close>

text \<open>One dispatch of a command that only decides events the projection accepts for this stream.\<close>

inductive own_step ::
    "('s, 'e, 'c) AggregateOps \<Rightarrow> ('e, 'j) Serde \<Rightarrow> ('st, 'e) ProjectionLogic \<Rightarrow> (AggregateId \<Rightarrow> 's) \<Rightarrow>
     'j AppServices \<Rightarrow> 'j AppServices \<Rightarrow> bool" for ops sd pl init where
  own_dispatch: "\<lbrakk> services_dispatch ops sd new_id s t a (pl_aggregate_type pl) c mk = (s', r); mk t a = init a;
     \<And>st d. ao_handle ops st c = Inr d \<Longrightarrow> \<forall>e \<in> set d. pl_check pl t a e = Inr () \<rbrakk>
     \<Longrightarrow> own_step ops sd pl init s s'"

inductive_cases own_stepE: "own_step ops sd pl init s s'"

lemma own_step_published:
  assumes "own_step ops sd pl init s s'" "base_ok s"
  shows "\<exists>es. published s s' es"
  using assms(1)
proof cases
  case (own_dispatch new_id t a c mk r)
  from dispatch_published(1) [OF assms(2) this(1)] show ?thesis by blast
qed

lemma own_step_grows:
  assumes "own_step ops sd pl init s s'"
  shows "prefix (streams s t a) (streams s' t a)"
  using assms
proof cases
  case (own_dispatch new_id t' a' c mk r)
  note c = services_dispatch_commits [OF own_dispatch(1)]
  show ?thesis
  proof (cases "t = t'")
    case True
    then show ?thesis using c by (simp add: commits_def)
  next
    case False
    then have "streams s' t a = streams s t a" using c by (simp add: commits_def)
    then show ?thesis by simp
  qed
qed

text \<open>The history of one stream: decided, and accepted by the projection; empty when the stream is
  of another aggregate type.\<close>

definition stream_history ::
    "('s, 'e, 'c) AggregateOps \<Rightarrow> ('e, 'j) Serde \<Rightarrow> ('st, 'e) ProjectionLogic \<Rightarrow> (AggregateId \<Rightarrow> 's) \<Rightarrow>
     TenantId \<Rightarrow> AggregateId \<Rightarrow> 'j StoredEvent list \<Rightarrow> 'e list \<Rightarrow> bool" where
  "stream_history ops sd pl init t a es h \<longleftrightarrow>
     (if es \<noteq> [] \<and> se_aggregate_type (hd es) = pl_aggregate_type pl
      then list_all2 (\<lambda>e ev. sd_from_value sd (se_payload e) = Inr ev \<and> pl_check pl t a ev = Inr ()) es h
      else h = []) \<and>
     decided (ao_apply ops) (ao_handle ops) (init a) h"

definition histories ::
    "('s, 'e, 'c) AggregateOps \<Rightarrow> ('e, 'j) Serde \<Rightarrow> ('st, 'e) ProjectionLogic \<Rightarrow> (AggregateId \<Rightarrow> 's) \<Rightarrow>
     'j AppServices \<Rightarrow> bool" where
  "histories ops sd pl init s \<longleftrightarrow> (\<forall>t a. \<exists>h. stream_history ops sd pl init t a (streams s t a) h)"

lemma stream_history_other:
  "\<not> (es \<noteq> [] \<and> se_aggregate_type (hd es) = pl_aggregate_type pl) \<Longrightarrow>
     stream_history ops sd pl init t a es h \<longleftrightarrow> h = []"
  by (auto simp: stream_history_def decided_Nil)

lemma stream_history_own:
  "\<lbrakk> es \<noteq> []; se_aggregate_type (hd es) = pl_aggregate_type pl \<rbrakk> \<Longrightarrow>
     stream_history ops sd pl init t a es h \<longleftrightarrow>
       decodes sd es h \<and> (\<forall>e \<in> set h. pl_check pl t a e = Inr ()) \<and>
       decided (ao_apply ops) (ao_handle ops) (init a) h"
  by (auto simp: stream_history_def decodes_def list_all2_conv_all_nth all_set_conv_all_nth)

lemma streams_homogeneous:
  assumes "base_ok s" "e \<in> set (streams s t a)"
  shows "se_aggregate_type (hd (streams s t a)) = se_aggregate_type e"
  using stream_event_at [of "sv_event_store s" e t a] assms by (simp add: base_ok_def)

lemma histories_foreign:
  assumes "histories ops sd pl init s" "published s s' es"
    "\<forall>e \<in> set es. se_aggregate_type e \<noteq> pl_aggregate_type pl"
  shows "histories ops sd pl init s'"
  unfolding histories_def
proof (intro allI)
  fix t a
  let ?new = "filter (\<lambda>e. se_tenant_id e = t \<and> se_aggregate_id e = a) es"
  have st: "streams s' t a = streams s t a @ ?new" and ok: "base_ok s'"
    using assms(2) by (simp_all add: published_def)
  show "\<exists>h. stream_history ops sd pl init t a (streams s' t a) h"
  proof (cases "?new = []")
    case True
    then show ?thesis using assms(1) st by (simp add: histories_def)
  next
    case False
    then have "last ?new \<in> set (streams s' t a)" "last ?new \<in> set es"
      using st last_in_set [OF False] by auto
    then have "se_aggregate_type (hd (streams s' t a)) \<noteq> pl_aggregate_type pl"
      using streams_homogeneous [OF ok] assms(3) by metis
    then show ?thesis by (intro exI [of _ "[]"]) (simp add: stream_history_other)
  qed
qed

lemma histories_own:
  assumes "histories ops sd pl init s" "own_step ops sd pl init s s'" "base_ok s" "serde_ok sd"
    "\<forall>t a. length (streams s t a) < 2 ^ 64"
  shows "histories ops sd pl init s'"
  using assms(2)
proof (cases rule: own_step.cases)
  case (own_dispatch new_id t a c mk r)
  let ?ty = "pl_aggregate_type pl"
  obtain st' b' where d: "dispatch append_events load_stream bus_publish debug_bus_error ops sd new_id
      (sv_event_store s, sv_event_bus s) t a ?ty c mk = ((st', b'), r)"
    and s': "s' = s\<lparr>sv_event_store := st', sv_event_bus := b'\<rparr>"
    using own_dispatch(1) by (auto simp: services_dispatch_def split: prod.splits)
  note pub = dispatch_published [OF assms(3) own_dispatch(1)]
  have base: "store_invar (sv_event_store s)" "bus_invar (sv_event_bus s)"
    using assms(3) by (simp_all add: base_ok_def)
  show ?thesis
  proof (cases r)
    case (Inl e)
    then have "streams s' t' a' = streams s t' a'" for t' a'
      using pub(1) by (simp add: published_def)
    then show ?thesis using assms(1) by (simp add: histories_def)
  next
    case (Inr cs)
    note ok = in_memory_dispatcher.dispatch_success [OF d [unfolded Inr] base assms(4) assms(5) [rule_format]]
    have st: "streams s' t' a' = streams s t' a' @ (if t' = t \<and> a' = a then cs else [])" for t' a'
      using ok(2) by (simp add: s')
    obtain h d where h: "decodes sd (streams s t a) h"
      "ao_handle ops (foldl (ao_apply ops) (init a) h) c = Inr d" "decodes sd cs d"
      using ok(1) own_dispatch(2) by auto
    have "\<exists>h. stream_history ops sd pl init t a (streams s t a @ cs) h"
    proof (cases "cs = []")
      case True
      then show ?thesis using assms(1) by (simp add: histories_def)
    next
      case False
      then have "last cs \<in> set (streams s' t a)" "last cs \<in> set cs" using st by simp_all
      moreover have "base_ok s'" using pub(1) by (simp add: published_def)
      ultimately have ty: "se_aggregate_type (hd (streams s t a @ cs)) = ?ty"
        using streams_homogeneous [of s' "last cs" t a] pub(2) [OF Inr] st [of t a] by simp
      have old: "(\<forall>e \<in> set h. pl_check pl t a e = Inr ()) \<and> decided (ao_apply ops) (ao_handle ops) (init a) h"
      proof (cases "streams s t a = []")
        case True
        then show ?thesis using h(1) by (simp add: decided_Nil)
      next
        case ne: False
        then have "se_aggregate_type (hd (streams s t a)) = ?ty" using ty by simp
        then obtain h' where "decodes sd (streams s t a) h'" "\<forall>e \<in> set h'. pl_check pl t a e = Inr ()"
          "decided (ao_apply ops) (ao_handle ops) (init a) h'"
          using assms(1) stream_history_own [OF ne] unfolding histories_def by metis
        then show ?thesis using decodes_unique [OF h(1)] by blast
      qed
      have "stream_history ops sd pl init t a (streams s t a @ cs) (h @ d)"
        using decodes_append [OF h(1,3)] old own_dispatch(3) [OF h(2)] decided_step [OF conjunct2 [OF old] h(2)]
          False ty by (subst stream_history_own) auto
      then show ?thesis ..
    qed
    then show ?thesis using assms(1) by (simp add: histories_def st)
  qed
qed

subsection \<open>The log of a caught-up subscriber\<close>

lemma histories_choice:
  assumes "histories ops sd pl init s"
  obtains hist where "\<forall>t. decodes_streams (sd_from_value sd) pl (sv_event_store s) t (hist t)"
    "\<forall>t a. decided (ao_apply ops) (ao_handle ops) (init a) (hist t a)"
    "\<forall>t a. stream_history ops sd pl init t a (streams s t a) (hist t a)"
proof -
  obtain hist where hist: "\<forall>t a. stream_history ops sd pl init t a (streams s t a) (hist t a)"
    using assms unfolding histories_def by metis
  then show thesis
    by (intro that [of hist]) (auto simp: stream_history_def decodes_streams_def)
qed

definition log_of :: "'j InMemoryEventStore \<Rightarrow> 'j EventEnvelope list \<Rightarrow> bool" where
  "log_of st proc \<longleftrightarrow> (\<forall>t a. filter (in_stream t a) proc = map to_envelope (stream_of st t a))"

lemma log_of_event:
  assumes "log_of st proc" "env \<in> set proc"
  obtains e where "env = to_envelope e" "e \<in> set (stream_of st (ee_tenant_id env) (ee_aggregate_id env))"
proof -
  have "env \<in> set (filter (in_stream (ee_tenant_id env) (ee_aggregate_id env)) proc)"
    using assms(2) by (simp add: in_stream_def)
  then show thesis using assms(1) that unfolding log_of_def by auto
qed

lemma log_genuine:
  assumes "store_invar st" "\<forall>t a. length (stream_of st t a) < 2 ^ 64" "log_of st proc"
    "\<forall>t. decodes_streams from_value pl st t (hist t)"
  shows "\<forall>env \<in> set proc. genuine from_value pl hist env"
proof
  fix env assume "env \<in> set proc"
  then obtain e where e: "env = to_envelope e" "e \<in> set (stream_of st (ee_tenant_id env) (ee_aggregate_id env))"
    by (rule log_of_event [OF assms(3)])
  show "genuine from_value pl hist env"
  proof (cases "se_aggregate_type e = pl_aggregate_type pl")
    case True
    show ?thesis
      using stream_event_genuine [where hist = hist, OF assms(1) spec [OF assms(4)] assms(2) [rule_format] e(2) True] e(1) by simp
  qed (simp add: genuine_def e(1))
qed

lemma log_numbers:
  assumes "store_invar st" "\<forall>t a. length (stream_of st t a) < 2 ^ 64" "log_of st proc"
    "\<forall>t. decodes_streams from_value pl st t (hist t)"
  shows "numbers (pl_aggregate_type pl) proc t a = {1..length (hist t a)}"
proof -
  let ?ty = "pl_aggregate_type pl"
  have "filter (\<lambda>env. ee_aggregate_type env = ?ty \<and> ee_tenant_id env = t \<and> ee_aggregate_id env = a) proc
      = filter (\<lambda>env. ee_aggregate_type env = ?ty) (filter (in_stream t a) proc)"
    by (simp add: in_stream_def conj_commute)
  also have "\<dots> = map to_envelope (filter (\<lambda>e. se_aggregate_type e = ?ty) (stream_of st t a))"
    using assms(3) by (simp add: log_of_def filter_map o_def)
  finally show ?thesis
    unfolding numbers_def
    using stream_numbers [where hist = hist, OF assms(1) spec [OF assms(4)] assms(2) [rule_format], of t a]
    by (simp add: image_image)
qed

lemma log_no_gaps:
  assumes "store_invar st" "\<forall>t a. length (stream_of st t a) < 2 ^ 64" "log_of st proc"
  shows "no_gaps ty (\<lambda>_ _. 0) proc"
proof (rule no_gaps_splits)
  fix xs env ys assume split: "proc = xs @ env # ys" and ty: "ee_aggregate_type env = ty"
  let ?t = "ee_tenant_id env" and ?a = "ee_aggregate_id env"
  let ?es = "stream_of st ?t ?a" and ?before = "filter (in_stream ?t ?a) xs"
  define k where "k = length ?before"
  have fs: "?before @ env # filter (in_stream ?t ?a) ys = map to_envelope ?es"
    using assms(3) unfolding split log_of_def
    by (metis filter.simps(2) filter_append in_stream_def)
  have k: "k < length ?es" using arg_cong [OF fs, of length] by (simp add: k_def)
  have at: "map to_envelope ?es ! k = env" unfolding fs [symmetric] by (simp add: k_def)
  have num: "unat (se_sequence_number (?es ! i)) = Suc i" if "i < length ?es" for i
    using stream_number [of ?t ?a ?es i] assms(1,2) that by (simp add: store_invar_def)
  have "k \<le> Max (insert 0 (numbers ty xs ?t ?a))"
  proof (cases k)
    case (Suc i)
    have i: "i < length ?before" using Suc by (simp add: k_def)
    then have "?before ! i = map to_envelope ?es ! i" unfolding fs [symmetric] by (simp add: nth_append)
    then have b: "?before ! i = to_envelope (?es ! i)" using k Suc by simp
    have mem: "to_envelope (?es ! i) \<in> set ?before" unfolding b [symmetric] by (rule nth_mem [OF i])
    have "se_aggregate_type (?es ! i) = se_aggregate_type (hd ?es)"
      "se_aggregate_type (?es ! k) = se_aggregate_type (hd ?es)"
      using assms(1) k Suc by (auto simp: store_invar_def stream_ok_def)
    moreover have "to_envelope (?es ! k) = env" using at k by simp
    then have "ee_aggregate_type (to_envelope (?es ! k)) = ty" by (simp only: ty)
    ultimately have "se_aggregate_type (?es ! i) = ty" by (simp only: envelope_fields)
    then have "unat (ee_sequence_number (to_envelope (?es ! i))) \<in> numbers ty xs ?t ?a"
      using mem unfolding numbers_def by (intro imageI) (auto simp: in_stream_def)
    then have "k \<in> numbers ty xs ?t ?a" using num [of i] k Suc by simp
    then show ?thesis by simp
  qed simp
  moreover have e: "to_envelope (?es ! k) = env" using at k by simp
  have "se_sequence_number (?es ! k) = ee_sequence_number env"
    using arg_cong [OF e, of ee_sequence_number] by (simp only: envelope_fields)
  then have "unat (ee_sequence_number env) = Suc k" using num [OF k] by (simp only:)
  ultimately show "unat (ee_sequence_number env) \<le> Suc (foldl (advance ty) (\<lambda>_ _. 0) xs ?t ?a)"
    by (simp add: advance_Max)
qed

subsection \<open>The committed state\<close>

text \<open>The state the dispatcher would replay from a stream: \<^verbatim>\<open>apply_history\<close> on the stream of the
  aggregate, the initial state when the stream is empty or of another aggregate type.\<close>

definition committed_state ::
    "('a, 'e, 'c) AggregateOps \<Rightarrow> ('e, 'j) Serde \<Rightarrow> string \<Rightarrow> (AggregateId \<Rightarrow> 'a) \<Rightarrow> 'j AppServices \<Rightarrow>
     TenantId \<Rightarrow> AggregateId \<Rightarrow> DispatchError + 'a" where
  "committed_state ops sd ty init s t a =
    (let es = streams s t a in
     if es \<noteq> [] \<and> se_aggregate_type (hd es) = ty
     then apply_history (ao_apply ops) (sd_from_value sd) (init a) es else Inr (init a))"

lemma history_committed:
  assumes "stream_history ops sd pl init t a (streams s t a) h" "stream_ok t a (streams s t a)"
    "length (streams s t a) < 2 ^ 64"
  shows "committed_state ops sd (pl_aggregate_type pl) init s t a = Inr (foldl (ao_apply ops) (init a) h)"
proof (cases "streams s t a \<noteq> [] \<and> se_aggregate_type (hd (streams s t a)) = pl_aggregate_type pl")
  case True
  then have "decodes sd (streams s t a) h" using assms(1) by (simp add: stream_history_own)
  then show ?thesis
    using True by (auto simp: committed_state_def Let_def apply_history_ok [OF assms(2,3)])
next
  case False
  then show ?thesis using assms(1) stream_history_other [OF False, of ops sd init t a h]
    by (auto simp: committed_state_def Let_def)
qed

lemma app_reach_streams_ok:
  assumes "app_reach pf sz validate l s"
  shows "stream_ok t a (streams s t a)"
proof -
  have "base_ok s"
    using assms
  proof induction
    case (app_request s r)
    then show ?case using arrive_publishes [of r s pf sz validate] by (auto simp: publishes_def published_def)
  next
    case (app_deliver s fresh)
    then show ?case by (cases "pending s") (simp_all add: subscriber_idle subscriber_takes(2))
  qed (rule base_ok_start)
  then show ?thesis by (simp add: base_ok_def store_invar_def)
qed

subsection \<open>Views served by the application\<close>

text \<open>The laws that connect a view to the services: how the subscriber feeds it, that it starts
  empty, and that a request about its aggregate dispatches commands to it.\<close>

locale served_view =
  state_view ts_get ts_upsert "ts_list id" ts_clear_tenant ts_ok pl key row id_of evolve handle version invar mk init obs view
  for pl :: "(('k, 'v) InMemoryTenantStore, 'e) ProjectionLogic"
    and key :: "'e \<Rightarrow> 'k"
    and row :: "'v option \<Rightarrow> 'e \<Rightarrow> 'v option"
    and id_of :: "'k \<Rightarrow> AggregateId"
    and evolve :: "'a \<Rightarrow> 'e \<Rightarrow> 'a"
    and handle :: "'a \<Rightarrow> 'c \<Rightarrow> DomainError + 'e list"
    and version :: "'a \<Rightarrow> u64"
    and invar :: "'a \<Rightarrow> bool"
    and mk :: "AggregateId \<Rightarrow> 'k"
    and init :: "AggregateId \<Rightarrow> 'a"
    and obs :: "'v \<Rightarrow> 'w"
    and view :: "'a \<Rightarrow> 'w option" +
  fixes pf :: Platform
    and sz :: "'j Serdes"
    and proj :: "'j AppServices \<Rightarrow> (('k, 'v) InMemoryTenantStore, unit) Projection"
    and ops :: "('a, 'e, 'c) AggregateOps"
    and sd :: "('e, 'j) Serde"
    and name :: string
  assumes ops_laws: "ao_apply ops = evolve" "ao_handle ops = handle"
    and fed: "fed_by sz proj (sd_from_value sd) pl"
    and starts_empty: "proj (build_in_memory_services l) = projection_new ts_new name"
    and own_requests: "request_type request = pl_aggregate_type pl \<Longrightarrow>
      (own_step ops sd pl init)\<^sup>*\<^sup>* s (fst (serve pf sz fr tenant prin request s))"
begin

lemma arrive_own:
  assumes "request_type (arv_request r) = pl_aggregate_type pl"
  shows "(own_step ops sd pl init)\<^sup>*\<^sup>* s (arrive pf sz validate r s)"
  using own_requests [OF assms] by (auto simp: arrive_def http_request_def split: sum.splits)

lemma own_steps_inv:
  assumes "(own_step ops sd pl init)\<^sup>*\<^sup>* s s'" "histories ops sd pl init s" "base_ok s" "serde_ok sd"
    "\<forall>t a. length (streams s' t a) < 2 ^ 64"
  shows "histories ops sd pl init s' \<and> base_ok s'"
  using assms
proof (induction rule: rtranclp_induct)
  case (step s1 s2)
  have "length (streams s1 t a) < 2 ^ 64" for t a
    using prefix_length_le [OF own_step_grows [OF step.hyps(2)], of t a] step.prems(4) le_less_trans by blast
  then have len: "\<forall>t a. length (streams s1 t a) < 2 ^ 64" by simp
  then have h: "histories ops sd pl init s1" and b: "base_ok s1" using step by auto
  obtain es where "published s1 s2 es" using own_step_published [OF step.hyps(2) b] by blast
  then show ?case
    using histories_own [OF h step.hyps(2) b step.prems(3) len] by (simp add: published_def)
qed simp

lemma reach_inv:
  assumes "app_reach pf sz validate l s" "serde_ok sd" "\<forall>t a. length (streams s t a) < 2 ^ 64"
  shows "histories ops sd pl init s \<and> (\<exists>proc. log_ok s proc \<and> proj s =
    foldl (\<lambda>p env. fst (apply_envelope InMemoryCursorStore (sd_from_value sd) pl p env)) (projection_new ts_new name) proc)"
  using assms(1,3)
proof induction
  case app_start
  have "streams (build_in_memory_services l :: 'j AppServices) t a = []" for t a
    by (simp add: build_in_memory_services_def)
  then show ?case
    using log_ok_start [of l] by (auto simp: histories_def stream_history_other starts_empty intro!: exI [of _ "[]"])
next
  case (app_request s r)
  let ?s = "arrive pf sz validate r s"
  have "length (streams s t a) < 2 ^ 64" for t a
    using prefix_length_le [OF http_api.handle_grows [of s t a pf sz validate r]] app_request.prems le_less_trans by blast
  then obtain proc where h: "histories ops sd pl init s" and log: "log_ok s proc"
    and pj: "proj s = foldl (\<lambda>p env. fst (apply_envelope InMemoryCursorStore (sd_from_value sd) pl p env))
      (projection_new ts_new name) proc" using app_request.IH by auto
  have b: "base_ok s" using log by (simp add: log_ok_def)
  then obtain es where es: "published s ?s es" "\<forall>e \<in> set es. se_aggregate_type e = request_type (arv_request r)"
    using arrive_publishes [of r s pf sz validate] by (auto simp: publishes_def)
  have "proj ?s = proj s"
    using arrive_commits [of pf sz validate r s] fed_by_commits [OF fed] by metis
  moreover have "histories ops sd pl init ?s"
  proof (cases "request_type (arv_request r) = pl_aggregate_type pl")
    case True
    from own_steps_inv [OF arrive_own [OF True] h b assms(2) app_request.prems] show ?thesis ..
  next
    case False
    then show ?thesis using es(2) by (intro histories_foreign [OF h es(1)]) auto
  qed
  ultimately show ?case using log_ok_published [OF log es(1)] pj by auto
next
  case (app_deliver s fresh)
  show ?case
  proof (cases "pending s")
    case Nil
    then show ?thesis using app_deliver by (simp add: subscriber_idle)
  next
    case (Cons env q)
    let ?s = "subscriber_turn pf sz fresh s"
    obtain proc where h: "histories ops sd pl init s" and log: "log_ok s proc"
      and pj: "proj s = foldl (\<lambda>p env. fst (apply_envelope InMemoryCursorStore (sd_from_value sd) pl p env))
        (projection_new ts_new name) proc"
      using app_deliver by (auto simp: subscriber_streams)
    show ?thesis
      using h log_ok_processed [OF log Cons, of pf sz fresh] subscriber_feeds [OF fed Cons, of pf fresh] pj
      by (auto simp: histories_def subscriber_streams intro!: exI [of _ "proc @ [env]"])
  qed
qed

text \<open>Once the queue is empty, every row is the state its stream replays to.\<close>

lemma caught_up:
  assumes "app_reach pf sz validate l s" "serde_ok sd" "\<forall>t a. length (streams s t a) < 2 ^ 64" "pending s = []"
  shows "\<exists>h. stream_history ops sd pl init t a (streams s t a) h \<and>
    map_option obs (ts_get (pj_store (proj s)) t (mk a)) = view (foldl evolve (init a) h)"
proof -
  let ?step = "apply_envelope InMemoryCursorStore (sd_from_value sd) pl" and ?ty = "pl_aggregate_type pl"
  let ?st = "sv_event_store s"
  obtain proc where h: "histories ops sd pl init s" and log: "log_ok s proc"
    and pj: "proj s = foldl (\<lambda>p env. fst (?step p env)) (projection_new ts_new name) proc"
    using reach_inv [OF assms(1-3)] by blast
  obtain hist where dec: "\<forall>t. decodes_streams (sd_from_value sd) pl ?st t (hist t)"
    and dcd: "\<forall>t a. decided evolve handle (init a) (hist t a)"
    and hist: "\<forall>t a. stream_history ops sd pl init t a (streams s t a) (hist t a)"
    using histories_choice [OF h] by (auto simp: ops_laws)
  have inv: "store_invar ?st" and lg: "log_of ?st proc"
    using log assms(4) by (simp_all add: log_ok_def base_ok_def log_of_def)
  note facts = inv assms(3) lg
  have "\<exists>p. apply_envelopes ?step (projection_new ts_new name) proc = (p, Inr ()) \<and>
    (\<forall>t a. map_option obs (ts_get (pj_store p) t (mk a)) = view (foldl evolve (init a)
      (take (foldl (advance ?ty) (\<lambda>_ _. 0) proc t a) (hist t a))))"
    by (rule deliver_view [OF dcd _ _ _ _ log_genuine [OF facts dec] log_no_gaps [OF facts]])
      (simp_all)
  moreover have "foldl (advance ?ty) (\<lambda>_ _. 0) proc t a = length (hist t a)"
    unfolding advance_Max log_numbers [where hist = hist, OF facts dec]
    by (rule Max_eqI) (auto simp: Suc_le_eq)
  ultimately have "map_option obs (ts_get (pj_store (proj s)) t (mk a)) = view (foldl evolve (init a) (hist t a))"
    using apply_envelopes_foldl [of ?step] by (fastforce simp: pj)
  then show ?thesis using hist by blast
qed

lemma answers_state:
  assumes "app_reach pf sz validate l s" "serde_ok sd" "\<forall>t a. length (streams s t a) < 2 ^ 64"
    "length (pending s) \<le> n"
  shows "\<exists>x. committed_state ops sd (pl_aggregate_type pl) init s t a = Inr x \<and>
    map_option obs (ts_get (pj_store (proj ((subscriber_turn pf sz fresh ^^ n) s))) t (mk a)) = view x"
proof -
  let ?s = "(subscriber_turn pf sz fresh ^^ n) s"
  have "base_ok s" using reach_inv [OF assms(1-3)] by (auto simp: log_ok_def)
  then have "pending ?s = []" by (rule subscriber_catches_up [OF _ assms(4)])
  moreover note str = subscriber_turns_streams [of n pf sz fresh s] and
    subscriber_turns_reach [OF assms(1), of n fresh]
  ultimately obtain h where h: "stream_history ops sd pl init t a (streams s t a) h"
    "map_option obs (ts_get (pj_store (proj ?s)) t (mk a)) = view (foldl evolve (init a) h)"
    using caught_up [of validate l ?s t a] assms(2,3) by auto
  from history_committed [OF h(1) app_reach_streams_ok [OF assms(1)] assms(3) [rule_format]] h(2)
  show ?thesis by (simp add: ops_laws)
qed

end

subsection \<open>The read models of items, products, parties and sales orders\<close>

lemma run_command_own:
  assumes "\<And>st d. ao_handle ops st c = Inr d \<Longrightarrow> \<forall>e \<in> set d. pl_check pl (tc_tenant_id tenant) a e = Inr ()"
    "mk (tc_tenant_id tenant) a = init a" "ty = pl_aggregate_type pl"
  shows "(own_step ops sd pl init)\<^sup>*\<^sup>* s
    (fst (run_command pf ops sd new_id tenant prin perm a ty c mk reply s))"
proof -
  have "(own_step ops sd pl init)\<^sup>*\<^sup>* s s'"
    if "services_dispatch ops sd new_id s (tc_tenant_id tenant) a ty c mk = (s', r)" for s' r
    using own_dispatch [of ops sd new_id s "tc_tenant_id tenant" a pl c mk s' r init] that assms by auto
  then show ?thesis
    by (auto simp: run_command_def dispatch_or_response_def split: sum.splits prod.splits)
qed

lemma parsed_own:
  assumes "\<And>x. parsed = Inr x \<Longrightarrow> R\<^sup>*\<^sup>* s (fst (k x))"
  shows "R\<^sup>*\<^sup>* s (fst (case parsed of Inl response \<Rightarrow> (s, response) | Inr x \<Rightarrow> k x))"
  using assms by (cases parsed) simp_all

lemma apply_envelope_other:
  "ee_aggregate_type env \<noteq> pl_aggregate_type pl \<Longrightarrow> apply_envelope cs from_value pl p env = (p, Inr ())"
  by (simp add: apply_envelope_def)

lemma ops_simps:
  "ao_apply inventory_ops = item_apply" "ao_handle inventory_ops = item_handle"
  "ao_apply product_ops = product_apply" "ao_handle product_ops = product_handle"
  "ao_apply party_ops = party_apply" "ao_handle party_ops = party_handle"
  "ao_apply sales_ops = sales_apply" "ao_handle sales_ops = sales_handle"
  by (simp_all add: inventory_ops_def product_ops_def party_ops_def sales_ops_def)

lemma stock_requests:
  assumes "request_type request = pl_aggregate_type inventory_stock"
  shows "(own_step inventory_ops (sz_inventory sz) inventory_stock (\<lambda>a. item_empty (InventoryItemId a)))\<^sup>*\<^sup>* s
    (fst (serve pf sz fr tenant prin request s))"
  using assms
  by (cases request)
    (auto simp: inventory_stock_def route_defs Let_def ops_simps item_handle_create_ok item_handle_adjust_ok
      intro!: parsed_own run_command_own)

interpretation served_stock: served_view inventory_stock inventory_event_item stock_row item_aggregate
    item_apply item_handle ii_version item_invar InventoryItemId "\<lambda>a. item_empty (InventoryItemId a)" id item_view
    pf sz sv_inventory_projection inventory_ops "sz_inventory sz" "''inventory.stock''"
proof
  show "fed_by sz sv_inventory_projection (sd_from_value (sz_inventory sz)) inventory_stock"
    by (simp add: fed_by_def apply_to_projections_def Let_def split_beta apply_envelope_other inventory_stock_def)
qed (simp_all add: ops_simps stock_requests build_in_memory_services_def)

lemma product_requests:
  assumes "request_type request = pl_aggregate_type product_catalog"
  shows "(own_step product_ops (sz_product sz) product_catalog (\<lambda>a. product_empty (ProductId a)))\<^sup>*\<^sup>* s
    (fst (serve pf sz fr tenant prin request s))"
  using assms
  by (cases request)
    (auto simp: product_catalog_def route_defs Let_def ops_simps product_check_def product_defs result_simps
      intro!: parsed_own run_command_own split: if_splits option.splits)

interpretation served_products: served_view product_catalog product_event_product product_row product_aggregate
    product_apply product_handle pr_version product_invar ProductId "\<lambda>a. product_empty (ProductId a)" id product_view
    pf sz sv_products_projection product_ops "sz_product sz" "''products.catalog''"
proof
  show "fed_by sz sv_products_projection (sd_from_value (sz_product sz)) product_catalog"
    by (simp add: fed_by_def apply_to_projections_def Let_def split_beta apply_envelope_other product_catalog_def)
qed (simp_all add: ops_simps product_requests build_in_memory_services_def)

lemma party_requests:
  assumes "request_type request = pl_aggregate_type party_directory"
  shows "(own_step party_ops (sz_party sz) party_directory (\<lambda>a. party_empty (PartyId a)))\<^sup>*\<^sup>* s
    (fst (serve pf sz fr tenant prin request s))"
  using assms
  by (cases request)
    (auto simp: party_directory_def route_defs Let_def ops_simps party_check_def party_defs result_simps
      intro!: parsed_own run_command_own split: if_splits option.splits)

interpretation served_parties: served_view party_directory party_event_party party_row party_aggregate
    party_apply party_handle pa_version party_invar PartyId "\<lambda>a. party_empty (PartyId a)" id party_view
    pf sz sv_parties_projection party_ops "sz_party sz" "''parties.directory''"
proof
  show "fed_by sz sv_parties_projection (sd_from_value (sz_party sz)) party_directory"
    by (simp add: fed_by_def apply_to_projections_def Let_def split_beta apply_envelope_other party_directory_def)
qed (simp_all add: ops_simps party_requests build_in_memory_services_def)

lemma sales_requests:
  assumes "request_type request = pl_aggregate_type sales_orders"
  shows "(own_step sales_ops (sz_sales sz) sales_orders (\<lambda>a. sales_order_empty (SalesOrderId a)))\<^sup>*\<^sup>* s
    (fst (serve pf sz fr tenant prin request s))"
  using assms
  by (cases request)
    (auto simp: sales_orders_def route_defs Let_def ops_simps sales_check_def sales_defs result_simps
      intro!: parsed_own run_command_own split: if_splits option.splits)

interpretation served_sales: served_view sales_orders sales_event_order sales_row sales_order_aggregate
    sales_apply sales_handle so_version sales_invar SalesOrderId "\<lambda>a. sales_order_empty (SalesOrderId a)" id sales_view
    pf sz sv_sales_projection sales_ops "sz_sales sz" "''sales.orders''"
proof
  show "fed_by sz sv_sales_projection (sd_from_value (sz_sales sz)) sales_orders"
    by (simp add: fed_by_def apply_to_projections_def Let_def split_beta apply_envelope_other sales_orders_def)
qed (simp_all add: ops_simps sales_requests build_in_memory_services_def)

subsection \<open>Properties\<close>


definition sample_created :: "InventoryEvent AppServices" where
  "sample_created = arrive sample_platform sample_serdes sample_validate
     \<lparr> arv_now = 50, arv_fresh = sample_fresh, arv_authorization = Some (Str ''Bearer admin''),
       arv_request = PostInventoryItems \<lparr> cir_name = ''bolt'' \<rparr> \<rparr> (build_in_memory_services (AggregateId 5))"

text \<open>After one request the streams are as short as the queue.\<close>

lemma first_request_short:
  assumes "s = arrive pf sz validate r (build_in_memory_services l)"
  shows "length (streams s t a) \<le> length (pending s)"
proof -
  obtain es where "published (build_in_memory_services l) s es"
    using arrive_publishes [of r "build_in_memory_services l" pf sz validate] base_ok_start(1) [of l]
    by (auto simp: publishes_def assms)
  then have "pending s = map to_envelope es" "streams s t a = filter (\<lambda>e. se_tenant_id e = t \<and> se_aggregate_id e = a) es"
    using base_ok_start(2) [of l] by (simp_all add: published_def) (simp add: build_in_memory_services_def)
  then show ?thesis by simp
qed



definition sample_product_serdes :: "ProductEvent Serdes" where
  "sample_product_serdes = \<lparr> sz_inventory = no_serde, sz_product = \<lparr> sd_to_value = Inr, sd_from_value = Inr \<rparr>,
     sz_party = no_serde, sz_sales = no_serde, sz_purchase = no_serde, sz_invoice = no_serde,
     sz_ledger = no_serde, sz_user = no_serde \<rparr>"

definition sample_product :: "ProductEvent AppServices" where
  "sample_product = arrive sample_platform sample_product_serdes sample_validate
     \<lparr> arv_now = 50, arv_fresh = sample_fresh, arv_authorization = Some (Str ''Bearer admin''),
       arv_request = PostProducts \<lparr> cpr_sku = ''B1'', cpr_name = ''bolt'', cpr_pricing = None \<rparr> \<rparr>
     (build_in_memory_services (AggregateId 5))"


end
