(* ===== verification/Replay_Routes.thy ===== *)
theory Replay_Routes
  imports End_To_End
begin

text \<open>
  The routes that rebuild read models (\<^verbatim>\<open>api/src/app/routes/replay.rs\<close>): the store of replay jobs, the callbacks for
  each projection and the handlers.

  A handler that starts a replay hands a task to the runtime; \<^verbatim>\<open>run_task\<close> is what the task does with the services.
  It runs here without deliveries to its projection in between; a cancellation can come at any of its looks at the
  flag.  The iteration order of the store's streams and of the job map, fresh ids and the JSON value \<^verbatim>\<open>{}\<close> are
  arguments.
\<close>

subsection \<open>Jobs\<close>

record ReplayHandle =
  rh_progress :: ReplayProgress
  rh_cancellation :: bool

type_synonym ReplayJobStore = "(uuid \<times> ReplayHandle) list"

definition replay_jobs_insert :: "ReplayJobStore \<Rightarrow> uuid \<Rightarrow> ReplayHandle \<Rightarrow> ReplayJobStore" where
  "replay_jobs_insert self job_id handle = AList.update job_id handle self"

definition replay_jobs_get :: "ReplayJobStore \<Rightarrow> uuid \<Rightarrow> ReplayHandle option" where
  "replay_jobs_get self job_id = map_of self job_id"

definition replay_jobs_list :: "(uuid list \<Rightarrow> uuid list) \<Rightarrow> ReplayJobStore \<Rightarrow> uuid list" where
  "replay_jobs_list iter self = iter (map fst self)"

definition replay_jobs_remove :: "ReplayJobStore \<Rightarrow> uuid \<Rightarrow> ReplayJobStore" where
  "replay_jobs_remove self job_id = AList.delete job_id self"

record ReplayRequest =
  rq_projection :: "string option"
  rq_dry_run :: "bool option"

text \<open>What the spawned task holds.\<close>

record 'j ReplayTask =
  rt_tenant_id :: TenantId
  rt_aggregate_types :: "string list"
  rt_apply_fn :: "'j AppServices \<Rightarrow> 'j EventEnvelope \<Rightarrow> 'j AppServices \<times> (string + unit)"
  rt_clear_fn :: "'j AppServices \<Rightarrow> TenantId \<Rightarrow> 'j AppServices"
  rt_dry_run :: bool

definition run_task ::
    "StreamKey list \<Rightarrow> (nat \<Rightarrow> bool) \<Rightarrow> 'j ReplayTask \<Rightarrow> 'j AppServices \<Rightarrow> ('j AppServices \<times> ReplayProgress) option" where
  "run_task keys cancelled task services =
     replay_projection (query_events keys (sv_event_store services)) (rt_tenant_id task) (rt_aggregate_types task)
       (rt_apply_fn task) (rt_clear_fn task) (rt_dry_run task) cancelled services"

subsection \<open>Callbacks\<close>

definition show_apply_error :: "string \<Rightarrow> ApplyError \<Rightarrow> string" where
  "show_apply_error what e =
    (case e of
       Deserialize m \<Rightarrow> ''failed to deserialize '' @ what @ '' event: '' @ m
     | ApplyError.TenantIsolation m \<Rightarrow> ''tenant isolation violation: '' @ m
     | NonMonotonicSequence last_seq found \<Rightarrow> ''non-monotonic sequence number (last='' @ show_u64 last_seq
         @ '', found='' @ show_u64 found @ '')'')"

text \<open>The ids a callback makes up: of the dummy envelope, and of a partner that a row invents.\<close>

record ReplayFresh =
  rf_event_id :: uuid
  rf_aggregate_id :: uuid
  rf_partner :: AggregateId

definition create_inventory_apply_fn :: "'j Serdes \<Rightarrow> 'j AppServices \<Rightarrow> 'j EventEnvelope \<Rightarrow> 'j AppServices \<times> (string + unit)" where
  "create_inventory_apply_fn sz services envelope =
    (case create_apply_fn show_stock_apply_error
            (apply_envelope InMemoryCursorStore (sd_from_value (sz_inventory sz)) inventory_stock)
            (sv_inventory_projection services) envelope of
       (p, r) \<Rightarrow> (services\<lparr>sv_inventory_projection := p\<rparr>, r))"

definition create_inventory_clear_fn :: "'j Serdes \<Rightarrow> 'j \<Rightarrow> ReplayFresh \<Rightarrow> 'j AppServices \<Rightarrow> TenantId \<Rightarrow> 'j AppServices" where
  "create_inventory_clear_fn sz empty_object rf services tenant_id =
     services\<lparr>sv_inventory_projection := create_clear_fn InMemoryCursorStore ts_clear_tenant
       (apply_envelope InMemoryCursorStore (sd_from_value (sz_inventory sz)) inventory_stock) ''inventory.item'' empty_object
       (rf_event_id rf) (rf_aggregate_id rf) (sv_inventory_projection services) tenant_id\<rparr>"

definition create_products_apply_fn :: "'j Serdes \<Rightarrow> 'j AppServices \<Rightarrow> 'j EventEnvelope \<Rightarrow> 'j AppServices \<times> (string + unit)" where
  "create_products_apply_fn sz services envelope =
    (case create_apply_fn (show_apply_error ''product'')
            (apply_envelope InMemoryCursorStore (sd_from_value (sz_product sz)) product_catalog)
            (sv_products_projection services) envelope of
       (p, r) \<Rightarrow> (services\<lparr>sv_products_projection := p\<rparr>, r))"

definition create_products_clear_fn :: "'j Serdes \<Rightarrow> 'j \<Rightarrow> ReplayFresh \<Rightarrow> 'j AppServices \<Rightarrow> TenantId \<Rightarrow> 'j AppServices" where
  "create_products_clear_fn sz empty_object rf services tenant_id =
     services\<lparr>sv_products_projection := create_clear_fn InMemoryCursorStore ts_clear_tenant
       (apply_envelope InMemoryCursorStore (sd_from_value (sz_product sz)) product_catalog) ''products.product'' empty_object
       (rf_event_id rf) (rf_aggregate_id rf) (sv_products_projection services) tenant_id\<rparr>"

definition create_parties_apply_fn :: "'j Serdes \<Rightarrow> 'j AppServices \<Rightarrow> 'j EventEnvelope \<Rightarrow> 'j AppServices \<times> (string + unit)" where
  "create_parties_apply_fn sz services envelope =
    (case create_apply_fn (show_apply_error ''party'')
            (apply_envelope InMemoryCursorStore (sd_from_value (sz_party sz)) party_directory)
            (sv_parties_projection services) envelope of
       (p, r) \<Rightarrow> (services\<lparr>sv_parties_projection := p\<rparr>, r))"

definition create_parties_clear_fn :: "'j Serdes \<Rightarrow> 'j \<Rightarrow> ReplayFresh \<Rightarrow> 'j AppServices \<Rightarrow> TenantId \<Rightarrow> 'j AppServices" where
  "create_parties_clear_fn sz empty_object rf services tenant_id =
     services\<lparr>sv_parties_projection := create_clear_fn InMemoryCursorStore ts_clear_tenant
       (apply_envelope InMemoryCursorStore (sd_from_value (sz_party sz)) party_directory) ''parties.party'' empty_object
       (rf_event_id rf) (rf_aggregate_id rf) (sv_parties_projection services) tenant_id\<rparr>"

definition create_sales_apply_fn :: "'j Serdes \<Rightarrow> 'j AppServices \<Rightarrow> 'j EventEnvelope \<Rightarrow> 'j AppServices \<times> (string + unit)" where
  "create_sales_apply_fn sz services envelope =
    (case create_apply_fn (show_apply_error ''sales order'')
            (apply_envelope InMemoryCursorStore (sd_from_value (sz_sales sz)) sales_orders)
            (sv_sales_projection services) envelope of
       (p, r) \<Rightarrow> (services\<lparr>sv_sales_projection := p\<rparr>, r))"

definition create_sales_clear_fn :: "'j Serdes \<Rightarrow> 'j \<Rightarrow> ReplayFresh \<Rightarrow> 'j AppServices \<Rightarrow> TenantId \<Rightarrow> 'j AppServices" where
  "create_sales_clear_fn sz empty_object rf services tenant_id =
     services\<lparr>sv_sales_projection := create_clear_fn InMemoryCursorStore ts_clear_tenant
       (apply_envelope InMemoryCursorStore (sd_from_value (sz_sales sz)) sales_orders) ''sales.order'' empty_object
       (rf_event_id rf) (rf_aggregate_id rf) (sv_sales_projection services) tenant_id\<rparr>"

definition create_invoices_apply_fn ::
    "'j Serdes \<Rightarrow> ReplayFresh \<Rightarrow> 'j AppServices \<Rightarrow> 'j EventEnvelope \<Rightarrow> 'j AppServices \<times> (string + unit)" where
  "create_invoices_apply_fn sz rf services envelope =
    (case create_apply_fn (show_apply_error ''invoice'')
            (apply_envelope InMemoryCursorStore (sd_from_value (sz_invoice sz)) (invoices (rf_partner rf)))
            (sv_invoices_projection services) envelope of
       (p, r) \<Rightarrow> (services\<lparr>sv_invoices_projection := p\<rparr>, r))"

definition create_invoices_clear_fn :: "'j Serdes \<Rightarrow> 'j \<Rightarrow> ReplayFresh \<Rightarrow> 'j AppServices \<Rightarrow> TenantId \<Rightarrow> 'j AppServices" where
  "create_invoices_clear_fn sz empty_object rf services tenant_id =
     services\<lparr>sv_invoices_projection := create_clear_fn InMemoryCursorStore ts_clear_tenant
       (apply_envelope InMemoryCursorStore (sd_from_value (sz_invoice sz)) (invoices (rf_partner rf))) ''invoicing.invoice'' empty_object
       (rf_event_id rf) (rf_aggregate_id rf) (sv_invoices_projection services) tenant_id\<rparr>"

definition create_purchases_apply_fn ::
    "'j Serdes \<Rightarrow> ReplayFresh \<Rightarrow> 'j AppServices \<Rightarrow> 'j EventEnvelope \<Rightarrow> 'j AppServices \<times> (string + unit)" where
  "create_purchases_apply_fn sz rf services envelope =
    (case create_apply_fn (show_apply_error ''purchase order'')
            (apply_envelope InMemoryCursorStore (sd_from_value (sz_purchase sz)) (purchase_orders (rf_partner rf)))
            (sv_purchases_projection services) envelope of
       (p, r) \<Rightarrow> (services\<lparr>sv_purchases_projection := p\<rparr>, r))"

definition create_purchases_clear_fn :: "'j Serdes \<Rightarrow> 'j \<Rightarrow> ReplayFresh \<Rightarrow> 'j AppServices \<Rightarrow> TenantId \<Rightarrow> 'j AppServices" where
  "create_purchases_clear_fn sz empty_object rf services tenant_id =
     services\<lparr>sv_purchases_projection := create_clear_fn InMemoryCursorStore ts_clear_tenant
       (apply_envelope InMemoryCursorStore (sd_from_value (sz_purchase sz)) (purchase_orders (rf_partner rf))) ''purchasing.order'' empty_object
       (rf_event_id rf) (rf_aggregate_id rf) (sv_purchases_projection services) tenant_id\<rparr>"

subsection \<open>Handlers\<close>

text \<open>The table of projections in \<^verbatim>\<open>start_replay\<close>.\<close>

definition replay_config ::
    "'j Serdes \<Rightarrow> 'j \<Rightarrow> ReplayFresh \<Rightarrow> string \<Rightarrow>
     (string list \<times> ('j AppServices \<Rightarrow> 'j EventEnvelope \<Rightarrow> 'j AppServices \<times> (string + unit)) \<times>
      ('j AppServices \<Rightarrow> TenantId \<Rightarrow> 'j AppServices)) option" where
  "replay_config sz empty_object rf projection_name =
    (if projection_name = ''inventory'' then
       Some ([''inventory.item''], create_inventory_apply_fn sz, create_inventory_clear_fn sz empty_object rf)
     else if projection_name = ''products'' then
       Some ([''products.product''], create_products_apply_fn sz, create_products_clear_fn sz empty_object rf)
     else if projection_name = ''parties'' then
       Some ([''parties.party''], create_parties_apply_fn sz, create_parties_clear_fn sz empty_object rf)
     else if projection_name = ''sales'' then
       Some ([''sales.order''], create_sales_apply_fn sz, create_sales_clear_fn sz empty_object rf)
     else if projection_name = ''invoices'' then
       Some ([''invoicing.invoice''], create_invoices_apply_fn sz rf, create_invoices_clear_fn sz empty_object rf)
     else if projection_name = ''purchases'' then
       Some ([''purchasing.order''], create_purchases_apply_fn sz rf, create_purchases_clear_fn sz empty_object rf)
     else None)"

text \<open>Starting a task itself does not fail.\<close>

definition start_replay ::
    "Platform \<Rightarrow> 'j Serdes \<Rightarrow> 'j \<Rightarrow> ReplayFresh \<Rightarrow> uuid \<Rightarrow> TenantContext \<Rightarrow> PrincipalContext \<Rightarrow> string \<Rightarrow> ReplayRequest \<Rightarrow>
     ReplayJobStore \<Rightarrow> ReplayJobStore \<times> 'j ReplayTask option \<times> Response" where
  "start_replay pf sz empty_object rf job_id tenant prin projection_name query jobs =
    (case guard pf tenant prin ''admin.users.read'' of
       Inl response \<Rightarrow> (jobs, None, response)
     | Inr _ \<Rightarrow>
         (let dry_run = (case rq_dry_run query of Some b \<Rightarrow> b | None \<Rightarrow> False) in
          case replay_config sz empty_object rf projection_name of
            None \<Rightarrow> (jobs, None, json_error BAD_REQUEST ''invalid_projection'' (''Unknown projection: '' @ projection_name))
          | Some (aggregate_types, apply_fn, clear_fn) \<Rightarrow>
              (replay_jobs_insert jobs job_id \<lparr> rh_progress = progress_new, rh_cancellation = False \<rparr>,
               Some \<lparr> rt_tenant_id = tc_tenant_id tenant, rt_aggregate_types = aggregate_types, rt_apply_fn = apply_fn,
                 rt_clear_fn = clear_fn, rt_dry_run = dry_run \<rparr>,
               respond ACCEPTED [(''job_id'', JString (pf_uuid_string pf job_id)),
                 (''message'', JString (if dry_run then ''Dry-run replay started for projection: '' @ projection_name
                    else ''Replay started for projection: '' @ projection_name))])))"

definition start_all_replays :: "Platform \<Rightarrow> TenantContext \<Rightarrow> PrincipalContext \<Rightarrow> Response" where
  "start_all_replays pf tenant prin =
    (case guard pf tenant prin ''admin.users.read'' of
       Inl response \<Rightarrow> response
     | Inr _ \<Rightarrow> json_error NOT_IMPLEMENTED ''not_implemented'' ''Replaying all projections is not yet implemented'')"

primrec replay_phase_string :: "ReplayPhase \<Rightarrow> string" where
  "replay_phase_string Loading = ''loading''"
| "replay_phase_string Clearing = ''clearing''"
| "replay_phase_string Replaying = ''replaying''"
| "replay_phase_string Complete = ''complete''"
| "replay_phase_string Failed = ''failed''"

definition progress_to_json :: "ReplayProgress \<Rightarrow> Json" where
  "progress_to_json p = JObject [(''total_events'', ju64 (rp_total_events p)), (''processed_events'', ju64 (rp_processed_events p)),
     (''processed_aggregates'', ju64 (rp_processed_aggregates p)), (''phase'', JString (replay_phase_string (rp_phase p))),
     (''is_complete'', JBool (rp_is_complete p)), (''error'', jopt JString (rp_error p))]"

definition parse_job_id :: "Platform \<Rightarrow> string \<Rightarrow> Response + uuid" where
  "parse_job_id pf job_id_str =
    (case pf_parse_uuid pf job_id_str of
       Some u \<Rightarrow> Inr u
     | None \<Rightarrow> Inl (json_error BAD_REQUEST ''invalid_id'' ''invalid job id''))"

definition get_replay_status :: "Platform \<Rightarrow> TenantContext \<Rightarrow> PrincipalContext \<Rightarrow> string \<Rightarrow> ReplayJobStore \<Rightarrow> Response" where
  "get_replay_status pf tenant prin job_id_str jobs =
    (case and_then (guard pf tenant prin ''admin.users.read'') (\<lambda>_. parse_job_id pf job_id_str) of
       Inl response \<Rightarrow> response
     | Inr job_id \<Rightarrow>
         (case replay_jobs_get jobs job_id of
            Some handle \<Rightarrow> respond OK [(''job_id'', JString (pf_uuid_string pf job_id)),
              (''progress'', progress_to_json (rh_progress handle))]
          | None \<Rightarrow> json_error NOT_FOUND ''not_found'' ''job not found''))"

text \<open>The flag is shared with the task: the handle in the store stands for it.\<close>

definition cancel_replay ::
    "Platform \<Rightarrow> TenantContext \<Rightarrow> PrincipalContext \<Rightarrow> string \<Rightarrow> ReplayJobStore \<Rightarrow> ReplayJobStore \<times> Response" where
  "cancel_replay pf tenant prin job_id_str jobs =
    (case and_then (guard pf tenant prin ''admin.users.read'') (\<lambda>_. parse_job_id pf job_id_str) of
       Inl response \<Rightarrow> (jobs, response)
     | Inr job_id \<Rightarrow>
         (case replay_jobs_get jobs job_id of
            Some handle \<Rightarrow> (replay_jobs_insert jobs job_id (handle\<lparr>rh_cancellation := True\<rparr>),
              respond OK [(''job_id'', JString (pf_uuid_string pf job_id)), (''message'', JString ''Replay cancelled'')])
          | None \<Rightarrow> (jobs, json_error NOT_FOUND ''not_found'' ''job not found'')))"

definition list_replays ::
    "Platform \<Rightarrow> (uuid list \<Rightarrow> uuid list) \<Rightarrow> TenantContext \<Rightarrow> PrincipalContext \<Rightarrow> ReplayJobStore \<Rightarrow> Response" where
  "list_replays pf iter tenant prin jobs =
    (case guard pf tenant prin ''admin.users.read'' of
       Inl response \<Rightarrow> response
     | Inr _ \<Rightarrow> respond OK [(''jobs'', JArray (map (\<lambda>i. JString (pf_uuid_string pf i)) (replay_jobs_list iter jobs)))])"

subsection \<open>A task changes one projection\<close>

lemma replay_loop_preserves:
  assumes "\<And>p env. P p \<Longrightarrow> P (fst (apply_cb p env))" "P p"
  shows "P (fst (replay_loop apply_cb cancelled dry_run i last_id pe pa p prog es))"
  using assms(2)
proof (induction es arbitrary: i last_id pe pa p prog)
  case (Cons e es)
  then show ?case using assms(1) [OF Cons.prems, of "to_envelope e"]
    by (auto simp: Let_def split_beta split: sum.splits)
qed simp

lemma replay_preserves:
  assumes "\<And>p env. P p \<Longrightarrow> P (fst (apply_cb p env))" "\<And>p t. P p \<Longrightarrow> P (clear_tenant p t)" "P p"
    "replay_projection query t tys apply_cb clear_tenant dry_run cancelled p = Some (p', prog)"
  shows "P p'"
proof -
  have "P q'" if "replay_loop apply_cb cancelled d i None 0 0 q prog es = (q', x)" "P q" for d i prog es q q' x
    using replay_loop_preserves [where P = P and apply_cb = apply_cb and cancelled = cancelled and dry_run = d and i = i and
        last_id = None and pe = 0 and pa = 0 and prog = prog and es = es, OF assms(1) that(2)] that(1) by simp
  then show ?thesis
    using assms(2) [OF assms(3), of t] assms(3,4)
    unfolding replay_projection_def run_replay_def
    by (auto simp: Let_def split: option.splits sum.splits prod.splits if_splits)
qed

lemma route_loop_dry:
  "fst (replay_loop apply_cb cancelled True i last_id pe pa p prog es) = p"
  by (induction es arbitrary: i last_id pe pa prog) (simp_all add: Let_def)

lemma replay_dry:
  assumes "replay_projection query t tys apply_cb clear_tenant True cancelled p = Some (p', prog)"
  shows "p' = p"
proof -
  have "q' = q" if "replay_loop apply_cb cancelled True i None 0 0 q prog es = (q', x)" for i prog es q q' x
    using route_loop_dry [of apply_cb cancelled i None 0 0 q prog es] that by simp
  then show ?thesis
    using assms unfolding replay_projection_def run_replay_def
    by (auto simp: Let_def split: option.splits sum.splits prod.splits if_splits)
qed

text \<open>The services outside the projection of a name.\<close>

definition changes_only :: "string \<Rightarrow> 'j AppServices \<Rightarrow> 'j AppServices \<Rightarrow> bool" where
  "changes_only projection_name s s' \<longleftrightarrow>
    (if projection_name = ''inventory'' then \<exists>p. s' = s\<lparr>sv_inventory_projection := p\<rparr>
     else if projection_name = ''products'' then \<exists>p. s' = s\<lparr>sv_products_projection := p\<rparr>
     else if projection_name = ''parties'' then \<exists>p. s' = s\<lparr>sv_parties_projection := p\<rparr>
     else if projection_name = ''sales'' then \<exists>p. s' = s\<lparr>sv_sales_projection := p\<rparr>
     else if projection_name = ''invoices'' then \<exists>p. s' = s\<lparr>sv_invoices_projection := p\<rparr>
     else if projection_name = ''purchases'' then \<exists>p. s' = s\<lparr>sv_purchases_projection := p\<rparr>
     else s' = s)"

lemmas callback_defs = create_inventory_apply_fn_def create_inventory_clear_fn_def create_products_apply_fn_def
  create_products_clear_fn_def create_parties_apply_fn_def create_parties_clear_fn_def create_sales_apply_fn_def
  create_sales_clear_fn_def create_invoices_apply_fn_def create_invoices_clear_fn_def create_purchases_apply_fn_def
  create_purchases_clear_fn_def

lemma changes_only_refl: "changes_only projection_name s s"
  by (cases s) (simp add: changes_only_def)

lemma callbacks_update:
  "\<exists>p. fst (create_inventory_apply_fn sz (s\<lparr>sv_inventory_projection := q\<rparr>) env) = s\<lparr>sv_inventory_projection := p\<rparr>"
  "\<exists>p. create_inventory_clear_fn sz empty_object rf (s\<lparr>sv_inventory_projection := q\<rparr>) t = s\<lparr>sv_inventory_projection := p\<rparr>"
  "\<exists>p. fst (create_products_apply_fn sz (s\<lparr>sv_products_projection := q2\<rparr>) env) = s\<lparr>sv_products_projection := p\<rparr>"
  "\<exists>p. create_products_clear_fn sz empty_object rf (s\<lparr>sv_products_projection := q2\<rparr>) t = s\<lparr>sv_products_projection := p\<rparr>"
  "\<exists>p. fst (create_parties_apply_fn sz (s\<lparr>sv_parties_projection := q3\<rparr>) env) = s\<lparr>sv_parties_projection := p\<rparr>"
  "\<exists>p. create_parties_clear_fn sz empty_object rf (s\<lparr>sv_parties_projection := q3\<rparr>) t = s\<lparr>sv_parties_projection := p\<rparr>"
  "\<exists>p. fst (create_sales_apply_fn sz (s\<lparr>sv_sales_projection := q4\<rparr>) env) = s\<lparr>sv_sales_projection := p\<rparr>"
  "\<exists>p. create_sales_clear_fn sz empty_object rf (s\<lparr>sv_sales_projection := q4\<rparr>) t = s\<lparr>sv_sales_projection := p\<rparr>"
  "\<exists>p. fst (create_invoices_apply_fn sz rf (s\<lparr>sv_invoices_projection := q5\<rparr>) env) = s\<lparr>sv_invoices_projection := p\<rparr>"
  "\<exists>p. create_invoices_clear_fn sz empty_object rf (s\<lparr>sv_invoices_projection := q5\<rparr>) t = s\<lparr>sv_invoices_projection := p\<rparr>"
  "\<exists>p. fst (create_purchases_apply_fn sz rf (s\<lparr>sv_purchases_projection := q6\<rparr>) env) = s\<lparr>sv_purchases_projection := p\<rparr>"
  "\<exists>p. create_purchases_clear_fn sz empty_object rf (s\<lparr>sv_purchases_projection := q6\<rparr>) t = s\<lparr>sv_purchases_projection := p\<rparr>"
  by (simp add: callback_defs split_beta, blast)+

lemma callbacks_change_only:
  assumes "replay_config sz empty_object rf projection_name = Some (tys, apply_fn, clear_fn)" "changes_only projection_name s s1"
  shows "changes_only projection_name s (fst (apply_fn s1 env)) \<and> changes_only projection_name s (clear_fn s1 t)"
proof -
  consider "projection_name = ''inventory''" | "projection_name = ''products''" | "projection_name = ''parties''"
    | "projection_name = ''sales''" | "projection_name = ''invoices''" | "projection_name = ''purchases''"
    using assms(1) unfolding replay_config_def by (auto split: if_splits)
  then show ?thesis
    using assms
    by cases (clarsimp simp: replay_config_def changes_only_def callbacks_update simp del: AppServices.update_convs)+
qed


definition ex_replay_fresh :: ReplayFresh where
  "ex_replay_fresh = \<lparr> rf_event_id = 1, rf_aggregate_id = 2, rf_partner = AggregateId 3 \<rparr>"


subsection \<open>A replay through a part of the services\<close>

text \<open>A task whose callbacks only read and write one part of a state does to that part what the replay of the part
  does.\<close>

definition on_part :: "('s \<Rightarrow> 'p) \<Rightarrow> ('p \<Rightarrow> 's \<Rightarrow> 's) \<Rightarrow> bool" where
  "on_part get put \<longleftrightarrow> (\<forall>p s. get (put p s) = p) \<and> (\<forall>p q s. put p (put q s) = put p s) \<and> (\<forall>s. put (get s) s = s)"

lemma replay_loop_part:
  assumes "on_part get put" "\<And>s env. f s env = (put (fst (g (get s) env)) s, snd (g (get s) env))"
  shows "replay_loop f cancelled dry_run i last_id pe pa s prog es =
    (case replay_loop g cancelled dry_run i last_id pe pa (get s) prog es of (p, prog', r) \<Rightarrow> (put p s, prog', r))"
proof (induction es arbitrary: i last_id pe pa s prog)
  case Nil
  then show ?case using assms(1) by (simp add: on_part_def)
next
  case (Cons e es)
  have "put p (put q s) = put p s" "get (put p s) = p" "put (get s) s = s" for p q
    using assms(1) by (simp_all add: on_part_def)
  then show ?case using Cons.IH by (auto simp: Let_def assms(2) split_beta split: sum.splits)
qed

lemma replay_part:
  assumes "on_part get put" "\<And>s env. f s env = (put (fst (g (get s) env)) s, snd (g (get s) env))"
    "\<And>s t. c s t = put (d (get s) t) s"
  shows "replay_projection query t tys f c dry_run cancelled s =
    map_option (\<lambda>(p, prog). (put p s, prog)) (replay_projection query t tys g d dry_run cancelled (get s))"
proof -
  have L: "put p (put q s) = put p s" "get (put p s) = p" "put (get s) s = s" for p q
    using assms(1) by (simp_all add: on_part_def)
  show ?thesis
    unfolding replay_projection_def run_replay_def
    by (auto simp: Let_def L assms(3) replay_loop_part [where f = f, OF assms(1,2)] split: option.splits sum.splits prod.splits)
qed

context served_view
begin

lemma replay_answers:
  assumes "app_reach pf sz validate l s" "serde_ok sd" "\<forall>t a. length (streams s t a) < 2 ^ 64"
    "in_memory_cursors p0" "ts_ok (pj_store p0)" "iterates keys (sv_event_store s)" "\<not> st_poisoned (sv_event_store s)"
    "length (tenant_events keys (sv_event_store s) t) + 2000 < 2 ^ 32" "sd_from_value sd empty_object = Inl err"
  shows "\<exists>p prog. replay_projection (query_events keys (sv_event_store s)) t [pl_aggregate_type pl]
      (create_apply_fn show_error (apply_envelope InMemoryCursorStore (sd_from_value sd) pl))
      (create_clear_fn InMemoryCursorStore ts_clear_tenant (apply_envelope InMemoryCursorStore (sd_from_value sd) pl)
        (pl_aggregate_type pl) empty_object u v) False (\<lambda>_. False) p0 = Some (p, prog) \<and>
    wait_turn prog = Some (Inr prog) \<and> rp_processed_events prog = rp_total_events prog \<and>
    (\<forall>a. \<exists>x. committed_state ops sd (pl_aggregate_type pl) init s t a = Inr x \<and>
       map_option obs (ts_get (pj_store p) t (mk a)) = view x)"
proof -
  have h: "histories ops sd pl init s" and st: "store_invar (sv_event_store s)"
    using reach_inv [OF assms(1-3)] by (auto simp: log_ok_def base_ok_def)
  obtain hist where hist: "\<forall>t. decodes_streams (sd_from_value sd) pl (sv_event_store s) t (hist t)"
    "\<forall>t a. decided evolve handle (init a) (hist t a)"
    "\<forall>t a. stream_history ops sd pl init t a (streams s t a) (hist t a)"
    using histories_choice [OF h] unfolding ops_laws by metis
  obtain p prog where p: "replay_projection (query_events keys (sv_event_store s)) t [pl_aggregate_type pl]
      (create_apply_fn show_error (apply_envelope InMemoryCursorStore (sd_from_value sd) pl))
      (create_clear_fn InMemoryCursorStore ts_clear_tenant (apply_envelope InMemoryCursorStore (sd_from_value sd) pl)
        (pl_aggregate_type pl) empty_object u v) False (\<lambda>_. False) p0 = Some (p, prog)"
    "wait_turn prog = Some (Inr prog)" "rp_processed_events prog = rp_total_events prog"
    "\<forall>t' a. map_option obs (ts_get (pj_store p) t' (mk a)) = (if t' = t
      then view (foldl evolve (init a) (hist t a)) else map_option obs (ts_get (pj_store p0) t' (mk a)))"
    using replay_view [where hist = hist and ops = InMemoryCursorStore and show_error = show_error and u = u and v = v,
        OF hist(2) assms(4-6) st assms(7) spec [OF hist(1)] assms(8,9)] by blast
  have "committed_state ops sd (pl_aggregate_type pl) init s t a = Inr (foldl evolve (init a) (hist t a))" for a
    using history_committed [OF spec [OF spec [OF hist(3)]] app_reach_streams_ok [OF assms(1)]] assms(3)
    unfolding ops_laws by blast
  then show ?thesis using p by auto
qed

end

lemma inventory_part: "on_part sv_inventory_projection (\<lambda>p s. s\<lparr>sv_inventory_projection := p\<rparr>)"
  by (simp add: on_part_def)

lemma inventory_task:
  assumes "start_replay pf sz empty_object rf job_id tenant prin ''inventory'' query jobs = (jobs', Some task, response)"
    "rq_dry_run query \<noteq> Some True"
  shows "run_task keys cancelled task services = map_option (\<lambda>(p, prog). (services\<lparr>sv_inventory_projection := p\<rparr>, prog))
    (replay_projection (query_events keys (sv_event_store services)) (tc_tenant_id tenant) [''inventory.item'']
      (create_apply_fn show_stock_apply_error
        (apply_envelope InMemoryCursorStore (sd_from_value (sz_inventory sz)) inventory_stock))
      (create_clear_fn InMemoryCursorStore ts_clear_tenant
        (apply_envelope InMemoryCursorStore (sd_from_value (sz_inventory sz)) inventory_stock)
        ''inventory.item'' empty_object (rf_event_id rf) (rf_aggregate_id rf)) False cancelled (sv_inventory_projection services))"
proof -
  have "task = \<lparr> rt_tenant_id = tc_tenant_id tenant, rt_aggregate_types = [''inventory.item''],
      rt_apply_fn = create_inventory_apply_fn sz, rt_clear_fn = create_inventory_clear_fn sz empty_object rf, rt_dry_run = False \<rparr>"
    using assms by (auto simp: start_replay_def replay_config_def Let_def split: sum.splits option.splits if_splits)
  then show ?thesis
    unfolding run_task_def
    by (simp add: replay_part [where f = "create_inventory_apply_fn sz" and c = "create_inventory_clear_fn sz empty_object rf",
        OF inventory_part] create_inventory_apply_fn_def create_inventory_clear_fn_def split_beta)
qed


text \<open>A stale row of an item that has no events is gone after a replay.\<close>

definition ex_replay_serdes :: "InventoryEvent option Serdes" where
  "ex_replay_serdes = \<lparr> sz_inventory = \<lparr> sd_to_value = Inr \<circ> Some, sd_from_value = ex_from_value \<rparr>,
     sz_product = no_serde, sz_party = no_serde, sz_sales = no_serde, sz_purchase = no_serde, sz_invoice = no_serde,
     sz_ledger = no_serde, sz_user = no_serde \<rparr>"

definition ex_stale :: "(stock_store, unit) Projection" where
  "ex_stale = (projection_new ts_new ''inventory.stock'')\<lparr>pj_store := ts_upsert ts_new (TenantId 1) (InventoryItemId (AggregateId 42))
     \<lparr> irm_item_id = InventoryItemId (AggregateId 42), irm_name = ''ghost'', irm_quantity = 9 \<rparr>\<rparr>"


end
