(* ===== verification/Event_Stream.thy ===== *)
theory Event_Stream
  imports Saga Subscriber
begin

text \<open>
  The live stream of a tenant's events (\<^verbatim>\<open>api/src/app/routes/event_stream.rs\<close>).

  Each connection has a blocking thread that subscribes to the bus and forwards into a channel to the client.  The
  thread is \<^verbatim>\<open>stream_turn\<close>, one pass of its loop; \<^verbatim>\<open>stream_reach\<close> interleaves it with publishers, other subscribers and a
  client that goes away, and records what was published since the subscription.  Rendering JSON is serde's and an
  argument; the bytes of a rendered text are its characters.
\<close>

subsection \<open>Helpers\<close>

text \<open>Slicing at a byte inside a character panics: \<^term>\<open>None\<close>.\<close>

definition is_char_boundary :: "string \<Rightarrow> nat \<Rightarrow> bool" where
  "is_char_boundary s n \<longleftrightarrow> n = length s \<or> n < length s \<and> \<not> (128 \<le> (of_char (s ! n) :: nat) \<and> (of_char (s ! n) :: nat) < 192)"

definition truncate_payload :: "(Json \<Rightarrow> string) \<Rightarrow> Json \<Rightarrow> string option" where
  "truncate_payload to_string payload =
    (let json_str = to_string payload in
     if 500 < length json_str then (if is_char_boundary json_str 500 then Some (take 500 json_str @ ''...'') else None)
     else Some json_str)"

definition extract_event_type :: "(string \<Rightarrow> bool) \<Rightarrow> Json \<Rightarrow> string option" where
  "extract_event_type starts_uppercase payload =
    (case as_object payload of
       None \<Rightarrow> None
     | Some obj \<Rightarrow>
         (case Option.bind (map_of obj ''event_type'') as_str of
            Some s \<Rightarrow> Some s
          | None \<Rightarrow>
              (case obj of [(key, _)] \<Rightarrow> if starts_uppercase key then Some key else None | _ \<Rightarrow> None)))"

subsection \<open>The thread\<close>

record StreamText =
  tx_to_string :: "Json \<Rightarrow> string"
  tx_starts_uppercase :: "string \<Rightarrow> bool"

datatype SseEvent = SseEvent string Json

text \<open>\<^verbatim>\<open>st_open\<close> says whether the client still holds the receiver, \<^verbatim>\<open>st_sent\<close> is what went into the channel.\<close>

record StreamTask =
  sk_bus :: "Json EventEnvelope InMemoryEventBus"
  sk_sub :: nat
  sk_last_heartbeat :: datetime
  sk_open :: bool
  sk_sent :: "SseEvent list"
  sk_running :: bool

definition stream_stop :: "StreamTask \<Rightarrow> StreamTask" where
  "stream_stop w = w\<lparr>sk_bus := sub_drop (sk_bus w) (sk_sub w), sk_running := False\<rparr>"

definition stream_send :: "datetime \<Rightarrow> SseEvent \<Rightarrow> StreamTask \<Rightarrow> StreamTask" where
  "stream_send now e w =
    (if \<not> sk_open w then stream_stop w else w\<lparr>sk_sent := sk_sent w @ [e], sk_last_heartbeat := now\<rparr>)"

definition event_data :: "Platform \<Rightarrow> StreamText \<Rightarrow> datetime \<Rightarrow> Json EventEnvelope \<Rightarrow> Json option" where
  "event_data pf tx now envelope =
     map_option (\<lambda>preview. JObject ([
       (''event_id'', JString (pf_uuid_string pf (ee_event_id envelope))),
       (''tenant_id'', JString (pf_uuid_string pf (tenant_uuid (ee_tenant_id envelope)))),
       (''aggregate_id'', JString (aggregate_string pf (ee_aggregate_id envelope))),
       (''aggregate_type'', JString (ee_aggregate_type envelope)),
       (''sequence_number'', ju64 (ee_sequence_number envelope)),
       (''occurred_at'', JString (pf_to_rfc3339 pf now)),
       (''payload_preview'', JString preview)] @
       (case extract_event_type (tx_starts_uppercase tx) (ee_payload envelope) of
          Some evt_type \<Rightarrow> [(''event_type'', JString evt_type)] | None \<Rightarrow> [])))
     (truncate_payload (tx_to_string tx) (ee_payload envelope))"

definition fifteen_seconds :: datetime where "fifteen_seconds = 15 * 10 ^ 9"

definition stream_turn :: "Platform \<Rightarrow> StreamText \<Rightarrow> TenantId \<Rightarrow> datetime \<Rightarrow> StreamTask \<Rightarrow> StreamTask" where
  "stream_turn pf tx tenant_id now w =
    (if \<not> sk_running w then w
     else case sub_try_recv (sk_bus w) (sk_sub w) of
       (bus, Inr envelope) \<Rightarrow>
         (let w = w\<lparr>sk_bus := bus\<rparr> in
          if ee_tenant_id envelope \<noteq> tenant_id then w
          else case event_data pf tx now envelope of
                 None \<Rightarrow> stream_stop w
               | Some data \<Rightarrow> stream_send now (SseEvent ''event'' data) w)
     | (bus, Inl Empty) \<Rightarrow>
         (if fifteen_seconds < now - sk_last_heartbeat w then stream_send now (SseEvent ''heartbeat'' (JObject [])) w else w)
     | (bus, Inl Disconnected) \<Rightarrow> stream_stop w)"

text \<open>The handler: the thread it starts, or the refusal (as text).\<close>

definition stream_events ::
    "Platform \<Rightarrow> datetime \<Rightarrow> TenantContext \<Rightarrow> PrincipalContext \<Rightarrow> Json AppServices \<Rightarrow> (StatusCode \<times> string) + StreamTask" where
  "stream_events pf now tenant prin services =
    (case authorize_command (pf_iter pf) tenant prin [Permission ''admin.users.read''] of
       Inl e \<Rightarrow> Inl (FORBIDDEN, ''Forbidden: '' @ show_authz_error e)
     | Inr _ \<Rightarrow>
         (let (bus, sub) = bus_subscribe (sv_event_bus services)
          in Inr \<lparr> sk_bus = bus, sk_sub = sub, sk_last_heartbeat = now, sk_open = True, sk_sent = [], sk_running = True \<rparr>))"

subsection \<open>The thread among other threads\<close>

inductive stream_reach ::
    "Platform \<Rightarrow> StreamText \<Rightarrow> TenantId \<Rightarrow> StreamTask \<Rightarrow> Json EventEnvelope list \<Rightarrow> bool" for pf tx tenant_id where
  sr_start: "stream_events pf now tenant prin services = Inr w \<Longrightarrow> tc_tenant_id tenant = tenant_id \<Longrightarrow>
    bus_invar (sv_event_bus services) \<Longrightarrow> stream_reach pf tx tenant_id w []"
| sr_others: "stream_reach pf tx tenant_id w ms \<Longrightarrow> bus_env (sk_sub w) (sk_bus w, ms) (b', ms') \<Longrightarrow>
    stream_reach pf tx tenant_id (w\<lparr>sk_bus := b'\<rparr>) ms'"
| sr_close: "stream_reach pf tx tenant_id w ms \<Longrightarrow> stream_reach pf tx tenant_id (w\<lparr>sk_open := False\<rparr>) ms"
| sr_turn: "stream_reach pf tx tenant_id w ms \<Longrightarrow> stream_reach pf tx tenant_id (stream_turn pf tx tenant_id now w) ms"

text \<open>The events in the channel, and that they render the envelopes of the tenant in a list, one by one.\<close>

fun is_event :: "SseEvent \<Rightarrow> bool" where
  "is_event (SseEvent name data) \<longleftrightarrow> name = ''event''"

abbreviation mine :: "TenantId \<Rightarrow> Json EventEnvelope list \<Rightarrow> Json EventEnvelope list" where
  "mine tenant_id ms \<equiv> filter (\<lambda>env. ee_tenant_id env = tenant_id) ms"

definition rendered :: "Platform \<Rightarrow> StreamText \<Rightarrow> SseEvent \<Rightarrow> Json EventEnvelope \<Rightarrow> bool" where
  "rendered pf tx e env \<longleftrightarrow> (\<exists>now data. event_data pf tx now env = Some data \<and> e = SseEvent ''event'' data)"

definition streams_log :: "Platform \<Rightarrow> StreamText \<Rightarrow> TenantId \<Rightarrow> StreamTask \<Rightarrow> Json EventEnvelope list \<Rightarrow> bool" where
  "streams_log pf tx tenant_id w ms \<longleftrightarrow>
    (\<exists>d r. ms = d @ r \<and> list_all2 (rendered pf tx) (filter is_event (sk_sent w)) (mine tenant_id d) \<and>
       (sk_running w \<longrightarrow> subscribed (sk_sub w) (sk_bus w) \<and> bus_queued (sk_bus w) (sk_sub w) = r))"

lemma streams_logI:
  assumes "ms = d @ r" "list_all2 (rendered pf tx) (filter is_event (sk_sent w)) (mine tenant_id d)"
    "sk_running w \<Longrightarrow> subscribed (sk_sub w) (sk_bus w) \<and> bus_queued (sk_bus w) (sk_sub w) = r"
  shows "streams_log pf tx tenant_id w ms"
  using assms by (auto simp: streams_log_def)

text \<open>One turn on an empty queue, and on a message.\<close>

lemma turn_empty:
  assumes "bus_queued (sk_bus w) (sk_sub w) = []"
  shows "filter is_event (sk_sent (stream_turn pf tx tenant_id now w)) = filter is_event (sk_sent w) \<and>
    sk_open (stream_turn pf tx tenant_id now w) = sk_open w \<and>
    bus_queued (sk_bus (stream_turn pf tx tenant_id now w)) (sk_sub (stream_turn pf tx tenant_id now w)) = [] \<and>
    (sk_running (stream_turn pf tx tenant_id now w) \<longrightarrow> sk_running w \<and>
       sk_bus (stream_turn pf tx tenant_id now w) = sk_bus w \<and> sk_sub (stream_turn pf tx tenant_id now w) = sk_sub w)"
proof (cases rule: try_recv_cases [of "sk_bus w" "sk_sub w"])
  case (empty e)
  then show ?thesis using assms
    by (cases e) (auto simp: stream_turn_def stream_send_def stream_stop_def dropped_queue)
next
  case (message m ms)
  then show ?thesis using assms by simp
qed

lemma turn_message:
  assumes "bus_queued (sk_bus w) (sk_sub w) = m # ms" "sk_running w"
  shows "stream_turn pf tx tenant_id now w =
    (let w = w\<lparr>sk_bus := fst (sub_try_recv (sk_bus w) (sk_sub w))\<rparr> in
     if ee_tenant_id m \<noteq> tenant_id then w
     else case event_data pf tx now m of
            None \<Rightarrow> stream_stop w
          | Some data \<Rightarrow> stream_send now (SseEvent ''event'' data) w)"
proof -
  obtain b where "sub_try_recv (sk_bus w) (sk_sub w) = (b, Inr m)"
    using assms(1) by (auto simp: sub_try_recv_def bus_queued_def)
  then show ?thesis using assms(2) by (simp add: stream_turn_def Let_def)
qed

lemma streams_log_turn:
  assumes "streams_log pf tx tenant_id w ms"
  shows "streams_log pf tx tenant_id (stream_turn pf tx tenant_id now w) ms"
proof -
  from assms obtain d r where o: "ms = d @ r" "list_all2 (rendered pf tx) (filter is_event (sk_sent w)) (mine tenant_id d)"
    "sk_running w \<Longrightarrow> subscribed (sk_sub w) (sk_bus w) \<and> bus_queued (sk_bus w) (sk_sub w) = r"
    by (auto simp: streams_log_def)
  show ?thesis
  proof (cases "sk_running w")
    case False
    then have "stream_turn pf tx tenant_id now w = w" by (simp add: stream_turn_def)
    then show ?thesis using assms by simp
  next
    case True
    show ?thesis
    proof (cases "bus_queued (sk_bus w) (sk_sub w)")
      case Nil
      then show ?thesis using o turn_empty [OF Nil, of pf tx tenant_id now] by (intro streams_logI [of _ d r]) auto
    next
      case (Cons m ms')
      let ?w = "w\<lparr>sk_bus := fst (sub_try_recv (sk_bus w) (sk_sub w))\<rparr>"
      have r: "r = m # ms'" "subscribed (sk_sub w) (sk_bus ?w)"
        using o(3) [OF True] Cons receive_subscribed(1) [of "sk_sub w" "sk_bus w" "sk_sub w"] by auto
      have q: "bus_queued (sk_bus ?w) (sk_sub w) = ms'" by (simp add: receive_subscribed(2) Cons)
      note t = turn_message [OF Cons True, of pf tx tenant_id now, unfolded Let_def]
      consider "ee_tenant_id m \<noteq> tenant_id" | "ee_tenant_id m = tenant_id" "event_data pf tx now m = None \<or> \<not> sk_open w"
        | data where "ee_tenant_id m = tenant_id" "event_data pf tx now m = Some data" "sk_open w" by fastforce
      then show ?thesis
      proof cases
        case 1
        then show ?thesis using o r q t by (intro streams_logI [of _ "d @ [m]" ms']) auto
      next
        case 2
        then have "stream_turn pf tx tenant_id now w = stream_stop ?w"
          unfolding t by (auto simp: stream_send_def split: option.splits)
        then show ?thesis using o by (intro streams_logI [of _ d r]) (simp_all add: stream_stop_def)
      next
        case (3 data)
        then have "stream_turn pf tx tenant_id now w = ?w\<lparr>sk_sent := sk_sent w @ [SseEvent ''event'' data], sk_last_heartbeat := now\<rparr>"
          unfolding t by (simp add: stream_send_def)
        moreover have "rendered pf tx (SseEvent ''event'' data) m" using 3 by (auto simp: rendered_def)
        ultimately show ?thesis using o r q 3(1)
          by (intro streams_logI [of _ "d @ [m]" ms']) (simp_all add: list_all2_appendI)
      qed
    qed
  qed
qed

lemma stream_reach_log:
  "stream_reach pf tx tenant_id w ms \<Longrightarrow> streams_log pf tx tenant_id w ms"
proof (induction rule: stream_reach.induct)
  case (sr_start now tenant prin services w)
  then show ?case
    using subscribe_subscribed [OF sr_start(3)]
    by (intro streams_logI [of _ "[]" "[]"]) (auto simp: stream_events_def split: prod.splits sum.splits)
next
  case (sr_others w ms b' ms')
  then obtain d r where o: "ms = d @ r" "list_all2 (rendered pf tx) (filter is_event (sk_sent w)) (mine tenant_id d)"
    "sk_running w \<Longrightarrow> subscribed (sk_sub w) (sk_bus w) \<and> bus_queued (sk_bus w) (sk_sub w) = r"
    by (auto simp: streams_log_def)
  obtain new where new: "ms' = ms @ new" by (rule bus_env_log [OF sr_others.hyps(2)])
  have "subscribed (sk_sub w) b' \<and> bus_queued b' (sk_sub w) = r @ new" if "sk_running w"
    by (rule bus_env_subscribed [OF sr_others.hyps(2)]) (use o(3) [OF that] new in auto)
  then show ?case using o new by (intro streams_logI [of _ d "r @ new"]) simp_all
next
  case (sr_close w ms)
  then show ?case by (auto simp: streams_log_def)
next
  case (sr_turn w ms now)
  show ?case by (rule streams_log_turn [OF sr_turn.IH])
qed

subsection \<open>Properties\<close>

text \<open>The loop at a list of times.\<close>

definition stream_turns :: "Platform \<Rightarrow> StreamText \<Rightarrow> TenantId \<Rightarrow> datetime list \<Rightarrow> StreamTask \<Rightarrow> StreamTask" where
  "stream_turns pf tx tenant_id nows w = foldl (\<lambda>w now. stream_turn pf tx tenant_id now w) w nows"

lemma stream_catches_up:
  assumes "sk_open w" "sk_running w \<or> bus_queued (sk_bus w) (sk_sub w) = []"
    "length (bus_queued (sk_bus w) (sk_sub w)) \<le> length nows"
    "\<forall>env \<in> set (mine tenant_id (bus_queued (sk_bus w) (sk_sub w))). truncate_payload (tx_to_string tx) (ee_payload env) \<noteq> None"
  shows "\<exists>es. filter is_event (sk_sent (stream_turns pf tx tenant_id nows w)) = filter is_event (sk_sent w) @ es \<and>
    list_all2 (rendered pf tx) es (mine tenant_id (bus_queued (sk_bus w) (sk_sub w)))"
  using assms
proof (induction nows arbitrary: w)
  case Nil
  then show ?case by (simp add: stream_turns_def)
next
  case (Cons now nows)
  let ?w = "stream_turn pf tx tenant_id now w"
  have step: "stream_turns pf tx tenant_id (now # nows) w = stream_turns pf tx tenant_id nows ?w" by (simp add: stream_turns_def)
  show ?case
  proof (cases "bus_queued (sk_bus w) (sk_sub w)")
    case Nil
    note t = turn_empty [OF Nil, of pf tx tenant_id now]
    then show ?thesis unfolding step using Cons.IH [of ?w] Cons.prems(1) Nil by simp
  next
    case q: (Cons m ms)
    then have run: "sk_running w" using Cons.prems(2) by simp
    note t = turn_message [OF q run, of pf tx tenant_id now, unfolded Let_def]
    note rest = receive_subscribed(2) [of "sk_bus w" "sk_sub w", unfolded q list.sel]
    show ?thesis
    proof (cases "ee_tenant_id m = tenant_id")
      case False
      then have "?w = w\<lparr>sk_bus := fst (sub_try_recv (sk_bus w) (sk_sub w))\<rparr>" using t by simp
      then show ?thesis unfolding step using Cons.IH [of ?w] Cons.prems q run rest False by simp
    next
      case True
      then obtain data where data: "event_data pf tx now m = Some data"
        using Cons.prems(4) q by (auto simp: event_data_def)
      then have w: "?w = w\<lparr>sk_bus := fst (sub_try_recv (sk_bus w) (sk_sub w)),
          sk_sent := sk_sent w @ [SseEvent ''event'' data], sk_last_heartbeat := now\<rparr>"
        using t True Cons.prems(1) by (simp add: stream_send_def)
      have "\<exists>es. filter is_event (sk_sent (stream_turns pf tx tenant_id nows ?w)) = filter is_event (sk_sent ?w) @ es \<and>
          list_all2 (rendered pf tx) es (mine tenant_id ms)"
        using Cons.IH [of ?w] Cons.prems q run rest by (simp add: w)
      moreover have "rendered pf tx (SseEvent ''event'' data) m" using data by (auto simp: rendered_def)
      ultimately show ?thesis unfolding step q using True w by fastforce
    qed
  qed
qed


text \<open>A connection to services whose bus then gets an envelope of another tenant and one of its own.\<close>

definition ex_stream_text :: StreamText where
  "ex_stream_text = \<lparr> tx_to_string = (\<lambda>_. ''{}''), tx_starts_uppercase = (\<lambda>_. True) \<rparr>"

definition ex_stream_env :: "nat \<Rightarrow> Json EventEnvelope" where
  "ex_stream_env t = \<lparr> ee_event_id = 1, ee_tenant_id = TenantId (of_nat t), ee_aggregate_id = AggregateId 2, ee_aggregate_type = ''x'',
     ee_sequence_number = 1, ee_payload = JObject [(''Created'', JNull)] \<rparr>"

definition ex_stream_task :: StreamTask where
  "ex_stream_task = (case stream_events sample_platform 0 sample_tenant (principal_with ''manager'')
     (build_in_memory_services (AggregateId 5)) of Inr w \<Rightarrow> w)"

definition ex_stream_publish :: "nat \<Rightarrow> StreamTask \<Rightarrow> StreamTask" where
  "ex_stream_publish t w = w\<lparr>sk_bus := fst (bus_publish (sk_bus w) (ex_stream_env t))\<rparr>"

lemma ex_stream_publish_reach:
  assumes "stream_reach pf tx tenant_id w ms" "\<not> bus_poisoned (sk_bus w)"
  shows "stream_reach pf tx tenant_id (ex_stream_publish t w) (ms @ [ex_stream_env t]) \<and> \<not> bus_poisoned (sk_bus (ex_stream_publish t w))"
  using sr_others [OF assms(1) env_publish, of "ex_stream_env t"] publish_intact [OF assms(2), of "ex_stream_env t"]
  by (auto simp: ex_stream_publish_def)


end
