(* ===== verification/Customer_Balances.thy ===== *)
theory Customer_Balances
  imports Invoice_Projections
begin

text \<open>
  Balances per customer (\<^verbatim>\<open>infra/src/projections/customer_balances.rs\<close>).  Beside the store the
  projection keeps a map from invoices to customers, with the amounts it has seen of each
  invoice; a customer registered for an invoice beforehand takes precedence over a synthetic
  one.  Sums wrap as the release build does.
\<close>

record CustomerBalance =
  cub_customer_id :: PartyId
  cub_customer_name :: "string option"
  cub_total_invoiced :: u64
  cub_total_paid :: u64
  cub_outstanding_balance :: u64
  cub_open_invoice_count :: u32

definition balance_new :: "PartyId \<Rightarrow> CustomerBalance" where
  "balance_new customer_id = \<lparr> cub_customer_id = customer_id, cub_customer_name = None,
     cub_total_invoiced = 0, cub_total_paid = 0, cub_outstanding_balance = 0, cub_open_invoice_count = 0 \<rparr>"

record InvoiceCustomerMapping =
  icm_customer_id :: PartyId
  icm_total_amount :: u64
  icm_total_paid :: u64
  icm_status :: InvoiceStatus

record CustomerState =
  cs_store :: "(PartyId, CustomerBalance) InMemoryTenantStore"
  cs_mappings :: "TenantId \<times> AggregateId \<rightharpoonup> InvoiceCustomerMapping"
  cs_mappings_poisoned :: bool

definition mapping_get :: "CustomerState \<Rightarrow> TenantId \<Rightarrow> AggregateId \<Rightarrow> InvoiceCustomerMapping option" where
  "mapping_get self t a = (if cs_mappings_poisoned self then None else cs_mappings self (t, a))"

definition mapping_insert ::
    "CustomerState \<Rightarrow> TenantId \<Rightarrow> AggregateId \<Rightarrow> InvoiceCustomerMapping \<Rightarrow> CustomerState" where
  "mapping_insert self t a m = (if cs_mappings_poisoned self then self
     else self\<lparr>cs_mappings := (cs_mappings self)((t, a) \<mapsto> m)\<rparr>)"

definition u32_saturating_sub :: "u32 \<Rightarrow> u32 \<Rightarrow> u32" where
  "u32_saturating_sub a b = (if b \<le> a then a - b else 0)"

definition register_invoice_customer ::
    "(CustomerState, 'c) Projection \<Rightarrow> TenantId \<Rightarrow> AggregateId \<Rightarrow> PartyId \<Rightarrow> (CustomerState, 'c) Projection" where
  "register_invoice_customer self tenant_id invoice_aggregate_id customer_id =
    self\<lparr>pj_store := mapping_insert (pj_store self) tenant_id invoice_aggregate_id
      \<lparr> icm_customer_id = customer_id, icm_total_amount = 0, icm_total_paid = 0, icm_status = Open \<rparr>\<rparr>"

definition list_with_outstanding :: "CustomerBalance list \<Rightarrow> CustomerBalance list" where
  "list_with_outstanding rows = filter (\<lambda>b. 0 < cub_outstanding_balance b) rows"

definition customer_check :: "TenantId \<Rightarrow> AggregateId \<Rightarrow> InvoiceEvent \<Rightarrow> ApplyError + unit" where
  "customer_check tenant_id _ ev =
    (if invoice_event_tenant ev \<noteq> tenant_id
       then Inl (TenantIsolation ''event tenant_id does not match envelope tenant_id'')
     else Inr ())"

definition customer_of :: "CustomerState \<Rightarrow> TenantId \<Rightarrow> AggregateId \<Rightarrow> InvoiceEvent \<Rightarrow> PartyId" where
  "customer_of self tenant_id aggregate_id ev =
    (case (ev, map_option icm_customer_id (mapping_get self tenant_id aggregate_id)) of
       (InvoiceIssued e, None) \<Rightarrow> PartyId (sales_order_aggregate (ivi_sales_order_id e))
     | (_, Some i) \<Rightarrow> i
     | (PaymentRegistered e, None) \<Rightarrow> PartyId (invoice_aggregate (prd_invoice_id e))
     | (InvoiceVoided e, None) \<Rightarrow> PartyId (invoice_aggregate (ivv_invoice_id e)))"

definition customer_issued ::
    "CustomerState \<Rightarrow> TenantId \<Rightarrow> AggregateId \<Rightarrow> PartyId \<Rightarrow> InvoiceIssued \<Rightarrow> CustomerState" where
  "customer_issued self tenant_id aggregate_id customer_id e =
    (let self = mapping_insert self tenant_id aggregate_id
           \<lparr> icm_customer_id = customer_id, icm_total_amount = ivi_total_amount e, icm_total_paid = 0,
             icm_status = Open \<rparr>;
         balance = (case ts_get (cs_store self) tenant_id customer_id of Some b \<Rightarrow> b | None \<Rightarrow> balance_new customer_id);
         balance = balance\<lparr>cub_total_invoiced := cub_total_invoiced balance + ivi_total_amount e,
           cub_outstanding_balance := cub_outstanding_balance balance + ivi_total_amount e,
           cub_open_invoice_count := cub_open_invoice_count balance + 1\<rparr>
     in self\<lparr>cs_store := ts_upsert (cs_store self) tenant_id customer_id balance\<rparr>)"

definition customer_paid ::
    "CustomerState \<Rightarrow> TenantId \<Rightarrow> AggregateId \<Rightarrow> PaymentRegistered \<Rightarrow> CustomerState" where
  "customer_paid self tenant_id aggregate_id e =
    (case mapping_get self tenant_id aggregate_id of
       None \<Rightarrow> self
     | Some mapping \<Rightarrow>
         (let cid = icm_customer_id mapping;
              m = mapping\<lparr>icm_total_paid := prd_new_total_paid e,
                icm_status := (if icm_total_amount mapping \<le> prd_new_total_paid e then Paid else icm_status mapping)\<rparr>;
              self = mapping_insert self tenant_id aggregate_id m
          in (case ts_get (cs_store self) tenant_id cid of
               None \<Rightarrow> self
             | Some balance \<Rightarrow>
                 (let balance = balance\<lparr>cub_total_paid := cub_total_paid balance + prd_amount e,
                        cub_outstanding_balance := u64_saturating_sub (cub_outstanding_balance balance) (prd_amount e)\<rparr>;
                      balance = (if icm_total_amount mapping \<le> prd_new_total_paid e
                        then balance\<lparr>cub_open_invoice_count := u32_saturating_sub (cub_open_invoice_count balance) 1\<rparr>
                        else balance)
                  in self\<lparr>cs_store := ts_upsert (cs_store self) tenant_id cid balance\<rparr>))))"

definition customer_voided ::
    "CustomerState \<Rightarrow> TenantId \<Rightarrow> AggregateId \<Rightarrow> InvoiceVoided \<Rightarrow> CustomerState" where
  "customer_voided self tenant_id aggregate_id _ =
    (case mapping_get self tenant_id aggregate_id of
       None \<Rightarrow> self
     | Some m \<Rightarrow>
         (let self = mapping_insert self tenant_id aggregate_id (m\<lparr>icm_status := Void\<rparr>) in
          case ts_get (cs_store self) tenant_id (icm_customer_id m) of
            None \<Rightarrow> self
          | Some balance \<Rightarrow>
              (let outstanding = u64_saturating_sub (icm_total_amount m) (icm_total_paid m);
                   balance = balance\<lparr>cub_outstanding_balance := u64_saturating_sub (cub_outstanding_balance balance) outstanding,
                     cub_open_invoice_count := u32_saturating_sub (cub_open_invoice_count balance) 1\<rparr>
               in self\<lparr>cs_store := ts_upsert (cs_store self) tenant_id (icm_customer_id m) balance\<rparr>)))"

definition customer_balances_update ::
    "CustomerState \<Rightarrow> TenantId \<Rightarrow> AggregateId \<Rightarrow> InvoiceEvent \<Rightarrow> CustomerState" where
  "customer_balances_update self tenant_id aggregate_id ev =
    (let customer_id = customer_of self tenant_id aggregate_id ev in
     case ev of
       InvoiceIssued e \<Rightarrow> customer_issued self tenant_id aggregate_id customer_id e
     | PaymentRegistered e \<Rightarrow> customer_paid self tenant_id aggregate_id e
     | InvoiceVoided e \<Rightarrow> customer_voided self tenant_id aggregate_id e)"

definition customer_balances :: "(CustomerState, InvoiceEvent) ProjectionLogic" where
  "customer_balances = \<lparr> pl_aggregate_type = ''invoicing.invoice'', pl_check = customer_check,
     pl_update = customer_balances_update \<rparr>"

definition customer_state_new :: CustomerState where
  "customer_state_new = \<lparr> cs_store = ts_new, cs_mappings = Map.empty, cs_mappings_poisoned = False \<rparr>"

text \<open>\<^verbatim>\<open>rebuild_from_scratch\<close> clears the mappings of all tenants.\<close>

definition rebuild_customer_balances ::
    "'c ProjectionCursorStore \<Rightarrow> ('j \<Rightarrow> string + InvoiceEvent) \<Rightarrow> (CustomerState, 'c) Projection \<Rightarrow>
     'j EventEnvelope list \<Rightarrow> (CustomerState, 'c) Projection \<times> (ApplyError + unit)" where
  "rebuild_customer_balances ops from_value =
    rebuild_projection ops (\<lambda>self t. self\<lparr>cs_store := ts_clear_tenant (cs_store self) t\<rparr>)
      (\<lambda>self. if cs_mappings_poisoned self then self else self\<lparr>cs_mappings := Map.empty\<rparr>)
      (apply_envelope ops from_value customer_balances)"

subsection \<open>Voiding a paid invoice\<close>

definition ex_invoice_issued :: "uuid \<Rightarrow> u64 \<Rightarrow> InvoiceEvent" where
  "ex_invoice_issued n amount = InvoiceIssued \<lparr> ivi_tenant_id = TenantId 1,
     ivi_invoice_id = InvoiceId (AggregateId n), ivi_sales_order_id = SalesOrderId (AggregateId 9),
     ivi_lines = [\<lparr> il_line_no = 1, il_sales_order_id = SalesOrderId (AggregateId 9),
       il_product_id = ProductId (AggregateId 4), il_quantity = 1, il_unit_price = amount \<rparr>],
     ivi_due_date = 50, ivi_total_amount = amount, ivi_occurred_at = 5 \<rparr>"

definition ex_invoice_paid :: "uuid \<Rightarrow> u64 \<Rightarrow> InvoiceEvent" where
  "ex_invoice_paid n amount = PaymentRegistered \<lparr> prd_tenant_id = TenantId 1,
     prd_invoice_id = InvoiceId (AggregateId n), prd_amount = amount, prd_new_total_paid = amount,
     prd_occurred_at = 6 \<rparr>"

definition ex_invoice_voided :: "uuid \<Rightarrow> InvoiceEvent" where
  "ex_invoice_voided n = InvoiceVoided \<lparr> ivv_tenant_id = TenantId 1,
     ivv_invoice_id = InvoiceId (AggregateId n), ivv_reason = None, ivv_occurred_at = 7 \<rparr>"

definition ex_invoice_env :: "uuid \<Rightarrow> u64 \<Rightarrow> InvoiceEvent \<Rightarrow> InvoiceEvent EventEnvelope" where
  "ex_invoice_env n k e = \<lparr> ee_event_id = n, ee_tenant_id = TenantId 1, ee_aggregate_id = AggregateId n,
     ee_aggregate_type = ''invoicing.invoice'', ee_sequence_number = k, ee_payload = e \<rparr>"

definition ex_invoice_envs :: "InvoiceEvent EventEnvelope list" where
  "ex_invoice_envs =
     [ex_invoice_env 7 1 (ex_invoice_issued 7 100), ex_invoice_env 8 1 (ex_invoice_issued 8 50),
      ex_invoice_env 7 2 (ex_invoice_paid 7 100), ex_invoice_env 7 3 (ex_invoice_voided 7)]"

lemma ex_invoice_history_decided:
  "decided invoice_apply invoice_handle (invoice_empty (InvoiceId (AggregateId 7)))
     [ex_invoice_issued 7 100, ex_invoice_paid 7 100, ex_invoice_voided 7]"
proof -
  let ?i = "InvoiceId (AggregateId 7)"
  have "decided invoice_apply invoice_handle (invoice_empty ?i) ([] @ [ex_invoice_issued 7 100])"
    by (rule decided_step [OF decided_Nil, where c = "IssueInvoice \<lparr> is_tenant_id = TenantId 1,
      is_invoice_id = ?i, is_sales_order_id = SalesOrderId (AggregateId 9),
      is_lines = [\<lparr> il_line_no = 1, il_sales_order_id = SalesOrderId (AggregateId 9),
        il_product_id = ProductId (AggregateId 4), il_quantity = 1, il_unit_price = 100 \<rparr>],
      is_due_date = 50, is_occurred_at = 5 \<rparr>"]) code_simp
  then have "decided invoice_apply invoice_handle (invoice_empty ?i)
      (([] @ [ex_invoice_issued 7 100]) @ [ex_invoice_paid 7 100])"
    by (rule decided_step [where c = "RegisterPayment \<lparr> rpm_tenant_id = TenantId 1,
      rpm_invoice_id = ?i, rpm_amount = 100, rpm_occurred_at = 6 \<rparr>"]) code_simp
  then have "decided invoice_apply invoice_handle (invoice_empty ?i)
      ((([] @ [ex_invoice_issued 7 100]) @ [ex_invoice_paid 7 100]) @ [ex_invoice_voided 7])"
    by (rule decided_step [where c = "VoidInvoice \<lparr> vi_tenant_id = TenantId 1,
      vi_invoice_id = ?i, vi_reason = None, vi_occurred_at = 7 \<rparr>"]) code_simp
  then show ?thesis by simp
qed

subsection \<open>Properties\<close>

text \<open>The open invoice count is wrong after a paid invoice is voided.  The invoice aggregate
  accepts issuing, paying in full and voiding; applying these events and one more open invoice
  of the same customer leaves an outstanding balance of 50 with a count of no open invoices,
  because the full payment and the voiding each take the invoice off the count.\<close>

theorem void_after_payment_miscounts:
  "decided invoice_apply invoice_handle (invoice_empty (InvoiceId (AggregateId 7)))
     [ex_invoice_issued 7 100, ex_invoice_paid 7 100, ex_invoice_voided 7] \<and>
   snd (apply_envelopes (apply_envelope InMemoryCursorStore Inr customer_balances)
     (projection_new customer_state_new ''customers.balances'') ex_invoice_envs) = Inr () \<and>
   map_option (\<lambda>b. (cub_outstanding_balance b, cub_open_invoice_count b))
     (ts_get (cs_store (pj_store (fst (apply_envelopes (apply_envelope InMemoryCursorStore Inr customer_balances)
       (projection_new customer_state_new ''customers.balances'') ex_invoice_envs))))
       (TenantId 1) (PartyId (AggregateId 9))) = Some (50, 0)"
proof -
  have "snd (apply_envelopes (apply_envelope InMemoryCursorStore Inr customer_balances)
     (projection_new customer_state_new ''customers.balances'') ex_invoice_envs) = Inr ()"
    by code_simp
  moreover have "map_option (\<lambda>b. (cub_outstanding_balance b, cub_open_invoice_count b))
     (ts_get (cs_store (pj_store (fst (apply_envelopes (apply_envelope InMemoryCursorStore Inr customer_balances)
       (projection_new customer_state_new ''customers.balances'') ex_invoice_envs))))
       (TenantId 1) (PartyId (AggregateId 9))) = Some (50, 0)"
    by code_simp
  ultimately show ?thesis using ex_invoice_history_decided by blast
qed

end
