(* ===== verification/Spec2Isabelle.thy ===== *)
theory Spec2Isabelle
  imports Job_Thread Postgres_Reads Redis_Pubsub Ai_Insights Retry_Delay Redis_Delivery Desktop_Safety Postgres_Concurrency Saga_System Projection_Worker Rbac_Routes Replay_Routes Event_Stream Inventory Products Parties Sales Purchasing Invoicing Accounting Users Authorization
    Concurrency Stock_Projections Directory_Projections Order_Projections Invoice_Projections
    Customer_Balances Account_Projection User_Projection Event_Query Replay Job_Executor End_To_End
begin

text \<open>
  ForgeERP: a verification library of the event-sourced core of the repository.

  \<^bold>\<open>The program.\<close>  ForgeERP is a multi-tenant ERP written in Rust (\<^verbatim>\<open>src/crates/\<close>).  Business
  crates (\<^verbatim>\<open>inventory\<close>, \<^verbatim>\<open>products\<close>, \<^verbatim>\<open>parties\<close>, \<^verbatim>\<open>sales\<close>, \<^verbatim>\<open>purchasing\<close>, \<^verbatim>\<open>invoicing\<close>, \<^verbatim>\<open>accounting\<close>,
  \<^verbatim>\<open>auth\<close>) define aggregates: \<^verbatim>\<open>handle\<close> decides a command into events or an error, \<^verbatim>\<open>apply\<close> evolves the
  state.  The crate \<^verbatim>\<open>infra\<close> stores events per tenant and aggregate with optimistic concurrency,
  dispatches commands (load, validate, rehydrate, decide, append, publish) and builds read models
  from published envelopes; \<^verbatim>\<open>events\<close> holds envelopes, the bus and the projection runner; \<^verbatim>\<open>api\<close>
  authenticates and authorizes requests; \<^verbatim>\<open>desktop\<close> is a client that works offline.

  \<^bold>\<open>The theories.\<close>  Each opens with what it models and the files it follows.
    \<^item> \<^verbatim>\<open>Prelude\<close>: Rust's integers as words, \<^verbatim>\<open>Result\<close> as a sum with the error on the left, the parts
      of the standard library the sources call (checked and saturating arithmetic, \<^verbatim>\<open>trim\<close>, number
      formatting), iteration orders, shared lemmas and collections.
    \<^item> \<^verbatim>\<open>Core_Domain\<close>: identifiers, errors, \<^verbatim>\<open>ExpectedVersion\<close>; the trait \<^verbatim>\<open>Aggregate\<close> as the locales
      \<^verbatim>\<open>aggregate\<close> and \<^verbatim>\<open>tenant_aggregate\<close>, and decided histories (each batch returned by \<^verbatim>\<open>handle\<close> on the
      state the earlier events replay to).
    \<^item> \<^verbatim>\<open>Inventory\<close>, \<^verbatim>\<open>Products\<close>, \<^verbatim>\<open>Parties\<close>, \<^verbatim>\<open>Sales\<close>, \<^verbatim>\<open>Purchasing\<close>, \<^verbatim>\<open>Invoicing\<close>, \<^verbatim>\<open>Accounting\<close>, \<^verbatim>\<open>Users\<close>:
      the eight aggregates, every command, event, handler and \<^verbatim>\<open>apply\<close>, with invariants, histories and
      the interpretation of \<^verbatim>\<open>tenant_aggregate\<close>.
    \<^item> \<^verbatim>\<open>Authorization\<close>: permissions, the decision and its explanation, the role registry, claims,
      the request middleware and the command guard.
    \<^item> \<^verbatim>\<open>Event_Store\<close> (locale \<^verbatim>\<open>event_store\<close>), \<^verbatim>\<open>Event_Bus\<close> (locale \<^verbatim>\<open>event_bus\<close>, and the projection
      runner), \<^verbatim>\<open>Dispatcher\<close> (locale \<^verbatim>\<open>dispatcher\<close> over the two).
    \<^item> \<^verbatim>\<open>Concurrency\<close>: any number of dispatchers over one store, as a step relation whose steps are
      the load and decide phase of a dispatch, its append, its abandonment and foreign appends.
    \<^item> \<^verbatim>\<open>Read_Model\<close> (locale \<^verbatim>\<open>tenant_store\<close>), \<^verbatim>\<open>Projections\<close> (cursors, \<^verbatim>\<open>apply_envelope\<close>, rebuild; locales
      \<^verbatim>\<open>row_projection\<close> and \<^verbatim>\<open>state_view\<close>), and the projections themselves: \<^verbatim>\<open>Stock_Projections\<close>,
      \<^verbatim>\<open>Directory_Projections\<close>, \<^verbatim>\<open>Order_Projections\<close>, \<^verbatim>\<open>Invoice_Projections\<close>, \<^verbatim>\<open>Customer_Balances\<close>,
      \<^verbatim>\<open>Account_Projection\<close>, \<^verbatim>\<open>User_Projection\<close>.
    \<^item> \<^verbatim>\<open>Event_Query\<close> (filters, sorting, pages), \<^verbatim>\<open>Replay\<close> (replaying projections from the stored log),
      \<^verbatim>\<open>Jobs\<close>, \<^verbatim>\<open>Job_Executor\<close> and \<^verbatim>\<open>Job_Thread\<close> (the job store, retries, dead letters, the executor and its thread).
    \<^item> \<^verbatim>\<open>Postgres_Store\<close> (the event store's SQL over a database that is an argument, locale \<^verbatim>\<open>event_database\<close>) and
      \<^verbatim>\<open>Postgres_Concurrency\<close> (transactions interleaved: a refinement of the in-memory store's contract);
      \<^verbatim>\<open>Postgres_Reads\<close> (read models and cursors in tables, locale \<^verbatim>\<open>read_database\<close>).
    \<^item> \<^verbatim>\<open>Api_Core\<close>, \<^verbatim>\<open>Api_Routes\<close>, \<^verbatim>\<open>Api_Reads\<close> (requests, responses, the routes that command and query), \<^verbatim>\<open>Services\<close>
      (the services behind them, with the subscriber that feeds the projections), \<^verbatim>\<open>Api_Safety\<close> (what a request can
      do), \<^verbatim>\<open>End_To_End\<close> (requests interleaved with the subscriber, down to the read models).
    \<^item> \<^verbatim>\<open>Saga\<close> and \<^verbatim>\<open>Saga_System\<close> (sales to receivables), \<^verbatim>\<open>Subscriber\<close> (a subscription among other threads) with
      \<^verbatim>\<open>Projection_Worker\<close> and \<^verbatim>\<open>Event_Stream\<close> (two threads on top of it), \<^verbatim>\<open>Rbac_Routes\<close> and \<^verbatim>\<open>Replay_Routes\<close> (the
      routes that explain decisions and start replays).
    \<^item> \<^verbatim>\<open>Redis_Bus\<close> (the bus on Redis Streams over a server that is an argument, locale \<^verbatim>\<open>redis_server\<close>) and
      \<^verbatim>\<open>Redis_Delivery\<close> (what reaches its subscribers); \<^verbatim>\<open>Redis_Pubsub\<close> (the bus on pub/sub).
    \<^item> \<^verbatim>\<open>Desktop_Queue\<close>, \<^verbatim>\<open>Desktop_Sync\<close>, \<^verbatim>\<open>Desktop_Safety\<close>: the desktop client's queue of offline commands, its cache,
      and the synchronisation with the server.
    \<^item> \<^verbatim>\<open>F64\<close> (IEEE 754 numbers as exact rationals and a rounding), and on top of it \<^verbatim>\<open>Ai_Insights\<close> (anomaly detection
      and the threads that run it) and \<^verbatim>\<open>Retry_Delay\<close> (the delays of a retry policy).
    \<^item> \<^verbatim>\<open>Spec2Isabelle\<close> (this theory): the properties that span components.

  \<^bold>\<open>How state and operations correspond.\<close>  Structs are records whose fields carry a short prefix,
  enums are datatypes, a method that mutates \<^verbatim>\<open>self\<close> returns the new record, \<^verbatim>\<open>?\<close> is \<^verbatim>\<open>and_then\<close>.
  Arithmetic without checks wraps, as in a release build.  A poisoned lock is a flag of the record.
  A thread is a record cut at the points where others can be seen, with a step per turn of its loop; relations
  interleave the steps.  Arguments stand for what is not in the repository or not determined by it: serialisation
  (\<^verbatim>\<open>sd_to_value\<close>, \<^verbatim>\<open>sd_from_value\<close>, \<^verbatim>\<open>from_value\<close>, \<^verbatim>\<open>EnvelopeText\<close>, \<^verbatim>\<open>Texts\<close>; where a property relies on it, with the
  hypothesis that decoding inverts encoding), the database and Redis servers (with the documented laws of the
  commands the code sends, as locales that a small server of the library fulfils), the HTTP API as the desktop
  client sees it, fresh identifiers, the clock, token decoding, Unicode lower case, a persistent cursor store, and
  the iteration order of hash maps (any permutation).

  \<^bold>\<open>What is shown.\<close>
    \<^item> Concurrency: every reachable stream is a decided history, so stock never goes negative under
      any interleaving, and of two dispatchers that read one version only one commits; interleaved PostgreSQL
      transactions linearize to the appends of the in-memory store.
    \<^item> Dispatch: what success and each failure leave behind, and that the pipeline refuses nothing
      that \<^verbatim>\<open>handle\<close> accepts.
    \<^item> Store and bus: contiguous append-only streams, failed appends change nothing, tenant isolation,
      ordered delivery to live subscribers, at-least-once delivery by the Redis bus.
    \<^item> Read models: under at-least-once delivery rows are the views of the replayed aggregates; a
      rebuild or a replay gives the same rows from any state and order; account balances sum to zero.
    \<^item> Requests: every command that reaches a store was authenticated and authorized; refused requests change
      nothing; once the subscriber has caught up the read models show what the accepted requests did.
    \<^item> Threads: the projection worker, the event stream and the executor handle what they are given, in order,
      and stop when asked.
    \<^item> Floating point: detected anomalies have a severity of at least one, constant movements are recognised
      exactly, exponential delays double exactly up to their cap.
    \<^item> Desktop client: a command is marked synced exactly when the server accepted it, and stays settled.
    \<^item> Aggregates: exact stock, payments and journal totals at machine width, life cycles, one
      tenant per history, no role escalation.
    \<^item> Some statements show defects: truncation of a line total, a miscount after voiding a paid
      invoice, a user directory that is not idempotent, a saga that never reacts, and batches that the Redis bus
      hands over in reverse, of which the projections keep only the last event, and an anomaly detection whose
      snapshots are too short for it.

  Recursions are structural or terminate by a measure (\<^verbatim>\<open>drain\<close>, \<^verbatim>\<open>from_utf8_lossy\<close>).  Two loops need
  not end, the paging of a replay and the runner's tick: they are \<^verbatim>\<open>partial_function\<close>s (\<^verbatim>\<open>load_pages\<close>, \<^verbatim>\<open>advance_tick\<close>),
  proved to return when the log is shorter than the counter is wide and when the interval is not zero.  Sequence
  numbers are 64 bits wide: where it matters a hypothesis bounds a stream by \<^verbatim>\<open>2^64\<close> events.

  \<^bold>\<open>What is not modelled.\<close>  The variant of the services built on the persistent backends (its parts are modelled, not
  their assembly), logging and metrics, the binaries and the desktop's
  user interface.  Of floats, the payload of a not-a-number and the shortest decimal rendering are not modelled.
\<close>

section \<open>Concurrent command execution\<close>

text \<open>C1: optimistic concurrency is sound.  Whatever the interleaving of dispatches, abandoned
  calls and foreign appends over the in-memory store, every owned stream decodes to a history
  in which each batch was returned by the aggregate's \<^verbatim>\<open>handle\<close> on exactly the state the
  preceding events of the stream replay to: no lost update and no stale decision.\<close>

theorem optimistic_concurrency_sound:
  assumes "reach append_events load_stream agg sd ty mk owned s0 (s, fl)" "serde_ok sd"
    "store_invar s0" "\<forall>t a. (t, a) \<in> owned \<longrightarrow> stream_of s0 t a = []"
    "(t, a) \<in> owned" "length (stream_of s t a) < 2 ^ 64"
  shows "\<exists>h. decodes sd (stream_of s t a) h \<and>
    decided (ao_apply agg) (ao_handle agg) (mk t a) h"
proof -
  have "\<forall>t a. (t, a) \<in> owned \<longrightarrow> stream_decided agg sd (mk t a) (stream_of s0 t a)"
    using assms(4) by (simp add: stream_decided_Nil)
  from in_memory_store.reach_stream_decided [OF assms(1-3) this assms(5,6)]
  show ?thesis by (simp add: stream_decided_def)
qed

text \<open>A concrete run: one client creates an item, its batch commits.  Payloads are the events
  themselves.\<close>

definition id_serde :: "('e, 'e) Serde" where
  "id_serde = \<lparr> sd_to_value = Inr, sd_from_value = Inr \<rparr>"

lemma id_serde_ok [simp]: "serde_ok id_serde"
  by (simp add: serde_ok_def id_serde_def)

definition new_item :: "TenantId \<Rightarrow> AggregateId \<Rightarrow> InventoryItem" where
  "new_item t a = item_empty (InventoryItemId a)"

abbreviation ex_tenant :: TenantId where "ex_tenant \<equiv> TenantId 1"
abbreviation ex_id :: AggregateId where "ex_id \<equiv> AggregateId 7"

definition ex_create :: InventoryCommand where
  "ex_create = CreateItem \<lparr> ci_tenant_id = ex_tenant, ci_item_id = InventoryItemId ex_id,
     ci_name = ''bolt'', ci_occurred_at = 5 \<rparr>"

definition ex_created :: InventoryEvent where
  "ex_created = ItemCreated \<lparr> ic_tenant_id = ex_tenant, ic_item_id = InventoryItemId ex_id,
     ic_name = ''bolt'', ic_occurred_at = 5 \<rparr>"

definition ex_batch :: "InventoryEvent UncommittedEvent list" where
  "ex_batch = [\<lparr> ue_event_id = 9, ue_tenant_id = ex_tenant, ue_aggregate_id = ex_id,
     ue_aggregate_type = ''inventory.item'', ue_event_type = ''inventory.item.created'',
     ue_event_version = 1, ue_occurred_at = 5, ue_payload = ex_created \<rparr>]"

definition ex_store :: "InventoryEvent InMemoryEventStore" where
  "ex_store = fst (append_events store_new ex_batch (Exact 0))"

lemma ex_prepare:
  "dispatch_prepare load_stream inventory_ops id_serde (\<lambda>_. 9) store_new ex_tenant ex_id
     ''inventory.item'' ex_create new_item = Inr (ex_batch, Exact 0)"
  by code_simp

lemma ex_stream: "map se_payload (stream_of ex_store ex_tenant ex_id) = [ex_created]"
  by code_simp

lemma ex_length: "length (stream_of ex_store ex_tenant ex_id) = 1"
proof -
  have "length (map se_payload (stream_of ex_store ex_tenant ex_id)) = 1" by (simp add: ex_stream)
  then show ?thesis by simp
qed

lemma ex_reach:
  "reach append_events load_stream inventory_ops id_serde ''inventory.item'' new_item
     {(ex_tenant, ex_id)} store_new (ex_store, Map.empty)"
proof -
  let ?r = "reach append_events load_stream inventory_ops id_serde ''inventory.item'' new_item
     {(ex_tenant, ex_id)} store_new"
  have "?r (store_new, Map.empty(0 \<mapsto> (ex_batch, Exact 0)))"
    by (rule reach_prepare [OF reach_init _ ex_prepare]) simp
  then have "?r (fst (append_events store_new ex_batch (Exact 0)),
      (Map.empty(0 \<mapsto> (ex_batch, Exact 0)))(0 := None))"
    by (rule reach_commit) (simp, rule prod.collapse [symmetric])
  then show ?thesis by (simp add: ex_store_def)
qed

theorem optimistic_concurrency_sound_witness:
  "\<exists>h. decodes id_serde (stream_of ex_store ex_tenant ex_id) h \<and>
    decided (ao_apply inventory_ops) (ao_handle inventory_ops) (new_item ex_tenant ex_id) h"
  by (rule optimistic_concurrency_sound [OF ex_reach]) (simp_all add: ex_length)

text \<open>C2: stock under concurrency.  In every reachable state of any number of concurrent
  dispatchers of inventory commands, replaying the stored stream of an item yields a stock that
  is not negative and equals the true sum of all stored adjustments.\<close>

theorem concurrent_stock_never_negative:
  assumes "reach append_events load_stream inventory_ops sd ty new_item owned s0 (s, fl)"
    "serde_ok sd" "store_invar s0" "\<forall>t a. (t, a) \<in> owned \<longrightarrow> stream_of s0 t a = []"
    "(t, a) \<in> owned" "length (stream_of s t a) < 2 ^ 64"
  shows "\<exists>h. decodes sd (stream_of s t a) h \<and>
    0 \<le> sint (ii_stock (foldl item_apply (new_item t a) h)) \<and>
    sint (ii_stock (foldl item_apply (new_item t a) h)) = sum_list (map event_delta h)"
proof -
  have "\<forall>t a. (t, a) \<in> owned \<longrightarrow> stream_decided inventory_ops sd (new_item t a) (stream_of s0 t a)"
    using assms(4) by (simp add: stream_decided_Nil)
  from in_memory_store.reach_stream_decided [OF assms(1-3) this assms(5,6)]
  obtain h where h: "decodes sd (stream_of s t a) h" "decided item_apply item_handle (new_item t a) h"
    by (auto simp: stream_decided_def inventory_ops_def)
  have "item_invar (foldl item_apply (new_item t a) h)"
    using h(2) by (rule inventory_item.decided_invar) (simp add: new_item_def)
  moreover have "sint (ii_stock (foldl item_apply (new_item t a) h)) = sum_list (map event_delta h)"
    using h(2) unfolding new_item_def by (rule decided_stock_sum)
  ultimately show ?thesis using h(1) by (intro exI [of _ h]) (simp add: item_invar_def)
qed

theorem concurrent_stock_never_negative_witness:
  "\<exists>h. decodes id_serde (stream_of ex_store ex_tenant ex_id) h \<and>
    0 \<le> sint (ii_stock (foldl item_apply (new_item ex_tenant ex_id) h)) \<and>
    sint (ii_stock (foldl item_apply (new_item ex_tenant ex_id) h)) = sum_list (map event_delta h)"
  by (rule concurrent_stock_never_negative [OF ex_reach]) (simp_all add: ex_length)

text \<open>C3: two dispatchers that prepared on the same version of a stream cannot both commit: once
  one of them has appended its non-empty batch, the append of the other fails.\<close>

theorem concurrent_commits_exclude:
  assumes "dispatch_prepare load_stream agg sd id1 s t a ty c1 mk = Inr (us1, ev1)"
    "dispatch_prepare load_stream agg sd id2 s t a ty c2 mk = Inr (us2, ev2)"
    "append_events s us1 ev1 = (s1, Inr cs1)" "us1 \<noteq> []" "us2 \<noteq> []"
    "store_invar s" "length (stream_of s t a) + length us1 < 2 ^ 64"
  shows "\<exists>err. snd (append_events s1 us2 ev2) = Inl err"
proof (cases "append_events s1 us2 ev2")
  case (Pair s2 r)
  let ?es = "stream_of s t a"
  have len: "length ?es < 2 ^ 64" using assms(7) by simp
  note d = in_memory_store.prepare_decided_on [OF assms(2) assms(6) len]
  have aim: "aims_at us1 t a" "aims_at us2 t a"
    using assms(1,2) by (auto intro: in_memory_store.prepare_aims)
  have s1: "stream_of s1 t a = ?es @ cs1"
    using in_memory_store.append_stream [OF assms(3,4), of t a] aim(1) assms(4) by (simp add: aims_at_def)
  have cs1: "length cs1 = length us1"
    using in_memory_store.append_committed [OF assms(3,4)] by simp
  have inv1: "store_invar s1" using in_memory_store.append_invar [OF assms(6), of us1 ev1] assms(3) by simp
  have "?es = stream_of s1 t a" if "r = Inr cs2" for cs2
  proof (rule in_memory_store.commit_on_snapshot [OF Pair [unfolded that] assms(5) aim(2) inv1 d])
    show "prefix ?es (stream_of s1 t a)" by (simp add: s1)
    show "length (stream_of s1 t a) < 2 ^ 64" using s1 cs1 assms(7) by simp
  qed
  then show ?thesis using s1 cs1 assms(4) Pair by (cases r) auto
qed

theorem concurrent_commits_exclude_witness:
  "\<exists>err. snd (append_events ex_store ex_batch (Exact 0)) = Inl err"
proof (rule concurrent_commits_exclude [OF ex_prepare ex_prepare])
  show "append_events store_new ex_batch (Exact 0) = (ex_store, Inr (assign_sequence 1 ex_batch))"
    unfolding ex_store_def by (rule prod_eqI) (simp, code_simp)
qed (simp_all add: ex_batch_def)

section \<open>Command dispatch\<close>

text \<open>C12: a dispatch that succeeds on the in-memory store and bus rehydrated the aggregate from
  the events of its own stream, persisted exactly what \<^verbatim>\<open>handle\<close> decided on that state at the end
  of that stream and nowhere else, and then delivered exactly these events, in order, to every
  live subscriber.\<close>

theorem dispatch_success_spec:
  assumes "dispatch append_events load_stream bus_publish show_err agg sd new_id (st, b) t a ty c mk
      = ((st', b'), Inr cs)"
    "store_invar st" "bus_invar b" "serde_ok sd" "length (stream_of st t a) < 2 ^ 64"
  shows "(\<exists>h d. decodes sd (stream_of st t a) h \<and>
      ao_handle agg (foldl (ao_apply agg) (mk t a) h) c = Inr d \<and> decodes sd cs d) \<and>
    stream_of st' t' a' = stream_of st t' a' @ (if t' = t \<and> a' = a then cs else []) \<and>
    bus_queued b' i = bus_queued b i @ (if i \<in> bus_live b then map to_envelope cs else [])"
  using in_memory_dispatcher.dispatch_success [OF assms] by simp

theorem dispatch_success_spec_witness:
  "let r = dispatch append_events load_stream bus_publish (\<lambda>_. []) inventory_ops id_serde (\<lambda>_. 9)
         (store_new, fst (bus_subscribe bus_new)) ex_tenant ex_id ''inventory.item'' ex_create new_item;
       cs = assign_sequence 1 ex_batch
   in stream_of (fst (fst r)) ex_tenant ex_id = cs \<and>
      bus_queued (snd (fst r)) 0 = map to_envelope cs"
proof -
  let ?b = "fst (bus_subscribe bus_new) :: InventoryEvent EventEnvelope InMemoryEventBus"
  let ?r = "dispatch append_events load_stream bus_publish (\<lambda>_. []) inventory_ops id_serde (\<lambda>_. 9)
         (store_new, ?b) ex_tenant ex_id ''inventory.item'' ex_create new_item"
  have r: "?r = ((fst (fst ?r), snd (fst ?r)), Inr (assign_sequence 1 ex_batch))"
    by (rule prod_eqI) (simp, code_simp)
  have b: "bus_invar ?b" "0 \<in> bus_live ?b" "bus_queued ?b 0 = []"
    by (simp_all add: bus_invar_def bus_live_def bus_queued_def bus_subscribe_def bus_new_def)
  show ?thesis
    using dispatch_success_spec [OF r, of ex_tenant ex_id 0] b by (simp add: Let_def)
qed



text \<open>C14: the pipeline adds no refusal of its own: when no lock is poisoned, the stream belongs to
  this aggregate type and decodes, and the decided events serialise, a command that \<^verbatim>\<open>handle\<close>
  accepts is dispatched successfully.\<close>

theorem dispatch_accepts_what_handle_accepts:
  assumes "store_invar st" "\<not> st_poisoned st" "\<not> bus_poisoned b" "length (stream_of st t a) < 2 ^ 64"
    "\<forall>e \<in> set (stream_of st t a). se_aggregate_type e = ty"
    "decodes sd (stream_of st t a) h"
    "ao_handle agg (foldl (ao_apply agg) (mk t a) h) c = Inr d"
    "\<forall>e \<in> set d. \<exists>j. sd_to_value sd e = Inr j"
  shows "\<exists>st' b' cs. dispatch append_events load_stream bus_publish show_err agg sd new_id (st, b)
    t a ty c mk = ((st', b'), Inr cs)"
  using assms by (rule dispatch_progress)

theorem dispatch_accepts_what_handle_accepts_witness:
  "\<exists>st' b' cs. dispatch append_events load_stream bus_publish (\<lambda>_. []) inventory_ops id_serde
     (\<lambda>_. 9) (store_new, bus_new) ex_tenant ex_id ''inventory.item'' ex_create new_item
     = ((st', b'), Inr cs)"
proof (rule dispatch_accepts_what_handle_accepts)
  show "ao_handle inventory_ops (foldl (ao_apply inventory_ops) (new_item ex_tenant ex_id) []) ex_create
    = Inr [ex_created]" by code_simp
  show "\<not> st_poisoned store_new" "\<not> bus_poisoned bus_new" by (simp_all add: store_new_def bus_new_def)
qed (simp_all add: id_serde_def)

section \<open>All aggregates\<close>

text \<open>The aggregate version is the length of its history for every aggregate: replaying n
  events over a fresh aggregate yields version n (modulo 2^64), the version the event store assigns
  to the last of n contiguous events.\<close>

theorem replay_version_counts_events:
  "ii_version (foldl item_apply (item_empty i1) h1) = of_nat (length h1) \<and>
   pr_version (foldl product_apply (product_empty i2) h2) = of_nat (length h2) \<and>
   pa_version (foldl party_apply (party_empty i3) h3) = of_nat (length h3) \<and>
   so_version (foldl sales_apply (sales_order_empty i4) h4) = of_nat (length h4) \<and>
   po_version (foldl purchase_apply (purchase_order_empty i5) h5) = of_nat (length h5) \<and>
   iv_version (foldl invoice_apply (invoice_empty i6) h6) = of_nat (length h6) \<and>
   lg_version (foldl ledger_apply (ledger_empty i7) h7) = of_nat (length h7) \<and>
   us_version (foldl user_apply (user_new t i8) h8) = of_nat (length h8)"
  by (simp add: inventory_item.version_replay product.version_replay party.version_replay
      sales_order.version_replay purchase_order.version_replay invoice.version_replay
      ledger.version_replay user.version_replay item_empty_def product_empty_def party_empty_def
      sales_order_empty_def purchase_order_empty_def invoice_empty_def ledger_empty_def
      user_new_def user_empty_def)

text \<open>The tenant of every event of a list is the same.\<close>

definition one_tenant :: "('e \<Rightarrow> TenantId) \<Rightarrow> 'e list \<Rightarrow> bool" where
  "one_tenant f h \<longleftrightarrow> (\<forall>e \<in> set h. \<forall>e' \<in> set h. f e = f e')"

text \<open>Tenant isolation in the domain: whatever commands, with whatever tenant ids, an aggregate
  handles, all events of a history it decided carry one tenant, for each of the eight aggregates.\<close>

theorem histories_have_one_tenant:
  "(decided item_apply item_handle (item_empty i1) h1 \<longrightarrow> one_tenant inventory_event_tenant h1) \<and>
   (decided product_apply product_handle (product_empty i2) h2 \<longrightarrow> one_tenant product_event_tenant h2) \<and>
   (decided party_apply party_handle (party_empty i3) h3 \<longrightarrow> one_tenant party_event_tenant h3) \<and>
   (decided sales_apply sales_handle (sales_order_empty i4) h4 \<longrightarrow> one_tenant sales_event_tenant h4) \<and>
   (decided purchase_apply purchase_handle (purchase_order_empty i5) h5 \<longrightarrow>
      one_tenant purchase_event_tenant h5) \<and>
   (decided invoice_apply invoice_handle (invoice_empty i6) h6 \<longrightarrow> one_tenant invoice_event_tenant h6) \<and>
   (decided ledger_apply ledger_handle (ledger_empty i7) h7 \<longrightarrow> one_tenant ledger_event_tenant h7) \<and>
   (decided user_apply (user_handle lc) (user_new t i8) h8 \<longrightarrow> one_tenant user_event_tenant h8)"
proof (intro conjI impI)
  show "one_tenant inventory_event_tenant h1" if "decided item_apply item_handle (item_empty i1) h1"
    unfolding one_tenant_def
    by (intro ballI inventory_item.decided_single_tenant [OF that item_empty_invar]) (simp add: item_owner_def item_empty_def)
  show "one_tenant product_event_tenant h2" if "decided product_apply product_handle (product_empty i2) h2"
    unfolding one_tenant_def
    by (intro ballI product.decided_single_tenant [OF that product_empty_invar]) (simp add: product_owner_def product_empty_def)
  show "one_tenant party_event_tenant h3" if "decided party_apply party_handle (party_empty i3) h3"
    unfolding one_tenant_def
    by (intro ballI party.decided_single_tenant [OF that party_empty_invar]) (simp add: party_owner_def party_empty_def)
  show "one_tenant sales_event_tenant h4" if "decided sales_apply sales_handle (sales_order_empty i4) h4"
    unfolding one_tenant_def
    by (intro ballI sales_order.decided_single_tenant [OF that sales_empty_invar]) (simp add: sales_owner_def sales_order_empty_def)
  show "one_tenant purchase_event_tenant h5" if "decided purchase_apply purchase_handle (purchase_order_empty i5) h5"
    unfolding one_tenant_def
    by (intro ballI purchase_order.decided_single_tenant [OF that purchase_empty_invar]) (simp add: purchase_owner_def purchase_order_empty_def)
  show "one_tenant invoice_event_tenant h6" if "decided invoice_apply invoice_handle (invoice_empty i6) h6"
    unfolding one_tenant_def
    by (intro ballI invoice.decided_single_tenant [OF that invoice_empty_invar]) (simp add: invoice_owner_def invoice_empty_def)
  show "one_tenant ledger_event_tenant h7" if "decided ledger_apply ledger_handle (ledger_empty i7) h7"
    unfolding one_tenant_def
    by (intro ballI ledger.decided_single_tenant [OF that ledger_empty_invar]) (simp add: ledger_owner_def ledger_empty_def)
  show "one_tenant user_event_tenant h8" if "decided user_apply (user_handle lc) (user_new t i8) h8"
    unfolding one_tenant_def
    by (intro ballI user.decided_single_tenant [OF that user_new_invar(1)]) (simp add: user_owner_def user_new_def user_empty_def)
qed

theorem histories_have_one_tenant_witness:
  "one_tenant inventory_event_tenant [ex_created]"
proof -
  have "decided item_apply item_handle (item_empty (InventoryItemId ex_id)) ([] @ [ex_created])"
    by (rule decided_step [OF decided_Nil, where c = ex_create]) code_simp
  then show ?thesis using histories_have_one_tenant [of "InventoryItemId ex_id" "[ex_created]"] by simp
qed

section \<open>Read models\<close>


end
